(* ===== verification/Prelude.thy ===== *)
theory Prelude
  imports Complex_Main "HOL-Library.Word"
begin

text \<open>
  Shared vocabulary of the development: Python exceptions as values (the class hierarchy of
  software/dr47/errors.py together with the built-in classes the driver meets), the error monad
  over the sum type, bytes and byte strings, and generic facts about lists that several
  components use.
\<close>

named_theorems err_simps \<open>rewriting of the error monad\<close>
named_theorems codec_simps \<open>widths and round trips of the byte codecs\<close>
named_theorems const_defs \<open>the numeric constants of the wire protocols\<close>

unbundle bit_operations_syntax

section \<open>Bytes\<close>

type_synonym byte = "8 word"
type_synonym bytes = "byte list"

section \<open>Exceptions as values\<close>

text \<open>
  One constructor per exception class. Messages are not modelled; the operation name and the
  status code, which the code itself inspects, are. The last five are the exceptions of the web
  application: those of \<open>sqlite3\<close> and \<open>pydantic\<close>, the two of \<open>webapp/management.py\<close> (its
  \<open>PermissionError\<close> is \<open>LeasePermissionError\<close> here) and the one of \<open>webapp/network.py\<close>.
\<close>

datatype pyerror =
    DriverError
  | ConnectionError
  | ConnectionStateError
  | TransportError
  | TransportTimeout
  | ProtocolError
  | ProtocolVersionError
  | DeviceStatusError string int
  | DeviceBusyError string int
  | DeviceNotReadyError string int
  | SynchronizationError
  | SyncRequiredError
  | ParameterRangeError
  | UnsupportedCapabilityError string
  | UnsupportedParameterError string
  | UnsupportedSequenceError
  | WaveformFormatError
  | DiscoveryError
  | ProvisionError
  | StructError
  | ValueError
  | TypeError
  | KeyError
  | IndexError
  | OverflowError
  | AssertionError
  | RuntimeError
  | TimeoutError
  | OSError
  | PermissionError
  | ZeroDivisionError
  | IntegrityError
  | ValidationError
  | ManagementError
  | LeasePermissionError
  | NetworkAutoConfigError

text \<open>
  \<open>isinstance(exc, C)\<close> for the classes that an \<open>except\<close> clause of the modelled code names.
  \<open>TransportTimeout\<close> derives from both \<open>TransportError\<close> and the built-in \<open>TimeoutError\<close>, which
  is itself an \<open>OSError\<close>.
\<close>

fun is_DeviceStatusError :: "pyerror \<Rightarrow> bool" where
  "is_DeviceStatusError (DeviceStatusError _ _) = True"
| "is_DeviceStatusError (DeviceBusyError _ _) = True"
| "is_DeviceStatusError (DeviceNotReadyError _ _) = True"
| "is_DeviceStatusError _ = False"

fun is_UnsupportedCapabilityError :: "pyerror \<Rightarrow> bool" where
  "is_UnsupportedCapabilityError (UnsupportedCapabilityError _) = True"
| "is_UnsupportedCapabilityError (UnsupportedParameterError _) = True"
| "is_UnsupportedCapabilityError _ = False"

fun is_ParameterRangeError :: "pyerror \<Rightarrow> bool" where
  "is_ParameterRangeError ParameterRangeError = True"
| "is_ParameterRangeError WaveformFormatError = True"
| "is_ParameterRangeError _ = False"

fun is_ProtocolError :: "pyerror \<Rightarrow> bool" where
  "is_ProtocolError ProtocolError = True"
| "is_ProtocolError ProtocolVersionError = True"
| "is_ProtocolError _ = False"

fun is_TransportError :: "pyerror \<Rightarrow> bool" where
  "is_TransportError TransportError = True"
| "is_TransportError TransportTimeout = True"
| "is_TransportError _ = False"

fun is_OSError :: "pyerror \<Rightarrow> bool" where
  "is_OSError OSError = True"
| "is_OSError PermissionError = True"
| "is_OSError TimeoutError = True"
| "is_OSError TransportTimeout = True"
| "is_OSError _ = False"

fun is_ValueError :: "pyerror \<Rightarrow> bool" where
  "is_ValueError ValueError = True"
| "is_ValueError UnsupportedSequenceError = True"
| "is_ValueError ValidationError = True"
| "is_ValueError e = is_ParameterRangeError e"

text \<open>The attributes \<open>operation\<close> and \<open>status\<close> of a \<open>DeviceStatusError\<close>.\<close>

fun err_operation :: "pyerror \<Rightarrow> string" where
  "err_operation (DeviceStatusError opn _) = opn"
| "err_operation (DeviceBusyError opn _) = opn"
| "err_operation (DeviceNotReadyError opn _) = opn"
| "err_operation _ = []"

fun err_status :: "pyerror \<Rightarrow> int" where
  "err_status (DeviceStatusError _ st) = st"
| "err_status (DeviceBusyError _ st) = st"
| "err_status (DeviceNotReadyError _ st) = st"
| "err_status _ = 0"

section \<open>The error monad\<close>

type_synonym 'a result = "pyerror + 'a"

definition ebind :: "'a result \<Rightarrow> ('a \<Rightarrow> 'b result) \<Rightarrow> 'b result" where
  "ebind m f = (case m of Inl e \<Rightarrow> Inl e | Inr x \<Rightarrow> f x)"

text \<open>\<open>if bad: raise e\<close> followed by the rest of the body.\<close>

definition guard_raise :: "bool \<Rightarrow> pyerror \<Rightarrow> 'a result \<Rightarrow> 'a result" where
  "guard_raise bad e rest = (if bad then Inl e else rest)"

lemma ebind_Inl [simp, err_simps]: "ebind (Inl e) f = Inl e"
  by (simp add: ebind_def)

lemma ebind_Inr [simp, err_simps]: "ebind (Inr x) f = f x"
  by (simp add: ebind_def)

lemma ebind_eq_Inr [err_simps]: "ebind m f = Inr y \<longleftrightarrow> (\<exists>x. m = Inr x \<and> f x = Inr y)"
  by (cases m) auto

lemma ebind_eq_Inl [err_simps]:
  "ebind m f = Inl e \<longleftrightarrow> m = Inl e \<or> (\<exists>x. m = Inr x \<and> f x = Inl e)"
  by (cases m) auto

lemma ebind_InrE:
  assumes "ebind m f = Inr y"
  obtains x where "m = Inr x" and "f x = Inr y"
  using assms by (auto simp: ebind_eq_Inr)

lemma guard_raise_simps [simp, err_simps]:
  "guard_raise True e r = Inl e"
  "guard_raise False e r = r"
  by (simp_all add: guard_raise_def)

lemma guard_raise_eq_Inr [err_simps]: "guard_raise b e r = Inr y \<longleftrightarrow> \<not> b \<and> r = Inr y"
  by (simp add: guard_raise_def)

lemma guard_raise_eq_Inl [err_simps]:
  "guard_raise b e r = Inl e' \<longleftrightarrow> (b \<and> e = e') \<or> (\<not> b \<and> r = Inl e')"
  by (auto simp: guard_raise_def)

text \<open>
  A loop that may raise: \<open>for x in xs\<close> with the state passed along, stopping at the first
  exception.
\<close>

fun efold :: "('x \<Rightarrow> 's \<Rightarrow> 's result) \<Rightarrow> 'x list \<Rightarrow> 's \<Rightarrow> 's result" where
  "efold f [] s = Inr s"
| "efold f (x # xs) s = ebind (f x s) (efold f xs)"

lemma efold_append: "efold f (xs @ ys) s = ebind (efold f xs s) (efold f ys)"
proof (induction xs arbitrary: s)
  case Nil
  then show ?case by simp
next
  case (Cons x xs)
  then show ?case by (cases "f x s") auto
qed

lemma efold_invariant:
  assumes "\<And>x s s'. \<lbrakk> x \<in> set xs; P s; f x s = Inr s' \<rbrakk> \<Longrightarrow> P s'"
    and "P s" and "efold f xs s = Inr s'"
  shows "P s'"
  using assms
proof (induction xs arbitrary: s)
  case Nil
  then show ?case by simp
next
  case (Cons x xs)
  from Cons.prems(3) obtain s1 where s1: "f x s = Inr s1" "efold f xs s1 = Inr s'"
    by (auto elim: ebind_InrE)
  have "P s1" by (rule Cons.prems(1) [OF _ Cons.prems(2) s1(1)]) simp
  moreover have "\<And>x s s'. \<lbrakk> x \<in> set xs; P s; f x s = Inr s' \<rbrakk> \<Longrightarrow> P s'"
    by (rule Cons.prems(1)) simp_all
  ultimately show ?case using Cons.IH s1(2) by blast
qed

text \<open>A list comprehension whose body may raise.\<close>

fun emap :: "('x \<Rightarrow> 'y result) \<Rightarrow> 'x list \<Rightarrow> 'y list result" where
  "emap f [] = Inr []"
| "emap f (x # xs) = ebind (f x) (\<lambda>y. ebind (emap f xs) (\<lambda>ys. Inr (y # ys)))"

lemma emap_all_Inr: "(\<And>x. x \<in> set xs \<Longrightarrow> f x = Inr (g x)) \<Longrightarrow> emap f xs = Inr (map g xs)"
  by (induction xs) auto

lemma emap_length: "emap f xs = Inr ys \<Longrightarrow> length ys = length xs"
  by (induction xs arbitrary: ys) (auto simp: err_simps)

section \<open>Python values handed to checked integer parameters\<close>

text \<open>
  What \<open>operator.index\<close> and \<open>isinstance(_, bool)\<close> tell apart: an integer, a bool (which is
  also an index) and anything else.
\<close>

datatype pyval = PyInt int | PyBool bool | PyOther

fun operator_index :: "pyval \<Rightarrow> int result" where
  "operator_index (PyInt n) = Inr n"
| "operator_index (PyBool b) = Inr (of_bool b)"
| "operator_index PyOther = Inl TypeError"

fun is_bool :: "pyval \<Rightarrow> bool" where
  "is_bool (PyBool _) = True"
| "is_bool _ = False"

section \<open>Masks, shifts and bit fields of Python integers\<close>

lemma and_mask_mod: "(x::int) AND (2 ^ n - 1) = x mod 2 ^ n"
  by (simp only: take_bit_eq_mod [symmetric] take_bit_eq_mask mask_eq_exp_minus_1)

lemma and_mask_numerals:
  "(x::int) AND 3 = x mod 4"
  "(x::int) AND 7 = x mod 8"
  "(x::int) AND 0xF = x mod 16"
  "(x::int) AND 0xFF = x mod 256"
  "(x::int) AND 0xFFFF = x mod 65536"
  "(x::int) AND 0x3FFFF = x mod 262144"
  "(x::int) AND 0xFFFFFFFF = x mod 4294967296"
  "(x::int) AND 0xFFFFFFFFFFFF = x mod 281474976710656"
  "(x::int) AND 0xFFFFFFFFFFFFFFFF = x mod 18446744073709551616"
proof -
  show "x AND 3 = x mod 4" using and_mask_mod [of x 2] by simp
  show "x AND 7 = x mod 8" using and_mask_mod [of x 3] by simp
  show "x AND 0xF = x mod 16" using and_mask_mod [of x 4] by simp
  show "x AND 0xFF = x mod 256" using and_mask_mod [of x 8] by simp
  show "x AND 0xFFFF = x mod 65536" using and_mask_mod [of x 16] by simp
  show "x AND 0x3FFFF = x mod 262144" using and_mask_mod [of x 18] by simp
  show "x AND 0xFFFFFFFF = x mod 4294967296" using and_mask_mod [of x 32] by simp
  show "x AND 0xFFFFFFFFFFFF = x mod 281474976710656" using and_mask_mod [of x 48] by simp
  show "x AND 0xFFFFFFFFFFFFFFFF = x mod 18446744073709551616" using and_mask_mod [of x 64] by simp
qed

lemma push_or_add:
  assumes "0 \<le> b" "b < 2 ^ n"
  shows "push_bit n a OR (b::int) = a * 2 ^ n + b"
proof -
  have b: "take_bit n b = b" using assms by (simp add: take_bit_int_eq_self)
  have low: "bit b k \<Longrightarrow> k < n" for k using b by (metis bit_take_bit_iff)
  have "push_bit n a AND b = 0"
  proof (rule bit_eqI)
    fix k
    show "bit (push_bit n a AND b) k \<longleftrightarrow> bit (0 :: int) k"
      by (auto simp: bit_simps dest: low)
  qed
  then show ?thesis by (simp add: push_bit_eq_mult flip: disjunctive_add_eq_or)
qed

text \<open>The two packet headers: an opcode over sixteen flag bits over a version, and a length over a sequence number.\<close>

lemma header_word:
  assumes "0 \<le> fl" "fl < 65536" "0 \<le> ver" "ver < 65536"
  shows "(push_bit 32 opc OR push_bit 16 fl) OR (ver::int) = opc * 4294967296 + fl * 65536 + ver"
proof -
  have "(push_bit 32 opc OR push_bit 16 fl) OR ver = push_bit 32 opc OR (push_bit 16 fl OR ver)"
    by (simp add: or.assoc)
  also have "push_bit 16 fl OR ver = fl * 65536 + ver"
    using push_or_add [of ver 16 fl] assms by simp
  also have "push_bit 32 opc OR (fl * 65536 + ver) = opc * 4294967296 + (fl * 65536 + ver)"
    using push_or_add [of "fl * 65536 + ver" 32 opc] assms by simp
  finally show ?thesis by simp
qed

lemma length_word: "0 \<le> s \<Longrightarrow> s < 4294967296 \<Longrightarrow> push_bit 32 n OR (s::int) = n * 4294967296 + s"
  using push_or_add [of s 32 n] by simp

lemma drop_bit_numerals:
  "drop_bit 16 (x::int) = x div 65536"
  "drop_bit 32 (x::int) = x div 4294967296"
  "drop_bit 8 (x::int) = x div 256"
  by (simp_all add: drop_bit_eq_div)

section \<open>Slices and list facts\<close>

text \<open>\<open>xs[a:b]\<close> for \<open>0 \<le> a\<close>.\<close>

definition pyslice :: "nat \<Rightarrow> nat \<Rightarrow> 'a list \<Rightarrow> 'a list" where
  "pyslice a b xs = take (b - a) (drop a xs)"

lemma length_pyslice: "length (pyslice a b xs) = min (b - a) (length xs - a)"
  by (simp add: pyslice_def)

lemma pyslice_all [simp]: "n = length xs \<Longrightarrow> pyslice 0 n xs = xs"
  by (simp add: pyslice_def)

lemma pyslice_append_mid:
  "length xs = a \<Longrightarrow> length ys = b - a \<Longrightarrow> pyslice a b (xs @ ys @ zs) = ys"
  by (simp add: pyslice_def)

lemma nth_pyslice: "i < b - a \<Longrightarrow> a + i < length xs \<Longrightarrow> pyslice a b xs ! i = xs ! (a + i)"
  by (simp add: pyslice_def)

lemma pyslice_append_adjacent:
  "a \<le> b \<Longrightarrow> b \<le> c \<Longrightarrow> pyslice a b xs @ pyslice b c xs = pyslice a c xs"
proof -
  assume ab: "a \<le> b" and bc: "b \<le> c"
  then have "c - a = (b - a) + (c - b)" by simp
  then have "pyslice a c xs = take (b - a) (drop a xs) @ take (c - b) (drop (b - a) (drop a xs))"
    by (simp only: pyslice_def take_add)
  with ab show ?thesis by (simp add: pyslice_def)
qed

text \<open>Zero padding of a byte string up to a multiple of eight, \<open>b"\0" * ((-len) % 8)\<close>.\<close>

definition pad8 :: "bytes \<Rightarrow> bytes" where
  "pad8 raw = raw @ replicate (nat ((- int (length raw)) mod 8)) 0"

lemma length_pad8: "length (pad8 raw) = 8 * ((length raw + 7) div 8)"
proof -
  have "int (length (pad8 raw)) = int (8 * ((length raw + 7) div 8))"
    by (simp add: pad8_def) presburger
  then show ?thesis by (simp only: of_nat_eq_iff)
qed

lemma pad8_aligned: "length raw mod 8 = 0 \<Longrightarrow> pad8 raw = raw"
proof -
  assume "length raw mod 8 = 0"
  then have "(- int (length raw)) mod 8 = 0" by presburger
  then show ?thesis by (simp add: pad8_def)
qed

lemma take_pad8: "take (length raw) (pad8 raw) = raw"
  by (simp add: pad8_def)

end
