(* ===== verification/Py_Struct.thy ===== *)
theory Py_Struct
  imports Prelude
begin

text \<open>
  The part of Python's struct module (and of zlib) that the wire protocols use: fixed-width
  little-endian unsigned and signed fields, packing with the range check that raises
  struct.error, unpacking at an offset, and the CRC-32 of zlib. The codec interface is the
  locale \<open>fixed_codec\<close>; its laws are discharged for the unsigned and the signed fields.
\<close>

section \<open>Little-endian integers\<close>

fun le_enc :: "nat \<Rightarrow> int \<Rightarrow> bytes" where
  "le_enc 0 v = []"
| "le_enc (Suc n) v = word_of_int v # le_enc n (v div 256)"

fun le_dec :: "bytes \<Rightarrow> int" where
  "le_dec [] = 0"
| "le_dec (b # bs) = uint b + 256 * le_dec bs"

lemma length_le_enc [simp, codec_simps]: "length (le_enc n v) = n"
  by (induction n arbitrary: v) simp_all

lemma uint_byte_of_int: "uint (word_of_int v :: byte) = v mod 256"
  by (simp add: unsigned_of_int take_bit_eq_mod)

lemma uint_byte_bounds: "0 \<le> uint (b :: byte)" "uint b < 256"
  using uint_bounded [of b] by simp_all

lemma le_dec_enc: "le_dec (le_enc n v) = v mod 256 ^ n"
proof (induction n arbitrary: v)
  case 0
  then show ?case by simp
next
  case (Suc n)
  have "le_dec (le_enc (Suc n) v) = v mod 256 + 256 * (v div 256 mod 256 ^ n)"
    by (simp add: uint_byte_of_int Suc.IH)
  also have "\<dots> = v mod (256 * 256 ^ n)"
    by (simp add: zmod_zmult2_eq)
  finally show ?case by simp
qed

lemma le_dec_nonneg [simp]: "0 \<le> le_dec bs"
  by (induction bs) (simp_all add: uint_byte_bounds)

lemma le_dec_bound: "le_dec bs < 256 ^ length bs"
proof (induction bs)
  case Nil
  then show ?case by simp
next
  case (Cons b bs)
  have "uint b + 256 * le_dec bs < 256 + 256 * le_dec bs"
    using uint_byte_bounds(2) [of b] by simp
  also have "\<dots> \<le> 256 * 256 ^ length bs"
    using Cons.IH by simp
  finally show ?case by simp
qed

lemma le_enc_dec: "le_enc (length bs) (le_dec bs) = bs"
proof (induction bs)
  case Nil
  then show ?case by simp
next
  case (Cons b bs)
  have d: "(uint b + 256 * le_dec bs) div 256 = le_dec bs"
    using uint_byte_bounds [of b] by (simp add: div_add1_eq)
  have "word_of_int (uint b + 256 * le_dec bs) = (word_of_int ((uint b + 256 * le_dec bs) mod 256) :: byte)"
    by (metis take_bit_eq_mod uint_byte_of_int word_of_int_uint)
  also have "(uint b + 256 * le_dec bs) mod 256 = uint b"
    using uint_byte_bounds [of b] by simp
  finally have w: "word_of_int (uint b + 256 * le_dec bs) = b" by simp
  from Cons.IH d w show ?case by simp
qed

lemma le_enc_mod: "le_enc n (v mod 256 ^ n) = le_enc n v"
proof -
  have "le_enc (length (le_enc n v)) (le_dec (le_enc n v)) = le_enc n v"
    by (rule le_enc_dec)
  then show ?thesis by (simp add: le_dec_enc)
qed

lemma le_dec_append: "le_dec (xs @ ys) = le_dec xs + 256 ^ length xs * le_dec ys"
  by (induction xs) (simp_all add: algebra_simps)

section \<open>Fields and formats\<close>

text \<open>
  \<open>FU n\<close> is an unsigned and \<open>FI n\<close> a signed (two's complement) little-endian field of \<open>n\<close>
  bytes: \<open>B, H, I, Q\<close> are \<open>FU 1, 2, 4, 8\<close>; \<open>i, q\<close> are \<open>FI 4, 8\<close>.
\<close>

datatype field = FU nat | FI nat

abbreviation "fB \<equiv> FU 1"
abbreviation "fH \<equiv> FU 2"
abbreviation "fI \<equiv> FU 4"
abbreviation "fQ \<equiv> FU 8"
abbreviation "f_i \<equiv> FI 4"
abbreviation "f_q \<equiv> FI 8"

fun field_width :: "field \<Rightarrow> nat" where
  "field_width (FU n) = n"
| "field_width (FI n) = n"

text \<open>The values that struct.pack accepts for a field.\<close>

fun field_ok :: "field \<Rightarrow> int \<Rightarrow> bool" where
  "field_ok (FU n) v \<longleftrightarrow> 0 \<le> v \<and> v < 256 ^ n"
| "field_ok (FI n) v \<longleftrightarrow> - (256 ^ n) \<le> 2 * v \<and> 2 * v < 256 ^ n"

fun field_enc :: "field \<Rightarrow> int \<Rightarrow> bytes" where
  "field_enc (FU n) v = le_enc n v"
| "field_enc (FI n) v = le_enc n v"

definition to_signed :: "nat \<Rightarrow> int \<Rightarrow> int" where
  "to_signed n u = (if 2 * u < 256 ^ n then u else u - 256 ^ n)"

fun field_dec :: "field \<Rightarrow> bytes \<Rightarrow> int" where
  "field_dec (FU n) bs = le_dec bs"
| "field_dec (FI n) bs = to_signed n (le_dec bs)"

lemma length_field_enc [simp, codec_simps]: "length (field_enc f v) = field_width f"
  by (cases f) simp_all

lemma to_signed_mod:
  assumes "- (256 ^ n) \<le> 2 * v" and "2 * v < 256 ^ n"
  shows "to_signed n (v mod 256 ^ n) = v"
proof (cases "0 \<le> v")
  case True
  with assms show ?thesis by (simp add: to_signed_def)
next
  case False
  with assms have "v mod 256 ^ n = (v + 256 ^ n) mod 256 ^ n" by simp
  also have "\<dots> = v + 256 ^ n"
    using False assms by (intro mod_pos_pos_trivial) simp_all
  finally show ?thesis using False assms by (simp add: to_signed_def)
qed

lemma field_dec_enc: "field_ok f v \<Longrightarrow> field_dec f (field_enc f v) = v"
  by (cases f) (auto simp: le_dec_enc to_signed_mod)

lemma field_ok_dec:
  assumes "length bs = field_width f"
  shows "field_ok f (field_dec f bs)"
proof (cases f)
  case (FU n)
  with assms show ?thesis using le_dec_bound [of bs] by simp
next
  case (FI n)
  have "0 \<le> le_dec bs" "le_dec bs < 256 ^ n"
    using assms FI le_dec_bound [of bs] by simp_all
  then show ?thesis unfolding FI field_dec.simps field_ok.simps to_signed_def by (simp; linarith)
qed

lemma field_enc_dec: "length bs = field_width f \<Longrightarrow> field_enc f (field_dec f bs) = bs"
proof (cases f)
  case (FU n)
  assume "length bs = field_width f"
  with FU show ?thesis using le_enc_dec [of bs] by simp
next
  case (FI n)
  assume len: "length bs = field_width f"
  have "to_signed n (le_dec bs) mod 256 ^ n = le_dec bs mod 256 ^ n"
    by (simp add: to_signed_def)
  then have "le_enc n (to_signed n (le_dec bs)) = le_enc n (le_dec bs)"
    by (metis le_enc_mod)
  with FI len show ?thesis using le_enc_dec [of bs] by simp
qed

section \<open>The codec interface\<close>

text \<open>
  What a client of a fixed-width codec relies on: every encoding has the width, decoding undoes
  encoding on the accepted values, and every byte string of the width is the encoding of what
  it decodes to.
\<close>

locale fixed_codec =
  fixes width :: nat
    and ok :: "'v \<Rightarrow> bool"
    and enc :: "'v \<Rightarrow> bytes"
    and dec :: "bytes \<Rightarrow> 'v"
  assumes enc_width: "ok v \<Longrightarrow> length (enc v) = width"
    and dec_enc: "ok v \<Longrightarrow> dec (enc v) = v"
    and dec_ok: "length bs = width \<Longrightarrow> ok (dec bs)"
    and enc_dec: "length bs = width \<Longrightarrow> enc (dec bs) = bs"
begin

lemma enc_inject: "ok v \<Longrightarrow> ok w \<Longrightarrow> enc v = enc w \<Longrightarrow> v = w"
  by (metis dec_enc)

lemma dec_slice:
  "ok v \<Longrightarrow> length pre = off \<Longrightarrow> dec (pyslice off (off + width) (pre @ enc v @ post)) = v"
  by (simp add: pyslice_append_mid enc_width dec_enc)

lemma dec_prefix: "ok v \<Longrightarrow> dec (take width (enc v @ post)) = v"
  by (simp add: enc_width dec_enc)

lemma dec_onto: "length bs = width \<Longrightarrow> \<exists>v. ok v \<and> enc v = bs"
  using dec_ok enc_dec by blast

end

interpretation unsigned_field: fixed_codec n "field_ok (FU n)" "field_enc (FU n)" "field_dec (FU n)" for n
  using field_dec_enc [of "FU n"] field_ok_dec [of _ "FU n"] field_enc_dec [of _ "FU n"]
  by unfold_locales auto

interpretation signed_field: fixed_codec n "field_ok (FI n)" "field_enc (FI n)" "field_dec (FI n)" for n
  using field_dec_enc [of "FI n"] field_ok_dec [of _ "FI n"] field_enc_dec [of _ "FI n"]
  by unfold_locales auto

section \<open>struct.pack and struct.unpack_from\<close>

definition fmt_size :: "field list \<Rightarrow> nat" where
  "fmt_size fmt = sum_list (map field_width fmt)"

fun fields_ok :: "field list \<Rightarrow> int list \<Rightarrow> bool" where
  "fields_ok [] [] = True"
| "fields_ok (f # fs) (v # vs) = (field_ok f v \<and> fields_ok fs vs)"
| "fields_ok _ _ = False"

fun fields_enc :: "field list \<Rightarrow> int list \<Rightarrow> bytes" where
  "fields_enc (f # fs) (v # vs) = field_enc f v @ fields_enc fs vs"
| "fields_enc _ _ = []"

fun fields_dec :: "field list \<Rightarrow> bytes \<Rightarrow> int list" where
  "fields_dec [] bs = []"
| "fields_dec (f # fs) bs = field_dec f (take (field_width f) bs) # fields_dec fs (drop (field_width f) bs)"

definition struct_pack :: "field list \<Rightarrow> int list \<Rightarrow> bytes result" where
  "struct_pack fmt vs = (if fields_ok fmt vs then Inr (fields_enc fmt vs) else Inl StructError)"

definition struct_unpack_from :: "field list \<Rightarrow> bytes \<Rightarrow> nat \<Rightarrow> int list result" where
  "struct_unpack_from fmt buf off =
     (if off + fmt_size fmt \<le> length buf then Inr (fields_dec fmt (drop off buf)) else Inl StructError)"

text \<open>\<open>struct.unpack\<close> wants the exact size.\<close>

definition struct_unpack :: "field list \<Rightarrow> bytes \<Rightarrow> int list result" where
  "struct_unpack fmt buf =
     (if fmt_size fmt = length buf then Inr (fields_dec fmt buf) else Inl StructError)"

lemma fmt_size_simps [simp, codec_simps]:
  "fmt_size [] = 0"
  "fmt_size (f # fs) = field_width f + fmt_size fs"
  by (simp_all add: fmt_size_def)

lemma fields_ok_length: "fields_ok fs vs \<Longrightarrow> length vs = length fs"
  by (induction fs vs rule: fields_ok.induct) simp_all

lemma length_fields_enc: "length vs = length fs \<Longrightarrow> length (fields_enc fs vs) = fmt_size fs"
  by (induction fs vs rule: fields_enc.induct) simp_all

lemma length_fields_dec [simp]: "length (fields_dec fs bs) = length fs"
  by (induction fs arbitrary: bs) simp_all

lemma fields_dec_enc: "fields_ok fs vs \<Longrightarrow> fields_dec fs (fields_enc fs vs @ rest) = vs"
  by (induction fs vs rule: fields_ok.induct) (simp_all add: field_dec_enc)

lemma fields_dec_take: "fmt_size fs \<le> n \<Longrightarrow> fields_dec fs (take n bs) = fields_dec fs bs"
proof (induction fs arbitrary: n bs)
  case Nil
  then show ?case by simp
next
  case (Cons f fs)
  have "fields_dec fs (take (n - field_width f) (drop (field_width f) bs)) =
        fields_dec fs (drop (field_width f) bs)"
    by (rule Cons.IH) (use Cons.prems in simp)
  with Cons.prems show ?case by (simp add: drop_take min_def)
qed

lemma fields_dec_bounds_nth:
  assumes "fmt_size fs \<le> length bs" and "i < length fs"
  shows "field_ok (fs ! i) (fields_dec fs bs ! i)"
  using assms
proof (induction fs arbitrary: bs i)
  case Nil
  then show ?case by simp
next
  case (Cons f fs)
  have "length (take (field_width f) bs) = field_width f" using Cons.prems by simp
  then show ?case using Cons by (cases i) (simp_all add: field_ok_dec)
qed

lemma fields_ok_dec: "fmt_size fs \<le> length bs \<Longrightarrow> fields_ok fs (fields_dec fs bs)"
proof (induction fs arbitrary: bs)
  case Nil
  then show ?case by simp
next
  case (Cons f fs)
  have "length (take (field_width f) bs) = field_width f" using Cons.prems by simp
  then show ?case using Cons.prems by (simp add: field_ok_dec Cons.IH)
qed

lemma fields_enc_dec: "length bs = fmt_size fs \<Longrightarrow> fields_enc fs (fields_dec fs bs) = bs"
proof (induction fs arbitrary: bs)
  case Nil
  then show ?case by simp
next
  case (Cons f fs)
  have "length (take (field_width f) bs) = field_width f" using Cons.prems by simp
  then show ?case using Cons by (simp add: field_enc_dec)
qed

text \<open>A whole format is again a codec, over the lists of accepted field values.\<close>

interpretation fmt_codec: fixed_codec "fmt_size fs" "fields_ok fs" "fields_enc fs" "fields_dec fs" for fs
proof (unfold_locales, goal_cases)
  case (1 v)
  then show ?case by (simp add: fields_ok_length length_fields_enc)
next
  case (2 v)
  then show ?case using fields_dec_enc [of fs v "[]"] by simp
next
  case (3 bs)
  then show ?case by (simp add: fields_ok_dec)
next
  case (4 bs)
  then show ?case by (rule fields_enc_dec)
qed

lemma struct_pack_ok: "fields_ok fmt vs \<Longrightarrow> struct_pack fmt vs = Inr (fields_enc fmt vs)"
  by (simp add: struct_pack_def)

lemma struct_pack_eq_Inr [err_simps]:
  "struct_pack fmt vs = Inr bs \<longleftrightarrow> fields_ok fmt vs \<and> bs = fields_enc fmt vs"
  by (auto simp: struct_pack_def)

lemma struct_unpack_from_ok:
  "off + fmt_size fmt \<le> length buf \<Longrightarrow>
   struct_unpack_from fmt buf off = Inr (fields_dec fmt (drop off buf))"
  by (simp add: struct_unpack_from_def)

lemma struct_unpack_pack:
  "struct_pack fmt vs = Inr bs \<Longrightarrow> struct_unpack fmt bs = Inr vs"
  by (auto simp: struct_pack_eq_Inr struct_unpack_def fields_ok_length length_fields_enc
      fmt_codec.dec_enc)

lemma struct_unpack_from_pack:
  "struct_pack fmt vs = Inr bs \<Longrightarrow> length pre = off \<Longrightarrow>
   struct_unpack_from fmt (pre @ bs @ post) off = Inr vs"
  by (auto simp: struct_pack_eq_Inr struct_unpack_from_def fields_ok_length length_fields_enc
      fields_dec_enc)

section \<open>CRC-32 (zlib.crc32)\<close>

text \<open>The reflected polynomial 0xEDB88320, one bit at a time.\<close>

definition crc_bit :: "int \<Rightarrow> int" where
  "crc_bit c = (if odd c then (c div 2) XOR 0xEDB88320 else c div 2)"

definition crc_byte :: "int \<Rightarrow> int \<Rightarrow> int" where
  "crc_byte c b =
     crc_bit (crc_bit (crc_bit (crc_bit (crc_bit (crc_bit (crc_bit (crc_bit (c XOR b))))))))"

definition zlib_crc32 :: "bytes \<Rightarrow> int" where
  "zlib_crc32 bs = foldl crc_byte 0xFFFFFFFF (map uint bs) XOR 0xFFFFFFFF"

lemma crc_bit_bounds: "0 \<le> c \<Longrightarrow> c < 2 ^ 32 \<Longrightarrow> 0 \<le> crc_bit c \<and> crc_bit c < 2 ^ 32"
proof -
  assume c: "0 \<le> c" "c < 2 ^ 32"
  then have h: "0 \<le> c div 2" "c div 2 < 2 ^ 32" by linarith+
  then have "c div 2 XOR 0xEDB88320 < 2 ^ 32" by (intro XOR_upper) simp_all
  with h show ?thesis by (simp add: crc_bit_def)
qed

lemma crc_byte_bounds:
  assumes "0 \<le> c" "c < 2 ^ 32" "0 \<le> b" "b < 256"
  shows "0 \<le> crc_byte c b \<and> crc_byte c b < 2 ^ 32"
proof -
  have "c XOR b < 2 ^ 32" by (rule XOR_upper) (use assms in simp_all)
  moreover have "0 \<le> c XOR b" using assms by simp
  ultimately show ?thesis unfolding crc_byte_def by (blast intro: crc_bit_bounds [THEN conjunct1] crc_bit_bounds [THEN conjunct2])
qed

lemma crc_fold_bounds:
  "0 \<le> c \<Longrightarrow> c < 2 ^ 32 \<Longrightarrow> \<forall>b \<in> set bs. 0 \<le> b \<and> b < 256 \<Longrightarrow>
   0 \<le> foldl crc_byte c bs \<and> foldl crc_byte c bs < 2 ^ 32"
proof (induction bs arbitrary: c)
  case Nil
  then show ?case by simp
next
  case (Cons b bs)
  then show ?case using crc_byte_bounds [of c b] by simp
qed

lemma zlib_crc32_bounds: "0 \<le> zlib_crc32 bs" "zlib_crc32 bs < 256 ^ 4"
proof -
  let ?c = "foldl crc_byte 0xFFFFFFFF (map uint bs)"
  have "0 \<le> ?c \<and> ?c < 2 ^ 32"
    by (rule crc_fold_bounds) (auto simp: uint_byte_bounds)
  then show "0 \<le> zlib_crc32 bs" and "zlib_crc32 bs < 256 ^ 4"
    using XOR_upper [of ?c 32 "0xFFFFFFFF"] by (simp_all add: zlib_crc32_def)
qed

text \<open>The check value of the standard: the CRC of the ASCII digits 1 to 9.\<close>

lemma zlib_crc32_check: "zlib_crc32 [49, 50, 51, 52, 53, 54, 55, 56, 57] = 0xCBF43926"
  by (simp add: zlib_crc32_def crc_byte_def crc_bit_def)

end
