(* ===== verification/Envelope.thy ===== *)
theory Envelope
  imports Py_Struct
begin

text \<open>
  The packet envelope that the RFCTRL2 and the WAVECTR0 protocols share, as a specification:
  three little-endian 64-bit words (magic; opcode, flags and version; payload length and
  sequence number) before the payload, which is padded with zeros to a multiple of eight bytes.
  \<open>wire_protocol\<close> is the contract of a function that frames a request; its lemmas say that the
  fields of a framed request can be read back and that framing is injective. The packet builders
  of the two protocols interpret it.
\<close>

definition envelope :: "int \<Rightarrow> int \<Rightarrow> int \<Rightarrow> int \<Rightarrow> bytes \<Rightarrow> int \<Rightarrow> bytes" where
  "envelope magic version opc fl raw sq =
     fields_enc [fQ, fQ, fQ]
       [magic, opc * 4294967296 + fl * 65536 + version, int (length raw) * 4294967296 + sq] @ pad8 raw"

text \<open>The fields a receiver reads: magic, version, opcode, flags, sequence number and payload.\<close>

definition open_envelope :: "bytes \<Rightarrow> int \<times> int \<times> int \<times> int \<times> int \<times> bytes" where
  "open_envelope pkt =
     (let h = fields_dec [fQ, fQ, fQ] pkt; hdr0 = h ! 1; hdr1 = h ! 2 in
      (h ! 0, hdr0 mod 65536, hdr0 div 4294967296, hdr0 div 65536 mod 65536,
       hdr1 mod 4294967296, take (nat (hdr1 div 4294967296)) (drop 24 pkt)))"

definition envelope_ok :: "int \<Rightarrow> int \<Rightarrow> int \<Rightarrow> int \<Rightarrow> bytes \<Rightarrow> int \<Rightarrow> bool" where
  "envelope_ok magic version opc fl raw sq \<longleftrightarrow>
     0 \<le> magic \<and> magic < 2 ^ 64 \<and> 0 \<le> version \<and> version < 65536 \<and>
     0 \<le> opc \<and> opc < 4294967296 \<and> 0 \<le> fl \<and> fl < 65536 \<and>
     int (length raw) < 4294967296 \<and> 0 \<le> sq \<and> sq < 4294967296"

lemma mult_add_div_mod:
  assumes "0 \<le> b" "b < M"
  shows "(a * M + b) div M = (a::int)" and "(a * M + b) mod M = b"
  using assms by (simp_all add: div_pos_pos_trivial mod_pos_pos_trivial)

lemma header_word_bounds:
  assumes "0 \<le> (opc::int)" "opc < 4294967296" "0 \<le> fl" "fl < 65536" "0 \<le> ver" "ver < 65536"
  shows "0 \<le> opc * 4294967296 + fl * 65536 + ver"
    and "opc * 4294967296 + fl * 65536 + ver < 18446744073709551616"
    and "(opc * 4294967296 + fl * 65536 + ver) mod 65536 = ver"
    and "(opc * 4294967296 + fl * 65536 + ver) div 65536 mod 65536 = fl"
    and "(opc * 4294967296 + fl * 65536 + ver) div 4294967296 = opc"
proof -
  have low: "opc * 4294967296 + fl * 65536 + ver = (opc * 65536 + fl) * 65536 + ver"
    and high: "opc * 4294967296 + fl * 65536 + ver = opc * 4294967296 + (fl * 65536 + ver)"
    by simp_all
  show "0 \<le> opc * 4294967296 + fl * 65536 + ver" using assms by simp
  show "opc * 4294967296 + fl * 65536 + ver < 18446744073709551616" using assms by linarith
  show "(opc * 4294967296 + fl * 65536 + ver) mod 65536 = ver"
    unfolding low using assms by (intro mult_add_div_mod)
  show "(opc * 4294967296 + fl * 65536 + ver) div 65536 mod 65536 = fl"
    unfolding low using assms by (simp only: mult_add_div_mod)
  show "(opc * 4294967296 + fl * 65536 + ver) div 4294967296 = opc"
    unfolding high by (rule mult_add_div_mod(1)) (use assms in linarith)+
qed

lemma length_word_bounds:
  assumes "0 \<le> (n::int)" "n < 4294967296" "0 \<le> s" "s < 4294967296"
  shows "0 \<le> n * 4294967296 + s" and "n * 4294967296 + s < 18446744073709551616"
    and "(n * 4294967296 + s) mod 4294967296 = s" and "(n * 4294967296 + s) div 4294967296 = n"
  using assms by (simp_all only: mult_add_div_mod)

lemma envelope_fields_ok:
  assumes "envelope_ok magic version opc fl raw sq"
  shows "fields_ok [fQ, fQ, fQ]
    [magic, opc * 4294967296 + fl * 65536 + version, int (length raw) * 4294967296 + sq]"
  using assms header_word_bounds(1,2) [of opc fl version] length_word_bounds(1,2) [of "int (length raw)" sq]
  by (simp add: envelope_ok_def)

lemma length_envelope: "length (envelope magic version opc fl raw sq) = 24 + length (pad8 raw)"
  by (simp add: envelope_def length_fields_enc)

lemma envelope_header:
  assumes "envelope_ok magic version opc fl raw sq"
  defines "h \<equiv> fields_dec [fQ, fQ, fQ] (envelope magic version opc fl raw sq)"
  shows "h ! 0 = magic" and "h ! 1 mod 65536 = version" and "h ! 1 div 4294967296 = opc"
    and "h ! 1 div 65536 mod 65536 = fl" and "h ! 2 div 4294967296 = int (length raw)"
    and "h ! 2 mod 4294967296 = sq"
proof -
  let ?vs = "[magic, opc * 4294967296 + fl * 65536 + version, int (length raw) * 4294967296 + sq]"
  have d: "h = ?vs"
    unfolding h_def envelope_def by (rule fields_dec_enc [OF envelope_fields_ok [OF assms(1)]])
  have r: "0 \<le> opc" "opc < 4294967296" "0 \<le> fl" "fl < 65536" "0 \<le> version" "version < 65536"
    using assms(1) by (simp_all add: envelope_ok_def)
  have q: "0 \<le> int (length raw)" "int (length raw) < 4294967296" "0 \<le> sq" "sq < 4294967296"
    using assms(1) by (simp_all add: envelope_ok_def)
  show "h ! 0 = magic" "h ! 1 mod 65536 = version" "h ! 1 div 4294967296 = opc"
    "h ! 1 div 65536 mod 65536 = fl"
    unfolding d using header_word_bounds(3-5) [OF r] by simp_all
  show "h ! 2 div 4294967296 = int (length raw)" "h ! 2 mod 4294967296 = sq"
    unfolding d using length_word_bounds(3,4) [OF q] by simp_all
qed

lemma drop_envelope: "drop 24 (envelope magic version opc fl raw sq) = pad8 raw"
  by (simp add: envelope_def)

lemma open_envelope_envelope:
  assumes "envelope_ok magic version opc fl raw sq"
  shows "open_envelope (envelope magic version opc fl raw sq) = (magic, version, opc, fl, sq, raw)"
  unfolding open_envelope_def Let_def drop_envelope
  by (simp only: envelope_header [OF assms]) (simp add: take_pad8)

text \<open>Conversely, a datagram whose payload and padding are as announced is the envelope of its fields.\<close>

lemma split_word:
  "(x::int) = x div 4294967296 * 4294967296 + x div 65536 mod 65536 * 65536 + x mod 65536"
proof -
  have "x div 65536 div 65536 = x div (65536 * 65536)"
    by (simp add: zdiv_zmult2_eq)
  then have "x div 65536 = x div 4294967296 * 65536 + x div 65536 mod 65536"
    using div_mult_mod_eq [of "x div 65536" 65536] by simp
  moreover have "x = x div 65536 * 65536 + x mod 65536"
    by (rule div_mult_mod_eq [symmetric])
  ultimately show ?thesis by linarith
qed

lemma reopen_envelope:
  assumes len: "24 \<le> length pkt"
    and h: "h = fields_dec [fQ, fQ, fQ] pkt"
    and pay: "drop 24 pkt = pad8 payload"
    and size: "int (length payload) = h ! 2 div 4294967296"
  shows "pkt = envelope (h ! 0) (h ! 1 mod 65536) (h ! 1 div 4294967296)
    (h ! 1 div 65536 mod 65536) payload (h ! 2 mod 4294967296)"
proof -
  have "take 24 pkt = fields_enc [fQ, fQ, fQ] (fields_dec [fQ, fQ, fQ] (take 24 pkt))"
    by (rule fields_enc_dec [symmetric]) (use len in simp)
  also have "fields_dec [fQ, fQ, fQ] (take 24 pkt) = h"
    unfolding h by (rule fields_dec_take) simp
  also have "h = [h ! 0, h ! 1, h ! 2]" unfolding h by simp
  also have "h ! 1 = h ! 1 div 4294967296 * 4294967296 + h ! 1 div 65536 mod 65536 * 65536 + h ! 1 mod 65536"
    by (rule split_word)
  also have "h ! 2 = int (length payload) * 4294967296 + h ! 2 mod 4294967296"
    unfolding size by (rule div_mult_mod_eq [symmetric])
  finally have "take 24 pkt = fields_enc [fQ, fQ, fQ]
      [h ! 0, h ! 1 div 4294967296 * 4294967296 + h ! 1 div 65536 mod 65536 * 65536 + h ! 1 mod 65536,
       int (length payload) * 4294967296 + h ! 2 mod 4294967296]" .
  then show ?thesis
    unfolding envelope_def pay [symmetric] by (metis append_take_drop_id)
qed

section \<open>The framing contract\<close>

locale wire_protocol =
  fixes magic :: int
    and version :: int
    and frame :: "int \<Rightarrow> int \<Rightarrow> bytes \<Rightarrow> int \<Rightarrow> bytes result"
  assumes magic_range: "0 \<le> magic \<and> magic < 2 ^ 64"
    and version_range: "0 \<le> version \<and> version < 65536"
    and frame_envelope:
      "\<lbrakk> 0 \<le> opc; opc < 4294967296; 0 \<le> fl; fl < 65536; int (length raw) < 4294967296;
         0 \<le> sq; sq < 4294967296 \<rbrakk> \<Longrightarrow> frame opc fl raw sq = Inr (envelope magic version opc fl raw sq)"
begin

lemma frame_ok:
  "\<lbrakk> 0 \<le> opc; opc < 4294967296; 0 \<le> fl; fl < 65536; int (length raw) < 4294967296;
     0 \<le> sq; sq < 4294967296 \<rbrakk> \<Longrightarrow> envelope_ok magic version opc fl raw sq"
  using magic_range version_range by (simp add: envelope_ok_def)

lemma frame_opens:
  "\<lbrakk> 0 \<le> opc; opc < 4294967296; 0 \<le> fl; fl < 65536; int (length raw) < 4294967296;
     0 \<le> sq; sq < 4294967296 \<rbrakk> \<Longrightarrow>
   \<exists>pkt. frame opc fl raw sq = Inr pkt \<and>
         open_envelope pkt = (magic, version, opc, fl, sq, raw) \<and>
         length pkt = 24 + 8 * ((length raw + 7) div 8)"
  by (simp add: frame_envelope frame_ok open_envelope_envelope length_envelope length_pad8)

lemma frame_inject:
  assumes "0 \<le> opc" "opc < 4294967296" "0 \<le> fl" "fl < 65536" "int (length raw) < 4294967296"
    "0 \<le> sq" "sq < 4294967296"
    and "0 \<le> opc'" "opc' < 4294967296" "0 \<le> fl'" "fl' < 65536" "int (length raw') < 4294967296"
    "0 \<le> sq'" "sq' < 4294967296"
    and "frame opc fl raw sq = frame opc' fl' raw' sq'"
  shows "opc = opc' \<and> fl = fl' \<and> raw = raw' \<and> sq = sq'"
proof -
  have "envelope magic version opc fl raw sq = envelope magic version opc' fl' raw' sq'"
    using assms by (simp add: frame_envelope)
  moreover have "envelope_ok magic version opc fl raw sq" "envelope_ok magic version opc' fl' raw' sq'"
    using assms by (simp_all add: frame_ok)
  ultimately show ?thesis
    by (metis open_envelope_envelope prod.inject)
qed

end

end
