(* ===== verification/Wave_Protocol.thy ===== *)
theory Wave_Protocol
  imports Envelope
begin

text \<open>
  The WAVECTR0 / WAVERSP0 waveform protocol of software/dr47/protocol.py: request packing
  (\<open>_wave_uint\<close>, \<open>_pack_wave_packet\<close>, \<open>pack_wave_*\<close>) and response decoding
  (\<open>parse_wave_response\<close>). The lemmas say what each accepted request looks like on the wire and
  that the response decoder accepts exactly the well-formed datagrams.
\<close>

section \<open>Constants\<close>

definition WAVE_CTRL_MAGIC :: int where [simp, const_defs]: "WAVE_CTRL_MAGIC = 0x5741564543545230"
definition WAVE_RESP_MAGIC :: int where [simp, const_defs]: "WAVE_RESP_MAGIC = 0x5741564552535030"
definition WAVE_PROTOCOL_VERSION :: int where [simp, const_defs]: "WAVE_PROTOCOL_VERSION = 1"
definition WAVE_OP_BEGIN :: int where [simp, const_defs]: "WAVE_OP_BEGIN = 1"
definition WAVE_OP_DATA :: int where [simp, const_defs]: "WAVE_OP_DATA = 2"
definition WAVE_OP_COMMIT :: int where [simp, const_defs]: "WAVE_OP_COMMIT = 3"
definition WAVE_OP_PLAY :: int where [simp, const_defs]: "WAVE_OP_PLAY = 4"
definition WAVE_OP_PAUSE :: int where [simp, const_defs]: "WAVE_OP_PAUSE = 5"
definition WAVE_OP_STOP :: int where [simp, const_defs]: "WAVE_OP_STOP = 6"
definition WAVE_OP_ABORT :: int where [simp, const_defs]: "WAVE_OP_ABORT = 7"
definition WAVE_OP_STATUS :: int where [simp, const_defs]: "WAVE_OP_STATUS = 8"

definition WAVE_STATUS_OK :: int where [simp, const_defs]: "WAVE_STATUS_OK = 0"
definition WAVE_STATUS_BAD_REQUEST :: int where [simp, const_defs]: "WAVE_STATUS_BAD_REQUEST = 2"
definition WAVE_STATUS_INCOMPLETE :: int where [simp, const_defs]: "WAVE_STATUS_INCOMPLETE = 4"
definition WAVE_STATUS_SEQUENCE :: int where [simp, const_defs]: "WAVE_STATUS_SEQUENCE = 5"
definition WAVE_STATUS_OFFSET :: int where [simp, const_defs]: "WAVE_STATUS_OFFSET = 6"
definition WAVE_STATUS_CRC :: int where [simp, const_defs]: "WAVE_STATUS_CRC = 7"

definition WAVE_LAYOUT_INTERLEAVED_512B :: int where
  [simp, const_defs]: "WAVE_LAYOUT_INTERLEAVED_512B = 1"
definition WAVE_RESPONSE_HEADER_BYTES :: int where
  [simp, const_defs]: "WAVE_RESPONSE_HEADER_BYTES = 24"
definition WAVE_RESPONSE_COMMON_BYTES :: int where
  [simp, const_defs]: "WAVE_RESPONSE_COMMON_BYTES = 28"
definition WAVE_RESPONSE_DATA_BYTES :: int where
  [simp, const_defs]: "WAVE_RESPONSE_DATA_BYTES = 60"
definition WAVE_RESPONSE_STATUS_BYTES :: int where
  [simp, const_defs]: "WAVE_RESPONSE_STATUS_BYTES = 80"
definition WAVE_CTRL_HEADER_BYTES :: int where [simp, const_defs]: "WAVE_CTRL_HEADER_BYTES = 24"
definition WAVE_DATA_HEADER_BYTES :: int where [simp, const_defs]: "WAVE_DATA_HEADER_BYTES = 24"
definition WAVE_DAC_FRAME_BYTES :: int where [simp, const_defs]: "WAVE_DAC_FRAME_BYTES = 8 * 32"

definition BEAT_BYTES :: int where [simp, const_defs]: "BEAT_BYTES = 32"
definition DDR_BASE :: int where [simp, const_defs]: "DDR_BASE = 0"
definition DDR_TILE_BYTES :: int where [simp, const_defs]: "DDR_TILE_BYTES = 4096"
definition DDR_TILE_CHANNELS :: int where [simp, const_defs]: "DDR_TILE_CHANNELS = 8"
definition DDR_SUPERBLOCK_BYTES :: int where
  [simp, const_defs]: "DDR_SUPERBLOCK_BYTES = DDR_TILE_BYTES * DDR_TILE_CHANNELS"
definition DDR_INTERLEAVED_LANE_BYTES :: int where
  [simp, const_defs]: "DDR_INTERLEAVED_LANE_BYTES = 8"
definition DDR_INTERLEAVED_BEAT_BYTES :: int where
  [simp, const_defs]: "DDR_INTERLEAVED_BEAT_BYTES = DDR_INTERLEAVED_LANE_BYTES * DDR_TILE_CHANNELS"
definition DDR_INTERLEAVED_CHANNELS :: int where
  [simp, const_defs]: "DDR_INTERLEAVED_CHANNELS = DDR_TILE_CHANNELS"
definition DDR_PHYS_BYTES :: int where
  [simp, const_defs]: "DDR_PHYS_BYTES = 8 * 1024 * 1024 * 1024"
definition DDR_RESERVED_TOP_BYTES :: int where
  [simp, const_defs]: "DDR_RESERVED_TOP_BYTES = 1 * 1024 * 1024"
definition DDR_USABLE_WAVEFORM_BYTES :: int where
  [simp, const_defs]: "DDR_USABLE_WAVEFORM_BYTES = DDR_PHYS_BYTES - DDR_RESERVED_TOP_BYTES"
definition DDR_MAX_BYTES_PER_CHANNEL :: int where
  [const_defs]: "DDR_MAX_BYTES_PER_CHANNEL =
     (DDR_USABLE_WAVEFORM_BYTES div DDR_INTERLEAVED_CHANNELS) AND NOT (BEAT_BYTES - 1)"
definition DDR_MAX_INTERLEAVED_BYTES :: int where
  [const_defs]: "DDR_MAX_INTERLEAVED_BYTES = DDR_MAX_BYTES_PER_CHANNEL * DDR_INTERLEAVED_CHANNELS"

definition UDP_STANDARD_MTU_BYTES :: int where [simp, const_defs]: "UDP_STANDARD_MTU_BYTES = 1500"
definition UDP_IPV4_HEADER_BYTES :: int where [simp, const_defs]: "UDP_IPV4_HEADER_BYTES = 20"
definition UDP_HEADER_BYTES :: int where [simp, const_defs]: "UDP_HEADER_BYTES = 8"
definition UDP_MAX_PAYLOAD_BYTES :: int where
  [simp, const_defs]: "UDP_MAX_PAYLOAD_BYTES = UDP_STANDARD_MTU_BYTES - UDP_IPV4_HEADER_BYTES - UDP_HEADER_BYTES"
definition UDP_BULK_HEADER_BYTES :: int where [simp, const_defs]: "UDP_BULK_HEADER_BYTES = 24"
definition UDP_BULK_SAFE_MAX_BEATS :: int where [simp, const_defs]: "UDP_BULK_SAFE_MAX_BEATS = 4"

lemma DDR_MAX_BYTES_PER_CHANNEL_value [simp]: "DDR_MAX_BYTES_PER_CHANNEL = 1073610752"
  by (simp add: DDR_MAX_BYTES_PER_CHANNEL_def)

lemma DDR_MAX_INTERLEAVED_BYTES_value [simp]: "DDR_MAX_INTERLEAVED_BYTES = 8588886016"
  by (simp add: DDR_MAX_INTERLEAVED_BYTES_def)

section \<open>Waveform states\<close>

datatype wave_state =
    WS_IDLE | WS_UPLOAD | WS_READY | WS_PREFETCH | WS_WAIT_TRIGGER
  | WS_PLAYING | WS_DRAINING | WS_DONE | WS_ERROR

fun wave_state_code :: "wave_state \<Rightarrow> int" where
  "wave_state_code WS_IDLE = 0"
| "wave_state_code WS_UPLOAD = 1"
| "wave_state_code WS_READY = 2"
| "wave_state_code WS_PREFETCH = 3"
| "wave_state_code WS_WAIT_TRIGGER = 4"
| "wave_state_code WS_PLAYING = 5"
| "wave_state_code WS_DRAINING = 6"
| "wave_state_code WS_DONE = 7"
| "wave_state_code WS_ERROR = 8"

text \<open>The dictionary \<open>WAVEFORM_STATE_NAMES\<close>.\<close>

fun wave_state_name :: "wave_state \<Rightarrow> string" where
  "wave_state_name WS_IDLE = ''idle''"
| "wave_state_name WS_UPLOAD = ''upload''"
| "wave_state_name WS_READY = ''ready''"
| "wave_state_name WS_PREFETCH = ''prefetch''"
| "wave_state_name WS_WAIT_TRIGGER = ''wait_trigger''"
| "wave_state_name WS_PLAYING = ''playing''"
| "wave_state_name WS_DRAINING = ''draining''"
| "wave_state_name WS_DONE = ''done''"
| "wave_state_name WS_ERROR = ''error''"

definition all_wave_states :: "wave_state list" where
  "all_wave_states = [WS_IDLE, WS_UPLOAD, WS_READY, WS_PREFETCH, WS_WAIT_TRIGGER,
     WS_PLAYING, WS_DRAINING, WS_DONE, WS_ERROR]"

definition WAVEFORM_STATE_NAMES :: "int \<Rightarrow> string option" where
  "WAVEFORM_STATE_NAMES = map_of (map (\<lambda>s. (wave_state_code s, wave_state_name s)) all_wave_states)"

lemma WAVEFORM_STATE_NAMES_code: "WAVEFORM_STATE_NAMES (wave_state_code s) = Some (wave_state_name s)"
  by (cases s) (simp_all add: WAVEFORM_STATE_NAMES_def all_wave_states_def)

lemma WAVEFORM_STATE_NAMES_Some:
  "WAVEFORM_STATE_NAMES c = Some n \<Longrightarrow> \<exists>s. c = wave_state_code s \<and> n = wave_state_name s"
  unfolding WAVEFORM_STATE_NAMES_def by (drule map_of_SomeD) auto

lemma wave_state_code_inject: "wave_state_code s = wave_state_code t \<longleftrightarrow> s = t"
  by (cases s; cases t) simp_all

lemma wave_state_code_range: "0 \<le> wave_state_code s \<and> wave_state_code s \<le> 8"
  by (cases s) simp_all

section \<open>Request packing\<close>

definition crc32 :: "bytes \<Rightarrow> int" where
  "crc32 payload = zlib_crc32 payload AND 0xFFFFFFFF"

definition wave_uint :: "pyval \<Rightarrow> nat \<Rightarrow> bool \<Rightarrow> int result" where
  "wave_uint value bits nonzero =
     (case operator_index value of
        Inl _ \<Rightarrow> Inl ParameterRangeError
      | Inr result \<Rightarrow>
          guard_raise (is_bool value \<or> \<not> (of_bool nonzero \<le> result \<and> result < 2 ^ bits))
            ParameterRangeError (Inr result))"

definition pack_wave_packet :: "pyval \<Rightarrow> bytes \<Rightarrow> pyval \<Rightarrow> pyval \<Rightarrow> bytes result" where
  "pack_wave_packet opcode raw seq flags =
     ebind (wave_uint opcode 32 False) (\<lambda>opc.
     ebind (wave_uint flags 16 False) (\<lambda>fl.
     let hdr0 = (push_bit 32 opc OR push_bit 16 fl) OR WAVE_PROTOCOL_VERSION in
     ebind (wave_uint seq 32 False) (\<lambda>sq.
     let hdr1 = push_bit 32 (int (length raw)) OR sq in
     ebind (struct_pack [fQ, fQ, fQ] [WAVE_CTRL_MAGIC, hdr0, hdr1]) (\<lambda>hdr.
     Inr (hdr @ pad8 raw)))))"

definition pack_wave_begin ::
  "pyval \<Rightarrow> pyval \<Rightarrow> pyval \<Rightarrow> pyval \<Rightarrow> pyval \<Rightarrow> pyval \<Rightarrow> pyval \<Rightarrow> bytes result" where
  "pack_wave_begin session total_bytes channel_mask total_beats loop_count layout seq =
     ebind (wave_uint session 32 True) (\<lambda>session.
     ebind (wave_uint total_bytes 64 True) (\<lambda>total_bytes.
     ebind (wave_uint total_beats 32 True) (\<lambda>total_beats.
     ebind (wave_uint channel_mask 8 True) (\<lambda>channel_mask.
     ebind (wave_uint loop_count 32 True) (\<lambda>loop_count.
     ebind (wave_uint layout 8 False) (\<lambda>layout.
     guard_raise (total_bytes > DDR_MAX_INTERLEAVED_BYTES \<or>
                  total_bytes \<noteq> total_beats * WAVE_DAC_FRAME_BYTES) ParameterRangeError (
     guard_raise (layout \<noteq> WAVE_LAYOUT_INTERLEAVED_512B) ParameterRangeError (
     ebind (struct_pack [fI, fQ, fB, fB, fH, fI, fI, fI]
              [session, total_bytes, channel_mask, layout, 0, total_beats, loop_count,
               DDR_INTERLEAVED_BEAT_BYTES]) (\<lambda>payload.
     pack_wave_packet (PyInt WAVE_OP_BEGIN) payload seq (PyInt 0))))))))))"

definition wave_max_data :: int where
  "wave_max_data =
     ((UDP_MAX_PAYLOAD_BYTES - WAVE_CTRL_HEADER_BYTES - WAVE_DATA_HEADER_BYTES) div BEAT_BYTES) * BEAT_BYTES"

definition pack_wave_data :: "pyval \<Rightarrow> pyval \<Rightarrow> pyval \<Rightarrow> bytes \<Rightarrow> pyval \<Rightarrow> bytes result" where
  "pack_wave_data session packet_seq byte_offset raw seq =
     ebind (wave_uint session 32 True) (\<lambda>session.
     ebind (wave_uint packet_seq 32 False) (\<lambda>packet_seq.
     ebind (wave_uint byte_offset 64 False) (\<lambda>byte_offset.
     guard_raise (raw = [] \<or> int (length raw) > wave_max_data \<or> int (length raw) mod BEAT_BYTES \<noteq> 0)
       ParameterRangeError (
     guard_raise (byte_offset mod BEAT_BYTES \<noteq> 0 \<or> byte_offset + int (length raw) > 2 ^ 64)
       ParameterRangeError (
     ebind (struct_pack [fI, fI, fQ, fI, fI]
              [session, packet_seq, byte_offset, int (length raw), crc32 raw]) (\<lambda>header.
     pack_wave_packet (PyInt WAVE_OP_DATA) (header @ raw) seq (PyInt 0)))))))"

definition pack_wave_command :: "pyval \<Rightarrow> pyval \<Rightarrow> pyval \<Rightarrow> bytes result" where
  "pack_wave_command opcode session seq =
     ebind (wave_uint opcode 32 False) (\<lambda>opc.
     guard_raise (opc \<notin> {WAVE_OP_COMMIT, WAVE_OP_PLAY, WAVE_OP_PAUSE, WAVE_OP_STOP,
                          WAVE_OP_ABORT, WAVE_OP_STATUS}) ParameterRangeError (
     ebind (wave_uint session 32 False) (\<lambda>session.
     ebind (struct_pack [fI] [session]) (\<lambda>payload.
     pack_wave_packet (PyInt opc) payload seq (PyInt 0)))))"

definition pack_wave_commit :: "pyval \<Rightarrow> pyval \<Rightarrow> bytes result" where
  "pack_wave_commit session seq = pack_wave_command (PyInt WAVE_OP_COMMIT) session seq"

definition pack_wave_play :: "pyval \<Rightarrow> pyval \<Rightarrow> bytes result" where
  "pack_wave_play session seq = pack_wave_command (PyInt WAVE_OP_PLAY) session seq"

definition pack_wave_pause :: "pyval \<Rightarrow> pyval \<Rightarrow> bytes result" where
  "pack_wave_pause session seq = pack_wave_command (PyInt WAVE_OP_PAUSE) session seq"

definition pack_wave_stop :: "pyval \<Rightarrow> pyval \<Rightarrow> bytes result" where
  "pack_wave_stop session seq = pack_wave_command (PyInt WAVE_OP_STOP) session seq"

definition pack_wave_abort :: "pyval \<Rightarrow> pyval \<Rightarrow> bytes result" where
  "pack_wave_abort session seq = pack_wave_command (PyInt WAVE_OP_ABORT) session seq"

definition pack_wave_status :: "pyval \<Rightarrow> pyval \<Rightarrow> bytes result" where
  "pack_wave_status session seq = pack_wave_command (PyInt WAVE_OP_STATUS) session seq"

section \<open>Response decoding\<close>

text \<open>
  The dictionary that \<open>parse_wave_response\<close> returns: the common keys, and the keys that only a
  DATA or a STATUS response adds.
\<close>

record wave_data_ext =
  ack_packet_seq :: int
  next_expected_sequence :: int
  received_bytes :: int
  first_error_offset :: int
  expected_crc :: int
  actual_crc :: int

record wave_status_ext =
  current_beat :: int
  loop_position :: int
  ws_loop_count :: int
  ws_channel_mask :: int
  ws_layout :: int
  fifo_levels :: "int list"
  error_count :: int
  underflow_count :: int
  trigger_seen_count :: int
  trigger_dropped_count :: int
  trigger_fire_count :: int

datatype wave_ext = NoExt | DataExt wave_data_ext | StatusExt wave_status_ext

record wave_response =
  wr_version :: int
  wr_opcode :: int
  wr_flags :: int
  wr_seq :: int
  wr_payload_bytes :: int
  wr_payload :: bytes
  wr_session :: int
  wr_state :: int
  wr_state_name :: string
  wr_status :: int
  wr_error_code :: int
  wr_descriptor :: int
  wr_error_offset :: int
  wr_ext :: wave_ext

abbreviation "wave_common_fmt \<equiv> [fI, fI, fI, fI, fI, fQ]"
abbreviation "wave_data_fmt \<equiv> [fI, fI, fQ, fQ, fI, fI]"
abbreviation "wave_status_fmt \<equiv>
  [fI, fI, fI, fI, fH, fH, fH, fH, fH, fH, fH, fH, fI, fI, fI, fI, fI]"

definition wave_expected_size :: "int \<Rightarrow> int" where
  "wave_expected_size opcode =
     (if opcode = WAVE_OP_DATA then WAVE_RESPONSE_DATA_BYTES
      else if opcode = WAVE_OP_STATUS then WAVE_RESPONSE_STATUS_BYTES
      else WAVE_RESPONSE_COMMON_BYTES)"

definition wave_parse_ext :: "int \<Rightarrow> bytes \<Rightarrow> wave_ext result" where
  "wave_parse_ext opcode payload =
     (if opcode = WAVE_OP_DATA then
        ebind (struct_unpack_from wave_data_fmt payload (nat WAVE_RESPONSE_COMMON_BYTES)) (\<lambda>v.
        Inr (DataExt \<lparr>ack_packet_seq = v ! 0, next_expected_sequence = v ! 1,
               received_bytes = v ! 2, first_error_offset = v ! 3,
               expected_crc = v ! 4, actual_crc = v ! 5\<rparr>))
      else if opcode = WAVE_OP_STATUS then
        ebind (struct_unpack_from wave_status_fmt payload (nat WAVE_RESPONSE_COMMON_BYTES)) (\<lambda>v.
        let status_meta = v ! 3; status_tail = drop 4 v in
        Inr (StatusExt \<lparr>current_beat = v ! 0, loop_position = v ! 1, ws_loop_count = v ! 2,
               ws_channel_mask = status_meta AND 0xFF,
               ws_layout = drop_bit 8 status_meta AND 0xFF,
               fifo_levels = take 8 status_tail,
               error_count = status_tail ! 8, underflow_count = status_tail ! 9,
               trigger_seen_count = status_tail ! 10, trigger_dropped_count = status_tail ! 11,
               trigger_fire_count = status_tail ! 12\<rparr>))
      else Inr NoExt)"

definition parse_wave_response :: "bytes \<Rightarrow> bool \<Rightarrow> wave_response result" where
  "parse_wave_response raw validate_version =
     guard_raise (int (length raw) < WAVE_RESPONSE_HEADER_BYTES) ProtocolError (
     ebind (struct_unpack_from [fQ, fQ, fQ] raw 0) (\<lambda>h.
     let magic = h ! 0; hdr0 = h ! 1; hdr1 = h ! 2 in
     guard_raise (magic \<noteq> WAVE_RESP_MAGIC) ProtocolError (
     let version = hdr0 AND 0xFFFF; opcode = drop_bit 32 hdr0 in
     guard_raise (validate_version \<and> version \<noteq> WAVE_PROTOCOL_VERSION) ProtocolVersionError (
     guard_raise (\<not> (WAVE_OP_BEGIN \<le> opcode \<and> opcode \<le> WAVE_OP_STATUS)) ProtocolError (
     let size = drop_bit 32 hdr1 in
     guard_raise (size \<noteq> wave_expected_size opcode) ProtocolError (
     let padded_end = WAVE_RESPONSE_HEADER_BYTES + ((size + 7) AND NOT 7) in
     guard_raise (int (length raw) \<noteq> padded_end) ProtocolError (
     guard_raise (\<exists>b \<in> set (drop (nat (WAVE_RESPONSE_HEADER_BYTES + size)) raw). b \<noteq> 0) ProtocolError (
     let payload = pyslice (nat WAVE_RESPONSE_HEADER_BYTES) (nat (WAVE_RESPONSE_HEADER_BYTES + size)) raw in
     ebind (struct_unpack_from wave_common_fmt payload 0) (\<lambda>c.
     let session = c ! 0; state = c ! 1; status = c ! 2; error_code = c ! 3;
         descriptor = c ! 4; error_offset = c ! 5 in
     (case WAVEFORM_STATE_NAMES state of
        None \<Rightarrow> Inl ProtocolError
      | Some state_name \<Rightarrow>
     guard_raise (status \<noteq> drop_bit 16 hdr0 AND 0xFFFF) ProtocolError (
     ebind (wave_parse_ext opcode payload) (\<lambda>ext.
     Inr \<lparr>wr_version = version, wr_opcode = opcode, wr_flags = drop_bit 16 hdr0 AND 0xFFFF,
          wr_seq = hdr1 AND 0xFFFFFFFF, wr_payload_bytes = size, wr_payload = payload,
          wr_session = session, wr_state = state, wr_state_name = state_name,
          wr_status = status, wr_error_code = error_code, wr_descriptor = descriptor,
          wr_error_offset = error_offset, wr_ext = ext\<rparr>))))))))))))"

section \<open>What an accepted request looks like\<close>

lemma wave_uint_eq_Inr [err_simps]:
  "wave_uint v bits nz = Inr n \<longleftrightarrow> v = PyInt n \<and> of_bool nz \<le> n \<and> n < 2 ^ bits"
  by (cases v) (auto simp: wave_uint_def err_simps)

lemma wave_uint_PyInt:
  "wave_uint (PyInt n) bits nz = (if of_bool nz \<le> n \<and> n < 2 ^ bits then Inr n else Inl ParameterRangeError)"
  by (simp add: wave_uint_def)

lemma wave_uint_error: "wave_uint v bits nz = Inl e \<Longrightarrow> e = ParameterRangeError"
  by (cases v) (auto simp: wave_uint_def err_simps)

lemma pack_wave_packet_frame:
  assumes "0 \<le> opc" "opc < 4294967296" "0 \<le> fl" "fl < 65536" "int (length raw) < 4294967296"
    "0 \<le> sq" "sq < 4294967296"
  shows "pack_wave_packet (PyInt opc) raw (PyInt sq) (PyInt fl) =
    Inr (envelope WAVE_CTRL_MAGIC WAVE_PROTOCOL_VERSION opc fl raw sq)"
proof -
  have ok: "envelope_ok WAVE_CTRL_MAGIC WAVE_PROTOCOL_VERSION opc fl raw sq"
    using assms by (simp add: envelope_ok_def)
  have h0: "(push_bit 32 opc OR push_bit 16 fl) OR 1 = opc * 4294967296 + fl * 65536 + 1"
    using header_word [of fl 1 opc] assms by simp
  have h1: "push_bit 32 (int (length raw)) OR sq = int (length raw) * 4294967296 + sq"
    using length_word [of sq] assms by simp
  show ?thesis
    using envelope_fields_ok [OF ok] assms
    by (simp add: pack_wave_packet_def wave_uint_PyInt h0 h1 struct_pack_def envelope_def)
qed

interpretation wave_req: wire_protocol WAVE_CTRL_MAGIC WAVE_PROTOCOL_VERSION
  "\<lambda>opc fl raw sq. pack_wave_packet (PyInt opc) raw (PyInt sq) (PyInt fl)"
  by unfold_locales (simp_all only: pack_wave_packet_frame, simp_all)

lemma pack_wave_packet_eq_Inr:
  assumes "0 \<le> opc" "opc < 4294967296" "int (length raw) < 4294967296"
  shows "pack_wave_packet (PyInt opc) raw seq (PyInt 0) = Inr pkt \<longleftrightarrow>
    (\<exists>sq. seq = PyInt sq \<and> 0 \<le> sq \<and> sq < 4294967296 \<and>
          pkt = envelope WAVE_CTRL_MAGIC WAVE_PROTOCOL_VERSION opc 0 raw sq)"
proof -
  have "\<exists>sq. seq = PyInt sq \<and> 0 \<le> sq \<and> sq < 4294967296"
    if "pack_wave_packet (PyInt opc) raw seq (PyInt 0) = Inr pkt"
    using that by (auto simp: pack_wave_packet_def Let_def err_simps)
  then show ?thesis using assms by (auto simp: pack_wave_packet_frame)
qed

abbreviation "wave_begin_fmt \<equiv> [fI, fQ, fB, fB, fH, fI, fI, fI]"
abbreviation "wave_data_hdr_fmt \<equiv> [fI, fI, fQ, fI, fI]"

lemma pack_wave_begin_eq_Inr:
  "pack_wave_begin session total_bytes channel_mask total_beats loop_count layout seq = Inr pkt \<longleftrightarrow>
   (\<exists>s cm beats lc sq.
      session = PyInt s \<and> total_bytes = PyInt (beats * 256) \<and> channel_mask = PyInt cm \<and>
      total_beats = PyInt beats \<and> loop_count = PyInt lc \<and> layout = PyInt 1 \<and> seq = PyInt sq \<and>
      1 \<le> s \<and> s < 4294967296 \<and> 1 \<le> cm \<and> cm < 256 \<and> 1 \<le> beats \<and> beats * 256 \<le> DDR_MAX_INTERLEAVED_BYTES \<and>
      1 \<le> lc \<and> lc < 4294967296 \<and> 0 \<le> sq \<and> sq < 4294967296 \<and>
      pkt = envelope WAVE_CTRL_MAGIC WAVE_PROTOCOL_VERSION WAVE_OP_BEGIN 0
              (fields_enc wave_begin_fmt [s, beats * 256, cm, 1, 0, beats, lc, 64]) sq)"
  unfolding pack_wave_begin_def
  by (auto simp: err_simps pack_wave_packet_eq_Inr length_fields_enc)

lemma crc32_eq: "crc32 raw = zlib_crc32 raw"
  using zlib_crc32_bounds [of raw] by (simp add: crc32_def and_mask_numerals)

lemma wave_max_data_value [simp]: "wave_max_data = 1408"
  by (simp add: wave_max_data_def)

lemma pack_wave_data_eq_Inr:
  "pack_wave_data session packet_seq byte_offset raw seq = Inr pkt \<longleftrightarrow>
   (\<exists>s ps off sq.
      session = PyInt s \<and> packet_seq = PyInt ps \<and> byte_offset = PyInt off \<and> seq = PyInt sq \<and>
      1 \<le> s \<and> s < 4294967296 \<and> 0 \<le> ps \<and> ps < 4294967296 \<and> 0 \<le> off \<and> off mod 32 = 0 \<and>
      off + int (length raw) \<le> 2 ^ 64 \<and> raw \<noteq> [] \<and> length raw \<le> 1408 \<and> int (length raw) mod 32 = 0 \<and>
      0 \<le> sq \<and> sq < 4294967296 \<and>
      pkt = envelope WAVE_CTRL_MAGIC WAVE_PROTOCOL_VERSION WAVE_OP_DATA 0
              (fields_enc wave_data_hdr_fmt [s, ps, off, int (length raw), crc32 raw] @ raw) sq)"
  (is "?l \<longleftrightarrow> ?r")
proof
  assume ?l
  then show ?r
    unfolding pack_wave_data_def
    by (auto simp: err_simps pack_wave_packet_eq_Inr length_fields_enc)
next
  assume ?r
  then obtain s ps off sq where v: "session = PyInt s" "packet_seq = PyInt ps" "byte_offset = PyInt off" "seq = PyInt sq"
    and b: "1 \<le> s" "s < 4294967296" "0 \<le> ps" "ps < 4294967296" "0 \<le> off" "off mod 32 = 0"
      "off + int (length raw) \<le> 2 ^ 64" "raw \<noteq> []" "length raw \<le> 1408" "int (length raw) mod 32 = 0"
      "0 \<le> sq" "sq < 4294967296"
    and p: "pkt = envelope WAVE_CTRL_MAGIC WAVE_PROTOCOL_VERSION WAVE_OP_DATA 0
              (fields_enc wave_data_hdr_fmt [s, ps, off, int (length raw), crc32 raw] @ raw) sq"
    by (elim exE conjE) (rule that; assumption)
  let ?hdr = "fields_enc wave_data_hdr_fmt [s, ps, off, int (length raw), crc32 raw]"
  have off: "off < 2 ^ 64"
  proof -
    have "0 < int (length raw)" using b(8) by simp
    with b(7) show ?thesis by linarith
  qed
  have sp: "struct_pack wave_data_hdr_fmt [s, ps, off, int (length raw), crc32 raw] = Inr ?hdr"
    by (rule struct_pack_ok) (use b off zlib_crc32_bounds [of raw] in \<open>simp add: crc32_eq\<close>)
  have pw: "pack_wave_packet (PyInt WAVE_OP_DATA) (?hdr @ raw) (PyInt sq) (PyInt 0) =
    Inr (envelope WAVE_CTRL_MAGIC WAVE_PROTOCOL_VERSION WAVE_OP_DATA 0 (?hdr @ raw) sq)"
    by (rule pack_wave_packet_frame) (use b in \<open>simp_all add: length_fields_enc\<close>)
  have "wave_uint (PyInt s) 32 True = Inr s" "wave_uint (PyInt ps) 32 False = Inr ps"
    "wave_uint (PyInt off) 64 False = Inr off"
    using b off by (simp_all add: wave_uint_PyInt)
  moreover have "\<not> (raw = [] \<or> int (length raw) > wave_max_data \<or> int (length raw) mod BEAT_BYTES \<noteq> 0)"
    "\<not> (off mod BEAT_BYTES \<noteq> 0 \<or> off + int (length raw) > 2 ^ 64)"
    using b by simp_all
  ultimately show ?l
    unfolding pack_wave_data_def v p by (simp only: ebind_Inr guard_raise_def if_False sp pw)
qed

text \<open>
  Only the six commands pass, and any other opcode, an out-of-range session or a bool is a
  \<open>ParameterRangeError\<close>.
\<close>

lemma pack_wave_command_eq_Inr:
  "pack_wave_command opcode session seq = Inr pkt \<longleftrightarrow>
   (\<exists>opc s sq. opcode = PyInt opc \<and> opc \<in> {3, 4, 5, 6, 7, 8} \<and> session = PyInt s \<and> seq = PyInt sq \<and>
      0 \<le> s \<and> s < 4294967296 \<and> 0 \<le> sq \<and> sq < 4294967296 \<and>
      pkt = envelope WAVE_CTRL_MAGIC WAVE_PROTOCOL_VERSION opc 0 (fields_enc [fI] [s]) sq)"
  (is "?l \<longleftrightarrow> ?r")
proof
  assume ?l
  then show ?r
    unfolding pack_wave_command_def by (auto simp: err_simps pack_wave_packet_eq_Inr)
next
  assume ?r
  then show ?l
    unfolding pack_wave_command_def
    by (auto simp: err_simps pack_wave_packet_eq_Inr wave_uint_PyInt struct_pack_def)
qed

section \<open>The response decoder accepts exactly the well-formed datagrams\<close>

definition wave_response_bytes :: "wave_response \<Rightarrow> bytes" where
  "wave_response_bytes r =
     envelope WAVE_RESP_MAGIC (wr_version r) (wr_opcode r) (wr_flags r) (wr_payload r) (wr_seq r)"

lemma wave_padding:
  assumes "int (length raw) = 24 + ((sz + 7) AND NOT 7)" and "sz \<in> {28, 60, 80}"
    and "\<forall>b \<in> set (drop (nat (24 + sz)) raw). b = 0"
  shows "drop 24 raw = pad8 (pyslice 24 (nat (24 + sz)) raw)"
proof -
  let ?p = "pyslice 24 (nat (24 + sz)) raw"
  have len: "int (length ?p) = sz" "24 + nat sz \<le> length raw"
    using assms(1,2) by (auto simp: length_pyslice)
  have tail: "drop (nat (24 + sz)) raw = replicate (length raw - nat (24 + sz)) 0"
    by (intro replicate_eqI) (use assms(3) in auto)
  have "?p = take (nat sz) (drop 24 raw)" "drop (nat (24 + sz)) raw = drop (nat sz) (drop 24 raw)"
    using assms(2) by (auto simp: pyslice_def)
  then have "drop 24 raw = ?p @ drop (nat (24 + sz)) raw"
    by (metis append_take_drop_id)
  also have "\<dots> = pad8 ?p"
    unfolding pad8_def len(1) tail using assms(1,2) by auto
  finally show ?thesis .
qed

text \<open>The decisions of the decoder, collected.\<close>

lemma parse_wave_response_eq_Inr:
  "parse_wave_response raw v = Inr r \<longleftrightarrow>
   (let h = fields_dec [fQ, fQ, fQ] raw;
        opcode = h ! 1 div 4294967296;
        size = h ! 2 div 4294967296;
        payload = pyslice 24 (nat (24 + size)) raw;
        c = fields_dec wave_common_fmt payload in
    24 \<le> length raw \<and> h ! 0 = WAVE_RESP_MAGIC \<and>
    (v \<longrightarrow> h ! 1 mod 65536 = WAVE_PROTOCOL_VERSION) \<and> 1 \<le> opcode \<and> opcode \<le> 8 \<and>
    size = wave_expected_size opcode \<and> int (length raw) = 24 + ((size + 7) AND NOT 7) \<and>
    (\<forall>b \<in> set (drop (nat (24 + size)) raw). b = 0) \<and> 28 \<le> length payload \<and>
    (\<exists>name ext. WAVEFORM_STATE_NAMES (c ! 1) = Some name \<and> c ! 2 = h ! 1 div 65536 mod 65536 \<and>
       wave_parse_ext opcode payload = Inr ext \<and>
       r = \<lparr>wr_version = h ! 1 mod 65536, wr_opcode = opcode, wr_flags = h ! 1 div 65536 mod 65536,
          wr_seq = h ! 2 mod 4294967296, wr_payload_bytes = size, wr_payload = payload,
          wr_session = c ! 0, wr_state = c ! 1, wr_state_name = name,
          wr_status = c ! 2, wr_error_code = c ! 3, wr_descriptor = c ! 4,
          wr_error_offset = c ! 5, wr_ext = ext\<rparr>))"
  unfolding parse_wave_response_def Let_def
  by (auto simp: err_simps struct_unpack_from_def and_mask_numerals drop_bit_numerals
      simp del: fields_dec.simps split: option.splits)

lemma parse_wave_response_InrD:
  assumes "parse_wave_response raw v = Inr r"
  defines "h \<equiv> fields_dec [fQ, fQ, fQ] raw"
  shows "24 \<le> length raw" and "h ! 0 = WAVE_RESP_MAGIC"
    and "v \<Longrightarrow> wr_version r = WAVE_PROTOCOL_VERSION"
    and "wr_version r = h ! 1 mod 65536" and "wr_opcode r = h ! 1 div 4294967296"
    and "1 \<le> wr_opcode r" and "wr_opcode r \<le> 8"
    and "wr_flags r = h ! 1 div 65536 mod 65536" and "wr_seq r = h ! 2 mod 4294967296"
    and "wr_payload_bytes r = h ! 2 div 4294967296"
    and "wr_payload_bytes r = wave_expected_size (wr_opcode r)"
    and "int (length raw) = 24 + ((wr_payload_bytes r + 7) AND NOT 7)"
    and "\<forall>b \<in> set (drop (nat (24 + wr_payload_bytes r)) raw). b = 0"
    and "wr_payload r = pyslice 24 (nat (24 + wr_payload_bytes r)) raw"
    and "wr_status r = wr_flags r"
    and "\<exists>st. wr_state r = wave_state_code st \<and> wr_state_name r = wave_state_name st"
    and "wave_parse_ext (wr_opcode r) (wr_payload r) = Inr (wr_ext r)"
proof -
  let ?size = "h ! 2 div 4294967296"
  let ?payload = "pyslice 24 (nat (24 + ?size)) raw"
  let ?c = "fields_dec wave_common_fmt ?payload"
  from assms(1) obtain name ext where
    a: "24 \<le> length raw" "h ! 0 = WAVE_RESP_MAGIC"
       "v \<longrightarrow> h ! 1 mod 65536 = WAVE_PROTOCOL_VERSION" "1 \<le> h ! 1 div 4294967296" "h ! 1 div 4294967296 \<le> 8"
       "?size = wave_expected_size (h ! 1 div 4294967296)" "int (length raw) = 24 + ((?size + 7) AND NOT 7)"
       "\<forall>b \<in> set (drop (nat (24 + ?size)) raw). b = 0"
    and n: "WAVEFORM_STATE_NAMES (?c ! 1) = Some name" and st: "?c ! 2 = h ! 1 div 65536 mod 65536"
    and x: "wave_parse_ext (h ! 1 div 4294967296) ?payload = Inr ext"
    and r: "r = \<lparr>wr_version = h ! 1 mod 65536, wr_opcode = h ! 1 div 4294967296,
          wr_flags = h ! 1 div 65536 mod 65536,
          wr_seq = h ! 2 mod 4294967296, wr_payload_bytes = ?size, wr_payload = ?payload,
          wr_session = ?c ! 0, wr_state = ?c ! 1, wr_state_name = name,
          wr_status = ?c ! 2, wr_error_code = ?c ! 3, wr_descriptor = ?c ! 4,
          wr_error_offset = ?c ! 5, wr_ext = ext\<rparr>"
    unfolding parse_wave_response_eq_Inr Let_def h_def [symmetric]
    by (elim conjE exE) (rule that; assumption)
  have f: "wr_version r = h ! 1 mod 65536" "wr_opcode r = h ! 1 div 4294967296"
    "wr_flags r = h ! 1 div 65536 mod 65536" "wr_seq r = h ! 2 mod 4294967296"
    "wr_payload_bytes r = ?size" "wr_payload r = ?payload" "wr_state r = ?c ! 1"
    "wr_state_name r = name" "wr_status r = ?c ! 2" "wr_ext r = ext"
    unfolding r by (simp_all only: wave_response.simps)
  show "24 \<le> length raw" "h ! 0 = WAVE_RESP_MAGIC" by (fact a)+
  show "v \<Longrightarrow> wr_version r = WAVE_PROTOCOL_VERSION" unfolding f using a(3) by blast
  show "wr_version r = h ! 1 mod 65536" "wr_opcode r = h ! 1 div 4294967296"
    "wr_flags r = h ! 1 div 65536 mod 65536" "wr_seq r = h ! 2 mod 4294967296"
    "wr_payload_bytes r = h ! 2 div 4294967296" by (fact f)+
  show "1 \<le> wr_opcode r" "wr_opcode r \<le> 8" "wr_payload_bytes r = wave_expected_size (wr_opcode r)"
    "int (length raw) = 24 + ((wr_payload_bytes r + 7) AND NOT 7)"
    "\<forall>b \<in> set (drop (nat (24 + wr_payload_bytes r)) raw). b = 0"
    "wr_payload r = pyslice 24 (nat (24 + wr_payload_bytes r)) raw"
    unfolding f by (fact a refl)+
  show "wr_status r = wr_flags r" unfolding f by (fact st)
  show "\<exists>st. wr_state r = wave_state_code st \<and> wr_state_name r = wave_state_name st"
    unfolding f by (rule WAVEFORM_STATE_NAMES_Some [OF n])
  show "wave_parse_ext (wr_opcode r) (wr_payload r) = Inr (wr_ext r)" unfolding f by (fact x)
qed

lemma wave_expected_size_cases: "wave_expected_size opc \<in> {28, 60, 80}"
  by (simp add: wave_expected_size_def)

lemma parse_wave_response_bytes:
  assumes "parse_wave_response raw v = Inr r"
  shows "raw = wave_response_bytes r"
proof -
  note d = parse_wave_response_InrD [OF assms]
  have pay: "drop 24 raw = pad8 (wr_payload r)"
    unfolding d(14) by (rule wave_padding [OF d(12) _ d(13)])
      (simp only: d(11) wave_expected_size_cases)
  have "wr_payload_bytes r \<in> {28, 60, 80}" by (simp only: d(11) wave_expected_size_cases)
  then have len: "int (length (wr_payload r)) = fields_dec [fQ, fQ, fQ] raw ! 2 div 4294967296"
    unfolding d(14) d(10) [symmetric] using d(12) by (auto simp: length_pyslice)
  show ?thesis
    unfolding wave_response_bytes_def d(2) [symmetric] d(4,5,8,9)
    by (rule reopen_envelope [OF d(1) refl pay len])
qed

text \<open>The payload a response with these fields carries, and the responses that can be on the wire.\<close>

fun wave_ext_bytes :: "wave_ext \<Rightarrow> bytes" where
  "wave_ext_bytes NoExt = []"
| "wave_ext_bytes (DataExt d) = fields_enc wave_data_fmt
     [ack_packet_seq d, next_expected_sequence d, received_bytes d, first_error_offset d,
      expected_crc d, actual_crc d]"
| "wave_ext_bytes (StatusExt s) = fields_enc wave_status_fmt
     ([current_beat s, loop_position s, ws_loop_count s, ws_layout s * 256 + ws_channel_mask s] @
      fifo_levels s @
      [error_count s, underflow_count s, trigger_seen_count s, trigger_dropped_count s,
       trigger_fire_count s])"

fun wave_ext_ok :: "int \<Rightarrow> wave_ext \<Rightarrow> bool" where
  "wave_ext_ok opc NoExt \<longleftrightarrow> opc \<in> {1, 3, 4, 5, 6, 7}"
| "wave_ext_ok opc (DataExt d) \<longleftrightarrow> opc = 2 \<and> fields_ok wave_data_fmt
     [ack_packet_seq d, next_expected_sequence d, received_bytes d, first_error_offset d,
      expected_crc d, actual_crc d]"
| "wave_ext_ok opc (StatusExt s) \<longleftrightarrow> opc = 8 \<and>
     0 \<le> ws_channel_mask s \<and> ws_channel_mask s < 256 \<and> 0 \<le> ws_layout s \<and> ws_layout s < 256 \<and>
     length (fifo_levels s) = 8 \<and> fields_ok wave_status_fmt
     ([current_beat s, loop_position s, ws_loop_count s, ws_layout s * 256 + ws_channel_mask s] @
      fifo_levels s @
      [error_count s, underflow_count s, trigger_seen_count s, trigger_dropped_count s,
       trigger_fire_count s])"

definition wave_common_values :: "wave_response \<Rightarrow> int list" where
  "wave_common_values r = [wr_session r, wr_state r, wr_status r, wr_error_code r, wr_descriptor r,
     wr_error_offset r]"

definition wave_response_wf :: "wave_response \<Rightarrow> bool" where
  "wave_response_wf r \<longleftrightarrow>
     wr_version r = WAVE_PROTOCOL_VERSION \<and> wave_ext_ok (wr_opcode r) (wr_ext r) \<and>
     fields_ok wave_common_fmt (wave_common_values r) \<and>
     wr_status r = wr_flags r \<and> wr_flags r < 65536 \<and> 0 \<le> wr_seq r \<and> wr_seq r < 4294967296 \<and>
     wr_payload_bytes r = wave_expected_size (wr_opcode r) \<and>
     wr_payload r = fields_enc wave_common_fmt (wave_common_values r) @ wave_ext_bytes (wr_ext r) \<and>
     WAVEFORM_STATE_NAMES (wr_state r) = Some (wr_state_name r)"

lemma wave_ext_ok_opcode: "wave_ext_ok opc x \<Longrightarrow> 1 \<le> opc \<and> opc \<le> 8"
  by (cases x) auto

lemma length_wave_ext_bytes:
  "wave_ext_ok opc x \<Longrightarrow> 28 + int (length (wave_ext_bytes x)) = wave_expected_size opc"
  by (cases x) (auto simp: wave_expected_size_def length_fields_enc)

lemma wave_parse_ext_bytes:
  assumes "length pre = 28" and "wave_ext_ok opc x"
  shows "wave_parse_ext opc (pre @ wave_ext_bytes x) = Inr x"
proof (cases x)
  case NoExt
  then show ?thesis using assms by (auto simp: wave_parse_ext_def)
next
  case (DataExt d)
  let ?vs = "[ack_packet_seq d, next_expected_sequence d, received_bytes d, first_error_offset d,
      expected_crc d, actual_crc d]"
  have "struct_unpack_from wave_data_fmt (pre @ fields_enc wave_data_fmt ?vs @ []) 28 = Inr ?vs"
    by (rule struct_unpack_from_pack) (use assms DataExt in \<open>simp_all add: struct_pack_def\<close>)
  then show ?thesis using assms DataExt by (simp add: wave_parse_ext_def)
next
  case (StatusExt s)
  let ?vs = "[current_beat s, loop_position s, ws_loop_count s, ws_layout s * 256 + ws_channel_mask s] @
      fifo_levels s @
      [error_count s, underflow_count s, trigger_seen_count s, trigger_dropped_count s,
       trigger_fire_count s]"
  have ok: "opc = 8" "0 \<le> ws_channel_mask s" "ws_channel_mask s < 256" "0 \<le> ws_layout s" "ws_layout s < 256"
    "length (fifo_levels s) = 8" "fields_ok wave_status_fmt ?vs"
    using assms(2) unfolding StatusExt wave_ext_ok.simps by blast+
  have u: "struct_unpack_from wave_status_fmt (pre @ fields_enc wave_status_fmt ?vs @ []) 28 = Inr ?vs"
    by (rule struct_unpack_from_pack [OF struct_pack_ok [OF ok(7)] assms(1)])
  have m: "(ws_layout s * 256 + ws_channel_mask s) AND 0xFF = ws_channel_mask s"
    "drop_bit 8 (ws_layout s * 256 + ws_channel_mask s) AND 0xFF = ws_layout s"
    using mult_add_div_mod [of "ws_channel_mask s" 256 "ws_layout s"] ok
    by (simp_all add: and_mask_numerals drop_bit_numerals)
  show ?thesis
    using u ok(1,6) m
    by (simp add: wave_parse_ext_def StatusExt nth_append)
qed

lemma pyslice_envelope:
  "pyslice 24 (24 + length raw) (envelope magic version opc fl raw sq) = raw"
  by (simp add: pyslice_def drop_envelope take_pad8)

lemma wave_response_wfD:
  assumes "wave_response_wf r"
  shows "wr_version r = WAVE_PROTOCOL_VERSION" and "wave_ext_ok (wr_opcode r) (wr_ext r)"
    and "fields_ok wave_common_fmt (wave_common_values r)" and "wr_status r = wr_flags r"
    and "0 \<le> wr_flags r" and "wr_flags r < 65536" and "0 \<le> wr_seq r" and "wr_seq r < 4294967296"
    and "wr_payload_bytes r = wave_expected_size (wr_opcode r)"
    and "wr_payload r = fields_enc wave_common_fmt (wave_common_values r) @ wave_ext_bytes (wr_ext r)"
    and "WAVEFORM_STATE_NAMES (wr_state r) = Some (wr_state_name r)"
    and "1 \<le> wr_opcode r" and "wr_opcode r \<le> 8"
proof -
  show "0 \<le> wr_flags r"
    using assms by (simp add: wave_response_wf_def wave_common_values_def)
  have x: "wave_ext_ok (wr_opcode r) (wr_ext r)" using assms by (simp only: wave_response_wf_def)
  show "1 \<le> wr_opcode r" "wr_opcode r \<le> 8" using wave_ext_ok_opcode [OF x] by simp_all
qed (use assms in \<open>simp_all only: wave_response_wf_def\<close>)

lemma wave_response_wf_length:
  assumes "wave_response_wf r"
  shows "int (length (wr_payload r)) = wr_payload_bytes r" and "wr_payload_bytes r \<in> {28, 60, 80}"
proof -
  have "length (fields_enc wave_common_fmt (wave_common_values r)) = 28"
    by (simp add: length_fields_enc wave_common_values_def)
  with assms show "int (length (wr_payload r)) = wr_payload_bytes r"
    using length_wave_ext_bytes [of "wr_opcode r" "wr_ext r"] by (simp add: wave_response_wf_def)
  show "wr_payload_bytes r \<in> {28, 60, 80}"
    using assms wave_expected_size_cases [of "wr_opcode r"] by (simp only: wave_response_wf_def)
qed

lemma wave_response_envelope_ok:
  assumes wf: "wave_response_wf r"
  shows "envelope_ok WAVE_RESP_MAGIC (wr_version r) (wr_opcode r) (wr_flags r) (wr_payload r) (wr_seq r)"
proof -
  note d = wave_response_wfD [OF wf]
  have "int (length (wr_payload r)) < 4294967296"
    unfolding wave_response_wf_length(1) [OF wf] using wave_response_wf_length(2) [OF wf] by auto
  with d(1,5-8,12,13) show ?thesis unfolding envelope_ok_def by simp
qed

lemma wave_response_bytes_layout:
  assumes wf: "wave_response_wf r"
  defines "raw \<equiv> wave_response_bytes r"
  shows "pyslice 24 (nat (24 + wr_payload_bytes r)) raw = wr_payload r"
    and "\<forall>b \<in> set (drop (nat (24 + wr_payload_bytes r)) raw). b = 0"
    and "int (length raw) = 24 + ((wr_payload_bytes r + 7) AND NOT 7)"
proof -
  note len = wave_response_wf_length [OF wf]
  have np: "nat (24 + wr_payload_bytes r) = 24 + length (wr_payload r)"
    using len(1) by simp
  show "pyslice 24 (nat (24 + wr_payload_bytes r)) raw = wr_payload r"
    unfolding np raw_def wave_response_bytes_def by (rule pyslice_envelope)
  have "drop (24 + length (wr_payload r)) raw = drop (length (wr_payload r)) (drop 24 raw)"
    by (simp add: add.commute)
  also have "\<dots> = replicate (nat ((- int (length (wr_payload r))) mod 8)) 0"
    by (simp add: raw_def wave_response_bytes_def drop_envelope pad8_def)
  finally show "\<forall>b \<in> set (drop (nat (24 + wr_payload_bytes r)) raw). b = 0"
    unfolding np by simp
  show "int (length raw) = 24 + ((wr_payload_bytes r + 7) AND NOT 7)"
    using len by (auto simp: raw_def wave_response_bytes_def length_envelope pad8_def)
qed

lemma parse_wave_response_encoded:
  assumes wf: "wave_response_wf r"
  shows "parse_wave_response (wave_response_bytes r) v = Inr r"
proof -
  let ?raw = "wave_response_bytes r" and ?cv = "wave_common_values r"
  note d = wave_response_wfD [OF wf]
  have clen: "length (fields_enc wave_common_fmt ?cv) = 28"
    by (simp add: length_fields_enc wave_common_values_def)
  have h: "fields_dec [fQ, fQ, fQ] ?raw ! 0 = WAVE_RESP_MAGIC"
    "fields_dec [fQ, fQ, fQ] ?raw ! 1 mod 65536 = wr_version r"
    "fields_dec [fQ, fQ, fQ] ?raw ! 1 div 4294967296 = wr_opcode r"
    "fields_dec [fQ, fQ, fQ] ?raw ! 1 div 65536 mod 65536 = wr_flags r"
    "fields_dec [fQ, fQ, fQ] ?raw ! 2 div 4294967296 = wr_payload_bytes r"
    "fields_dec [fQ, fQ, fQ] ?raw ! 2 mod 4294967296 = wr_seq r"
    unfolding wave_response_bytes_def envelope_header [OF wave_response_envelope_ok [OF wf]]
    by (simp_all only: wave_response_wf_length(1) [OF wf])
  have c: "fields_dec wave_common_fmt (wr_payload r) = ?cv"
    unfolding d(10) by (rule fields_dec_enc [OF d(3)])
  have cv: "?cv ! 0 = wr_session r" "?cv ! 1 = wr_state r" "?cv ! 2 = wr_flags r" "?cv ! 3 = wr_error_code r"
    "?cv ! 4 = wr_descriptor r" "?cv ! 5 = wr_error_offset r"
    using d(4) by (simp_all add: wave_common_values_def)
  note layout = wave_response_bytes_layout [OF wf]
  show ?thesis
    unfolding parse_wave_response_eq_Inr Let_def h layout(1) c cv
  proof (intro conjI exI impI)
    show "wave_parse_ext (wr_opcode r) (wr_payload r) = Inr (wr_ext r)"
      unfolding d(10) by (rule wave_parse_ext_bytes [OF clen d(2)])
    show "28 \<le> length (wr_payload r)" unfolding d(10) using clen by simp
    show "24 \<le> length ?raw" by (simp add: wave_response_bytes_def length_envelope)
    show "\<forall>b \<in> set (drop (nat (24 + wr_payload_bytes r)) ?raw). b = 0" by (rule layout(2))
    show "r = \<lparr>wr_version = wr_version r, wr_opcode = wr_opcode r, wr_flags = wr_flags r,
      wr_seq = wr_seq r, wr_payload_bytes = wr_payload_bytes r, wr_payload = wr_payload r,
      wr_session = wr_session r, wr_state = wr_state r, wr_state_name = wr_state_name r,
      wr_status = wr_flags r, wr_error_code = wr_error_code r, wr_descriptor = wr_descriptor r,
      wr_error_offset = wr_error_offset r, wr_ext = wr_ext r\<rparr>"
      by (cases r) (use d(4) in simp)
  qed (simp_all only: d(1,9,11-13) layout(3))
qed

text \<open>
  Decoding and encoding are inverse: for every well-formed WAVERSP0 response (any opcode,
  state, status and extension within its field widths) there is exactly one datagram that decodes
  to it, namely the envelope of its fields.
\<close>

lemma parse_wave_response_roundtrip:
  assumes "wave_response_wf r"
  shows "parse_wave_response raw True = Inr r \<longleftrightarrow> raw = wave_response_bytes r"
  using parse_wave_response_encoded [OF assms] parse_wave_response_bytes by blast

lemma parse_wave_response_roundtrip_witness:
  "parse_wave_response (wave_response_bytes
     \<lparr>wr_version = 1, wr_opcode = 2, wr_flags = 6, wr_seq = 77, wr_payload_bytes = 60,
      wr_payload = fields_enc wave_common_fmt [9, 1, 6, 0, 0, 0] @ fields_enc wave_data_fmt [3, 3, 3072, 4096, 0, 0],
      wr_session = 9, wr_state = 1, wr_state_name = ''upload'', wr_status = 6, wr_error_code = 0,
      wr_descriptor = 0, wr_error_offset = 0,
      wr_ext = DataExt \<lparr>ack_packet_seq = 3, next_expected_sequence = 3, received_bytes = 3072,
        first_error_offset = 4096, expected_crc = 0, actual_crc = 0\<rparr>\<rparr>) True =
   Inr \<lparr>wr_version = 1, wr_opcode = 2, wr_flags = 6, wr_seq = 77, wr_payload_bytes = 60,
      wr_payload = fields_enc wave_common_fmt [9, 1, 6, 0, 0, 0] @ fields_enc wave_data_fmt [3, 3, 3072, 4096, 0, 0],
      wr_session = 9, wr_state = 1, wr_state_name = ''upload'', wr_status = 6, wr_error_code = 0,
      wr_descriptor = 0, wr_error_offset = 0,
      wr_ext = DataExt \<lparr>ack_packet_seq = 3, next_expected_sequence = 3, received_bytes = 3072,
        first_error_offset = 4096, expected_crc = 0, actual_crc = 0\<rparr>\<rparr>"
  by (rule parse_wave_response_roundtrip [THEN iffD2, OF _ refl])
    (simp add: wave_response_wf_def wave_common_values_def wave_expected_size_def
      WAVEFORM_STATE_NAMES_def all_wave_states_def del: fields_enc.simps)


lemma parse_commit_example:
  "parse_wave_response (envelope WAVE_RESP_MAGIC 1 3 0 (fields_enc wave_common_fmt [9, 3, 0, 0, 1, 0]) 5) True =
   Inr \<lparr>wr_version = 1, wr_opcode = 3, wr_flags = 0, wr_seq = 5, wr_payload_bytes = 28,
     wr_payload = fields_enc wave_common_fmt [9, 3, 0, 0, 1, 0], wr_session = 9, wr_state = 3,
     wr_state_name = ''prefetch'', wr_status = 0, wr_error_code = 0, wr_descriptor = 1,
     wr_error_offset = 0, wr_ext = NoExt\<rparr>"
  (is "parse_wave_response ?raw True = Inr ?r")
proof -
  have "wave_response_wf ?r"
    by (simp add: wave_response_wf_def wave_common_values_def wave_expected_size_def
      WAVEFORM_STATE_NAMES_def all_wave_states_def del: fields_enc.simps)
  from parse_wave_response_encoded [OF this, of True] show ?thesis
    by (simp only: wave_response_bytes_def wave_response.simps)
qed


text \<open>
  An accepted BEGIN names one uniform image: session, mask and loop count are non-zero and in
  range, the byte count is 256 per DAC beat and fits the usable DDR, and all of these can be read
  back from the 56-byte datagram; every other argument (a bool, a non-integer, a byte count that
  does not match the beats, another layout) is refused before anything is packed.
\<close>

lemma pack_wave_begin_roundtrip:
  assumes "pack_wave_begin session total_bytes channel_mask total_beats loop_count layout seq = Inr pkt"
  shows "\<exists>s cm beats lc sq payload.
    session = PyInt s \<and> total_bytes = PyInt (beats * WAVE_DAC_FRAME_BYTES) \<and> channel_mask = PyInt cm \<and>
    total_beats = PyInt beats \<and> loop_count = PyInt lc \<and> layout = PyInt 1 \<and> seq = PyInt sq \<and>
    s \<noteq> 0 \<and> cm \<noteq> 0 \<and> lc \<noteq> 0 \<and> beats \<noteq> 0 \<and>
    beats * WAVE_DAC_FRAME_BYTES \<le> DDR_MAX_INTERLEAVED_BYTES \<and> length pkt = 56 \<and>
    open_envelope pkt = (WAVE_CTRL_MAGIC, WAVE_PROTOCOL_VERSION, WAVE_OP_BEGIN, 0, sq, payload) \<and>
    struct_unpack wave_begin_fmt payload =
      Inr [s, beats * WAVE_DAC_FRAME_BYTES, cm, 1, 0, beats, lc, DDR_INTERLEAVED_BEAT_BYTES]"
proof -
  from assms obtain s cm beats lc sq where v: "session = PyInt s" "total_bytes = PyInt (beats * 256)"
      "channel_mask = PyInt cm" "total_beats = PyInt beats" "loop_count = PyInt lc" "layout = PyInt 1"
      "seq = PyInt sq"
    and b: "1 \<le> s" "s < 4294967296" "1 \<le> cm" "cm < 256" "1 \<le> beats"
      "beats * 256 \<le> DDR_MAX_INTERLEAVED_BYTES" "1 \<le> lc" "lc < 4294967296" "0 \<le> sq" "sq < 4294967296"
    and p: "pkt = envelope WAVE_CTRL_MAGIC WAVE_PROTOCOL_VERSION WAVE_OP_BEGIN 0
              (fields_enc wave_begin_fmt [s, beats * 256, cm, 1, 0, beats, lc, 64]) sq"
    unfolding pack_wave_begin_eq_Inr by (elim exE conjE) (rule that; assumption)
  let ?vs = "[s, beats * 256, cm, 1, 0, beats, lc, 64]"
  have ok: "fields_ok wave_begin_fmt ?vs" using b by simp
  have len: "length (fields_enc wave_begin_fmt ?vs) = 28" by (simp add: length_fields_enc)
  have "envelope_ok WAVE_CTRL_MAGIC WAVE_PROTOCOL_VERSION WAVE_OP_BEGIN 0 (fields_enc wave_begin_fmt ?vs) sq"
    using b len by (simp add: envelope_ok_def)
  from open_envelope_envelope [OF this]
  have "open_envelope pkt = (WAVE_CTRL_MAGIC, WAVE_PROTOCOL_VERSION, WAVE_OP_BEGIN, 0, sq, fields_enc wave_begin_fmt ?vs)"
    unfolding p .
  moreover have "struct_unpack wave_begin_fmt (fields_enc wave_begin_fmt ?vs) = Inr ?vs"
    by (rule struct_unpack_pack [OF struct_pack_ok [OF ok]])
  moreover have "length pkt = 56" unfolding p by (simp add: length_envelope length_pad8 len)
  ultimately show ?thesis
    using v b by (intro exI [of _ s] exI [of _ cm] exI [of _ beats] exI [of _ lc] exI [of _ sq]
      exI [of _ "fields_enc wave_begin_fmt ?vs"]) simp
qed

lemma pack_wave_begin_example:
  "\<exists>pkt. pack_wave_begin (PyInt 1) (PyInt 1024) (PyInt 3) (PyInt 4) (PyInt 1) (PyInt 1) (PyInt 7) = Inr pkt"
  by (simp add: pack_wave_begin_eq_Inr)

theorem pack_wave_begin_roundtrip_witness:
  "\<exists>pkt. pack_wave_begin (PyInt 1) (PyInt 1024) (PyInt 3) (PyInt 4) (PyInt 1) (PyInt 1) (PyInt 7) = Inr pkt \<and>
     length pkt = 56"
proof -
  obtain pkt where "pack_wave_begin (PyInt 1) (PyInt 1024) (PyInt 3) (PyInt 4) (PyInt 1) (PyInt 1) (PyInt 7) = Inr pkt"
    using pack_wave_begin_example by blast
  with pack_wave_begin_roundtrip [OF this] show ?thesis by blast
qed

text \<open>
  An accepted DATA packet always fits one UDP datagram below the MTU and carries, readable
  back, the session, packet number, offset, length and CRC-32 of exactly the bytes it was given;
  the fragment is non-empty, 32-byte aligned and does not run past the 64-bit address space.
\<close>

lemma pack_wave_data_roundtrip:
  assumes "pack_wave_data session packet_seq byte_offset raw seq = Inr pkt"
  shows "\<exists>s ps off sq payload.
    session = PyInt s \<and> s \<noteq> 0 \<and> packet_seq = PyInt ps \<and> byte_offset = PyInt off \<and> seq = PyInt sq \<and>
    off mod BEAT_BYTES = 0 \<and> off + int (length raw) \<le> 2 ^ 64 \<and>
    raw \<noteq> [] \<and> int (length raw) mod BEAT_BYTES = 0 \<and> int (length pkt) \<le> UDP_MAX_PAYLOAD_BYTES \<and>
    open_envelope pkt = (WAVE_CTRL_MAGIC, WAVE_PROTOCOL_VERSION, WAVE_OP_DATA, 0, sq, payload) \<and>
    struct_unpack_from wave_data_hdr_fmt payload 0 = Inr [s, ps, off, int (length raw), crc32 raw] \<and>
    drop (nat WAVE_DATA_HEADER_BYTES) payload = raw"
proof -
  from assms obtain s ps off sq where v: "session = PyInt s" "packet_seq = PyInt ps" "byte_offset = PyInt off"
      "seq = PyInt sq"
    and b: "1 \<le> s" "s < 4294967296" "0 \<le> ps" "ps < 4294967296" "0 \<le> off" "off mod 32 = 0"
      "off + int (length raw) \<le> 2 ^ 64" "raw \<noteq> []" "length raw \<le> 1408" "int (length raw) mod 32 = 0"
      "0 \<le> sq" "sq < 4294967296"
    and p: "pkt = envelope WAVE_CTRL_MAGIC WAVE_PROTOCOL_VERSION WAVE_OP_DATA 0
              (fields_enc wave_data_hdr_fmt [s, ps, off, int (length raw), crc32 raw] @ raw) sq"
    unfolding pack_wave_data_eq_Inr by (elim exE conjE) (rule that; assumption)
  let ?vs = "[s, ps, off, int (length raw), crc32 raw]"
  let ?pay = "fields_enc wave_data_hdr_fmt ?vs @ raw"
  have "0 < int (length raw)" using b(8) by simp
  then have off: "off < 2 ^ 64" using b(7) by linarith
  have sp: "struct_pack wave_data_hdr_fmt ?vs = Inr (fields_enc wave_data_hdr_fmt ?vs)"
    by (rule struct_pack_ok) (use b off zlib_crc32_bounds [of raw] in \<open>simp add: crc32_eq\<close>)
  have u: "struct_unpack_from wave_data_hdr_fmt ?pay 0 = Inr ?vs"
    using struct_unpack_from_pack [OF sp, of "[]" 0 raw] by (simp only: append_Nil list.size)
  have len: "length (fields_enc wave_data_hdr_fmt ?vs) = 24" by (simp add: length_fields_enc)
  have "envelope_ok WAVE_CTRL_MAGIC WAVE_PROTOCOL_VERSION WAVE_OP_DATA 0 ?pay sq"
    using b len by (simp add: envelope_ok_def)
  from open_envelope_envelope [OF this]
  have o: "open_envelope pkt = (WAVE_CTRL_MAGIC, WAVE_PROTOCOL_VERSION, WAVE_OP_DATA, 0, sq, ?pay)"
    unfolding p .
  have "length pkt \<le> 24 + 8 * ((length ?pay + 7) div 8)" unfolding p by (simp only: length_envelope length_pad8 order_refl)
  also have "\<dots> \<le> 1472" using b(9) len by simp
  finally have l: "int (length pkt) \<le> UDP_MAX_PAYLOAD_BYTES" by simp
  have d: "drop (nat WAVE_DATA_HEADER_BYTES) ?pay = raw" using len by simp
  show ?thesis
    using v b o u l d by (intro exI [of _ s] exI [of _ ps] exI [of _ off] exI [of _ sq] exI [of _ ?pay])
      (simp del: fields_enc.simps)
qed

lemma pack_wave_data_example:
  "\<exists>pkt. pack_wave_data (PyInt 1) (PyInt 0) (PyInt 0) (replicate 32 7) (PyInt 9) = Inr pkt"
  by (simp add: pack_wave_data_eq_Inr)

theorem pack_wave_data_roundtrip_witness:
  "\<exists>pkt. pack_wave_data (PyInt 1) (PyInt 0) (PyInt 0) (replicate 32 7) (PyInt 9) = Inr pkt \<and>
     int (length pkt) \<le> UDP_MAX_PAYLOAD_BYTES"
proof -
  obtain pkt where "pack_wave_data (PyInt 1) (PyInt 0) (PyInt 0) (replicate 32 7) (PyInt 9) = Inr pkt"
    using pack_wave_data_example by blast
  with pack_wave_data_roundtrip [OF this] show ?thesis by blast
qed

lemma wave_uint_Inr_bounds: "wave_uint v bits nz = Inr n \<Longrightarrow> 0 \<le> n \<and> n < 2 ^ bits"
  by (cases nz) (auto simp: wave_uint_eq_Inr)

lemma pack_wave_packet_error:
  assumes "0 \<le> opc" "opc < 4294967296" "int (length raw) < 4294967296"
    and "pack_wave_packet (PyInt opc) raw seq (PyInt 0) = Inl e"
  shows "e = ParameterRangeError"
proof (cases "wave_uint seq 32 False")
  case (Inl e')
  then show ?thesis using assms wave_uint_error [OF Inl]
    by (simp add: pack_wave_packet_def wave_uint_PyInt)
next
  case (Inr sq)
  then have "seq = PyInt sq" "0 \<le> sq" "sq < 4294967296" by (simp_all add: wave_uint_eq_Inr)
  with assms show ?thesis by (simp add: pack_wave_packet_frame)
qed

lemma pack_wave_begin_error: "pack_wave_begin a b c d e f g = Inl err \<Longrightarrow> err = ParameterRangeError"
  unfolding pack_wave_begin_def
  by (auto simp: err_simps struct_pack_def length_fields_enc split: if_splits
      dest!: wave_uint_error pack_wave_packet_error [rotated -1] dest: wave_uint_Inr_bounds)

lemma pack_wave_data_error: "pack_wave_data a b c raw d = Inl err \<Longrightarrow> err = ParameterRangeError"
  unfolding pack_wave_data_def using zlib_crc32_bounds [of raw]
  by (auto simp: err_simps struct_pack_def length_fields_enc crc32_eq split: if_splits
      dest!: wave_uint_error pack_wave_packet_error [rotated -1] dest: wave_uint_Inr_bounds)

lemma pack_wave_command_error: "pack_wave_command a b c = Inl err \<Longrightarrow> err = ParameterRangeError"
  unfolding pack_wave_command_def
  by (auto simp: err_simps struct_pack_def length_fields_enc split: if_splits
      dest!: wave_uint_error pack_wave_packet_error [rotated -1] dest: wave_uint_Inr_bounds)

text \<open>
  The request builders fail in one way only: whatever Python values they are given, an error
  is a \<open>ParameterRangeError\<close>; no struct.error or TypeError escapes.
\<close>

lemma wave_request_errors:
  "(pack_wave_begin a b c d e f g = Inl err \<longrightarrow> err = ParameterRangeError) \<and>
   (pack_wave_data a b c raw d = Inl err \<longrightarrow> err = ParameterRangeError) \<and>
   (pack_wave_command a b c = Inl err \<longrightarrow> err = ParameterRangeError)"
  using pack_wave_begin_error pack_wave_data_error pack_wave_command_error by blast


end
