(* ===== verification/Rf_Protocol.thy ===== *)
theory Rf_Protocol
  imports Wave_Protocol
begin

text \<open>
  The RFCTRL2 control protocol of software/dr47/protocol.py: the request envelope and the
  fixed requests, the RFRESP2 response envelope, the STATUS/HELLO payload with its appended
  extensions, the diagnostic snapshot, the TDC register access and the bulk-datagram limits.
  The records at the end of each parser are the dictionaries the Python functions return.
\<close>

section \<open>Constants\<close>

definition UDP_RFCTRL2_MAGIC :: int where [simp, const_defs]: "UDP_RFCTRL2_MAGIC = 0x00324C5254434652"
definition UDP_RFRESP2_MAGIC :: int where [simp, const_defs]: "UDP_RFRESP2_MAGIC = 0x0032505345524652"
definition RFCTRL2_VERSION :: int where [simp, const_defs]: "RFCTRL2_VERSION = 3"
definition RF2_OP_HELLO :: int where [simp, const_defs]: "RF2_OP_HELLO = 0x01"
definition RF2_OP_STATUS :: int where [simp, const_defs]: "RF2_OP_STATUS = 0x02"
definition RF2_OP_RFDC_APPLY :: int where [simp, const_defs]: "RF2_OP_RFDC_APPLY = 0x03"
definition RF2_OP_SYNC_EPOCH :: int where [simp, const_defs]: "RF2_OP_SYNC_EPOCH = 0x07"
definition RF2_OP_START_AT :: int where [simp, const_defs]: "RF2_OP_START_AT = 0x08"
definition RF2_OP_RFDC_GET_CONFIG :: int where [simp, const_defs]: "RF2_OP_RFDC_GET_CONFIG = 0x0B"
definition RF2_OP_NETWORK_GET :: int where [simp, const_defs]: "RF2_OP_NETWORK_GET = 0x0C"
definition RF2_OP_NETWORK_APPLY :: int where [simp, const_defs]: "RF2_OP_NETWORK_APPLY = 0x0D"
definition RF2_OP_NETWORK_RESTART :: int where [simp, const_defs]: "RF2_OP_NETWORK_RESTART = 0x0E"
definition RF2_OP_TDC_REG :: int where [simp, const_defs]: "RF2_OP_TDC_REG = 0x11"
definition RF2_OP_DIAG_SNAPSHOT :: int where [simp, const_defs]: "RF2_OP_DIAG_SNAPSHOT = 0x12"
definition RF2_OP_DIAG_CONTROL :: int where [simp, const_defs]: "RF2_OP_DIAG_CONTROL = 0x13"

definition RF2_CAP_PL_RFDC_CONFIG :: int where [simp, const_defs]: "RF2_CAP_PL_RFDC_CONFIG = 0x00010000"
definition RF2_CAP_RFDC_GET_CONFIG :: int where [simp, const_defs]: "RF2_CAP_RFDC_GET_CONFIG = 0x00020000"
definition RF2_CAP_DAC_MTS :: int where [simp, const_defs]: "RF2_CAP_DAC_MTS = 0x00080000"
definition RF2_CAP_NCO_SYNC :: int where [simp, const_defs]: "RF2_CAP_NCO_SYNC = 0x00100000"
definition RF2_CAP_TRIGGER_IO :: int where [simp, const_defs]: "RF2_CAP_TRIGGER_IO = 0x00400000"
definition RF2_CAP_DIAGNOSTICS :: int where [simp, const_defs]: "RF2_CAP_DIAGNOSTICS = 0x00800000"

definition RF2_BUILD_PROFILE_UNKNOWN :: int where [simp, const_defs]: "RF2_BUILD_PROFILE_UNKNOWN = 0"
definition RF2_BUILD_PROFILE_NORMAL :: int where [simp, const_defs]: "RF2_BUILD_PROFILE_NORMAL = 1"
definition RF2_BUILD_PROFILE_BANDWIDTH :: int where [simp, const_defs]: "RF2_BUILD_PROFILE_BANDWIDTH = 3"
definition RF2_TRIGGER_PATH_VERSION :: int where [simp, const_defs]: "RF2_TRIGGER_PATH_VERSION = 3"
definition RF2_SOURCE_COMMIT_UNKNOWN :: int where [simp, const_defs]: "RF2_SOURCE_COMMIT_UNKNOWN = 0"

text \<open>The dictionary \<open>RF2_BUILD_PROFILE_NAMES\<close> read with \<open>.get(_, "")\<close>.\<close>

definition build_profile_name :: "int \<Rightarrow> string" where
  "build_profile_name p =
     (if p = RF2_BUILD_PROFILE_NORMAL then ''custom_xczu47dr''
      else if p = RF2_BUILD_PROFILE_BANDWIDTH then ''custom_xczu47dr_bw''
      else [])"

definition RF2_STATUS_RFDC_READY :: int where [simp, const_defs]: "RF2_STATUS_RFDC_READY = 0x001"
definition RF2_STATUS_RFDC_BUSY :: int where [simp, const_defs]: "RF2_STATUS_RFDC_BUSY = 0x002"
definition RF2_STATUS_ARMED :: int where [simp, const_defs]: "RF2_STATUS_ARMED = 0x004"
definition RF2_STATUS_RUNNING :: int where [simp, const_defs]: "RF2_STATUS_RUNNING = 0x008"
definition RF2_STATUS_PREPARED :: int where [simp, const_defs]: "RF2_STATUS_PREPARED = 0x010"
definition RF2_STATUS_DAC_MTS_READY :: int where [simp, const_defs]: "RF2_STATUS_DAC_MTS_READY = 0x020"
definition RF2_STATUS_DAC_MTS_FAILED :: int where [simp, const_defs]: "RF2_STATUS_DAC_MTS_FAILED = 0x040"
definition RF2_STATUS_NCO_SYNC_READY :: int where [simp, const_defs]: "RF2_STATUS_NCO_SYNC_READY = 0x080"
definition RF2_STATUS_DAC_MTS_REQUIRED :: int where [simp, const_defs]: "RF2_STATUS_DAC_MTS_REQUIRED = 0x100"

definition RF2_STATUS_OK :: int where [simp, const_defs]: "RF2_STATUS_OK = 0x0000"
definition RF2_STATUS_BAD_VERSION :: int where [simp, const_defs]: "RF2_STATUS_BAD_VERSION = 0x0001"
definition RF2_STATUS_UNSUPPORTED :: int where [simp, const_defs]: "RF2_STATUS_UNSUPPORTED = 0x0002"
definition RF2_STATUS_BAD_REQUEST :: int where [simp, const_defs]: "RF2_STATUS_BAD_REQUEST = 0x0003"
definition RF2_STATUS_BUSY :: int where [simp, const_defs]: "RF2_STATUS_BUSY = 0x0004"
definition RF2_STATUS_RFDC_NOT_READY :: int where [simp, const_defs]: "RF2_STATUS_RFDC_NOT_READY = 0x0005"
definition RF2_STATUS_UNSAFE_STATE :: int where [simp, const_defs]: "RF2_STATUS_UNSAFE_STATE = 0x0006"
definition RF2_STATUS_RANGE :: int where [simp, const_defs]: "RF2_STATUS_RANGE = 0x0007"

section \<open>Requests\<close>

definition validate_udp_bulk_beats :: "int \<Rightarrow> int result" where
  "validate_udp_bulk_beats beats =
     guard_raise (beats \<le> 0) ParameterRangeError (
     guard_raise (beats > UDP_BULK_SAFE_MAX_BEATS) ParameterRangeError (
     let payload_bytes = UDP_BULK_HEADER_BYTES + beats * DDR_INTERLEAVED_BEAT_BYTES in
     guard_raise (payload_bytes > UDP_MAX_PAYLOAD_BYTES) ParameterRangeError (Inr beats)))"

definition pack_rfctrl2_packet :: "int \<Rightarrow> bytes \<Rightarrow> int \<Rightarrow> int \<Rightarrow> bytes result" where
  "pack_rfctrl2_packet opcode raw seq flags =
     (let hdr0 = (push_bit 32 (opcode AND 0xFFFFFFFF) OR push_bit 16 (flags AND 0xFFFF)) OR RFCTRL2_VERSION;
          hdr1 = push_bit 32 (int (length raw) AND 0xFFFFFFFF) OR (seq AND 0xFFFFFFFF) in
      ebind (struct_pack [fQ, fQ, fQ] [UDP_RFCTRL2_MAGIC, hdr0, hdr1]) (\<lambda>hdr. Inr (hdr @ pad8 raw)))"

definition pack_rfctrl2_hello :: "int \<Rightarrow> bytes result" where
  "pack_rfctrl2_hello seq = pack_rfctrl2_packet RF2_OP_HELLO [] seq 0"

definition pack_rfctrl2_status :: "int \<Rightarrow> bytes result" where
  "pack_rfctrl2_status seq = pack_rfctrl2_packet RF2_OP_STATUS [] seq 0"

definition pack_rfctrl2_diag_snapshot :: "int \<Rightarrow> bytes result" where
  "pack_rfctrl2_diag_snapshot seq = pack_rfctrl2_packet RF2_OP_DIAG_SNAPSHOT [] seq 0"

definition pack_rfctrl2_diag_control :: "int \<Rightarrow> bool \<Rightarrow> int \<Rightarrow> bytes result" where
  "pack_rfctrl2_diag_control events counters seq =
     (let flags = (if counters then 1 else 0) in
      ebind (struct_pack [fI, fI] [events AND 0xFFFFFFFF, flags]) (\<lambda>payload.
      pack_rfctrl2_packet RF2_OP_DIAG_CONTROL payload seq 0))"

definition pack_rfctrl2_sync_epoch :: "int \<Rightarrow> int \<Rightarrow> bytes result" where
  "pack_rfctrl2_sync_epoch epoch seq =
     ebind (struct_pack [fQ] [epoch AND 0xFFFFFFFFFFFFFFFF]) (\<lambda>payload.
     pack_rfctrl2_packet RF2_OP_SYNC_EPOCH payload seq 0)"

definition pack_rfctrl2_start_at :: "int \<Rightarrow> int \<Rightarrow> bytes result" where
  "pack_rfctrl2_start_at start_tick seq =
     ebind (struct_pack [fQ] [start_tick AND 0xFFFFFFFFFFFFFFFF]) (\<lambda>payload.
     pack_rfctrl2_packet RF2_OP_START_AT payload seq 0)"

definition pack_rfctrl2_tdc_register :: "pyval \<Rightarrow> pyval \<Rightarrow> pyval \<Rightarrow> int \<Rightarrow> bytes result" where
  "pack_rfctrl2_tdc_register address write data seq =
     (case (operator_index address, operator_index data, operator_index write) of
        (Inr address_value, Inr data_value, Inr write_value) \<Rightarrow>
          guard_raise (\<not> (0 \<le> address_value \<and> address_value \<le> 0xFFFF) \<or> address_value AND 3 \<noteq> 0)
            ParameterRangeError (
          guard_raise (\<not> (0 \<le> data_value \<and> data_value \<le> 0xFFFFFFFF) \<or> write_value \<notin> {0, 1})
            ParameterRangeError (
          ebind (struct_pack [fI, fI, fI, fI] [write_value, address_value, data_value, 0]) (\<lambda>payload.
          pack_rfctrl2_packet RF2_OP_TDC_REG payload seq 0)))
      | _ \<Rightarrow> Inl ParameterRangeError)"

definition pack_rfctrl2_rfdc_get_config :: "int \<Rightarrow> bytes result" where
  "pack_rfctrl2_rfdc_get_config seq = pack_rfctrl2_packet RF2_OP_RFDC_GET_CONFIG [] seq 0"

definition pack_rfctrl2_network_get :: "int \<Rightarrow> bytes result" where
  "pack_rfctrl2_network_get seq = pack_rfctrl2_packet RF2_OP_NETWORK_GET [] seq 0"

definition pack_rfctrl2_network_restart :: "int \<Rightarrow> bytes result" where
  "pack_rfctrl2_network_restart seq = pack_rfctrl2_packet RF2_OP_NETWORK_RESTART [] seq 0"

section \<open>The response envelope\<close>

record rf_response =
  rsp_version :: int
  rsp_status :: int
  rsp_opcode :: int
  rsp_flags :: int
  rsp_seq :: int
  rsp_payload_bytes :: int
  rsp_payload :: bytes

definition parse_rfresp2_packet :: "bytes \<Rightarrow> bool \<Rightarrow> rf_response result" where
  "parse_rfresp2_packet raw validate_version =
     guard_raise (length raw < 24) ProtocolError (
     ebind (struct_unpack_from [fQ, fQ, fQ] raw 0) (\<lambda>h.
     let magic = h ! 0; hdr0 = h ! 1; hdr1 = h ! 2 in
     guard_raise (magic \<noteq> UDP_RFRESP2_MAGIC) ProtocolError (
     let version = hdr0 AND 0xFFFF in
     guard_raise (validate_version \<and> version \<noteq> RFCTRL2_VERSION) ProtocolVersionError (
     let payload_bytes = drop_bit 32 hdr1 AND 0xFFFFFFFF in
     guard_raise (int (length raw) < 24 + payload_bytes) ProtocolError (
     Inr \<lparr>rsp_version = version,
          rsp_status = drop_bit 16 hdr0 AND 0xFFFF,
          rsp_opcode = drop_bit 32 hdr0 AND 0xFFFFFFFF,
          rsp_flags = drop_bit 16 hdr0 AND 0xFFFF,
          rsp_seq = hdr1 AND 0xFFFFFFFF,
          rsp_payload_bytes = payload_bytes,
          rsp_payload = pyslice 24 (24 + nat payload_bytes) raw\<rparr>)))))"

definition parse_rfctrl2_tdc_register_response :: "rf_response \<Rightarrow> int \<Rightarrow> int result" where
  "parse_rfctrl2_tdc_register_response response address =
     (let payload = rsp_payload response in
      guard_raise (length payload \<noteq> 8) ProtocolError (
      ebind (struct_unpack [fI, fI] payload) (\<lambda>v.
      guard_raise (v ! 0 \<noteq> address) ProtocolError (Inr (v ! 1)))))"

section \<open>Field access in a payload\<close>

text \<open>
  The parsers below test the payload's length before each unpack, so no unpack can raise; \<open>u32_at\<close>
  and \<open>u64_at\<close> are one field of \<open>struct.unpack_from("<I...")\<close> and \<open>("<Q...")\<close> there.
\<close>

definition u32_at :: "bytes \<Rightarrow> nat \<Rightarrow> int" where
  "u32_at buf off = le_dec (take 4 (drop off buf))"

definition u64_at :: "bytes \<Rightarrow> nat \<Rightarrow> int" where
  "u64_at buf off = le_dec (take 8 (drop off buf))"

lemma u32_at_unpack: "off + 4 \<le> length buf \<Longrightarrow> struct_unpack_from [fI] buf off = Inr [u32_at buf off]"
  by (simp add: struct_unpack_from_def u32_at_def)

lemma u64_at_unpack: "off + 8 \<le> length buf \<Longrightarrow> struct_unpack_from [fQ] buf off = Inr [u64_at buf off]"
  by (simp add: struct_unpack_from_def u64_at_def)

lemma u32_at_bounds: "0 \<le> u32_at buf off" "u32_at buf off < 4294967296"
proof -
  have "256 ^ length (take 4 (drop off buf)) \<le> (256::int) ^ 4"
    by (rule power_increasing) simp_all
  then show "u32_at buf off < 4294967296"
    using le_dec_bound [of "take 4 (drop off buf)"] by (simp add: u32_at_def)
qed (simp add: u32_at_def)

lemma u64_at_bounds: "0 \<le> u64_at buf off" "u64_at buf off < 18446744073709551616"
proof -
  have "256 ^ length (take 8 (drop off buf)) \<le> (256::int) ^ 8"
    by (rule power_increasing) simp_all
  then show "u64_at buf off < 18446744073709551616"
    using le_dec_bound [of "take 8 (drop off buf)"] by (simp add: u64_at_def)
qed (simp add: u64_at_def)

lemma u32_at_append: "off + 4 \<le> length a \<Longrightarrow> u32_at (a @ b) off = u32_at a off"
  by (simp add: u32_at_def)

lemma u64_at_append: "off + 8 \<le> length a \<Longrightarrow> u64_at (a @ b) off = u64_at a off"
  by (simp add: u64_at_def)

text \<open>The values of a 32-bit field.\<close>

definition u32_range :: "int \<Rightarrow> bool" where
  "u32_range x \<longleftrightarrow> 0 \<le> x \<and> x < 4294967296"

text \<open>\<open>bool((word >> n) & 1)\<close>.\<close>

definition flag_bit :: "int \<Rightarrow> nat \<Rightarrow> bool" where
  "flag_bit word n \<longleftrightarrow> drop_bit n word AND 1 \<noteq> 0"

lemma flag_bit_iff: "flag_bit word n \<longleftrightarrow> bit word n"
  by (simp add: flag_bit_def and_one_eq bit_iff_odd_drop_bit odd_iff_mod_2_eq_one)

section \<open>The STATUS / HELLO payload\<close>

record rf_status =
  st_capabilities :: int
  st_state_flags :: int
  st_config_valid_mask :: int
  st_last_revision :: int
  st_last_error :: int
  st_last_error_stage :: int
  st_last_error_addr :: int
  st_play_config_channel_mask :: int
  st_play_fifo_valid_mask :: int
  st_play_fifo_ready_mask :: int
  st_play_executor_state :: int
  st_play_ddr_read_counter :: int
  st_play_bad_instr_count :: int
  st_play_prefill_ready :: bool
  st_play_active_valid :: bool
  st_play_pending_valid :: bool
  st_dac_mts_required :: bool
  st_dac_mts_ready :: bool
  st_dac_mts_failed :: bool
  st_dac_mts_tile_mask :: int
  st_dac_mts_error :: int
  st_nco_sync_ready :: bool
  st_nco_sync_epoch :: int
  st_sync_status :: int
  st_trigger_input_count :: int
  st_trigger_accepted_count :: int
  st_trigger_output_count :: int
  st_ext_trigger_phase_slot :: int
  st_ext_trigger_phase_valid :: bool
  st_ext_trigger_phase_overflow :: bool
  st_ext_trigger_phase_metastable :: bool
  st_ext_trigger_tap_index :: int
  st_ext_trigger_phase_ps_x10 :: int
  st_playback_admitted_count :: int
  st_playback_skipped_count :: int
  st_build_profile_id :: int
  st_build_profile :: string
  st_source_commit_id :: int
  st_trigger_path_version :: int
  st_rfdc_ready :: bool
  st_rfdc_busy :: bool
  st_armed :: bool
  st_running :: bool
  st_prepared :: bool

definition status_defaults :: rf_status where
  "status_defaults =
     \<lparr>st_capabilities = 0, st_state_flags = 0, st_config_valid_mask = 0,
      st_last_revision = 0, st_last_error = 0, st_last_error_stage = 0,
      st_last_error_addr = 0, st_play_config_channel_mask = 0,
      st_play_fifo_valid_mask = 0, st_play_fifo_ready_mask = 0,
      st_play_executor_state = 0, st_play_ddr_read_counter = 0,
      st_play_bad_instr_count = 0, st_play_prefill_ready = False,
      st_play_active_valid = False, st_play_pending_valid = False,
      st_dac_mts_required = False, st_dac_mts_ready = False,
      st_dac_mts_failed = False, st_dac_mts_tile_mask = 0, st_dac_mts_error = 0,
      st_nco_sync_ready = False, st_nco_sync_epoch = 0,
      st_sync_status = 0,
      st_trigger_input_count = 0, st_trigger_accepted_count = 0,
      st_trigger_output_count = 0,
      st_ext_trigger_phase_slot = 0, st_ext_trigger_phase_valid = False,
      st_ext_trigger_phase_overflow = False,
      st_ext_trigger_phase_metastable = False,
      st_ext_trigger_tap_index = 0, st_ext_trigger_phase_ps_x10 = 0,
      st_playback_admitted_count = 0, st_playback_skipped_count = 0,
      st_build_profile_id = RF2_BUILD_PROFILE_UNKNOWN, st_build_profile = [],
      st_source_commit_id = RF2_SOURCE_COMMIT_UNKNOWN,
      st_trigger_path_version = 0,
      st_rfdc_ready = False, st_rfdc_busy = False, st_armed = False, st_running = False,
      st_prepared = False\<rparr>"

text \<open>One function per \<open>if len(payload) >= n\<close> block, in the order of the source.\<close>

definition status_base :: "bytes \<Rightarrow> rf_status \<Rightarrow> rf_status" where
  "status_base payload r =
     (if length payload \<ge> 32 then
        r\<lparr>st_capabilities := u32_at payload 0, st_state_flags := u32_at payload 4,
          st_config_valid_mask := u32_at payload 8, st_last_revision := u32_at payload 12,
          st_last_error := u32_at payload 16, st_last_error_stage := u32_at payload 20,
          st_last_error_addr := u32_at payload 24\<rparr>
      else r)"

definition status_play :: "bytes \<Rightarrow> rf_status \<Rightarrow> rf_status" where
  "status_play payload r =
     (if length payload \<ge> 64 then
        let play_config = u64_at payload 32; play_ready = u64_at payload 40;
            play_counters = u64_at payload 48; play_flags = u64_at payload 56 in
        r\<lparr>st_play_config_channel_mask := play_config AND 0xFF,
          st_play_fifo_valid_mask := drop_bit 32 play_config AND 0xFF,
          st_play_fifo_ready_mask := play_ready AND 0xFF,
          st_play_executor_state := drop_bit 32 play_ready AND 0xFF,
          st_play_ddr_read_counter := play_counters AND 0xFFFFFFFF,
          st_play_bad_instr_count := drop_bit 32 play_counters AND 0xFFFFFFFF,
          st_play_prefill_ready := flag_bit play_flags 0,
          st_play_pending_valid := flag_bit play_flags 32,
          st_play_active_valid := flag_bit play_flags 33\<rparr>
      else r)"

definition status_mts :: "bytes \<Rightarrow> rf_status \<Rightarrow> rf_status" where
  "status_mts payload r =
     (if length payload \<ge> 72 then
        let mts_flags = u32_at payload 64 in
        r\<lparr>st_nco_sync_epoch := u32_at payload 68,
          st_dac_mts_ready := mts_flags AND 1 \<noteq> 0,
          st_dac_mts_failed := mts_flags AND 2 \<noteq> 0,
          st_dac_mts_required := mts_flags AND 4 \<noteq> 0,
          st_dac_mts_tile_mask := drop_bit 4 mts_flags AND 0xF,
          st_dac_mts_error := drop_bit 16 mts_flags AND 0xFFFF\<rparr>
      else r)"

definition status_sync :: "bytes \<Rightarrow> rf_status \<Rightarrow> rf_status" where
  "status_sync payload r =
     (if length payload \<ge> 80 then
        r\<lparr>st_sync_status := u32_at payload 72,
          st_trigger_path_version := drop_bit 32 (u64_at payload 72) AND 0xFFFFFFFF\<rparr>
      else r)"

definition status_triggers :: "bytes \<Rightarrow> rf_status \<Rightarrow> rf_status" where
  "status_triggers payload r0 =
     (let r1 = (if length payload \<ge> 88 then
                  r0\<lparr>st_trigger_input_count := u32_at payload 80,
                     st_trigger_accepted_count := u32_at payload 84\<rparr>
                else r0) in
      if length payload \<ge> 96 then r1\<lparr>st_trigger_output_count := u32_at payload 88\<rparr> else r1)"

definition status_identity :: "bytes \<Rightarrow> rf_status \<Rightarrow> rf_status" where
  "status_identity payload r =
     (if length payload \<ge> 112 then
        let identity_word = u64_at payload 104;
            profile_id = drop_bit 16 identity_word AND 0xFFFF in
        r\<lparr>st_source_commit_id := drop_bit 32 identity_word AND 0xFFFFFFFF,
          st_build_profile_id := profile_id,
          st_build_profile := build_profile_name profile_id\<rparr>
      else r)"

definition status_phase :: "bytes \<Rightarrow> rf_status \<Rightarrow> rf_status" where
  "status_phase payload r =
     (if length payload \<ge> 120 then
        let phase_word = u64_at payload 112 in
        r\<lparr>st_ext_trigger_phase_slot := phase_word AND 0x7,
          st_ext_trigger_phase_valid := flag_bit phase_word 3,
          st_ext_trigger_phase_overflow := flag_bit phase_word 4,
          st_ext_trigger_phase_metastable := flag_bit phase_word 5,
          st_ext_trigger_tap_index := drop_bit 8 phase_word AND 0xFF,
          st_ext_trigger_phase_ps_x10 := drop_bit 16 phase_word AND 0xFFFF\<rparr>
      else r)"

definition status_playback :: "bytes \<Rightarrow> rf_status \<Rightarrow> rf_status" where
  "status_playback payload r =
     (if length payload \<ge> 128 then
        r\<lparr>st_playback_admitted_count := u32_at payload 120,
          st_playback_skipped_count := u32_at payload 124\<rparr>
      else r)"

definition status_flags :: "rf_status \<Rightarrow> rf_status" where
  "status_flags r =
     (let f = st_state_flags r in
      r\<lparr>st_rfdc_ready := f AND RF2_STATUS_RFDC_READY \<noteq> 0,
        st_rfdc_busy := f AND RF2_STATUS_RFDC_BUSY \<noteq> 0,
        st_armed := f AND RF2_STATUS_ARMED \<noteq> 0,
        st_running := f AND RF2_STATUS_RUNNING \<noteq> 0,
        st_prepared := f AND RF2_STATUS_PREPARED \<noteq> 0,
        st_dac_mts_ready := st_dac_mts_ready r \<or> f AND RF2_STATUS_DAC_MTS_READY \<noteq> 0,
        st_dac_mts_failed := st_dac_mts_failed r \<or> f AND RF2_STATUS_DAC_MTS_FAILED \<noteq> 0,
        st_nco_sync_ready := f AND RF2_STATUS_NCO_SYNC_READY \<noteq> 0,
        st_dac_mts_required := st_dac_mts_required r \<or> f AND RF2_STATUS_DAC_MTS_REQUIRED \<noteq> 0\<rparr>)"

definition parse_rfctrl2_status_payload :: "bytes \<Rightarrow> rf_status" where
  "parse_rfctrl2_status_payload payload =
     status_flags (status_playback payload (status_phase payload (status_identity payload
       (status_triggers payload (status_sync payload (status_mts payload (status_play payload
         (status_base payload status_defaults))))))))"

section \<open>The diagnostic snapshot\<close>

record rf_diagnostics =
  dg_generation :: int
  dg_trigger_input_count :: int
  dg_trigger_capture_tick :: int
  dg_trigger_accepted_count :: int
  dg_trigger_skipped_count :: int
  dg_trigger_rejected_count :: int
  dg_trigger_launch_tick :: int
  dg_playback_start_tick :: int
  dg_first_valid_tick :: int
  dg_trigger_to_launch_last :: int
  dg_launch_to_first_valid_last :: int
  dg_replay_ready :: bool
  dg_replay_active :: bool
  dg_fifo_level :: "int list"
  dg_prepared_dac :: bool
  dg_output_permitted_dac :: bool
  dg_underflow_mask :: int
  dg_mute :: bool
  dg_abort :: bool
  dg_rfdc_status :: int
  dg_rfdc_failure_stage :: int
  dg_rfdc_failure_address :: int
  dg_rfdc_axi_response :: int
  dg_dma_chunk_beats :: int
  dg_dma_outstanding_beats :: int
  dg_refill_start_tick :: int
  dg_refill_done_tick :: int
  dg_dac_direct_input_count :: int
  dg_dac_direct_accept_count :: int
  dg_dac_direct_trigger_pulse :: bool
  dg_dac_trigger_launch :: bool

definition diagnostics_defaults :: rf_diagnostics where
  "diagnostics_defaults =
     \<lparr>dg_generation = 0, dg_trigger_input_count = 0, dg_trigger_capture_tick = 0,
      dg_trigger_accepted_count = 0, dg_trigger_skipped_count = 0,
      dg_trigger_rejected_count = 0, dg_trigger_launch_tick = 0,
      dg_playback_start_tick = 0, dg_first_valid_tick = 0,
      dg_trigger_to_launch_last = 0, dg_launch_to_first_valid_last = 0,
      dg_replay_ready = False, dg_replay_active = False, dg_fifo_level = [],
      dg_prepared_dac = False, dg_output_permitted_dac = False,
      dg_underflow_mask = 0, dg_mute = False, dg_abort = False,
      dg_rfdc_status = 0, dg_rfdc_failure_stage = 0, dg_rfdc_failure_address = 0,
      dg_rfdc_axi_response = 0, dg_dma_chunk_beats = 0,
      dg_dma_outstanding_beats = 0, dg_refill_start_tick = 0, dg_refill_done_tick = 0,
      dg_dac_direct_input_count = 0, dg_dac_direct_accept_count = 0,
      dg_dac_direct_trigger_pulse = False, dg_dac_trigger_launch = False\<rparr>"

text \<open>The generation word and the loop over the eight named counters and ticks.\<close>

definition diag_counters :: "bytes \<Rightarrow> rf_diagnostics \<Rightarrow> rf_diagnostics" where
  "diag_counters payload r0 =
     (let n = length payload;
          r = (if n \<ge> 8 then r0\<lparr>dg_generation := u64_at payload 0\<rparr> else r0);
          r = (if n \<ge> 16 then r\<lparr>dg_trigger_input_count := u64_at payload 8\<rparr> else r);
          r = (if n \<ge> 24 then r\<lparr>dg_trigger_capture_tick := u64_at payload 16\<rparr> else r);
          r = (if n \<ge> 32 then r\<lparr>dg_trigger_accepted_count := u64_at payload 24\<rparr> else r);
          r = (if n \<ge> 40 then r\<lparr>dg_trigger_skipped_count := u64_at payload 32\<rparr> else r);
          r = (if n \<ge> 48 then r\<lparr>dg_trigger_rejected_count := u64_at payload 40\<rparr> else r);
          r = (if n \<ge> 56 then r\<lparr>dg_trigger_launch_tick := u64_at payload 48\<rparr> else r);
          r = (if n \<ge> 64 then r\<lparr>dg_playback_start_tick := u64_at payload 56\<rparr> else r) in
      if n \<ge> 72 then r\<lparr>dg_first_valid_tick := u64_at payload 64\<rparr> else r)"

definition diag_flags :: "bytes \<Rightarrow> rf_diagnostics \<Rightarrow> rf_diagnostics" where
  "diag_flags payload r =
     (if length payload \<ge> 96 then
        let word = u64_at payload 88 in
        r\<lparr>dg_replay_ready := word AND 1 \<noteq> 0,
          dg_replay_active := word AND 2 \<noteq> 0,
          dg_dac_direct_trigger_pulse := flag_bit word 2,
          dg_dac_trigger_launch := flag_bit word 3,
          dg_prepared_dac := flag_bit word 4,
          dg_output_permitted_dac := flag_bit word 5,
          dg_underflow_mask := drop_bit 8 word AND 0xFF,
          dg_mute := flag_bit word 6,
          dg_abort := flag_bit word 7\<rparr>
      else r)"

definition diag_latency :: "bytes \<Rightarrow> rf_diagnostics \<Rightarrow> rf_diagnostics" where
  "diag_latency payload r0 =
     (let r = (if length payload \<ge> 104 then
                 r0\<lparr>dg_trigger_to_launch_last := u64_at payload 72,
                    dg_launch_to_first_valid_last := u64_at payload 80\<rparr>
               else r0) in
      if length payload \<ge> 104 then
        let status_word = u64_at payload 96 in
        r\<lparr>dg_rfdc_failure_stage := status_word AND 0xFFFF,
          dg_rfdc_status := drop_bit 16 status_word AND 0xFFFF\<rparr>
      else r)"

definition diag_failure :: "bytes \<Rightarrow> rf_diagnostics \<Rightarrow> rf_diagnostics" where
  "diag_failure payload r0 =
     (let r = (if length payload \<ge> 112 then
                 let failure_word = u64_at payload 104 in
                 r0\<lparr>dg_rfdc_failure_address := failure_word AND 0x3FFFF,
                    dg_rfdc_axi_response := drop_bit 18 failure_word AND 0x3\<rparr>
               else r0) in
      if length payload \<ge> 120 then
        let direct_word = u64_at payload 112 in
        r\<lparr>dg_dac_direct_input_count := direct_word AND 0xFFFFFFFF,
          dg_dac_direct_accept_count := drop_bit 32 direct_word AND 0xFFFFFFFF\<rparr>
      else r)"

definition diag_dma :: "bytes \<Rightarrow> rf_diagnostics \<Rightarrow> rf_diagnostics" where
  "diag_dma payload r0 =
     (let r = (if length payload \<ge> 128 then
                 r0\<lparr>dg_dma_chunk_beats := u64_at payload 120 AND 0xFFFFFFFF\<rparr> else r0);
          r = (if length payload \<ge> 136 then
                 r\<lparr>dg_dma_outstanding_beats := u64_at payload 128 AND 0xFFFFFFFF\<rparr> else r) in
      if length payload \<ge> 144 then
        let event_word = u64_at payload 136 in
        r\<lparr>dg_dac_direct_trigger_pulse := dg_dac_direct_trigger_pulse r \<or> flag_bit event_word 32,
          dg_dac_trigger_launch := dg_dac_trigger_launch r \<or> flag_bit event_word 33\<rparr>
      else r)"

definition parse_rfctrl2_diagnostics_payload :: "bytes \<Rightarrow> rf_diagnostics" where
  "parse_rfctrl2_diagnostics_payload payload =
     diag_dma payload (diag_failure payload (diag_latency payload (diag_flags payload
       (diag_counters payload diagnostics_defaults))))"

section \<open>Envelope laws\<close>

lemma and_mask_bounds: "0 \<le> (x::int) AND 0xFFFFFFFF" "x AND 0xFFFFFFFF < 4294967296"
  "0 \<le> x AND 0xFFFF" "x AND 0xFFFF < 65536"
  by (simp_all add: and_mask_numerals)

text \<open>Every RFCTRL2 request is built, whatever the opcode, flags and sequence number: they are masked.\<close>

lemma pack_rfctrl2_packet_envelope:
  assumes "int (length raw) < 4294967296"
  shows "pack_rfctrl2_packet opcode raw seq flags =
    Inr (envelope UDP_RFCTRL2_MAGIC RFCTRL2_VERSION (opcode mod 4294967296) (flags mod 65536) raw
          (seq mod 4294967296))"
proof -
  let ?o = "opcode mod 4294967296" and ?f = "flags mod 65536" and ?s = "seq mod 4294967296"
  have ok: "envelope_ok UDP_RFCTRL2_MAGIC RFCTRL2_VERSION ?o ?f raw ?s"
    using assms by (simp add: envelope_ok_def)
  have h0: "(push_bit 32 ?o OR push_bit 16 ?f) OR 3 = ?o * 4294967296 + ?f * 65536 + 3"
    using header_word [of ?f 3 ?o] by simp
  have h1: "push_bit 32 (int (length raw)) OR ?s = int (length raw) * 4294967296 + ?s"
    by (rule length_word) simp_all
  have lm: "int (length raw) AND 0xFFFFFFFF = int (length raw)"
    using assms by (simp add: and_mask_numerals)
  have fo: "fields_ok [fQ, fQ, fQ] [UDP_RFCTRL2_MAGIC, ?o * 4294967296 + ?f * 65536 + 3,
      int (length raw) * 4294967296 + ?s]"
    using envelope_fields_ok [OF ok] by simp
  have "opcode AND 0xFFFFFFFF = ?o" "flags AND 0xFFFF = ?f" "seq AND 0xFFFFFFFF = ?s"
    by (simp_all add: and_mask_numerals)
  then show ?thesis
    unfolding pack_rfctrl2_packet_def Let_def lm
    by (simp only: RFCTRL2_VERSION_def h0 h1 struct_pack_ok [OF fo] ebind_Inr envelope_def)
qed

interpretation rf_req: wire_protocol UDP_RFCTRL2_MAGIC RFCTRL2_VERSION
  "\<lambda>opc fl raw sq. pack_rfctrl2_packet opc raw sq fl"
proof (unfold_locales, goal_cases)
  case (3 opc fl raw sq)
  then show ?case by (simp only: pack_rfctrl2_packet_envelope) simp
qed simp_all

lemma parse_rfresp2_envelope:
  assumes ok: "envelope_ok UDP_RFRESP2_MAGIC ver opc st raw sq"
    and v: "v \<Longrightarrow> ver = RFCTRL2_VERSION"
  shows "parse_rfresp2_packet (envelope UDP_RFRESP2_MAGIC ver opc st raw sq @ trailing) v =
    Inr \<lparr>rsp_version = ver, rsp_status = st, rsp_opcode = opc, rsp_flags = st, rsp_seq = sq,
         rsp_payload_bytes = int (length raw), rsp_payload = raw\<rparr>"
proof -
  let ?e = "envelope UDP_RFRESP2_MAGIC ver opc st raw sq"
  have len: "24 + length raw \<le> length ?e"
    by (simp add: length_envelope pad8_def)
  have "fields_dec [fQ, fQ, fQ] (?e @ trailing) = fields_dec [fQ, fQ, fQ] (take 24 (?e @ trailing))"
    by (rule fields_dec_take [symmetric]) simp
  also have "\<dots> = fields_dec [fQ, fQ, fQ] (take 24 ?e)" using len by simp
  also have "\<dots> = fields_dec [fQ, fQ, fQ] ?e" by (rule fields_dec_take) simp
  finally have u: "struct_unpack_from [fQ, fQ, fQ] (?e @ trailing) 0 = Inr (fields_dec [fQ, fQ, fQ] ?e)"
    using len by (simp add: struct_unpack_from_def)
  note h = envelope_header [OF ok]
  have r: "0 \<le> opc" "opc < 4294967296" "int (length raw) < 4294967296"
    using ok by (simp_all add: envelope_ok_def)
  have p: "pyslice 24 (24 + nat (int (length raw))) (?e @ trailing) = raw"
    using len by (simp add: pyslice_def drop_envelope take_pad8 pad8_def)
  show ?thesis
    unfolding parse_rfresp2_packet_def Let_def u ebind_Inr and_mask_numerals drop_bit_numerals h
    using v len r p by (simp add: guard_raise_def)
qed

text \<open>
  C2. RFCTRL2 requests and RFRESP2 responses travel intact: every request can be opened to the
  magic, version 3, and the opcode, flags, sequence number (reduced to their widths) and payload
  it was built from; and a response built the same way is parsed to exactly its fields, with any
  bytes after the announced payload ignored.
\<close>

theorem rfctrl2_request_response_roundtrip:
  assumes "int (length raw) < 2 ^ 32"
  shows "(\<exists>pkt. pack_rfctrl2_packet opcode raw seq flags = Inr pkt \<and>
            open_envelope pkt = (UDP_RFCTRL2_MAGIC, RFCTRL2_VERSION, opcode mod 2 ^ 32,
              flags mod 2 ^ 16, seq mod 2 ^ 32, raw) \<and>
            length pkt = 24 + 8 * ((length raw + 7) div 8)) \<and>
    parse_rfresp2_packet (envelope UDP_RFRESP2_MAGIC RFCTRL2_VERSION (opcode mod 2 ^ 32)
        (status mod 2 ^ 16) raw (seq mod 2 ^ 32) @ trailing) True =
      Inr \<lparr>rsp_version = RFCTRL2_VERSION, rsp_status = status mod 2 ^ 16, rsp_opcode = opcode mod 2 ^ 32,
           rsp_flags = status mod 2 ^ 16, rsp_seq = seq mod 2 ^ 32,
           rsp_payload_bytes = int (length raw), rsp_payload = raw\<rparr>"
proof
  have ok: "envelope_ok UDP_RFCTRL2_MAGIC RFCTRL2_VERSION (opcode mod 4294967296) (flags mod 65536) raw (seq mod 4294967296)"
    "envelope_ok UDP_RFRESP2_MAGIC RFCTRL2_VERSION (opcode mod 4294967296) (status mod 65536) raw (seq mod 4294967296)"
    using assms by (simp_all add: envelope_ok_def)
  show "\<exists>pkt. pack_rfctrl2_packet opcode raw seq flags = Inr pkt \<and>
            open_envelope pkt = (UDP_RFCTRL2_MAGIC, RFCTRL2_VERSION, opcode mod 2 ^ 32,
              flags mod 2 ^ 16, seq mod 2 ^ 32, raw) \<and> length pkt = 24 + 8 * ((length raw + 7) div 8)"
    using assms pack_rfctrl2_packet_envelope [of raw opcode seq flags] open_envelope_envelope [OF ok(1)]
    by (simp add: length_envelope length_pad8)
  show "parse_rfresp2_packet (envelope UDP_RFRESP2_MAGIC RFCTRL2_VERSION (opcode mod 2 ^ 32)
        (status mod 2 ^ 16) raw (seq mod 2 ^ 32) @ trailing) True =
      Inr \<lparr>rsp_version = RFCTRL2_VERSION, rsp_status = status mod 2 ^ 16, rsp_opcode = opcode mod 2 ^ 32,
           rsp_flags = status mod 2 ^ 16, rsp_seq = seq mod 2 ^ 32,
           rsp_payload_bytes = int (length raw), rsp_payload = raw\<rparr>"
    using parse_rfresp2_envelope [OF ok(2), of True trailing] by simp
qed

theorem rfctrl2_request_response_roundtrip_witness:
  "\<exists>pkt. pack_rfctrl2_packet 2 [1, 2, 3] (- 1) 0 = Inr pkt \<and> length pkt = 32"
  using rfctrl2_request_response_roundtrip [of "[1, 2, 3]" 2 "- 1" 0 0 "[]"] by auto

section \<open>Payload extensions\<close>

lemmas status_block_defs = status_base_def status_play_def status_mts_def status_sync_def
  status_triggers_def status_identity_def status_phase_def status_playback_def

text \<open>A block that the shorter payload already holds decodes the same from the longer one.\<close>

lemma status_blocks_append:
  "96 \<le> length p \<Longrightarrow> status_base (p @ ext) r = status_base p r"
  "96 \<le> length p \<Longrightarrow> status_play (p @ ext) r = status_play p r"
  "96 \<le> length p \<Longrightarrow> status_mts (p @ ext) r = status_mts p r"
  "96 \<le> length p \<Longrightarrow> status_sync (p @ ext) r = status_sync p r"
  "96 \<le> length p \<Longrightarrow> status_triggers (p @ ext) r = status_triggers p r"
  "128 \<le> length p \<Longrightarrow> status_identity (p @ ext) r = status_identity p r"
  "128 \<le> length p \<Longrightarrow> status_phase (p @ ext) r = status_phase p r"
  "128 \<le> length p \<Longrightarrow> status_playback (p @ ext) r = status_playback p r"
  by (simp_all add: status_block_defs u32_at_append u64_at_append Let_def)

text \<open>The extension blocks write no field that the flags are computed from or into.\<close>

lemma status_flags_commute:
  "status_flags (status_playback p r) = status_playback p (status_flags r)"
  "status_flags (status_phase p r) = status_phase p (status_flags r)"
  "status_flags (status_identity p r) = status_identity p (status_flags r)"
  by (simp_all add: status_flags_def status_playback_def status_phase_def status_identity_def Let_def)


text \<open>Fields a block does not write pass through it.\<close>

lemma status_sel_flags:
  "st_capabilities (status_flags r) = st_capabilities r"
  "st_state_flags (status_flags r) = st_state_flags r"
  "st_config_valid_mask (status_flags r) = st_config_valid_mask r"
  "st_last_revision (status_flags r) = st_last_revision r"
  "st_play_config_channel_mask (status_flags r) = st_play_config_channel_mask r"
  "st_trigger_input_count (status_flags r) = st_trigger_input_count r"
  "st_trigger_accepted_count (status_flags r) = st_trigger_accepted_count r"
  "st_trigger_output_count (status_flags r) = st_trigger_output_count r"
  "st_source_commit_id (status_flags r) = st_source_commit_id r"
  "st_build_profile (status_flags r) = st_build_profile r"
  "st_playback_admitted_count (status_flags r) = st_playback_admitted_count r"
  "st_trigger_path_version (status_flags r) = st_trigger_path_version r"
  by (simp_all add: status_flags_def Let_def)

lemma status_sel_base:
  "st_play_config_channel_mask (status_base p r) = st_play_config_channel_mask r"
  "st_dac_mts_ready (status_base p r) = st_dac_mts_ready r"
  "st_dac_mts_failed (status_base p r) = st_dac_mts_failed r"
  "st_dac_mts_required (status_base p r) = st_dac_mts_required r"
  "st_trigger_input_count (status_base p r) = st_trigger_input_count r"
  "st_trigger_accepted_count (status_base p r) = st_trigger_accepted_count r"
  "st_trigger_output_count (status_base p r) = st_trigger_output_count r"
  "st_source_commit_id (status_base p r) = st_source_commit_id r"
  "st_build_profile (status_base p r) = st_build_profile r"
  "st_playback_admitted_count (status_base p r) = st_playback_admitted_count r"
  "st_trigger_path_version (status_base p r) = st_trigger_path_version r"
  by (simp_all add: status_base_def Let_def)

lemma status_sel_play:
  "st_capabilities (status_play p r) = st_capabilities r"
  "st_state_flags (status_play p r) = st_state_flags r"
  "st_config_valid_mask (status_play p r) = st_config_valid_mask r"
  "st_last_revision (status_play p r) = st_last_revision r"
  "st_dac_mts_ready (status_play p r) = st_dac_mts_ready r"
  "st_dac_mts_failed (status_play p r) = st_dac_mts_failed r"
  "st_dac_mts_required (status_play p r) = st_dac_mts_required r"
  "st_trigger_input_count (status_play p r) = st_trigger_input_count r"
  "st_trigger_accepted_count (status_play p r) = st_trigger_accepted_count r"
  "st_trigger_output_count (status_play p r) = st_trigger_output_count r"
  "st_source_commit_id (status_play p r) = st_source_commit_id r"
  "st_build_profile (status_play p r) = st_build_profile r"
  "st_playback_admitted_count (status_play p r) = st_playback_admitted_count r"
  "st_trigger_path_version (status_play p r) = st_trigger_path_version r"
  by (simp_all add: status_play_def Let_def)

lemma status_sel_mts:
  "st_capabilities (status_mts p r) = st_capabilities r"
  "st_state_flags (status_mts p r) = st_state_flags r"
  "st_config_valid_mask (status_mts p r) = st_config_valid_mask r"
  "st_last_revision (status_mts p r) = st_last_revision r"
  "st_play_config_channel_mask (status_mts p r) = st_play_config_channel_mask r"
  "st_trigger_input_count (status_mts p r) = st_trigger_input_count r"
  "st_trigger_accepted_count (status_mts p r) = st_trigger_accepted_count r"
  "st_trigger_output_count (status_mts p r) = st_trigger_output_count r"
  "st_source_commit_id (status_mts p r) = st_source_commit_id r"
  "st_build_profile (status_mts p r) = st_build_profile r"
  "st_playback_admitted_count (status_mts p r) = st_playback_admitted_count r"
  "st_trigger_path_version (status_mts p r) = st_trigger_path_version r"
  by (simp_all add: status_mts_def Let_def)

lemma status_sel_sync:
  "st_capabilities (status_sync p r) = st_capabilities r"
  "st_state_flags (status_sync p r) = st_state_flags r"
  "st_config_valid_mask (status_sync p r) = st_config_valid_mask r"
  "st_last_revision (status_sync p r) = st_last_revision r"
  "st_play_config_channel_mask (status_sync p r) = st_play_config_channel_mask r"
  "st_dac_mts_ready (status_sync p r) = st_dac_mts_ready r"
  "st_dac_mts_failed (status_sync p r) = st_dac_mts_failed r"
  "st_dac_mts_required (status_sync p r) = st_dac_mts_required r"
  "st_trigger_input_count (status_sync p r) = st_trigger_input_count r"
  "st_trigger_accepted_count (status_sync p r) = st_trigger_accepted_count r"
  "st_trigger_output_count (status_sync p r) = st_trigger_output_count r"
  "st_source_commit_id (status_sync p r) = st_source_commit_id r"
  "st_build_profile (status_sync p r) = st_build_profile r"
  "st_playback_admitted_count (status_sync p r) = st_playback_admitted_count r"
  by (simp_all add: status_sync_def Let_def)

lemma status_sel_triggers:
  "st_capabilities (status_triggers p r) = st_capabilities r"
  "st_state_flags (status_triggers p r) = st_state_flags r"
  "st_config_valid_mask (status_triggers p r) = st_config_valid_mask r"
  "st_last_revision (status_triggers p r) = st_last_revision r"
  "st_play_config_channel_mask (status_triggers p r) = st_play_config_channel_mask r"
  "st_dac_mts_ready (status_triggers p r) = st_dac_mts_ready r"
  "st_dac_mts_failed (status_triggers p r) = st_dac_mts_failed r"
  "st_dac_mts_required (status_triggers p r) = st_dac_mts_required r"
  "st_source_commit_id (status_triggers p r) = st_source_commit_id r"
  "st_build_profile (status_triggers p r) = st_build_profile r"
  "st_playback_admitted_count (status_triggers p r) = st_playback_admitted_count r"
  "st_trigger_path_version (status_triggers p r) = st_trigger_path_version r"
  by (simp_all add: status_triggers_def Let_def)

lemma status_absent_blocks:
  "length p < 112 \<Longrightarrow> status_identity p r = r"
  "length p < 120 \<Longrightarrow> status_phase p r = r"
  "length p < 128 \<Longrightarrow> status_playback p r = r"
  by (simp_all add: status_identity_def status_phase_def status_playback_def)

lemmas status_sels = status_sel_flags status_sel_base status_sel_play status_sel_mts status_sel_sync
  status_sel_triggers

text \<open>The fields of a payload that ends before the appended extensions.\<close>

lemma status_base_payload:
  assumes "length p = 96"
  defines "r \<equiv> parse_rfctrl2_status_payload p"
  shows "st_capabilities r = u32_at p 0" "st_state_flags r = u32_at p 4" "st_config_valid_mask r = u32_at p 8"
    "st_last_revision r = u32_at p 12" "st_trigger_input_count r = u32_at p 80"
    "st_trigger_accepted_count r = u32_at p 84" "st_trigger_output_count r = u32_at p 88"
    "st_play_config_channel_mask r = u64_at p 32 AND 0xFF"
    "st_dac_mts_ready r \<longleftrightarrow> u32_at p 64 AND 1 \<noteq> 0 \<or> u32_at p 4 AND RF2_STATUS_DAC_MTS_READY \<noteq> 0"
    "st_dac_mts_failed r \<longleftrightarrow> u32_at p 64 AND 2 \<noteq> 0 \<or> u32_at p 4 AND RF2_STATUS_DAC_MTS_FAILED \<noteq> 0"
    "st_rfdc_ready r \<longleftrightarrow> u32_at p 4 AND RF2_STATUS_RFDC_READY \<noteq> 0"
    "st_armed r \<longleftrightarrow> u32_at p 4 AND RF2_STATUS_ARMED \<noteq> 0"
    "st_prepared r \<longleftrightarrow> u32_at p 4 AND RF2_STATUS_PREPARED \<noteq> 0"
    "st_running r \<longleftrightarrow> u32_at p 4 AND RF2_STATUS_RUNNING \<noteq> 0"
    "st_nco_sync_ready r \<longleftrightarrow> u32_at p 4 AND RF2_STATUS_NCO_SYNC_READY \<noteq> 0"
    "st_source_commit_id r = 0" "st_build_profile r = []" "st_playback_admitted_count r = 0"
proof -
  let ?pre = "status_triggers p (status_sync p (status_mts p (status_play p (status_base p status_defaults))))"
  have r: "r = status_flags ?pre"
    using assms(1) by (simp add: r_def parse_rfctrl2_status_payload_def status_absent_blocks)
  have b: "st_capabilities (status_base p q) = u32_at p 0" "st_state_flags (status_base p q) = u32_at p 4"
    "st_config_valid_mask (status_base p q) = u32_at p 8" "st_last_revision (status_base p q) = u32_at p 12"
    "st_trigger_input_count (status_triggers p q) = u32_at p 80" "st_trigger_accepted_count (status_triggers p q) = u32_at p 84"
    "st_trigger_output_count (status_triggers p q) = u32_at p 88"
    "st_play_config_channel_mask (status_play p q) = u64_at p 32 AND 0xFF"
    "st_dac_mts_ready (status_mts p q) \<longleftrightarrow> u32_at p 64 AND 1 \<noteq> 0"
    "st_dac_mts_failed (status_mts p q) \<longleftrightarrow> u32_at p 64 AND 2 \<noteq> 0" for q
    using assms(1) by (simp_all add: status_base_def status_triggers_def status_play_def status_mts_def Let_def)
  have f: "st_dac_mts_ready (status_flags q) \<longleftrightarrow> st_dac_mts_ready q \<or> st_state_flags q AND RF2_STATUS_DAC_MTS_READY \<noteq> 0"
    "st_dac_mts_failed (status_flags q) \<longleftrightarrow> st_dac_mts_failed q \<or> st_state_flags q AND RF2_STATUS_DAC_MTS_FAILED \<noteq> 0"
    "st_rfdc_ready (status_flags q) \<longleftrightarrow> st_state_flags q AND RF2_STATUS_RFDC_READY \<noteq> 0"
    "st_armed (status_flags q) \<longleftrightarrow> st_state_flags q AND RF2_STATUS_ARMED \<noteq> 0"
    "st_prepared (status_flags q) \<longleftrightarrow> st_state_flags q AND RF2_STATUS_PREPARED \<noteq> 0"
    "st_running (status_flags q) \<longleftrightarrow> st_state_flags q AND RF2_STATUS_RUNNING \<noteq> 0"
    "st_nco_sync_ready (status_flags q) \<longleftrightarrow> st_state_flags q AND RF2_STATUS_NCO_SYNC_READY \<noteq> 0" for q
    by (simp_all add: status_flags_def Let_def)
  have d: "st_source_commit_id status_defaults = 0" "st_build_profile status_defaults = []"
    "st_playback_admitted_count status_defaults = 0" by (simp_all add: status_defaults_def)
  show "st_capabilities r = u32_at p 0" "st_state_flags r = u32_at p 4" "st_config_valid_mask r = u32_at p 8"
    "st_last_revision r = u32_at p 12" "st_trigger_input_count r = u32_at p 80"
    "st_trigger_accepted_count r = u32_at p 84" "st_trigger_output_count r = u32_at p 88"
    "st_play_config_channel_mask r = u64_at p 32 AND 0xFF"
    "st_dac_mts_ready r \<longleftrightarrow> u32_at p 64 AND 1 \<noteq> 0 \<or> u32_at p 4 AND RF2_STATUS_DAC_MTS_READY \<noteq> 0"
    "st_dac_mts_failed r \<longleftrightarrow> u32_at p 64 AND 2 \<noteq> 0 \<or> u32_at p 4 AND RF2_STATUS_DAC_MTS_FAILED \<noteq> 0"
    "st_rfdc_ready r \<longleftrightarrow> u32_at p 4 AND RF2_STATUS_RFDC_READY \<noteq> 0"
    "st_armed r \<longleftrightarrow> u32_at p 4 AND RF2_STATUS_ARMED \<noteq> 0"
    "st_prepared r \<longleftrightarrow> u32_at p 4 AND RF2_STATUS_PREPARED \<noteq> 0"
    "st_running r \<longleftrightarrow> u32_at p 4 AND RF2_STATUS_RUNNING \<noteq> 0"
    "st_nco_sync_ready r \<longleftrightarrow> u32_at p 4 AND RF2_STATUS_NCO_SYNC_READY \<noteq> 0"
    "st_source_commit_id r = 0" "st_build_profile r = []" "st_playback_admitted_count r = 0"
    unfolding r by (simp_all only: f status_sels b d)
qed

text \<open>The status without what the appended extensions (build identity, trigger phase, playback counts) carry.\<close>

definition status_core :: "rf_status \<Rightarrow> rf_status" where
  "status_core r =
     r\<lparr>st_source_commit_id := RF2_SOURCE_COMMIT_UNKNOWN, st_build_profile_id := RF2_BUILD_PROFILE_UNKNOWN,
       st_build_profile := [], st_ext_trigger_phase_slot := 0, st_ext_trigger_phase_valid := False,
       st_ext_trigger_phase_overflow := False, st_ext_trigger_phase_metastable := False,
       st_ext_trigger_tap_index := 0, st_ext_trigger_phase_ps_x10 := 0,
       st_playback_admitted_count := 0, st_playback_skipped_count := 0\<rparr>"

lemma status_core_blocks:
  "status_core (status_playback p r) = status_core r"
  "status_core (status_phase p r) = status_core r"
  "status_core (status_identity p r) = status_core r"
  by (simp_all add: status_core_def status_playback_def status_phase_def status_identity_def Let_def)

text \<open>
  The STATUS payload can be extended without breaking older readers of it: bytes appended
  to a payload of at least 96 bytes change none of the core fields (the appended identity, phase
  and playback blocks only write their own), bytes appended to a complete 128-byte payload
  change nothing at all, and a payload too short for the base block decodes to the defaults.
\<close>

lemma status_payload_extension_stable:
  "(96 \<le> length p \<longrightarrow>
      status_core (parse_rfctrl2_status_payload (p @ ext)) = status_core (parse_rfctrl2_status_payload p)) \<and>
   (128 \<le> length p \<longrightarrow> parse_rfctrl2_status_payload (p @ ext) = parse_rfctrl2_status_payload p) \<and>
   (length p < 32 \<longrightarrow> parse_rfctrl2_status_payload p = status_defaults)"
proof (intro conjI impI)
  assume "96 \<le> length p"
  then show "status_core (parse_rfctrl2_status_payload (p @ ext)) = status_core (parse_rfctrl2_status_payload p)"
    by (simp only: parse_rfctrl2_status_payload_def status_flags_commute status_core_blocks status_blocks_append)
next
  assume "128 \<le> length p"
  then show "parse_rfctrl2_status_payload (p @ ext) = parse_rfctrl2_status_payload p"
    by (simp add: parse_rfctrl2_status_payload_def status_blocks_append)
next
  assume "length p < 32"
  then show "parse_rfctrl2_status_payload p = status_defaults"
    by (simp add: parse_rfctrl2_status_payload_def status_block_defs status_flags_def status_defaults_def)
qed

lemma status_payload_extension_stable_witness:
  "parse_rfctrl2_status_payload (replicate 128 1 @ [7]) = parse_rfctrl2_status_payload (replicate 128 1)"
  using status_payload_extension_stable [of "replicate 128 1" "[7]"] by simp

section \<open>TDC registers\<close>

lemma tdc_register_payload:
  assumes "0 \<le> a" "a \<le> 0xFFFF" "a mod 4 = 0" "0 \<le> d" "d \<le> 0xFFFFFFFF" "w \<in> {0, 1}"
  shows "pack_rfctrl2_tdc_register (PyInt a) (PyInt w) (PyInt d) seq =
    pack_rfctrl2_packet RF2_OP_TDC_REG (fields_enc [fI, fI, fI, fI] [w, a, d, 0]) seq 0"
proof -
  have "fields_ok [fI, fI, fI, fI] [w, a, d, 0]" using assms by auto
  then show ?thesis
    using assms by (simp add: pack_rfctrl2_tdc_register_def and_mask_numerals struct_pack_ok
        del: fields_enc.simps fields_ok.simps)
qed

lemma tdc_register_refused:
  "\<not> (0 \<le> a \<and> a \<le> 0xFFFF \<and> a mod 4 = 0 \<and> 0 \<le> d \<and> d \<le> 0xFFFFFFFF \<and> w \<in> {0, 1}) \<Longrightarrow>
   pack_rfctrl2_tdc_register (PyInt a) (PyInt w) (PyInt d) seq = Inl ParameterRangeError"
  by (auto simp: pack_rfctrl2_tdc_register_def and_mask_numerals guard_raise_def)

text \<open>
  TDC register access: a request is sent exactly for a word-aligned 16-bit address, a 32-bit
  value and a read/write selector of 0 or 1 (anything else is a ParameterRangeError); what is
  sent carries the selector, the address and the value; and the response to it gives back the
  register's value exactly when it is the eight-byte answer for that same address.
\<close>

lemma tdc_register_access:
  "(if 0 \<le> a \<and> a \<le> 0xFFFF \<and> a mod 4 = 0 \<and> 0 \<le> d \<and> d \<le> 0xFFFFFFFF \<and> w \<in> {0, 1}
    then (\<exists>pkt. pack_rfctrl2_tdc_register (PyInt a) (PyInt w) (PyInt d) seq = Inr pkt \<and>
            open_envelope pkt = (UDP_RFCTRL2_MAGIC, RFCTRL2_VERSION, RF2_OP_TDC_REG, 0,
              seq mod 2 ^ 32, fields_enc [fI, fI, fI, fI] [w, a, d, 0]) \<and> length pkt = 40)
    else pack_rfctrl2_tdc_register (PyInt a) (PyInt w) (PyInt d) seq = Inl ParameterRangeError) \<and>
   (parse_rfctrl2_tdc_register_response rsp a = Inr v \<longleftrightarrow>
      length (rsp_payload rsp) = 8 \<and> u32_at (rsp_payload rsp) 0 = a \<and> u32_at (rsp_payload rsp) 4 = v)"
proof (rule conjI)
  let ?pl = "fields_enc [fI, fI, fI, fI] [w, a, d, 0]"
  let ?ok = "0 \<le> a \<and> a \<le> 0xFFFF \<and> a mod 4 = 0 \<and> 0 \<le> d \<and> d \<le> 0xFFFFFFFF \<and> w \<in> {0, 1}"
  have len: "length ?pl = 16" by (simp add: length_fields_enc)
  have lp: "length (pad8 ?pl) = 16" unfolding length_pad8 len by simp
  have env: "envelope_ok UDP_RFCTRL2_MAGIC RFCTRL2_VERSION RF2_OP_TDC_REG 0 ?pl (seq mod 4294967296)"
    by (simp add: envelope_ok_def len del: fields_enc.simps)
  have p: "pack_rfctrl2_packet RF2_OP_TDC_REG ?pl seq 0 =
      Inr (envelope UDP_RFCTRL2_MAGIC RFCTRL2_VERSION RF2_OP_TDC_REG 0 ?pl (seq mod 4294967296))"
    using pack_rfctrl2_packet_envelope [of ?pl RF2_OP_TDC_REG seq 0] by (simp add: len del: fields_enc.simps)
  show "if ?ok
    then (\<exists>pkt. pack_rfctrl2_tdc_register (PyInt a) (PyInt w) (PyInt d) seq = Inr pkt \<and>
            open_envelope pkt = (UDP_RFCTRL2_MAGIC, RFCTRL2_VERSION, RF2_OP_TDC_REG, 0, seq mod 2 ^ 32, ?pl) \<and>
            length pkt = 40)
    else pack_rfctrl2_tdc_register (PyInt a) (PyInt w) (PyInt d) seq = Inl ParameterRangeError"
  proof (cases ?ok)
    case True
    then show ?thesis
      using tdc_register_payload [of a d w seq] p open_envelope_envelope [OF env]
      by (simp add: length_envelope lp del: fields_enc.simps)
  next
    case False
    then show ?thesis using tdc_register_refused [OF False, of seq] by (simp only: if_False)
  qed
  show "parse_rfctrl2_tdc_register_response rsp a = Inr v \<longleftrightarrow>
      length (rsp_payload rsp) = 8 \<and> u32_at (rsp_payload rsp) 0 = a \<and> u32_at (rsp_payload rsp) 4 = v"
    unfolding parse_rfctrl2_tdc_register_response_def Let_def
    by (auto simp: err_simps struct_unpack_def u32_at_def)
qed

section \<open>Diagnostics\<close>

lemmas diag_block_defs = diag_counters_def diag_flags_def diag_latency_def diag_failure_def diag_dma_def

lemma diag_blocks_append:
  "144 \<le> length p \<Longrightarrow> diag_counters (p @ ext) r = diag_counters p r"
  "144 \<le> length p \<Longrightarrow> diag_flags (p @ ext) r = diag_flags p r"
  "144 \<le> length p \<Longrightarrow> diag_latency (p @ ext) r = diag_latency p r"
  "144 \<le> length p \<Longrightarrow> diag_failure (p @ ext) r = diag_failure p r"
  "144 \<le> length p \<Longrightarrow> diag_dma (p @ ext) r = diag_dma p r"
  by (simp_all add: diag_block_defs u64_at_append Let_def)

lemma diag_untouched:
  "dg_fifo_level (diag_counters p r) = dg_fifo_level r"
  "dg_fifo_level (diag_flags p r) = dg_fifo_level r"
  "dg_fifo_level (diag_latency p r) = dg_fifo_level r"
  "dg_fifo_level (diag_failure p r) = dg_fifo_level r"
  "dg_fifo_level (diag_dma p r) = dg_fifo_level r"
  "dg_refill_start_tick (diag_counters p r) = dg_refill_start_tick r"
  "dg_refill_start_tick (diag_flags p r) = dg_refill_start_tick r"
  "dg_refill_start_tick (diag_latency p r) = dg_refill_start_tick r"
  "dg_refill_start_tick (diag_failure p r) = dg_refill_start_tick r"
  "dg_refill_start_tick (diag_dma p r) = dg_refill_start_tick r"
  "dg_refill_done_tick (diag_counters p r) = dg_refill_done_tick r"
  "dg_refill_done_tick (diag_flags p r) = dg_refill_done_tick r"
  "dg_refill_done_tick (diag_latency p r) = dg_refill_done_tick r"
  "dg_refill_done_tick (diag_failure p r) = dg_refill_done_tick r"
  "dg_refill_done_tick (diag_dma p r) = dg_refill_done_tick r"
  by (simp_all add: diag_block_defs Let_def)

text \<open>
  The diagnostic snapshot: a complete 144-byte snapshot decodes the same whatever is appended
  to it, an empty one decodes to the defaults, and no snapshot of any length ever sets the FIFO
  levels or the refill ticks: the decoder has no field for them.
\<close>

lemma diagnostics_snapshot_decoding:
  "(144 \<le> length p \<longrightarrow> parse_rfctrl2_diagnostics_payload (p @ ext) = parse_rfctrl2_diagnostics_payload p) \<and>
   (length p < 8 \<longrightarrow> parse_rfctrl2_diagnostics_payload p = diagnostics_defaults) \<and>
   dg_fifo_level (parse_rfctrl2_diagnostics_payload p) = [] \<and>
   dg_refill_start_tick (parse_rfctrl2_diagnostics_payload p) = 0 \<and>
   dg_refill_done_tick (parse_rfctrl2_diagnostics_payload p) = 0"
proof (intro conjI impI)
  assume "144 \<le> length p"
  then show "parse_rfctrl2_diagnostics_payload (p @ ext) = parse_rfctrl2_diagnostics_payload p"
    by (simp only: parse_rfctrl2_diagnostics_payload_def diag_blocks_append)
next
  assume "length p < 8"
  then show "parse_rfctrl2_diagnostics_payload p = diagnostics_defaults"
    by (simp add: parse_rfctrl2_diagnostics_payload_def diag_block_defs)
qed (simp_all only: parse_rfctrl2_diagnostics_payload_def diag_untouched, simp_all add: diagnostics_defaults_def)

theorem diagnostics_snapshot_decoding_witness:
  "parse_rfctrl2_diagnostics_payload (replicate 144 3 @ [9]) = parse_rfctrl2_diagnostics_payload (replicate 144 3)"
  using diagnostics_snapshot_decoding [of "replicate 144 3" "[9]"] by simp

end
