(* ===== verification/Simulator.thy ===== *)
theory Simulator
  imports Rf_Protocol
begin

text \<open>
  The in-memory board of software/dr47/simulator.py: the state of \<open>SimulatedDr47Device\<close>, one
  function per waveform operation (BEGIN, DATA, COMMIT, the prefetch completion, PLAY, PAUSE,
  STOP, ABORT and the external trigger), the STATUS payload and the diagnostics. The second half
  states the upload and playback state machine as a step relation and proves its invariant.
\<close>

section \<open>State and responses\<close>

text \<open>
  The attributes of the Python object, in the order of \<open>__init__\<close>; \<open>sm_channel_mask_cfg\<close> is the
  inherited \<open>_channel_mask\<close> of the device. A fragment is the tuple (offset, length, CRC).
\<close>

record simulator =
  sm_playback_armed :: bool
  sm_playback_prepared :: bool
  sm_playback_running :: bool
  sm_revision :: int
  sm_valid_mask :: int
  sm_trigger_input_count :: int
  sm_trigger_accepted_count :: int
  sm_trigger_output_count :: int
  sm_diag_generation :: int
  sm_channel_mask_cfg :: int
  sm_state :: wave_state
  sm_session :: int
  sm_descriptor :: int
  sm_generation :: int
  sm_fragments :: "int \<rightharpoonup> int \<times> int \<times> int"
  sm_total_bytes :: int
  sm_total_beats :: int
  sm_channel_mask :: int
  sm_loop_count :: int
  sm_received :: bytes
  sm_next_packet :: int
  sm_received_bytes :: int
  sm_error :: int
  sm_error_offset :: int
  sm_prefetch_complete :: bool
  sm_play_pending :: bool

definition WAVE_ERROR_NONE :: int where [simp, const_defs]: "WAVE_ERROR_NONE = 0"

definition sim_init :: "int \<Rightarrow> simulator" where
  "sim_init channel_mask =
     \<lparr>sm_playback_armed = False, sm_playback_prepared = False, sm_playback_running = False,
      sm_revision = 0, sm_valid_mask = 0, sm_trigger_input_count = 0, sm_trigger_accepted_count = 0,
      sm_trigger_output_count = 0, sm_diag_generation = 0, sm_channel_mask_cfg = channel_mask,
      sm_state = WS_IDLE, sm_session = 0, sm_descriptor = 0, sm_generation = 0,
      sm_fragments = Map.empty, sm_total_bytes = 0, sm_total_beats = 0, sm_channel_mask = 0,
      sm_loop_count = 0, sm_received = [], sm_next_packet = 0, sm_received_bytes = 0,
      sm_error = WAVE_ERROR_NONE, sm_error_offset = 0, sm_prefetch_complete = False,
      sm_play_pending = False\<rparr>"

text \<open>
  The keyword arguments \<open>_wave_response\<close> merges into its dictionary: none, or the DATA progress
  with or without an acknowledged packet number.
\<close>

record sim_progress =
  sp_ack :: "int option"
  sp_next_expected :: int
  sp_received_bytes :: int
  sp_first_error_offset :: int

record sim_response =
  sr_version :: int
  sr_opcode :: int
  sr_seq :: int
  sr_status :: int
  sr_session :: int
  sr_state :: int
  sr_descriptor :: int
  sr_error_code :: int
  sr_error_offset :: int
  sr_state_name :: string
  sr_extra :: "sim_progress option"

definition wave_response_dict :: "simulator \<Rightarrow> int \<Rightarrow> int \<Rightarrow> sim_progress option \<Rightarrow> sim_response" where
  "wave_response_dict s opcode status extra =
     \<lparr>sr_version = 1, sr_opcode = opcode, sr_seq = 1, sr_status = status, sr_session = sm_session s,
      sr_state = wave_state_code (sm_state s), sr_descriptor = sm_descriptor s,
      sr_error_code = 0, sr_error_offset = 0,
      sr_state_name = wave_state_name (sm_state s), sr_extra = extra\<rparr>"

definition sim_progress_of :: "simulator \<Rightarrow> int option \<Rightarrow> int \<Rightarrow> sim_progress option" where
  "sim_progress_of s ack err_off =
     Some \<lparr>sp_ack = ack, sp_next_expected = sm_next_packet s, sp_received_bytes = sm_received_bytes s,
           sp_first_error_offset = err_off\<rparr>"

section \<open>Waveform operations\<close>

text \<open>
  Each operation returns its response and the new state, or the exception that escapes it. The
  calls into \<open>pack_wave_begin\<close> and \<open>pack_wave_data\<close> are validations whose packet is dropped.
\<close>

type_synonym sim_outcome = "(sim_response \<times> simulator) result"

definition begin_waveform :: "int \<Rightarrow> int \<Rightarrow> int \<Rightarrow> int \<Rightarrow> int \<Rightarrow> int \<Rightarrow> simulator \<Rightarrow> sim_outcome" where
  "begin_waveform session total_bytes channel_mask total_beats loop_count layout s =
     (case pack_wave_begin (PyInt session) (PyInt total_bytes) (PyInt channel_mask) (PyInt total_beats)
             (PyInt loop_count) (PyInt layout) (PyInt 1) of
        Inl e \<Rightarrow> if is_ParameterRangeError e
                then Inr (wave_response_dict s WAVE_OP_BEGIN WAVE_STATUS_BAD_REQUEST None, s)
                else Inl e
      | Inr _ \<Rightarrow>
          let s' = s\<lparr>sm_session := session AND 0xFFFFFFFF, sm_total_bytes := total_bytes,
                     sm_total_beats := total_beats, sm_channel_mask := channel_mask AND 0xFF,
                     sm_loop_count := loop_count AND 0xFFFFFFFF, sm_received := [],
                     sm_fragments := Map.empty, sm_descriptor := 0, sm_play_pending := False,
                     sm_prefetch_complete := False, sm_next_packet := 0, sm_received_bytes := 0,
                     sm_error := WAVE_ERROR_NONE, sm_state := WS_UPLOAD\<rparr> in
          Inr (wave_response_dict s' WAVE_OP_BEGIN WAVE_STATUS_OK None, s'))"

text \<open>\<open>received[off:off+len(raw)] = raw\<close> on a bytearray.\<close>

definition splice :: "int \<Rightarrow> bytes \<Rightarrow> bytes \<Rightarrow> bytes" where
  "splice off raw buf = take (nat off) buf @ raw @ drop (nat off + length raw) buf"

definition data_waveform :: "int \<Rightarrow> int \<Rightarrow> int \<Rightarrow> bytes \<Rightarrow> int option \<Rightarrow> simulator \<Rightarrow> sim_outcome" where
  "data_waveform session packet_seq byte_offset raw payload_crc s =
     (if byte_offset < 0 \<or> byte_offset mod 32 \<noteq> 0 then
        Inr (wave_response_dict s WAVE_OP_DATA WAVE_STATUS_OFFSET (sim_progress_of s None byte_offset), s)
      else case pack_wave_data (PyInt session) (PyInt packet_seq) (PyInt byte_offset) raw (PyInt 1) of
        Inl e \<Rightarrow> if is_ParameterRangeError e
                then Inr (wave_response_dict s WAVE_OP_DATA WAVE_STATUS_BAD_REQUEST None, s)
                else Inl e
      | Inr _ \<Rightarrow>
        if (case payload_crc of None \<Rightarrow> False | Some c \<Rightarrow> c AND 0xFFFFFFFF \<noteq> crc32 raw) then
          let s' = s\<lparr>sm_error_offset := byte_offset\<rparr> in
          Inr (wave_response_dict s' WAVE_OP_DATA WAVE_STATUS_CRC (sim_progress_of s' None byte_offset), s')
        else if session \<noteq> sm_session s \<or> sm_state s \<noteq> WS_UPLOAD then
          Inr (wave_response_dict s WAVE_OP_DATA WAVE_STATUS_BAD_REQUEST None, s)
        else if packet_seq < sm_next_packet s then
          (if sm_fragments s packet_seq \<noteq> Some (byte_offset, int (length raw), crc32 raw) then
             Inr (wave_response_dict s WAVE_OP_DATA WAVE_STATUS_SEQUENCE None, s)
           else
             Inr (wave_response_dict s WAVE_OP_DATA WAVE_STATUS_OK
                    (sim_progress_of s (Some packet_seq) (sm_error_offset s)), s))
        else if packet_seq \<noteq> sm_next_packet s then
          Inr (wave_response_dict s WAVE_OP_DATA WAVE_STATUS_SEQUENCE (sim_progress_of s None byte_offset), s)
        else if byte_offset \<noteq> sm_received_bytes s \<or> byte_offset + int (length raw) > sm_total_bytes s then
          let s' = s\<lparr>sm_error_offset := byte_offset\<rparr> in
          Inr (wave_response_dict s' WAVE_OP_DATA WAVE_STATUS_OFFSET (sim_progress_of s' None byte_offset), s')
        else
          let s' = s\<lparr>sm_received := splice byte_offset raw (sm_received s),
                     sm_received_bytes := sm_received_bytes s + int (length raw),
                     sm_fragments := (sm_fragments s)(packet_seq \<mapsto> (byte_offset, int (length raw), crc32 raw)),
                     sm_next_packet := sm_next_packet s + 1\<rparr> in
          Inr (wave_response_dict s' WAVE_OP_DATA WAVE_STATUS_OK (sim_progress_of s' (Some packet_seq) 0), s'))"

definition commit_waveform :: "int \<Rightarrow> simulator \<Rightarrow> sim_response \<times> simulator" where
  "commit_waveform session s =
     (if session = sm_session s \<and> sm_descriptor s \<noteq> 0 then
        (wave_response_dict s WAVE_OP_COMMIT WAVE_STATUS_OK None, s)
      else if session \<noteq> sm_session s \<or> sm_state s \<noteq> WS_UPLOAD then
        (wave_response_dict s WAVE_OP_COMMIT WAVE_STATUS_BAD_REQUEST None, s)
      else if sm_received_bytes s \<noteq> sm_total_bytes s then
        (wave_response_dict s WAVE_OP_COMMIT WAVE_STATUS_INCOMPLETE None, s)
      else
        let g = (sm_generation s + 1) AND 0xFFFFFFFF;
            g' = (if g = 0 then 1 else g);
            s' = s\<lparr>sm_generation := g', sm_descriptor := g', sm_state := WS_PREFETCH,
                   sm_prefetch_complete := False\<rparr> in
        (wave_response_dict s' WAVE_OP_COMMIT WAVE_STATUS_OK None, s'))"

definition complete_prefetch :: "simulator \<Rightarrow> simulator" where
  "complete_prefetch s =
     (if sm_state s = WS_PREFETCH then
        s\<lparr>sm_state := (if sm_play_pending s then WS_PLAYING else WS_WAIT_TRIGGER),
          sm_prefetch_complete := True, sm_play_pending := False\<rparr>
      else s)"

definition sim_play :: "int \<Rightarrow> simulator \<Rightarrow> sim_response \<times> simulator" where
  "sim_play session s =
     (if session \<noteq> 0 \<and> session \<noteq> sm_session s then
        (wave_response_dict s WAVE_OP_PLAY WAVE_STATUS_BAD_REQUEST None, s)
      else if sm_state s \<in> {WS_READY, WS_DONE, WS_PREFETCH} then
        let s' = s\<lparr>sm_state := WS_PREFETCH, sm_prefetch_complete := False, sm_play_pending := True\<rparr> in
        (wave_response_dict s' WAVE_OP_PLAY WAVE_STATUS_OK None, s')
      else if sm_state s = WS_WAIT_TRIGGER then
        let s' = s\<lparr>sm_state := WS_PLAYING\<rparr> in
        (wave_response_dict s' WAVE_OP_PLAY WAVE_STATUS_OK None, s')
      else (wave_response_dict s WAVE_OP_PLAY WAVE_STATUS_BAD_REQUEST None, s))"

definition sim_pause :: "int \<Rightarrow> simulator \<Rightarrow> sim_response \<times> simulator" where
  "sim_pause session s =
     (if session \<noteq> 0 \<and> session \<noteq> sm_session s then
        (wave_response_dict s WAVE_OP_PAUSE WAVE_STATUS_BAD_REQUEST None, s)
      else if sm_state s \<in> {WS_READY, WS_DONE, WS_PLAYING, WS_WAIT_TRIGGER, WS_PREFETCH} then
        let s' = s\<lparr>sm_state := WS_READY, sm_prefetch_complete := False, sm_play_pending := False\<rparr> in
        (wave_response_dict s' WAVE_OP_PAUSE WAVE_STATUS_OK None, s')
      else (wave_response_dict s WAVE_OP_PAUSE WAVE_STATUS_BAD_REQUEST None, s))"

definition sim_abort :: "int \<Rightarrow> simulator \<Rightarrow> sim_response \<times> simulator" where
  "sim_abort session s =
     (if session \<noteq> 0 \<and> session \<noteq> sm_session s then
        (wave_response_dict s WAVE_OP_ABORT WAVE_STATUS_BAD_REQUEST None, s)
      else
        let s' = s\<lparr>sm_state := WS_IDLE, sm_session := 0, sm_descriptor := 0, sm_received := [],
                   sm_received_bytes := 0, sm_next_packet := 0, sm_error := WAVE_ERROR_NONE,
                   sm_error_offset := 0, sm_play_pending := False, sm_prefetch_complete := False,
                   sm_fragments := Map.empty\<rparr> in
        (wave_response_dict s' WAVE_OP_ABORT WAVE_STATUS_OK None, s'))"

definition sim_stop :: "int \<Rightarrow> simulator \<Rightarrow> sim_response \<times> simulator" where
  "sim_stop session s =
     (if session \<noteq> 0 \<and> session \<noteq> sm_session s then
        (wave_response_dict s WAVE_OP_STOP WAVE_STATUS_BAD_REQUEST None, s)
      else if sm_state s = WS_UPLOAD then
        let s' = snd (sim_abort session s) in
        (wave_response_dict s' WAVE_OP_STOP WAVE_STATUS_OK None, s')
      else
        let (result, s') = sim_pause session s in (result\<lparr>sr_opcode := WAVE_OP_STOP\<rparr>, s'))"

definition trigger_event :: "simulator \<Rightarrow> bool \<times> simulator" where
  "trigger_event s =
     (if sm_state s = WS_WAIT_TRIGGER then (True, s\<lparr>sm_state := WS_PLAYING\<rparr>) else (False, s))"

definition waveform_status :: "simulator \<Rightarrow> sim_response" where
  "waveform_status s = wave_response_dict s WAVE_OP_STATUS WAVE_STATUS_OK None"

section \<open>Outcomes of BEGIN and DATA\<close>

definition begin_ok :: "int \<Rightarrow> int \<Rightarrow> int \<Rightarrow> int \<Rightarrow> int \<Rightarrow> int \<Rightarrow> bool" where
  "begin_ok session total_bytes channel_mask total_beats loop_count layout \<longleftrightarrow>
     1 \<le> session \<and> session < 2 ^ 32 \<and> 1 \<le> channel_mask \<and> channel_mask < 256 \<and> 1 \<le> total_beats \<and>
     total_bytes = total_beats * 256 \<and> total_bytes \<le> DDR_MAX_INTERLEAVED_BYTES \<and>
     1 \<le> loop_count \<and> loop_count < 2 ^ 32 \<and> layout = 1"

lemma begin_ok_iff:
  "begin_ok se tb cm beats lc lay \<longleftrightarrow>
   (\<exists>pkt. pack_wave_begin (PyInt se) (PyInt tb) (PyInt cm) (PyInt beats) (PyInt lc) (PyInt lay) (PyInt 1) = Inr pkt)"
  by (auto simp: begin_ok_def pack_wave_begin_eq_Inr)

definition began :: "int \<Rightarrow> int \<Rightarrow> int \<Rightarrow> int \<Rightarrow> int \<Rightarrow> simulator \<Rightarrow> simulator" where
  "began session total_bytes channel_mask total_beats loop_count s =
     s\<lparr>sm_session := session, sm_total_bytes := total_bytes,
       sm_total_beats := total_beats, sm_channel_mask := channel_mask,
       sm_loop_count := loop_count, sm_received := [],
       sm_fragments := Map.empty, sm_descriptor := 0, sm_play_pending := False,
       sm_prefetch_complete := False, sm_next_packet := 0, sm_received_bytes := 0,
       sm_error := 0, sm_state := WS_UPLOAD\<rparr>"

lemma begin_waveform_ok:
  "begin_ok se tb cm beats lc lay \<Longrightarrow> begin_waveform se tb cm beats lc lay s =
     Inr (wave_response_dict (began se tb cm beats lc s) WAVE_OP_BEGIN WAVE_STATUS_OK None, began se tb cm beats lc s)"
proof -
  assume ok: "begin_ok se tb cm beats lc lay"
  then obtain pkt where p: "pack_wave_begin (PyInt se) (PyInt tb) (PyInt cm) (PyInt beats) (PyInt lc) (PyInt lay) (PyInt 1) = Inr pkt"
    by (auto simp: begin_ok_iff)
  have m: "se AND 0xFFFFFFFF = se" "cm AND 0xFF = cm" "lc AND 0xFFFFFFFF = lc"
    using ok by (simp_all add: begin_ok_def and_mask_numerals)
  show ?thesis
    unfolding begin_waveform_def p sum.case Let_def began_def m WAVE_ERROR_NONE_def ..
qed

lemma begin_waveform_refused:
  "\<not> begin_ok se tb cm beats lc lay \<Longrightarrow> begin_waveform se tb cm beats lc lay s =
     Inr (wave_response_dict s WAVE_OP_BEGIN WAVE_STATUS_BAD_REQUEST None, s)"
proof -
  assume "\<not> begin_ok se tb cm beats lc lay"
  then obtain e where "pack_wave_begin (PyInt se) (PyInt tb) (PyInt cm) (PyInt beats) (PyInt lc) (PyInt lay) (PyInt 1) = Inl e"
    unfolding begin_ok_iff by (meson sum.exhaust)
  with pack_wave_begin_error [OF this] show ?thesis by (simp add: begin_waveform_def)
qed

text \<open>A DATA request that \<open>pack_wave_data\<close> lets through.\<close>

definition data_ok :: "int \<Rightarrow> int \<Rightarrow> int \<Rightarrow> bytes \<Rightarrow> bool" where
  "data_ok session packet_seq byte_offset raw \<longleftrightarrow>
     1 \<le> session \<and> session < 2 ^ 32 \<and> 0 \<le> packet_seq \<and> packet_seq < 2 ^ 32 \<and>
     0 \<le> byte_offset \<and> byte_offset mod 32 = 0 \<and> byte_offset + int (length raw) \<le> 2 ^ 64 \<and>
     raw \<noteq> [] \<and> length raw \<le> 1408 \<and> length raw mod 32 = 0"

lemma int_mod_32: "int (length raw) mod 32 = 0 \<longleftrightarrow> length raw mod 32 = 0"
  by presburger

lemma data_ok_iff:
  "data_ok se ps off raw \<longleftrightarrow> (\<exists>pkt. pack_wave_data (PyInt se) (PyInt ps) (PyInt off) raw (PyInt 1) = Inr pkt)"
  by (auto simp: data_ok_def pack_wave_data_eq_Inr int_mod_32)

definition crc_ok :: "bytes \<Rightarrow> int option \<Rightarrow> bool" where
  "crc_ok raw c \<longleftrightarrow> (case c of None \<Rightarrow> True | Some c \<Rightarrow> c AND 0xFFFFFFFF = crc32 raw)"

text \<open>The packet that extends the upload by one fragment.\<close>

definition data_next :: "int \<Rightarrow> int \<Rightarrow> int \<Rightarrow> bytes \<Rightarrow> int option \<Rightarrow> simulator \<Rightarrow> bool" where
  "data_next session packet_seq byte_offset raw payload_crc s \<longleftrightarrow>
     data_ok session packet_seq byte_offset raw \<and> crc_ok raw payload_crc \<and>
     session = sm_session s \<and> sm_state s = WS_UPLOAD \<and> packet_seq = sm_next_packet s \<and>
     byte_offset = sm_received_bytes s \<and> byte_offset + int (length raw) \<le> sm_total_bytes s"

definition data_appended :: "bytes \<Rightarrow> simulator \<Rightarrow> simulator" where
  "data_appended raw s =
     s\<lparr>sm_received := splice (sm_received_bytes s) raw (sm_received s),
       sm_received_bytes := sm_received_bytes s + int (length raw),
       sm_fragments := (sm_fragments s)(sm_next_packet s \<mapsto>
         (sm_received_bytes s, int (length raw), crc32 raw)),
       sm_next_packet := sm_next_packet s + 1\<rparr>"

lemma data_waveform_next:
  "data_next se ps off raw crc s \<Longrightarrow> data_waveform se ps off raw crc s =
     Inr (wave_response_dict (data_appended raw s) WAVE_OP_DATA WAVE_STATUS_OK
            (sim_progress_of (data_appended raw s) (Some ps) 0), data_appended raw s)"
proof -
  assume n: "data_next se ps off raw crc s"
  then obtain pkt where p: "pack_wave_data (PyInt se) (PyInt ps) (PyInt off) raw (PyInt 1) = Inr pkt"
    by (auto simp: data_next_def data_ok_iff)
  have c: "\<not> (case crc of None \<Rightarrow> False | Some c \<Rightarrow> c AND 0xFFFFFFFF \<noteq> crc32 raw)"
    using n by (auto simp: data_next_def crc_ok_def split: option.splits)
  have "data_ok se ps off raw" using n unfolding data_next_def by blast
  then have a: "(off < 0 \<or> off mod 32 \<noteq> 0) = False" by (simp add: data_ok_def)
  show ?thesis
    unfolding data_waveform_def p a if_False using n c
    by (simp add: data_next_def data_appended_def Let_def)
qed

text \<open>A retransmission of a fragment the board already holds.\<close>

definition data_duplicate :: "int \<Rightarrow> int \<Rightarrow> int \<Rightarrow> bytes \<Rightarrow> int option \<Rightarrow> simulator \<Rightarrow> bool" where
  "data_duplicate session packet_seq byte_offset raw payload_crc s \<longleftrightarrow>
     data_ok session packet_seq byte_offset raw \<and> crc_ok raw payload_crc \<and>
     session = sm_session s \<and> sm_state s = WS_UPLOAD \<and> packet_seq < sm_next_packet s \<and>
     sm_fragments s packet_seq = Some (byte_offset, int (length raw), crc32 raw)"

lemma data_waveform_duplicate:
  "data_duplicate se ps off raw crc s \<Longrightarrow> data_waveform se ps off raw crc s =
     Inr (wave_response_dict s WAVE_OP_DATA WAVE_STATUS_OK (sim_progress_of s (Some ps) (sm_error_offset s)), s)"
proof -
  assume n: "data_duplicate se ps off raw crc s"
  then obtain pkt where p: "pack_wave_data (PyInt se) (PyInt ps) (PyInt off) raw (PyInt 1) = Inr pkt"
    by (auto simp: data_duplicate_def data_ok_iff)
  have c: "\<not> (case crc of None \<Rightarrow> False | Some c \<Rightarrow> c AND 0xFFFFFFFF \<noteq> crc32 raw)"
    using n by (auto simp: data_duplicate_def crc_ok_def split: option.splits)
  have "data_ok se ps off raw" using n unfolding data_duplicate_def by blast
  then have a: "(off < 0 \<or> off mod 32 \<noteq> 0) = False" by (simp add: data_ok_def)
  show ?thesis
    unfolding data_waveform_def p a if_False using n c by (simp add: data_duplicate_def)
qed

lemma data_waveform_other:
  assumes "\<not> data_next se ps off raw crc s" "\<not> data_duplicate se ps off raw crc s"
  shows "\<exists>r s'. data_waveform se ps off raw crc s = Inr (r, s') \<and> sr_status r \<noteq> WAVE_STATUS_OK \<and>
           (s' = s \<or> s' = s\<lparr>sm_error_offset := off\<rparr>)"
proof (cases "pack_wave_data (PyInt se) (PyInt ps) (PyInt off) raw (PyInt 1)")
  case (Inl e)
  then show ?thesis using pack_wave_data_error [OF Inl]
    by (simp add: data_waveform_def wave_response_dict_def)
next
  case (Inr pkt)
  then have ok: "data_ok se ps off raw" by (auto simp: data_ok_iff)
  have a: "(off < 0 \<or> off mod 32 \<noteq> 0) = False" using ok by (auto simp: data_ok_def)
  show ?thesis
  proof (cases "crc_ok raw crc")
    case False
    then have c: "(case crc of None \<Rightarrow> False | Some c \<Rightarrow> c AND 0xFFFFFFFF \<noteq> crc32 raw) = True"
      by (auto simp: crc_ok_def split: option.splits)
    show ?thesis
      unfolding data_waveform_def Inr c a sum.case if_False if_True Let_def
      by (simp add: wave_response_dict_def)
  next
    case True
    then have c: "(case crc of None \<Rightarrow> False | Some c \<Rightarrow> c AND 0xFFFFFFFF \<noteq> crc32 raw) = False"
      by (auto simp: crc_ok_def split: option.splits)
    note d = data_waveform_def Inr c a sum.case if_False Let_def
    have e: "sr_status (wave_response_dict t opc st x) = st" for t opc st x
      by (simp add: wave_response_dict_def)
    consider "(se \<noteq> sm_session s \<or> sm_state s \<noteq> WS_UPLOAD) = True"
      | "(se \<noteq> sm_session s \<or> sm_state s \<noteq> WS_UPLOAD) = False" "(ps < sm_next_packet s) = True"
        "(sm_fragments s ps \<noteq> Some (off, int (length raw), crc32 raw)) = True"
      | "(se \<noteq> sm_session s \<or> sm_state s \<noteq> WS_UPLOAD) = False" "(ps < sm_next_packet s) = False"
        "(ps \<noteq> sm_next_packet s) = True"
      | "(se \<noteq> sm_session s \<or> sm_state s \<noteq> WS_UPLOAD) = False" "(ps < sm_next_packet s) = False"
        "(ps \<noteq> sm_next_packet s) = False"
        "(off \<noteq> sm_received_bytes s \<or> off + int (length raw) > sm_total_bytes s) = True"
    proof (cases "se \<noteq> sm_session s \<or> sm_state s \<noteq> WS_UPLOAD")
      case False
      then have e: "se = sm_session s" "sm_state s = WS_UPLOAD" by simp_all
      show thesis
      proof (cases ps "sm_next_packet s" rule: linorder_cases)
        case less
        then have "sm_fragments s ps \<noteq> Some (off, int (length raw), crc32 raw)"
          using assms(2) ok True e unfolding data_duplicate_def by blast
        then show thesis using that(2) less False by blast
      next
        case equal
        then have "\<not> (off = sm_received_bytes s \<and> off + int (length raw) \<le> sm_total_bytes s)"
          using assms(1) ok True e unfolding data_next_def by blast
        then show thesis using that(4) equal False by force
      next
        case greater
        then show thesis using that(3) False by force
      qed
    qed (use that(1) in blast)
    then show ?thesis
    proof cases
      case 1
      show ?thesis unfolding d 1 if_True by (simp add: e)
    next
      case 2
      show ?thesis unfolding d 2 if_True if_False by (simp add: e)
    next
      case 3
      show ?thesis unfolding d 3 if_True if_False by (simp add: e)
    next
      case 4
      show ?thesis unfolding d 4 if_True if_False by (simp add: e)
    qed
  qed
qed

lemma data_waveform_total: "\<exists>r s'. data_waveform se ps off raw crc s = Inr (r, s')"
proof (cases "data_next se ps off raw crc s \<or> data_duplicate se ps off raw crc s")
  case True
  then show ?thesis by (auto simp: data_waveform_next data_waveform_duplicate)
next
  case False
  then show ?thesis using data_waveform_other [of se ps off raw crc s] by auto
qed

lemma begin_waveform_total: "\<exists>r s'. begin_waveform se tb cm beats lc lay s = Inr (r, s')"
  by (cases "begin_ok se tb cm beats lc lay") (simp_all add: begin_waveform_ok begin_waveform_refused)

section \<open>The board as a state machine\<close>

datatype sim_event =
    EvBegin int int int int int int
  | EvData int int int bytes "int option"
  | EvCommit int
  | EvPrefetchDone
  | EvPlay int
  | EvPause int
  | EvStop int
  | EvAbort int
  | EvTrigger

fun sim_handle :: "sim_event \<Rightarrow> simulator \<Rightarrow> simulator result" where
  "sim_handle (EvBegin se tb cm beats lc lay) s = ebind (begin_waveform se tb cm beats lc lay s) (\<lambda>x. Inr (snd x))"
| "sim_handle (EvData se ps off raw crc) s = ebind (data_waveform se ps off raw crc s) (\<lambda>x. Inr (snd x))"
| "sim_handle (EvCommit se) s = Inr (snd (commit_waveform se s))"
| "sim_handle EvPrefetchDone s = Inr (complete_prefetch s)"
| "sim_handle (EvPlay se) s = Inr (snd (sim_play se s))"
| "sim_handle (EvPause se) s = Inr (snd (sim_pause se s))"
| "sim_handle (EvStop se) s = Inr (snd (sim_stop se s))"
| "sim_handle (EvAbort se) s = Inr (snd (sim_abort se s))"
| "sim_handle EvTrigger s = Inr (snd (trigger_event s))"

inductive sim_step :: "simulator \<Rightarrow> sim_event \<Rightarrow> simulator \<Rightarrow> bool" where
  sim_stepI: "sim_handle e s = Inr s' \<Longrightarrow> sim_step s e s'"

inductive_cases sim_stepE: "sim_step s e s'"
inductive_simps sim_step_iff: "sim_step s e s'"

inductive sim_reachable :: "simulator \<Rightarrow> bool" where
  reach_init: "sim_reachable (sim_init m)"
| reach_step: "sim_reachable s \<Longrightarrow> sim_step s e s' \<Longrightarrow> sim_reachable s'"

lemma sim_handle_total: "\<exists>s'. sim_handle e s = Inr s'"
proof (cases e)
  case (EvBegin se tb cm beats lc lay)
  then show ?thesis using begin_waveform_total [of se tb cm beats lc lay s] by auto
next
  case (EvData se ps off raw crc)
  then show ?thesis using data_waveform_total [of se ps off raw crc s] by auto
qed simp_all

section \<open>The uploaded image\<close>

text \<open>The fragment table describes the list \<open>ps\<close> of accepted payloads: numbers, offsets, lengths and CRCs.\<close>

definition fragments_tile :: "(int \<rightharpoonup> int \<times> int \<times> int) \<Rightarrow> bytes list \<Rightarrow> bool" where
  "fragments_tile fr ps \<longleftrightarrow>
     (\<forall>i. fr i = (if 0 \<le> i \<and> i < int (length ps)
                  then Some (int (length (concat (take (nat i) ps))), int (length (ps ! nat i)),
                             crc32 (ps ! nat i))
                  else None))"

lemma fragments_tile_Nil: "fragments_tile Map.empty []"
  by (simp add: fragments_tile_def)

lemma fragments_tile_snoc:
  assumes "fragments_tile fr ps"
  shows "fragments_tile (fr(int (length ps) \<mapsto> (int (length (concat ps)), int (length raw), crc32 raw)))
           (ps @ [raw])"
  unfolding fragments_tile_def
proof
  fix i :: int
  consider "i = int (length ps)" | "0 \<le> i" "i < int (length ps)" | "i < 0 \<or> int (length ps) < i" by linarith
  then show "(fr(int (length ps) \<mapsto> (int (length (concat ps)), int (length raw), crc32 raw))) i =
    (if 0 \<le> i \<and> i < int (length (ps @ [raw]))
     then Some (int (length (concat (take (nat i) (ps @ [raw])))), int (length ((ps @ [raw]) ! nat i)),
                crc32 ((ps @ [raw]) ! nat i))
     else None)"
  proof cases
    case 2
    then show ?thesis using assms unfolding fragments_tile_def by (simp add: nth_append nat_less_iff)
  qed (use assms in \<open>auto simp: fragments_tile_def\<close>)
qed

definition fragment_ok :: "bytes \<Rightarrow> bool" where
  "fragment_ok raw \<longleftrightarrow> raw \<noteq> [] \<and> length raw \<le> 1408 \<and> length raw mod 32 = 0"

text \<open>The upload recorded in a state is the list \<open>ps\<close> of payloads, in order and without gaps.\<close>

definition holds_upload :: "simulator \<Rightarrow> bytes list \<Rightarrow> bool" where
  "holds_upload s ps \<longleftrightarrow>
     sm_received s = concat ps \<and> sm_received_bytes s = int (length (concat ps)) \<and>
     sm_next_packet s = int (length ps) \<and> fragments_tile (sm_fragments s) ps \<and>
     (\<forall>p \<in> set ps. fragment_ok p)"

lemma holds_upload_appended:
  assumes "holds_upload s ps" "fragment_ok raw"
  shows "holds_upload (data_appended raw s) (ps @ [raw])"
  using assms fragments_tile_snoc [of "sm_fragments s" ps raw]
  by (simp add: holds_upload_def data_appended_def splice_def)

lemma holds_upload_unique: "holds_upload s ps \<Longrightarrow> holds_upload s qs \<Longrightarrow> concat ps = concat qs \<and> length ps = length qs"
  by (simp add: holds_upload_def)

section \<open>The invariant\<close>

definition sim_control :: "simulator \<Rightarrow> bool" where
  "sim_control s \<longleftrightarrow>
     sm_state s \<in> {WS_IDLE, WS_UPLOAD, WS_READY, WS_PREFETCH, WS_WAIT_TRIGGER, WS_PLAYING} \<and>
     (sm_descriptor s = 0 \<longleftrightarrow> sm_state s \<in> {WS_IDLE, WS_UPLOAD}) \<and>
     0 \<le> sm_descriptor s \<and> sm_descriptor s < 2 ^ 32 \<and>
     (sm_session s = 0 \<longleftrightarrow> sm_state s = WS_IDLE) \<and> 0 \<le> sm_session s \<and> sm_session s < 2 ^ 32 \<and>
     (sm_play_pending s \<longrightarrow> sm_state s = WS_PREFETCH) \<and>
     (sm_prefetch_complete s \<longrightarrow> sm_state s \<in> {WS_WAIT_TRIGGER, WS_PLAYING})"

definition sim_bounds :: "simulator \<Rightarrow> bool" where
  "sim_bounds s \<longleftrightarrow>
     (sm_state s \<noteq> WS_IDLE \<longrightarrow>
        sm_total_bytes s = sm_total_beats s * 256 \<and> 0 < sm_total_bytes s \<and>
        sm_total_bytes s \<le> DDR_MAX_INTERLEAVED_BYTES \<and> sm_received_bytes s \<le> sm_total_bytes s) \<and>
     (sm_descriptor s \<noteq> 0 \<longrightarrow> sm_received_bytes s = sm_total_bytes s) \<and>
     (sm_state s = WS_IDLE \<longrightarrow> sm_received_bytes s = 0)"

definition sim_inv :: "simulator \<Rightarrow> bool" where
  "sim_inv s \<longleftrightarrow> sim_control s \<and> sim_bounds s \<and> (\<exists>ps. holds_upload s ps)"

text \<open>What the control operations leave alone.\<close>

definition same_upload :: "simulator \<Rightarrow> simulator \<Rightarrow> bool" where
  "same_upload s s' \<longleftrightarrow>
     sm_received s' = sm_received s \<and> sm_received_bytes s' = sm_received_bytes s \<and>
     sm_next_packet s' = sm_next_packet s \<and> sm_fragments s' = sm_fragments s \<and>
     sm_total_bytes s' = sm_total_bytes s \<and> sm_total_beats s' = sm_total_beats s \<and>
     sm_channel_mask s' = sm_channel_mask s \<and> sm_loop_count s' = sm_loop_count s"

lemma same_upload_holds: "same_upload s s' \<Longrightarrow> holds_upload s ps \<Longrightarrow> holds_upload s' ps"
  by (simp add: same_upload_def holds_upload_def)

lemma sim_inv_control:
  assumes "sim_inv s" "same_upload s s'" "sim_control s'" "sm_state s' \<noteq> WS_IDLE" "sm_state s \<noteq> WS_IDLE"
    "sm_descriptor s' \<noteq> 0 \<Longrightarrow> sm_received_bytes s = sm_total_bytes s"
  shows "sim_inv s'"
proof -
  have "\<exists>ps. holds_upload s' ps" using assms(1,2) same_upload_holds unfolding sim_inv_def by blast
  moreover have "sim_bounds s'"
    using assms unfolding sim_inv_def sim_bounds_def same_upload_def by simp
  ultimately show ?thesis using assms(3) unfolding sim_inv_def by blast
qed

lemma sim_inv_init: "sim_inv (sim_init m)"
proof -
  have "holds_upload (sim_init m) []"
    by (simp add: holds_upload_def sim_init_def fragments_tile_Nil)
  then show ?thesis
    unfolding sim_inv_def by (auto simp: sim_control_def sim_bounds_def sim_init_def)
qed

lemma sim_inv_began:
  assumes "begin_ok se tb cm beats lc lay"
  shows "sim_inv (began se tb cm beats lc s)"
proof -
  have "holds_upload (began se tb cm beats lc s) []"
    by (simp add: holds_upload_def began_def fragments_tile_Nil)
  then show ?thesis
    using assms unfolding sim_inv_def by (auto simp: sim_control_def sim_bounds_def began_def begin_ok_def)
qed

lemma data_ok_fragment: "data_ok se ps off raw \<Longrightarrow> fragment_ok raw"
  by (simp add: data_ok_def fragment_ok_def)

lemma sim_inv_appended:
  assumes "sim_inv s" "data_next se ps off raw crc s"
  shows "sim_inv (data_appended raw s)"
proof -
  obtain qs where "holds_upload s qs" using assms(1) unfolding sim_inv_def by blast
  moreover have "fragment_ok raw"
    using assms(2) data_ok_fragment unfolding data_next_def by blast
  ultimately have "holds_upload (data_appended raw s) (qs @ [raw])" by (rule holds_upload_appended)
  moreover have "sim_control (data_appended raw s) \<and> sim_bounds (data_appended raw s)"
    using assms unfolding sim_inv_def data_next_def
    by (simp add: sim_control_def sim_bounds_def data_appended_def)
  ultimately show ?thesis unfolding sim_inv_def by blast
qed

lemma sim_inv_error_offset: "sim_inv s \<Longrightarrow> sim_inv (s\<lparr>sm_error_offset := x\<rparr>)"
proof -
  have "sim_control (s\<lparr>sm_error_offset := x\<rparr>) = sim_control s" "sim_bounds (s\<lparr>sm_error_offset := x\<rparr>) = sim_bounds s"
    "holds_upload (s\<lparr>sm_error_offset := x\<rparr>) ps = holds_upload s ps" for ps
    by (simp_all add: sim_control_def sim_bounds_def holds_upload_def)
  then show "sim_inv s \<Longrightarrow> sim_inv (s\<lparr>sm_error_offset := x\<rparr>)" by (simp add: sim_inv_def)
qed

lemma sim_inv_idle:
  "sim_inv (s\<lparr>sm_state := WS_IDLE, sm_session := 0, sm_descriptor := 0, sm_received := [],
              sm_received_bytes := 0, sm_next_packet := 0, sm_error := x,
              sm_error_offset := y, sm_play_pending := False, sm_prefetch_complete := False,
              sm_fragments := Map.empty\<rparr>)" (is "sim_inv ?s")
proof -
  have "holds_upload ?s []" by (simp add: holds_upload_def fragments_tile_Nil)
  moreover have "sim_control ?s \<and> sim_bounds ?s" by (simp add: sim_control_def sim_bounds_def)
  ultimately show ?thesis unfolding sim_inv_def by blast
qed

text \<open>The control operations: each keeps the upload or starts over from the idle board.\<close>

lemma sim_invD:
  assumes "sim_inv s" "sm_state s \<noteq> WS_IDLE" "sm_state s \<noteq> WS_UPLOAD"
  shows "sm_received_bytes s = sm_total_bytes s" "sm_descriptor s \<noteq> 0" "sm_session s \<noteq> 0"
  using assms by (simp_all add: sim_inv_def sim_control_def sim_bounds_def)

lemma sim_inv_move:
  assumes inv: "sim_inv s" and st: "sm_state s \<noteq> WS_IDLE" "sm_state s \<noteq> WS_UPLOAD"
    and st': "t \<in> {WS_READY, WS_PREFETCH, WS_WAIT_TRIGGER, WS_PLAYING}"
    and "pend \<longrightarrow> t = WS_PREFETCH" "pc \<longrightarrow> t \<in> {WS_WAIT_TRIGGER, WS_PLAYING}"
  shows "sim_inv (s\<lparr>sm_state := t, sm_prefetch_complete := pc, sm_play_pending := pend\<rparr>)" (is "sim_inv ?s'")
proof (rule sim_inv_control [OF inv])
  show "same_upload s ?s'" by (simp add: same_upload_def)
  have "sm_descriptor s \<noteq> 0 \<and> 0 \<le> sm_descriptor s \<and> sm_descriptor s < 2 ^ 32 \<and>
      sm_session s \<noteq> 0 \<and> 0 \<le> sm_session s \<and> sm_session s < 2 ^ 32"
    using inv sim_invD [OF inv st] unfolding sim_inv_def sim_control_def by blast
  then show "sim_control ?s'" using st' assms(5,6) unfolding sim_control_def by auto
  show "sm_state ?s' \<noteq> WS_IDLE" using st' by auto
  show "sm_state s \<noteq> WS_IDLE" by (rule st)
  show "sm_received_bytes s = sm_total_bytes s" by (rule sim_invD [OF inv st])
qed

lemma sim_inv_to_playing:
  assumes inv: "sim_inv s" and st: "sm_state s = WS_WAIT_TRIGGER"
  shows "sim_inv (s\<lparr>sm_state := WS_PLAYING\<rparr>)"
proof -
  have "\<not> sm_play_pending s" using inv st unfolding sim_inv_def sim_control_def by auto
  then have "s\<lparr>sm_state := WS_PLAYING\<rparr> =
      s\<lparr>sm_state := WS_PLAYING, sm_prefetch_complete := sm_prefetch_complete s, sm_play_pending := False\<rparr>"
    by (cases s) simp
  then show ?thesis using sim_inv_move [OF inv, of WS_PLAYING False "sm_prefetch_complete s"] st by simp
qed

lemma commit_waveform_cases:
  "snd (commit_waveform se s) = s \<or>
   (sm_state s = WS_UPLOAD \<and> sm_received_bytes s = sm_total_bytes s \<and> sm_session s = se \<and>
    (\<exists>g. 0 < g \<and> g < 2 ^ 32 \<and> commit_waveform se s =
      (wave_response_dict (s\<lparr>sm_generation := g, sm_descriptor := g, sm_state := WS_PREFETCH, sm_prefetch_complete := False\<rparr>)
         WAVE_OP_COMMIT WAVE_STATUS_OK None,
       s\<lparr>sm_generation := g, sm_descriptor := g, sm_state := WS_PREFETCH, sm_prefetch_complete := False\<rparr>)))"
proof -
  let ?g = "(sm_generation s + 1) AND 0xFFFFFFFF"
  let ?g' = "if ?g = 0 then 1 else ?g"
  have g: "0 < ?g'" "?g' < 2 ^ 32" by (auto simp: and_mask_numerals order_less_le)
  show ?thesis
  proof (cases "(se = sm_session s \<and> sm_descriptor s \<noteq> 0) \<or> (se \<noteq> sm_session s \<or> sm_state s \<noteq> WS_UPLOAD) \<or>
      sm_received_bytes s \<noteq> sm_total_bytes s")
    case True
    then show ?thesis by (simp add: commit_waveform_def)
  next
    case False
    then have f: "(se = sm_session s \<and> sm_descriptor s \<noteq> 0) = False"
      "(se \<noteq> sm_session s \<or> sm_state s \<noteq> WS_UPLOAD) = False" "(sm_received_bytes s \<noteq> sm_total_bytes s) = False"
      by blast+
    have "commit_waveform se s =
      (wave_response_dict (s\<lparr>sm_generation := ?g', sm_descriptor := ?g', sm_state := WS_PREFETCH, sm_prefetch_complete := False\<rparr>)
         WAVE_OP_COMMIT WAVE_STATUS_OK None,
       s\<lparr>sm_generation := ?g', sm_descriptor := ?g', sm_state := WS_PREFETCH, sm_prefetch_complete := False\<rparr>)"
      unfolding commit_waveform_def Let_def f if_False ..
    with g False show ?thesis by blast
  qed
qed

lemma sim_inv_commit:
  assumes inv: "sim_inv s"
  shows "sim_inv (snd (commit_waveform se s))"
  using commit_waveform_cases [of se s]
proof (elim disjE conjE exE)
  fix g :: int
  let ?s' = "s\<lparr>sm_generation := g, sm_descriptor := g, sm_state := WS_PREFETCH, sm_prefetch_complete := False\<rparr>"
  assume c: "sm_state s = WS_UPLOAD" "sm_received_bytes s = sm_total_bytes s" "0 < g" "g < 2 ^ 32"
    "commit_waveform se s = (wave_response_dict ?s' WAVE_OP_COMMIT WAVE_STATUS_OK None, ?s')"
  have "sim_control s" using inv unfolding sim_inv_def by blast
  then have "sim_control ?s'" using c(1,3,4) by (simp add: sim_control_def)
  then have "sim_inv ?s'"
    by (rule sim_inv_control [OF inv, rotated]) (use c in \<open>simp_all add: same_upload_def\<close>)
  then show ?thesis by (simp only: c(5) snd_conv)
qed (simp add: inv)

lemma sim_inv_prefetch: "sim_inv s \<Longrightarrow> sim_inv (complete_prefetch s)"
proof -
  assume inv: "sim_inv s"
  show ?thesis
    using sim_inv_move [OF inv, of "WS_PLAYING" False True] sim_inv_move [OF inv, of "WS_WAIT_TRIGGER" False True] inv
    by (simp add: complete_prefetch_def)
qed

lemma sim_inv_play: "sim_inv s \<Longrightarrow> sim_inv (snd (sim_play se s))"
  using sim_inv_move [of s WS_PREFETCH True False] sim_inv_to_playing [of s]
  by (auto simp: sim_play_def Let_def)

lemma sim_inv_pause: "sim_inv s \<Longrightarrow> sim_inv (snd (sim_pause se s))"
  using sim_inv_move [of s WS_READY False False] by (auto simp: sim_pause_def Let_def)

lemma sim_inv_abort: "sim_inv s \<Longrightarrow> sim_inv (snd (sim_abort se s))"
  by (simp add: sim_abort_def Let_def sim_inv_idle)

lemma sim_inv_stop: "sim_inv s \<Longrightarrow> sim_inv (snd (sim_stop se s))"
  by (simp add: sim_stop_def Let_def split_beta sim_inv_abort sim_inv_pause)

lemma sim_inv_trigger: "sim_inv s \<Longrightarrow> sim_inv (snd (trigger_event s))"
  by (simp add: trigger_event_def sim_inv_to_playing)

lemma sim_inv_step:
  assumes "sim_inv s" "sim_handle e s = Inr s'"
  shows "sim_inv s'"
proof (cases e)
  case (EvBegin se tb cm beats lc lay)
  show ?thesis
  proof (cases "begin_ok se tb cm beats lc lay")
    case True
    then show ?thesis using assms EvBegin by (auto simp: begin_waveform_ok sim_inv_began)
  next
    case False
    then show ?thesis using assms EvBegin by (simp add: begin_waveform_refused)
  qed
next
  case (EvData se ps off raw crc)
  consider "data_next se ps off raw crc s" | "data_duplicate se ps off raw crc s"
    | "\<not> data_next se ps off raw crc s" "\<not> data_duplicate se ps off raw crc s" by blast
  then show ?thesis
  proof cases
    case 1
    then show ?thesis using assms EvData by (auto simp: data_waveform_next intro: sim_inv_appended)
  next
    case 2
    then show ?thesis using assms EvData by (simp add: data_waveform_duplicate)
  next
    case 3
    from data_waveform_other [OF 3] show ?thesis
      using assms EvData sim_inv_error_offset by auto
  qed
qed (use assms sim_inv_commit sim_inv_prefetch sim_inv_play sim_inv_pause sim_inv_stop sim_inv_abort
     sim_inv_trigger in auto)

lemma sim_reachable_inv: "sim_reachable s \<Longrightarrow> sim_inv s"
  by (induction rule: sim_reachable.induct) (auto simp: sim_inv_init sim_step_iff intro: sim_inv_step)

section \<open>Properties of the state machine\<close>

text \<open>
  C3. The board never plays what it has not completely received: in every reachable state with a
  committed descriptor (READY, PREFETCH, WAIT_TRIGGER, PLAYING) the received image is the gapless
  concatenation of the accepted fragments, each recorded with its offset, length and CRC-32, and
  its length is exactly the announced total, 256 bytes per DAC beat and within the DDR; and no
  other state than these, IDLE and UPLOAD is ever reached.
\<close>

theorem playback_needs_complete_image:
  assumes "sim_reachable s"
  shows "sm_state s \<in> {WS_IDLE, WS_UPLOAD, WS_READY, WS_PREFETCH, WS_WAIT_TRIGGER, WS_PLAYING} \<and>
    (sm_state s \<notin> {WS_IDLE, WS_UPLOAD} \<longrightarrow>
       sm_descriptor s \<noteq> 0 \<and> sm_session s \<noteq> 0 \<and>
       int (length (sm_received s)) = sm_total_bytes s \<and>
       sm_total_bytes s = sm_total_beats s * WAVE_DAC_FRAME_BYTES \<and>
       sm_total_bytes s \<le> DDR_MAX_INTERLEAVED_BYTES \<and> (\<exists>ps. holds_upload s ps)) \<and>
    (sm_state s = WS_UPLOAD \<longrightarrow> int (length (sm_received s)) \<le> sm_total_bytes s \<and> (\<exists>ps. holds_upload s ps))"
proof -
  have inv: "sim_inv s" by (rule sim_reachable_inv [OF assms])
  then obtain ps where ps: "holds_upload s ps" unfolding sim_inv_def by blast
  then have len: "int (length (sm_received s)) = sm_received_bytes s" by (simp add: holds_upload_def)
  have c: "sm_state s \<in> {WS_IDLE, WS_UPLOAD, WS_READY, WS_PREFETCH, WS_WAIT_TRIGGER, WS_PLAYING}"
    using inv unfolding sim_inv_def sim_control_def by blast
  have b: "sm_state s \<noteq> WS_IDLE \<Longrightarrow> sm_total_bytes s = sm_total_beats s * 256 \<and>
      sm_total_bytes s \<le> DDR_MAX_INTERLEAVED_BYTES \<and> sm_received_bytes s \<le> sm_total_bytes s"
    using inv unfolding sim_inv_def sim_bounds_def by blast
  show ?thesis
    using c b len ps sim_invD [OF inv] by auto
qed

lemma reachable_run: "sim_reachable s \<Longrightarrow> efold sim_handle es s = Inr s' \<Longrightarrow> sim_reachable s'"
  by (induction es arbitrary: s) (auto simp: ebind_eq_Inr intro: reach_step sim_stepI)

text \<open>
  What a DATA packet does: it is answered OK exactly when it is the next fragment of the
  running upload or an exact retransmission of a fragment already held (same number, offset,
  length and checksum); the next fragment alone extends the upload, and every other packet (early,
  stale, corrupted, misplaced, oversized, of another session) leaves the whole state as it was,
  the remembered error offset apart.
\<close>

lemma data_packet_effect:
  "\<exists>r s'. data_waveform session packet_seq byte_offset raw payload_crc s = Inr (r, s') \<and>
     (sr_status r = WAVE_STATUS_OK \<longleftrightarrow>
        data_next session packet_seq byte_offset raw payload_crc s \<or>
        data_duplicate session packet_seq byte_offset raw payload_crc s) \<and>
     s' = (if data_next session packet_seq byte_offset raw payload_crc s then data_appended raw s
           else s\<lparr>sm_error_offset := sm_error_offset s'\<rparr>)"
proof -
  have e: "sr_status (wave_response_dict t opc st x) = st" for t opc st x
    by (simp add: wave_response_dict_def)
  have u: "s = s\<lparr>sm_error_offset := sm_error_offset s\<rparr>" by (cases s) simp
  consider "data_next session packet_seq byte_offset raw payload_crc s"
    | "\<not> data_next session packet_seq byte_offset raw payload_crc s"
      "data_duplicate session packet_seq byte_offset raw payload_crc s"
    | "\<not> data_next session packet_seq byte_offset raw payload_crc s"
      "\<not> data_duplicate session packet_seq byte_offset raw payload_crc s" by blast
  then show ?thesis
  proof cases
    case 1
    show ?thesis using data_waveform_next [OF 1] 1 e by auto
  next
    case 2
    show ?thesis using data_waveform_duplicate [OF 2(2)] 2 e u by auto
  next
    case 3
    from data_waveform_other [OF 3] obtain r s' where
      d: "data_waveform session packet_seq byte_offset raw payload_crc s = Inr (r, s')"
        "sr_status r \<noteq> WAVE_STATUS_OK" "s' = s \<or> s' = s\<lparr>sm_error_offset := byte_offset\<rparr>" by blast
    have "s' = s\<lparr>sm_error_offset := sm_error_offset s'\<rparr>" using d(3) u by auto
    with d(1,2) 3 show ?thesis by auto
  qed
qed

section \<open>Uploading in order\<close>

text \<open>The DATA events for the chunks of an image, numbered and placed one after the other.\<close>

fun upload_events :: "int \<Rightarrow> int \<Rightarrow> int \<Rightarrow> bytes list \<Rightarrow> sim_event list" where
  "upload_events session n off [] = []"
| "upload_events session n off (c # cs) =
     EvData session n off c (Some (crc32 c)) # upload_events session (n + 1) (off + int (length c)) cs"

lemma fragment_ok_length: "fragment_ok c \<Longrightarrow> 32 \<le> length c"
proof -
  assume "fragment_ok c"
  then have "length c \<noteq> 0" "length c mod 32 = 0" by (simp_all add: fragment_ok_def)
  then show ?thesis by presburger
qed

lemma fragments_count: "\<forall>c \<in> set cs. fragment_ok c \<Longrightarrow> 32 * length cs \<le> length (concat cs)"
  by (induction cs) (auto dest: fragment_ok_length)

lemma fragments_aligned: "\<forall>c \<in> set cs. fragment_ok c \<Longrightarrow> length (concat cs) mod 32 = 0"
proof (induction cs)
  case (Cons c cs)
  then have "length c mod 32 = 0" "length (concat cs) mod 32 = 0" by (simp_all add: fragment_ok_def)
  then show ?case by (simp add: mod_add_eq [symmetric])
qed simp

lemma upload_next:
  assumes h: "holds_upload s ps" and st: "sm_state s = WS_UPLOAD" "sm_session s = se" "1 \<le> se" "se < 2 ^ 32"
    and c: "fragment_ok c" and fit: "int (length (concat (ps @ [c]))) \<le> sm_total_bytes s"
    and cap: "sm_total_bytes s \<le> DDR_MAX_INTERLEAVED_BYTES"
  shows "data_next se (int (length ps)) (int (length (concat ps))) c (Some (crc32 c)) s"
proof -
  have ok: "\<forall>p \<in> set ps. fragment_ok p" using h by (simp add: holds_upload_def)
  have "32 * length ps \<le> length (concat ps)" by (rule fragments_count [OF ok])
  moreover have al: "length (concat ps) mod 32 = 0" by (rule fragments_aligned [OF ok])
  have "int (length (concat ps)) + int (length c) \<le> 8588886016"
    using fit cap by simp
  ultimately have b: "int (length ps) < 2 ^ 32" "int (length (concat ps)) + int (length c) \<le> 2 ^ 64" by simp_all
  have al': "int (length (concat ps)) mod 32 = 0" using al by presburger
  have "crc32 c AND 0xFFFFFFFF = crc32 c"
    using zlib_crc32_bounds [of c] by (simp add: crc32_eq and_mask_numerals)
  then have "crc_ok c (Some (crc32 c))" by (simp add: crc_ok_def)
  moreover have "data_ok se (int (length ps)) (int (length (concat ps))) c"
    using c b al' st(3,4) unfolding data_ok_def fragment_ok_def by simp
  ultimately show ?thesis
    using st h fit unfolding data_next_def holds_upload_def by simp
qed

lemma data_appended_keeps:
  "sm_state (data_appended c s) = sm_state s" "sm_session (data_appended c s) = sm_session s"
  "sm_total_bytes (data_appended c s) = sm_total_bytes s" "sm_descriptor (data_appended c s) = sm_descriptor s"
  "sm_channel_mask (data_appended c s) = sm_channel_mask s" "sm_loop_count (data_appended c s) = sm_loop_count s"
  "sm_error_offset (data_appended c s) = sm_error_offset s"
  by (simp_all add: data_appended_def)

lemma upload_run:
  assumes "holds_upload s ps" "sm_state s = WS_UPLOAD" "sm_session s = se" "1 \<le> se" "se < 2 ^ 32"
    and "\<forall>c \<in> set cs. fragment_ok c" "int (length (concat (ps @ cs))) \<le> sm_total_bytes s"
    and "sm_total_bytes s \<le> DDR_MAX_INTERLEAVED_BYTES" "sm_descriptor s = 0"
  shows "\<exists>s'. efold sim_handle (upload_events se (int (length ps)) (int (length (concat ps))) cs) s = Inr s' \<and>
     holds_upload s' (ps @ cs) \<and> sm_state s' = WS_UPLOAD \<and> sm_session s' = se \<and>
     sm_total_bytes s' = sm_total_bytes s \<and> sm_descriptor s' = 0 \<and>
     sm_channel_mask s' = sm_channel_mask s \<and> sm_loop_count s' = sm_loop_count s"
  using assms
proof (induction cs arbitrary: s ps)
  case Nil
  then show ?case by simp
next
  case (Cons c cs)
  let ?s1 = "data_appended c s"
  have "int (length (concat (ps @ [c]))) \<le> sm_total_bytes s" using Cons.prems(7) by simp
  then have n: "data_next se (int (length ps)) (int (length (concat ps))) c (Some (crc32 c)) s"
    using Cons.prems by (intro upload_next) simp_all
  have h: "holds_upload ?s1 (ps @ [c])"
    using Cons.prems(1,6) by (intro holds_upload_appended) simp_all
  have "\<exists>s'. efold sim_handle (upload_events se (int (length (ps @ [c]))) (int (length (concat (ps @ [c])))) cs) ?s1 = Inr s' \<and>
     holds_upload s' ((ps @ [c]) @ cs) \<and> sm_state s' = WS_UPLOAD \<and> sm_session s' = se \<and>
     sm_total_bytes s' = sm_total_bytes ?s1 \<and> sm_descriptor s' = 0 \<and>
     sm_channel_mask s' = sm_channel_mask ?s1 \<and> sm_loop_count s' = sm_loop_count ?s1"
    by (rule Cons.IH [OF h]) (use Cons.prems in \<open>simp_all add: data_appended_keeps\<close>)
  moreover have "sim_handle (EvData se (int (length ps)) (int (length (concat ps))) c (Some (crc32 c))) s = Inr ?s1"
    using data_waveform_next [OF n] by simp
  ultimately show ?case
    by (simp add: data_appended_keeps del: sim_handle.simps) (simp add: algebra_simps)
qed

lemma commit_waveform_complete:
  assumes "sm_state s = WS_UPLOAD" "sm_received_bytes s = sm_total_bytes s" "sm_descriptor s = 0"
  shows "\<exists>g. 0 < g \<and> commit_waveform (sm_session s) s =
      (wave_response_dict (s\<lparr>sm_generation := g, sm_descriptor := g, sm_state := WS_PREFETCH, sm_prefetch_complete := False\<rparr>)
         WAVE_OP_COMMIT WAVE_STATUS_OK None,
       s\<lparr>sm_generation := g, sm_descriptor := g, sm_state := WS_PREFETCH, sm_prefetch_complete := False\<rparr>)"
proof -
  let ?g = "(sm_generation s + 1) AND 0xFFFFFFFF"
  let ?g' = "if ?g = 0 then 1 else ?g"
  have "0 < ?g'" by (auto simp: and_mask_numerals order_less_le)
  moreover have f: "(sm_session s = sm_session s \<and> sm_descriptor s \<noteq> 0) = False"
    "(sm_session s \<noteq> sm_session s \<or> sm_state s \<noteq> WS_UPLOAD) = False" "(sm_received_bytes s \<noteq> sm_total_bytes s) = False"
    using assms by simp_all
  have "commit_waveform (sm_session s) s =
      (wave_response_dict (s\<lparr>sm_generation := ?g', sm_descriptor := ?g', sm_state := WS_PREFETCH, sm_prefetch_complete := False\<rparr>)
         WAVE_OP_COMMIT WAVE_STATUS_OK None,
       s\<lparr>sm_generation := ?g', sm_descriptor := ?g', sm_state := WS_PREFETCH, sm_prefetch_complete := False\<rparr>)"
    unfolding commit_waveform_def Let_def f if_False ..
  ultimately show ?thesis by blast
qed

lemma began_fields:
  "holds_upload (began se tb cm beats lc s) []" "sm_state (began se tb cm beats lc s) = WS_UPLOAD"
  "sm_session (began se tb cm beats lc s) = se" "sm_total_bytes (began se tb cm beats lc s) = tb"
  "sm_descriptor (began se tb cm beats lc s) = 0" "sm_channel_mask (began se tb cm beats lc s) = cm"
  "sm_loop_count (began se tb cm beats lc s) = lc"
  by (simp_all add: began_def holds_upload_def fragments_tile_Nil)

text \<open>
  C4. Uploading works: from any state of the board, BEGIN, the chunks of an image sent in order
  (each non-empty, at most 1408 bytes, a multiple of 32 bytes) and COMMIT end in PREFETCH with a
  fresh descriptor, and the board then holds exactly the concatenation of the chunks.
\<close>

theorem in_order_upload_succeeds:
  assumes "begin_ok session size_bytes channel_mask beats loop_count 1"
    and "\<forall>c \<in> set chunks. fragment_ok c" and "int (length (concat chunks)) = size_bytes"
  shows "\<exists>s'. efold sim_handle (EvBegin session size_bytes channel_mask beats loop_count 1 #
                upload_events session 0 0 chunks @ [EvCommit session]) s = Inr s' \<and>
     sm_state s' = WS_PREFETCH \<and> sm_session s' = session \<and> sm_descriptor s' \<noteq> 0 \<and>
     sm_received s' = concat chunks \<and> sm_channel_mask s' = channel_mask \<and> sm_loop_count s' = loop_count"
proof -
  let ?b = "began session size_bytes channel_mask beats loop_count s"
  have lim: "1 \<le> session" "session < 2 ^ 32" "size_bytes \<le> DDR_MAX_INTERLEAVED_BYTES"
    using assms(1) by (simp_all add: begin_ok_def)
  have "\<exists>s'. efold sim_handle (upload_events session (int (length ([] :: bytes list))) (int (length (concat ([] :: bytes list)))) chunks) ?b = Inr s' \<and>
     holds_upload s' ([] @ chunks) \<and> sm_state s' = WS_UPLOAD \<and> sm_session s' = session \<and>
     sm_total_bytes s' = sm_total_bytes ?b \<and> sm_descriptor s' = 0 \<and>
     sm_channel_mask s' = sm_channel_mask ?b \<and> sm_loop_count s' = sm_loop_count ?b"
    by (rule upload_run [OF began_fields(1,2,3) lim(1,2) assms(2)])
      (use assms(3) lim in \<open>simp_all add: began_fields\<close>)
  then obtain s1 where s1: "efold sim_handle (upload_events session 0 0 chunks) ?b = Inr s1"
    "holds_upload s1 chunks" "sm_state s1 = WS_UPLOAD" "sm_session s1 = session" "sm_total_bytes s1 = size_bytes"
    "sm_descriptor s1 = 0" "sm_channel_mask s1 = channel_mask" "sm_loop_count s1 = loop_count"
    by (auto simp: began_fields)
  have "sm_received_bytes s1 = sm_total_bytes s1" using s1(2,5) assms(3) by (simp add: holds_upload_def)
  from commit_waveform_complete [OF s1(3) this s1(6)] obtain g where
    g: "0 < g" "snd (commit_waveform session s1) =
      s1\<lparr>sm_generation := g, sm_descriptor := g, sm_state := WS_PREFETCH, sm_prefetch_complete := False\<rparr>"
    using s1(4) by auto
  have "efold sim_handle (EvBegin session size_bytes channel_mask beats loop_count 1 #
                upload_events session 0 0 chunks @ [EvCommit session]) s = Inr (snd (commit_waveform session s1))"
    using s1(1) by (simp add: begin_waveform_ok [OF assms(1)] efold_append)
  then show ?thesis using g s1 by (simp add: holds_upload_def)
qed

theorem in_order_upload_succeeds_witness:
  "\<exists>s'. efold sim_handle (EvBegin 9 256 255 1 1 1 # upload_events 9 0 0 [replicate 96 1, replicate 160 2] @ [EvCommit 9])
      (sim_init 255) = Inr s' \<and> sm_state s' = WS_PREFETCH \<and> sm_received s' = replicate 96 1 @ replicate 160 2"
  using in_order_upload_succeeds [of 9 256 255 1 1 "[replicate 96 1, replicate 160 2]" "sim_init 255"]
  by (auto simp: begin_ok_def fragment_ok_def)

lemma reachable_prefetch_example: "\<exists>s. sim_reachable s \<and> sm_state s = WS_PREFETCH"
proof -
  let ?b = "began 9 256 255 1 1 (sim_init 255)"
  let ?raw = "replicate 256 7 :: bytes"
  have h: "holds_upload ?b []" by (rule began_fields)
  have n: "data_next 9 0 0 ?raw None ?b"
    by (simp add: data_next_def data_ok_def crc_ok_def began_def)
  let ?s1 = "data_appended ?raw ?b"
  have b: "begin_ok 9 256 255 1 1 1" by (simp add: begin_ok_def)
  have d: "sm_descriptor ?s1 = 0" "sm_state ?s1 = WS_UPLOAD" "sm_session ?s1 = 9" "sm_received_bytes ?s1 = sm_total_bytes ?s1"
    by (simp_all add: data_appended_def began_def)
  obtain g where g: "snd (commit_waveform 9 ?s1) =
      ?s1\<lparr>sm_generation := g, sm_descriptor := g, sm_state := WS_PREFETCH, sm_prefetch_complete := False\<rparr>"
    using commit_waveform_complete [OF d(2,4,1)] d(3) by auto
  have "efold sim_handle [EvBegin 9 256 255 1 1 1, EvData 9 0 0 ?raw None, EvCommit 9] (sim_init 255) =
      Inr (snd (commit_waveform 9 ?s1))"
    using data_waveform_next [OF n] by (simp add: begin_waveform_ok [OF b])
  then have "sim_reachable (snd (commit_waveform 9 ?s1))" by (rule reachable_run [OF reach_init])
  then show ?thesis using g by (intro exI [of _ "snd (commit_waveform 9 ?s1)"]) simp
qed

theorem playback_needs_complete_image_witness:
  "\<exists>s. sim_reachable s \<and> sm_state s = WS_PREFETCH \<and> int (length (sm_received s)) = sm_total_bytes s"
  using reachable_prefetch_example playback_needs_complete_image by fastforce

section \<open>Transitions\<close>

lemma data_waveform_state:
  assumes d: "data_waveform se ps off raw crc s = Inr (r, s')"
  shows "sm_state s' = sm_state s"
proof -
  consider "data_next se ps off raw crc s" | "data_duplicate se ps off raw crc s"
    | "\<not> data_next se ps off raw crc s" "\<not> data_duplicate se ps off raw crc s" by blast
  then show ?thesis
  proof cases
    case 1
    then show ?thesis using d by (auto simp: data_waveform_next data_appended_keeps)
  next
    case 2
    then show ?thesis using d by (simp add: data_waveform_duplicate)
  next
    case 3
    from data_waveform_other [OF 3] show ?thesis using d by auto
  qed
qed

lemma control_states:
  "sm_state (snd (sim_play se s)) =
    (if se \<noteq> 0 \<and> se \<noteq> sm_session s then sm_state s
     else if sm_state s \<in> {WS_READY, WS_DONE, WS_PREFETCH} then WS_PREFETCH
     else if sm_state s = WS_WAIT_TRIGGER then WS_PLAYING else sm_state s)"
  "sm_state (snd (sim_pause se s)) =
    (if se \<noteq> 0 \<and> se \<noteq> sm_session s then sm_state s
     else if sm_state s \<in> {WS_READY, WS_DONE, WS_PLAYING, WS_WAIT_TRIGGER, WS_PREFETCH} then WS_READY
     else sm_state s)"
  "sm_state (snd (sim_abort se s)) = (if se \<noteq> 0 \<and> se \<noteq> sm_session s then sm_state s else WS_IDLE)"
  "sm_state (complete_prefetch s) =
    (if sm_state s = WS_PREFETCH then (if sm_play_pending s then WS_PLAYING else WS_WAIT_TRIGGER) else sm_state s)"
  "sm_state (snd (trigger_event s)) = (if sm_state s = WS_WAIT_TRIGGER then WS_PLAYING else sm_state s)"
  by (simp_all add: sim_play_def sim_pause_def sim_abort_def complete_prefetch_def trigger_event_def Let_def)

lemma stop_state:
  "sm_state (snd (sim_stop se s)) =
    (if se \<noteq> 0 \<and> se \<noteq> sm_session s then sm_state s
     else if sm_state s = WS_UPLOAD then WS_IDLE
     else if sm_state s \<in> {WS_READY, WS_DONE, WS_PLAYING, WS_WAIT_TRIGGER, WS_PREFETCH} then WS_READY
     else sm_state s)"
  by (simp add: sim_stop_def Let_def split_beta control_states)

text \<open>
  The playback states are entered in one way each. PLAYING: by PLAY or a trigger from
  WAIT_TRIGGER, or when the prefetch that a PLAY asked for completes; WAIT_TRIGGER: when any other
  prefetch completes; PREFETCH: by COMMIT of a complete upload or by PLAY; UPLOAD: by BEGIN; IDLE:
  by ABORT, or by STOP during an upload; READY: by PAUSE or STOP. A trigger changes nothing in any
  other state than WAIT_TRIGGER.
\<close>

lemma state_entries:
  assumes "sim_step s e s'" and "sm_state s' \<noteq> sm_state s"
  shows "case sm_state s' of
      WS_PLAYING \<Rightarrow> (sm_state s = WS_WAIT_TRIGGER \<and> (e = EvTrigger \<or> (\<exists>se. e = EvPlay se))) \<or>
                    (sm_state s = WS_PREFETCH \<and> e = EvPrefetchDone \<and> sm_play_pending s)
    | WS_WAIT_TRIGGER \<Rightarrow> sm_state s = WS_PREFETCH \<and> e = EvPrefetchDone \<and> \<not> sm_play_pending s
    | WS_PREFETCH \<Rightarrow> (sm_state s = WS_UPLOAD \<and> e = EvCommit (sm_session s) \<and> sm_received_bytes s = sm_total_bytes s) \<or>
                    (sm_state s \<in> {WS_READY, WS_DONE} \<and> (\<exists>se. e = EvPlay se))
    | WS_UPLOAD \<Rightarrow> (\<exists>se tb cm beats lc. e = EvBegin se tb cm beats lc 1 \<and> begin_ok se tb cm beats lc 1)
    | WS_IDLE \<Rightarrow> (\<exists>se. e = EvAbort se \<or> e = EvStop se \<and> sm_state s = WS_UPLOAD)
    | WS_READY \<Rightarrow> (\<exists>se. e = EvPause se \<or> e = EvStop se)
    | _ \<Rightarrow> False"
proof (cases e)
  case (EvBegin se tb cm beats lc lay)
  show ?thesis
  proof (cases "begin_ok se tb cm beats lc lay")
    case True
    moreover from True have "lay = 1" by (simp add: begin_ok_def)
    ultimately show ?thesis using assms EvBegin
      by (auto simp: sim_step_iff begin_waveform_ok began_fields)
  next
    case False
    then show ?thesis using assms EvBegin by (auto simp: sim_step_iff begin_waveform_refused)
  qed
next
  case (EvData se ps off raw crc)
  obtain r where "data_waveform se ps off raw crc s = Inr (r, s')"
    using assms EvData data_waveform_total [of se ps off raw crc s] by (auto simp: sim_step_iff)
  then have "sm_state s' = sm_state s" by (rule data_waveform_state)
  with assms(2) show ?thesis by simp
next
  case (EvCommit se)
  then show ?thesis using assms commit_waveform_cases [of se s] by (auto simp: sim_step_iff)
next
  case EvPrefetchDone
  then have "sm_state s' = sm_state (complete_prefetch s)" using assms by (simp add: sim_step_iff)
  with EvPrefetchDone assms(2) show ?thesis by (simp add: control_states split: if_splits)
next
  case (EvPlay se)
  then have "sm_state s' = sm_state (snd (sim_play se s))" using assms by (simp add: sim_step_iff)
  with EvPlay assms(2) show ?thesis by (auto simp: control_states split: if_splits)
next
  case (EvPause se)
  then have "sm_state s' = sm_state (snd (sim_pause se s))" using assms by (simp add: sim_step_iff)
  with EvPause assms(2) show ?thesis by (auto simp: control_states split: if_splits)
next
  case (EvStop se)
  then have "sm_state s' = sm_state (snd (sim_stop se s))" using assms by (simp add: sim_step_iff)
  with EvStop assms(2) show ?thesis by (auto simp: stop_state split: if_splits)
next
  case (EvAbort se)
  then have "sm_state s' = sm_state (snd (sim_abort se s))" using assms by (simp add: sim_step_iff)
  with EvAbort assms(2) show ?thesis by (auto simp: control_states split: if_splits)
next
  case EvTrigger
  then have "sm_state s' = sm_state (snd (trigger_event s))" using assms by (simp add: sim_step_iff)
  with EvTrigger assms(2) show ?thesis by (simp add: control_states split: if_splits)
qed

theorem state_entries_witness:
  "sm_state (sim_init 255) = WS_IDLE \<and> sim_step (sim_init 255) (EvBegin 9 256 255 1 1 1) (began 9 256 255 1 1 (sim_init 255)) \<and>
   begin_ok 9 256 255 1 1 1"
proof -
  have b: "begin_ok 9 256 255 1 1 1" by (simp add: begin_ok_def)
  have st: "sim_step (sim_init 255) (EvBegin 9 256 255 1 1 1) (began 9 256 255 1 1 (sim_init 255))"
    by (rule sim_stepI) (simp add: begin_waveform_ok [OF b])
  have i: "sm_state (sim_init 255) = WS_IDLE" by (simp add: sim_init_def)
  from state_entries [OF st] have "begin_ok 9 256 255 1 1 1" by (simp add: began_fields i)
  with st i show ?thesis by blast
qed

section \<open>The remembered error offset\<close>

text \<open>
  A new session inherits the error offset of the one before: BEGIN clears every other part of
  the upload state, so after BEGIN and the acceptance of the first packet (acknowledged with error
  offset 0), the acknowledgement of that packet's retransmission reports the offset at which some
  earlier session failed. ABORT does clear it.
\<close>

lemma stale_error_offset:
  assumes "begin_ok session size_bytes channel_mask beats loop_count 1"
    and "fragment_ok c" and "int (length c) \<le> size_bytes"
  shows "\<exists>r0 r1 r2 s1 s2.
     begin_waveform session size_bytes channel_mask beats loop_count 1 s = Inr (r0, s1) \<and>
     data_waveform session 0 0 c None s1 = Inr (r1, s2) \<and>
     data_waveform session 0 0 c None s2 = Inr (r2, s2) \<and>
     sr_extra r1 = Some \<lparr>sp_ack = Some 0, sp_next_expected = 1, sp_received_bytes = int (length c), sp_first_error_offset = 0\<rparr> \<and>
     sr_extra r2 = Some \<lparr>sp_ack = Some 0, sp_next_expected = 1, sp_received_bytes = int (length c),
                         sp_first_error_offset = sm_error_offset s\<rparr> \<and>
     sm_error_offset (snd (sim_abort session s1)) = 0"
proof -
  let ?b = "began session size_bytes channel_mask beats loop_count s"
  let ?a = "data_appended c ?b"
  have lim: "1 \<le> session" "session < 2 ^ 32" "size_bytes \<le> DDR_MAX_INTERLEAVED_BYTES"
    using assms(1) by (simp_all add: begin_ok_def)
  have n: "data_next session 0 0 c None ?b"
  proof -
    have "data_next session (int (length ([] :: bytes list))) (int (length (concat ([] :: bytes list)))) c (Some (crc32 c)) ?b"
      by (rule upload_next [OF began_fields(1,2,3) lim(1,2) assms(2)]) (use assms(3) lim in \<open>simp_all add: began_fields\<close>)
    then show ?thesis by (simp add: data_next_def crc_ok_def)
  qed
  have d: "data_duplicate session 0 0 c None ?a"
    using n by (simp add: data_duplicate_def data_next_def crc_ok_def data_appended_def began_def)
  have x: "sr_extra (wave_response_dict t opc st x) = x" for t opc st x
    by (simp add: wave_response_dict_def)
  have e: "sm_next_packet ?a = 1" "sm_received_bytes ?a = int (length c)" "sm_error_offset ?a = sm_error_offset s"
    by (simp_all add: data_appended_def began_def)
  have ab: "sm_error_offset (snd (sim_abort session ?b)) = 0"
    by (simp add: sim_abort_def Let_def began_fields)
  have p1: "sim_progress_of ?a (Some 0) 0 =
      Some \<lparr>sp_ack = Some 0, sp_next_expected = 1, sp_received_bytes = int (length c), sp_first_error_offset = 0\<rparr>"
    by (simp add: sim_progress_of_def e)
  have p2: "sim_progress_of ?a (Some 0) (sm_error_offset ?a) =
      Some \<lparr>sp_ack = Some 0, sp_next_expected = 1, sp_received_bytes = int (length c),
            sp_first_error_offset = sm_error_offset s\<rparr>"
    by (simp add: sim_progress_of_def e)
  show ?thesis
  proof (intro exI conjI)
    show "begin_waveform session size_bytes channel_mask beats loop_count 1 s =
        Inr (wave_response_dict ?b WAVE_OP_BEGIN WAVE_STATUS_OK None, ?b)"
      by (rule begin_waveform_ok [OF assms(1)])
    show "data_waveform session 0 0 c None ?b = Inr (wave_response_dict ?a WAVE_OP_DATA WAVE_STATUS_OK
        (sim_progress_of ?a (Some 0) 0), ?a)" by (rule data_waveform_next [OF n])
    show "data_waveform session 0 0 c None ?a = Inr (wave_response_dict ?a WAVE_OP_DATA WAVE_STATUS_OK
        (sim_progress_of ?a (Some 0) (sm_error_offset ?a)), ?a)" by (rule data_waveform_duplicate [OF d])
  qed (simp_all only: x p1 p2 ab)
qed

lemma stale_example: "begin_ok 9 256 255 1 1 1 \<and> fragment_ok (replicate 64 1)"
  by (simp add: begin_ok_def fragment_ok_def)

theorem stale_error_offset_witness:
  "\<exists>r1 r2 s1 s2.
     data_waveform 9 0 0 (replicate 64 1) None s1 = Inr (r1, s2) \<and>
     data_waveform 9 0 0 (replicate 64 1) None s2 = Inr (r2, s2) \<and>
     sr_extra r2 = Some \<lparr>sp_ack = Some 0, sp_next_expected = 1, sp_received_bytes = 64, sp_first_error_offset = 4096\<rparr>"
  using stale_error_offset [of 9 256 255 1 1 "replicate 64 1" "sim_init 255\<lparr>sm_error_offset := 4096\<rparr>"] stale_example
  by auto

section \<open>STATUS payload and diagnostics\<close>

abbreviation "status_fmt \<equiv> [fI, fI, fI, fI, fI, fI, fI, fI, fQ, fQ, fQ, fQ, fI, fI]"
abbreviation "status_tail_fmt \<equiv> [fQ, fI, fI, fI, fI]"

definition sim_capabilities :: int where
  "sim_capabilities = ((((RF2_CAP_PL_RFDC_CONFIG OR RF2_CAP_RFDC_GET_CONFIG) OR RF2_CAP_DAC_MTS) OR RF2_CAP_NCO_SYNC)
     OR RF2_CAP_TRIGGER_IO) OR RF2_CAP_DIAGNOSTICS"

definition sim_state_flags :: "simulator \<Rightarrow> int" where
  "sim_state_flags s =
     (let f = ((RF2_STATUS_RFDC_READY OR RF2_STATUS_DAC_MTS_READY) OR RF2_STATUS_DAC_MTS_REQUIRED) OR RF2_STATUS_NCO_SYNC_READY;
          f = (if sm_playback_armed s then f OR (RF2_STATUS_ARMED OR RF2_STATUS_PREPARED) else f) in
      if sm_playback_running s then f OR RF2_STATUS_RUNNING else f)"

definition make_status_payload :: "simulator \<Rightarrow> bytes result" where
  "make_status_payload s =
     ebind (struct_pack status_fmt
       [sim_capabilities, sim_state_flags s, sm_valid_mask s, sm_revision s, 0, 0, 0, 0,
        sm_channel_mask_cfg s AND 0xFF, 0, sm_valid_mask s AND 0xFF, 0, 1, 0]) (\<lambda>base.
     ebind (struct_pack status_tail_fmt
       [0, sm_trigger_input_count s, sm_trigger_accepted_count s, sm_trigger_output_count s, 0]) (\<lambda>tail.
     Inr (base @ tail)))"

text \<open>\<open>_response\<close>, as the response record of the RFRESP2 parser.\<close>

definition sim_rf_response :: "int \<Rightarrow> bytes \<Rightarrow> int \<Rightarrow> int \<Rightarrow> rf_response" where
  "sim_rf_response opcode payload seq status =
     \<lparr>rsp_version = RFCTRL2_VERSION, rsp_status = status, rsp_opcode = opcode, rsp_flags = 0,
      rsp_seq = seq AND 0xFFFFFFFF, rsp_payload_bytes = int (length payload), rsp_payload = payload\<rparr>"

definition sim_hello :: "int \<Rightarrow> simulator \<Rightarrow> rf_response result" where
  "sim_hello seq s = ebind (make_status_payload s) (\<lambda>p.
     Inr (sim_rf_response RF2_OP_HELLO p (if seq = 0 then 1 else seq) RF2_STATUS_OK))"

definition sim_rfctrl2_status :: "int \<Rightarrow> simulator \<Rightarrow> rf_response result" where
  "sim_rfctrl2_status seq s = ebind (make_status_payload s) (\<lambda>p.
     Inr (sim_rf_response RF2_OP_STATUS p (if seq = 0 then 1 else seq) RF2_STATUS_OK))"

definition sim_read_diagnostics :: "simulator \<Rightarrow> rf_diagnostics \<times> simulator" where
  "sim_read_diagnostics s =
     (let s' = s\<lparr>sm_diag_generation := (sm_diag_generation s + 1) AND 0xFFFFFFFFFFFFFFFF\<rparr> in
      (diagnostics_defaults\<lparr>dg_generation := sm_diag_generation s',
         dg_trigger_input_count := sm_trigger_input_count s',
         dg_trigger_accepted_count := sm_trigger_accepted_count s',
         dg_replay_ready := sm_playback_prepared s', dg_replay_active := sm_playback_running s'\<rparr>, s'))"

definition sim_clear_diagnostics :: "bool \<Rightarrow> simulator \<Rightarrow> (rf_response \<times> simulator) result" where
  "sim_clear_diagnostics counters s =
     (let s1 = (if counters then s\<lparr>sm_trigger_input_count := 0, sm_trigger_accepted_count := 0,
                                  sm_trigger_output_count := 0\<rparr> else s);
          s2 = s1\<lparr>sm_diag_generation := 0\<rparr> in
      ebind (make_status_payload s2) (\<lambda>p. Inr (sim_rf_response RF2_OP_DIAG_CONTROL p 1 RF2_STATUS_OK, s2)))"

lemma sim_state_flags_value:
  "sim_state_flags s = 417 + (if sm_playback_armed s then 20 else 0) + (if sm_playback_running s then 8 else 0)"
  by (simp add: sim_state_flags_def)

lemma sim_capabilities_value: "sim_capabilities = 0xDB0000"
  by (simp add: sim_capabilities_def)

text \<open>
  The simulator's HELLO/STATUS payload means what the driver reads from it: while its
  registers fit their 32-bit fields the payload is built, has the 96 bytes of the base status
  layout, and the driver's decoder returns the board's readiness, its armed and running flags, its
  valid mask, revision and trigger counters, and none of the appended extensions.
\<close>

lemma status_payload_decodes:
  assumes "u32_range (sm_valid_mask s)" "u32_range (sm_revision s)" "u32_range (sm_trigger_input_count s)"
    "u32_range (sm_trigger_accepted_count s)" "u32_range (sm_trigger_output_count s)"
  shows "\<exists>p. make_status_payload s = Inr p \<and> length p = 96 \<and>
    (let r = parse_rfctrl2_status_payload p in
     st_capabilities r = sim_capabilities \<and> st_state_flags r = sim_state_flags s \<and>
     st_config_valid_mask r = sm_valid_mask s \<and> st_last_revision r = sm_revision s \<and>
     st_trigger_input_count r = sm_trigger_input_count s \<and>
     st_trigger_accepted_count r = sm_trigger_accepted_count s \<and>
     st_trigger_output_count r = sm_trigger_output_count s \<and>
     st_rfdc_ready r \<and> st_dac_mts_ready r \<and> st_nco_sync_ready r \<and> \<not> st_dac_mts_failed r \<and>
     st_armed r = sm_playback_armed s \<and> st_prepared r = sm_playback_armed s \<and>
     st_running r = sm_playback_running s \<and> st_play_config_channel_mask r = sm_channel_mask_cfg s mod 256 \<and>
     st_source_commit_id r = 0 \<and> st_build_profile r = [] \<and> st_playback_admitted_count r = 0)"
proof -
  have f: "0 \<le> sim_state_flags s" "sim_state_flags s < 4294967296" by (simp_all add: sim_state_flags_value)
  have m: "x mod 256 < 18446744073709551616" for x :: int
    using pos_mod_bound [of 256 x] by linarith
  have p: "make_status_payload s = Inr (fields_enc status_fmt
       [sim_capabilities, sim_state_flags s, sm_valid_mask s, sm_revision s, 0, 0, 0, 0,
        sm_channel_mask_cfg s mod 256, 0, sm_valid_mask s mod 256, 0, 1, 0] @
      fields_enc status_tail_fmt
       [0, sm_trigger_input_count s, sm_trigger_accepted_count s, sm_trigger_output_count s, 0])"
    (is "_ = Inr ?p")
    using assms f m
    by (simp add: make_status_payload_def struct_pack_def u32_range_def and_mask_numerals sim_capabilities_value
        del: fields_enc.simps)
  have len: "length ?p = 96" by (simp add: length_fields_enc)
  have u: "u32_at ?p 0 = sim_capabilities" "u32_at ?p 4 = sim_state_flags s" "u32_at ?p 8 = sm_valid_mask s"
    "u32_at ?p 12 = sm_revision s" "u32_at ?p 80 = sm_trigger_input_count s"
    "u32_at ?p 84 = sm_trigger_accepted_count s" "u32_at ?p 88 = sm_trigger_output_count s"
    "u32_at ?p 64 = 1" "u64_at ?p 32 = sm_channel_mask_cfg s mod 256"
    using assms f by (simp_all add: u32_at_def u64_at_def le_dec_enc u32_range_def sim_capabilities_value)
  note r = status_base_payload [OF len]
  show ?thesis
    unfolding Let_def
  proof (intro exI conjI)
    show "make_status_payload s = Inr ?p" by (rule p)
    show "length ?p = 96" by (rule len)
    show "st_capabilities (parse_rfctrl2_status_payload ?p) = sim_capabilities"
      "st_state_flags (parse_rfctrl2_status_payload ?p) = sim_state_flags s"
      "st_config_valid_mask (parse_rfctrl2_status_payload ?p) = sm_valid_mask s"
      "st_last_revision (parse_rfctrl2_status_payload ?p) = sm_revision s"
      "st_trigger_input_count (parse_rfctrl2_status_payload ?p) = sm_trigger_input_count s"
      "st_trigger_accepted_count (parse_rfctrl2_status_payload ?p) = sm_trigger_accepted_count s"
      "st_trigger_output_count (parse_rfctrl2_status_payload ?p) = sm_trigger_output_count s"
      "st_source_commit_id (parse_rfctrl2_status_payload ?p) = 0"
      "st_build_profile (parse_rfctrl2_status_payload ?p) = []"
      "st_playback_admitted_count (parse_rfctrl2_status_payload ?p) = 0"
      by (simp_all only: r u)
    show "st_play_config_channel_mask (parse_rfctrl2_status_payload ?p) = sm_channel_mask_cfg s mod 256"
      by (simp only: r u) (simp add: and_mask_numerals)
  qed (simp_all only: r u, simp_all add: sim_state_flags_value)
qed

theorem status_payload_decodes_witness:
  "\<exists>p. make_status_payload (sim_init 255) = Inr p \<and> length p = 96 \<and> st_rfdc_ready (parse_rfctrl2_status_payload p) \<and>
       \<not> st_armed (parse_rfctrl2_status_payload p)"
proof -
  have "\<not> sm_playback_armed (sim_init 255)" "u32_range 0"
    "sm_valid_mask (sim_init 255) = 0" "sm_revision (sim_init 255) = 0" "sm_trigger_input_count (sim_init 255) = 0"
    "sm_trigger_accepted_count (sim_init 255) = 0" "sm_trigger_output_count (sim_init 255) = 0"
    by (simp_all add: sim_init_def u32_range_def)
  then show ?thesis using status_payload_decodes [of "sim_init 255"] unfolding Let_def by metis
qed

end
