(* ===== verification/Prog.thy ===== *)
theory Prog
  imports Prelude
begin

text \<open>
  Methods that change the state of an object and may raise: a program takes the state and gives a
  result and the new state, also when it raises. \<open>triple\<close> is a Hoare triple with one postcondition
  for a normal return and one for an exception; \<open>keeps\<close> says that an invariant survives either way.
  Programs are deterministic and total, so both are total correctness.
\<close>

type_synonym ('s, 'a) prog = "'s \<Rightarrow> 'a result \<times> 's"

definition pret :: "'a \<Rightarrow> ('s, 'a) prog" where
  "pret x s = (Inr x, s)"

definition praise :: "pyerror \<Rightarrow> ('s, 'a) prog" where
  "praise e s = (Inl e, s)"

definition pbind :: "('s, 'a) prog \<Rightarrow> ('a \<Rightarrow> ('s, 'b) prog) \<Rightarrow> ('s, 'b) prog" where
  "pbind m f s = (case m s of (Inl e, s') \<Rightarrow> (Inl e, s') | (Inr x, s') \<Rightarrow> f x s')"

definition pthen :: "('s, 'a) prog \<Rightarrow> ('s, 'b) prog \<Rightarrow> ('s, 'b) prog" where
  "pthen m n = pbind m (\<lambda>_. n)"

definition pgets :: "('s \<Rightarrow> 'a) \<Rightarrow> ('s, 'a) prog" where
  "pgets f s = (Inr (f s), s)"

definition pmodify :: "('s \<Rightarrow> 's) \<Rightarrow> ('s, unit) prog" where
  "pmodify f s = (Inr (), f s)"

text \<open>A computation without state, and \<open>if bad: raise e\<close>.\<close>

definition plift :: "'a result \<Rightarrow> ('s, 'a) prog" where
  "plift r s = (r, s)"

definition praise_if :: "bool \<Rightarrow> pyerror \<Rightarrow> ('s, unit) prog" where
  "praise_if bad e s = (if bad then Inl e else Inr (), s)"

text \<open>\<open>try: m\<close> with the handler for every exception; a handler that does not apply re-raises.\<close>

definition pcatch :: "('s, 'a) prog \<Rightarrow> (pyerror \<Rightarrow> ('s, 'a) prog) \<Rightarrow> ('s, 'a) prog" where
  "pcatch m h s = (case m s of (Inl e, s') \<Rightarrow> h e s' | (Inr x, s') \<Rightarrow> (Inr x, s'))"

text \<open>\<open>try: m finally: n\<close>, where \<open>n\<close> may itself raise.\<close>

definition pfinally :: "('s, 'a) prog \<Rightarrow> ('s, unit) prog \<Rightarrow> ('s, 'a) prog" where
  "pfinally m n s = (case m s of (r, s') \<Rightarrow>
     (case n s' of (Inl e, s'') \<Rightarrow> (Inl e, s'') | (Inr _, s'') \<Rightarrow> (r, s'')))"

fun pfor :: "'x list \<Rightarrow> ('x \<Rightarrow> ('s, unit) prog) \<Rightarrow> ('s, unit) prog" where
  "pfor [] body = pret ()"
| "pfor (x # xs) body = pthen (body x) (pfor xs body)"

fun pmap :: "('x \<Rightarrow> ('s, 'y) prog) \<Rightarrow> 'x list \<Rightarrow> ('s, 'y list) prog" where
  "pmap f [] = pret []"
| "pmap f (x # xs) = pbind (f x) (\<lambda>y. pbind (pmap f xs) (\<lambda>ys. pret (y # ys)))"

lemmas prog_defs = pret_def praise_def pbind_def pthen_def pgets_def pmodify_def plift_def
  praise_if_def pcatch_def pfinally_def

lemma pret_apply [simp]: "pret x s = (Inr x, s)" by (simp add: pret_def)
lemma praise_apply [simp]: "praise e s = (Inl e, s)" by (simp add: praise_def)
lemma pgets_apply [simp]: "pgets f s = (Inr (f s), s)" by (simp add: pgets_def)
lemma pmodify_apply [simp]: "pmodify f s = (Inr (), f s)" by (simp add: pmodify_def)
lemma plift_apply [simp]: "plift r s = (r, s)" by (simp add: plift_def)

lemma praise_if_apply [simp]:
  "praise_if True e s = (Inl e, s)" "praise_if False e s = (Inr (), s)"
  by (simp_all add: praise_if_def)

lemma pbind_Inr: "m s = (Inr x, s') \<Longrightarrow> pbind m f s = f x s'" by (simp add: pbind_def)
lemma pbind_Inl: "m s = (Inl e, s') \<Longrightarrow> pbind m f s = (Inl e, s')" by (simp add: pbind_def)
lemma pthen_Inr: "m s = (Inr x, s') \<Longrightarrow> pthen m n s = n s'" by (simp add: pthen_def pbind_def)
lemma pthen_Inl: "m s = (Inl e, s') \<Longrightarrow> pthen m n s = (Inl e, s')" by (simp add: pthen_def pbind_def)
lemma pcatch_Inr: "m s = (Inr x, s') \<Longrightarrow> pcatch m h s = (Inr x, s')" by (simp add: pcatch_def)
lemma pcatch_Inl: "m s = (Inl e, s') \<Longrightarrow> pcatch m h s = h e s'" by (simp add: pcatch_def)

lemma pbind_simps [simp]:
  "pbind (pret x) f s = f x s" "pbind (praise e) f s = (Inl e, s)"
  "pbind (pgets k) f s = f (k s) s" "pbind (pmodify g) h s = h () (g s)"
  "pbind (plift (Inr x)) f s = f x s" "pbind (plift (Inl e)) f s = (Inl e, s)"
  "pbind (praise_if True e) h s = (Inl e, s)" "pbind (praise_if False e) h s = h () s"
  by (simp_all add: pbind_def)

lemma pthen_simps [simp]:
  "pthen (pret x) n s = n s" "pthen (praise e) n s = (Inl e, s)"
  "pthen (pmodify g) n s = n (g s)"
  "pthen (praise_if True e) n s = (Inl e, s)" "pthen (praise_if False e) n s = n s"
  by (simp_all add: pthen_def)

lemma pbind_eq_Inr:
  "pbind m f s = (Inr y, s') \<longleftrightarrow> (\<exists>x s1. m s = (Inr x, s1) \<and> f x s1 = (Inr y, s'))"
  by (cases "m s"; cases "fst (m s)") (auto simp: pbind_def)

lemma pthen_eq_Inr:
  "pthen m n s = (Inr y, s') \<longleftrightarrow> (\<exists>x s1. m s = (Inr x, s1) \<and> n s1 = (Inr y, s'))"
  by (simp add: pthen_def pbind_eq_Inr)

lemma plift_eq_Inr: "plift r s = (Inr x, s') \<longleftrightarrow> r = Inr x \<and> s' = s"
  by auto

text \<open>A continuation that only computes leaves the state alone.\<close>

lemma snd_pbind_pure: "(\<And>x s. snd (f x s) = s) \<Longrightarrow> snd (pbind m f d) = snd (m d)"
  by (cases "m d"; cases "fst (m d)") (simp_all add: pbind_def)

section \<open>Triples\<close>

definition triple ::
  "('s \<Rightarrow> bool) \<Rightarrow> ('s, 'a) prog \<Rightarrow> ('a \<Rightarrow> 's \<Rightarrow> bool) \<Rightarrow> (pyerror \<Rightarrow> 's \<Rightarrow> bool) \<Rightarrow> bool" where
  "triple P m Q E \<longleftrightarrow>
     (\<forall>s. P s \<longrightarrow> (case m s of (Inr x, s') \<Rightarrow> Q x s' | (Inl e, s') \<Rightarrow> E e s'))"

lemma tripleI:
  assumes "\<And>s x s'. \<lbrakk> P s; m s = (Inr x, s') \<rbrakk> \<Longrightarrow> Q x s'"
    and "\<And>s e s'. \<lbrakk> P s; m s = (Inl e, s') \<rbrakk> \<Longrightarrow> E e s'"
  shows "triple P m Q E"
  unfolding triple_def using assms by (auto split: prod.splits sum.splits)

lemma tripleD_Inr: "triple P m Q E \<Longrightarrow> P s \<Longrightarrow> m s = (Inr x, s') \<Longrightarrow> Q x s'"
  by (fastforce simp: triple_def)

lemma tripleD_Inl: "triple P m Q E \<Longrightarrow> P s \<Longrightarrow> m s = (Inl e, s') \<Longrightarrow> E e s'"
  by (fastforce simp: triple_def)

lemma triple_weaken:
  assumes "triple P' m Q' E'" and "\<And>s. P s \<Longrightarrow> P' s" and "\<And>x s. Q' x s \<Longrightarrow> Q x s"
    and "\<And>e s. E' e s \<Longrightarrow> E e s"
  shows "triple P m Q E"
  using assms unfolding triple_def by (fastforce split: prod.splits sum.splits)

lemma triple_pbind:
  assumes "triple P m R E" and "\<And>x. triple (R x) (f x) Q E"
  shows "triple P (pbind m f) Q E"
proof -
  { fix s assume "P s"
    then have "case pbind m f s of (Inr x, s') \<Rightarrow> Q x s' | (Inl e, s') \<Rightarrow> E e s'"
      using assms tripleD_Inr [OF assms(1)] tripleD_Inl [OF assms(1)]
      by (cases "m s"; cases "fst (m s)") (auto simp: pbind_def triple_def) }
  then show ?thesis by (simp add: triple_def)
qed

lemma triple_pthen:
  "triple P m (\<lambda>_. R) E \<Longrightarrow> triple R n Q E \<Longrightarrow> triple P (pthen m n) Q E"
  unfolding pthen_def by (rule triple_pbind)

lemma triple_pcatch:
  assumes "triple P m Q R" and "\<And>e. triple (R e) (h e) Q E"
  shows "triple P (pcatch m h) Q E"
proof -
  { fix s assume "P s"
    then have "case pcatch m h s of (Inr x, s') \<Rightarrow> Q x s' | (Inl e, s') \<Rightarrow> E e s'"
      using assms tripleD_Inr [OF assms(1)] tripleD_Inl [OF assms(1)]
      by (cases "m s"; cases "fst (m s)") (auto simp: pcatch_def triple_def) }
  then show ?thesis by (simp add: triple_def)
qed

lemma triple_pfor:
  assumes "\<And>x. x \<in> set xs \<Longrightarrow> triple I (body x) (\<lambda>_. I) E"
  shows "triple I (pfor xs body) (\<lambda>_. I) E"
  using assms
proof (induction xs)
  case Nil
  then show ?case by (simp add: triple_def)
next
  case (Cons x xs)
  show ?case unfolding pfor.simps by (rule triple_pthen) (use Cons in simp_all)
qed

section \<open>Invariants\<close>

definition keeps :: "('s \<Rightarrow> bool) \<Rightarrow> ('s, 'a) prog \<Rightarrow> bool" where
  "keeps I m \<longleftrightarrow> (\<forall>s. I s \<longrightarrow> I (snd (m s)))"

named_theorems keeps_rules "programs that keep an invariant"

lemma keepsI: "(\<And>s. I s \<Longrightarrow> I (snd (m s))) \<Longrightarrow> keeps I m"
  by (simp add: keeps_def)

lemma keepsD: "keeps I m \<Longrightarrow> I s \<Longrightarrow> I (snd (m s))"
  by (simp add: keeps_def)

lemma keeps_triple: "keeps I m \<longleftrightarrow> triple I m (\<lambda>_. I) (\<lambda>_. I)"
proof -
  have "(case r of (Inr x, s') \<Rightarrow> I s' | (Inl e, s') \<Rightarrow> I s') = I (snd r)" for r :: "'b result \<times> 'a"
    by (cases r; cases "fst r") auto
  then show ?thesis by (simp add: keeps_def triple_def)
qed

lemma keeps_basic [keeps_rules]:
  "keeps I (pret x)" "keeps I (praise e)" "keeps I (pgets f)" "keeps I (plift r)" "keeps I (praise_if b e)"
  by (simp_all add: keeps_def prog_defs)

lemma keeps_pmodify [keeps_rules]: "(\<And>s. I s \<Longrightarrow> I (f s)) \<Longrightarrow> keeps I (pmodify f)"
  by (simp add: keeps_def)

lemma keeps_pbind [keeps_rules]: "keeps I m \<Longrightarrow> (\<And>x. keeps I (f x)) \<Longrightarrow> keeps I (pbind m f)"
  unfolding keeps_triple by (rule triple_pbind)

lemma keeps_pthen [keeps_rules]: "keeps I m \<Longrightarrow> keeps I n \<Longrightarrow> keeps I (pthen m n)"
  unfolding pthen_def by (rule keeps_pbind)

lemma keeps_pcatch [keeps_rules]: "keeps I m \<Longrightarrow> (\<And>e. keeps I (h e)) \<Longrightarrow> keeps I (pcatch m h)"
  unfolding keeps_triple by (rule triple_pcatch)

lemma keeps_pfinally [keeps_rules]:
  assumes "keeps I m" "keeps I n"
  shows "keeps I (pfinally m n)"
proof (rule keepsI)
  fix s assume "I s"
  then have "I (snd (n (snd (m s))))" using assms by (simp add: keeps_def)
  then show "I (snd (pfinally m n s))"
    by (simp add: pfinally_def case_prod_unfold split: sum.split)
qed

lemma keeps_pfor [keeps_rules]: "(\<And>x. keeps I (body x)) \<Longrightarrow> keeps I (pfor xs body)"
  unfolding keeps_triple by (rule triple_pfor)

lemma keeps_pmap [keeps_rules]: "(\<And>x. keeps I (f x)) \<Longrightarrow> keeps I (pmap f xs)"
  by (induction xs) (auto intro!: keeps_rules)

lemma keeps_if [keeps_rules]: "keeps I m \<Longrightarrow> keeps I n \<Longrightarrow> keeps I (if b then m else n)"
  by simp

lemma keeps_case [keeps_rules]:
  "(\<And>x y. keeps I (f x y)) \<Longrightarrow> keeps I (case p of (x, y) \<Rightarrow> f x y)"
  "keeps I n \<Longrightarrow> (\<And>x. keeps I (g x)) \<Longrightarrow> keeps I (case opt of None \<Rightarrow> n | Some x \<Rightarrow> g x)"
  by (auto split: prod.split option.split)

lemma keeps_Let [keeps_rules]: "(\<And>x. keeps I (f x)) \<Longrightarrow> keeps I (Let t f)"
  by simp

text \<open>A modification that a check guards, and a program that runs under a condition.\<close>

lemma keeps_under:
  assumes "\<And>s. I s \<Longrightarrow> P s \<Longrightarrow> I (snd (m s))" "\<And>s. \<not> P s \<Longrightarrow> snd (m s) = s"
  shows "keeps I m"
  by (rule keepsI) (metis assms)

end
