(* ===== verification/Py_Float.thy ===== *)
theory Py_Float
  imports Prelude
begin

text \<open>
  Python's floats: IEEE binary64 with rounding to the nearest, ties to even. A finite float is the
  rational number it denotes (the sign of zero, which no code here observes, is not kept); every
  operation computes the exact rational result and rounds it with \<open>fl\<close>. \<open>round\<close>, \<open>int\<close> and \<open>%\<close>
  follow the language's definitions, the exceptions for infinities and NaN included.
\<close>

section \<open>Rounding\<close>

fun nbits :: "nat \<Rightarrow> nat" where
  "nbits n = (if n = 0 then 0 else Suc (nbits (n div 2)))"

declare nbits.simps [simp del]

definition pow2 :: "int \<Rightarrow> rat" where
  "pow2 e = (if 0 \<le> e then 2 ^ nat e else 1 / 2 ^ nat (- e))"

text \<open>The binary exponent of a positive number.\<close>

definition floor_log2 :: "rat \<Rightarrow> int" where
  "floor_log2 x = (if 1 \<le> x then int (nbits (nat \<lfloor>x\<rfloor>)) - 1 else - int (nbits (nat (\<lceil>1 / x\<rceil> - 1))))"

definition round_half_even :: "rat \<Rightarrow> int" where
  "round_half_even x =
     (let f = \<lfloor>x\<rfloor>; d = x - of_int f in
      if d < 1 / 2 then f else if d > 1 / 2 then f + 1 else if even f then f else f + 1)"

datatype pyfloat = Fin rat | PInf | NInf | NaN

definition fl_exponent :: "rat \<Rightarrow> int" where
  "fl_exponent x = max (floor_log2 \<bar>x\<bar> - 52) (- 1074)"

definition fl :: "rat \<Rightarrow> pyfloat" where
  "fl x =
     (if x = 0 then Fin 0
      else let p = pow2 (fl_exponent x); r = of_int (round_half_even (x / p)) * p in
        if r \<ge> 2 ^ 1024 then PInf else if r \<le> - (2 ^ 1024) then NInf else Fin r)"

section \<open>Operations\<close>

fun fadd :: "pyfloat \<Rightarrow> pyfloat \<Rightarrow> pyfloat" where
  "fadd (Fin x) (Fin y) = fl (x + y)"
| "fadd NaN _ = NaN"
| "fadd _ NaN = NaN"
| "fadd PInf NInf = NaN"
| "fadd NInf PInf = NaN"
| "fadd PInf _ = PInf"
| "fadd _ PInf = PInf"
| "fadd NInf _ = NInf"
| "fadd _ NInf = NInf"

fun fneg :: "pyfloat \<Rightarrow> pyfloat" where
  "fneg (Fin x) = Fin (- x)"
| "fneg PInf = NInf"
| "fneg NInf = PInf"
| "fneg NaN = NaN"

definition fsub :: "pyfloat \<Rightarrow> pyfloat \<Rightarrow> pyfloat" where
  "fsub a b = fadd a (fneg b)"

text \<open>Multiplication and division by a positive finite constant, the only ones the code uses.\<close>

fun fscale :: "pyfloat \<Rightarrow> rat \<Rightarrow> pyfloat" where
  "fscale (Fin x) c = fl (x * c)"
| "fscale a c = a"

fun fdivc :: "pyfloat \<Rightarrow> rat \<Rightarrow> pyfloat" where
  "fdivc (Fin x) c = fl (x / c)"
| "fdivc a c = a"

text \<open>The general product.\<close>

fun finf :: "bool \<Rightarrow> pyfloat" where
  "finf True = PInf"
| "finf False = NInf"

fun fmul :: "pyfloat \<Rightarrow> pyfloat \<Rightarrow> pyfloat" where
  "fmul (Fin x) (Fin y) = fl (x * y)"
| "fmul NaN _ = NaN"
| "fmul _ NaN = NaN"
| "fmul (Fin x) b = (if x = 0 then NaN else finf ((0 < x) = (b = PInf)))"
| "fmul a (Fin y) = (if y = 0 then NaN else finf ((0 < y) = (a = PInf)))"
| "fmul a b = finf (a = b)"

definition trunc :: "rat \<Rightarrow> int" where
  "trunc x = (if 0 \<le> x then \<lfloor>x\<rfloor> else \<lceil>x\<rceil>)"

text \<open>\<open>x % c\<close> for a positive finite constant \<open>c\<close>: the exact C remainder, moved into \<open>[0, c]\<close>.\<close>

fun fmodc :: "pyfloat \<Rightarrow> rat \<Rightarrow> pyfloat" where
  "fmodc (Fin x) c = (let m = x - c * of_int (trunc (x / c)) in if m < 0 then fl (m + c) else Fin m)"
| "fmodc _ c = NaN"

fun py_round :: "pyfloat \<Rightarrow> int result" where
  "py_round (Fin x) = Inr (round_half_even x)"
| "py_round NaN = Inl ValueError"
| "py_round _ = Inl OverflowError"

fun py_int :: "pyfloat \<Rightarrow> int result" where
  "py_int (Fin x) = Inr (trunc x)"
| "py_int NaN = Inl ValueError"
| "py_int _ = Inl OverflowError"

fun fle :: "pyfloat \<Rightarrow> pyfloat \<Rightarrow> bool" where
  "fle (Fin x) (Fin y) \<longleftrightarrow> x \<le> y"
| "fle NaN _ \<longleftrightarrow> False"
| "fle _ NaN \<longleftrightarrow> False"
| "fle NInf _ \<longleftrightarrow> True"
| "fle _ PInf \<longleftrightarrow> True"
| "fle _ _ \<longleftrightarrow> False"

definition flt :: "pyfloat \<Rightarrow> pyfloat \<Rightarrow> bool" where
  "flt a b \<longleftrightarrow> fle a b \<and> \<not> fle b a"

fun isfinite :: "pyfloat \<Rightarrow> bool" where
  "isfinite (Fin _) \<longleftrightarrow> True"
| "isfinite _ \<longleftrightarrow> False"

text \<open>A number handed to \<open>float()\<close> or \<open>int()\<close>: an int or a float.\<close>

datatype pynum = NInt int | NFloat pyfloat

fun to_float :: "pynum \<Rightarrow> pyfloat result" where
  "to_float (NFloat f) = Inr f"
| "to_float (NInt n) = (if isfinite (fl (of_int n)) then Inr (fl (of_int n)) else Inl OverflowError)"

fun to_int :: "pynum \<Rightarrow> int result" where
  "to_int (NInt n) = Inr n"
| "to_int (NFloat f) = py_int f"

section \<open>Bounds\<close>

lemma nbits_bound: "n < 2 ^ k \<Longrightarrow> nbits n \<le> k"
proof (induction k arbitrary: n)
  case 0
  then show ?case by (simp add: nbits.simps)
next
  case (Suc k)
  then have "n div 2 < 2 ^ k" by (simp add: less_mult_imp_div_less)
  with Suc.IH show ?case by (cases "n = 0") (simp_all add: nbits.simps [of n] nbits.simps [of 0])
qed

lemma round_half_even_le: "x \<le> of_int b \<Longrightarrow> round_half_even x \<le> b"
proof -
  assume x: "x \<le> of_int b"
  have f: "\<lfloor>x\<rfloor> \<le> b" using x by linarith
  show ?thesis
  proof (cases "\<lfloor>x\<rfloor> = b")
    case True
    then have "x - of_int \<lfloor>x\<rfloor> \<le> 0" using x by simp
    then show ?thesis using True by (simp add: round_half_even_def Let_def)
  next
    case False
    then show ?thesis using f by (simp add: round_half_even_def Let_def)
  qed
qed

lemma round_half_even_ge: "of_int b \<le> x \<Longrightarrow> b \<le> round_half_even x"
proof -
  assume "of_int b \<le> x"
  then have "b \<le> \<lfloor>x\<rfloor>" by (simp add: le_floor_iff)
  then show ?thesis by (simp add: round_half_even_def Let_def)
qed

lemma round_half_even_int [simp]: "round_half_even (of_int n) = n"
  by (simp add: round_half_even_def)

lemma pow2_pos: "0 < pow2 e"
  by (simp add: pow2_def)

lemma fl_exponent_small:
  assumes "\<bar>x\<bar> \<le> of_int b" "b < 2 ^ 52" "x \<noteq> 0"
  shows "fl_exponent x \<le> 0"
proof -
  have "floor_log2 \<bar>x\<bar> \<le> 52"
  proof (cases "1 \<le> \<bar>x\<bar>")
    case True
    have "\<lfloor>\<bar>x\<bar>\<rfloor> \<le> b" using assms(1) by linarith
    then have "\<lfloor>\<bar>x\<bar>\<rfloor> < int (2 ^ 52)" unfolding of_nat_power of_nat_numeral using assms(2) by (rule le_less_trans)
    moreover have "0 \<le> \<lfloor>\<bar>x\<bar>\<rfloor>" by simp
    ultimately have "nat \<lfloor>\<bar>x\<bar>\<rfloor> < 2 ^ 52" by (simp only: nat_less_iff)
    then have "nbits (nat \<lfloor>\<bar>x\<bar>\<rfloor>) \<le> 52" by (rule nbits_bound)
    with True show ?thesis by (simp add: floor_log2_def)
  qed (simp add: floor_log2_def)
  then show ?thesis by (simp add: fl_exponent_def)
qed

text \<open>Rounding a number of moderate size never crosses an integer.\<close>

lemma fl_bounds:
  assumes "of_int a \<le> x" "x \<le> of_int b" "- (2 ^ 52) < a" "b < 2 ^ 52"
  obtains r where "fl x = Fin r" "of_int a \<le> r" "r \<le> of_int b"
proof (cases "x = 0")
  case True
  then show thesis using that assms by (simp add: fl_def)
next
  case False
  define m where "m = max (- a) b"
  have m: "\<bar>x\<bar> \<le> of_int m" "m < 2 ^ 52"
    using assms unfolding m_def by (auto simp: abs_le_iff le_max_iff_disj of_int_max)
  define k where "k = nat (- fl_exponent x)"
  have p: "pow2 (fl_exponent x) = 1 / 2 ^ k"
    using fl_exponent_small [OF m False] by (auto simp: pow2_def k_def)
  define q where "q = round_half_even (x * 2 ^ k)"
  have "of_int a * 2 ^ k \<le> x * 2 ^ k" "x * 2 ^ k \<le> of_int b * 2 ^ k"
    using assms by (simp_all add: mult_right_mono)
  then have q: "a * 2 ^ k \<le> q" "q \<le> b * 2 ^ k"
    unfolding q_def by (auto intro!: round_half_even_ge round_half_even_le)
  have "of_int (a * 2 ^ k) \<le> (of_int q :: rat)" "(of_int q :: rat) \<le> of_int (b * 2 ^ k)"
    using q by (simp_all only: of_int_le_iff)
  then have r: "of_int a \<le> of_int q / (2 ^ k :: rat)" "of_int q / (2 ^ k :: rat) \<le> of_int b"
    by (simp_all add: le_divide_eq divide_le_eq)
  have "(2 ^ 52 :: rat) \<le> 2 ^ 1024" by (rule power_increasing) simp_all
  moreover have "of_int b < (of_int (2 ^ 52) :: rat)" "of_int (- (2 ^ 52)) < (of_int a :: rat)"
    using assms(3,4) by (simp_all only: of_int_less_iff)
  then have "of_int b < (2 ^ 52 :: rat)" "- (2 ^ 52 :: rat) < of_int a"
    by (simp_all only: of_int_power of_int_minus of_int_numeral)
  ultimately have "\<not> 2 ^ 1024 \<le> of_int q / (2 ^ k :: rat)" "\<not> of_int q / (2 ^ k :: rat) \<le> - (2 ^ 1024)"
    using r by linarith+
  then have "fl x = Fin (of_int q / 2 ^ k)"
    unfolding fl_def Let_def p using False by (simp add: q_def)
  then show thesis by (rule that) (rule r)+
qed

lemma fl_int: "\<bar>n\<bar> < 2 ^ 52 \<Longrightarrow> fl (of_int n) = Fin (of_int n)"
proof -
  assume n: "\<bar>n\<bar> < 2 ^ 52"
  obtain r where "fl (of_int n) = Fin r" "of_int n \<le> r" "r \<le> of_int n"
    by (rule fl_bounds [of n "of_int n" n]) (use n in auto)
  then show ?thesis by simp
qed

lemma fl_numeral [simp]:
  "fl 0 = Fin 0" "fl 1 = Fin 1"
  "(numeral k :: int) < 2 ^ 52 \<Longrightarrow> fl (numeral k) = Fin (numeral k)"
  "(numeral k :: int) < 2 ^ 52 \<Longrightarrow> fl (- numeral k) = Fin (- numeral k)"
  using fl_int [of 1] fl_int [of "numeral k"] fl_int [of "- numeral k"] by (simp_all add: fl_def [of 0])

lemma round_half_even_numeral [simp]:
  "round_half_even 0 = 0" "round_half_even 1 = 1"
  "round_half_even (numeral k) = numeral k" "round_half_even (- numeral k) = - numeral k"
  using round_half_even_int [of 0] round_half_even_int [of 1] round_half_even_int [of "numeral k"]
    round_half_even_int [of "- numeral k"] by simp_all

lemma fmodc_bounds:
  assumes "0 < b" "b < 2 ^ 51"
  obtains "fmodc f (of_int b) = NaN" | m where "fmodc f (of_int b) = Fin m" "0 \<le> m" "m \<le> of_int b"
proof (cases f)
  case (Fin x)
  define t where "t = trunc (x / of_int b)"
  define m where "m = x - of_int b * of_int t"
  have b: "(0 :: rat) < of_int b" using assms(1) by simp
  have mb: "- of_int b < m \<and> m < of_int b"
  proof (cases "0 \<le> x / of_int b")
    case True
    then have "of_int t \<le> x / of_int b" "x / of_int b < of_int t + 1"
      using floor_correct [of "x / of_int b"] by (simp_all add: t_def trunc_def)
    then have "of_int t * of_int b \<le> x" "x < (of_int t + 1) * of_int b"
      using b by (simp_all add: le_divide_eq divide_less_eq)
    then show ?thesis using b unfolding m_def by (simp add: algebra_simps)
  next
    case False
    then have "x / of_int b \<le> of_int t" "of_int t - 1 < x / of_int b"
      using ceiling_correct [of "x / of_int b"] by (simp_all add: t_def trunc_def)
    then have "x \<le> of_int t * of_int b" "(of_int t - 1) * of_int b < x"
      using b by (simp_all add: less_divide_eq divide_le_eq)
    then show ?thesis using b unfolding m_def by (simp add: algebra_simps)
  qed
  show thesis
  proof (cases "m < 0")
    case True
    obtain r where "fl (m + of_int b) = Fin r" "of_int 0 \<le> r" "r \<le> of_int b"
      by (rule fl_bounds [of 0 "m + of_int b" b]) (use mb True assms in auto)
    then show thesis using that(2) [of r] True by (simp add: Fin m_def t_def Let_def)
  next
    case False
    then show thesis using that(2) [of m] mb by (simp add: Fin m_def t_def Let_def)
  qed
qed (use that(1) in simp_all)

section \<open>Rounding errors\<close>

lemma round_half_even_error: "\<bar>of_int (round_half_even x) - x\<bar> \<le> 1 / 2"
proof -
  have f: "of_int \<lfloor>x\<rfloor> \<le> x" "x < of_int \<lfloor>x\<rfloor> + 1" using floor_correct [of x] by simp_all
  show ?thesis
  proof (cases "x - of_int \<lfloor>x\<rfloor> < 1 / 2")
    case True
    then show ?thesis using f by (simp add: round_half_even_def Let_def abs_le_iff)
  next
    case False
    then show ?thesis using f by (auto simp: round_half_even_def Let_def abs_le_iff)
  qed
qed

lemma floor_log2_less:
  assumes "0 < x" "x < 2 ^ k" "1 \<le> k"
  shows "floor_log2 x \<le> int k - 1"
proof (cases "1 \<le> x")
  case True
  have "\<lfloor>x\<rfloor> < 2 ^ k" using assms(2) by (simp add: floor_less_iff)
  then have "nat \<lfloor>x\<rfloor> < 2 ^ k" by (simp add: nat_less_iff True)
  then have "nbits (nat \<lfloor>x\<rfloor>) \<le> k" by (rule nbits_bound)
  then show ?thesis using True by (simp add: floor_log2_def)
next
  case False
  then show ?thesis using assms(3) by (simp add: floor_log2_def)
qed

text \<open>A number below \<open>2^k\<close> is rounded by at most \<open>2^k / 2^53\<close>.\<close>

lemma fl_error:
  assumes "\<bar>x\<bar> < 2 ^ k" "1 \<le> k" "k < 52"
  obtains r where "fl x = Fin r" "x - 2 ^ k / 2 ^ 53 \<le> r" "r \<le> x + 2 ^ k / 2 ^ 53"
proof (cases "x = 0")
  case True
  then show thesis using that [of 0] by simp
next
  case False
  define e where "e = fl_exponent x"
  have "floor_log2 \<bar>x\<bar> \<le> int k - 1" by (rule floor_log2_less) (use assms False in simp_all)
  then have e: "e \<le> int k - 53" unfolding e_def fl_exponent_def using assms(3) by simp
  then have neg: "\<not> 0 \<le> e" "53 - k \<le> nat (- e)" using assms(3) by linarith+
  have "(2 ^ (53 - k) :: rat) \<le> 2 ^ nat (- e)" by (rule power_increasing [OF neg(2)]) simp
  then have "pow2 e \<le> 1 / 2 ^ (53 - k)" using neg(1) by (simp add: pow2_def frac_le)
  also have "(1 :: rat) / 2 ^ (53 - k) = 2 ^ k / 2 ^ 53" using assms(3) by (simp add: power_diff)
  finally have p: "pow2 e \<le> 2 ^ k / 2 ^ 53" .
  have pp: "0 < pow2 e" by (rule pow2_pos)
  have "(2 :: int) ^ k < 2 ^ 52" using assms(3) by (intro power_strict_increasing) simp_all
  then have b: "- (2 ^ 52) < - ((2 :: int) ^ k)" "(2 :: int) ^ k < 2 ^ 52" by linarith+
  obtain r where r: "fl x = Fin r"
    by (rule fl_bounds [OF _ _ b, of x]) (use assms(1) in \<open>simp_all add: abs_less_iff\<close>)
  then have rd: "r = of_int (round_half_even (x / pow2 e)) * pow2 e"
    using False unfolding fl_def Let_def e_def by (simp split: if_splits)
  have "\<bar>of_int (round_half_even (x / pow2 e)) - x / pow2 e\<bar> * pow2 e \<le> 1 / 2 * pow2 e"
    by (rule mult_right_mono [OF round_half_even_error]) (use pp in simp)
  moreover have "\<bar>of_int (round_half_even (x / pow2 e)) - x / pow2 e\<bar> * pow2 e = \<bar>r - x\<bar>"
  proof -
    have "\<bar>of_int (round_half_even (x / pow2 e)) - x / pow2 e\<bar> * pow2 e =
      \<bar>(of_int (round_half_even (x / pow2 e)) - x / pow2 e) * pow2 e\<bar>"
      using pp by (simp add: abs_mult)
    also have "(of_int (round_half_even (x / pow2 e)) - x / pow2 e) * pow2 e = r - x"
      using pp by (simp add: rd left_diff_distrib)
    finally show ?thesis .
  qed
  ultimately have "\<bar>r - x\<bar> \<le> 2 ^ k / 2 ^ 53" using p pp by linarith
  then have "x - 2 ^ k / 2 ^ 53 \<le> r" "r \<le> x + 2 ^ k / 2 ^ 53" by (simp_all only: abs_le_iff) linarith+
  then show thesis by (rule that [OF r])
qed

text \<open>Rounding to an integer absorbs an error below one half.\<close>

lemma round_near_int:
  assumes "of_int a - 1 / 2 < x" "x < of_int b + 1 / 2"
  shows "a \<le> round_half_even x" "round_half_even x \<le> b"
proof -
  have "\<bar>of_int (round_half_even x) - x\<bar> \<le> 1 / 2" by (rule round_half_even_error)
  then have "of_int a - 1 < (of_int (round_half_even x) :: rat)" "(of_int (round_half_even x) :: rat) < of_int b + 1"
    using assms by linarith+
  then have "(of_int (a - 1) :: rat) < of_int (round_half_even x)" "(of_int (round_half_even x) :: rat) < of_int (b + 1)"
    by simp_all
  then show "a \<le> round_half_even x" "round_half_even x \<le> b" by (simp_all only: of_int_less_iff)
qed

section \<open>Rounding is monotone\<close>

lemma nbits_lower: "0 < n \<Longrightarrow> 2 ^ (nbits n - 1) \<le> n"
proof (induction n rule: nbits.induct)
  case (1 n)
  show ?case
  proof (cases "n div 2 = 0")
    case True
    then show ?thesis using "1.prems" by (simp add: nbits.simps [of n] nbits.simps [of 0])
  next
    case False
    then have "2 ^ (nbits (n div 2) - 1) \<le> n div 2" using "1.IH" "1.prems" by simp
    moreover have "0 < nbits (n div 2)" using False by (simp add: nbits.simps [of "n div 2"])
    ultimately have "2 ^ nbits (n div 2) \<le> n div 2 * 2"
      by (cases "nbits (n div 2)") simp_all
    also have "\<dots> \<le> n" by (simp add: div_mult2_eq)
    finally show ?thesis using "1.prems" by (simp add: nbits.simps [of n])
  qed
qed

lemma nbits_upper: "n < 2 ^ nbits n"
proof (induction n rule: nbits.induct)
  case (1 n)
  show ?case
  proof (cases "n = 0")
    case False
    then have "n div 2 < 2 ^ nbits (n div 2)" by (rule "1.IH")
    then have "n < 2 * 2 ^ nbits (n div 2)" by linarith
    with False show ?thesis by (simp add: nbits.simps [of n])
  qed (simp add: nbits.simps [of 0])
qed

lemma pow2_Suc: "pow2 (e + 1) = 2 * pow2 e"
proof -
  consider "0 \<le> e" | "e = - 1" | "e < - 1" by linarith
  then show ?thesis
  proof cases
    case 1
    then have "nat (e + 1) = Suc (nat e)" by simp
    with 1 show ?thesis by (simp add: pow2_def)
  next
    case 3
    then have "nat (- e) = Suc (nat (- (e + 1)))" by simp
    with 3 show ?thesis by (simp add: pow2_def)
  qed (simp add: pow2_def)
qed

lemma pow2_mono: "a \<le> b \<Longrightarrow> pow2 a \<le> pow2 b"
proof (induction b rule: int_ge_induct)
  case (step i)
  then show ?case using pow2_pos [of i] by (simp add: pow2_Suc)
qed simp

lemma pow2_add: "pow2 (a + b) = pow2 a * pow2 b" if "0 \<le> b"
  using that
proof (induction b rule: int_ge_induct)
  case (step i)
  then show ?case by (simp add: pow2_Suc add.assoc [symmetric])
qed (simp add: pow2_def)

lemma pow2_nat: "pow2 (int n) = 2 ^ n"
  by (simp add: pow2_def)

lemma pow2_neg_nat: "pow2 (- int n) = 1 / 2 ^ n"
  by (cases "n = 0") (simp_all add: pow2_def)

lemma floor_log2_bounds:
  assumes "0 < x"
  shows "pow2 (floor_log2 x) \<le> x" "x < pow2 (floor_log2 x + 1)"
proof -
  have both: "pow2 (floor_log2 x) \<le> x \<and> x < pow2 (floor_log2 x + 1)"
  proof (cases "1 \<le> x")
    case True
    define m where "m = nat \<lfloor>x\<rfloor>"
    have m: "0 < m" "of_nat m \<le> x" "x < of_nat m + 1"
      using True floor_correct [of x] by (simp_all add: m_def of_nat_nat)
    have nb: "0 < nbits m" using m(1) by (simp add: nbits.simps [of m])
    have "(2 :: rat) ^ (nbits m - 1) \<le> of_nat m"
      using nbits_lower [OF m(1)] by (metis of_nat_le_iff of_nat_numeral of_nat_power)
    moreover have "(of_nat m + 1 :: rat) \<le> 2 ^ nbits m"
      using nbits_upper [of m] by (metis Suc_leI of_nat_Suc of_nat_le_iff of_nat_numeral of_nat_power add.commute)
    moreover have "pow2 (floor_log2 x) = 2 ^ (nbits m - 1)"
      using True nb by (simp add: floor_log2_def m_def [symmetric] pow2_nat [symmetric] of_nat_diff)
    moreover have "pow2 (floor_log2 x + 1) = 2 ^ nbits m"
      using True by (simp add: floor_log2_def m_def [symmetric] pow2_nat)
    ultimately show ?thesis using m by linarith
  next
    case False
    define m where "m = nat (\<lceil>1 / x\<rceil> - 1)"
    have inv: "1 < 1 / x" using False assms by simp
    have "of_int \<lceil>1 / x\<rceil> - 1 < 1 / x" "1 / x \<le> of_int \<lceil>1 / x\<rceil>" using ceiling_correct [of "1 / x"] by simp_all
    moreover have "1 < \<lceil>1 / x\<rceil>" using inv by (simp add: less_ceiling_iff)
    moreover have "of_nat m = (of_int (\<lceil>1 / x\<rceil> - 1) :: rat)"
      unfolding m_def by (rule of_nat_nat) (use \<open>1 < \<lceil>1 / x\<rceil>\<close> in linarith)
    then have "of_nat m = (of_int \<lceil>1 / x\<rceil> - 1 :: rat)" by (simp only: of_int_diff of_int_1)
    ultimately have m: "0 < m" "of_nat m < 1 / x" "1 / x \<le> of_nat m + 1"
      unfolding m_def by linarith+
    have nb: "0 < nbits m" using m(1) by (simp add: nbits.simps [of m])
    have lo: "(2 :: rat) ^ (nbits m - 1) \<le> of_nat m"
      using nbits_lower [OF m(1)] by (metis of_nat_le_iff of_nat_numeral of_nat_power)
    have hi: "(of_nat m + 1 :: rat) \<le> 2 ^ nbits m"
      using nbits_upper [of m] by (metis Suc_leI of_nat_Suc of_nat_le_iff of_nat_numeral of_nat_power add.commute)
    have f: "floor_log2 x = - int (nbits m)" using False by (simp add: floor_log2_def m_def)
    have "floor_log2 x + 1 = - int (nbits m - 1)" using nb f by (simp add: of_nat_diff)
    then have p: "pow2 (floor_log2 x) = 1 / 2 ^ nbits m" "pow2 (floor_log2 x + 1) = 1 / 2 ^ (nbits m - 1)"
      unfolding f by (simp_all only: pow2_neg_nat)
    have "1 / x \<le> 2 ^ nbits m" using m(3) hi by linarith
    then have "1 / 2 ^ nbits m \<le> x" using assms by (simp add: field_simps)
    moreover have "2 ^ (nbits m - 1) < 1 / x" using m(2) lo by linarith
    then have "x < 1 / 2 ^ (nbits m - 1)" using assms by (simp add: field_simps)
    ultimately show ?thesis unfolding p by simp
  qed
  from both show "pow2 (floor_log2 x) \<le> x" "x < pow2 (floor_log2 x + 1)" by simp_all
qed

lemma pow2_less_cancel: "pow2 a < pow2 b \<Longrightarrow> a < b"
  using pow2_mono [of b a] by linarith

lemma floor_log2_mono:
  assumes "0 < x" "x \<le> y"
  shows "floor_log2 x \<le> floor_log2 y"
proof -
  have "pow2 (floor_log2 x) < pow2 (floor_log2 y + 1)"
    using floor_log2_bounds(1) [of x] floor_log2_bounds(2) [of y] assms by linarith
  then show ?thesis using pow2_less_cancel by fastforce
qed

lemma round_half_even_mono:
  assumes "x \<le> y"
  shows "round_half_even x \<le> round_half_even y"
proof (cases "\<lfloor>x\<rfloor> = \<lfloor>y\<rfloor>")
  case True
  then show ?thesis using assms by (auto simp: round_half_even_def Let_def)
next
  case False
  then have "\<lfloor>x\<rfloor> + 1 \<le> \<lfloor>y\<rfloor>" using floor_mono [OF assms] by linarith
  moreover have "round_half_even x \<le> \<lfloor>x\<rfloor> + 1" "\<lfloor>y\<rfloor> \<le> round_half_even y"
    by (simp_all add: round_half_even_def Let_def)
  ultimately show ?thesis by linarith
qed

text \<open>The value a finite non-negative number is rounded to.\<close>

definition fl_grid :: "rat \<Rightarrow> rat" where
  "fl_grid x = (if x = 0 then 0 else of_int (round_half_even (x / pow2 (fl_exponent x))) * pow2 (fl_exponent x))"

lemma fl_grid: "fl x = Fin r \<Longrightarrow> r = fl_grid x"
  by (auto simp: fl_def fl_grid_def Let_def split: if_splits)

lemma fl_grid_nonneg: "0 \<le> x \<Longrightarrow> 0 \<le> fl_grid x"
proof -
  assume "0 \<le> x"
  then have "0 \<le> x / pow2 (fl_exponent x)" using pow2_pos by (simp add: zero_le_divide_iff less_imp_le)
  then have "0 \<le> round_half_even (x / pow2 (fl_exponent x))" using round_half_even_ge [of 0] by simp
  then show ?thesis using pow2_pos [of "fl_exponent x"] by (simp add: fl_grid_def)
qed

lemma fl_grid_mono:
  assumes "0 \<le> x" "x \<le> y"
  shows "fl_grid x \<le> fl_grid y"
proof (cases "x = 0")
  case True
  then show ?thesis using assms fl_grid_nonneg [of y] by (simp add: fl_grid_def [of 0])
next
  case False
  then have pos: "0 < x" "0 < y" using assms by simp_all
  let ?e = "fl_exponent x" and ?e' = "fl_exponent y"
  have le: "?e \<le> ?e'" using floor_log2_mono [OF pos(1) assms(2)] pos by (simp add: fl_exponent_def)
  show ?thesis
  proof (cases "?e = ?e'")
    case True
    have "x / pow2 ?e \<le> y / pow2 ?e" using assms(2) pow2_pos [of ?e] by (simp add: divide_right_mono)
    then have "round_half_even (x / pow2 ?e) \<le> round_half_even (y / pow2 ?e)" by (rule round_half_even_mono)
    then show ?thesis using pos pow2_pos [of ?e'] True by (simp add: fl_grid_def mult_right_mono)
  next
    case False
    define g where "g = floor_log2 y"
    have e': "?e' = g - 52" and g: "floor_log2 x < g"
      using False le pos by (simp_all add: fl_exponent_def g_def max_def split: if_splits)
    have split: "pow2 g = pow2 52 * pow2 ?e'" "0 \<le> g - ?e"
      using pow2_add [of 52 "g - 52"] e' le False by (simp_all add: mult.commute)
    have top: "pow2 g = pow2 (g - ?e) * pow2 ?e"
      using pow2_add [OF split(2), of ?e] by (simp add: mult.commute)
    have int_pow: "pow2 (g - ?e) = of_int (2 ^ nat (g - ?e))" using split(2) by (simp add: pow2_def)
    have "x < pow2 (floor_log2 x + 1)" by (rule floor_log2_bounds [OF pos(1)])
    also have "\<dots> \<le> pow2 g" using g by (intro pow2_mono) simp
    finally have "x / pow2 ?e \<le> of_int (2 ^ nat (g - ?e))"
      using pow2_pos [of ?e] by (simp only: top int_pow [symmetric] divide_le_eq if_True less_imp_le)
    then have "round_half_even (x / pow2 ?e) \<le> 2 ^ nat (g - ?e)" by (rule round_half_even_le)
    then have "(of_int (round_half_even (x / pow2 ?e)) :: rat) \<le> pow2 (g - ?e)"
      unfolding int_pow by (simp only: of_int_le_iff)
    then have "fl_grid x \<le> pow2 g"
      unfolding top using pos pow2_pos [of ?e] by (simp add: fl_grid_def mult_right_mono)
    also have "pow2 g \<le> fl_grid y"
    proof -
      have "pow2 52 * pow2 ?e' \<le> y" using floor_log2_bounds(1) [OF pos(2)] split(1) by (simp add: g_def)
      then have "of_int (2 ^ 52) \<le> y / pow2 ?e'" using pow2_pos [of ?e'] by (simp add: pow2_def le_divide_eq)
      then have "2 ^ 52 \<le> round_half_even (y / pow2 ?e')" by (rule round_half_even_ge)
      then have "(of_int (2 ^ 52) :: rat) \<le> of_int (round_half_even (y / pow2 ?e'))" by (simp only: of_int_le_iff)
      then have "pow2 52 \<le> (of_int (round_half_even (y / pow2 ?e')) :: rat)" by (simp add: pow2_def)
      then show ?thesis using pos pow2_pos [of ?e'] by (simp add: split(1) fl_grid_def mult_right_mono)
    qed
    finally show ?thesis .
  qed
qed

lemma fl_mono: "0 \<le> x \<Longrightarrow> x \<le> y \<Longrightarrow> fl x = Fin a \<Longrightarrow> fl y = Fin b \<Longrightarrow> a \<le> b"
  using fl_grid_mono [of x y] fl_grid by blast

text \<open>Half-integers of moderate size are floats.\<close>

lemma fl_half:
  assumes "\<bar>n\<bar> < 2 ^ 51"
  shows "fl (of_int n / 2) = Fin (of_int n / 2)"
proof (cases "n = 0")
  case False
  let ?x = "of_int n / 2 :: rat"
  define e where "e = fl_exponent ?x"
  have n: "\<bar>of_int n :: rat\<bar> < 2 ^ 51"
    using assms by (metis of_int_abs of_int_less_iff of_int_numeral of_int_power)
  then have "\<bar>?x\<bar> < 2 ^ 50" by simp
  then have "floor_log2 \<bar>?x\<bar> \<le> int 50 - 1" by (rule floor_log2_less [rotated]) (use False in simp_all)
  then have e: "e \<le> - 1" by (simp add: e_def fl_exponent_def)
  define j where "j = nat (- e) - 1"
  have p: "pow2 e = 1 / (2 * 2 ^ j)"
  proof -
    have "nat (- e) = Suc j" using e by (simp add: j_def)
    then show ?thesis using e by (simp add: pow2_def)
  qed
  have "?x / pow2 e = of_int (n * 2 ^ j)" by (simp add: p)
  then have r: "of_int (round_half_even (?x / pow2 e)) * pow2 e = ?x"
    by (simp only: round_half_even_int) (simp add: p)
  have "(2 ^ 51 :: rat) \<le> 2 ^ 1024" by (rule power_increasing) simp_all
  then have "\<not> 2 ^ 1024 \<le> ?x" "\<not> ?x \<le> - (2 ^ 1024)" using n by linarith+
  moreover have "?x \<noteq> 0" using False by simp
  ultimately show ?thesis unfolding fl_def Let_def e_def [symmetric] r by (simp only: if_False)
qed simp

end
