(* ===== verification/Rf_Network.thy ===== *)
theory Rf_Network
  imports Rf_Protocol
begin

text \<open>
  Network identities in software/dr47/protocol.py: IPv4 and MAC addresses as text and as
  integers, the NETWORK_APPLY request and the NETWORK response. The library calls the code makes
  are written out: \<open>socket.inet_aton\<close> with the C library's reading of one to four decimal, octal
  or hexadecimal parts, \<open>socket.inet_ntoa\<close>, \<open>int(_, 16)\<close> with its sign, prefix, underscores
  and white space, and the \<open>"%x"\<close> formats. Text is a list of 8-bit characters.
\<close>

section \<open>Digits\<close>

definition ccode :: "char \<Rightarrow> nat" where "ccode c = of_char c"

definition digit_value :: "char \<Rightarrow> nat option" where
  "digit_value c =
     (let n = ccode c in
      if 48 \<le> n \<and> n \<le> 57 then Some (n - 48)
      else if 97 \<le> n \<and> n \<le> 102 then Some (n - 87)
      else if 65 \<le> n \<and> n \<le> 70 then Some (n - 55)
      else None)"

definition is_digit :: "nat \<Rightarrow> char \<Rightarrow> bool" where
  "is_digit base c = (case digit_value c of None \<Rightarrow> False | Some d \<Rightarrow> d < base)"

definition digits_value :: "nat \<Rightarrow> string \<Rightarrow> nat" where
  "digits_value base = foldl (\<lambda>acc c. acc * base + the (digit_value c)) 0"

definition is_space :: "char \<Rightarrow> bool" where
  "is_space c \<longleftrightarrow> ccode c = 32 \<or> (9 \<le> ccode c \<and> ccode c \<le> 13)"

text \<open>\<open>strtoul(s, &rest, 0)\<close> on a text that starts with a digit.\<close>

definition strtoul :: "string \<Rightarrow> nat \<times> string" where
  "strtoul s =
     (if take 1 s = ''0'' \<and> (take 1 (drop 1 s) = ''x'' \<or> take 1 (drop 1 s) = ''X'') \<and>
         (case drop 2 s of [] \<Rightarrow> False | c # _ \<Rightarrow> is_digit 16 c)
      then (digits_value 16 (takeWhile (is_digit 16) (drop 2 s)), dropWhile (is_digit 16) (drop 2 s))
      else if take 1 s = ''0''
      then (digits_value 8 (takeWhile (is_digit 8) s), dropWhile (is_digit 8) s)
      else (digits_value 10 (takeWhile (is_digit 10) s), dropWhile (is_digit 10) s))"

text \<open>\<open>inet_aton\<close>: \<open>k\<close> parts are already read into \<open>acc\<close>; \<open>fuel\<close> bounds the parts by four.\<close>

fun aton_parts :: "nat \<Rightarrow> nat \<Rightarrow> int \<Rightarrow> string \<Rightarrow> int option" where
  "aton_parts 0 k acc s = None"
| "aton_parts (Suc fuel) k acc s =
     (case s of
        [] \<Rightarrow> None
      | c # _ \<Rightarrow>
          if \<not> is_digit 10 c then None
          else let (v, rest) = strtoul s in
            if v > 0xFFFFFFFF then None
            else if take 1 rest = ''.'' then
                (if k > 2 \<or> v > 0xFF then None
                 else aton_parts fuel (k + 1) (acc + int v * 256 ^ (3 - k)) (tl rest))
            else
                (if (case rest of [] \<Rightarrow> True | d # _ \<Rightarrow> is_space d) \<and> v < 256 ^ (4 - k)
                 then Some (acc + int v) else None))"

definition inet_aton :: "string \<Rightarrow> int option" where
  "inet_aton s = aton_parts 4 0 0 s"

definition ipv4_u32 :: "string \<Rightarrow> int result" where
  "ipv4_u32 value =
     (if CHR 0x00 \<in> set value then Inl ValueError
      else case inet_aton value of None \<Rightarrow> Inl ParameterRangeError | Some v \<Rightarrow> Inr v)"

section \<open>Formatting\<close>

definition digit_char :: "nat \<Rightarrow> char" where
  "digit_char d = char_of (if d < 10 then 48 + d else 87 + d)"

fun dec_digits :: "nat \<Rightarrow> string" where
  "dec_digits n = (if n < 10 then [digit_char n] else dec_digits (n div 10) @ [digit_char (n mod 10)])"

declare dec_digits.simps [simp del]

text \<open>\<open>"%0kx"\<close> of a value below \<open>16^k\<close>.\<close>

fun hex_digits :: "nat \<Rightarrow> nat \<Rightarrow> string" where
  "hex_digits 0 n = []"
| "hex_digits (Suc k) n = hex_digits k (n div 16) @ [digit_char (n mod 16)]"

definition u32_ipv4 :: "int \<Rightarrow> string" where
  "u32_ipv4 value =
     (let v = nat (value AND 0xFFFFFFFF) in
      dec_digits (v div 16777216) @ ''.'' @ dec_digits (v div 65536 mod 256) @ ''.'' @
      dec_digits (v div 256 mod 256) @ ''.'' @ dec_digits (v mod 256))"

text \<open>\<open>":".join(raw[i:i+2] for i in range(0, 12, 2))\<close> on a text of twelve characters.\<close>

definition mac_join :: "string \<Rightarrow> string" where
  "mac_join raw = take 2 raw @ '':'' @ take 2 (drop 2 raw) @ '':'' @ take 2 (drop 4 raw) @ '':'' @
     take 2 (drop 6 raw) @ '':'' @ take 2 (drop 8 raw) @ '':'' @ take 2 (drop 10 raw)"

definition u64_mac :: "int \<Rightarrow> string" where
  "u64_mac value = mac_join (hex_digits 12 (nat (value AND 0xFFFFFFFFFFFF)))"

section \<open>MAC addresses\<close>

text \<open>\<open>int(_, 16)\<close>: digits with single underscores between them.\<close>

fun hex_scan :: "nat \<Rightarrow> bool \<Rightarrow> string \<Rightarrow> nat option" where
  "hex_scan acc prev_us [] = (if prev_us then None else Some acc)"
| "hex_scan acc prev_us (c # cs) =
     (if c = CHR ''_'' then (if prev_us then None else hex_scan acc True cs)
      else case digit_value c of None \<Rightarrow> None | Some d \<Rightarrow> hex_scan (acc * 16 + d) False cs)"

definition strip :: "string \<Rightarrow> string" where
  "strip s = rev (dropWhile is_space (rev (dropWhile is_space s)))"

definition drop_sign :: "string \<Rightarrow> bool \<times> string" where
  "drop_sign s =
     (if take 1 s = ''+'' then (False, tl s) else if take 1 s = ''-'' then (True, tl s) else (False, s))"

definition drop_hex_prefix :: "string \<Rightarrow> string" where
  "drop_hex_prefix s =
     (if take 2 s = ''0x'' \<or> take 2 s = ''0X''
      then (if take 1 (drop 2 s) = ''_'' then drop 3 s else drop 2 s) else s)"

definition int_base16 :: "string \<Rightarrow> int option" where
  "int_base16 s =
     (let (neg, r) = drop_sign (strip s); d = drop_hex_prefix r in
      case d of
        [] \<Rightarrow> None
      | c # _ \<Rightarrow>
          if c = CHR ''_'' then None
          else case hex_scan 0 False d of None \<Rightarrow> None | Some n \<Rightarrow> Some (if neg then - int n else int n))"

text \<open>\<open>str.lower\<close> on ASCII text.\<close>

definition lower_char :: "char \<Rightarrow> char" where
  "lower_char c = (if 65 \<le> ccode c \<and> ccode c \<le> 90 then char_of (ccode c + 32) else c)"

definition lower :: "string \<Rightarrow> string" where
  "lower s = map lower_char s"

text \<open>\<open>a or b\<close> on texts and numbers.\<close>

definition or_text :: "string \<Rightarrow> string \<Rightarrow> string" where
  "or_text a b = (if a = [] then b else a)"

definition or_int :: "int \<Rightarrow> int \<Rightarrow> int" where
  "or_int a b = (if a = 0 then b else a)"

definition mac_raw :: "string \<Rightarrow> string" where
  "mac_raw value = filter (\<lambda>c. c \<noteq> CHR '':'' \<and> c \<noteq> CHR ''-'') value"

definition mac_u64 :: "string \<Rightarrow> int result" where
  "mac_u64 value =
     (let raw = mac_raw value in
      guard_raise (length raw \<noteq> 12) ParameterRangeError (
      case int_base16 raw of
        None \<Rightarrow> Inl ParameterRangeError
      | Some n \<Rightarrow>
          let parsed = n AND 0xFFFFFFFFFFFF in
          guard_raise (parsed = 0 \<or> parsed = 0xFFFFFFFFFFFF \<or> drop_bit 40 parsed AND 1 \<noteq> 0)
            ParameterRangeError (Inr parsed)))"

section \<open>NETWORK_APPLY and the NETWORK response\<close>

abbreviation "network_apply_fmt \<equiv> [fI, fI, fQ, fI, fI, fH, fH, fI]"

definition pack_rfctrl2_network_apply ::
  "int \<Rightarrow> string \<Rightarrow> string \<Rightarrow> string \<Rightarrow> string \<Rightarrow> int \<Rightarrow> int \<Rightarrow> bytes result" where
  "pack_rfctrl2_network_apply revision ip mac subnet_mask gateway port seq =
     guard_raise (\<not> (1 \<le> port \<and> port \<le> 65535)) ParameterRangeError (
     ebind (ipv4_u32 ip) (\<lambda>ip. ebind (mac_u64 mac) (\<lambda>mac.
     ebind (ipv4_u32 subnet_mask) (\<lambda>subnet_mask. ebind (ipv4_u32 gateway) (\<lambda>gateway.
     ebind (struct_pack network_apply_fmt
       [revision AND 0xFFFFFFFF, ip, mac, subnet_mask, gateway, port, 0, 0]) (\<lambda>payload.
     pack_rfctrl2_packet RF2_OP_NETWORK_APPLY payload seq 0))))))"

definition RF2_NET_STATUS_HMC_DONE :: int where [simp, const_defs]: "RF2_NET_STATUS_HMC_DONE = 0x20"
definition RF2_NET_STATUS_SYNC_DONE :: int where [simp, const_defs]: "RF2_NET_STATUS_SYNC_DONE = 0x40"
definition NETWORK_RESPONSE_BYTES :: int where [simp, const_defs]: "NETWORK_RESPONSE_BYTES = 64"
definition NETWORK_EXT_RESPONSE_BYTES :: int where [simp, const_defs]: "NETWORK_EXT_RESPONSE_BYTES = 80"

record network_info =
  ni_device_uid :: string
  ni_current_ip :: string
  ni_current_mac :: string
  ni_bootstrap_ip :: string
  ni_revision :: int
  ni_port :: int
  ni_status_flags :: int
  ni_capabilities :: int
  ni_bootstrap_mac :: string
  ni_subnet_mask :: string
  ni_gateway :: string
  ni_link_state :: int
  ni_build_profile_id :: int
  ni_build_profile :: string
  ni_playback_state :: int
  ni_playback_armed :: bool
  ni_playback_prepared :: bool
  ni_playback_running :: bool
  ni_rfdc_config_valid_mask :: int
  ni_hmc_done :: bool
  ni_sync_done :: bool

definition network_defaults :: network_info where
  "network_defaults =
     \<lparr>ni_device_uid = [], ni_current_ip = [], ni_current_mac = [],
      ni_bootstrap_ip = ''192.168.254.254'', ni_revision = 0, ni_port = 1234,
      ni_status_flags = 0, ni_capabilities = 0, ni_bootstrap_mac = [],
      ni_subnet_mask = ''255.255.255.0'', ni_gateway = ''0.0.0.0'', ni_link_state = 0,
      ni_build_profile_id = RF2_BUILD_PROFILE_UNKNOWN, ni_build_profile = [],
      ni_playback_state = 0, ni_playback_armed = False, ni_playback_prepared = False,
      ni_playback_running = False, ni_rfdc_config_valid_mask = 0,
      ni_hmc_done = False, ni_sync_done = False\<rparr>"

text \<open>The words of the payload, and the flags computed from them at the end.\<close>

definition network_words :: "int list \<Rightarrow> network_info \<Rightarrow> network_info" where
  "network_words w r =
     r\<lparr>ni_device_uid := hex_digits 16 (nat (w ! 0)),
       ni_current_ip := u32_ipv4 (w ! 1 AND 0xFFFFFFFF),
       ni_bootstrap_ip := u32_ipv4 (drop_bit 32 (w ! 1) AND 0xFFFFFFFF),
       ni_current_mac := u64_mac (w ! 2),
       ni_revision := w ! 3 AND 0xFFFFFFFF,
       ni_port := drop_bit 32 (w ! 3) AND 0xFFFF,
       ni_link_state := drop_bit 48 (w ! 3) AND 0xFFFF,
       ni_capabilities := w ! 4 AND 0xFFFFFFFF,
       ni_status_flags := drop_bit 32 (w ! 4) AND 0xFFFFFFFF,
       ni_bootstrap_mac := u64_mac (w ! 5),
       ni_subnet_mask := u32_ipv4 (w ! 6),
       ni_gateway := u32_ipv4 (w ! 7)\<rparr>"

definition network_ext :: "int list \<Rightarrow> network_info \<Rightarrow> network_info" where
  "network_ext w r =
     (if length w \<ge> 10 then
        let profile = w ! 8 AND 0xFFFFFFFF in
        r\<lparr>ni_build_profile_id := profile, ni_build_profile := build_profile_name profile,
          ni_playback_state := drop_bit 32 (w ! 8) AND 0xFFFFFFFF,
          ni_rfdc_config_valid_mask := w ! 9 AND 0xFF\<rparr>
      else r)"

definition network_flags :: "network_info \<Rightarrow> network_info" where
  "network_flags r =
     r\<lparr>ni_playback_armed := ni_playback_state r AND RF2_STATUS_ARMED \<noteq> 0,
       ni_playback_prepared := ni_playback_state r AND RF2_STATUS_PREPARED \<noteq> 0,
       ni_playback_running := ni_playback_state r AND RF2_STATUS_RUNNING \<noteq> 0,
       ni_hmc_done := ni_status_flags r AND RF2_NET_STATUS_HMC_DONE \<noteq> 0,
       ni_sync_done := ni_status_flags r AND RF2_NET_STATUS_SYNC_DONE \<noteq> 0\<rparr>"

definition parse_rfctrl2_network_response :: "rf_response \<Rightarrow> network_info result" where
  "parse_rfctrl2_network_response response =
     (let payload = rsp_payload response; n = length payload in
      if payload = [] \<and> rsp_status response \<noteq> RF2_STATUS_OK then Inr network_defaults
      else guard_raise (int n \<notin> {NETWORK_RESPONSE_BYTES, NETWORK_EXT_RESPONSE_BYTES}) ProtocolError (
      ebind (struct_unpack (replicate (n div 8) fQ) payload) (\<lambda>w.
      Inr (network_flags (network_ext w (network_words w network_defaults))))))"

section \<open>Digits round trip\<close>

lemma ccode_char_of: "n < 256 \<Longrightarrow> ccode (char_of n) = n"
  by (simp add: ccode_def)

lemma digit_value_char: "d < 16 \<Longrightarrow> digit_value (digit_char d) = Some d"
  by (auto simp: digit_value_def digit_char_def ccode_char_of Let_def)

lemma is_digit_char: "d < 16 \<Longrightarrow> is_digit base (digit_char d) \<longleftrightarrow> d < base"
  by (simp add: is_digit_def digit_value_char)

lemma digits_value_snoc: "digits_value b (s @ [c]) = digits_value b s * b + the (digit_value c)"
  by (simp add: digits_value_def)

lemma digits_value_dec: "digits_value 10 (dec_digits n) = n"
proof (induction n rule: dec_digits.induct)
  case (1 n)
  then show ?case
    by (cases "n < 10") (simp_all add: dec_digits.simps [of n] digits_value_snoc digit_value_char,
      simp add: digits_value_def digit_value_char)
qed

lemma dec_digits_are_digits: "\<forall>c \<in> set (dec_digits n). is_digit 10 c"
proof (induction n rule: dec_digits.induct)
  case (1 n)
  then show ?case by (cases "n < 10") (simp_all add: dec_digits.simps [of n] is_digit_char)
qed

lemma dec_digits_head: "n \<noteq> 0 \<Longrightarrow> \<exists>d s. dec_digits n = digit_char d # s \<and> 0 < d \<and> d < 10"
proof (induction n rule: dec_digits.induct)
  case (1 n)
  show ?case
  proof (cases "n < 10")
    case True
    then show ?thesis using 1 by (auto simp: dec_digits.simps [of n])
  next
    case False
    then have "n div 10 \<noteq> 0" by simp
    with 1 False obtain d s where "dec_digits (n div 10) = digit_char d # s" "0 < d" "d < 10" by blast
    then show ?thesis using False by (auto simp: dec_digits.simps [of n])
  qed
qed

lemma char_of_ccode: "char_of (ccode c) = c"
  by (simp add: ccode_def)

lemma dec_digits_0: "dec_digits 0 = ''0''"
proof -
  have "char_of (ccode CHR ''0'') = char_of (48 :: nat)" by (simp add: ccode_def)
  then have "char_of (48 :: nat) = CHR ''0''" by (simp only: char_of_ccode)
  then show ?thesis by (simp add: dec_digits.simps digit_char_def)
qed

lemma digit_char_not_zero: "0 < d \<Longrightarrow> d < 10 \<Longrightarrow> digit_char d \<noteq> CHR ''0''"
proof
  assume d: "0 < d" "d < 10" and "digit_char d = CHR ''0''"
  then have "digit_value (digit_char d) = digit_value CHR ''0''" by simp
  with d show False by (simp add: digit_value_char) (simp add: digit_value_def ccode_def)
qed

text \<open>A text after which a number ends.\<close>

definition number_end :: "string \<Rightarrow> bool" where
  "number_end rest \<longleftrightarrow> (case rest of [] \<Rightarrow> True | c # _ \<Rightarrow> c = CHR ''.'')"

lemma number_end_digit: "number_end rest \<Longrightarrow> rest = [] \<or> \<not> is_digit b (hd rest)"
  by (auto simp: number_end_def is_digit_def digit_value_def ccode_def split: list.splits)

lemma take_while_digits:
  assumes "\<forall>c \<in> set ds. is_digit b c" "number_end rest"
  shows "takeWhile (is_digit b) (ds @ rest) = ds" "dropWhile (is_digit b) (ds @ rest) = rest"
  using assms number_end_digit [OF assms(2), of b] by (induction ds) (cases rest; auto)+

lemma strtoul_dec:
  assumes "number_end rest"
  shows "strtoul (dec_digits n @ rest) = (n, rest)"
proof (cases "n = 0")
  case True
  have x: "take 1 rest \<noteq> ''x''" "take 1 rest \<noteq> ''X''"
    using assms by (auto simp: number_end_def split: list.splits)
  have z: "\<forall>c \<in> set ''0''. is_digit 8 c" by (simp add: is_digit_def digit_value_def ccode_def)
  have "digits_value 8 ''0'' = 0" by (simp add: digits_value_def digit_value_def ccode_def)
  then show ?thesis
    using True x take_while_digits [OF z assms] by (simp add: strtoul_def dec_digits_0)
next
  case False
  then obtain d s where d: "dec_digits n = digit_char d # s" "0 < d" "d < 10" using dec_digits_head by blast
  have "take 1 (dec_digits n @ rest) \<noteq> ''0''" using d digit_char_not_zero by simp
  then show ?thesis
    using take_while_digits [OF dec_digits_are_digits assms] by (simp add: strtoul_def digits_value_dec)
qed

lemma dec_digits_hd_digit: "\<exists>c s. dec_digits n = c # s \<and> is_digit 10 c"
proof (cases "dec_digits n")
  case Nil
  then show ?thesis by (simp add: dec_digits.simps [of n] split: if_splits)
next
  case (Cons c s)
  then show ?thesis using dec_digits_are_digits [of n] by simp
qed

lemma aton_dot:
  assumes "n < 256" "k \<le> 2"
  shows "aton_parts (Suc f) k acc (dec_digits n @ CHR ''.'' # s) = aton_parts f (k + 1) (acc + int n * 256 ^ (3 - k)) s"
proof -
  obtain c r where c: "dec_digits n = c # r" "is_digit 10 c" using dec_digits_hd_digit by blast
  have "number_end (CHR ''.'' # s)" by (simp add: number_end_def)
  from strtoul_dec [OF this, of n] show ?thesis using assms c by simp
qed

lemma aton_last:
  assumes "n < 256" "k \<le> 3"
  shows "aton_parts (Suc f) k acc (dec_digits n) = Some (acc + int n)"
proof -
  obtain c r where c: "dec_digits n = c # r" "is_digit 10 c" using dec_digits_hd_digit by blast
  have "(256::nat) ^ 1 \<le> 256 ^ (4 - k)" by (rule power_increasing) (use assms(2) in simp_all)
  then have "n < 256 ^ (4 - k)" using assms(1) by simp
  moreover have "number_end []" by (simp add: number_end_def)
  note strtoul_dec [OF this, of n]
  ultimately show ?thesis using assms c by simp
qed

lemma zero_char_not_digit: "CHR 0x00 \<notin> set (dec_digits n)"
  using dec_digits_are_digits [of n] by (force simp: is_digit_def digit_value_def ccode_def)

lemma ipv4_bytes:
  assumes "a < 256" "b < 256" "c < 256" "d < 256"
  shows "ipv4_u32 (dec_digits a @ ''.'' @ dec_digits b @ ''.'' @ dec_digits c @ ''.'' @ dec_digits d) =
    Inr (int a * 16777216 + int b * 65536 + int c * 256 + int d)"
proof -
  have "inet_aton (dec_digits a @ ''.'' @ dec_digits b @ ''.'' @ dec_digits c @ ''.'' @ dec_digits d) =
      Some (int a * 16777216 + int b * 65536 + int c * 256 + int d)"
  proof -
    have "inet_aton s = aton_parts (Suc (Suc (Suc (Suc 0)))) 0 0 s" for s
      by (simp add: inet_aton_def eval_nat_numeral del: aton_parts.simps)
    then show ?thesis
      using assms by (simp add: aton_dot aton_last del: aton_parts.simps)
  qed
  then show ?thesis by (simp add: ipv4_u32_def zero_char_not_digit)
qed

lemma four_bytes:
  fixes n :: nat
  assumes "n = x * 256 + d" "x = y * 256 + c" "y = a * 256 + b"
  shows "int a * 16777216 + int b * 65536 + int c * 256 + int d = int n"
  unfolding assms by simp

lemma byte_split:
  fixes n :: nat
  shows "int (n div 16777216) * 16777216 + int (n div 65536 mod 256) * 65536 + int (n div 256 mod 256) * 256 +
    int (n mod 256) = int n"
proof (rule four_bytes)
  show "n = n div 256 * 256 + n mod 256" by simp
  show "n div 256 = n div 65536 * 256 + n div 256 mod 256"
    using div_mult_mod_eq [of "n div 256" 256] by (simp flip: div_mult2_eq)
  show "n div 65536 = n div 16777216 * 256 + n div 65536 mod 256"
    using div_mult_mod_eq [of "n div 65536" 256] by (simp flip: div_mult2_eq)
qed

text \<open>
  IPv4 addresses round trip: the text the driver prints for any 32-bit address is read back as
  that address, by every C library rule (leading zeros, octal and hexadecimal parts, short forms)
  that \<open>inet_aton\<close> applies.
\<close>

lemma ipv4_roundtrip:
  assumes "0 \<le> v" and "v < 2 ^ 32"
  shows "ipv4_u32 (u32_ipv4 v) = Inr v"
proof -
  let ?n = "nat v"
  have m: "nat (v AND 0xFFFFFFFF) = ?n" using assms by (simp add: and_mask_numerals)
  have n: "?n < 4294967296" using assms by simp
  then have "?n div 16777216 < 256" by (simp add: less_mult_imp_div_less)
  then have "ipv4_u32 (u32_ipv4 v) = Inr (int (?n div 16777216) * 16777216 + int (?n div 65536 mod 256) * 65536 +
      int (?n div 256 mod 256) * 256 + int (?n mod 256))"
    unfolding u32_ipv4_def Let_def m by (intro ipv4_bytes) simp_all
  then show ?thesis using assms by (simp only: byte_split) simp
qed

theorem ipv4_roundtrip_witness: "ipv4_u32 (u32_ipv4 0xC0A80180) = Inr 0xC0A80180"
  by (rule ipv4_roundtrip) simp_all

section \<open>MAC addresses round trip\<close>

lemma length_hex_digits [simp]: "length (hex_digits k n) = k"
  by (induction k arbitrary: n) simp_all

lemma hex_digits_digits: "c \<in> set (hex_digits k n) \<Longrightarrow> \<exists>d < 16. c = digit_char d"
proof (induction k arbitrary: n)
  case (Suc k)
  have "n mod 16 < 16" by simp
  moreover have "c \<in> set (hex_digits k (n div 16)) \<or> c = digit_char (n mod 16)" using Suc.prems by auto
  ultimately show ?case using Suc.IH by blast
qed simp

lemma digit_char_code: "d < 16 \<Longrightarrow> ccode (digit_char d) = (if d < 10 then 48 + d else 87 + d)"
  by (simp add: digit_char_def ccode_char_of)

lemma ccode_eq_iff: "c = d \<longleftrightarrow> ccode c = ccode d"
  by (metis char_of_ccode)

lemma digit_char_plain:
  assumes "d < 16" "c \<in> set '':-_+xX ''"
  shows "digit_char d \<noteq> c"
proof
  assume "digit_char d = c"
  then have "ccode (digit_char d) = ccode c" by simp
  moreover have "ccode c \<in> {58, 45, 95, 43, 120, 88, 32}" using assms(2) by (auto simp: ccode_def)
  ultimately show False using assms(1) by (auto simp: digit_char_code split: if_splits)
qed

lemma hex_scan_digits:
  "\<forall>c \<in> set s. \<exists>d < 16. c = digit_char d \<Longrightarrow> hex_scan acc False s = Some (acc * 16 ^ length s + digits_value 16 s)"
proof (induction s arbitrary: acc)
  case Nil
  then show ?case by (simp add: digits_value_def)
next
  case (Cons c s)
  then obtain d where d: "d < 16" "c = digit_char d" by auto
  have fold: "foldl (\<lambda>acc c. acc * 16 + the (digit_value c)) a s = a * 16 ^ length s + digits_value 16 s" for a
  proof (induction s arbitrary: a)
    case (Cons x xs)
    have "digits_value 16 (x # xs) = the (digit_value x) * 16 ^ length xs + digits_value 16 xs"
      using Cons [of "the (digit_value x)"] by (simp add: digits_value_def)
    then show ?case using Cons [of "a * 16 + the (digit_value x)"] by (simp add: algebra_simps)
  qed (simp add: digits_value_def)
  have v: "digits_value 16 (c # s) = d * 16 ^ length s + digits_value 16 s"
    using fold [of d] by (simp add: digits_value_def d digit_value_char)
  have "c \<noteq> CHR ''_''" using digit_char_plain [OF d(1)] d(2) by simp
  then have "hex_scan acc False (c # s) = Some ((acc * 16 + d) * 16 ^ length s + digits_value 16 s)"
    using Cons d by (simp add: digit_value_char)
  then show ?case unfolding v by (simp add: algebra_simps)
qed

lemma digits_value_hex: "digits_value 16 (hex_digits k n) = n mod 16 ^ k"
proof (induction k arbitrary: n)
  case 0
  then show ?case by (simp add: digits_value_def)
next
  case (Suc k)
  have "digits_value 16 (hex_digits (Suc k) n) = n div 16 mod 16 ^ k * 16 + n mod 16"
    by (simp add: digits_value_snoc Suc digit_value_char)
  also have "\<dots> = n mod (16 * 16 ^ k)" by (simp add: mod_mult2_eq)
  finally show ?case by simp
qed

lemma strip_digits:
  assumes "\<forall>c \<in> set s. \<exists>d < 16. c = digit_char d"
  shows "strip s = s"
proof -
  have n: "\<not> is_space c" if "c \<in> set s" for c
  proof -
    have "\<exists>d < 16. c = digit_char d" by (rule bspec [OF assms that])
    then obtain d where d: "d < 16" "c = digit_char d" by (elim exE conjE)
    then have "48 \<le> ccode c" by (simp add: digit_char_code)
    then show ?thesis by (simp add: is_space_def)
  qed
  have "dropWhile is_space xs = xs" if "set xs \<subseteq> set s" for xs
    using that n by (cases xs) auto
  then show ?thesis by (simp add: strip_def)
qed

lemma int_base16_digits:
  assumes "\<forall>c \<in> set s. \<exists>d < 16. c = digit_char d" "s \<noteq> []"
  shows "int_base16 s = Some (int (digits_value 16 s))"
proof -
  obtain c r where s: "s = c # r" using assms(2) by (cases s) auto
  obtain d where d: "d < 16" "c = digit_char d" using assms(1) s by auto
  have p: "c \<noteq> CHR ''+''" "c \<noteq> CHR ''-''" "c \<noteq> CHR ''_''"
    unfolding d(2) by (rule digit_char_plain [OF d(1)]; simp)+
  have "drop_sign s = (False, s)" using p s by (simp add: drop_sign_def)
  moreover have "drop_hex_prefix s = s"
  proof -
    have "take 2 s \<noteq> ''0x'' \<and> take 2 s \<noteq> ''0X''"
    proof (cases r)
      case (Cons e r')
      then obtain d' where d': "d' < 16" "e = digit_char d'" using assms(1) s by auto
      have "e \<noteq> CHR ''x''" "e \<noteq> CHR ''X''" unfolding d'(2) by (rule digit_char_plain [OF d'(1)]; simp)+
      then show ?thesis using s Cons by simp
    qed (use s in simp)
    then show ?thesis by (simp add: drop_hex_prefix_def)
  qed
  ultimately show ?thesis
    using hex_scan_digits [OF assms(1), of 0] p s strip_digits [OF assms(1)]
    unfolding int_base16_def Let_def by (simp del: hex_scan.simps)
qed

lemma mac_raw_join:
  assumes "\<forall>c \<in> set s. \<exists>d < 16. c = digit_char d" "length s = 12"
  shows "mac_raw (mac_join s) = s"
proof -
  have k: "filter (\<lambda>c. c \<noteq> CHR '':'' \<and> c \<noteq> CHR ''-'') xs = xs" if "set xs \<subseteq> set s" for xs
  proof (rule filter_True, rule ballI)
    fix c assume "c \<in> set xs"
    then have "c \<in> set s" using that by (rule subsetD [rotated])
    then have "\<exists>d < 16. c = digit_char d" by (rule bspec [OF assms(1)])
    then obtain d where "d < 16" "c = digit_char d" by (elim exE conjE)
    then show "c \<noteq> CHR '':'' \<and> c \<noteq> CHR ''-''"
      using digit_char_plain [of d "CHR '':''"] digit_char_plain [of d "CHR ''-''"] by simp
  qed
  have sub: "set (take 2 (drop i s)) \<subseteq> set s" "set (take 2 s) \<subseteq> set s" for i
    by (meson order_trans set_drop_subset set_take_subset)+
  obtain a b c d e f g h i j l m where "s = [a, b, c, d, e, f, g, h, i, j, l, m]"
    using assms(2) by (auto simp: length_Suc_conv eval_nat_numeral)
  then have "s = take 2 s @ take 2 (drop 2 s) @ take 2 (drop 4 s) @ take 2 (drop 6 s) @ take 2 (drop 8 s) @ take 2 (drop 10 s)"
    by simp
  then show ?thesis by (simp add: mac_raw_def mac_join_def k sub)
qed

lemma hex_digits_ok: "\<forall>c \<in> set (hex_digits k n). \<exists>d < 16. c = digit_char d"
  using hex_digits_digits by blast

lemma mac_u64_join:
  assumes "n < 2 ^ 48"
  shows "mac_raw (u64_mac (int n)) = hex_digits 12 n" "int_base16 (hex_digits 12 n) = Some (int n)"
proof -
  have m: "nat (int n AND 0xFFFFFFFFFFFF) = n" using assms by (simp add: and_mask_numerals flip: of_nat_mod)
  show "mac_raw (u64_mac (int n)) = hex_digits 12 n"
    unfolding u64_mac_def m by (rule mac_raw_join [OF hex_digits_ok]) simp
  have "hex_digits 12 n \<noteq> []" using length_hex_digits [of 12 n] by (metis list.size(3) zero_neq_numeral)
  from int_base16_digits [OF hex_digits_ok this] assms
  show "int_base16 (hex_digits 12 n) = Some (int n)" by (simp add: digits_value_hex)
qed

definition unicast_mac :: "int \<Rightarrow> bool" where
  "unicast_mac v \<longleftrightarrow> 0 < v \<and> v < 0xFFFFFFFFFFFF \<and> (v div 2 ^ 40) mod 2 = 0"

lemma mac_u64_printed:
  assumes "unicast_mac v"
  shows "mac_u64 (u64_mac v) = Inr v"
proof -
  have b: "0 < v" "v < 2 ^ 48" using assms by (simp_all add: unicast_mac_def)
  then obtain n where n: "v = int n" "n < 2 ^ 48" by (cases v rule: int_cases) auto
  have a: "v AND 0xFFFFFFFFFFFF = v" using b by (simp add: and_mask_numerals)
  have "drop_bit 40 v AND 1 = 0"
    using assms by (simp add: unicast_mac_def drop_bit_eq_div and_one_eq)
  then show ?thesis
    using mac_u64_join [OF n(2)] a assms n(1)
    by (simp add: mac_u64_def unicast_mac_def)
qed

text \<open>
  MAC addresses round trip: the text printed for a 48-bit unicast address is read back as that
  address; and whatever text is accepted, the address obtained is a unicast address, never the null
  or the broadcast one.
\<close>

lemma mac_roundtrip:
  "(unicast_mac v \<longrightarrow> mac_u64 (u64_mac v) = Inr v) \<and> (mac_u64 text = Inr w \<longrightarrow> unicast_mac w)"
proof (intro conjI impI)
  assume "mac_u64 text = Inr w"
  then obtain n where n: "w = n AND 0xFFFFFFFFFFFF" "w \<noteq> 0" "w \<noteq> 0xFFFFFFFFFFFF" "drop_bit 40 w AND 1 = 0"
    by (auto simp: mac_u64_def Let_def err_simps split: option.splits)
  have "0 \<le> w" "w < 281474976710656" unfolding n(1) by (simp_all add: and_mask_numerals)
  moreover have "w div 2 ^ 40 mod 2 = 0" using n(4) by (simp add: drop_bit_eq_div and_one_eq)
  ultimately show "unicast_mac w" using n(2,3) by (simp add: unicast_mac_def)
qed (rule mac_u64_printed)

theorem mac_roundtrip_witness: "mac_u64 (u64_mac 0x020A35000001) = Inr 0x020A35000001"
  using mac_roundtrip [of "0x020A35000001"] by (simp add: unicast_mac_def)

section \<open>Applying and reporting an identity\<close>

lemma ipv4_printed: "0 \<le> v \<Longrightarrow> v < 4294967296 \<Longrightarrow> ipv4_u32 (u32_ipv4 v) = Inr v"
proof -
  assume v: "0 \<le> v" "v < 4294967296"
  have m: "nat (v AND 0xFFFFFFFF) = nat v" using v by (simp add: and_mask_numerals)
  have "nat v div 16777216 < 256" using v by (simp add: less_mult_imp_div_less)
  then have "ipv4_u32 (u32_ipv4 v) = Inr (int (nat v div 16777216) * 16777216 + int (nat v div 65536 mod 256) * 65536 +
      int (nat v div 256 mod 256) * 256 + int (nat v mod 256))"
    unfolding u32_ipv4_def Let_def m by (intro ipv4_bytes) simp_all
  then show ?thesis using v by (simp only: byte_split) simp
qed

lemma struct_unpack_fields:
  "fields_ok fs vs \<Longrightarrow> struct_unpack fs (fields_enc fs vs) = Inr vs"
  by (rule struct_unpack_pack [OF struct_pack_ok])

lemma network_apply_payload:
  assumes "1 \<le> port" "port \<le> 65535" "ipv4_u32 ip = Inr a" "mac_u64 mac = Inr m" "ipv4_u32 sm = Inr b" "ipv4_u32 gw = Inr c"
    "u32_range a" "u32_range b" "u32_range c" "unicast_mac m"
  shows "pack_rfctrl2_network_apply revision ip mac sm gw port seq =
    pack_rfctrl2_packet RF2_OP_NETWORK_APPLY
      (fields_enc network_apply_fmt [revision mod 2 ^ 32, a, m, b, c, port, 0, 0]) seq 0"
proof -
  have "fields_ok network_apply_fmt [revision mod 4294967296, a, m, b, c, port, 0, 0]"
    using assms by (simp add: u32_range_def unicast_mac_def)
  then show ?thesis
    using assms by (simp add: pack_rfctrl2_network_apply_def and_mask_numerals struct_pack_ok del: fields_enc.simps)
qed

text \<open>
  The identity a board reports can be applied again unchanged: when a 64-byte NETWORK
  response names a 32-bit address, mask and gateway, a unicast MAC and a non-zero port, the texts
  the driver decodes from it are accepted by \<open>pack_rfctrl2_network_apply\<close>, and the request they
  make carries exactly the numbers the board reported.
\<close>

lemma network_identity_roundtrip:
  assumes "fields_ok (replicate 8 fQ) w" and "rsp_payload rsp = fields_enc (replicate 8 fQ) w"
    and "unicast_mac (w ! 2)" and "u32_range (w ! 6)" and "u32_range (w ! 7)" and "w ! 3 div 2 ^ 32 mod 2 ^ 16 \<noteq> 0"
  shows "\<exists>info. parse_rfctrl2_network_response rsp = Inr info \<and>
    ni_revision info = w ! 3 mod 2 ^ 32 \<and> ni_port info = w ! 3 div 2 ^ 32 mod 2 ^ 16 \<and>
    pack_rfctrl2_network_apply revision (ni_current_ip info) (ni_current_mac info) (ni_subnet_mask info)
        (ni_gateway info) (ni_port info) seq =
      pack_rfctrl2_packet RF2_OP_NETWORK_APPLY (fields_enc network_apply_fmt
        [revision mod 2 ^ 32, w ! 1 mod 2 ^ 32, w ! 2, w ! 6, w ! 7, w ! 3 div 2 ^ 32 mod 2 ^ 16, 0, 0]) seq 0"
proof -
  have lw: "length w = 8" using fields_ok_length [OF assms(1)] by simp
  have len: "length (rsp_payload rsp) = 64"
    unfolding assms(2) using lw by (simp add: length_fields_enc fmt_size_def sum_list_replicate)
  then have ne: "rsp_payload rsp \<noteq> []" by auto
  have u: "struct_unpack (replicate (length (rsp_payload rsp) div 8) fQ) (rsp_payload rsp) = Inr w"
    unfolding len using struct_unpack_fields [OF assms(1)] by (simp add: assms(2))
  let ?info = "network_flags (network_ext w (network_words w network_defaults))"
  have p: "parse_rfctrl2_network_response rsp = Inr ?info"
    unfolding parse_rfctrl2_network_response_def Let_def u using ne len by simp
  have f: "ni_current_ip ?info = u32_ipv4 (w ! 1 mod 4294967296)" "ni_current_mac ?info = u64_mac (w ! 2)"
    "ni_subnet_mask ?info = u32_ipv4 (w ! 6)" "ni_gateway ?info = u32_ipv4 (w ! 7)"
    "ni_port ?info = w ! 3 div 4294967296 mod 65536" "ni_revision ?info = w ! 3 mod 4294967296"
    using lw by (simp_all add: network_flags_def network_ext_def network_words_def and_mask_numerals drop_bit_numerals)
  have port: "1 \<le> w ! 3 div 4294967296 mod 65536" "w ! 3 div 4294967296 mod 65536 \<le> 65535"
    using assms(6) pos_mod_sign [of 65536 "w ! 3 div 4294967296"] pos_mod_bound [of 65536 "w ! 3 div 4294967296"]
    by (simp_all add: order_less_le zle_diff1_eq [symmetric] del: pos_mod_sign pos_mod_bound)
  have r: "u32_range (w ! 1 mod 4294967296)" by (simp add: u32_range_def)
  have "pack_rfctrl2_network_apply revision (ni_current_ip ?info) (ni_current_mac ?info) (ni_subnet_mask ?info)
        (ni_gateway ?info) (ni_port ?info) seq =
      pack_rfctrl2_packet RF2_OP_NETWORK_APPLY (fields_enc network_apply_fmt
        [revision mod 2 ^ 32, w ! 1 mod 4294967296, w ! 2, w ! 6, w ! 7, w ! 3 div 4294967296 mod 65536, 0, 0]) seq 0"
    unfolding f using assms(3-5) port r
    by (intro network_apply_payload ipv4_printed mac_u64_printed) (simp_all add: u32_range_def)
  with p f show ?thesis by (intro exI [of _ ?info]) (simp del: fields_enc.simps)
qed

definition example_words :: "int list" where
  "example_words = [0x1234, 0xC0A8FEFEC0A80180, 0x020A35000001, 0x4D200000007, 0, 0x020A35000001, 0xFFFFFF00, 0]"

definition example_network_response :: rf_response where
  "example_network_response = \<lparr>rsp_version = 3, rsp_status = 0, rsp_opcode = 0x0C, rsp_flags = 0, rsp_seq = 1,
     rsp_payload_bytes = 64, rsp_payload = fields_enc (replicate 8 fQ) example_words\<rparr>"

lemma replicate_8: "replicate 8 x = [x, x, x, x, x, x, x, x]"
  by (simp add: eval_nat_numeral)

theorem network_identity_roundtrip_witness:
  "\<exists>info. parse_rfctrl2_network_response example_network_response = Inr info \<and> ni_port info = 1234"
proof -
  have e: "fields_ok (replicate 8 fQ) example_words" by (simp add: example_words_def replicate_8)
  have "rsp_payload example_network_response = fields_enc (replicate 8 fQ) example_words"
    by (simp add: example_network_response_def)
  from network_identity_roundtrip [OF e this, of 1 1] show ?thesis
    by (auto simp: example_words_def unicast_mac_def u32_range_def)
qed

text \<open>
  A hexadecimal prefix is taken for an address: \<open>int(_, 16)\<close> accepts "0x", so a text with only
  ten hexadecimal digits behind the prefix passes as the twelve characters of a MAC address.
\<close>

lemma prefixed_mac_accepted: "mac_u64 ''0x:12:34:56:78:90'' = Inr 0x1234567890"
  by (simp add: mac_u64_def mac_raw_def int_base16_def strip_def is_space_def ccode_def drop_sign_def
      drop_hex_prefix_def digit_value_def and_mask_numerals)

end
