(* ===== verification/Rf_Config.thy ===== *)
theory Rf_Config
  imports Py_Float Rf_Network
begin

unbundle bit_operations_syntax

text \<open>
  The RFDC configuration messages of \<open>dr47/protocol.py\<close>: the per-channel sources, the phase
  normalisation, RFDC_APPLY with its range checks and the configuration read-back, and the beat
  alignment helpers. The parameters of RFDC_APPLY are floats; they are the exact binary64 values of
  \<open>Py_Float\<close>.
\<close>

definition RFDC_APPLY_CHANNELS :: nat where "RFDC_APPLY_CHANNELS = 8"
definition RFDC_APPLY_REQUEST_HEADER_BYTES :: nat where "RFDC_APPLY_REQUEST_HEADER_BYTES = 8"
definition RFDC_APPLY_REQUEST_ENTRY_BYTES :: nat where "RFDC_APPLY_REQUEST_ENTRY_BYTES = 24"
definition RFDC_APPLY_RESPONSE_HEADER_BYTES :: nat where "RFDC_APPLY_RESPONSE_HEADER_BYTES = 32"
definition RFDC_APPLY_RESPONSE_ENTRY_BYTES :: nat where "RFDC_APPLY_RESPONSE_ENTRY_BYTES = 40"
definition RFDC_NCO_MIN_HZ :: int where "RFDC_NCO_MIN_HZ = -3200000000"
definition RFDC_NCO_MAX_HZ :: int where "RFDC_NCO_MAX_HZ = 3200000000"

lemmas rfdc_sizes = RFDC_APPLY_CHANNELS_def RFDC_APPLY_REQUEST_HEADER_BYTES_def
  RFDC_APPLY_REQUEST_ENTRY_BYTES_def RFDC_APPLY_RESPONSE_HEADER_BYTES_def
  RFDC_APPLY_RESPONSE_ENTRY_BYTES_def

section \<open>Per-channel values\<close>

text \<open>
  A mapping keyed by channel numbers and by the names \<open>"ch1"\<close>, \<open>"ch2"\<close> and so on, or a sequence.
\<close>

datatype chan_source = ByMap "int \<Rightarrow> pynum option" "string \<Rightarrow> pynum option" | BySeq "pynum list"

definition channel_key :: "nat \<Rightarrow> string" where
  "channel_key channel = ''ch'' @ dec_digits channel"

fun channel_value :: "chan_source \<Rightarrow> nat \<Rightarrow> pynum \<Rightarrow> pynum result" where
  "channel_value (ByMap by_number by_name) channel dflt =
     Inr (case by_number (int channel) of
            Some v \<Rightarrow> v
          | None \<Rightarrow> (case by_name (channel_key channel) of Some v \<Rightarrow> v | None \<Rightarrow> dflt))"
| "channel_value (BySeq values) channel dflt =
     guard_raise (length values \<noteq> RFDC_APPLY_CHANNELS) ParameterRangeError (Inr (values ! (channel - 1)))"

definition normalize_rfdc_phase_mdeg :: "pynum \<Rightarrow> int result" where
  "normalize_rfdc_phase_mdeg phase_deg =
     ebind (to_float phase_deg) (\<lambda>p.
     let phase = fsub (fmodc (fadd p (Fin 180)) 360) (Fin 180) in
     py_round (fscale phase 1000))"

section \<open>RFDC_APPLY\<close>

abbreviation "rfdc_apply_fmt \<equiv> [f_q, fI, f_i, fI, fI]"

text \<open>The DAC current limits in microampere: channels 5 and 6 are DC coupled.\<close>

definition rfdc_current_range :: "nat \<Rightarrow> int \<times> int" where
  "rfdc_current_range channel = (if channel \<in> {5, 6} then (6400, 32000) else (2250, 40500))"

definition rfdc_apply_entry ::
  "chan_source \<Rightarrow> chan_source \<Rightarrow> chan_source \<Rightarrow> chan_source \<Rightarrow> nat \<Rightarrow> bytes result" where
  "rfdc_apply_entry ncos zones phases currents channel =
     ebind (channel_value ncos channel (NFloat (Fin 0))) (\<lambda>nco_in.
     ebind (to_float nco_in) (\<lambda>nco_f. ebind (py_round nco_f) (\<lambda>nco.
     guard_raise (\<not> (RFDC_NCO_MIN_HZ \<le> nco \<and> nco \<le> RFDC_NCO_MAX_HZ)) ParameterRangeError (
     ebind (channel_value zones channel (NInt 1)) (\<lambda>zone_in.
     ebind (to_int zone_in) (\<lambda>zone.
     guard_raise (zone \<notin> {1, 2}) ParameterRangeError (
     ebind (channel_value phases channel (NFloat (Fin 0))) (\<lambda>phase_in.
     ebind (to_float phase_in) (\<lambda>phase_f.
     ebind (normalize_rfdc_phase_mdeg (NFloat phase_f)) (\<lambda>phase.
     ebind (channel_value currents channel (NFloat (Fin 20))) (\<lambda>current_in.
     ebind (to_float current_in) (\<lambda>current_f.
     ebind (py_round (fscale current_f 1000)) (\<lambda>current_ua.
     let (current_min, current_max) = rfdc_current_range channel in
     guard_raise (\<not> (current_min \<le> current_ua \<and> current_ua \<le> current_max)) ParameterRangeError (
     struct_pack rfdc_apply_fmt [nco, zone, phase, current_ua, 0]))))))))))))))"

definition pack_rfctrl2_rfdc_apply ::
  "chan_source \<Rightarrow> chan_source \<Rightarrow> chan_source \<Rightarrow> chan_source \<Rightarrow> int \<Rightarrow> int \<Rightarrow> int \<Rightarrow> bytes result" where
  "pack_rfctrl2_rfdc_apply ncos zones phases currents revision channel_mask seq =
     guard_raise (\<not> (1 \<le> channel_mask \<and> channel_mask \<le> 0xFF)) ParameterRangeError (
     ebind (struct_pack [fI, fI] [revision AND 0xFFFFFFFF, channel_mask]) (\<lambda>header.
     ebind (efold (\<lambda>channel payload.
         ebind (rfdc_apply_entry ncos zones phases currents channel) (\<lambda>entry. Inr (payload @ entry)))
       [1 ..< RFDC_APPLY_CHANNELS + 1] header) (\<lambda>payload.
     guard_raise (length payload \<noteq>
         RFDC_APPLY_REQUEST_HEADER_BYTES + RFDC_APPLY_CHANNELS * RFDC_APPLY_REQUEST_ENTRY_BYTES)
       AssertionError (
     pack_rfctrl2_packet RF2_OP_RFDC_APPLY payload seq 0))))"

section \<open>The RFDC configuration response\<close>

record rfdc_channel =
  rc_channel :: nat
  rc_nco_hz :: int
  rc_nyquist_zone :: int
  rc_nco_phase_mdeg :: int
  rc_nco_phase_deg :: pyfloat
  rc_dac_output_current_ua :: int
  rc_dac_output_current_ma :: pyfloat
  rc_status :: int
  rc_nco_word :: int
  rc_phase_word :: int
  rc_vop_code :: int

record rfdc_config =
  rx_revision :: int
  rx_applied_mask :: int
  rx_error_mask :: int
  rx_config_valid_mask :: int
  rx_failure_stage :: int
  rx_failure_address :: int
  rx_axi_response :: int
  rx_state_flags :: int
  rx_channels :: "rfdc_channel list"

abbreviation "rfdc_config_fmt \<equiv> [fI, fI, fI, fI, fI, fI, fI, fI]"
abbreviation "rfdc_entry_fmt \<equiv> [f_q, fI, f_i, fI, fI, fQ, fI, fI]"

definition rfdc_defaults :: rfdc_config where
  "rfdc_defaults =
     \<lparr>rx_revision = 0, rx_applied_mask = 0, rx_error_mask = 0, rx_config_valid_mask = 0,
      rx_failure_stage = 0, rx_failure_address = 0, rx_axi_response = 0, rx_state_flags = 0,
      rx_channels = []\<rparr>"

definition rfdc_header :: "int list \<Rightarrow> rfdc_config" where
  "rfdc_header h =
     \<lparr>rx_revision = h ! 0, rx_applied_mask = h ! 1, rx_error_mask = h ! 2,
      rx_config_valid_mask = h ! 3, rx_failure_stage = h ! 4, rx_failure_address = h ! 5,
      rx_axi_response = h ! 6, rx_state_flags = h ! 7, rx_channels = []\<rparr>"

definition rfdc_channel_of :: "nat \<Rightarrow> int list \<Rightarrow> rfdc_channel" where
  "rfdc_channel_of channel v =
     \<lparr>rc_channel = channel, rc_nco_hz = v ! 0, rc_nyquist_zone = v ! 1,
      rc_nco_phase_mdeg = v ! 2, rc_nco_phase_deg = fl (of_int (v ! 2) / 1000),
      rc_dac_output_current_ua = v ! 3, rc_dac_output_current_ma = fl (of_int (v ! 3) / 1000),
      rc_status = v ! 4, rc_nco_word = v ! 5, rc_phase_word = v ! 6, rc_vop_code = v ! 7\<rparr>"

definition parse_rfctrl2_rfdc_config_response :: "rf_response \<Rightarrow> rfdc_config result" where
  "parse_rfctrl2_rfdc_config_response response =
     (let payload = rsp_payload response in
      if payload = [] \<and> rsp_status response \<noteq> RF2_STATUS_OK then Inr rfdc_defaults
      else guard_raise (length payload \<noteq>
          RFDC_APPLY_RESPONSE_HEADER_BYTES + RFDC_APPLY_CHANNELS * RFDC_APPLY_RESPONSE_ENTRY_BYTES)
        ProtocolError (
      ebind (struct_unpack_from rfdc_config_fmt payload 0) (\<lambda>h.
      ebind (efold (\<lambda>channel (result, offset).
          ebind (struct_unpack_from rfdc_entry_fmt payload offset) (\<lambda>v.
          Inr (result\<lparr>rx_channels := rx_channels result @ [rfdc_channel_of channel v]\<rparr>,
               offset + RFDC_APPLY_RESPONSE_ENTRY_BYTES)))
        [1 ..< RFDC_APPLY_CHANNELS + 1] (rfdc_header h, RFDC_APPLY_RESPONSE_HEADER_BYTES))
      (\<lambda>(result, offset). Inr result))))"

section \<open>Beat alignment\<close>

definition align_bytes_to_beat :: "int \<Rightarrow> int result" where
  "align_bytes_to_beat n =
     guard_raise (n < 0) ParameterRangeError (Inr (n + (- n) mod BEAT_BYTES))"

definition require_beat_aligned :: "int \<Rightarrow> int result" where
  "require_beat_aligned value =
     guard_raise (value mod BEAT_BYTES \<noteq> 0) ParameterRangeError (Inr value)"

section \<open>Acceptance of RFDC_APPLY\<close>

lemma normalize_phase_bounds:
  assumes "normalize_rfdc_phase_mdeg p = Inr phase"
  shows "- 180000 \<le> phase \<and> phase \<le> 180000"
proof -
  obtain f where f: "to_float p = Inr f"
    and r: "py_round (fscale (fsub (fmodc (fadd f (Fin 180)) (of_int 360)) (Fin 180)) 1000) = Inr phase"
    using assms by (auto simp: normalize_rfdc_phase_mdeg_def err_simps)
  show ?thesis
  proof (rule fmodc_bounds [of 360 "fadd f (Fin 180)"], goal_cases)
    case 3
    then show ?thesis using r by (simp add: fsub_def)
  next
    case (4 m)
    obtain d where d: "fl (m + - 180) = Fin d" "of_int (- 180) \<le> d" "d \<le> of_int 180"
      by (rule fl_bounds [of "- 180" "m + - 180" 180]) (use 4 in simp_all)
    obtain e where e: "fl (d * 1000) = Fin e" "of_int (- 180000) \<le> e" "e \<le> of_int 180000"
      by (rule fl_bounds [of "- 180000" "d * 1000" 180000]) (use d in simp_all)
    have "phase = round_half_even e" using r 4 d e by (simp add: fsub_def)
    then show ?thesis using round_half_even_le [OF e(3)] round_half_even_ge [OF e(2)] by simp
  qed simp_all
qed

text \<open>The values an entry may carry on the wire.\<close>

definition rfdc_entry_ok :: "nat \<Rightarrow> int list \<Rightarrow> bool" where
  "rfdc_entry_ok channel v \<longleftrightarrow>
     length v = 5 \<and> RFDC_NCO_MIN_HZ \<le> v ! 0 \<and> v ! 0 \<le> RFDC_NCO_MAX_HZ \<and> v ! 1 \<in> {1, 2} \<and>
     - 180000 \<le> v ! 2 \<and> v ! 2 \<le> 180000 \<and>
     fst (rfdc_current_range channel) \<le> v ! 3 \<and> v ! 3 \<le> snd (rfdc_current_range channel) \<and> v ! 4 = 0"

lemma rfdc_entry_fields_ok:
  assumes "rfdc_entry_ok channel v"
  shows "fields_ok rfdc_apply_fmt v"
proof -
  obtain a b c d e where v: "v = [a, b, c, d, e]"
    using assms by (auto simp: rfdc_entry_ok_def numeral_eq_Suc length_Suc_conv)
  show ?thesis using assms unfolding v
    by (auto simp: rfdc_entry_ok_def rfdc_current_range_def RFDC_NCO_MIN_HZ_def RFDC_NCO_MAX_HZ_def
        split: if_splits)
qed

lemma rfdc_apply_entry_Inr:
  assumes "rfdc_apply_entry ncos zones phases currents channel = Inr bs"
  obtains v where "rfdc_entry_ok channel v" and "bs = fields_enc rfdc_apply_fmt v"
proof -
  obtain nco zone phase_in phase cur where
    nco: "RFDC_NCO_MIN_HZ \<le> nco" "nco \<le> RFDC_NCO_MAX_HZ" and zone: "zone \<in> {1, 2}"
    and phase: "normalize_rfdc_phase_mdeg phase_in = Inr phase"
    and cur: "fst (rfdc_current_range channel) \<le> cur" "cur \<le> snd (rfdc_current_range channel)"
    and bs: "bs = fields_enc rfdc_apply_fmt [nco, zone, phase, cur, 0]"
    using assms unfolding rfdc_apply_entry_def Let_def case_prod_unfold err_simps not_not
    by (elim exE conjE) blast
  show thesis
    by (rule that [OF _ bs]) (use nco zone cur normalize_phase_bounds [OF phase] in
        \<open>simp add: rfdc_entry_ok_def\<close>)
qed

lemma rfdc_payload_fold:
  assumes "efold (\<lambda>channel payload.
      ebind (rfdc_apply_entry ncos zones phases currents channel) (\<lambda>entry. Inr (payload @ entry)))
    channels acc = Inr payload"
  shows "\<exists>vs. list_all2 rfdc_entry_ok channels vs \<and>
    payload = acc @ concat (map (fields_enc rfdc_apply_fmt) vs)"
  using assms
proof (induction channels arbitrary: acc)
  case Nil
  then show ?case by simp
next
  case (Cons c cs)
  then obtain bs where bs: "rfdc_apply_entry ncos zones phases currents c = Inr bs"
    and rest: "efold (\<lambda>channel payload.
      ebind (rfdc_apply_entry ncos zones phases currents channel) (\<lambda>entry. Inr (payload @ entry)))
    cs (acc @ bs) = Inr payload"
    by (auto simp: err_simps)
  obtain v where v: "rfdc_entry_ok c v" "bs = fields_enc rfdc_apply_fmt v"
    by (rule rfdc_apply_entry_Inr [OF bs])
  obtain vs where "list_all2 rfdc_entry_ok cs vs"
    "payload = (acc @ bs) @ concat (map (fields_enc rfdc_apply_fmt) vs)"
    using Cons.IH [OF rest] by blast
  with v show ?case by (intro exI [of _ "v # vs"]) simp
qed

lemma length_entries:
  "\<forall>v \<in> set vs. length v = length fmt \<Longrightarrow>
   length (concat (map (fields_enc fmt) vs)) = length vs * fmt_size fmt"
  by (induction vs) (simp_all add: length_fields_enc)

lemma rfdc_payload_length:
  assumes "list_all2 rfdc_entry_ok [1 ..< RFDC_APPLY_CHANNELS + 1] vs"
  shows "length vs = 8" "length (concat (map (fields_enc rfdc_apply_fmt) vs)) = 192"
proof -
  show n: "length vs = 8" using list_all2_lengthD [OF assms] by (simp add: rfdc_sizes)
  have "\<forall>v \<in> set vs. length v = length rfdc_apply_fmt"
    using assms by (auto simp: list_all2_conv_all_nth in_set_conv_nth rfdc_entry_ok_def)
  then show "length (concat (map (fields_enc rfdc_apply_fmt) vs)) = 192"
    by (simp only: length_entries n) simp
qed

lemma rfdc_apply_payload:
  assumes "pack_rfctrl2_rfdc_apply ncos zones phases currents revision channel_mask sq = Inr pkt"
  obtains vs where "list_all2 rfdc_entry_ok [1 ..< RFDC_APPLY_CHANNELS + 1] vs"
    and "1 \<le> channel_mask" and "channel_mask \<le> 0xFF"
    and "pack_rfctrl2_packet RF2_OP_RFDC_APPLY (fields_enc [fI, fI] [revision AND 0xFFFFFFFF, channel_mask] @
           concat (map (fields_enc rfdc_apply_fmt) vs)) sq 0 = Inr pkt"
proof -
  obtain payload where m: "1 \<le> channel_mask" "channel_mask \<le> 0xFF"
    and e: "efold (\<lambda>channel payload.
        ebind (rfdc_apply_entry ncos zones phases currents channel) (\<lambda>entry. Inr (payload @ entry)))
      [1 ..< RFDC_APPLY_CHANNELS + 1] (fields_enc [fI, fI] [revision AND 0xFFFFFFFF, channel_mask]) = Inr payload"
    and p: "pack_rfctrl2_packet RF2_OP_RFDC_APPLY payload sq 0 = Inr pkt"
    using assms unfolding pack_rfctrl2_rfdc_apply_def
    by (auto simp only: err_simps simp_thms not_le not_less)
  obtain vs where "list_all2 rfdc_entry_ok [1 ..< RFDC_APPLY_CHANNELS + 1] vs"
    "payload = fields_enc [fI, fI] [revision AND 0xFFFFFFFF, channel_mask] @ concat (map (fields_enc rfdc_apply_fmt) vs)"
    using rfdc_payload_fold [OF e] by blast
  then show thesis using that m p by blast
qed


text \<open>
  C7. An RFDC_APPLY request that is built carries a mask of the channels 1 to 8, the revision as a
  32-bit field and exactly eight entries, each inside the hardware's limits: the NCO within 3.2 GHz,
  a Nyquist zone of 1 or 2, a phase within half a turn and a DAC current of the channel's coupling;
  anything else is refused before it reaches the wire.
\<close>

lemma rfdc_apply_bounds:
  assumes "pack_rfctrl2_rfdc_apply ncos zones phases currents revision channel_mask sq = Inr pkt"
  shows "1 \<le> channel_mask \<and> channel_mask \<le> 0xFF \<and> (\<exists>vs. length vs = 8 \<and>
    list_all2 rfdc_entry_ok [1, 2, 3, 4, 5, 6, 7, 8] vs \<and>
    open_envelope pkt = (UDP_RFCTRL2_MAGIC, RFCTRL2_VERSION, RF2_OP_RFDC_APPLY, 0, sq mod 2 ^ 32,
      fields_enc [fI, fI] [revision mod 2 ^ 32, channel_mask] @
      concat (map (fields_enc rfdc_apply_fmt) vs)))"
proof -
  obtain vs where vs: "list_all2 rfdc_entry_ok [1 ..< RFDC_APPLY_CHANNELS + 1] vs"
    and m: "1 \<le> channel_mask" "channel_mask \<le> 0xFF"
    and p: "pack_rfctrl2_packet RF2_OP_RFDC_APPLY (fields_enc [fI, fI] [revision AND 0xFFFFFFFF, channel_mask] @
           concat (map (fields_enc rfdc_apply_fmt) vs)) sq 0 = Inr pkt"
    by (rule rfdc_apply_payload [OF assms])
  let ?raw = "fields_enc [fI, fI] [revision AND 0xFFFFFFFF, channel_mask] @
           concat (map (fields_enc rfdc_apply_fmt) vs)"
  have len: "length ?raw = 200"
    using rfdc_payload_length [OF vs] by (simp add: length_fields_enc del: fields_enc.simps)
  have small: "int (length ?raw) < 4294967296" unfolding len by simp
  have pkt: "pkt = envelope UDP_RFCTRL2_MAGIC RFCTRL2_VERSION RF2_OP_RFDC_APPLY 0 ?raw (sq mod 4294967296)"
    using p unfolding pack_rfctrl2_packet_envelope [OF small] by simp
  have ok: "envelope_ok UDP_RFCTRL2_MAGIC RFCTRL2_VERSION RF2_OP_RFDC_APPLY 0 ?raw (sq mod 4294967296)"
    using small unfolding envelope_ok_def len by simp
  have "open_envelope pkt = (UDP_RFCTRL2_MAGIC, RFCTRL2_VERSION, RF2_OP_RFDC_APPLY, 0, sq mod 4294967296, ?raw)"
    unfolding pkt by (rule open_envelope_envelope [OF ok])
  moreover have "[1 ..< RFDC_APPLY_CHANNELS + 1] = [1, 2, 3, 4, 5, 6, 7, 8]"
    by (simp add: rfdc_sizes upt_rec)
  ultimately show ?thesis
    using m vs rfdc_payload_length(1) [OF vs] by (auto simp: and_mask_numerals)
qed

definition example_ncos :: chan_source where
  "example_ncos = ByMap (\<lambda>n. if n = 2 then Some (NInt (- 2400000000)) else None) (\<lambda>_. None)"

definition example_currents :: chan_source where
  "example_currents = BySeq (replicate 8 (NInt 20))"

definition example_phases :: chan_source where
  "example_phases = BySeq (replicate 8 (NInt 370))"

definition no_values :: chan_source where
  "no_values = ByMap (\<lambda>_. None) (\<lambda>_. None)"

lemma example_phase: "normalize_rfdc_phase_mdeg (NFloat (Fin 370)) = Inr 10000"
proof -
  have "\<lfloor>550 / 360 :: rat\<rfloor> = 1" by (simp add: floor_eq_iff)
  then have "fmodc (Fin 550) 360 = Fin 190" by (simp add: trunc_def)
  then show ?thesis by (simp add: normalize_rfdc_phase_mdeg_def fsub_def del: fmodc.simps)
qed

lemma example_rfdc_entry:
  assumes "channel \<in> {1 ..< 9}"
  shows "rfdc_apply_entry example_ncos no_values example_phases example_currents channel =
    Inr (fields_enc rfdc_apply_fmt [if channel = 2 then - 2400000000 else 0, 1, 10000, 20000, 0])"
proof -
  have "channel - 1 < 8" using assms by auto
  then have v: "channel_value example_phases channel d = Inr (NInt 370)"
    "channel_value example_currents channel d = Inr (NInt 20)"
    "channel_value no_values channel d = Inr d"
    "channel_value example_ncos channel (NFloat (Fin 0)) =
       Inr (if channel = 2 then NInt (- 2400000000) else NFloat (Fin 0))" for d
    by (simp_all add: example_phases_def example_currents_def no_values_def example_ncos_def rfdc_sizes)
  show ?thesis
    unfolding rfdc_apply_entry_def v ebind_Inr
    by (simp add: example_phase RFDC_NCO_MIN_HZ_def RFDC_NCO_MAX_HZ_def rfdc_current_range_def
        struct_pack_def del: fields_enc.simps)
qed

lemma example_rfdc_apply:
  "\<exists>pkt. pack_rfctrl2_rfdc_apply example_ncos no_values example_phases example_currents 1 0xFF 7 = Inr pkt"
proof -
  have c: "[1 ..< RFDC_APPLY_CHANNELS + 1] = [1, 2, 3, 4, 5, 6, 7, 8]"
    by (simp add: rfdc_sizes upt_rec)
  show ?thesis
    unfolding pack_rfctrl2_rfdc_apply_def c efold.simps
    by (simp add: example_rfdc_entry struct_pack_def rfdc_sizes length_fields_enc and_mask_numerals
        pack_rfctrl2_packet_envelope del: fields_enc.simps)
qed

lemma rfdc_apply_bounds_witness:
  "\<exists>pkt vs. pack_rfctrl2_rfdc_apply example_ncos no_values example_phases example_currents 1 0xFF 7 = Inr pkt \<and>
     list_all2 rfdc_entry_ok [1, 2, 3, 4, 5, 6, 7, 8] vs"
proof -
  obtain pkt where p: "pack_rfctrl2_rfdc_apply example_ncos no_values example_phases example_currents 1 0xFF 7 = Inr pkt"
    using example_rfdc_apply by blast
  show ?thesis using rfdc_apply_bounds [OF p] p by blast
qed

section \<open>The read-back round trip\<close>

text \<open>The reference encoding of a configuration: the header words, then eight entries.\<close>

definition rfdc_config_payload :: "int list \<Rightarrow> int list list \<Rightarrow> bytes" where
  "rfdc_config_payload h vs = fields_enc rfdc_config_fmt h @ concat (map (fields_enc rfdc_entry_fmt) vs)"

lemma rfdc_entries_fold:
  assumes "list_all (fields_ok rfdc_entry_fmt) vs" and "length channels = length vs"
    and "offset = length pre"
  shows "efold (\<lambda>channel (result, offset).
      ebind (struct_unpack_from rfdc_entry_fmt (pre @ concat (map (fields_enc rfdc_entry_fmt) vs)) offset) (\<lambda>v.
      Inr (result\<lparr>rx_channels := rx_channels result @ [rfdc_channel_of channel v]\<rparr>,
           offset + RFDC_APPLY_RESPONSE_ENTRY_BYTES)))
    channels (r :: rfdc_config, offset) =
    Inr (r\<lparr>rx_channels := rx_channels r @ map2 rfdc_channel_of channels vs\<rparr>, offset + 40 * length vs)"
  using assms
proof (induction vs arbitrary: channels pre r offset)
  case Nil
  then show ?case by simp
next
  case (Cons v vs)
  then obtain c cs where c: "channels = c # cs" "length cs = length vs" by (cases channels) auto
  have ok: "fields_ok rfdc_entry_fmt v" using Cons.prems by (simp del: fields_ok.simps)
  have len: "length (fields_enc rfdc_entry_fmt v) = 40"
    using fields_ok_length [OF ok] by (simp only: length_fields_enc) simp
  have u: "struct_unpack_from rfdc_entry_fmt
      (pre @ fields_enc rfdc_entry_fmt v @ concat (map (fields_enc rfdc_entry_fmt) vs)) offset = Inr v"
    by (rule struct_unpack_from_pack [OF struct_pack_ok [OF ok]]) (simp add: Cons.prems)
  have IH: "efold (\<lambda>channel (result, offset).
      ebind (struct_unpack_from rfdc_entry_fmt
        ((pre @ fields_enc rfdc_entry_fmt v) @ concat (map (fields_enc rfdc_entry_fmt) vs)) offset) (\<lambda>v.
      Inr (result\<lparr>rx_channels := rx_channels result @ [rfdc_channel_of channel v]\<rparr>,
           offset + RFDC_APPLY_RESPONSE_ENTRY_BYTES)))
    cs (r' :: rfdc_config, offset + 40) =
    Inr (r'\<lparr>rx_channels := rx_channels r' @ map2 rfdc_channel_of cs vs\<rparr>, offset + 40 + 40 * length vs)" for r'
    by (rule Cons.IH) (use Cons.prems c len in \<open>simp_all del: fields_ok.simps fields_enc.simps\<close>)
  show ?case
    unfolding c efold.simps list.map concat.simps prod.case u ebind_Inr
    using IH by (simp add: rfdc_sizes del: fields_enc.simps)
qed

text \<open>
  A configuration read-back of eight channels decodes to its header words and to every channel's
  values, in the order of the channels.
\<close>

lemma rfdc_readback_roundtrip:
  assumes "fields_ok rfdc_config_fmt h" and "list_all (fields_ok rfdc_entry_fmt) vs" and "length vs = 8"
    and "rsp_payload response = rfdc_config_payload h vs"
  shows "parse_rfctrl2_rfdc_config_response response =
    Inr ((rfdc_header h)\<lparr>rx_channels := map2 rfdc_channel_of [1, 2, 3, 4, 5, 6, 7, 8] vs\<rparr>)"
proof -
  have h: "length (fields_enc rfdc_config_fmt h) = 32"
    using fields_ok_length [OF assms(1)] by (simp only: length_fields_enc) simp
  have "\<forall>v \<in> set vs. length v = length rfdc_entry_fmt"
    using assms(2) fields_ok_length by (metis list_all_iff)
  then have n: "length (concat (map (fields_enc rfdc_entry_fmt) vs)) = 320"
    by (simp only: length_entries assms(3)) simp
  have len: "length (rfdc_config_payload h vs) = 352" by (simp only: rfdc_config_payload_def length_append h n)
  then have ne: "(rfdc_config_payload h vs = [] \<and> P) = False" for P by auto
  have c: "[1 ..< RFDC_APPLY_CHANNELS + 1] = [1, 2, 3, 4, 5, 6, 7, 8]"
    by (simp add: rfdc_sizes upt_rec)
  have u: "struct_unpack_from rfdc_config_fmt (rfdc_config_payload h vs) 0 = Inr h"
    unfolding rfdc_config_payload_def
    using struct_unpack_from_pack [OF struct_pack_ok [OF assms(1)], of "[]"] by simp
  have e: "efold (\<lambda>channel (result, offset).
      ebind (struct_unpack_from rfdc_entry_fmt (rfdc_config_payload h vs) offset) (\<lambda>v.
      Inr (result\<lparr>rx_channels := rx_channels result @ [rfdc_channel_of channel v]\<rparr>,
           offset + RFDC_APPLY_RESPONSE_ENTRY_BYTES)))
    [1, 2, 3, 4, 5, 6, 7, 8] (rfdc_header h, RFDC_APPLY_RESPONSE_HEADER_BYTES) =
    Inr ((rfdc_header h)\<lparr>rx_channels := rx_channels (rfdc_header h) @
           map2 rfdc_channel_of [1, 2, 3, 4, 5, 6, 7, 8] vs\<rparr>, RFDC_APPLY_RESPONSE_HEADER_BYTES + 40 * length vs)"
    unfolding rfdc_config_payload_def
    by (rule rfdc_entries_fold [OF assms(2)]) (simp_all only: assms(3) h RFDC_APPLY_RESPONSE_HEADER_BYTES_def, simp)
  have g: "(352 \<noteq> RFDC_APPLY_RESPONSE_HEADER_BYTES + RFDC_APPLY_CHANNELS * RFDC_APPLY_RESPONSE_ENTRY_BYTES) = False"
    by (simp add: rfdc_sizes)
  show ?thesis
    unfolding parse_rfctrl2_rfdc_config_response_def Let_def assms(4) c len u ebind_Inr ne if_False g
      guard_raise_simps e prod.case
    by (simp add: rfdc_header_def)
qed

definition example_config :: rf_response where
  "example_config =
     \<lparr>rsp_version = 3, rsp_status = 0, rsp_opcode = 3, rsp_flags = 0, rsp_seq = 1, rsp_payload_bytes = 352,
      rsp_payload = rfdc_config_payload [1, 255, 0, 255, 0, 0, 0, 1]
        (replicate 8 [- 2400000000, 2, - 90000, 20000, 0, 7, 9, 11])\<rparr>"

lemma rfdc_readback_roundtrip_witness:
  "\<exists>config. parse_rfctrl2_rfdc_config_response example_config = Inr config \<and>
     rx_applied_mask config = 255 \<and> map rc_nco_hz (rx_channels config) = replicate 8 (- 2400000000)"
proof -
  have "parse_rfctrl2_rfdc_config_response example_config =
    Inr ((rfdc_header [1, 255, 0, 255, 0, 0, 0, 1])\<lparr>rx_channels := map2 rfdc_channel_of [1, 2, 3, 4, 5, 6, 7, 8]
      (replicate 8 [- 2400000000, 2, - 90000, 20000, 0, 7, 9, 11])\<rparr>)"
    by (rule rfdc_readback_roundtrip) (auto simp: example_config_def list_all_iff)
  then show ?thesis by (simp add: rfdc_header_def rfdc_channel_of_def numeral_eq_Suc)
qed

end
