(* ===== verification/Transport.thy ===== *)
theory Transport
  imports Rf_Protocol
begin

text \<open>
  The UDP transport of software/dr47/transport.py: closing, sending, the source filter, the
  receive loops and the request/retry loops, for both response formats. The socket is outside the
  program; it is the record \<open>socket\<close> below: the outcomes that its \<open>recvfrom\<close> and \<open>sendto\<close> calls
  will have, in order, and the log of what was sent. An exhausted receive script is a timeout,
  which is what a socket with a timeout does when nothing arrives; an exhausted send script is a
  successful send.
\<close>

section \<open>The socket\<close>

type_synonym sock_addr = "string \<times> int"

datatype recv_outcome = Datagram bytes "sock_addr option" | RecvTimeout | RecvOSError

datatype send_outcome = SendOk | SendTimeout | SendOSError

record socket =
  sk_rx :: "recv_outcome list"
  sk_tx :: "send_outcome list"
  sk_sent :: "bytes list"
  sk_open :: bool

record transport =
  tp_ip :: string
  tp_port :: int
  tp_closed :: bool
  tp_sock :: socket

text \<open>
  \<open>__init__\<close> with an injected socket: what the socket and the platform answer to the calls it makes
  is \<open>socket_caps\<close>. A failure after the socket exists closes it before it is re-raised.
\<close>

record socket_caps =
  sc_linux :: bool
  sc_has_setsockopt :: bool
  sc_bind_device_ok :: bool
  sc_bind_source_ok :: bool

definition transport_init ::
  "socket_caps \<Rightarrow> string \<Rightarrow> int \<Rightarrow> rat \<Rightarrow> string \<Rightarrow> string \<Rightarrow> socket \<Rightarrow> transport result \<times> socket" where
  "transport_init caps ip port timeout_s udp_interface udp_source_ip sock =
     (if timeout_s \<le> 0 then (Inl ValueError, sock)
      else let closed = sock\<lparr>sk_open := False\<rparr>;
               ready = (Inr \<lparr>tp_ip = ip, tp_port = port, tp_closed = False, tp_sock = sock\<rparr>, sock) in
        if udp_interface \<noteq> [] \<and> sc_linux caps \<and> \<not> sc_has_setsockopt caps then (Inl TransportError, closed)
        else if udp_interface \<noteq> [] \<and> sc_linux caps \<and> (\<exists>c \<in> set udp_interface. (of_char c :: nat) \<ge> 128)
        then (Inl ValueError, closed)
        else if udp_interface \<noteq> [] \<and> sc_linux caps \<and> \<not> sc_bind_device_ok caps then (Inl PermissionError, closed)
        else if udp_source_ip \<noteq> [] \<and> \<not> sc_bind_source_ok caps then (Inl OSError, closed)
        else ready)"

definition transport_close :: "transport \<Rightarrow> transport" where
  "transport_close t =
     (if tp_closed t then t
      else t\<lparr>tp_closed := True, tp_sock := (tp_sock t)\<lparr>sk_open := False\<rparr>\<rparr>)"

definition transport_send :: "bytes \<Rightarrow> transport \<Rightarrow> int result \<times> transport" where
  "transport_send packet t =
     (if tp_closed t then (Inl TransportError, t)
      else let s = tp_sock t; s' = s\<lparr>sk_tx := tl (sk_tx s)\<rparr> in
        case sk_tx s of
          SendTimeout # _ \<Rightarrow> (Inl TransportTimeout, t\<lparr>tp_sock := s'\<rparr>)
        | SendOSError # _ \<Rightarrow> (Inl TransportError, t\<lparr>tp_sock := s'\<rparr>)
        | _ \<Rightarrow> (Inr (int (length packet)), t\<lparr>tp_sock := s'\<lparr>sk_sent := sk_sent s @ [packet]\<rparr>\<rparr>))"

definition source_matches :: "transport \<Rightarrow> sock_addr option \<Rightarrow> bool" where
  "source_matches t addr =
     (case addr of
        None \<Rightarrow> False
      | Some (host, port) \<Rightarrow>
          if port \<noteq> tp_port t then False
          else tp_ip t \<in> {''255.255.255.255'', ''169.254.255.255''} \<or> host = tp_ip t)"

section \<open>Receiving one response\<close>

text \<open>
  The loop of \<open>receive_rfresp2\<close> and of \<open>receive_wave_response\<close>, which differ only in the decoder:
  \<open>parse\<close> is the decoder and \<open>seq_of\<close>, \<open>opcode_of\<close> the two fields the loop compares. The result
  carries the source address the code stores under \<open>"addr"\<close>; the second component is what is left
  in the socket.
\<close>

definition wanted :: "int option \<Rightarrow> int \<Rightarrow> bool" where
  "wanted expected actual = (case expected of None \<Rightarrow> True | Some e \<Rightarrow> actual = e AND 0xFFFFFFFF)"

fun receive_loop ::
  "(bytes \<Rightarrow> 'r result) \<Rightarrow> ('r \<Rightarrow> int) \<Rightarrow> ('r \<Rightarrow> int) \<Rightarrow> transport \<Rightarrow> int option \<Rightarrow> int option \<Rightarrow>
   recv_outcome list \<Rightarrow> ('r \<times> sock_addr option) result \<times> recv_outcome list" where
  "receive_loop parse seq_of opcode_of t es eo [] = (Inl TransportTimeout, [])"
| "receive_loop parse seq_of opcode_of t es eo (RecvTimeout # rx) = (Inl TransportTimeout, rx)"
| "receive_loop parse seq_of opcode_of t es eo (RecvOSError # rx) = (Inl TransportError, rx)"
| "receive_loop parse seq_of opcode_of t es eo (Datagram packet addr # rx) =
     (if \<not> source_matches t addr then receive_loop parse seq_of opcode_of t es eo rx
      else case parse packet of
        Inl e \<Rightarrow> (Inl e, rx)
      | Inr r \<Rightarrow>
          if \<not> wanted es (seq_of r) then receive_loop parse seq_of opcode_of t es eo rx
          else if \<not> wanted eo (opcode_of r) then receive_loop parse seq_of opcode_of t es eo rx
          else (Inr (r, addr), rx))"

definition receive_with ::
  "(bytes \<Rightarrow> 'r result) \<Rightarrow> ('r \<Rightarrow> int) \<Rightarrow> ('r \<Rightarrow> int) \<Rightarrow> int option \<Rightarrow> int option \<Rightarrow>
   transport \<Rightarrow> ('r \<times> sock_addr option) result \<times> transport" where
  "receive_with parse seq_of opcode_of es eo t =
     (if tp_closed t then (Inl TransportError, t)
      else let (res, rx) = receive_loop parse seq_of opcode_of t es eo (sk_rx (tp_sock t)) in
           (res, t\<lparr>tp_sock := (tp_sock t)\<lparr>sk_rx := rx\<rparr>\<rparr>))"

definition receive_rfresp2 ::
  "int option \<Rightarrow> int option \<Rightarrow> transport \<Rightarrow> (rf_response \<times> sock_addr option) result \<times> transport" where
  "receive_rfresp2 = receive_with (\<lambda>p. parse_rfresp2_packet p True) rsp_seq rsp_opcode"

definition receive_wave_response ::
  "int option \<Rightarrow> int option \<Rightarrow> transport \<Rightarrow> (wave_response \<times> sock_addr option) result \<times> transport" where
  "receive_wave_response = receive_with (\<lambda>p. parse_wave_response p True) wr_seq wr_opcode"

section \<open>Collecting every response before a deadline\<close>

text \<open>
  \<open>receive_rfresp2_many\<close>: \<open>clock\<close> is what \<open>time.monotonic()\<close> returns, first when the deadline is
  computed and then once per round of the loop; an exhausted clock is a reading past the deadline.
\<close>

fun receive_many_loop ::
  "transport \<Rightarrow> int option \<Rightarrow> int option \<Rightarrow> rat \<Rightarrow> rat list \<Rightarrow> recv_outcome list \<Rightarrow>
   (rf_response \<times> sock_addr option) list \<Rightarrow> (rf_response \<times> sock_addr option) list result \<times> recv_outcome list" where
  "receive_many_loop t es eo deadline [] rx acc = (Inr acc, rx)"
| "receive_many_loop t es eo deadline (now # clock) rx acc =
     (if deadline - now \<le> 0 then (Inr acc, rx)
      else case rx of
        [] \<Rightarrow> (Inr acc, [])
      | RecvTimeout # rx' \<Rightarrow> (Inr acc, rx')
      | RecvOSError # rx' \<Rightarrow> (Inl TransportError, rx')
      | Datagram packet addr # rx' \<Rightarrow>
          if \<not> source_matches t addr then receive_many_loop t es eo deadline clock rx' acc
          else case parse_rfresp2_packet packet True of
            Inl e \<Rightarrow> (Inl e, rx')
          | Inr r \<Rightarrow>
              if \<not> wanted es (rsp_seq r) then receive_many_loop t es eo deadline clock rx' acc
              else if \<not> wanted eo (rsp_opcode r) then receive_many_loop t es eo deadline clock rx' acc
              else receive_many_loop t es eo deadline clock rx' (acc @ [(r, addr)]))"

definition receive_rfresp2_many ::
  "int option \<Rightarrow> int option \<Rightarrow> rat \<Rightarrow> rat list \<Rightarrow> transport \<Rightarrow>
   (rf_response \<times> sock_addr option) list result \<times> transport" where
  "receive_rfresp2_many es eo timeout_s clock t =
     (case clock of
        [] \<Rightarrow> (Inr [], t)
      | t0 # readings \<Rightarrow>
          let (res, rx) = receive_many_loop t es eo (t0 + max 0 timeout_s) readings (sk_rx (tp_sock t)) [] in
          (res, t\<lparr>tp_sock := (tp_sock t)\<lparr>sk_rx := rx\<rparr>\<rparr>))"

section \<open>Requests\<close>

text \<open>
  What a request returns: the number of bytes sent when the caller does not wait, or a response.
  The loop runs \<open>attempts\<close> times; the pause before a retransmission has no effect on the state.
\<close>

datatype 'r reply = SentBytes int | Response 'r "sock_addr option"

fun request_loop ::
  "(int option \<Rightarrow> int option \<Rightarrow> transport \<Rightarrow> ('r \<times> sock_addr option) result \<times> transport) \<Rightarrow>
   bytes \<Rightarrow> int \<Rightarrow> int \<Rightarrow> bool \<Rightarrow> nat \<Rightarrow> transport \<Rightarrow> 'r reply result \<times> transport" where
  "request_loop recv packet seq opcode wait_response 0 t = (Inl AssertionError, t)"
| "request_loop recv packet seq opcode wait_response (Suc n) t =
     (case transport_send packet t of
        (Inl e, t1) \<Rightarrow> (Inl e, t1)
      | (Inr _, t1) \<Rightarrow>
          if \<not> wait_response then (Inr (SentBytes (int (length packet))), t1)
          else case recv (Some seq) (Some opcode) t1 of
            (Inr (r, addr), t2) \<Rightarrow> (Inr (Response r addr), t2)
          | (Inl e, t2) \<Rightarrow>
              if e = TransportTimeout \<and> n \<noteq> 0
              then request_loop recv packet seq opcode wait_response n t2
              else (Inl e, t2))"

definition request_attempts :: "int \<Rightarrow> nat" where
  "request_attempts retries = nat (max 0 retries + 1)"

definition transport_request ::
  "bytes \<Rightarrow> int \<Rightarrow> int \<Rightarrow> int \<Rightarrow> bool \<Rightarrow> transport \<Rightarrow> rf_response reply result \<times> transport" where
  "transport_request packet seq opcode retries wait_response t =
     request_loop receive_rfresp2 packet seq opcode wait_response (request_attempts retries) t"

definition transport_request_wave ::
  "bytes \<Rightarrow> int \<Rightarrow> int \<Rightarrow> int \<Rightarrow> bool \<Rightarrow> transport \<Rightarrow> wave_response reply result \<times> transport" where
  "transport_request_wave packet seq opcode retries wait_response t =
     request_loop receive_wave_response packet seq opcode wait_response (request_attempts retries) t"

definition RETRY_BACKOFF_MIN_S :: rat where "RETRY_BACKOFF_MIN_S = 2 / 1000"
definition RETRY_BACKOFF_MAX_S :: rat where "RETRY_BACKOFF_MAX_S = 50 / 1000"

definition retry_backoff_s :: "rat \<Rightarrow> rat" where
  "retry_backoff_s timeout_s = min RETRY_BACKOFF_MAX_S (max RETRY_BACKOFF_MIN_S timeout_s)"

section \<open>Decoders fail with protocol errors only\<close>

lemma parse_rfresp2_error: "parse_rfresp2_packet raw v = Inl e \<Longrightarrow> is_ProtocolError e"
  unfolding parse_rfresp2_packet_def Let_def
  by (auto simp: err_simps struct_unpack_from_def split: if_splits simp del: fields_dec.simps)

lemma wave_parse_ext_error:
  assumes "int (length payload) = wave_expected_size opcode" "1 \<le> opcode" "opcode \<le> 8"
  shows "wave_parse_ext opcode payload \<noteq> Inl e"
  using assms by (auto simp: wave_parse_ext_def wave_expected_size_def struct_unpack_from_def err_simps Let_def
      split: if_splits simp del: fields_dec.simps)

lemma parse_wave_response_error: "parse_wave_response raw v = Inl e \<Longrightarrow> is_ProtocolError e"
proof -
  assume a: "parse_wave_response raw v = Inl e"
  let ?h = "fields_dec [fQ, fQ, fQ] raw"
  let ?opc = "drop_bit 32 (?h ! 1)" and ?sz = "drop_bit 32 (?h ! 2)"
  let ?pl = "pyslice (nat WAVE_RESPONSE_HEADER_BYTES) (nat (WAVE_RESPONSE_HEADER_BYTES + ?sz)) raw"
  show ?thesis
  proof (rule ccontr)
    assume n: "\<not> is_ProtocolError e"
    with a have sz: "?sz = wave_expected_size ?opc" "1 \<le> ?opc" "?opc \<le> 8"
      and len: "int (length raw) = 24 + ((?sz + 7) AND NOT 7)"
      and x: "struct_unpack_from wave_common_fmt ?pl 0 = Inl e \<or> wave_parse_ext ?opc ?pl = Inl e"
      unfolding parse_wave_response_def Let_def
      by (auto simp: err_simps struct_unpack_from_def guard_raise_def split: if_splits option.splits
          simp del: fields_dec.simps)
    have "?sz \<in> {28, 60, 80}" by (simp only: sz(1) wave_expected_size_cases)
    with len have pl: "int (length ?pl) = ?sz" by (auto simp: length_pyslice)
    have "struct_unpack_from wave_common_fmt ?pl 0 \<noteq> Inl e"
      using pl \<open>?sz \<in> {28, 60, 80}\<close> by (auto simp: struct_unpack_from_def)
    moreover have "wave_parse_ext ?opc ?pl \<noteq> Inl e"
      by (rule wave_parse_ext_error) (use pl sz in simp_all)
    ultimately show False using x by blast
  qed
qed

section \<open>The receive loop\<close>

lemma receive_loop_answer:
  "receive_loop parse seq_of opcode_of t es eo rx = (Inr (r, addr), rx') \<Longrightarrow>
   source_matches t addr \<and> wanted es (seq_of r) \<and> wanted eo (opcode_of r) \<and>
   (\<exists>pre packet. rx = pre @ Datagram packet addr # rx' \<and> parse packet = Inr r)"
proof (induction rx)
  case (Cons x rx)
  show ?case
  proof (cases x)
    case (Datagram packet a)
    then show ?thesis using Cons
      by (auto split: if_splits sum.splits)
  qed (use Cons.prems in simp_all)
qed simp

lemma receive_loop_error:
  "receive_loop parse seq_of opcode_of t es eo rx = (Inl e, rx') \<Longrightarrow>
   e = TransportTimeout \<or> e = TransportError \<or> (\<exists>packet. parse packet = Inl e)"
proof (induction rx)
  case (Cons x rx)
  then show ?case by (cases x) (auto split: if_splits sum.splits)
qed simp

text \<open>A datagram that the loop passes over: from elsewhere, or the answer to another request.\<close>

definition passed_over ::
  "(bytes \<Rightarrow> 'r result) \<Rightarrow> ('r \<Rightarrow> int) \<Rightarrow> ('r \<Rightarrow> int) \<Rightarrow> transport \<Rightarrow> int option \<Rightarrow> int option \<Rightarrow>
   recv_outcome \<Rightarrow> bool" where
  "passed_over parse seq_of opcode_of t es eo x \<longleftrightarrow>
     (case x of
        Datagram packet addr \<Rightarrow> \<not> source_matches t addr \<or>
          (case parse packet of Inl _ \<Rightarrow> False | Inr r \<Rightarrow> \<not> wanted es (seq_of r) \<or> \<not> wanted eo (opcode_of r))
      | _ \<Rightarrow> False)"

lemma receive_loop_passes:
  "\<forall>x \<in> set noise. passed_over parse seq_of opcode_of t es eo x \<Longrightarrow>
   receive_loop parse seq_of opcode_of t es eo (noise @ rx) = receive_loop parse seq_of opcode_of t es eo rx"
proof (induction noise)
  case (Cons x noise)
  then show ?case by (cases x) (auto simp: passed_over_def split: sum.splits)
qed simp

section \<open>The request loop\<close>

lemma transport_send_cases:
  obtains (sent) t1 where "transport_send packet t = (Inr (int (length packet)), t1)"
      "sk_sent (tp_sock t1) = sk_sent (tp_sock t) @ [packet]"
      "sk_rx (tp_sock t1) = sk_rx (tp_sock t)" "tp_ip t1 = tp_ip t" "tp_port t1 = tp_port t" "\<not> tp_closed t" "\<not> tp_closed t1"
      "sk_tx (tp_sock t1) = tl (sk_tx (tp_sock t))"
    | (failed) e t1 where "transport_send packet t = (Inl e, t1)" "e \<in> {TransportError, TransportTimeout}"
      "sk_sent (tp_sock t1) = sk_sent (tp_sock t)"
proof (cases "tp_closed t")
  case True
  then have "transport_send packet t = (Inl TransportError, t)" by (simp add: transport_send_def)
  then show thesis by (rule failed) simp_all
next
  case False
  show thesis
  proof (cases "sk_tx (tp_sock t)")
    case Nil
    show thesis by (rule sent [of "snd (transport_send packet t)"]) (use Nil False in \<open>simp_all add: transport_send_def Let_def\<close>)
  next
    case (Cons x xs)
    show thesis
    proof (cases x)
      case SendOk
      show thesis by (rule sent [of "snd (transport_send packet t)"]) (use Cons SendOk False in \<open>simp_all add: transport_send_def Let_def\<close>)
    next
      case SendTimeout
      show thesis by (rule failed [of TransportTimeout "snd (transport_send packet t)"])
        (use Cons SendTimeout False in \<open>simp_all add: transport_send_def Let_def\<close>)
    next
      case SendOSError
      show thesis by (rule failed [of TransportError "snd (transport_send packet t)"])
        (use Cons SendOSError False in \<open>simp_all add: transport_send_def Let_def\<close>)
    qed
  qed
qed

text \<open>
  What the request loop relies on, whatever the response format: an answer has the requested
  sequence number and opcode and comes from the board, receiving sends nothing and keeps the
  address, and no exception of the receive path is the loop's own assertion.
\<close>

locale response_receiver =
  fixes recv :: "int option \<Rightarrow> int option \<Rightarrow> transport \<Rightarrow> ('r \<times> sock_addr option) result \<times> transport"
    and seq_of :: "'r \<Rightarrow> int"
    and opcode_of :: "'r \<Rightarrow> int"
  assumes recv_answer: "recv (Some s) (Some opc) t = (Inr (r, addr), t') \<Longrightarrow>
      seq_of r = s AND 0xFFFFFFFF \<and> opcode_of r = opc AND 0xFFFFFFFF \<and> source_matches t addr"
    and recv_sent: "sk_sent (tp_sock (snd (recv es eo t))) = sk_sent (tp_sock t)"
    and recv_address: "tp_ip (snd (recv es eo t)) = tp_ip t" "tp_port (snd (recv es eo t)) = tp_port t"
    and recv_error: "fst (recv es eo t) \<noteq> Inl AssertionError"
begin

lemma source_matches_recv: "source_matches (snd (recv es eo t)) = source_matches t"
  by (rule ext) (simp add: source_matches_def recv_address split: option.split)

lemma source_matches_send: "transport_send packet t = (x, t1) \<Longrightarrow> source_matches t1 = source_matches t"
  by (rule ext) (auto simp: source_matches_def transport_send_def Let_def split: if_splits list.splits
      send_outcome.splits option.splits)

lemma request_answer:
  "request_loop recv packet seq opcode w n t = (Inr (Response r addr), t') \<Longrightarrow>
   seq_of r = seq AND 0xFFFFFFFF \<and> opcode_of r = opcode AND 0xFFFFFFFF \<and> source_matches t addr"
proof (induction n arbitrary: t)
  case (Suc n)
  obtain x t1 where s: "transport_send packet t = (x, t1)" by force
  obtain y t2 where r: "recv (Some seq) (Some opcode) t1 = (y, t2)" by force
  have m: "source_matches t2 = source_matches t" "source_matches t1 = source_matches t"
    using source_matches_recv [of "Some seq" "Some opcode" t1] source_matches_send [OF s] r by simp_all
  show ?case
  proof (cases y)
    case (Inl e)
    then have "request_loop recv packet seq opcode w n t2 = (Inr (Response r addr), t')"
      using Suc.prems s r by (auto split: sum.splits if_splits)
    with Suc.IH [of t2] m show ?thesis by simp
  next
    case (Inr z)
    then have "recv (Some seq) (Some opcode) t1 = (Inr (r, addr), t2)"
      using Suc.prems s r by (auto split: sum.splits if_splits prod.splits)
    from recv_answer [OF this] m show ?thesis by simp
  qed
qed simp

lemma request_sends:
  "\<exists>k \<le> n. sk_sent (tp_sock (snd (request_loop recv packet seq opcode w n t))) =
     sk_sent (tp_sock t) @ replicate k packet"
proof (induction n arbitrary: t)
  case (Suc n)
  show ?case
  proof (cases packet t rule: transport_send_cases)
    case (sent t1)
    obtain y t2 where r: "recv (Some seq) (Some opcode) t1 = (y, t2)" by force
    have s2: "sk_sent (tp_sock t2) = sk_sent (tp_sock t) @ [packet]"
      using recv_sent [of "Some seq" "Some opcode" t1] r sent by simp
    show ?thesis
    proof (cases "w \<and> y = Inl TransportTimeout \<and> n \<noteq> 0")
      case True
      from Suc.IH [of t2] obtain k where "k \<le> n"
        "sk_sent (tp_sock (snd (request_loop recv packet seq opcode w n t2))) = sk_sent (tp_sock t2) @ replicate k packet"
        by blast
      then show ?thesis using True sent(1) r s2 by (intro exI [of _ "Suc k"]) simp
    next
      case False
      then have "sk_sent (tp_sock (snd (request_loop recv packet seq opcode w (Suc n) t))) = sk_sent (tp_sock t) @ [packet]"
        using sent r s2 by (auto split: sum.splits)
      then show ?thesis by (intro exI [of _ 1]) simp
    qed
  next
    case (failed e t1)
    then show ?thesis by (intro exI [of _ 0]) simp
  qed
qed simp

lemma request_no_assertion:
  "n \<noteq> 0 \<Longrightarrow> fst (request_loop recv packet seq opcode w n t) \<noteq> Inl AssertionError"
proof (induction n arbitrary: t)
  case (Suc n)
  show ?case
  proof (cases packet t rule: transport_send_cases)
    case (sent t1)
    obtain y t2 where r: "recv (Some seq) (Some opcode) t1 = (y, t2)" by force
    then have "y \<noteq> Inl AssertionError" using recv_error [of "Some seq" "Some opcode" t1] by simp
    then show ?thesis using sent(1) r Suc.IH [of t2] by (cases y) auto
  next
    case (failed e t1)
    then show ?thesis by auto
  qed
qed simp

end

lemma receive_with_frame:
  "sk_sent (tp_sock (snd (receive_with parse seq_of opcode_of es eo t))) = sk_sent (tp_sock t)"
  "tp_ip (snd (receive_with parse seq_of opcode_of es eo t)) = tp_ip t"
  "tp_port (snd (receive_with parse seq_of opcode_of es eo t)) = tp_port t"
  by (simp_all add: receive_with_def split_beta Let_def)

lemma receive_with_answer:
  "receive_with parse seq_of opcode_of (Some s) (Some opc) t = (Inr (r, addr), t') \<Longrightarrow>
   seq_of r = s AND 0xFFFFFFFF \<and> opcode_of r = opc AND 0xFFFFFFFF \<and> source_matches t addr"
  using receive_loop_answer [of parse seq_of opcode_of t "Some s" "Some opc" "sk_rx (tp_sock t)" r addr]
  by (auto simp: receive_with_def wanted_def split: if_splits prod.splits)

lemma receive_with_error:
  assumes "\<And>packet e. parse packet = Inl e \<Longrightarrow> is_ProtocolError e"
  shows "fst (receive_with parse seq_of opcode_of es eo t) \<noteq> Inl AssertionError"
proof
  assume a: "fst (receive_with parse seq_of opcode_of es eo t) = Inl AssertionError"
  then obtain rx' where "receive_loop parse seq_of opcode_of t es eo (sk_rx (tp_sock t)) = (Inl AssertionError, rx')"
    by (auto simp: receive_with_def split: if_splits prod.splits)
  from receive_loop_error [OF this] assms show False by force
qed

interpretation rf_recv: response_receiver receive_rfresp2 rsp_seq rsp_opcode
  by unfold_locales
    (auto simp: receive_rfresp2_def receive_with_frame receive_with_error parse_rfresp2_error
      dest: receive_with_answer)

interpretation wave_recv: response_receiver receive_wave_response wr_seq wr_opcode
  by unfold_locales
    (auto simp: receive_wave_response_def receive_with_frame receive_with_error parse_wave_response_error
      dest: receive_with_answer)

section \<open>Properties of requests\<close>

text \<open>
  C5. A request is one immutable packet: however the network behaves, the transport sends nothing
  but copies of that packet, at most one per attempt, never reaches its unreachable state, and a
  response it returns carries the request's own sequence number and opcode (as 32-bit fields) and
  comes from the board's address; this holds for RFCTRL2 and for waveform requests.
\<close>

theorem request_contract:
  "(\<exists>k \<le> request_attempts retries.
      sk_sent (tp_sock (snd (transport_request packet seq opcode retries w t))) = sk_sent (tp_sock t) @ replicate k packet) \<and>
   (\<exists>k \<le> request_attempts retries.
      sk_sent (tp_sock (snd (transport_request_wave packet seq opcode retries w t))) = sk_sent (tp_sock t) @ replicate k packet) \<and>
   fst (transport_request packet seq opcode retries w t) \<noteq> Inl AssertionError \<and>
   fst (transport_request_wave packet seq opcode retries w t) \<noteq> Inl AssertionError \<and>
   (fst (transport_request packet seq opcode retries w t) = Inr (Response r addr) \<longrightarrow>
      rsp_seq r = seq mod 2 ^ 32 \<and> rsp_opcode r = opcode mod 2 ^ 32 \<and> source_matches t addr) \<and>
   (fst (transport_request_wave packet seq opcode retries w t) = Inr (Response wr addr') \<longrightarrow>
      wr_seq wr = seq mod 2 ^ 32 \<and> wr_opcode wr = opcode mod 2 ^ 32 \<and> source_matches t addr')"
proof (intro conjI impI)
  have n: "request_attempts retries \<noteq> 0" by (simp add: request_attempts_def)
  show "\<exists>k \<le> request_attempts retries.
      sk_sent (tp_sock (snd (transport_request packet seq opcode retries w t))) = sk_sent (tp_sock t) @ replicate k packet"
    unfolding transport_request_def by (rule rf_recv.request_sends)
  show "\<exists>k \<le> request_attempts retries.
      sk_sent (tp_sock (snd (transport_request_wave packet seq opcode retries w t))) = sk_sent (tp_sock t) @ replicate k packet"
    unfolding transport_request_wave_def by (rule wave_recv.request_sends)
  show "fst (transport_request packet seq opcode retries w t) \<noteq> Inl AssertionError"
    unfolding transport_request_def by (rule rf_recv.request_no_assertion [OF n])
  show "fst (transport_request_wave packet seq opcode retries w t) \<noteq> Inl AssertionError"
    unfolding transport_request_wave_def by (rule wave_recv.request_no_assertion [OF n])
next
  assume "fst (transport_request packet seq opcode retries w t) = Inr (Response r addr)"
  then have "request_loop receive_rfresp2 packet seq opcode w (request_attempts retries) t =
      (Inr (Response r addr), snd (transport_request packet seq opcode retries w t))"
    by (simp add: transport_request_def prod_eq_iff)
  from rf_recv.request_answer [OF this]
  show "rsp_seq r = seq mod 2 ^ 32" "rsp_opcode r = opcode mod 2 ^ 32" "source_matches t addr"
    by (simp_all add: and_mask_numerals)
next
  assume "fst (transport_request_wave packet seq opcode retries w t) = Inr (Response wr addr')"
  then have "request_loop receive_wave_response packet seq opcode w (request_attempts retries) t =
      (Inr (Response wr addr'), snd (transport_request_wave packet seq opcode retries w t))"
    by (simp add: transport_request_wave_def prod_eq_iff)
  from wave_recv.request_answer [OF this]
  show "wr_seq wr = seq mod 2 ^ 32" "wr_opcode wr = opcode mod 2 ^ 32" "source_matches t addr'"
    by (simp_all add: and_mask_numerals)
qed

text \<open>An open transport whose sends will succeed and whose socket will deliver \<open>rx\<close>.\<close>

definition delivers :: "transport \<Rightarrow> recv_outcome list \<Rightarrow> bool" where
  "delivers t rx \<longleftrightarrow> \<not> tp_closed t \<and> sk_rx (tp_sock t) = rx \<and> (\<forall>x \<in> set (sk_tx (tp_sock t)). x = SendOk)"

abbreviation rf_passed :: "transport \<Rightarrow> int \<Rightarrow> int \<Rightarrow> recv_outcome \<Rightarrow> bool" where
  "rf_passed t seq opcode \<equiv> passed_over (\<lambda>p. parse_rfresp2_packet p True) rsp_seq rsp_opcode t (Some seq) (Some opcode)"

text \<open>\<open>lost\<close> is one attempt whose answer never arrives: passed-over datagrams, then a timeout.\<close>

fun lost_attempts :: "recv_outcome list list \<Rightarrow> recv_outcome list" where
  "lost_attempts [] = []"
| "lost_attempts (noise # rest) = noise @ RecvTimeout # lost_attempts rest"

lemma delivers_send:
  assumes "delivers t rx"
  obtains t1 where "transport_send packet t = (Inr (int (length packet)), t1)" "delivers t1 rx"
    "sk_sent (tp_sock t1) = sk_sent (tp_sock t) @ [packet]" "tp_ip t1 = tp_ip t" "tp_port t1 = tp_port t"
proof (cases packet t rule: transport_send_cases)
  case (sent t1)
  show thesis
  proof (rule that [OF sent(1)])
    show "delivers t1 rx"
      using assms sent unfolding delivers_def by (cases "sk_tx (tp_sock t)") auto
  qed (use sent in simp_all)
next
  case (failed e t1)
  have "sk_tx (tp_sock t) = [] \<or> (\<exists>xs. sk_tx (tp_sock t) = SendOk # xs)"
    using assms unfolding delivers_def by (cases "sk_tx (tp_sock t)") auto
  then show thesis using failed(1) assms by (auto simp: delivers_def transport_send_def Let_def)
qed

lemma source_matches_cong: "tp_ip t = tp_ip t' \<Longrightarrow> tp_port t = tp_port t' \<Longrightarrow> source_matches t = source_matches t'"
  by (rule ext) (simp add: source_matches_def split: option.split)

lemma passed_over_cong:
  "tp_ip t = tp_ip t' \<Longrightarrow> tp_port t = tp_port t' \<Longrightarrow>
   passed_over parse seq_of opcode_of t es eo = passed_over parse seq_of opcode_of t' es eo"
  using source_matches_cong [of t t'] by (auto simp: passed_over_def fun_eq_iff split: recv_outcome.split)

lemma receive_rfresp2_window:
  assumes "delivers t (noise @ rest)" "\<forall>x \<in> set noise. rf_passed t seq opcode x"
  shows "receive_rfresp2 (Some seq) (Some opcode) t =
    (let (res, rx) = receive_loop (\<lambda>p. parse_rfresp2_packet p True) rsp_seq rsp_opcode t (Some seq) (Some opcode) rest in
     (res, t\<lparr>tp_sock := (tp_sock t)\<lparr>sk_rx := rx\<rparr>\<rparr>))"
  using assms by (simp add: receive_rfresp2_def receive_with_def delivers_def receive_loop_passes)

lemma request_survives:
  assumes "delivers t (lost_attempts losses @ noise @ Datagram answer addr # rest)" "length losses < n"
    and "\<forall>w \<in> set (noise # losses). \<forall>x \<in> set w. rf_passed t seq opcode x"
    and "parse_rfresp2_packet answer True = Inr r" "rsp_seq r = seq mod 4294967296" "rsp_opcode r = opcode mod 4294967296"
    and "source_matches t addr"
  shows "\<exists>t'. request_loop receive_rfresp2 packet seq opcode True n t = (Inr (Response r addr), t') \<and>
     sk_sent (tp_sock t') = sk_sent (tp_sock t) @ replicate (Suc (length losses)) packet \<and> sk_rx (tp_sock t') = rest"
  using assms
proof (induction losses arbitrary: t n)
  case Nil
  from Nil.prems(2) obtain m where n: "n = Suc m" by (cases n) auto
  obtain t1 where t1: "transport_send packet t = (Inr (int (length packet)), t1)"
    "delivers t1 (noise @ Datagram answer addr # rest)"
    "sk_sent (tp_sock t1) = sk_sent (tp_sock t) @ [packet]" "tp_ip t1 = tp_ip t" "tp_port t1 = tp_port t"
    using delivers_send [of t "noise @ Datagram answer addr # rest" packet] Nil.prems(1) by auto
  have "\<forall>x \<in> set noise. rf_passed t1 seq opcode x"
    using Nil.prems(3) by (simp add: passed_over_cong [OF t1(4,5)])
  note w = receive_rfresp2_window [OF t1(2) this]
  have "receive_rfresp2 (Some seq) (Some opcode) t1 = (Inr (r, addr), t1\<lparr>tp_sock := (tp_sock t1)\<lparr>sk_rx := rest\<rparr>\<rparr>)"
    unfolding w using Nil.prems(4-7) source_matches_cong [OF t1(4,5)]
    by (simp add: wanted_def and_mask_numerals)
  then show ?case using n t1(1,3) by simp
next
  case (Cons l losses)
  from Cons.prems(2) obtain m where n: "n = Suc m" "m \<noteq> 0" "length losses < m" by (cases n) auto
  let ?rest = "lost_attempts losses @ noise @ Datagram answer addr # rest"
  obtain t1 where t1: "transport_send packet t = (Inr (int (length packet)), t1)"
    "delivers t1 (l @ RecvTimeout # ?rest)"
    "sk_sent (tp_sock t1) = sk_sent (tp_sock t) @ [packet]" "tp_ip t1 = tp_ip t" "tp_port t1 = tp_port t"
    using delivers_send [of t "l @ RecvTimeout # ?rest" packet] Cons.prems(1) by auto
  have "\<forall>x \<in> set l. rf_passed t1 seq opcode x"
    using Cons.prems(3) by (simp add: passed_over_cong [OF t1(4,5)])
  note w = receive_rfresp2_window [OF t1(2) this]
  let ?t2 = "t1\<lparr>tp_sock := (tp_sock t1)\<lparr>sk_rx := ?rest\<rparr>\<rparr>"
  have r: "receive_rfresp2 (Some seq) (Some opcode) t1 = (Inl TransportTimeout, ?t2)" unfolding w by simp
  have a: "tp_ip ?t2 = tp_ip t" "tp_port ?t2 = tp_port t" using t1 by simp_all
  have "\<exists>t'. request_loop receive_rfresp2 packet seq opcode True m ?t2 = (Inr (Response r addr), t') \<and>
     sk_sent (tp_sock t') = sk_sent (tp_sock ?t2) @ replicate (Suc (length losses)) packet \<and> sk_rx (tp_sock t') = rest"
  proof (rule Cons.IH)
    show "delivers ?t2 ?rest" using t1(2) by (simp add: delivers_def)
    show "\<forall>w \<in> set (noise # losses). \<forall>x \<in> set w. rf_passed ?t2 seq opcode x"
      using Cons.prems(3) by (simp only: passed_over_cong [OF a] list.set ball_simps) simp
    show "source_matches ?t2 addr" using Cons.prems(7) by (simp only: source_matches_cong [OF a])
  qed (use Cons.prems n in simp_all)
  then show ?case using n t1(1,3) r by auto
qed

text \<open>
  C6. Losing answers costs attempts, not commands: if fewer attempts than \<open>retries + 1\<close> run into a
  timeout and the matching response then arrives, the request returns exactly that response after
  one transmission per lost attempt and one more, whatever foreign datagrams and stale answers
  arrive in between; nothing behind the response is consumed.
\<close>

theorem request_survives_losses:
  assumes "delivers t (lost_attempts losses @ noise @ Datagram answer addr # rest)"
    and "int (length losses) \<le> retries"
    and "\<forall>w \<in> set (noise # losses). \<forall>x \<in> set w. rf_passed t seq opcode x"
    and "parse_rfresp2_packet answer True = Inr r" and "rsp_seq r = seq mod 2 ^ 32" and "rsp_opcode r = opcode mod 2 ^ 32"
    and "source_matches t addr"
  shows "\<exists>t'. transport_request packet seq opcode retries True t = (Inr (Response r addr), t') \<and>
     sk_sent (tp_sock t') = sk_sent (tp_sock t) @ replicate (length losses + 1) packet \<and> sk_rx (tp_sock t') = rest"
proof -
  have "length losses < request_attempts retries" using assms(2) by (simp add: request_attempts_def)
  from request_survives [OF assms(1) this assms(3,4)] assms(5-7) show ?thesis
    by (simp add: transport_request_def)
qed

definition example_transport :: "recv_outcome list \<Rightarrow> transport" where
  "example_transport rx = \<lparr>tp_ip = ''192.168.1.128'', tp_port = 1234, tp_closed = False,
     tp_sock = \<lparr>sk_rx = rx, sk_tx = [], sk_sent = [], sk_open = True\<rparr>\<rparr>"

lemma example_answer:
  "parse_rfresp2_packet (envelope UDP_RFRESP2_MAGIC RFCTRL2_VERSION 2 0 [] 7) True =
   Inr \<lparr>rsp_version = 3, rsp_status = 0, rsp_opcode = 2, rsp_flags = 0, rsp_seq = 7, rsp_payload_bytes = 0, rsp_payload = []\<rparr>"
  using parse_rfresp2_envelope [of RFCTRL2_VERSION 2 0 "[]" 7 True "[]"] by (simp add: envelope_ok_def)

definition example_loss :: "recv_outcome list" where
  "example_loss = [RecvTimeout, Datagram (envelope UDP_RFRESP2_MAGIC RFCTRL2_VERSION 2 0 [] 7) (Some (''192.168.1.128'', 1234))]"

lemma example_delivers:
  "delivers (example_transport example_loss)
     (lost_attempts [[]] @ [] @ Datagram (envelope UDP_RFRESP2_MAGIC RFCTRL2_VERSION 2 0 [] 7) (Some (''192.168.1.128'', 1234)) # [])"
  "source_matches (example_transport example_loss) (Some (''192.168.1.128'', 1234))"
  by (simp_all add: example_transport_def example_loss_def delivers_def source_matches_def)

theorem request_survives_losses_witness:
  "\<exists>t' r. transport_request [1, 2] 7 2 1 True (example_transport example_loss) =
     (Inr (Response r (Some (''192.168.1.128'', 1234))), t') \<and> length (sk_sent (tp_sock t')) = 2"
  using request_survives_losses [OF example_delivers(1) _ _ example_answer _ _ example_delivers(2), of 1 7 2 "[1, 2]"]
  by (auto simp: example_transport_def)

lemma example_request_answered:
  "\<exists>r addr. fst (transport_request [1, 2] 7 2 1 True (example_transport example_loss)) = Inr (Response r addr)"
proof -
  have "length [[] :: recv_outcome list] < request_attempts 1" by (simp add: request_attempts_def)
  from request_survives [OF example_delivers(1) this _ example_answer _ _ example_delivers(2), of 7 2 "[1, 2]"]
  show ?thesis by (auto simp: transport_request_def)
qed

theorem request_contract_witness:
  "\<exists>r addr. fst (transport_request [1, 2] 7 2 1 True (example_transport example_loss)) = Inr (Response r addr) \<and>
     rsp_seq r = 7 \<and> rsp_opcode r = 2 \<and> source_matches (example_transport example_loss) addr"
proof -
  obtain r addr where a: "fst (transport_request [1, 2] 7 2 1 True (example_transport example_loss)) = Inr (Response r addr)"
    using example_request_answered by blast
  with request_contract [of 1 "[1, 2]" 7 2 True "example_transport example_loss" r addr] show ?thesis by auto
qed

end
