(* ===== verification/Device.thy ===== *)
theory Device
  imports Prog Rf_Config Transport
begin

unbundle bit_operations_syntax

text \<open>
  The board object of \<open>dr47/device.py\<close>, with the value objects of \<open>dr47/capabilities.py\<close>: the
  request path over \<open>Transport\<close>, the response checks, the HELLO/STATUS handshake, and the methods
  that send one request each. The RFDC settings and the uploads are in \<open>Device_Rfdc\<close> and
  \<open>Device_Upload\<close>. The object is the record \<open>device\<close>; a method is a program on it. The socket, and
  what the operating system answers while the transport is constructed, are fields of the record,
  as is \<open>dv_clock\<close>, the successive values of \<open>time.monotonic()\<close>. The lock has no counterpart: one
  thread is modelled. Message texts are not kept.
\<close>

section \<open>Value objects\<close>

datatype playback_state = IDLE | UPLOAD | READY | PREFETCH | WAIT_TRIGGER | PLAYING | DRAINING | DONE | ERROR | FAULT

record rfdc_readback =
  rb_channel :: nat
  rb_nco_hz :: int
  rb_nyquist_zone :: int
  rb_nco_phase_deg :: pyfloat
  rb_dac_output_current_ma :: pyfloat
  rb_status :: int
  rb_nco_word :: int
  rb_phase_word :: int
  rb_vop_code :: int

record capabilities =
  cp_device_uid :: string
  cp_protocol_version :: int
  cp_build_profile_id :: int
  cp_build_profile :: string
  cp_source_commit_id :: int
  cp_trigger_path_version :: int
  cp_capability_bits :: int
  cp_state_flags :: int
  cp_rfdc_ready :: bool
  cp_dac_mts_required :: bool
  cp_dac_mts_ready :: bool
  cp_dac_mts_failed :: bool
  cp_dac_mts_tile_mask :: int
  cp_dac_mts_error :: int
  cp_nco_sync_ready :: bool
  cp_nco_sync_epoch :: int
  cp_trigger_input_count :: int
  cp_trigger_accepted_count :: int
  cp_trigger_output_count :: int
  cp_ext_trigger_phase_slot :: int
  cp_ext_trigger_phase_valid :: bool
  cp_ext_trigger_phase_overflow :: bool
  cp_ext_trigger_phase_metastable :: bool
  cp_ext_trigger_tap_index :: int
  cp_ext_trigger_phase_ps_x10 :: int
  cp_playback_admitted_count :: int
  cp_playback_skipped_count :: int
  cp_config_valid_mask :: int
  cp_playback_state :: playback_state
  cp_playback_armed :: bool
  cp_playback_prepared :: bool
  cp_playback_running :: bool
  cp_rfdc_readback :: "rfdc_readback list"

definition default_capabilities :: capabilities where
  "default_capabilities =
     \<lparr>cp_device_uid = [], cp_protocol_version = 0, cp_build_profile_id = 0, cp_build_profile = [],
      cp_source_commit_id = 0, cp_trigger_path_version = 0, cp_capability_bits = 0, cp_state_flags = 0,
      cp_rfdc_ready = False, cp_dac_mts_required = False, cp_dac_mts_ready = False,
      cp_dac_mts_failed = False, cp_dac_mts_tile_mask = 0, cp_dac_mts_error = 0,
      cp_nco_sync_ready = False, cp_nco_sync_epoch = 0, cp_trigger_input_count = 0,
      cp_trigger_accepted_count = 0, cp_trigger_output_count = 0, cp_ext_trigger_phase_slot = 0,
      cp_ext_trigger_phase_valid = False, cp_ext_trigger_phase_overflow = False,
      cp_ext_trigger_phase_metastable = False, cp_ext_trigger_tap_index = 0,
      cp_ext_trigger_phase_ps_x10 = 0, cp_playback_admitted_count = 0, cp_playback_skipped_count = 0,
      cp_config_valid_mask = 0, cp_playback_state = IDLE, cp_playback_armed = False,
      cp_playback_prepared = False, cp_playback_running = False, cp_rfdc_readback = []\<rparr>"

definition caps_online :: "capabilities \<Rightarrow> bool" where
  "caps_online caps \<longleftrightarrow> cp_protocol_version caps > 0"

definition caps_has :: "capabilities \<Rightarrow> int \<Rightarrow> bool" where
  "caps_has caps capability \<longleftrightarrow> cp_capability_bits caps AND capability \<noteq> 0"

record device_status =
  ds_connected :: bool
  ds_ip :: string
  ds_port :: int
  ds_state :: playback_state
  ds_capabilities :: capabilities

definition status_online :: "device_status \<Rightarrow> bool" where
  "status_online s \<longleftrightarrow> ds_connected s"

section \<open>The object\<close>

record device =
  dv_ip :: string
  dv_port :: int
  dv_timeout_s :: rat
  dv_udp_interface :: string
  dv_udp_source_ip :: string
  dv_retries :: int
  dv_batch_mode :: bool
  dv_expected_build_profile_id :: "int option"
  dv_expected_trigger_path_version :: "int option"
  dv_expected_source_commit_id :: "int option"
  dv_transport :: "transport option"
  dv_has_request :: bool
  dv_owns_transport :: bool
  dv_connected :: bool
  dv_closed :: bool
  dv_sequence :: int
  dv_run_id :: int
  dv_channel_mask :: int
  dv_mask_explicit :: bool
  dv_pending_nco :: "nat \<Rightarrow> pynum"
  dv_pending_zone :: "nat \<Rightarrow> pynum"
  dv_pending_phase :: "nat \<Rightarrow> pynum"
  dv_pending_current :: "nat \<Rightarrow> pynum"
  dv_pending_revision :: int
  dv_capabilities :: capabilities
  dv_status :: device_status
  dv_socket_caps :: socket_caps
  dv_new_socket :: socket
  dv_clock :: "rat list"

text \<open>\<open>__init__\<close>: \<open>time_ns\<close> seeds the sequence, and a zero becomes one.\<close>

definition device_init ::
  "string \<Rightarrow> int \<Rightarrow> rat \<Rightarrow> string \<Rightarrow> string \<Rightarrow> int \<Rightarrow> bool \<Rightarrow> transport option \<Rightarrow> bool \<Rightarrow>
   int option \<Rightarrow> int option \<Rightarrow> int option \<Rightarrow> int \<Rightarrow> socket_caps \<Rightarrow> socket \<Rightarrow> rat list \<Rightarrow> device" where
  "device_init ip port timeout_s udp_interface udp_source_ip retries batch_mode transport has_request
     profile trigger_path source_commit time_ns caps sock clock =
     \<lparr>dv_ip = ip, dv_port = port, dv_timeout_s = timeout_s, dv_udp_interface = udp_interface,
      dv_udp_source_ip = udp_source_ip, dv_retries = max 0 retries, dv_batch_mode = batch_mode,
      dv_expected_build_profile_id = profile, dv_expected_trigger_path_version = trigger_path,
      dv_expected_source_commit_id = map_option (\<lambda>c. c AND 0xFFFFFFFF) source_commit,
      dv_transport = transport, dv_has_request = has_request, dv_owns_transport = (transport = None),
      dv_connected = False, dv_closed = False,
      dv_sequence = (let s = time_ns AND 0xFFFFFFFF in if s = 0 then 1 else s), dv_run_id = 1,
      dv_channel_mask = 0, dv_mask_explicit = False,
      dv_pending_nco = (\<lambda>_. NFloat (Fin 0)), dv_pending_zone = (\<lambda>_. NInt 1),
      dv_pending_phase = (\<lambda>_. NFloat (Fin 0)), dv_pending_current = (\<lambda>_. NFloat (Fin 20)),
      dv_pending_revision = 0, dv_capabilities = default_capabilities,
      dv_status = \<lparr>ds_connected = False, ds_ip = ip, ds_port = port, ds_state = IDLE,
                   ds_capabilities = default_capabilities\<rparr>,
      dv_socket_caps = caps, dv_new_socket = sock, dv_clock = clock\<rparr>"

definition connected :: "device \<Rightarrow> bool" where
  "connected d \<longleftrightarrow> dv_connected d \<and> \<not> dv_closed d"

text \<open>The \<open>transport\<close> property constructs the UDP transport on first use.\<close>

definition get_transport :: "(device, transport) prog" where
  "get_transport d =
     (case dv_transport d of
        Some t \<Rightarrow> (Inr t, d)
      | None \<Rightarrow>
          (case fst (transport_init (dv_socket_caps d) (dv_ip d) (dv_port d) (dv_timeout_s d)
                       (dv_udp_interface d) (dv_udp_source_ip d) (dv_new_socket d)) of
             Inl e \<Rightarrow> (Inl e, d)
           | Inr t \<Rightarrow> (Inr t, d\<lparr>dv_transport := Some t, dv_owns_transport := True\<rparr>)))"

definition on_transport :: "(transport \<Rightarrow> 'a result \<times> transport) \<Rightarrow> (device, 'a) prog" where
  "on_transport f =
     pbind get_transport (\<lambda>t d. case f t of (r, t') \<Rightarrow> (r, d\<lparr>dv_transport := Some t'\<rparr>))"

definition next_sequence :: "(device, int) prog" where
  "next_sequence d =
     (let value = dv_sequence d in
      (Inr value, d\<lparr>dv_sequence := (if value = 0xFFFFFFFF then 1 else value + 1)\<rparr>))"

text \<open>The sequence number of a method with an optional \<open>seq\<close> argument.\<close>

definition choose_sequence :: "int option \<Rightarrow> (device, int) prog" where
  "choose_sequence seq = (case seq of None \<Rightarrow> next_sequence | Some s \<Rightarrow> pret s)"

text \<open>An injected transport without \<open>request\<close> is driven through \<open>send\<close> and \<open>receive_rfresp2\<close>.\<close>

definition minimal_request ::
  "bytes \<Rightarrow> int \<Rightarrow> int \<Rightarrow> bool \<Rightarrow> transport \<Rightarrow> rf_response reply result \<times> transport" where
  "minimal_request packet seq opcode wait_response t =
     (case transport_send packet t of
        (Inl e, t1) \<Rightarrow> (Inl e, t1)
      | (Inr _, t1) \<Rightarrow>
          if \<not> wait_response then (Inr (SentBytes (int (length packet))), t1)
          else case receive_rfresp2 (Some seq) (Some opcode) t1 of
            (Inl e, t2) \<Rightarrow> (Inl e, t2)
          | (Inr (r, addr), t2) \<Rightarrow> (Inr (Response r addr), t2))"

definition device_request ::
  "bytes \<Rightarrow> int \<Rightarrow> int \<Rightarrow> bool \<Rightarrow> int option \<Rightarrow> (device, rf_response reply) prog" where
  "device_request packet opcode seq wait_response retries =
     pcatch
       (pbind (pgets (\<lambda>d. (dv_has_request d, dv_retries d))) (\<lambda>(has_request, default_retries).
          on_transport (if has_request
            then transport_request packet seq opcode
                   (case retries of None \<Rightarrow> default_retries | Some n \<Rightarrow> n) wait_response
            else minimal_request packet seq opcode wait_response)))
       (\<lambda>e. if e = TransportTimeout then praise e
            else if is_OSError e then praise ConnectionError else praise e)"

definition check_response :: "rf_response reply \<Rightarrow> string \<Rightarrow> rf_response result" where
  "check_response reply operation =
     (case reply of
        SentBytes _ \<Rightarrow> Inl (DeviceStatusError operation 0xFFFF)
      | Response r _ \<Rightarrow>
          if rsp_version r \<noteq> RFCTRL2_VERSION then Inl ProtocolVersionError
          else let status = rsp_status r in
            if status = RF2_STATUS_OK then Inr r
            else if status = RF2_STATUS_BAD_VERSION then Inl ProtocolVersionError
            else if status = RF2_STATUS_BUSY then Inl (DeviceBusyError operation (status AND 0xFFFF))
            else if status = RF2_STATUS_RFDC_NOT_READY then Inl (DeviceNotReadyError operation (status AND 0xFFFF))
            else if status = RF2_STATUS_UNSUPPORTED then Inl (UnsupportedCapabilityError operation)
            else if status = RF2_STATUS_RANGE then Inl ParameterRangeError
            else Inl (DeviceStatusError operation (status AND 0xFFFF)))"

section \<open>Status\<close>

definition state_of_status :: "rf_status \<Rightarrow> playback_state" where
  "state_of_status s =
     (if st_running s then PLAYING else if st_prepared s then WAIT_TRIGGER
      else if st_armed s then READY else IDLE)"

definition capabilities_of_status :: "capabilities \<Rightarrow> rf_response \<Rightarrow> rf_status \<Rightarrow> capabilities" where
  "capabilities_of_status old response s =
     \<lparr>cp_device_uid = cp_device_uid old, cp_protocol_version = rsp_version response,
      cp_build_profile_id = st_build_profile_id s, cp_build_profile = st_build_profile s,
      cp_source_commit_id = st_source_commit_id s AND 0xFFFFFFFF,
      cp_trigger_path_version = st_trigger_path_version s AND 0xFFFFFFFF,
      cp_capability_bits = st_capabilities s, cp_state_flags = st_state_flags s,
      cp_rfdc_ready = st_rfdc_ready s, cp_dac_mts_required = st_dac_mts_required s,
      cp_dac_mts_ready = st_dac_mts_ready s, cp_dac_mts_failed = st_dac_mts_failed s,
      cp_dac_mts_tile_mask = st_dac_mts_tile_mask s AND 0xF,
      cp_dac_mts_error = st_dac_mts_error s AND 0xFFFF, cp_nco_sync_ready = st_nco_sync_ready s,
      cp_nco_sync_epoch = st_nco_sync_epoch s AND 0xFFFFFFFF,
      cp_trigger_input_count = st_trigger_input_count s AND 0xFFFFFFFF,
      cp_trigger_accepted_count = st_trigger_accepted_count s AND 0xFFFFFFFF,
      cp_trigger_output_count = st_trigger_output_count s AND 0xFFFFFFFF,
      cp_ext_trigger_phase_slot = st_ext_trigger_phase_slot s AND 0x7,
      cp_ext_trigger_phase_valid = st_ext_trigger_phase_valid s,
      cp_ext_trigger_phase_overflow = st_ext_trigger_phase_overflow s,
      cp_ext_trigger_phase_metastable = st_ext_trigger_phase_metastable s,
      cp_ext_trigger_tap_index = st_ext_trigger_tap_index s AND 0xFF,
      cp_ext_trigger_phase_ps_x10 = st_ext_trigger_phase_ps_x10 s AND 0xFFFF,
      cp_playback_admitted_count = st_playback_admitted_count s AND 0xFFFFFFFF,
      cp_playback_skipped_count = st_playback_skipped_count s AND 0xFFFFFFFF,
      cp_config_valid_mask = st_config_valid_mask s AND 0xFF, cp_playback_state = state_of_status s,
      cp_playback_armed = st_armed s, cp_playback_prepared = st_prepared s,
      cp_playback_running = st_running s, cp_rfdc_readback = []\<rparr>"

definition update_from_status :: "rf_response \<Rightarrow> (device, unit) prog" where
  "update_from_status response = pmodify (\<lambda>d.
     let s = parse_rfctrl2_status_payload (rsp_payload response);
         caps = capabilities_of_status (dv_capabilities d) response s in
     d\<lparr>dv_capabilities := caps,
       dv_status := \<lparr>ds_connected = dv_connected d, ds_ip = dv_ip d, ds_port = dv_port d,
                     ds_state = state_of_status s, ds_capabilities = caps\<rparr>\<rparr>)"

definition validate_identity :: "rf_response \<Rightarrow> (device, unit) prog" where
  "validate_identity response d =
     (let payload = rsp_payload response; s = parse_rfctrl2_status_payload payload in
      if length payload < 112 then (Inr (), d)
      else if dv_expected_build_profile_id d \<notin> {None, Some (st_build_profile_id s)}
        then (Inl ProtocolVersionError, d)
      else if dv_expected_trigger_path_version d \<notin> {None, Some (st_trigger_path_version s)}
        then (Inl ProtocolVersionError, d)
      else if dv_expected_source_commit_id d \<notin> {None, Some (st_source_commit_id s)}
        then (Inl ProtocolVersionError, d)
      else (Inr (), d))"

section \<open>The handshake\<close>

definition set_connected :: "bool \<Rightarrow> (device, unit) prog" where
  "set_connected b = pmodify (\<lambda>d. d\<lparr>dv_connected := b\<rparr>)"

definition handshake :: "(device, int) prog" where
  "handshake =
     pbind next_sequence (\<lambda>hello_seq.
     pbind (plift (pack_rfctrl2_hello hello_seq)) (\<lambda>packet.
     pbind (device_request packet RF2_OP_HELLO hello_seq True None) (\<lambda>reply.
     pbind (plift (check_response reply ''HELLO'')) (\<lambda>hello.
     pthen (validate_identity hello) (
     pthen (set_connected True) (
     pthen (update_from_status hello) (
     pbind next_sequence (\<lambda>status_seq.
     pbind (plift (pack_rfctrl2_status status_seq)) (\<lambda>packet.
     pbind (device_request packet RF2_OP_STATUS status_seq True None) (\<lambda>reply.
     pbind (plift (check_response reply ''STATUS'')) (\<lambda>status.
     pthen (validate_identity status) (
     pthen (update_from_status status) (pret 0)))))))))))))"

fun connect_attempts :: "nat \<Rightarrow> (device, int) prog" where
  "connect_attempts 0 = pret 0"
| "connect_attempts (Suc n) =
     pcatch handshake (\<lambda>e.
       if e = TransportTimeout
       then pthen (set_connected False) (if n \<noteq> 0 then connect_attempts n else praise e)
       else praise e)"

definition passes_connect :: "pyerror \<Rightarrow> bool" where
  "passes_connect e \<longleftrightarrow>
     e = ConnectionError \<or> e = ProtocolVersionError \<or> is_DeviceStatusError e \<or>
     is_UnsupportedCapabilityError e \<or> e = TransportTimeout"

definition device_connect :: "(device, int) prog" where
  "device_connect =
     pbind (pgets dv_closed) (\<lambda>closed.
     if closed then praise ConnectionStateError
     else pcatch (connect_attempts 2) (\<lambda>e.
       pthen (pmodify (\<lambda>d. d\<lparr>dv_connected := False,
         dv_status := \<lparr>ds_connected = False, ds_ip = dv_ip d, ds_port = dv_port d, ds_state = FAULT,
                       ds_capabilities = dv_capabilities d\<rparr>\<rparr>))
       (praise (if passes_connect e then e else ConnectionError))))"

definition device_status_op :: "bool \<Rightarrow> (device, device_status) prog" where
  "device_status_op refresh =
     pbind (pgets connected) (\<lambda>online.
     pthen (if refresh \<and> online then
         pbind next_sequence (\<lambda>seq.
         pbind (plift (pack_rfctrl2_status seq)) (\<lambda>packet.
         pbind (device_request packet RF2_OP_STATUS seq True None) (\<lambda>reply.
         pbind (plift (check_response reply ''STATUS'')) (\<lambda>response. update_from_status response))))
       else pret ())
     (pgets dv_status))"

definition require_connected :: "(device, unit) prog" where
  "require_connected = pbind (pgets connected) (\<lambda>online. praise_if (\<not> online) ConnectionStateError)"

section \<open>Methods that send one RFCTRL2 request\<close>

definition rfctrl2_hello :: "int option \<Rightarrow> bool \<Rightarrow> (device, rf_response reply) prog" where
  "rfctrl2_hello seq wait_response =
     pbind (choose_sequence seq) (\<lambda>sequence.
     pbind (plift (pack_rfctrl2_hello sequence)) (\<lambda>packet.
     device_request packet RF2_OP_HELLO sequence wait_response None))"

definition rfctrl2_status :: "int option \<Rightarrow> bool \<Rightarrow> int option \<Rightarrow> (device, rf_response reply) prog" where
  "rfctrl2_status seq wait_response retries =
     pbind (choose_sequence seq) (\<lambda>sequence.
     pbind (plift (pack_rfctrl2_status sequence)) (\<lambda>packet.
     device_request packet RF2_OP_STATUS sequence wait_response retries))"

definition device_read_diagnostics :: "(device, rf_diagnostics) prog" where
  "device_read_diagnostics =
     pthen require_connected (
     pbind next_sequence (\<lambda>seq.
     pbind (plift (pack_rfctrl2_diag_snapshot seq)) (\<lambda>packet.
     pbind (device_request packet RF2_OP_DIAG_SNAPSHOT seq True None) (\<lambda>reply.
     pbind (plift (check_response reply ''DIAG_SNAPSHOT'')) (\<lambda>response.
     pret (parse_rfctrl2_diagnostics_payload (rsp_payload response)))))))"

definition clear_diagnostics :: "int \<Rightarrow> bool \<Rightarrow> (device, rf_response) prog" where
  "clear_diagnostics events counters =
     pthen require_connected (
     pbind next_sequence (\<lambda>seq.
     pbind (plift (pack_rfctrl2_diag_control events counters seq)) (\<lambda>packet.
     pbind (device_request packet RF2_OP_DIAG_CONTROL seq True (Some 0)) (\<lambda>reply.
     plift (check_response reply ''DIAG_CONTROL'')))))"

definition tdc_register :: "pyval \<Rightarrow> bool \<Rightarrow> pyval \<Rightarrow> (device, int) prog" where
  "tdc_register address write data =
     pthen require_connected (
     pbind next_sequence (\<lambda>sequence.
     pbind (plift (pack_rfctrl2_tdc_register address (PyBool write) data sequence)) (\<lambda>packet.
     pbind (device_request packet RF2_OP_TDC_REG sequence True (if write then Some 0 else None)) (\<lambda>reply.
     pbind (plift (check_response reply ''TDC_REG'')) (\<lambda>response.
     pbind (plift (operator_index address)) (\<lambda>a.
     plift (parse_rfctrl2_tdc_register_response response a)))))))"

definition read_tdc_register :: "pyval \<Rightarrow> (device, int) prog" where
  "read_tdc_register address = tdc_register address False (PyInt 0)"

definition write_tdc_register :: "pyval \<Rightarrow> pyval \<Rightarrow> (device, int) prog" where
  "write_tdc_register address data = tdc_register address True data"

text \<open>A method that may not wait returns the number of bytes sent instead of a decoded response.\<close>

datatype 'a answer = NotAwaited int | Answer 'a

definition awaited ::
  "bool \<Rightarrow> string \<Rightarrow> (rf_response \<Rightarrow> (device, 'a) prog) \<Rightarrow> rf_response reply \<Rightarrow> (device, 'a answer) prog" where
  "awaited wait_response operation decode reply =
     (case (wait_response, reply) of
        (False, SentBytes n) \<Rightarrow> pret (NotAwaited n)
      | _ \<Rightarrow> pbind (plift (check_response reply operation)) (\<lambda>response.
              pbind (decode response) (\<lambda>x. pret (Answer x))))"

definition rfctrl2_network_get :: "int option \<Rightarrow> bool \<Rightarrow> int option \<Rightarrow> (device, network_info answer) prog" where
  "rfctrl2_network_get seq wait_response retries =
     pbind (choose_sequence seq) (\<lambda>sequence.
     pbind (plift (pack_rfctrl2_network_get sequence)) (\<lambda>packet.
     pbind (device_request packet RF2_OP_NETWORK_GET sequence wait_response retries)
       (awaited wait_response ''NETWORK_GET'' (\<lambda>r. plift (parse_rfctrl2_network_response r)))))"

definition rfctrl2_network_apply ::
  "int \<Rightarrow> string \<Rightarrow> string \<Rightarrow> string \<Rightarrow> string \<Rightarrow> int \<Rightarrow> int option \<Rightarrow> bool \<Rightarrow> int option \<Rightarrow>
   (device, network_info answer) prog" where
  "rfctrl2_network_apply revision ip mac subnet_mask gateway port seq wait_response retries =
     pbind (choose_sequence seq) (\<lambda>sequence.
     pbind (plift (pack_rfctrl2_network_apply revision ip mac subnet_mask gateway port sequence)) (\<lambda>packet.
     pbind (device_request packet RF2_OP_NETWORK_APPLY sequence wait_response retries)
       (awaited wait_response ''NETWORK_APPLY'' (\<lambda>r. plift (parse_rfctrl2_network_response r)))))"

definition rfctrl2_network_restart :: "int option \<Rightarrow> bool \<Rightarrow> int option \<Rightarrow> (device, network_info answer) prog" where
  "rfctrl2_network_restart seq wait_response retries =
     pbind (choose_sequence seq) (\<lambda>sequence.
     pbind (plift (pack_rfctrl2_network_restart sequence)) (\<lambda>packet.
     pbind (device_request packet RF2_OP_NETWORK_RESTART sequence wait_response retries)
       (awaited wait_response ''NETWORK_RESTART'' (\<lambda>r. plift (parse_rfctrl2_network_response r)))))"

section \<open>Methods that send one wave request\<close>

definition wave_request :: "bytes result \<Rightarrow> int \<Rightarrow> int \<Rightarrow> (device, wave_response reply) prog" where
  "wave_request packet opcode seq =
     pbind (plift packet) (\<lambda>packet.
     pbind (pgets dv_retries) (\<lambda>retries.
     on_transport (transport_request_wave packet seq opcode retries True)))"

definition check_wave_response :: "wave_response reply \<Rightarrow> string \<Rightarrow> wave_response result" where
  "check_wave_response reply operation =
     (case reply of
        SentBytes _ \<Rightarrow> Inl TypeError
      | Response r _ \<Rightarrow>
          if wr_status r \<noteq> WAVE_STATUS_OK then Inl (DeviceStatusError operation (wr_status r AND 0xFFFF))
          else Inr r)"

text \<open>\<open>_require_connected\<close>, a sequence number, the packet and the request.\<close>

definition wave_call :: "(pyval \<Rightarrow> bytes result) \<Rightarrow> int \<Rightarrow> (device, wave_response reply) prog" where
  "wave_call pack opcode =
     pthen require_connected (pbind next_sequence (\<lambda>seq. wave_request (pack (PyInt seq)) opcode seq))"

definition device_waveform_status :: "pyval \<Rightarrow> (device, wave_response reply) prog" where
  "device_waveform_status session = wave_call (pack_wave_status session) WAVE_OP_STATUS"

definition device_begin_waveform ::
  "pyval \<Rightarrow> pyval \<Rightarrow> pyval \<Rightarrow> pyval \<Rightarrow> pyval \<Rightarrow> pyval \<Rightarrow> (device, wave_response reply) prog" where
  "device_begin_waveform session total_bytes channel_mask total_beats loop_count layout =
     wave_call (pack_wave_begin session total_bytes channel_mask total_beats loop_count layout) WAVE_OP_BEGIN"

definition device_data_waveform ::
  "pyval \<Rightarrow> pyval \<Rightarrow> pyval \<Rightarrow> bytes \<Rightarrow> (device, wave_response reply) prog" where
  "device_data_waveform session packet_seq byte_offset payload =
     wave_call (pack_wave_data session packet_seq byte_offset payload) WAVE_OP_DATA"

definition device_commit_waveform :: "pyval \<Rightarrow> (device, wave_response reply) prog" where
  "device_commit_waveform session = wave_call (pack_wave_commit session) WAVE_OP_COMMIT"

definition device_play :: "pyval \<Rightarrow> (device, wave_response reply) prog" where
  "device_play session = wave_call (pack_wave_play session) WAVE_OP_PLAY"

definition device_pause :: "pyval \<Rightarrow> (device, wave_response reply) prog" where
  "device_pause session = wave_call (pack_wave_pause session) WAVE_OP_PAUSE"

definition device_stop :: "pyval \<Rightarrow> (device, wave_response reply) prog" where
  "device_stop session = wave_call (pack_wave_stop session) WAVE_OP_STOP"

definition device_abort :: "pyval \<Rightarrow> (device, wave_response reply) prog" where
  "device_abort session = wave_call (pack_wave_abort session) WAVE_OP_ABORT"

section \<open>Closing\<close>

definition device_close :: "(device, unit) prog" where
  "device_close = pmodify (\<lambda>d.
     d\<lparr>dv_closed := True, dv_connected := False,
       dv_transport := (if dv_owns_transport d then map_option transport_close (dv_transport d) else dv_transport d),
       dv_status := \<lparr>ds_connected = False, ds_ip = dv_ip d, ds_port = dv_port d, ds_state = IDLE,
                     ds_capabilities = dv_capabilities d\<rparr>\<rparr>)"

definition device_enter :: "(device, int) prog" where
  "device_enter = device_connect"

definition device_exit :: "(device, bool) prog" where
  "device_exit = pthen device_close (pret False)"

section \<open>What a request changes\<close>

text \<open>Every datagram the object has sent: through its transport, or before it has one.\<close>

definition dv_sent :: "device \<Rightarrow> bytes list" where
  "dv_sent d = sk_sent (case dv_transport d of Some t \<Rightarrow> tp_sock t | None \<Rightarrow> dv_new_socket d)"

definition transport_part :: "device \<Rightarrow> device \<Rightarrow> bool" where
  "transport_part d d' \<longleftrightarrow> (\<exists>t b. d' = d\<lparr>dv_transport := t, dv_owns_transport := b\<rparr>)"

lemma transport_part_refl: "transport_part d d"
  unfolding transport_part_def by (intro exI [of _ "dv_transport d"] exI [of _ "dv_owns_transport d"]) simp

lemma transport_part_trans: "transport_part d d' \<Longrightarrow> transport_part d' d'' \<Longrightarrow> transport_part d d''"
  unfolding transport_part_def by clarsimp (rule exI, rule exI, rule refl)

lemma transport_part_fields:
  assumes "transport_part d d'"
  shows "dv_closed d' = dv_closed d" "dv_connected d' = dv_connected d" "dv_sequence d' = dv_sequence d"
    "dv_run_id d' = dv_run_id d" "dv_capabilities d' = dv_capabilities d" "dv_status d' = dv_status d"
    "dv_retries d' = dv_retries d" "dv_expected_build_profile_id d' = dv_expected_build_profile_id d"
    "dv_expected_trigger_path_version d' = dv_expected_trigger_path_version d"
    "dv_expected_source_commit_id d' = dv_expected_source_commit_id d"
    "dv_batch_mode d' = dv_batch_mode d" "dv_pending_revision d' = dv_pending_revision d"
    "dv_clock d' = dv_clock d" "dv_ip d' = dv_ip d" "dv_port d' = dv_port d"
  using assms by (auto simp: transport_part_def)

lemma transport_init_socket:
  "fst (transport_init caps ip port timeout_s iface src sock) = Inr t \<Longrightarrow> tp_sock t = sock"
  by (auto simp: transport_init_def Let_def split: if_splits)

lemma get_transport_cases:
  obtains (ok) t d1 where "get_transport d = (Inr t, d1)" "dv_transport d1 = Some t"
      "sk_sent (tp_sock t) = dv_sent d" "transport_part d d1"
    | (failed) e where "get_transport d = (Inl e, d)"
proof (cases "dv_transport d")
  case (Some t)
  show thesis by (rule ok [of t d]) (use Some in \<open>simp_all add: get_transport_def dv_sent_def transport_part_refl\<close>)
next
  case None
  show thesis
  proof (cases "fst (transport_init (dv_socket_caps d) (dv_ip d) (dv_port d) (dv_timeout_s d)
                       (dv_udp_interface d) (dv_udp_source_ip d) (dv_new_socket d))")
    case (Inl e)
    show thesis by (rule failed [of e]) (use None Inl in \<open>simp add: get_transport_def\<close>)
  next
    case (Inr t)
    show thesis
      by (rule ok [of t "d\<lparr>dv_transport := Some t, dv_owns_transport := True\<rparr>"])
        (use None Inr in \<open>auto simp: get_transport_def dv_sent_def transport_init_socket transport_part_def\<close>)
  qed
qed

lemma on_transport_part: "transport_part d (snd (on_transport f d))"
proof (cases d rule: get_transport_cases)
  case (ok t d1)
  have "transport_part d1 (d1\<lparr>dv_transport := Some t'\<rparr>)" for t'
    unfolding transport_part_def by (intro exI [of _ "Some t'"] exI [of _ "dv_owns_transport d1"]) simp
  then show ?thesis using ok(4) transport_part_trans
    by (auto simp: on_transport_def pbind_Inr [where m = get_transport, OF ok(1)] split: prod.split)
next
  case (failed e)
  then show ?thesis by (simp add: on_transport_def pbind_Inl transport_part_refl)
qed

lemma on_transport_sends:
  assumes "\<And>t. \<exists>k \<le> n. sk_sent (tp_sock (snd (f t))) = sk_sent (tp_sock t) @ replicate k packet"
  shows "\<exists>k \<le> n. dv_sent (snd (on_transport f d)) = dv_sent d @ replicate k packet"
proof (cases d rule: get_transport_cases)
  case (ok t d1)
  obtain k where "k \<le> n" "sk_sent (tp_sock (snd (f t))) = sk_sent (tp_sock t) @ replicate k packet"
    using assms by blast
  then show ?thesis using ok
    by (intro exI [of _ k])
      (simp add: on_transport_def pbind_Inr [where m = get_transport, OF ok(1)] dv_sent_def case_prod_unfold)
next
  case (failed e)
  then show ?thesis by (intro exI [of _ 0]) (simp add: on_transport_def pbind_Inl)
qed

lemma minimal_request_sends:
  "\<exists>k \<le> 1. sk_sent (tp_sock (snd (minimal_request packet seq opcode w t))) = sk_sent (tp_sock t) @ replicate k packet"
proof (cases packet t rule: transport_send_cases)
  case (sent t1)
  have "sk_sent (tp_sock (snd (receive_rfresp2 (Some seq) (Some opcode) t1))) = sk_sent (tp_sock t) @ [packet]"
    using rf_recv.recv_sent sent(2) by simp
  then show ?thesis using sent
    by (intro exI [of _ 1]) (auto simp: minimal_request_def split: prod.split sum.split)
next
  case (failed e t1)
  then show ?thesis by (intro exI [of _ 0]) (simp add: minimal_request_def)
qed

lemma device_request_snd:
  "snd (device_request packet opcode seq w retries d) =
   snd (on_transport (if dv_has_request d
     then transport_request packet seq opcode (case retries of None \<Rightarrow> dv_retries d | Some n \<Rightarrow> n) w
     else minimal_request packet seq opcode w) d)"
proof -
  have "snd (case r of (Inl e, s) \<Rightarrow> (if e = TransportTimeout then praise e
      else if is_OSError e then praise ConnectionError else praise e) s | (Inr x, s) \<Rightarrow> (Inr x, s)) = snd r"
    for r :: "rf_response reply result \<times> device"
    by (cases r; cases "fst r") simp_all
  then show ?thesis by (simp add: device_request_def pcatch_def pbind_def)
qed

lemma device_request_part: "transport_part d (snd (device_request packet opcode seq w retries d))"
  unfolding device_request_snd by (rule on_transport_part)

lemma device_request_sends:
  "\<exists>k \<le> request_attempts (case retries of None \<Rightarrow> dv_retries d | Some n \<Rightarrow> n).
     dv_sent (snd (device_request packet opcode seq w retries d)) = dv_sent d @ replicate k packet"
proof -
  let ?n = "request_attempts (case retries of None \<Rightarrow> dv_retries d | Some n \<Rightarrow> n)"
  have n: "1 \<le> ?n" by (simp add: request_attempts_def)
  show ?thesis
    unfolding device_request_snd
  proof (rule on_transport_sends)
    fix t
    show "\<exists>k \<le> ?n. sk_sent (tp_sock (snd ((if dv_has_request d
        then transport_request packet seq opcode (case retries of None \<Rightarrow> dv_retries d | Some n \<Rightarrow> n) w
        else minimal_request packet seq opcode w) t))) = sk_sent (tp_sock t) @ replicate k packet"
      using rf_recv.request_sends minimal_request_sends [of packet seq opcode w t] n
      by (auto simp: transport_request_def intro: order_trans)
  qed
qed

lemma dv_sent_sequence [simp]: "dv_sent (d\<lparr>dv_sequence := s\<rparr>) = dv_sent d"
  by (simp add: dv_sent_def split: option.split)

section \<open>TDC registers\<close>

lemma require_connected_apply:
  "require_connected d = (if connected d then Inr () else Inl ConnectionStateError, d)"
  by (simp add: require_connected_def praise_if_def)

text \<open>
  C8. A TDC register access sends nothing unless the board is connected and the arguments are legal;
  then it sends copies of one packet, and a write is never sent twice. A value is returned only from
  a matching answer of the board.
\<close>

theorem tdc_register_sends:
  "\<exists>k packet. dv_sent (snd (tdc_register address write data d)) = dv_sent d @ replicate k packet \<and>
     k \<le> (if write then 1 else request_attempts (dv_retries d)) \<and>
     (k = 0 \<or> connected d \<and> pack_rfctrl2_tdc_register address (PyBool write) data (dv_sequence d) = Inr packet)"
proof (cases "connected d")
  case False
  then have "snd (tdc_register address write data d) = d"
    by (simp add: tdc_register_def pthen_def pbind_def require_connected_apply)
  then show ?thesis by (intro exI [of _ 0]) simp
next
  case True
  define d1 where "d1 = snd (next_sequence d)"
  have n: "next_sequence d = (Inr (dv_sequence d), d1)" and sent: "dv_sent d1 = dv_sent d" and r: "dv_retries d1 = dv_retries d"
    by (simp_all add: d1_def next_sequence_def Let_def)
  show ?thesis
  proof (cases "pack_rfctrl2_tdc_register address (PyBool write) data (dv_sequence d)")
    case (Inl e)
    have c: "require_connected d = (Inr (), d)" using True by (simp add: require_connected_apply)
    have "snd (tdc_register address write data d) = d1"
      unfolding tdc_register_def pthen_Inr [where m = require_connected, OF c]
        pbind_Inr [where m = next_sequence, OF n] Inl by simp
    then show ?thesis using sent by (intro exI [of _ 0]) simp
  next
    case (Inr packet)
    let ?req = "device_request packet RF2_OP_TDC_REG (dv_sequence d) True (if write then Some 0 else None)"
    have c: "require_connected d = (Inr (), d)" using True by (simp add: require_connected_apply)
    have "snd (tdc_register address write data d) = snd (?req d1)"
      unfolding tdc_register_def pthen_Inr [where m = require_connected, OF c]
        pbind_Inr [where m = next_sequence, OF n] Inr pbind_simps
      by (rule snd_pbind_pure) (simp add: pbind_def split: sum.split)
    moreover obtain k where "k \<le> request_attempts (case (if write then Some 0 else None) of None \<Rightarrow> dv_retries d1 | Some n \<Rightarrow> n)"
      "dv_sent (snd (?req d1)) = dv_sent d1 @ replicate k packet"
      using device_request_sends by blast
    ultimately show ?thesis using sent r Inr True
      by (intro exI [of _ k] exI [of _ packet]) (auto simp: request_attempts_def split: if_splits)
  qed
qed

section \<open>The handshake's outcome\<close>

lemma check_response_Inr:
  "check_response reply operation = Inr r \<Longrightarrow>
   rsp_version r = RFCTRL2_VERSION \<and> rsp_status r = RF2_STATUS_OK \<and> (\<exists>addr. reply = Response r addr)"
  by (auto simp: check_response_def Let_def split: reply.splits if_splits)

text \<open>The board's identity is the expected one, as far as the response states it.\<close>

definition identity_matches :: "device \<Rightarrow> rf_response \<Rightarrow> bool" where
  "identity_matches d response \<longleftrightarrow>
     (let s = parse_rfctrl2_status_payload (rsp_payload response) in
      length (rsp_payload response) < 112 \<or>
      (dv_expected_build_profile_id d \<in> {None, Some (st_build_profile_id s)} \<and>
       dv_expected_trigger_path_version d \<in> {None, Some (st_trigger_path_version s)} \<and>
       dv_expected_source_commit_id d \<in> {None, Some (st_source_commit_id s)}))"

lemma validate_identity_Inr:
  "validate_identity response d = (Inr u, d') \<longleftrightarrow> d' = d \<and> identity_matches d response"
  by (auto simp: validate_identity_def identity_matches_def Let_def)

lemma device_request_Inr_part:
  "device_request packet opcode seq w retries d = (x, d') \<Longrightarrow> transport_part d d'"
  using device_request_part [of d packet opcode seq w retries] by simp

lemma next_sequence_Inr:
  "next_sequence d = (Inr q, d') \<longleftrightarrow>
   q = dv_sequence d \<and> d' = d\<lparr>dv_sequence := (if q = 0xFFFFFFFF then 1 else q + 1)\<rparr>"
  by (auto simp: next_sequence_def Let_def)

definition handshake_done :: "device \<Rightarrow> device \<Rightarrow> bool" where
  "handshake_done d d' \<longleftrightarrow>
     dv_connected d' \<and> dv_closed d' = dv_closed d \<and>
     (\<exists>old hello status. rsp_version hello = RFCTRL2_VERSION \<and> rsp_status hello = RF2_STATUS_OK \<and> identity_matches d hello \<and>
        rsp_version status = RFCTRL2_VERSION \<and> rsp_status status = RF2_STATUS_OK \<and> identity_matches d status \<and>
        dv_capabilities d' = capabilities_of_status old status (parse_rfctrl2_status_payload (rsp_payload status)) \<and>
        dv_status d' = \<lparr>ds_connected = True, ds_ip = dv_ip d, ds_port = dv_port d,
          ds_state = state_of_status (parse_rfctrl2_status_payload (rsp_payload status)),
          ds_capabilities = dv_capabilities d'\<rparr>)"

lemma handshake_Inr:
  assumes "handshake d = (Inr z, d')"
  shows "z = 0 \<and> handshake_done d d'"
proof -
  from assms obtain q1 d1 r1 d2 hello q2 d4 r2 d5 status where
    s: "next_sequence d = (Inr q1, d1)" "transport_part d1 d2"
      "check_response r1 ''HELLO'' = Inr hello" "identity_matches d2 hello"
      "next_sequence (snd (update_from_status hello (d2\<lparr>dv_connected := True\<rparr>))) = (Inr q2, d4)"
      "transport_part d4 d5" "check_response r2 ''STATUS'' = Inr status" "identity_matches d5 status"
      "d' = snd (update_from_status status d5)" and z: "z = 0"
    unfolding handshake_def pbind_eq_Inr pthen_eq_Inr plift_eq_Inr validate_identity_Inr
    by (auto simp: set_connected_def update_from_status_def dest!: device_request_Inr_part)
  note f = transport_part_fields [OF s(2)] transport_part_fields [OF s(6)]
  have i: "identity_matches d hello" "identity_matches d status"
    using s f by (simp_all add: identity_matches_def next_sequence_Inr update_from_status_def Let_def)
  show ?thesis
    using s z i f check_response_Inr [OF s(3)] check_response_Inr [OF s(7)]
    unfolding handshake_done_def
    by (intro conjI exI [of _ "dv_capabilities d5"] exI [of _ hello] exI [of _ status])
      (simp_all add: next_sequence_Inr update_from_status_def Let_def)
qed

text \<open>What no method of this theory but \<open>close\<close> changes.\<close>

definition settings :: "device \<Rightarrow> (int option \<times> int option \<times> int option) \<times> bool \<times> string \<times> int" where
  "settings d = ((dv_expected_build_profile_id d, dv_expected_trigger_path_version d, dv_expected_source_commit_id d),
     dv_closed d, dv_ip d, dv_port d)"

lemma keeps_settings_request [keeps_rules]: "keeps (\<lambda>d. settings d = c) (device_request packet opcode seq w retries)"
proof (rule keepsI)
  fix d assume "settings d = c"
  then show "settings (snd (device_request packet opcode seq w retries d)) = c"
    using transport_part_fields [OF device_request_part [of d packet opcode seq w retries]] by (simp add: settings_def)
qed

lemma keeps_settings_steps [keeps_rules]:
  "keeps (\<lambda>d. settings d = c) next_sequence" "keeps (\<lambda>d. settings d = c) (set_connected b)"
  "keeps (\<lambda>d. settings d = c) (update_from_status r)" "keeps (\<lambda>d. settings d = c) (validate_identity r)"
  by (auto simp: keeps_def settings_def next_sequence_def set_connected_def update_from_status_def
      validate_identity_def Let_def)

lemma keeps_settings_handshake: "keeps (\<lambda>d. settings d = c) handshake"
  unfolding handshake_def by (intro keeps_rules)

lemma handshake_done_settings:
  assumes "settings d1 = settings d"
  shows "handshake_done d1 d' = handshake_done d d'"
proof -
  have f: "dv_expected_build_profile_id d1 = dv_expected_build_profile_id d"
    "dv_expected_trigger_path_version d1 = dv_expected_trigger_path_version d"
    "dv_expected_source_commit_id d1 = dv_expected_source_commit_id d"
    "dv_closed d1 = dv_closed d" "dv_ip d1 = dv_ip d" "dv_port d1 = dv_port d"
    using assms by (simp_all add: settings_def)
  show ?thesis unfolding handshake_done_def identity_matches_def f by (rule refl)
qed

lemma connect_attempts_Inr:
  "connect_attempts n d = (Inr z, d') \<Longrightarrow> n \<noteq> 0 \<Longrightarrow> z = 0 \<and> handshake_done d d'"
proof (induction n arbitrary: d)
  case (Suc n)
  obtain r d1 where h: "handshake d = (r, d1)" by force
  show ?case
  proof (cases r)
    case (Inr x)
    then show ?thesis using Suc.prems h handshake_Inr [of d x d1] by (auto simp: pcatch_def)
  next
    case (Inl e)
    let ?d2 = "d1\<lparr>dv_connected := False\<rparr>"
    have t: "e = TransportTimeout" "n \<noteq> 0" "connect_attempts n ?d2 = (Inr z, d')"
      using Suc.prems h Inl by (auto simp: pcatch_def set_connected_def split: if_splits)
    have "settings d1 = settings d" using keepsD [OF keeps_settings_handshake [of "settings d"], of d] h by simp
    then have "settings ?d2 = settings d" by (simp add: settings_def)
    note eq = handshake_done_settings [OF this]
    show ?thesis using Suc.IH [OF t(3,2)] unfolding eq .
  qed
qed simp


definition example_device :: "transport option \<Rightarrow> device" where
  "example_device transport =
     device_init ''192.168.1.128'' 1234 5 [] [] 2 False transport True (Some 1) (Some 3) None 7
       \<lparr>sc_linux = True, sc_has_setsockopt = True, sc_bind_device_ok = True, sc_bind_source_ok = True\<rparr>
       \<lparr>sk_rx = [], sk_tx = [], sk_sent = [], sk_open = True\<rparr> []"

text \<open>A board that never answers: every attempt of both handshakes times out.\<close>

definition closed_transport :: transport where
  "closed_transport = \<lparr>tp_ip = ''192.168.1.128'', tp_port = 1234, tp_closed = True,
     tp_sock = \<lparr>sk_rx = [], sk_tx = [], sk_sent = [], sk_open = False\<rparr>\<rparr>"


end
