(* ===== verification/Device_Rfdc.thy ===== *)
theory Device_Rfdc
  imports Device
begin

unbundle bit_operations_syntax

text \<open>
  The RFDC settings of the board object: unit conversion, the NCO plan, the pending settings and
  their application with the recovery from an unsafe state, gain, channel masks and the read-back
  cache of \<open>dr47/device.py\<close>.
\<close>

section \<open>Units and the NCO plan\<close>

definition GHZ_TO_HZ :: rat where "GHZ_TO_HZ = 1000000000"

definition ghz_to_hz :: "pynum \<Rightarrow> pyfloat result" where
  "ghz_to_hz value_ghz =
     ebind (to_float value_ghz) (\<lambda>value.
     guard_raise (\<not> isfinite value) ParameterRangeError (Inr (fscale value GHZ_TO_HZ)))"

definition hz_to_ghz :: "pynum \<Rightarrow> pyfloat result" where
  "hz_to_ghz value_hz =
     ebind (to_float value_hz) (\<lambda>value.
     guard_raise (\<not> isfinite value) ParameterRangeError (Inr (fdivc value GHZ_TO_HZ)))"

text \<open>\<open>round(x, 12)\<close>: the closest float to the decimal with twelve places nearest to \<open>x\<close>.\<close>

fun py_round_12 :: "pyfloat \<Rightarrow> pyfloat" where
  "py_round_12 (Fin x) = fl (of_int (round_half_even (x * 1000000000000)) / 1000000000000)"
| "py_round_12 f = f"

record nco_plan =
  np_target :: pyfloat
  np_nco :: pyfloat
  np_zone :: int
  np_image :: string

definition rfdc_nco_plan_for_target :: "pynum \<Rightarrow> pynum \<Rightarrow> nco_plan result" where
  "rfdc_nco_plan_for_target target_rf_ghz dac_fs_ghz =
     ebind (to_float target_rf_ghz) (\<lambda>target.
     ebind (to_float dac_fs_ghz) (\<lambda>fs.
     guard_raise (\<not> isfinite target \<or> \<not> isfinite fs \<or> fle fs (Fin 0)) ParameterRangeError (
     guard_raise (\<not> (fle (Fin 0) target \<and> fle target fs)) ParameterRangeError (
     if flt target (fdivc fs 2)
     then Inr \<lparr>np_target = target, np_nco = target, np_zone = 1, np_image = ''direct''\<rparr>
     else Inr \<lparr>np_target = target, np_nco = py_round_12 (fsub target fs), np_zone = 2, np_image = ''zone2''\<rparr>))))"

section \<open>Channels\<close>

definition map_channel :: "string \<Rightarrow> int \<Rightarrow> nat result" where
  "map_channel channel_type channel =
     (let role = lower channel_type in
      if role \<in> {''xy'', ''qc'', ''awg''} then
        guard_raise (\<not> (1 \<le> channel \<and> channel \<le> 4)) ParameterRangeError (Inr (nat channel))
      else if role = ''z'' then
        guard_raise (\<not> (1 \<le> channel \<and> channel \<le> 2)) ParameterRangeError (Inr (nat (4 + channel)))
      else if role \<in> {''ro'', ''ifout'', ''readout'', ''qr''} then
        guard_raise (\<not> (1 \<le> channel \<and> channel \<le> 2)) ParameterRangeError (Inr (nat (6 + channel)))
      else if role \<in> {''ri'', ''ifin''} then Inl (UnsupportedCapabilityError channel_type)
      else Inl ParameterRangeError)"

fun mapping_channel_value :: "chan_source \<Rightarrow> nat \<Rightarrow> pynum \<Rightarrow> pynum result" where
  "mapping_channel_value (ByMap by_number by_name) channel dflt =
     Inr (case by_number (int channel) of
            Some v \<Rightarrow> v
          | None \<Rightarrow> (case by_name (channel_key channel) of Some v \<Rightarrow> v | None \<Rightarrow> dflt))"
| "mapping_channel_value (BySeq values) channel dflt =
     guard_raise (length values \<noteq> 8) ParameterRangeError (Inr (values ! (channel - 1)))"

text \<open>A pending dictionary, whose keys are the channels one to eight, as a source.\<close>

definition pending_source :: "(nat \<Rightarrow> pynum) \<Rightarrow> chan_source" where
  "pending_source f = ByMap (\<lambda>n. if 1 \<le> n \<and> n \<le> 8 then Some (f (nat n)) else None) (\<lambda>_. None)"

section \<open>Applying and reading back\<close>

definition readback_of_channel :: "rfdc_channel \<Rightarrow> rfdc_readback" where
  "readback_of_channel c =
     \<lparr>rb_channel = rc_channel c, rb_nco_hz = rc_nco_hz c, rb_nyquist_zone = rc_nyquist_zone c,
      rb_nco_phase_deg = rc_nco_phase_deg c, rb_dac_output_current_ma = rc_dac_output_current_ma c,
      rb_status = rc_status c, rb_nco_word = rc_nco_word c, rb_phase_word = rc_phase_word c,
      rb_vop_code = rc_vop_code c\<rparr>"

definition cache_rfdc_readback :: "rfdc_config \<Rightarrow> (device, unit) prog" where
  "cache_rfdc_readback config = pmodify (\<lambda>d.
     let channels = map readback_of_channel (rx_channels config); caps = dv_capabilities d in
     d\<lparr>dv_capabilities := caps\<lparr>cp_config_valid_mask := rx_config_valid_mask config AND 0xFF,
         cp_rfdc_readback := (if channels \<noteq> [] then channels else cp_rfdc_readback caps)\<rparr>\<rparr>)"

definition parse_and_cache :: "rf_response \<Rightarrow> (device, rfdc_config) prog" where
  "parse_and_cache response =
     pbind (plift (parse_rfctrl2_rfdc_config_response response)) (\<lambda>config.
     pthen (cache_rfdc_readback config) (pret config))"

definition rfctrl2_rfdc_apply ::
  "chan_source \<Rightarrow> chan_source \<Rightarrow> chan_source \<Rightarrow> chan_source \<Rightarrow> int \<Rightarrow> int \<Rightarrow> int option \<Rightarrow> bool \<Rightarrow>
   int option \<Rightarrow> (device, rfdc_config answer) prog" where
  "rfctrl2_rfdc_apply ncos zones phases currents revision channel_mask seq wait_response retries =
     pbind (choose_sequence seq) (\<lambda>sequence.
     pbind (plift (pack_rfctrl2_rfdc_apply ncos zones phases currents revision channel_mask sequence)) (\<lambda>packet.
     pbind (device_request packet RF2_OP_RFDC_APPLY sequence wait_response retries)
       (awaited wait_response ''RFDC_APPLY'' parse_and_cache)))"

definition rfctrl2_rfdc_get_config :: "int option \<Rightarrow> bool \<Rightarrow> int option \<Rightarrow> (device, rfdc_config answer) prog" where
  "rfctrl2_rfdc_get_config seq wait_response retries =
     pbind (choose_sequence seq) (\<lambda>sequence.
     pbind (plift (pack_rfctrl2_rfdc_get_config sequence)) (\<lambda>packet.
     pbind (device_request packet RF2_OP_RFDC_GET_CONFIG sequence wait_response retries)
       (awaited wait_response ''RFDC_GET_CONFIG'' parse_and_cache)))"

text \<open>
  Polling STATUS until IDLE: the first reading of the clock fixes the deadline, each later one is a
  round of the loop; an exhausted clock is past the deadline.
\<close>

definition tick_clock :: "(device, rat option) prog" where
  "tick_clock d =
     (case dv_clock d of [] \<Rightarrow> (Inr None, d) | now # rest \<Rightarrow> (Inr (Some now), d\<lparr>dv_clock := rest\<rparr>))"

fun idle_rounds :: "rat \<Rightarrow> rat list \<Rightarrow> (device, unit) prog" where
  "idle_rounds deadline [] = praise TimeoutError"
| "idle_rounds deadline (now # later) =
     pthen (pmodify (\<lambda>d. d\<lparr>dv_clock := later\<rparr>)) (
     if now < deadline then
       pbind (device_status_op True) (\<lambda>status.
       if ds_state status = IDLE then pret () else idle_rounds deadline later)
     else praise TimeoutError)"

definition wait_for_playback_idle :: "rat \<Rightarrow> (device, unit) prog" where
  "wait_for_playback_idle timeout_s =
     pbind tick_clock (\<lambda>now.
     case now of
       None \<Rightarrow> praise TimeoutError
     | Some t0 \<Rightarrow> pbind (pgets dv_clock) (idle_rounds (t0 + timeout_s)))"

definition RFDC_IDLE_TIMEOUT_S :: rat where "RFDC_IDLE_TIMEOUT_S = 5"

datatype applied = Deferred int int | Applied "rfdc_config answer"

definition apply_pending_once :: "int \<Rightarrow> (device, rfdc_config answer) prog" where
  "apply_pending_once channel_mask d =
     rfctrl2_rfdc_apply (pending_source (dv_pending_nco d)) (pending_source (dv_pending_zone d))
       (pending_source (dv_pending_phase d)) (pending_source (dv_pending_current d))
       (dv_pending_revision d) channel_mask None True None d"

definition unsafe_apply :: "pyerror \<Rightarrow> bool" where
  "unsafe_apply e \<longleftrightarrow>
     is_DeviceStatusError e \<and> err_operation e = ''RFDC_APPLY'' \<and> err_status e = RF2_STATUS_UNSAFE_STATE"

definition cache_answer :: "rfdc_config answer \<Rightarrow> (device, unit) prog" where
  "cache_answer result = (case result of Answer config \<Rightarrow> cache_rfdc_readback config | NotAwaited _ \<Rightarrow> pret ())"

definition apply_pending :: "int \<Rightarrow> (device, applied) prog" where
  "apply_pending channel_mask =
     pthen (pmodify (\<lambda>d. d\<lparr>dv_pending_revision := (dv_pending_revision d + 1) AND 0xFFFFFFFF\<rparr>)) (
     pbind (pgets (\<lambda>d. (connected d, dv_batch_mode d, dv_pending_revision d))) (\<lambda>(online, batch, revision).
     if \<not> online then
       (if batch then pret (Deferred revision channel_mask) else praise ConnectionStateError)
     else
       pbind (pcatch (apply_pending_once channel_mask) (\<lambda>e.
           if \<not> unsafe_apply e then praise e
           else pbind (device_abort (PyInt 0)) (\<lambda>_.
                pthen (wait_for_playback_idle RFDC_IDLE_TIMEOUT_S) (apply_pending_once channel_mask)))) (\<lambda>result.
       pthen (cache_answer result) (pret (Applied result)))))"

section \<open>Settings\<close>

definition set_pending_channel ::
  "(((nat \<Rightarrow> pynum) \<Rightarrow> nat \<Rightarrow> pynum) \<Rightarrow> device \<Rightarrow> device) \<Rightarrow> chan_source option \<Rightarrow> pynum \<Rightarrow> (device, unit) prog" where
  "set_pending_channel update source dflt =
     (case source of
        None \<Rightarrow> pret ()
      | Some s \<Rightarrow> pfor [1 ..< 9] (\<lambda>channel.
          pbind (plift (mapping_channel_value s channel dflt)) (\<lambda>v.
          pmodify (update (\<lambda>f. f(channel := v))))))"

definition apply_rfdc_config ::
  "chan_source option \<Rightarrow> chan_source option \<Rightarrow> chan_source option \<Rightarrow> chan_source option \<Rightarrow> int option \<Rightarrow> int \<Rightarrow>
   (device, applied) prog" where
  "apply_rfdc_config nco_ghz nyquist_zone phase_deg output_current_ma revision channel_mask =
     pthen (case nco_ghz of
         None \<Rightarrow> pret ()
       | Some s \<Rightarrow> pfor [1 ..< 9] (\<lambda>channel.
           pbind (plift (mapping_channel_value s channel (NFloat (Fin 0)))) (\<lambda>v.
           pbind (plift (ghz_to_hz v)) (\<lambda>hz.
           pmodify (\<lambda>d. d\<lparr>dv_pending_nco := (dv_pending_nco d)(channel := NFloat hz)\<rparr>))))) (
     pthen (set_pending_channel dv_pending_zone_update nyquist_zone (NInt 1)) (
     pthen (set_pending_channel dv_pending_phase_update phase_deg (NFloat (Fin 0))) (
     pthen (set_pending_channel dv_pending_current_update output_current_ma (NFloat (Fin 20))) (
     pthen (case revision of
         None \<Rightarrow> pret ()
       | Some r \<Rightarrow> pmodify (\<lambda>d. d\<lparr>dv_pending_revision := r AND 0xFFFFFFFF\<rparr>)) (
     apply_pending channel_mask)))))"

definition channel_bit :: "nat \<Rightarrow> int" where
  "channel_bit physical = push_bit (physical - 1) 1"

text \<open>Outside batch mode a setter applies its own channel.\<close>

definition apply_unless_batch :: "nat \<Rightarrow> (device, unit) prog" where
  "apply_unless_batch physical =
     pbind (pgets dv_batch_mode) (\<lambda>batch.
     if batch then pret () else pbind (apply_pending (channel_bit physical)) (\<lambda>_. pret ()))"

definition set_xy_nco_frequency :: "int \<Rightarrow> pynum \<Rightarrow> (device, int) prog" where
  "set_xy_nco_frequency channel frequency_ghz =
     pbind (plift (map_channel ''xy'' channel)) (\<lambda>physical.
     pbind (plift (ghz_to_hz frequency_ghz)) (\<lambda>v.
     pthen (praise_if (\<not> (fle (Fin (of_int RFDC_NCO_MIN_HZ)) v \<and> fle v (Fin (of_int RFDC_NCO_MAX_HZ))))
       ParameterRangeError) (
     pthen (pmodify (\<lambda>d. d\<lparr>dv_pending_nco := (dv_pending_nco d)(physical := NFloat v)\<rparr>)) (
     pthen (apply_unless_batch physical) (pret 0)))))"

definition set_xy_target_frequency :: "int \<Rightarrow> pynum \<Rightarrow> pynum \<Rightarrow> (device, nco_plan) prog" where
  "set_xy_target_frequency channel target_rf_ghz dac_fs_ghz =
     pbind (plift (rfdc_nco_plan_for_target target_rf_ghz dac_fs_ghz)) (\<lambda>plan.
     pbind (plift (map_channel ''xy'' channel)) (\<lambda>physical.
     pbind (plift (ghz_to_hz (NFloat (np_nco plan)))) (\<lambda>hz.
     pthen (pmodify (\<lambda>d. d\<lparr>dv_pending_nco := (dv_pending_nco d)(physical := NFloat hz),
         dv_pending_zone := (dv_pending_zone d)(physical := NInt (np_zone plan))\<rparr>)) (
     pthen (apply_unless_batch physical) (pret plan)))))"

text \<open>The float literals 6.4 and 2.25, and the gain's current.\<close>

definition gain_limits :: "nat \<Rightarrow> pyfloat \<times> pyfloat" where
  "gain_limits physical = (if physical \<in> {5, 6} then (fl (64 / 10), Fin 32) else (Fin (9 / 4), Fin (81 / 2)))"

definition gain_current :: "nat \<Rightarrow> pyfloat \<Rightarrow> pyfloat" where
  "gain_current physical v =
     (let (low, high) = gain_limits physical in fadd low (fmul v (fsub high low)))"

definition set_gain :: "string \<Rightarrow> int \<Rightarrow> pynum \<Rightarrow> string \<Rightarrow> (device, int) prog" where
  "set_gain channel_type channel gain gain_type =
     pbind (plift (map_channel channel_type channel)) (\<lambda>physical.
     pthen (praise_if (gain_type \<noteq> ''norm'') (UnsupportedParameterError ''set_gain'')) (
     pbind (plift (to_float gain)) (\<lambda>v.
     pthen (praise_if (\<not> (fle (Fin 0) v \<and> fle v (Fin 1))) ParameterRangeError) (
     pthen (pmodify (\<lambda>d. d\<lparr>dv_pending_current :=
         (dv_pending_current d)(physical := NFloat (gain_current physical v))\<rparr>)) (
     pthen (apply_unless_batch physical) (pret 0))))))"

definition set_channel_mask :: "string \<Rightarrow> int \<Rightarrow> string \<Rightarrow> (device, int) prog" where
  "set_channel_mask channel_type channel on_off =
     pbind (plift (map_channel channel_type channel)) (\<lambda>physical.
     let state = lower on_off in
     pthen (praise_if (state \<notin> {''on'', ''off''}) ParameterRangeError) (
     pthen (pmodify (\<lambda>d. d\<lparr>dv_channel_mask :=
         (if state = ''on'' then dv_channel_mask d OR channel_bit physical
          else dv_channel_mask d AND NOT (channel_bit physical)), dv_mask_explicit := True\<rparr>)) (
     pret 0)))"

definition set_qc_on_off :: "string \<Rightarrow> int \<Rightarrow> string \<Rightarrow> (device, int) prog" where
  "set_qc_on_off channel_type channel on_off = set_channel_mask channel_type channel on_off"

definition set_qr_on_off :: "string \<Rightarrow> int \<Rightarrow> string \<Rightarrow> (device, int) prog" where
  "set_qr_on_off gen_type channel on_off =
     (if lower gen_type \<in> {''ifin'', ''ri''} then praise (UnsupportedCapabilityError ''set_qr_on_off'')
      else set_channel_mask gen_type channel on_off)"

definition device_commit :: "(device, int) prog" where
  "device_commit =
     pbind (pgets dv_batch_mode) (\<lambda>batch.
     if batch then pbind (apply_pending 0xFF) (\<lambda>_. pret 0) else pret 0)"

section \<open>Gains and plans are accepted settings\<close>

lemma gain_current_near:
  assumes low: "gain_limits physical = (Fin l, Fin hi)" "lo - 1 / 2 ^ 40 \<le> l" "l \<le> lo + 1 / 2 ^ 40"
    and range: "0 \<le> lo" "lo \<le> hi" "hi \<le> 60"
    and v: "0 \<le> v" "v \<le> 1"
  obtains c where "gain_current physical (Fin v) = Fin c" "lo - 1 / 2 ^ 30 \<le> c" "c \<le> hi + 1 / 2 ^ 30"
proof -
  have "hi - l < 64" "l - hi < 64" using low(2,3) range by simp_all
  then have l: "\<bar>hi - l\<bar> < 2 ^ 6" by (simp add: abs_less_iff)
  obtain d where d: "fl (hi - l) = Fin d" "hi - l - 2 ^ 6 / 2 ^ 53 \<le> d" "d \<le> hi - l + 2 ^ 6 / 2 ^ 53"
    by (rule fl_error [OF l]) simp_all
  have db: "d \<le> hi - lo + 1 / 2 ^ 39" "- (1 / 2 ^ 39) \<le> d"
    using d(2,3) low(2,3) range by simp_all
  have vd: "v * d \<le> hi - lo + 1 / 2 ^ 39" "- (1 / 2 ^ 39) \<le> v * d"
  proof -
    have "v * d \<le> v * (hi - lo + 1 / 2 ^ 39)" by (rule mult_left_mono [OF db(1) v(1)])
    also have "\<dots> \<le> 1 * (hi - lo + 1 / 2 ^ 39)" by (rule mult_right_mono [OF v(2)]) (use range in simp)
    finally show "v * d \<le> hi - lo + 1 / 2 ^ 39" by simp
    have "v * (- (1 / 2 ^ 39)) \<le> v * d" by (rule mult_left_mono [OF db(2) v(1)])
    moreover have "v * (1 / 2 ^ 39) \<le> 1 * (1 / 2 ^ 39)" by (rule mult_right_mono [OF v(2)]) simp
    ultimately show "- (1 / 2 ^ 39) \<le> v * d" by simp
  qed
  have mb: "\<bar>v * d\<bar> < 2 ^ 6" using vd range by (simp add: abs_less_iff)
  obtain m where m: "fl (v * d) = Fin m" "v * d - 2 ^ 6 / 2 ^ 53 \<le> m" "m \<le> v * d + 2 ^ 6 / 2 ^ 53"
    by (rule fl_error [OF mb]) simp_all
  have sb: "\<bar>l + m\<bar> < 2 ^ 7" using m(2,3) vd low(2,3) range by (simp add: abs_less_iff)
  obtain c where c: "fl (l + m) = Fin c" "l + m - 2 ^ 7 / 2 ^ 53 \<le> c" "c \<le> l + m + 2 ^ 7 / 2 ^ 53"
    by (rule fl_error [OF sb]) simp_all
  show thesis
  proof (rule that)
    show "gain_current physical (Fin v) = Fin c"
      using low(1) d(1) m(1) c(1) by (simp add: gain_current_def fsub_def)
    show "lo - 1 / 2 ^ 30 \<le> c" "c \<le> hi + 1 / 2 ^ 30"
      using c(2,3) m(2,3) vd low(2,3) by simp_all
  qed
qed

text \<open>
  Every gain in [0, 1] is turned into a DAC current that RFDC_APPLY accepts for the channel: all the
  roundings of the float computation stay inside the range of the channel's coupling.
\<close>

lemma gain_current_accepted:
  assumes "fle (Fin 0) v" "fle v (Fin 1)"
  shows "\<exists>ua. py_round (fscale (gain_current physical v) 1000) = Inr ua \<and>
    fst (rfdc_current_range physical) \<le> ua \<and> ua \<le> snd (rfdc_current_range physical)"
proof -
  obtain x where x: "v = Fin x" "0 \<le> x" "x \<le> 1"
    using assms by (cases v) simp_all
  obtain lo hi :: rat and a b :: int where r: "rfdc_current_range physical = (a, b)"
      "lo * 1000 = of_int a" "hi * 1000 = of_int b" "a \<in> {6400, 2250}" "b \<in> {32000, 40500}"
    and g: "\<exists>l. gain_limits physical = (Fin l, Fin hi) \<and> lo - 1 / 2 ^ 40 \<le> l \<and> l \<le> lo + 1 / 2 ^ 40"
  proof (cases "physical \<in> {5, 6}")
    case True
    obtain l where l: "fl (64 / 10) = Fin l" "64 / 10 - 2 ^ 3 / 2 ^ 53 \<le> l" "l \<le> 64 / 10 + 2 ^ 3 / 2 ^ 53"
      by (rule fl_error [of "64 / 10" 3]) simp_all
    then show thesis using True
      by (intro that [of 6400 32000 "64 / 10" 32]) (auto simp: rfdc_current_range_def gain_limits_def)
  next
    case False
    then show thesis
      by (intro that [of 2250 40500 "9 / 4" "81 / 2"]) (auto simp: rfdc_current_range_def gain_limits_def intro!: exI [of _ "9 / 4"])
  qed
  obtain l where l: "gain_limits physical = (Fin l, Fin hi)" "lo - 1 / 2 ^ 40 \<le> l" "l \<le> lo + 1 / 2 ^ 40"
    using g by blast
  have b: "0 \<le> lo" "lo \<le> hi" "hi \<le> 60" using r by auto
  obtain c where c: "gain_current physical (Fin x) = Fin c" "lo - 1 / 2 ^ 30 \<le> c" "c \<le> hi + 1 / 2 ^ 30"
    by (rule gain_current_near [OF l b x(2,3)])
  have cb: "\<bar>c * 1000\<bar> < 2 ^ 16" using c b by (simp add: abs_less_iff)
  obtain t where t: "fl (c * 1000) = Fin t" "c * 1000 - 2 ^ 16 / 2 ^ 53 \<le> t" "t \<le> c * 1000 + 2 ^ 16 / 2 ^ 53"
    by (rule fl_error [OF cb]) simp_all
  have "lo * 1000 - 1 / 2 < t" "t < hi * 1000 + 1 / 2"
    using t(2,3) c(2,3) by simp_all
  then have "of_int a - 1 / 2 < t" "t < of_int b + 1 / 2" unfolding r(2,3) by simp_all
  then have "a \<le> round_half_even t" "round_half_even t \<le> b" by (rule round_near_int)+
  then show ?thesis using x(1) c(1) t(1) r(1) by simp
qed

lemma gain_current_accepted_witness:
  "\<exists>ua. py_round (fscale (gain_current 5 (fl (1 / 2))) 1000) = Inr ua \<and> 6400 \<le> ua \<and> ua \<le> 32000"
proof -
  obtain h where h: "fl (1 / 2) = Fin h" "of_int 0 \<le> h" "h \<le> of_int 1"
    by (rule fl_bounds [of 0 "1 / 2" 1]) simp_all
  then have "fle (Fin 0) (fl (1 / 2))" "fle (fl (1 / 2)) (Fin 1)" by simp_all
  from gain_current_accepted [OF this, of 5] show ?thesis by (simp add: rfdc_current_range_def)
qed

lemma scaled_in_range:
  assumes "- (32 / 10) - 1 / 2 ^ 36 \<le> x" "x \<le> 32 / 10 + 1 / 2 ^ 36"
  obtains hz nco where "fscale (Fin x) GHZ_TO_HZ = Fin hz" "py_round (Fin hz) = Inr nco"
    "RFDC_NCO_MIN_HZ \<le> nco" "nco \<le> RFDC_NCO_MAX_HZ"
proof -
  have b: "\<bar>x * 1000000000\<bar> < 2 ^ 32" using assms by (simp add: abs_less_iff)
  obtain t where t: "fl (x * 1000000000) = Fin t" "x * 1000000000 - 2 ^ 32 / 2 ^ 53 \<le> t" "t \<le> x * 1000000000 + 2 ^ 32 / 2 ^ 53"
    by (rule fl_error [OF b]) simp_all
  have "of_int (- 3200000000) - 1 / 2 < t" "t < of_int 3200000000 + 1 / 2" using t(2,3) assms by simp_all
  then have "- 3200000000 \<le> round_half_even t" "round_half_even t \<le> 3200000000" by (rule round_near_int)+
  then show thesis
    by (intro that [of t "round_half_even t"]) (simp_all add: GHZ_TO_HZ_def t(1) RFDC_NCO_MIN_HZ_def RFDC_NCO_MAX_HZ_def)
qed

text \<open>
  Every RF target from DC to the DAC sample rate has a plan whose NCO frequency and Nyquist zone
  RFDC_APPLY accepts, whatever the float rounding does: the plan of the driver never leads to a
  request that the driver itself refuses.
\<close>

lemma nco_plan_accepted:
  assumes "rfdc_nco_plan_for_target target (NFloat (fl (64 / 10))) = Inr plan"
  shows "np_zone plan \<in> {1, 2} \<and> (\<exists>hz nco. ghz_to_hz (NFloat (np_nco plan)) = Inr hz \<and> py_round hz = Inr nco \<and>
    RFDC_NCO_MIN_HZ \<le> nco \<and> nco \<le> RFDC_NCO_MAX_HZ)"
proof -
  obtain s where s: "fl (64 / 10) = Fin s" "64 / 10 - 2 ^ 3 / 2 ^ 53 \<le> s" "s \<le> 64 / 10 + 2 ^ 3 / 2 ^ 53"
    by (rule fl_error [of "64 / 10" 3]) simp_all
  have hb: "\<bar>s / 2\<bar> < 2 ^ 2" using s(2,3) by (simp add: abs_less_iff)
  obtain h where h: "fl (s / 2) = Fin h" "s / 2 - 2 ^ 2 / 2 ^ 53 \<le> h" "h \<le> s / 2 + 2 ^ 2 / 2 ^ 53"
    by (rule fl_error [OF hb]) simp_all
  obtain t where t: "to_float target = Inr t" using assms by (auto simp: rfdc_nco_plan_for_target_def err_simps)
  obtain x where x: "t = Fin x" "0 \<le> x" "x \<le> s"
    using assms t s(1) by (cases t) (auto simp: rfdc_nco_plan_for_target_def err_simps)
  have goal: ?thesis if "np_nco plan = Fin w" "np_zone plan \<in> {1, 2}"
    "- (32 / 10) - 1 / 2 ^ 36 \<le> w" "w \<le> 32 / 10 + 1 / 2 ^ 36" for w
    by (rule scaled_in_range [OF that(3,4)]) (use that(1,2) in \<open>simp add: ghz_to_hz_def\<close>)
  show ?thesis
  proof (cases "x < h")
    case True
    then have "np_nco plan = Fin x" "np_zone plan = 1"
      using assms t x s(1) h(1) by (auto simp: rfdc_nco_plan_for_target_def err_simps flt_def)
    note f = this
    show ?thesis by (rule goal [OF f(1)]) (use f(2) True h(3) s(3) x(2) in simp_all)
  next
    case False
    have yb: "\<bar>x - s\<bar> < 2 ^ 2" using False h(2) s(2,3) x(3) by (simp add: abs_less_iff)
    obtain y where y: "fl (x - s) = Fin y" "x - s - 2 ^ 2 / 2 ^ 53 \<le> y" "y \<le> x - s + 2 ^ 2 / 2 ^ 53"
      by (rule fl_error [OF yb]) simp_all
    define n where "n = round_half_even (y * 1000000000000)"
    have "of_int n - y * 1000000000000 \<le> 1 / 2" "y * 1000000000000 - of_int n \<le> 1 / 2"
      using round_half_even_error [of "y * 1000000000000"] unfolding n_def abs_le_iff by linarith+
    then have n: "of_int n / 1000000000000 \<le> y + 1 / 1000000000000" "y - 1 / 1000000000000 \<le> of_int n / 1000000000000"
      by simp_all
    have nb: "\<bar>of_int n / 1000000000000 :: rat\<bar> < 2 ^ 3"
      using n y(2,3) False h(2) s(2,3) x(3) by (simp add: abs_less_iff)
    obtain w where w: "fl (of_int n / 1000000000000) = Fin w"
      "of_int n / 1000000000000 - 2 ^ 3 / 2 ^ 53 \<le> w" "w \<le> of_int n / 1000000000000 + 2 ^ 3 / 2 ^ 53"
      by (rule fl_error [OF nb]) simp_all
    have "np_nco plan = Fin w" "np_zone plan = 2"
      using assms t x s(1) h(1) False y(1) w(1)
      by (auto simp: rfdc_nco_plan_for_target_def err_simps flt_def fsub_def n_def)
    note f = this
    show ?thesis
      by (rule goal [OF f(1)]) (use f(2) w(2,3) n y(2,3) False h(2) s(2,3) x(3) in simp_all)
  qed
qed

lemma nco_plan_accepted_witness:
  "\<exists>plan hz nco. rfdc_nco_plan_for_target (NInt 4) (NFloat (fl (64 / 10))) = Inr plan \<and>
     ghz_to_hz (NFloat (np_nco plan)) = Inr hz \<and> py_round hz = Inr nco \<and>
     RFDC_NCO_MIN_HZ \<le> nco \<and> nco \<le> RFDC_NCO_MAX_HZ"
proof -
  obtain s where s: "fl (64 / 10) = Fin s" "64 / 10 - 2 ^ 3 / 2 ^ 53 \<le> s" "s \<le> 64 / 10 + 2 ^ 3 / 2 ^ 53"
    by (rule fl_error [of "64 / 10" 3]) simp_all
  have b: "4 \<le> s" "0 < s" "\<not> s \<le> 0" using s(2) by simp_all
  obtain plan where p: "rfdc_nco_plan_for_target (NInt 4) (NFloat (fl (64 / 10))) = Inr plan"
    using b s(1) by (cases "flt (Fin 4) (fdivc (Fin s) 2)") (simp_all add: rfdc_nco_plan_for_target_def)
  from nco_plan_accepted [OF p] p show ?thesis by blast
qed

section \<open>Recovery from an unsafe state\<close>

lemma idle_rounds_Inr:
  "idle_rounds deadline clock d = (Inr u, d') \<Longrightarrow> ds_state (dv_status d') = IDLE"
proof (induction clock arbitrary: d)
  case (Cons now later)
  from Cons.prems obtain status d1 where now: "now < deadline"
    and s: "device_status_op True (d\<lparr>dv_clock := later\<rparr>) = (Inr status, d1)"
    and r: "(if ds_state status = IDLE then pret () else idle_rounds deadline later) d1 = (Inr u, d')"
    by (auto simp: pbind_eq_Inr split: if_splits)
  have "dv_status d1 = status"
    using s by (auto simp: device_status_op_def pbind_eq_Inr pthen_eq_Inr)
  then show ?case using r Cons.IH by (auto split: if_splits)
qed simp

lemma wait_for_playback_idle_Inr:
  "wait_for_playback_idle timeout d = (Inr u, d') \<Longrightarrow> ds_state (dv_status d') = IDLE"
  by (auto simp: wait_for_playback_idle_def pbind_eq_Inr split: option.splits intro: idle_rounds_Inr)



end
