(* ===== verification/Waveforms.thy ===== *)
theory Waveforms
  imports Rf_Config
begin

unbundle bit_operations_syntax

text \<open>
  Waveform data and the DDR layouts of \<open>dr47/waveforms.py\<close>: record sizing, the conversions into
  interleaved I/Q lanes, the tiled and the interleaved address maps, the 512-bit interleaved image
  and the zero-filled max-length batches. An array of dtype int16 is a list of 16-bit words; an
  array handed in by the caller is its shape and its integer elements in row-major order, and a cast
  to a narrower dtype wraps. The sine and Gaussian generators (numpy's \<open>cos\<close>, \<open>sin\<close> and \<open>exp\<close>) are not
  modelled.
\<close>

type_synonym int16 = "16 word"

definition INT16_PER_DACWORD :: int where "INT16_PER_DACWORD = 16"

section \<open>Record sizes\<close>

definition iq_duration_to_interleaved_sample_count :: "pyfloat \<Rightarrow> pyfloat \<Rightarrow> int result" where
  "iq_duration_to_interleaved_sample_count duration_s sample_rate_hz =
     guard_raise (fle duration_s (Fin 0)) ParameterRangeError (
     guard_raise (fle sample_rate_hz (Fin 0)) ParameterRangeError (
     ebind (py_round (fmul duration_s sample_rate_hz)) (\<lambda>n.
     let complex_samples = max 1 n in
     Inr (((complex_samples * 2 + INT16_PER_DACWORD - 1) div INT16_PER_DACWORD) * INT16_PER_DACWORD))))"

definition normalize_int16 :: "int16 list \<Rightarrow> int option \<Rightarrow> int16 list result" where
  "normalize_int16 arr sample_count =
     (case sample_count of
        None \<Rightarrow> Inr arr
      | Some count \<Rightarrow>
          guard_raise (count < 0) ParameterRangeError (
          if int (length arr) \<ge> count then Inr (take (nat count) arr)
          else Inr (arr @ replicate (nat count - length arr) 0)))"

text \<open>\<open>out[0::2] = i; out[1::2] = q\<close>.\<close>

fun interleave :: "'a list \<Rightarrow> 'a list \<Rightarrow> 'a list" where
  "interleave (i # is) (q # qs) = i # q # interleave is qs"
| "interleave _ _ = []"

definition pack_iq_interleaved :: "int16 list \<Rightarrow> int16 list \<Rightarrow> int \<Rightarrow> int16 list result" where
  "pack_iq_interleaved i_wave q_wave sample_count =
     guard_raise (sample_count mod INT16_PER_DACWORD \<noteq> 0) ParameterRangeError (
     ebind (normalize_int16 i_wave (Some (sample_count div 2))) (\<lambda>i_data.
     ebind (normalize_int16 q_wave (Some (sample_count div 2))) (\<lambda>q_data.
     Inr (interleave i_data q_data))))"

definition place_interleaved_iq_in_record ::
  "int16 list \<Rightarrow> pyfloat \<Rightarrow> pyfloat \<Rightarrow> pyfloat \<Rightarrow> int16 list result" where
  "place_interleaved_iq_in_record active delay_s record_duration_s sample_rate_hz =
     guard_raise (odd (length active)) WaveformFormatError (
     ebind (iq_duration_to_interleaved_sample_count record_duration_s sample_rate_hz) (\<lambda>record_count.
     ebind (py_round (fmul delay_s sample_rate_hz)) (\<lambda>d.
     let start = max 0 d * 2; stop = start + int (length active) in
     guard_raise (stop > record_count) ParameterRangeError (
     Inr (replicate (nat start) 0 @ active @ replicate (nat (record_count - stop)) 0)))))"

definition sample_bytes :: "int16 \<Rightarrow> bytes" where
  "sample_bytes w = [ucast w, ucast (drop_bit 8 w)]"

definition waveform_bytes :: "int16 list \<Rightarrow> bytes" where
  "waveform_bytes wave = concat (map sample_bytes wave)"

section \<open>Conversion into interleaved lanes\<close>

datatype ndarray = NdArray (shape: "nat list") (elements: "int list")

definition cast_i2 :: "int list \<Rightarrow> int16 list" where
  "cast_i2 = map word_of_int"

definition cast_i4 :: "int list \<Rightarrow> 32 word list" where
  "cast_i4 = map word_of_int"

definition view_i2 :: "32 word \<Rightarrow> int16 list" where
  "view_i2 w = [ucast w, ucast (drop_bit 16 w)]"

definition matrix_iq :: "ndarray \<Rightarrow> (int list \<times> int list) option" where
  "matrix_iq arr =
     (case shape arr of
        [rows, cols] \<Rightarrow>
          (if rows = 2 then Some (take cols (elements arr), drop cols (elements arr))
           else if cols = 2 then
             Some (map (\<lambda>r. elements arr ! (2 * r)) [0 ..< rows], map (\<lambda>r. elements arr ! (2 * r + 1)) [0 ..< rows])
           else None)
      | _ \<Rightarrow> None)"

definition ezq_wave_to_interleaved_int16 :: "ndarray \<Rightarrow> string \<Rightarrow> int16 list result" where
  "ezq_wave_to_interleaved_int16 wave wave_format =
     (if wave_format \<in> {''iq_matrix'', ''iq'', ''matrix''} then
        guard_raise (length (shape wave) \<noteq> 2) WaveformFormatError (
        case matrix_iq wave of
          None \<Rightarrow> Inl WaveformFormatError
        | Some (i_data, q_data) \<Rightarrow>
            guard_raise (length i_data \<noteq> length q_data) WaveformFormatError (
            Inr (interleave (cast_i2 i_data) (cast_i2 q_data))))
      else if wave_format \<in> {''packed_iq'', ''packed''} then
        Inr (concat (map view_i2 (cast_i4 (elements wave))))
      else if wave_format \<in> {''interleaved_iq'', ''interleaved'', ''iq_interleaved''} then
        guard_raise (odd (length (elements wave))) WaveformFormatError (Inr (cast_i2 (elements wave)))
      else if wave_format \<in> {''z'', ''real'', ''z_real''} then
        Inr (interleave (cast_i2 (elements wave)) (replicate (length (elements wave)) 0))
      else Inl WaveformFormatError)"

text \<open>\<open>a[0::2]\<close> and \<open>a[1::2]\<close>.\<close>

fun evens :: "'a list \<Rightarrow> 'a list" where
  "evens (a # b # xs) = a # evens xs"
| "evens [a] = [a]"
| "evens [] = []"

fun odds :: "'a list \<Rightarrow> 'a list" where
  "odds (a # b # xs) = b # odds xs"
| "odds _ = []"

definition pack_i4 :: "int16 \<Rightarrow> int16 \<Rightarrow> 32 word" where
  "pack_i4 i q = push_bit 16 (scast q AND 0xFFFF) OR (scast i AND 0xFFFF)"

definition ezq_wave_to_packed_int32 :: "ndarray \<Rightarrow> string \<Rightarrow> 32 word list result" where
  "ezq_wave_to_packed_int32 wave wave_format =
     (if wave_format \<in> {''packed_iq'', ''packed''} then Inr (cast_i4 (elements wave))
      else ebind (ezq_wave_to_interleaved_int16 wave wave_format) (\<lambda>interleaved.
        Inr (map2 pack_i4 (evens interleaved) (odds interleaved))))"

definition waveform_length_bytes :: "ndarray \<Rightarrow> int result" where
  "waveform_length_bytes samples = align_bytes_to_beat (int (length (elements samples)) * 2)"

section \<open>Addresses\<close>

definition tiled_ddr_addr :: "int \<Rightarrow> int \<Rightarrow> int \<Rightarrow> int result" where
  "tiled_ddr_addr channel byte_offset base_addr =
     (let channel_index = channel - 1 in
      guard_raise (\<not> (0 \<le> channel_index \<and> channel_index < DDR_TILE_CHANNELS)) ParameterRangeError (
      ebind (require_beat_aligned base_addr) (\<lambda>_.
      ebind (require_beat_aligned byte_offset) (\<lambda>_.
      let tile_index = byte_offset div DDR_TILE_BYTES; intra = byte_offset mod DDR_TILE_BYTES in
      Inr (base_addr + tile_index * DDR_SUPERBLOCK_BYTES + channel_index * DDR_TILE_BYTES + intra)))))"

definition tiled_channel_base_addr :: "int \<Rightarrow> int \<Rightarrow> int result" where
  "tiled_channel_base_addr channel base_addr = tiled_ddr_addr channel 0 base_addr"

definition interleaved_ddr_addr :: "int \<Rightarrow> int \<Rightarrow> int \<Rightarrow> int result" where
  "interleaved_ddr_addr channel byte_offset base_addr =
     (let channel_index = channel - 1 in
      guard_raise (\<not> (0 \<le> channel_index \<and> channel_index < DDR_INTERLEAVED_CHANNELS)) ParameterRangeError (
      guard_raise (byte_offset < 0 \<or> byte_offset mod DDR_INTERLEAVED_LANE_BYTES \<noteq> 0) ParameterRangeError (
      ebind (require_beat_aligned base_addr) (\<lambda>_.
      Inr (base_addr + (byte_offset div DDR_INTERLEAVED_LANE_BYTES) * DDR_INTERLEAVED_BEAT_BYTES +
           channel_index * DDR_INTERLEAVED_LANE_BYTES)))))"

definition interleaved_channel_lane_addr :: "int \<Rightarrow> int \<Rightarrow> int result" where
  "interleaved_channel_lane_addr channel base_addr = interleaved_ddr_addr channel 0 base_addr"

section \<open>The interleaved image\<close>

text \<open>A dictionary of the channels' waves; \<open>channel_lane\<close> is one channel's padded byte stream.\<close>

type_synonym channel_waves = "(nat \<times> int16 list) list"

definition channel_wave :: "channel_waves \<Rightarrow> nat \<Rightarrow> int16 list" where
  "channel_wave waves channel = (case map_of waves channel of Some wave \<Rightarrow> wave | None \<Rightarrow> [])"

definition channel_numbers :: "nat list" where "channel_numbers = [1, 2, 3, 4, 5, 6, 7, 8]"

definition channel_lane :: "channel_waves \<Rightarrow> nat \<Rightarrow> nat \<Rightarrow> bytes" where
  "channel_lane waves max_samples channel =
     (let wave = channel_wave waves channel in
      waveform_bytes (take max_samples wave @ replicate (max_samples - length wave) 0))"

definition slice_assign :: "nat \<Rightarrow> nat \<Rightarrow> 'a list \<Rightarrow> 'a list \<Rightarrow> 'a list" where
  "slice_assign start stop xs ys = take start ys @ xs @ drop stop ys"

definition pack_interleaved_512b_waveforms :: "channel_waves \<Rightarrow> (bytes \<times> int) result" where
  "pack_interleaved_512b_waveforms waves =
     (if waves = [] then Inr ([], 0)
      else ebind (align_bytes_to_beat
          (int (fold (\<lambda>channel m. max m (length (channel_wave waves channel))) channel_numbers 0) * 2)) (\<lambda>n.
        let max_samples = nat (n div 2);
            beat_count = max_samples div 4;
            image = fold (\<lambda>beat_index. fold (\<lambda>channel image.
                let start = beat_index * 8 in
                slice_assign (beat_index * 64 + (channel - 1) * 8) (beat_index * 64 + channel * 8)
                  (pyslice start (start + 8) (channel_lane waves max_samples channel)) image) channel_numbers)
              [0 ..< beat_count] (replicate (beat_count * 64) 0)
        in Inr (image, int max_samples)))"

section \<open>Max-length batches\<close>

text \<open>
  The generator's datagrams in order, each of them possibly the exception that ends the iteration;
  the exceptions of the argument checks come first.
\<close>

definition UDP_WAVE_BULK_MAGIC :: int where "UDP_WAVE_BULK_MAGIC = 0x5741564553545230"

definition max_length_offsets :: "int \<Rightarrow> int \<Rightarrow> int list" where
  "max_length_offsets total_bytes chunk =
     map (\<lambda>i. int i * chunk) [0 ..< nat ((total_bytes + chunk - 1) div chunk)]"

definition max_length_packet :: "int \<Rightarrow> int \<Rightarrow> int \<Rightarrow> int \<Rightarrow> bytes result" where
  "max_length_packet base_addr total_bytes chunk offset =
     (let payload = replicate (nat (min chunk (total_bytes - offset))) (0 :: byte) in
      ebind (struct_pack [fQ, fQ, fQ] [UDP_WAVE_BULK_MAGIC, base_addr + offset, int (length payload) div 8])
        (\<lambda>header. Inr (header @ payload)))"

definition iter_max_length_udp_batches :: "int \<Rightarrow> int \<Rightarrow> int \<Rightarrow> bytes result list result" where
  "iter_max_length_udp_batches bytes_per_channel base_addr beats_per_datagram =
     ebind (require_beat_aligned bytes_per_channel) (\<lambda>per_channel.
     guard_raise (per_channel \<le> 0 \<or> per_channel > DDR_MAX_BYTES_PER_CHANNEL) ParameterRangeError (
     ebind (validate_udp_bulk_beats beats_per_datagram) (\<lambda>beats.
     let total_bytes = per_channel * DDR_INTERLEAVED_CHANNELS; chunk = beats * DDR_INTERLEAVED_BEAT_BYTES in
     Inr (map (max_length_packet base_addr total_bytes chunk) (max_length_offsets total_bytes chunk)))))"

section \<open>Addresses are unique\<close>

lemma require_beat_aligned_Inr [err_simps]:
  "require_beat_aligned v = Inr w \<longleftrightarrow> w = v \<and> v mod 32 = 0"
  by (auto simp: require_beat_aligned_def err_simps)

lemma align_bytes_Inr: "0 \<le> n \<Longrightarrow> align_bytes_to_beat n = Inr (32 * ((n + 31) div 32))"
proof -
  assume "0 \<le> n"
  let ?q = "(n + 31) div 32"
  have q: "0 \<le> 32 * ?q - n" "32 * ?q - n < 32"
    using div_mult_mod_eq [of "n + 31" 32] pos_mod_bound [of 32 "n + 31"] pos_mod_sign [of 32 "n + 31"] by linarith+
  have "- n = - ?q * 32 + (32 * ?q - n)" by simp
  then have "(- n) mod 32 = 32 * ?q - n" using mult_add_div_mod(2) [OF q] by metis
  then have "n + (- n) mod 32 = 32 * ((n + 31) div 32)" by simp
  then show ?thesis using \<open>0 \<le> n\<close> by (simp add: align_bytes_to_beat_def)
qed

text \<open>
  The interleaved layout gives every channel and byte offset its own 8-byte lane: two addresses
  are equal only for the same channel and offset, and a lane stays within eight times its offset.
\<close>

lemma interleaved_ddr_addr_unique:
  assumes "interleaved_ddr_addr channel off base = Inr a" and "interleaved_ddr_addr channel' off' base = Inr a"
  shows "channel = channel' \<and> off = off' \<and> base \<le> a \<and> a + 8 \<le> base + 8 * (off + 8)"
proof -
  have "8 dvd off" "8 dvd off'" and nonneg: "0 \<le> off" "0 \<le> off'"
    using assms by (auto simp: interleaved_ddr_addr_def err_simps Let_def)
  then obtain k k' where k: "off = 8 * k" "off' = 8 * k'" by (auto elim!: dvdE)
  have k0: "0 \<le> k" "0 \<le> k'" using nonneg k by simp_all
  have a: "a = base + k * 64 + (channel - 1) * 8" "a = base + k' * 64 + (channel' - 1) * 8"
    and c: "0 \<le> channel - 1" "channel - 1 < 8" "0 \<le> channel' - 1" "channel' - 1 < 8"
    using assms by (auto simp: interleaved_ddr_addr_def err_simps k Let_def)
  have "(k * 8 + (channel - 1)) * 8 = (k' * 8 + (channel' - 1)) * 8"
    using a(1) a(2) by (simp add: algebra_simps)
  then have "k * 8 + (channel - 1) = k' * 8 + (channel' - 1)" by (rule mult_right_cancel [THEN iffD1, rotated]) simp
  then have "(k * 8 + (channel - 1)) div 8 = (k' * 8 + (channel' - 1)) div 8" by simp
  then have "k = k'" using c by (simp only: mult_add_div_mod)
  then show ?thesis using a c k k0 by auto
qed

lemma interleaved_ddr_addr_unique_witness:
  "interleaved_ddr_addr 3 16 0 = Inr 144 \<and> (144 :: int) + 8 \<le> 0 + 8 * (16 + 8)"
proof -
  have a: "interleaved_ddr_addr 3 16 0 = Inr 144"
    by (simp add: interleaved_ddr_addr_def require_beat_aligned_def)
  show ?thesis using interleaved_ddr_addr_unique [OF a a] a by simp
qed

lemma tiled_ddr_addr_unique:
  assumes "tiled_ddr_addr channel off base = Inr a" and "tiled_ddr_addr channel' off' base = Inr a"
  shows "channel = channel' \<and> off = off'"
proof -
  have a: "a = base + off div 4096 * 32768 + (channel - 1) * 4096 + off mod 4096"
      "a = base + off' div 4096 * 32768 + (channel' - 1) * 4096 + off' mod 4096"
    and c: "0 \<le> channel - 1" "channel - 1 < 8" "0 \<le> channel' - 1" "channel' - 1 < 8"
    using assms by (auto simp: tiled_ddr_addr_def err_simps Let_def)
  let ?t = "off div 4096 * 8 + (channel - 1)" and ?t' = "off' div 4096 * 8 + (channel' - 1)"
  have e: "?t * 4096 + off mod 4096 = ?t' * 4096 + off' mod 4096"
    using a by (simp add: algebra_simps)
  have "(?t * 4096 + off mod 4096) div 4096 = ?t" "(?t' * 4096 + off' mod 4096) div 4096 = ?t'"
    by (rule mult_add_div_mod; simp)+
  then have t: "?t = ?t'" unfolding e by (rule trans [OF sym])
  then have "off mod 4096 = off' mod 4096" using e by (simp only: add_left_cancel)
  moreover have "?t div 8 = off div 4096" "?t' div 8 = off' div 4096"
    by (rule mult_add_div_mod; use c in simp)+
  then have "off div 4096 = off' div 4096" using t by simp
  ultimately show ?thesis using t by (metis add_left_cancel diff_add_cancel div_mult_mod_eq)
qed

lemma tiled_ddr_addr_unique_witness:
  "tiled_ddr_addr 2 4128 64 = Inr 36960 \<and> (2 :: int) = 2 \<and> (4128 :: int) = 4128"
proof -
  have a: "tiled_ddr_addr 2 4128 64 = Inr 36960"
    by (simp add: tiled_ddr_addr_def require_beat_aligned_def)
  show ?thesis using tiled_ddr_addr_unique [OF a a] a by simp
qed

section \<open>The image is the channels' lanes\<close>

lemma slice_fill:
  assumes "\<And>k. k < n \<Longrightarrow> length (D k) = w" and "m \<le> n"
  shows "fold (\<lambda>k. slice_assign (w * k) (w * k + w) (D k)) [0 ..< m] (replicate (w * n) z) =
    concat (map D [0 ..< m]) @ replicate (w * (n - m)) z"
  using assms(2)
proof (induction m)
  case 0
  then show ?case by simp
next
  case (Suc m)
  have l: "length (concat (map D [0 ..< m])) = w * m"
    using Suc.prems assms(1) by (simp add: length_concat comp_def sum_list_triv)
      (subst map_cong [OF refl, of _ _ "\<lambda>_. w"]; simp add: sum_list_triv)
  have "n - m = Suc (n - Suc m)" using Suc.prems by simp
  then have r: "replicate (w * (n - m)) z = replicate w z @ replicate (w * (n - Suc m)) z"
    by (simp add: replicate_add)
  show ?case using Suc by (simp add: slice_assign_def l r)
qed

lemma concat_block:
  assumes "\<And>x. x \<in> set xs \<Longrightarrow> length (f x) = w" and "k < length xs"
  shows "take w (drop (w * k) (concat (map f xs))) = f (xs ! k)"
  using assms
proof (induction xs arbitrary: k)
  case Nil
  then show ?case by simp
next
  case (Cons x xs)
  then show ?case by (cases k) simp_all
qed

lemma length_waveform_bytes: "length (waveform_bytes ws) = 2 * length ws"
  by (induction ws) (simp_all add: waveform_bytes_def sample_bytes_def)

lemma length_channel_lane:
  "length (channel_lane waves max_samples channel) = 2 * max_samples"
  by (simp add: channel_lane_def length_waveform_bytes Let_def)

definition beat_lane :: "channel_waves \<Rightarrow> nat \<Rightarrow> nat \<Rightarrow> bytes" where
  "beat_lane waves max_samples k =
     pyslice (k div 8 * 8) (k div 8 * 8 + 8) (channel_lane waves max_samples (k mod 8 + 1))"

lemma beat_lane_at:
  assumes "1 \<le> c" "c \<le> 8"
  shows "beat_lane waves n (8 * b + (c - 1)) = pyslice (b * 8) (b * 8 + 8) (channel_lane waves n c)"
proof -
  obtain d where d: "c = Suc d" "d < 8" using assms by (cases c) auto
  have "(8 * b + d) div 8 = b" "(8 * b + d) mod 8 = d" using d(2) by simp_all
  then show ?thesis by (simp add: beat_lane_def d(1))
qed

lemma set_channel_numbers: "set channel_numbers = {1 .. 8}"
  by (auto simp: channel_numbers_def)

lemma image_loop:
  assumes "\<And>b c. L b c = beat_lane waves n (8 * b + (c - 1))"
  shows "fold (\<lambda>b. fold (\<lambda>c. slice_assign (b * 64 + (c - 1) * 8) (b * 64 + c * 8) (L b c)) channel_numbers)
     [0 ..< beats] img =
   fold (\<lambda>k. slice_assign (8 * k) (8 * k + 8) (beat_lane waves n k)) [0 ..< 8 * beats] img"
proof (induction beats)
  case 0
  then show ?case by simp
next
  case (Suc beats)
  have "[m ..< m + 8] = map (\<lambda>c. m + (c - 1)) channel_numbers" for m :: nat
    by (simp add: channel_numbers_def upt_rec)
  then have "[0 ..< 8 * Suc beats] = [0 ..< 8 * beats] @ map (\<lambda>c. 8 * beats + (c - 1)) channel_numbers"
    using upt_add_eq_append [of 0 "8 * beats" 8] by (simp only: mult_Suc_right add.commute [of 8])
  then show ?case
    using Suc by (simp add: assms channel_numbers_def algebra_simps)
qed

lemma concat_const_length:
  "(\<And>x. x \<in> set xs \<Longrightarrow> length (f x) = w) \<Longrightarrow> length (concat (map f xs)) = w * length xs"
  by (induction xs) simp_all

lemma length_beat_lane: "k < 8 * (n div 4) \<Longrightarrow> length (beat_lane waves n k) = 8"
proof -
  assume "k < 8 * (n div 4)"
  then have "k div 8 < n div 4" by (simp add: less_mult_imp_div_less mult.commute)
  then have "k div 8 * 8 + 8 \<le> 2 * n" by linarith
  then show ?thesis by (simp add: beat_lane_def pyslice_def length_channel_lane)
qed

definition longest_wave :: "channel_waves \<Rightarrow> nat" where
  "longest_wave waves = fold (\<lambda>channel m. max m (length (channel_wave waves channel))) channel_numbers 0"

lemma image_concat:
  assumes "waves \<noteq> []"
  defines "n \<equiv> 16 * ((longest_wave waves * 2 + 31) div 32)"
  shows "pack_interleaved_512b_waveforms waves =
    Inr (concat (map (beat_lane waves n) [0 ..< 8 * (n div 4)]), int n)"
proof -
  have "align_bytes_to_beat (int (longest_wave waves) * 2) = Inr (32 * ((int (longest_wave waves) * 2 + 31) div 32))"
    by (rule align_bytes_Inr) simp
  also have "32 * ((int (longest_wave waves) * 2 + 31) div 32) = int (2 * n)"
    by (simp add: n_def zdiv_int)
  finally have a: "align_bytes_to_beat (int (longest_wave waves) * 2) = Inr (int (2 * n))" .
  have half: "nat (int (2 * n) div 2) = n" by simp
  have L: "pyslice (b * 8) (b * 8 + 8) (channel_lane waves n c) = beat_lane waves n (8 * b + (c - 1))"
    if "c \<in> set channel_numbers" for b c
    by (rule beat_lane_at [symmetric]) (use that in \<open>simp_all add: set_channel_numbers\<close>)
  have inner: "fold (\<lambda>c. slice_assign (b * 64 + (c - 1) * 8) (b * 64 + c * 8)
        (pyslice (b * 8) (b * 8 + 8) (channel_lane waves n c))) channel_numbers =
      fold (\<lambda>c. slice_assign (b * 64 + (c - 1) * 8) (b * 64 + c * 8)
        (beat_lane waves n (8 * b + (c - 1)))) channel_numbers" for b
    by (rule ext, rule fold_cong) (simp_all add: L)
  have fill: "fold (\<lambda>k. slice_assign (8 * k) (8 * k + 8) (beat_lane waves n k)) [0 ..< 8 * (n div 4)]
      (replicate (8 * (8 * (n div 4))) 0) = concat (map (beat_lane waves n) [0 ..< 8 * (n div 4)])"
    using slice_fill [of "8 * (n div 4)" "beat_lane waves n" 8 "8 * (n div 4)" 0] by (simp add: length_beat_lane)
  have "n div 4 * 64 = 8 * (8 * (n div 4))" by simp
  then show ?thesis
    unfolding pack_interleaved_512b_waveforms_def longest_wave_def [symmetric] a ebind_Inr Let_def half inner
    using assms(1) fill by (simp only: if_False image_loop [OF refl])
qed

text \<open>
  The image of a non-empty dictionary: it is never an error, it is as long as the longest wave
  rounded up to whole beats in all eight lanes, and the eight bytes at the interleaved address of a
  channel's byte offset are that channel's bytes.
\<close>

lemma image_has_every_lane:
  assumes "waves \<noteq> []" and "pack_interleaved_512b_waveforms waves = Inr (img, n)"
    and "channel \<in> {1 .. 8}" and "0 \<le> off" and "off < 2 * n"
    and "interleaved_ddr_addr (int channel) off 0 = Inr a"
  shows "take 8 (drop (nat a) img) = take 8 (drop (nat off) (channel_lane waves (nat n) channel)) \<and>
    int (length img) = 8 * (2 * n) \<and> n mod 16 = 0 \<and>
    int (longest_wave waves) \<le> n \<and> n < int (longest_wave waves) + 16"
proof -
  define N where "N = 16 * ((longest_wave waves * 2 + 31) div 32)"
  have img_eq: "img = concat (map (beat_lane waves N) [0 ..< 8 * (N div 4)])" and n: "n = int N"
    using assms(2) image_concat [OF assms(1)] unfolding N_def by simp_all
  have "8 dvd off" using assms(6) by (auto simp: interleaved_ddr_addr_def err_simps Let_def)
  then obtain k where k: "off = 8 * int k" using assms(4) by (metis dvdE nonneg_int_cases zero_le_mult_iff zero_less_numeral less_le_not_le)
  define j where "j = 8 * k + (channel - 1)"
  have a: "nat a = 8 * j"
    using assms(3,6) by (auto simp: interleaved_ddr_addr_def err_simps Let_def k j_def)
  have N4: "N = 4 * (N div 4)" by (simp add: N_def)
  have "4 * k < 4 * (N div 4)" using assms(5) k n N4 by linarith
  then have "k + 1 \<le> N div 4" by simp
  then have "8 * k + 8 \<le> 8 * (N div 4)" by linarith
  then have j: "j < 8 * (N div 4)" using assms(3) by (auto simp: j_def)
  have "take 8 (drop (8 * j) img) = beat_lane waves N ([0 ..< 8 * (N div 4)] ! j)"
    unfolding img_eq by (rule concat_block) (use j in \<open>auto intro: length_beat_lane\<close>)
  also have "\<dots> = take 8 (drop (8 * k) (channel_lane waves N channel))"
  proof -
    have "beat_lane waves N j = pyslice (k * 8) (k * 8 + 8) (channel_lane waves N channel)"
      unfolding j_def by (rule beat_lane_at) (use assms(3) in simp_all)
    then show ?thesis using j by (simp add: pyslice_def take_drop ac_simps)
  qed
  finally have lane: "take 8 (drop (nat a) img) = take 8 (drop (nat off) (channel_lane waves (nat n) channel))"
    unfolding a k n by (simp add: nat_mult_distrib)
  have "length img = 8 * (8 * (N div 4))"
    unfolding img_eq by (subst concat_const_length [where w = 8]) (auto intro: length_beat_lane)
  then have "int (length img) = 8 * (2 * n)" using N4 n by simp
  moreover have "longest_wave waves \<le> N" "N < longest_wave waves + 16"
    unfolding N_def by linarith+
  ultimately show ?thesis using lane n by (simp add: N_def)
qed

definition example_waves :: channel_waves where
  "example_waves = [(2, [1, 2, 3, 4, 5]), (7, [0x1234, 0xFFFF])]"

lemma image_has_every_lane_witness:
  "\<exists>img. pack_interleaved_512b_waveforms example_waves = Inr (img, 16) \<and>
     take 8 (drop 48 img) = [0x34, 0x12, 0xFF, 0xFF, 0, 0, 0, 0] \<and> length img = 256"
proof -
  have l: "longest_wave example_waves = 5"
    by (simp add: longest_wave_def channel_numbers_def channel_wave_def example_waves_def)
  obtain img where i: "pack_interleaved_512b_waveforms example_waves = Inr (img, 16)"
    using image_concat [of example_waves] by (simp add: l) (simp add: example_waves_def)
  have a: "interleaved_ddr_addr (int 7) 0 0 = Inr 48"
    by (simp add: interleaved_ddr_addr_def require_beat_aligned_def)
  have "take 8 (drop (nat 48) img) = take 8 (drop (nat 0) (channel_lane example_waves (nat 16) 7)) \<and>
    int (length img) = 8 * (2 * 16) \<and> (16 :: int) mod 16 = 0 \<and>
    int (longest_wave example_waves) \<le> 16 \<and> 16 < int (longest_wave example_waves) + 16"
    by (rule image_has_every_lane [OF _ i _ _ _ a]) (simp_all add: example_waves_def)
  moreover have "take 8 (channel_lane example_waves 16 7) = [0x34, 0x12, 0xFF, 0xFF, 0, 0, 0, 0]"
  proof -
    have r: "replicate 14 x = [x, x, x, x, x, x, x, x, x, x, x, x, x, x]" for x :: 'a
      by (simp add: numeral_eq_Suc)
    show ?thesis
      by (simp add: channel_lane_def channel_wave_def example_waves_def waveform_bytes_def sample_bytes_def r)
  qed
  ultimately have "take 8 (drop 48 img) = [0x34, 0x12, 0xFF, 0xFF, 0, 0, 0, 0]" "length img = 256"
    by (simp_all only: nat_numeral nat_0 drop0, linarith)
  then show ?thesis using i by blast
qed

section \<open>Packed and interleaved forms\<close>

lemma evens_odds_views: "evens (concat (map view_i2 ws)) = map (\<lambda>w. ucast w) ws"
  "odds (concat (map view_i2 ws)) = map (\<lambda>w. ucast (drop_bit 16 w)) ws"
  by (induction ws) (simp_all add: view_i2_def)

lemma low_half: "take_bit 16 (scast (ucast (x :: 32 word) :: int16)) = take_bit 16 (x :: 32 word)"
proof (rule bit_word_eqI)
  fix n assume "n < LENGTH(32)"
  then show "bit (take_bit 16 (scast (ucast x :: int16) :: 32 word)) n = bit (take_bit 16 x) n"
    by (cases "n < 16") (simp_all add: bit_take_bit_iff bit_signed_iff bit_unsigned_iff min_absorb2)
qed

lemma pack_view: "pack_i4 (ucast w) (ucast (drop_bit 16 w)) = w"
proof -
  have m: "(0xFFFF :: 32 word) = mask 16" by (simp add: mask_eq_exp_minus_1)
  have "push_bit 16 (take_bit 16 (drop_bit 16 w)) OR take_bit 16 w = w"
    by (rule bit_word_eqI)
      (auto simp: bit_or_iff bit_push_bit_iff bit_take_bit_iff bit_drop_bit_eq)
  then show ?thesis by (simp only: pack_i4_def m take_bit_eq_mask [symmetric] low_half)
qed

lemma map2_pack_view: "map2 pack_i4 (map (\<lambda>w. ucast w) ws) (map (\<lambda>w. ucast (drop_bit 16 w)) ws) = ws"
  by (induction ws) (simp_all add: pack_view)

lemma even_views: "even (length (concat (map view_i2 ws)))"
  by (induction ws) (simp_all add: view_i2_def)

lemma cast_signed_elements: "cast_i2 (map sint ws) = ws"
  by (simp add: cast_i2_def comp_def)

text \<open>Packed words converted to lanes, and the lanes packed again, are the words.\<close>

text \<open>
  Packed words converted to interleaved lanes, and these lanes packed again, are the words.
\<close>

lemma packed_iq_roundtrip:
  assumes "wave_format \<in> {''interleaved_iq'', ''interleaved'', ''iq_interleaved''}"
    and "ezq_wave_to_interleaved_int16 wave ''packed_iq'' = Inr lanes"
  shows "ezq_wave_to_packed_int32 (NdArray [length lanes] (map sint lanes)) wave_format =
    Inr (cast_i4 (elements wave))"
proof -
  have l: "lanes = concat (map view_i2 (cast_i4 (elements wave)))"
    using assms(2) by (simp add: ezq_wave_to_interleaved_int16_def)
  have e: "even (length lanes)" unfolding l by (rule even_views)
  have "ezq_wave_to_interleaved_int16 (NdArray [length lanes] (map sint lanes)) wave_format = Inr lanes"
    using assms(1) e by (auto simp: ezq_wave_to_interleaved_int16_def cast_signed_elements)
  moreover have "map2 pack_i4 (evens lanes) (odds lanes) = cast_i4 (elements wave)"
    unfolding l evens_odds_views by (rule map2_pack_view)
  ultimately show ?thesis using assms(1) by (auto simp: ezq_wave_to_packed_int32_def)
qed

lemma packed_iq_roundtrip_witness:
  "ezq_wave_to_interleaved_int16 (NdArray [2] [0x7FFF8000, -1]) ''packed_iq'' = Inr [0x8000, 0x7FFF, 0xFFFF, 0xFFFF] \<and>
   ezq_wave_to_packed_int32 (NdArray [4] (map sint [0x8000, 0x7FFF, 0xFFFF, 0xFFFF :: int16])) ''interleaved'' =
     Inr [0x7FFF8000, -1]"
proof -
  have l: "ezq_wave_to_interleaved_int16 (NdArray [2] [0x7FFF8000, -1]) ''packed_iq'' = Inr [0x8000, 0x7FFF, 0xFFFF, 0xFFFF]"
    by (simp add: ezq_wave_to_interleaved_int16_def cast_i4_def view_i2_def unsigned_minus_1_eq_mask mask_eq_exp_minus_1)
  have "ezq_wave_to_packed_int32 (NdArray [length [0x8000, 0x7FFF, 0xFFFF, 0xFFFF :: int16]]
      (map sint [0x8000, 0x7FFF, 0xFFFF, 0xFFFF :: int16])) ''interleaved'' =
    Inr (cast_i4 (elements (NdArray [2] [0x7FFF8000, -1])))"
    by (rule packed_iq_roundtrip [OF _ l]) simp
  then show ?thesis using l by (simp add: cast_i4_def eval_nat_numeral)
qed

end
