(* ===== verification/Device_Upload.thy ===== *)
theory Device_Upload
  imports Device_Rfdc Waveforms
begin

unbundle bit_operations_syntax

text \<open>
  The uploads of \<open>dr47/device.py\<close>: \<open>upload_waveforms\<close>, \<open>upload_interleaved_chunks\<close> and
  \<open>upload_and_commit\<close>, and the invariant of the board object over all its methods. The progress
  callback and the pause between packets have no effect on the object.
\<close>

section \<open>Arguments\<close>

text \<open>A wave as the caller passes it: the array, whether it was a list, and the dtype's item size.\<close>

record wave_arg =
  wa_array :: ndarray
  wa_is_list :: bool
  wa_itemsize :: nat

definition infer_wave_format :: "wave_arg \<Rightarrow> nat \<Rightarrow> string" where
  "infer_wave_format wave physical_channel =
     (let arr = wa_array wave in
      if length (shape arr) = 2 then ''iq_matrix''
      else if wa_is_list wave then
        (if elements arr \<noteq> [] \<and> list_all (\<lambda>item. - 32768 \<le> item \<and> item \<le> 32767) (elements arr)
         then (if physical_channel \<in> {5, 6} then ''z'' else ''interleaved_iq'')
         else ''packed_iq'')
      else if wa_itemsize wave \<ge> 4 then ''packed_iq'' else ''interleaved_iq'')"

record upload_result =
  ur_session :: int
  ur_channels :: "nat list"
  ur_channel_mask :: int
  ur_bytes :: int
  ur_bytes_per_channel :: int
  ur_total_beats :: int
  ur_loop_count :: int
  ur_packet_count :: int
  ur_state :: int
  ur_descriptor :: int

text \<open>\<open>int(_)\<close> of an argument that \<open>_wave_uint\<close> has accepted.\<close>

fun int_of_pyval :: "pyval \<Rightarrow> int" where
  "int_of_pyval (PyInt n) = n"
| "int_of_pyval (PyBool b) = of_bool b"
| "int_of_pyval PyOther = 0"

definition checked_wave :: "(device, wave_response reply) prog \<Rightarrow> string \<Rightarrow> (device, wave_response) prog" where
  "checked_wave m operation = pbind m (\<lambda>reply. plift (check_wave_response reply operation))"

text \<open>The next upload session: the run counter skips zero.\<close>

definition next_session :: "(device, int) prog" where
  "next_session d =
     (let session = dv_run_id d; n = (session + 1) AND 0xFFFFFFFF in
      (Inr session, d\<lparr>dv_run_id := (if n = 0 then 1 else n)\<rparr>))"

section \<open>upload_waveforms\<close>

definition normalize_wave ::
  "(nat \<Rightarrow> string) \<Rightarrow> int \<times> wave_arg \<Rightarrow> (nat \<times> int16 list) result" where
  "normalize_wave wave_formats entry =
     (case entry of (physical, wave) \<Rightarrow>
        guard_raise (\<not> (1 \<le> physical \<and> physical \<le> 8)) ParameterRangeError (
        let ch = nat physical;
            fmt = (if wave_formats ch \<noteq> [] then wave_formats ch else infer_wave_format wave ch) in
        ebind (ezq_wave_to_interleaved_int16 (wa_array wave) fmt) (\<lambda>lanes. Inr (ch, lanes))))"

definition default_mask :: "channel_waves \<Rightarrow> int" where
  "default_mask normalized = sum_list (map (\<lambda>(ch, _). push_bit (ch - 1) 1) normalized)"

definition mute_unselected :: "int \<Rightarrow> channel_waves \<Rightarrow> channel_waves" where
  "mute_unselected channel_mask normalized =
     map (\<lambda>(ch, wave). (ch, if channel_mask AND push_bit (ch - 1) 1 \<noteq> 0 then wave
                             else replicate (length wave) 0)) normalized"

definition send_packets :: "int \<Rightarrow> bytes \<Rightarrow> (device, unit) prog" where
  "send_packets session img =
     pfor [0 ..< (length img + 1023) div 1024] (\<lambda>packet_seq.
       pbind (checked_wave (device_data_waveform (PyInt session) (PyInt (int packet_seq))
           (PyInt (int (packet_seq * 1024))) (pyslice (packet_seq * 1024) (packet_seq * 1024 + 1024) img)) ''DATA'')
         (\<lambda>_. pret ()))"

definition upload_waveforms ::
  "(int \<times> wave_arg) list \<Rightarrow> bool \<Rightarrow> (nat \<Rightarrow> string) \<Rightarrow> pyval option \<Rightarrow> pyval \<Rightarrow> (device, upload_result) prog" where
  "upload_waveforms channel_waves has_sequences wave_formats channel_mask loop_count =
     pthen (praise_if (channel_waves = []) ParameterRangeError) (
     pthen (praise_if has_sequences (UnsupportedParameterError ''channel_sequences'')) (
     pbind (plift (emap (normalize_wave wave_formats) channel_waves)) (\<lambda>normalized.
     let chosen = (case channel_mask of None \<Rightarrow> PyInt (default_mask normalized) | Some v \<Rightarrow> v) in
     pbind (plift (wave_uint chosen 8 True)) (\<lambda>m.
     let muted = mute_unselected m normalized in
     pbind (plift (pack_interleaved_512b_waveforms muted)) (\<lambda>(img, sample_count).
     pthen (praise_if (img = []) ParameterRangeError) (
     let channels = int_of_pyval chosen; total_packets = (int (length img) + 1023) div 1024;
         total_beats = int (length img) div WAVE_DAC_FRAME_BYTES in
     pbind next_session (\<lambda>session.
     pbind (checked_wave (device_begin_waveform (PyInt session) (PyInt (int (length img))) (PyInt channels)
         (PyInt total_beats) loop_count (PyInt WAVE_LAYOUT_INTERLEAVED_512B)) ''BEGIN'') (\<lambda>_.
     pthen (send_packets session img) (
     pbind (checked_wave (device_commit_waveform (PyInt session)) ''COMMIT'') (\<lambda>committed.
     pret \<lparr>ur_session = session, ur_channels = sort (map fst muted), ur_channel_mask = channels,
           ur_bytes = int (length img), ur_bytes_per_channel = sample_count * 2,
           ur_total_beats = total_beats, ur_loop_count = int_of_pyval loop_count,
           ur_packet_count = total_packets, ur_state = wr_state committed,
           ur_descriptor = wr_descriptor committed\<rparr>))))))))))"

section \<open>upload_interleaved_chunks\<close>

text \<open>The pieces of one chunk, and the loop over the chunks with the running offset and packet number.\<close>

fun send_pieces :: "int \<Rightarrow> nat \<Rightarrow> int \<Rightarrow> (nat \<times> bytes) list \<Rightarrow> int \<Rightarrow> (device, int) prog" where
  "send_pieces session packet_bytes off [] packet_seq = pret packet_seq"
| "send_pieces session packet_bytes off ((start, piece) # pieces) packet_seq =
     pbind (checked_wave (device_data_waveform (PyInt session) (PyInt packet_seq)
         (PyInt (off + int start)) piece) ''DATA'') (\<lambda>_.
     send_pieces session packet_bytes off pieces (packet_seq + 1))"

definition pieces_of :: "nat \<Rightarrow> bytes \<Rightarrow> (nat \<times> bytes) list" where
  "pieces_of packet_bytes raw =
     map (\<lambda>i. (i * packet_bytes, pyslice (i * packet_bytes) (i * packet_bytes + packet_bytes) raw))
       [0 ..< (length raw + packet_bytes - 1) div packet_bytes]"

fun send_chunks ::
  "int \<Rightarrow> nat \<Rightarrow> int \<Rightarrow> (pyval \<times> bytes) list \<Rightarrow> int \<Rightarrow> int \<Rightarrow> (device, int \<times> int) prog" where
  "send_chunks session packet_bytes total_bytes [] expected_offset packet_seq =
     pret (expected_offset, packet_seq)"
| "send_chunks session packet_bytes total_bytes ((offset_arg, raw) # chunks) expected_offset packet_seq =
     pbind (plift (wave_uint offset_arg 64 False)) (\<lambda>off.
     pthen (praise_if (off \<noteq> expected_offset) ParameterRangeError) (
     pthen (praise_if (raw = [] \<or> length raw mod 32 \<noteq> 0 \<or> off + int (length raw) > total_bytes)
       ParameterRangeError) (
     pbind (send_pieces session packet_bytes off (pieces_of packet_bytes raw) packet_seq) (\<lambda>packet_seq'.
     send_chunks session packet_bytes total_bytes chunks (expected_offset + int (length raw)) packet_seq'))))"

definition chosen_session :: "pyval option \<Rightarrow> (device, int) prog" where
  "chosen_session session =
     (case session of None \<Rightarrow> next_session | Some s \<Rightarrow> plift (wave_uint s 32 True))"

definition upload_interleaved_chunks ::
  "(pyval \<times> bytes) list \<Rightarrow> pyval \<Rightarrow> pyval \<Rightarrow> pyval \<Rightarrow> pyval \<Rightarrow> pyval option \<Rightarrow> int \<Rightarrow>
   (device, upload_result) prog" where
  "upload_interleaved_chunks chunks total_bytes_arg total_beats_arg channel_mask_arg loop_count_arg session_arg packet_bytes =
     pthen require_connected (
     pbind (plift (wave_uint total_bytes_arg 64 True)) (\<lambda>total_bytes.
     pbind (plift (wave_uint total_beats_arg 32 True)) (\<lambda>total_beats.
     pbind (plift (wave_uint channel_mask_arg 8 True)) (\<lambda>channels.
     pbind (plift (wave_uint loop_count_arg 32 True)) (\<lambda>loop_count.
     pthen (praise_if (total_bytes \<noteq> total_beats * WAVE_DAC_FRAME_BYTES) ParameterRangeError) (
     pthen (praise_if (packet_bytes < 32 \<or> packet_bytes mod 32 \<noteq> 0) ParameterRangeError) (
     pthen (praise_if (packet_bytes > ((UDP_MAX_PAYLOAD_BYTES - WAVE_CTRL_HEADER_BYTES - WAVE_DATA_HEADER_BYTES) div 32) * 32)
       ParameterRangeError) (
     pbind (chosen_session session_arg) (\<lambda>session.
     pbind (checked_wave (device_begin_waveform (PyInt session) (PyInt total_bytes) (PyInt channels)
         (PyInt total_beats) (PyInt loop_count) (PyInt WAVE_LAYOUT_INTERLEAVED_512B)) ''BEGIN'') (\<lambda>_.
     pbind (send_chunks session (nat packet_bytes) total_bytes chunks 0 0) (\<lambda>(expected_offset, packet_seq).
     pthen (praise_if (expected_offset \<noteq> total_bytes) ParameterRangeError) (
     pbind (checked_wave (device_commit_waveform (PyInt session)) ''COMMIT'') (\<lambda>committed.
     pret \<lparr>ur_session = session, ur_channels = [], ur_channel_mask = channels,
           ur_bytes = total_bytes, ur_bytes_per_channel = 0,
           ur_total_beats = total_beats, ur_loop_count = loop_count,
           ur_packet_count = packet_seq, ur_state = wr_state committed,
           ur_descriptor = wr_descriptor committed\<rparr>)))))))))))))"

section \<open>upload_and_commit\<close>

text \<open>The responses to BEGIN and DATA are not looked at.\<close>

definition upload_and_commit ::
  "bytes \<Rightarrow> pyval \<Rightarrow> pyval \<Rightarrow> pyval \<Rightarrow> pyval \<Rightarrow> nat \<Rightarrow> (device, wave_response reply) prog" where
  "upload_and_commit raw session channel_mask total_beats loop_count packet_bytes =
     pbind (device_begin_waveform session (PyInt (int (length raw))) channel_mask total_beats loop_count
              (PyInt WAVE_LAYOUT_INTERLEAVED_512B)) (\<lambda>_.
     pthen (praise_if (packet_bytes = 0) ValueError) (
     pthen (pfor (enumerate 0 (pieces_of packet_bytes raw)) (\<lambda>(packet_seq, start, chunk).
         pbind (device_data_waveform session (PyInt (int packet_seq)) (PyInt (int start)) chunk) (\<lambda>_. pret ()))) (
     device_commit_waveform session)))"

section \<open>The object's invariant\<close>

text \<open>
  The sequence and run counters are never zero and fit their 32-bit fields, and the capabilities never
  name a device: the STATUS payload, their only source, has no device UID.
\<close>

definition device_inv :: "device \<Rightarrow> bool" where
  "device_inv d \<longleftrightarrow>
     1 \<le> dv_sequence d \<and> dv_sequence d \<le> 0xFFFFFFFF \<and> 1 \<le> dv_run_id d \<and> dv_run_id d \<le> 0xFFFFFFFF \<and>
     cp_device_uid (dv_capabilities d) = []"

lemma inv_transport_part: "transport_part d d' \<Longrightarrow> device_inv d \<Longrightarrow> device_inv d'"
  by (simp add: device_inv_def transport_part_fields)

lemma inv_request [keeps_rules]: "keeps device_inv (device_request packet opcode seq w retries)"
  by (rule keepsI) (rule inv_transport_part [OF device_request_part])

lemma inv_on_transport [keeps_rules]: "keeps device_inv (on_transport f)"
  by (rule keepsI) (rule inv_transport_part [OF on_transport_part])

lemma inv_next_sequence [keeps_rules]: "keeps device_inv next_sequence"
  by (rule keepsI) (auto simp: next_sequence_def device_inv_def Let_def)

lemma masked_nonzero: "(x :: int) AND 0xFFFFFFFF \<noteq> 0 \<Longrightarrow> 1 \<le> x AND 0xFFFFFFFF"
  using and_mask_bounds(1) [of x] by linarith

lemma inv_next_session [keeps_rules]: "keeps device_inv next_session"
proof (rule keepsI)
  fix d assume d: "device_inv d"
  have "0 \<le> (dv_run_id d + 1) AND 0xFFFFFFFF" "(dv_run_id d + 1) AND 0xFFFFFFFF < 4294967296"
    by (rule and_mask_bounds)+
  then show "device_inv (snd (next_session d))"
    using d by (simp add: next_session_def device_inv_def Let_def masked_nonzero)
qed

lemma inv_choose_sequence [keeps_rules]: "keeps device_inv (choose_sequence seq)"
  unfolding choose_sequence_def by (cases seq) (auto intro: keeps_rules)

lemma inv_modify [keeps_rules]:
  "keeps device_inv (set_connected b)" "keeps device_inv (update_from_status r)"
  "keeps device_inv (validate_identity r)" "keeps device_inv (cache_rfdc_readback config)"
  "keeps device_inv tick_clock" "keeps device_inv device_close"
  by (auto simp: keeps_def device_inv_def set_connected_def update_from_status_def validate_identity_def
      cache_rfdc_readback_def tick_clock_def device_close_def capabilities_of_status_def Let_def split: list.split)

lemma inv_fields [keeps_rules]:
  "keeps device_inv (pmodify (\<lambda>d. d\<lparr>dv_clock := c\<rparr>))"
  "keeps device_inv (pmodify (\<lambda>d. d\<lparr>dv_pending_revision := r d\<rparr>))"
  "keeps device_inv (pmodify (\<lambda>d. d\<lparr>dv_pending_nco := n d\<rparr>))"
  "keeps device_inv (pmodify (\<lambda>d. d\<lparr>dv_pending_nco := n d, dv_pending_zone := z d\<rparr>))"
  "keeps device_inv (pmodify (\<lambda>d. d\<lparr>dv_pending_current := i d\<rparr>))"
  "keeps device_inv (pmodify (\<lambda>d. d\<lparr>dv_channel_mask := k d, dv_mask_explicit := True\<rparr>))"
  "keeps device_inv (pmodify (\<lambda>d. d\<lparr>dv_connected := False, dv_status := st d\<rparr>))"
  "keeps device_inv (pmodify (dv_pending_zone_update f))"
  "keeps device_inv (pmodify (dv_pending_phase_update f))"
  "keeps device_inv (pmodify (dv_pending_current_update f))"
  by (auto simp: keeps_def device_inv_def)

lemma keeps_answer [keeps_rules]:
  "(\<And>k. keeps I (h k)) \<Longrightarrow> (\<And>x. keeps I (a x)) \<Longrightarrow> keeps I (case ans of NotAwaited k \<Rightarrow> h k | Answer x \<Rightarrow> a x)"
  by (simp split: answer.split)

lemma inv_handshake [keeps_rules]: "keeps device_inv handshake"
  unfolding handshake_def by (intro keeps_rules)

lemma inv_connect_attempts [keeps_rules]: "keeps device_inv (connect_attempts n)"
proof (induction n)
  case 0
  show ?case unfolding connect_attempts.simps by (intro keeps_rules)
next
  case (Suc n)
  show ?case unfolding connect_attempts.simps by (intro keeps_rules Suc.IH)
qed

lemma inv_connect [keeps_rules]: "keeps device_inv device_connect"
  unfolding device_connect_def by (intro keeps_rules)

lemma inv_status [keeps_rules]: "keeps device_inv (device_status_op refresh)"
  unfolding device_status_op_def by (intro keeps_rules)

lemma inv_require [keeps_rules]: "keeps device_inv require_connected"
  unfolding require_connected_def by (intro keeps_rules)

lemma inv_awaited [keeps_rules]:
  "(\<And>r. keeps device_inv (decode r)) \<Longrightarrow> keeps device_inv (awaited w operation decode reply)"
  unfolding awaited_def by (cases w; cases reply) (auto intro!: keeps_rules)

lemma inv_wave_request [keeps_rules]: "keeps device_inv (wave_request packet opcode seq)"
  unfolding wave_request_def by (intro keeps_rules)

lemma inv_wave_call [keeps_rules]: "keeps device_inv (wave_call pack opcode)"
  unfolding wave_call_def by (intro keeps_rules)

lemmas wave_call_defs = device_waveform_status_def device_begin_waveform_def device_data_waveform_def
  device_commit_waveform_def device_play_def device_pause_def device_stop_def device_abort_def

lemma inv_checked_wave [keeps_rules]: "keeps device_inv m \<Longrightarrow> keeps device_inv (checked_wave m operation)"
  unfolding checked_wave_def by (intro keeps_rules)

lemma inv_parse_and_cache [keeps_rules]: "keeps device_inv (parse_and_cache r)"
  unfolding parse_and_cache_def by (intro keeps_rules)

lemma inv_rfdc_apply [keeps_rules]:
  "keeps device_inv (rfctrl2_rfdc_apply ncos zones phases currents revision channels seq w retries)"
  unfolding rfctrl2_rfdc_apply_def by (intro keeps_rules)

lemma inv_apply_once [keeps_rules]: "keeps device_inv (apply_pending_once channels)"
  using inv_rfdc_apply by (fastforce simp: keeps_def apply_pending_once_def)

lemma inv_idle_rounds [keeps_rules]: "keeps device_inv (idle_rounds deadline clock)"
proof (induction clock)
  case Nil
  show ?case unfolding idle_rounds.simps by (intro keeps_rules)
next
  case (Cons now later)
  show ?case unfolding idle_rounds.simps by (intro keeps_rules Cons.IH)
qed

lemma inv_wait_idle [keeps_rules]: "keeps device_inv (wait_for_playback_idle timeout)"
  unfolding wait_for_playback_idle_def by (intro keeps_rules)

lemma inv_apply_pending [keeps_rules]: "keeps device_inv (apply_pending channels)"
  unfolding apply_pending_def cache_answer_def device_abort_def by (intro keeps_rules)

lemma inv_apply_unless_batch [keeps_rules]: "keeps device_inv (apply_unless_batch physical)"
  unfolding apply_unless_batch_def by (intro keeps_rules)

lemma inv_set_channel_mask [keeps_rules]: "keeps device_inv (set_channel_mask channel_type channel on_off)"
  unfolding set_channel_mask_def by (intro keeps_rules)

lemma inv_send_packets [keeps_rules]: "keeps device_inv (send_packets session img)"
  unfolding send_packets_def device_data_waveform_def by (intro keeps_rules)

lemma inv_send_pieces [keeps_rules]: "keeps device_inv (send_pieces session n off pieces packet_seq)"
proof (induction pieces arbitrary: packet_seq)
  case Nil
  show ?case unfolding send_pieces.simps by (intro keeps_rules)
next
  case (Cons p pieces)
  show ?case by (cases p) (simp only: send_pieces.simps device_data_waveform_def, intro keeps_rules Cons.IH)
qed

lemma inv_send_chunks [keeps_rules]: "keeps device_inv (send_chunks session n total_bytes chunks off packet_seq)"
proof (induction chunks arbitrary: off packet_seq)
  case Nil
  show ?case unfolding send_chunks.simps by (intro keeps_rules)
next
  case (Cons c chunks)
  show ?case by (cases c) (simp only: send_chunks.simps, intro keeps_rules Cons.IH)
qed

lemma inv_chosen_session [keeps_rules]: "keeps device_inv (chosen_session s)"
  unfolding chosen_session_def by (intro keeps_rules)

section \<open>Every method\<close>

inductive device_reachable :: "device \<Rightarrow> bool" where
  init: "device_reachable (device_init ip port timeout_s udp_interface udp_source_ip retries batch_mode transport
     has_request profile trigger_path source_commit time_ns caps sock clock)"
| connect: "device_reachable d \<Longrightarrow> device_reachable (snd (device_connect d))"
| status: "device_reachable d \<Longrightarrow> device_reachable (snd (device_status_op refresh d))"
| hello: "device_reachable d \<Longrightarrow> device_reachable (snd (rfctrl2_hello seq w d))"
| raw_status: "device_reachable d \<Longrightarrow> device_reachable (snd (rfctrl2_status seq w retries d))"
| diagnostics: "device_reachable d \<Longrightarrow> device_reachable (snd (device_read_diagnostics d))"
| clear: "device_reachable d \<Longrightarrow> device_reachable (snd (clear_diagnostics events counters d))"
| tdc: "device_reachable d \<Longrightarrow> device_reachable (snd (tdc_register address write data d))"
| net_get: "device_reachable d \<Longrightarrow> device_reachable (snd (rfctrl2_network_get seq w retries d))"
| net_apply: "device_reachable d \<Longrightarrow>
     device_reachable (snd (rfctrl2_network_apply revision ip mac subnet gateway port seq w retries d))"
| net_restart: "device_reachable d \<Longrightarrow> device_reachable (snd (rfctrl2_network_restart seq w retries d))"
| wave: "device_reachable d \<Longrightarrow> device_reachable (snd (wave_call pack opcode d))"
| rfdc_apply: "device_reachable d \<Longrightarrow>
     device_reachable (snd (rfctrl2_rfdc_apply ncos zones phases currents revision channels seq w retries d))"
| rfdc_get: "device_reachable d \<Longrightarrow> device_reachable (snd (rfctrl2_rfdc_get_config seq w retries d))"
| config: "device_reachable d \<Longrightarrow>
     device_reachable (snd (apply_rfdc_config nco_ghz zone_src phase_src current_src new_revision channels d))"
| nco: "device_reachable d \<Longrightarrow> device_reachable (snd (set_xy_nco_frequency channel frequency d))"
| target: "device_reachable d \<Longrightarrow> device_reachable (snd (set_xy_target_frequency channel frequency fs d))"
| gain: "device_reachable d \<Longrightarrow> device_reachable (snd (set_gain channel_type channel gain gain_type d))"
| qc: "device_reachable d \<Longrightarrow> device_reachable (snd (set_qc_on_off channel_type channel on_off d))"
| qr: "device_reachable d \<Longrightarrow> device_reachable (snd (set_qr_on_off channel_type channel on_off d))"
| upload: "device_reachable d \<Longrightarrow>
     device_reachable (snd (upload_waveforms waves has_sequences formats mask_arg loop_count d))"
| chunks: "device_reachable d \<Longrightarrow>
     device_reachable (snd (upload_interleaved_chunks cs total_bytes beats mask_v loops session packet_bytes d))"
| upload_commit: "device_reachable d \<Longrightarrow>
     device_reachable (snd (upload_and_commit raw session_v mask_v beats loops n d))"
| commit: "device_reachable d \<Longrightarrow> device_reachable (snd (device_commit d))"
| close: "device_reachable d \<Longrightarrow> device_reachable (snd (device_close d))"

lemma inv_init: "device_inv (device_init ip port timeout_s udp_interface udp_source_ip retries batch_mode transport
     has_request profile trigger_path source_commit time_ns caps sock clock)"
proof -
  have "0 \<le> time_ns AND 0xFFFFFFFF" "time_ns AND 0xFFFFFFFF < 4294967296"
    by (rule and_mask_bounds)+
  then show ?thesis by (simp add: device_init_def device_inv_def default_capabilities_def Let_def masked_nonzero)
qed

lemma inv_set_pending:
  "keeps device_inv (set_pending_channel dv_pending_zone_update source dflt)"
  "keeps device_inv (set_pending_channel dv_pending_phase_update source dflt)"
  "keeps device_inv (set_pending_channel dv_pending_current_update source dflt)"
  unfolding set_pending_channel_def by (intro keeps_rules)+

text \<open>
  C11. In every state that the methods of the board object can reach, whatever the board and the
  network answer, the sequence and the run counter are non-zero 32-bit numbers, so that no request
  carries the sequence number or the session zero, and the cached capabilities name no device: no
  answer that the object reads contains a device UID.
\<close>

theorem device_counters:
  assumes "device_reachable d"
  shows "1 \<le> dv_sequence d \<and> dv_sequence d < 2 ^ 32 \<and> 1 \<le> dv_run_id d \<and> dv_run_id d < 2 ^ 32 \<and>
    cp_device_uid (dv_capabilities d) = []"
proof -
  have "device_inv d" using assms
  proof (induction rule: device_reachable.induct)
    case init show ?case by (rule inv_init)
  next
    case connect then show ?case by (elim keepsD [rotated]) (intro keeps_rules)
  next
    case status then show ?case by (elim keepsD [rotated]) (intro keeps_rules)
  next
    case hello then show ?case by (elim keepsD [rotated]) (unfold rfctrl2_hello_def, intro keeps_rules)
  next
    case raw_status then show ?case by (elim keepsD [rotated]) (unfold rfctrl2_status_def, intro keeps_rules)
  next
    case diagnostics then show ?case by (elim keepsD [rotated]) (unfold device_read_diagnostics_def, intro keeps_rules)
  next
    case clear then show ?case by (elim keepsD [rotated]) (unfold clear_diagnostics_def, intro keeps_rules)
  next
    case tdc then show ?case by (elim keepsD [rotated]) (unfold tdc_register_def, intro keeps_rules)
  next
    case net_get then show ?case by (elim keepsD [rotated]) (unfold rfctrl2_network_get_def, intro keeps_rules)
  next
    case net_apply then show ?case by (elim keepsD [rotated]) (unfold rfctrl2_network_apply_def, intro keeps_rules)
  next
    case net_restart then show ?case by (elim keepsD [rotated]) (unfold rfctrl2_network_restart_def, intro keeps_rules)
  next
    case wave then show ?case by (elim keepsD [rotated]) (intro keeps_rules)
  next
    case rfdc_apply then show ?case by (elim keepsD [rotated]) (intro keeps_rules)
  next
    case rfdc_get then show ?case by (elim keepsD [rotated]) (unfold rfctrl2_rfdc_get_config_def, intro keeps_rules)
  next
    case config then show ?case by (elim keepsD [rotated]) (unfold apply_rfdc_config_def, intro keeps_rules inv_set_pending)
  next
    case nco then show ?case by (elim keepsD [rotated]) (unfold set_xy_nco_frequency_def, intro keeps_rules)
  next
    case target then show ?case by (elim keepsD [rotated]) (unfold set_xy_target_frequency_def, intro keeps_rules)
  next
    case gain then show ?case by (elim keepsD [rotated]) (unfold set_gain_def, intro keeps_rules)
  next
    case qc then show ?case by (elim keepsD [rotated]) (unfold set_qc_on_off_def, intro keeps_rules)
  next
    case qr then show ?case by (elim keepsD [rotated]) (unfold set_qr_on_off_def, intro keeps_rules)
  next
    case upload then show ?case
      by (elim keepsD [rotated]) (unfold upload_waveforms_def wave_call_defs, intro keeps_rules)
  next
    case chunks then show ?case
      by (elim keepsD [rotated]) (unfold upload_interleaved_chunks_def wave_call_defs, intro keeps_rules)
  next
    case upload_commit then show ?case
      by (elim keepsD [rotated]) (unfold upload_and_commit_def wave_call_defs, intro keeps_rules)
  next
    case commit then show ?case by (elim keepsD [rotated]) (unfold device_commit_def, intro keeps_rules)
  next
    case close then show ?case by (elim keepsD [rotated]) (intro keeps_rules)
  qed
  then show ?thesis by (simp add: device_inv_def)
qed

lemma device_counters_witness:
  "dv_sequence (snd (device_close (example_device None))) = 7 \<and>
   1 \<le> dv_sequence (snd (device_close (example_device None))) \<and>
   cp_device_uid (dv_capabilities (snd (device_close (example_device None)))) = []"
proof -
  have "device_reachable (snd (device_close (example_device None)))"
    unfolding example_device_def by (rule device_reachable.close [OF device_reachable.init])
  note i = device_counters [OF this]
  have "dv_sequence (snd (device_close (example_device None))) = 7"
    by (simp add: device_close_def example_device_def device_init_def Let_def)
  with i show ?thesis by simp
qed

end
