(* ===== verification/Ip_Address.thy ===== *)
theory Ip_Address
  imports Rf_Network
begin

unbundle bit_operations_syntax

text \<open>
  The part of Python's \<open>ipaddress\<close> module that the board enrollment (\<open>dr47/network.py\<close>) relies on:
  the strict dotted form of IPv4 addresses, which, unlike \<open>inet_aton\<close>, has one text per address, and the
  netmask of an interface text. An \<open>AddressValueError\<close> is a \<open>ValueError\<close>.
\<close>

section \<open>Splitting\<close>

fun split_on :: "char \<Rightarrow> string \<Rightarrow> string list" where
  "split_on d [] = [[]]"
| "split_on d (c # cs) =
     (if c = d then [] # split_on d cs
      else case split_on d cs of part # parts \<Rightarrow> (c # part) # parts | [] \<Rightarrow> [[c]])"

lemma split_on_absent: "d \<notin> set a \<Longrightarrow> split_on d a = [a]"
  by (induction a) auto

lemma split_on_first: "d \<notin> set a \<Longrightarrow> split_on d (a @ d # rest) = a # split_on d rest"
  by (induction a) auto

lemma split_on_nonempty [simp]: "split_on d s \<noteq> []"
  by (induction s) (auto split: list.split)

text \<open>Joining the parts again.\<close>

fun join_on :: "char \<Rightarrow> string list \<Rightarrow> string" where
  "join_on d [] = []"
| "join_on d [p] = p"
| "join_on d (p # q # ps) = p @ d # join_on d (q # ps)"

lemma join_split: "join_on d (split_on d s) = s"
proof (induction s)
  case (Cons c cs)
  show ?case
  proof (cases "split_on d cs")
    case Nil
    then show ?thesis by simp
  next
    case (Cons p ps)
    then show ?thesis using Cons.IH by (cases ps) simp_all
  qed
qed simp

lemma dot_not_digit: "CHR ''.'' \<notin> set (dec_digits n)"
  using dec_digits_are_digits [of n] by (force simp: is_digit_def digit_value_def ccode_def)

lemma split_dotted:
  "split_on CHR ''.'' (dec_digits a @ ''.'' @ dec_digits b @ ''.'' @ dec_digits c @ ''.'' @ dec_digits d) =
   [dec_digits a, dec_digits b, dec_digits c, dec_digits d]"
  by (simp add: split_on_first split_on_absent dot_not_digit)

section \<open>IPv4 addresses\<close>

definition ip4_octet :: "string \<Rightarrow> int result" where
  "ip4_octet s =
     guard_raise (s = [] \<or> (\<exists>c \<in> set s. \<not> is_digit 10 c) \<or> length s > 3 \<or> (s \<noteq> ''0'' \<and> hd s = CHR ''0''))
       ValueError (
     let v = int (digits_value 10 s) in guard_raise (v > 255) ValueError (Inr v))"

definition ip4_address :: "string \<Rightarrow> int result" where
  "ip4_address s =
     guard_raise (CHR ''/'' \<in> set s \<or> length (split_on CHR ''.'' s) \<noteq> 4) ValueError (
     ebind (emap ip4_octet (split_on CHR ''.'' s)) (\<lambda>octets.
     Inr (foldl (\<lambda>acc octet. acc * 256 + octet) 0 octets)))"

text \<open>
  A mask after the slash is a prefix length, a netmask or a host mask; only the masks of sixteen bits
  matter to the code.
\<close>

definition mask_is_16 :: "string \<Rightarrow> bool" where
  "mask_is_16 m \<longleftrightarrow>
     (m \<noteq> [] \<and> (\<forall>c \<in> set m. is_digit 10 c) \<and> digits_value 10 m = 16) \<or>
     ip4_address m = Inr 0xFFFF0000 \<or> ip4_address m = Inr 0x0000FFFF"

text \<open>\<open>ip_interface(cidr)\<close> with a prefix of sixteen bits: its address, if it is an IPv4 interface.\<close>

definition interface_16 :: "string \<Rightarrow> int option" where
  "interface_16 cidr =
     (case split_on CHR ''/'' cidr of
        [addr, m] \<Rightarrow>
          (case ip4_address addr of Inr v \<Rightarrow> if mask_is_16 m then Some v else None | Inl _ \<Rightarrow> None)
      | _ \<Rightarrow> None)"

section \<open>One text per address\<close>

lemma digits_value_bound:
  "\<forall>c \<in> set s. is_digit 10 c \<Longrightarrow> digits_value 10 s < 10 ^ length s"
proof (induction s rule: rev_induct)
  case (snoc c s)
  then have "digits_value 10 s < 10 ^ length s" "is_digit 10 c" by simp_all
  moreover from this(2) have "the (digit_value c) < 10" by (auto simp: is_digit_def split: option.splits)
  ultimately show ?case by (simp add: digits_value_snoc)
qed (simp add: digits_value_def)

lemma digit_char_value: "is_digit 10 c \<Longrightarrow> digit_char (the (digit_value c)) = c"
  using char_of_ccode [of c]
  by (auto simp: is_digit_def digit_value_def digit_char_def Let_def split: if_splits)

lemma digits_value_pos:
  "\<forall>c \<in> set s. is_digit 10 c \<Longrightarrow> s \<noteq> [] \<Longrightarrow> hd s \<noteq> CHR ''0'' \<Longrightarrow> 0 < digits_value 10 s"
proof (induction s rule: rev_induct)
  case (snoc c s)
  show ?case
  proof (cases "s = []")
    case True
    then have "c \<noteq> CHR ''0''" "is_digit 10 c" using snoc.prems by simp_all
    have z: "digit_char 0 = CHR ''0''" using dec_digits_0 by (simp add: dec_digits.simps)
    have "the (digit_value c) \<noteq> 0"
    proof
      assume "the (digit_value c) = 0"
      then show False using digit_char_value [of c] \<open>is_digit 10 c\<close> \<open>c \<noteq> CHR ''0''\<close> z by simp
    qed
    then show ?thesis using True by (simp add: digits_value_def)
  next
    case False
    then have "0 < digits_value 10 s" using snoc by simp
    then show ?thesis by (simp add: digits_value_snoc)
  qed
qed simp

lemma dec_digits_value:
  "\<forall>c \<in> set s. is_digit 10 c \<Longrightarrow> s \<noteq> [] \<Longrightarrow> s = ''0'' \<or> hd s \<noteq> CHR ''0'' \<Longrightarrow> dec_digits (digits_value 10 s) = s"
proof (induction s rule: rev_induct)
  case (snoc c s)
  have c: "is_digit 10 c" "the (digit_value c) < 10"
    using snoc.prems(1) by (auto simp: is_digit_def split: option.splits)
  show ?case
  proof (cases "s = []")
    case True
    then show ?thesis using c digit_char_value [OF c(1)]
      by (simp add: digits_value_def dec_digits.simps)
  next
    case False
    then have hd: "hd s \<noteq> CHR ''0''" using snoc.prems(3) by (cases s) auto
    then have pos: "0 < digits_value 10 s" using digits_value_pos [of s] snoc.prems(1) False by simp
    have ih: "dec_digits (digits_value 10 s) = s" using snoc.IH snoc.prems(1) False hd by simp
    have v: "digits_value 10 (s @ [c]) = digits_value 10 s * 10 + the (digit_value c)" by (rule digits_value_snoc)
    then have "\<not> digits_value 10 (s @ [c]) < 10" "digits_value 10 (s @ [c]) div 10 = digits_value 10 s"
      "digits_value 10 (s @ [c]) mod 10 = the (digit_value c)"
      using pos c(2) by simp_all
    then show ?thesis using ih digit_char_value [OF c(1)] by (subst dec_digits.simps) simp
  qed
qed simp

lemma length_dec_digits: "n < 10 ^ Suc k \<Longrightarrow> length (dec_digits n) \<le> Suc k"
proof (induction k arbitrary: n)
  case 0
  then show ?case by (subst dec_digits.simps) simp
next
  case (Suc k)
  then have "n div 10 < 10 ^ Suc k" by (simp add: less_mult_imp_div_less)
  from Suc.IH [OF this] show ?case by (subst dec_digits.simps) simp
qed

lemma ip4_octet_Inr: "ip4_octet s = Inr v \<Longrightarrow> s = dec_digits (nat v) \<and> 0 \<le> v \<and> v < 256"
  by (auto simp: ip4_octet_def err_simps Let_def dec_digits_value)

lemma ip4_octet_digits:
  assumes "n < 256"
  shows "ip4_octet (dec_digits n) = Inr (int n)"
proof -
  have d: "\<forall>c \<in> set (dec_digits n). is_digit 10 c" by (rule dec_digits_are_digits)
  have ne: "dec_digits n \<noteq> []" using dec_digits_hd_digit [of n] by auto
  have z: "dec_digits n = ''0'' \<or> hd (dec_digits n) \<noteq> CHR ''0''"
    using dec_digits_head [of n] digit_char_not_zero dec_digits_0 by (cases "n = 0") auto
  have l: "length (dec_digits n) \<le> 3"
    using length_dec_digits [of n 2] assms by simp
  show ?thesis using d ne z l assms by (auto simp: ip4_octet_def digits_value_dec Let_def guard_raise_def)
qed

lemma ip4_address_u32:
  assumes "0 \<le> v" "v < 2 ^ 32"
  shows "ip4_address (u32_ipv4 v) = Inr v"
proof -
  define n where "n = nat v"
  have n: "n < 4294967296" "v = int n" "nat (v AND 0xFFFFFFFF) = n"
    using assms by (simp_all add: n_def and_mask_numerals)
  let ?a = "n div 16777216" and ?b = "n div 65536 mod 256" and ?c = "n div 256 mod 256" and ?d = "n mod 256"
  have a: "?a < 256" using n(1) by (simp add: less_mult_imp_div_less)
  have t: "u32_ipv4 v = dec_digits ?a @ ''.'' @ dec_digits ?b @ ''.'' @ dec_digits ?c @ ''.'' @ dec_digits ?d"
    by (simp add: u32_ipv4_def Let_def n(3))
  have slash: "CHR ''/'' \<notin> set (dec_digits k)" for k
    using dec_digits_are_digits [of k] by (force simp: is_digit_def digit_value_def ccode_def)
  have o: "emap ip4_octet [dec_digits ?a, dec_digits ?b, dec_digits ?c, dec_digits ?d] =
      Inr [int ?a, int ?b, int ?c, int ?d]"
    using a by (simp add: ip4_octet_digits)
  have "foldl (\<lambda>acc octet. acc * 256 + octet) 0 [int ?a, int ?b, int ?c, int ?d] = int n"
    using byte_split [of n] by simp
  then show ?thesis
    unfolding ip4_address_def t split_dotted o using slash by (simp add: n(2) guard_raise_def)
qed

text \<open>Conversely an accepted text is the canonical one, so that \<open>str(IPv4Address(s))\<close> is \<open>s\<close>.\<close>

lemma ip4_address_canonical:
  assumes "ip4_address s = Inr v"
  shows "0 \<le> v \<and> v < 2 ^ 32 \<and> u32_ipv4 v = s"
proof -
  from assms obtain octets where len: "length (split_on CHR ''.'' s) = 4"
    and o: "emap ip4_octet (split_on CHR ''.'' s) = Inr octets"
    and v: "v = foldl (\<lambda>acc octet. acc * 256 + octet) 0 octets"
    by (auto simp: ip4_address_def err_simps)
  from len obtain p q r t where parts: "split_on CHR ''.'' s = [p, q, r, t]"
    by (auto simp: length_Suc_conv numeral_eq_Suc)
  from o obtain a b c d where oct: "octets = [a, b, c, d]" "ip4_octet p = Inr a" "ip4_octet q = Inr b"
    "ip4_octet r = Inr c" "ip4_octet t = Inr d"
    unfolding parts by (auto simp: err_simps)
  note i = oct(2-5) [THEN ip4_octet_Inr]
  have s: "s = dec_digits (nat a) @ ''.'' @ dec_digits (nat b) @ ''.'' @ dec_digits (nat c) @ ''.'' @ dec_digits (nat d)"
    using join_split [of "CHR ''.''" s] i unfolding parts by simp
  have v4: "v = a * 16777216 + b * 65536 + c * 256 + d" using v oct(1) by simp
  have r: "0 \<le> v" "v < 2 ^ 32" using v4 i by simp_all
  define n where "n = nat v"
  have n: "n = nat a * 16777216 + nat b * 65536 + nat c * 256 + nat d"
    using i by (simp add: n_def v4 nat_add_distrib nat_mult_distrib)
  have small: "nat a < 256" "nat b < 256" "nat c < 256" "nat d < 256" using i by (simp_all add: nat_less_iff)
  define x y where "x = nat a * 256 + nat b" and "y = x * 256 + nat c"
  have y: "n = y * 256 + nat d" by (simp add: n x_def y_def algebra_simps)
  have "n div 256 = y" "n mod 256 = nat d" unfolding y using small by simp_all
  moreover have "y div 256 = x" "y mod 256 = nat c" unfolding y_def using small by simp_all
  moreover have "x div 256 = nat a" "x mod 256 = nat b" unfolding x_def using small by simp_all
  moreover have "n div 65536 = n div 256 div 256" "n div 16777216 = n div 256 div 256 div 256"
    by (simp_all add: div_mult2_eq [symmetric])
  ultimately have "n div 16777216 = nat a" "n div 65536 mod 256 = nat b" "n div 256 mod 256 = nat c" "n mod 256 = nat d"
    by simp_all
  moreover have "nat (v AND 0xFFFFFFFF) = n" using r by (simp add: and_mask_numerals n_def)
  ultimately show ?thesis using r by (simp add: u32_ipv4_def Let_def s)
qed


section \<open>Decimal numbers\<close>

text \<open>\<open>int(_, 10)\<close> on ASCII text: white space around, one sign, digits with single underscores.\<close>

fun dec_scan :: "nat \<Rightarrow> bool \<Rightarrow> string \<Rightarrow> nat option" where
  "dec_scan acc prev_us [] = (if prev_us then None else Some acc)"
| "dec_scan acc prev_us (c # cs) =
     (if c = CHR ''_'' then (if prev_us then None else dec_scan acc True cs)
      else if is_digit 10 c then dec_scan (acc * 10 + the (digit_value c)) False cs
      else None)"

definition int_base10 :: "string \<Rightarrow> int option" where
  "int_base10 s =
     (let (neg, d) = drop_sign (strip s) in
      case d of
        [] \<Rightarrow> None
      | c # _ \<Rightarrow>
          if c = CHR ''_'' then None
          else case dec_scan 0 False d of None \<Rightarrow> None | Some n \<Rightarrow> Some (if neg then - int n else int n))"

lemma dec_scan_digits:
  "\<forall>c \<in> set ds. is_digit 10 c \<Longrightarrow>
   dec_scan acc False ds = Some (foldl (\<lambda>acc c. acc * 10 + the (digit_value c)) acc ds)"
proof (induction ds arbitrary: acc)
  case (Cons c ds)
  then have "is_digit 10 c" by simp
  then have "c \<noteq> CHR ''_''" by (auto simp: is_digit_def digit_value_def ccode_def)
  then show ?case using Cons by simp
qed simp

lemma dec_digits_are_digit_chars: "\<forall>c \<in> set (dec_digits n). \<exists>d < 16. c = digit_char d"
proof
  fix c
  assume "c \<in> set (dec_digits n)"
  then have "is_digit 10 c" using dec_digits_are_digits by blast
  then obtain v where "digit_value c = Some v" "v < 10" by (auto simp: is_digit_def split: option.splits)
  then have "ccode c = 48 + v" by (auto simp: digit_value_def Let_def split: if_splits)
  then have "c = digit_char v" using \<open>v < 10\<close> by (simp add: ccode_eq_iff digit_char_code)
  then show "\<exists>d < 16. c = digit_char d" using \<open>v < 10\<close> by (intro exI [of _ v]) simp
qed

lemma int_base10_digits: "int_base10 (dec_digits n) = Some (int n)"
proof -
  obtain c r where c: "dec_digits n = c # r" "is_digit 10 c" using dec_digits_hd_digit by blast
  have p: "c \<noteq> CHR ''+''" "c \<noteq> CHR ''-''" "c \<noteq> CHR ''_''"
    using c(2) by (auto simp: is_digit_def digit_value_def ccode_def)
  have "dec_scan 0 False (c # r) = Some n"
    using dec_scan_digits [OF dec_digits_are_digits, of 0 n] digits_value_dec [of n] c(1)
    by (simp add: digits_value_def del: dec_scan.simps)
  moreover have "strip (c # r) = c # r"
    using strip_digits [OF dec_digits_are_digit_chars [of n]] unfolding c(1) .
  ultimately show ?thesis
    unfolding int_base10_def c(1) using p by (simp add: drop_sign_def del: dec_scan.simps)
qed

end
