(* ===== verification/Host_Control.thy ===== *)
theory Host_Control
  imports Waveforms Ip_Address
begin

unbundle bit_operations_syntax

text \<open>
  The control messages of the standalone tool \<open>src/software/host.py\<close>: its own copies of the
  protocol constants, the RFDC mailbox images, the RVCTRL0 and RVCTRL1 commands and RVRESP1
  responses, the executor instruction packet, and a second implementation of RFCTRL2. Names carry
  the prefix \<open>host_\<close>, since \<open>dr47/protocol.py\<close> has functions of the same names. The tool raises
  \<open>ValueError\<close> where the driver raises its own exceptions; the section on the driver shows that
  otherwise the two RFCTRL2 implementations agree.
\<close>

named_theorems host_consts \<open>the constants of the standalone tool\<close>

definition host_BEAT_BYTES :: int where [host_consts]: "host_BEAT_BYTES = 32"
definition host_DDR_TILE_BYTES :: int where [host_consts]: "host_DDR_TILE_BYTES = 4096"
definition host_DDR_TILE_CHANNELS :: int where [host_consts]: "host_DDR_TILE_CHANNELS = 8"
definition host_DDR_SUPERBLOCK_BYTES :: int where [host_consts]: "host_DDR_SUPERBLOCK_BYTES = host_DDR_TILE_BYTES * host_DDR_TILE_CHANNELS"
definition host_DDR_INTERLEAVED_LANE_BYTES :: int where [host_consts]: "host_DDR_INTERLEAVED_LANE_BYTES = 8"
definition host_DDR_INTERLEAVED_BEAT_BYTES :: int where [host_consts]: "host_DDR_INTERLEAVED_BEAT_BYTES = host_DDR_INTERLEAVED_LANE_BYTES * host_DDR_TILE_CHANNELS"
definition host_DDR_INTERLEAVED_CHANNELS :: int where [host_consts]: "host_DDR_INTERLEAVED_CHANNELS = host_DDR_TILE_CHANNELS"
definition host_DDR_PHYS_BYTES :: int where [host_consts]: "host_DDR_PHYS_BYTES = 8 * 1024 * 1024 * 1024"
definition host_DDR_RESERVED_TOP_BYTES :: int where [host_consts]: "host_DDR_RESERVED_TOP_BYTES = 1 * 1024 * 1024"
definition host_DDR_USABLE_WAVEFORM_BYTES :: int where [host_consts]: "host_DDR_USABLE_WAVEFORM_BYTES = host_DDR_PHYS_BYTES - host_DDR_RESERVED_TOP_BYTES"
definition host_DDR_MAX_BYTES_PER_CHANNEL :: int where [host_consts]: "host_DDR_MAX_BYTES_PER_CHANNEL = (host_DDR_USABLE_WAVEFORM_BYTES div host_DDR_INTERLEAVED_CHANNELS) AND NOT (host_BEAT_BYTES - 1)"
definition host_DDR_MAX_INTERLEAVED_BYTES :: int where [host_consts]: "host_DDR_MAX_INTERLEAVED_BYTES = host_DDR_MAX_BYTES_PER_CHANNEL * host_DDR_INTERLEAVED_CHANNELS"
definition host_DDR_BASE :: int where [host_consts]: "host_DDR_BASE = 0x0000000000000000"
definition host_PLAY_FLAG_LOOP :: int where [host_consts]: "host_PLAY_FLAG_LOOP = 0x1"
definition host_PLAY_FLAG_TILED :: int where [host_consts]: "host_PLAY_FLAG_TILED = 0x2"
definition host_PLAY_FLAG_INTERLEAVED :: int where [host_consts]: "host_PLAY_FLAG_INTERLEAVED = 0x4"
definition host_UDP_STANDARD_MTU_BYTES :: int where [host_consts]: "host_UDP_STANDARD_MTU_BYTES = 1500"
definition host_UDP_IPV4_HEADER_BYTES :: int where [host_consts]: "host_UDP_IPV4_HEADER_BYTES = 20"
definition host_UDP_HEADER_BYTES :: int where [host_consts]: "host_UDP_HEADER_BYTES = 8"
definition host_UDP_MAX_PAYLOAD_BYTES :: int where [host_consts]: "host_UDP_MAX_PAYLOAD_BYTES = host_UDP_STANDARD_MTU_BYTES - host_UDP_IPV4_HEADER_BYTES - host_UDP_HEADER_BYTES"
definition host_UDP_BULK_HEADER_BYTES :: int where [host_consts]: "host_UDP_BULK_HEADER_BYTES = 24"
definition host_UDP_BULK_MAX_BEATS :: int where [host_consts]: "host_UDP_BULK_MAX_BEATS = (host_UDP_MAX_PAYLOAD_BYTES - host_UDP_BULK_HEADER_BYTES) div host_DDR_INTERLEAVED_BEAT_BYTES"
definition host_UDP_BULK_SAFE_MAX_BEATS :: int where [host_consts]: "host_UDP_BULK_SAFE_MAX_BEATS = 4"
definition host_UDP_WAVE_DDR_MAGIC :: int where [host_consts]: "host_UDP_WAVE_DDR_MAGIC = 0x5741564544445230"
definition host_UDP_WAVE_BULK_MAGIC :: int where [host_consts]: "host_UDP_WAVE_BULK_MAGIC = 0x5741564553545230"
definition host_UDP_WAVE_INSTR_MAGIC :: int where [host_consts]: "host_UDP_WAVE_INSTR_MAGIC = 0x57415645494E5330"
definition host_UDP_TRIGGER_WORD :: int where [host_consts]: "host_UDP_TRIGGER_WORD = 0x3152454747495254"
definition host_UDP_RVCTRL_MAGIC :: int where [host_consts]: "host_UDP_RVCTRL_MAGIC = 0x00304C5254435652"
definition host_UDP_RVCTRL1_MAGIC :: int where [host_consts]: "host_UDP_RVCTRL1_MAGIC = 0x00314C5254435652"
definition host_UDP_RVRESP1_MAGIC :: int where [host_consts]: "host_UDP_RVRESP1_MAGIC = 0x0031505345525652"
definition host_RVCTRL1_VERSION :: int where [host_consts]: "host_RVCTRL1_VERSION = 1"
definition host_UDP_RFCTRL2_MAGIC :: int where [host_consts]: "host_UDP_RFCTRL2_MAGIC = 0x00324C5254434652"
definition host_UDP_RFRESP2_MAGIC :: int where [host_consts]: "host_UDP_RFRESP2_MAGIC = 0x0032505345524652"
definition host_RFCTRL2_VERSION :: int where [host_consts]: "host_RFCTRL2_VERSION = 3"
definition host_RV_CMD_PING :: int where [host_consts]: "host_RV_CMD_PING = 0x00000001"
definition host_RV_CMD_PLAY_INTERLEAVED :: int where [host_consts]: "host_RV_CMD_PLAY_INTERLEAVED = 0x00000002"
definition host_RV_CMD_TRIGGER :: int where [host_consts]: "host_RV_CMD_TRIGGER = 0x00000003"
definition host_RV_CMD_WRITE_MMIO :: int where [host_consts]: "host_RV_CMD_WRITE_MMIO = 0x00000004"
definition host_RV1_OP_PING :: int where [host_consts]: "host_RV1_OP_PING = 0x00000001"
definition host_RV1_OP_MMIO_READ32 :: int where [host_consts]: "host_RV1_OP_MMIO_READ32 = 0x00000002"
definition host_RV1_OP_MMIO_WRITE32 :: int where [host_consts]: "host_RV1_OP_MMIO_WRITE32 = 0x00000003"
definition host_RV1_OP_MMIO_RMW32 :: int where [host_consts]: "host_RV1_OP_MMIO_RMW32 = 0x00000004"
definition host_RV1_OP_MMIO_BATCH :: int where [host_consts]: "host_RV1_OP_MMIO_BATCH = 0x00000005"
definition host_RV1_OP_PLAY_INTERLEAVED :: int where [host_consts]: "host_RV1_OP_PLAY_INTERLEAVED = 0x00000006"
definition host_RV1_OP_TRIGGER :: int where [host_consts]: "host_RV1_OP_TRIGGER = 0x00000007"
definition host_RV1_OP_RFDC_CH_ENABLE :: int where [host_consts]: "host_RV1_OP_RFDC_CH_ENABLE = 0x00000008"
definition host_RV1_OP_RFDC_SET_NCO :: int where [host_consts]: "host_RV1_OP_RFDC_SET_NCO = 0x00000009"
definition host_RV1_OP_STATUS_READ :: int where [host_consts]: "host_RV1_OP_STATUS_READ = 0x0000000A"
definition host_RF2_OP_HELLO :: int where [host_consts]: "host_RF2_OP_HELLO = 0x00000001"
definition host_RF2_OP_STATUS :: int where [host_consts]: "host_RF2_OP_STATUS = 0x00000002"
definition host_RF2_OP_RFDC_APPLY :: int where [host_consts]: "host_RF2_OP_RFDC_APPLY = 0x00000003"
definition host_RF2_OP_SYNC_EPOCH :: int where [host_consts]: "host_RF2_OP_SYNC_EPOCH = 0x00000007"
definition host_RF2_OP_START_AT :: int where [host_consts]: "host_RF2_OP_START_AT = 0x00000008"
definition host_RF2_OP_RFDC_GET_CONFIG :: int where [host_consts]: "host_RF2_OP_RFDC_GET_CONFIG = 0x0000000B"
definition host_RF2_OP_NETWORK_GET :: int where [host_consts]: "host_RF2_OP_NETWORK_GET = 0x0000000C"
definition host_RF2_OP_NETWORK_APPLY :: int where [host_consts]: "host_RF2_OP_NETWORK_APPLY = 0x0000000D"
definition host_RF2_OP_NETWORK_RESTART :: int where [host_consts]: "host_RF2_OP_NETWORK_RESTART = 0x0000000E"
definition host_RF2_OP_DIAG_SNAPSHOT :: int where [host_consts]: "host_RF2_OP_DIAG_SNAPSHOT = 0x00000012"
definition host_RF2_OP_DIAG_CONTROL :: int where [host_consts]: "host_RF2_OP_DIAG_CONTROL = 0x00000013"
definition host_RF2_BUILD_PROFILE_UNKNOWN :: int where [host_consts]: "host_RF2_BUILD_PROFILE_UNKNOWN = 0"
definition host_RF2_BUILD_PROFILE_NORMAL :: int where [host_consts]: "host_RF2_BUILD_PROFILE_NORMAL = 1"
definition host_RF2_BUILD_PROFILE_BANDWIDTH :: int where [host_consts]: "host_RF2_BUILD_PROFILE_BANDWIDTH = 3"
definition host_RF2_SOURCE_COMMIT_UNKNOWN :: int where [host_consts]: "host_RF2_SOURCE_COMMIT_UNKNOWN = 0"
definition host_RF2_STATUS_RFDC_READY :: int where [host_consts]: "host_RF2_STATUS_RFDC_READY = 0x00000001"
definition host_RF2_STATUS_RFDC_BUSY :: int where [host_consts]: "host_RF2_STATUS_RFDC_BUSY = 0x00000002"
definition host_RF2_STATUS_ARMED :: int where [host_consts]: "host_RF2_STATUS_ARMED = 0x00000004"
definition host_RF2_STATUS_RUNNING :: int where [host_consts]: "host_RF2_STATUS_RUNNING = 0x00000008"
definition host_RF2_STATUS_PREPARED :: int where [host_consts]: "host_RF2_STATUS_PREPARED = 0x00000010"
definition host_RF2_STATUS_DAC_MTS_READY :: int where [host_consts]: "host_RF2_STATUS_DAC_MTS_READY = 0x00000020"
definition host_RF2_STATUS_DAC_MTS_FAILED :: int where [host_consts]: "host_RF2_STATUS_DAC_MTS_FAILED = 0x00000040"
definition host_RF2_STATUS_NCO_SYNC_READY :: int where [host_consts]: "host_RF2_STATUS_NCO_SYNC_READY = 0x00000080"
definition host_RF2_STATUS_DAC_MTS_REQUIRED :: int where [host_consts]: "host_RF2_STATUS_DAC_MTS_REQUIRED = 0x00000100"
definition host_RF2_NET_STATUS_HMC_DONE :: int where [host_consts]: "host_RF2_NET_STATUS_HMC_DONE = 0x00000020"
definition host_RF2_NET_STATUS_SYNC_DONE :: int where [host_consts]: "host_RF2_NET_STATUS_SYNC_DONE = 0x00000040"
definition host_RF2_SYNC_STATUS_SEEN :: int where [host_consts]: "host_RF2_SYNC_STATUS_SEEN = 0x00000001"
definition host_RF2_SYNC_STATUS_READY :: int where [host_consts]: "host_RF2_SYNC_STATUS_READY = 0x00000002"
definition host_RF2_SYNC_STATUS_BYPASS :: int where [host_consts]: "host_RF2_SYNC_STATUS_BYPASS = 0x00000004"
definition host_RF2_SYNC_STATUS_ROLE_MASTER :: int where [host_consts]: "host_RF2_SYNC_STATUS_ROLE_MASTER = 0x00000008"
definition host_RF2_STATUS_OK :: int where [host_consts]: "host_RF2_STATUS_OK = 0x0000"
definition host_RFDC_APPLY_CHANNELS :: nat where [host_consts]: "host_RFDC_APPLY_CHANNELS = 8"
definition host_RFDC_APPLY_REQUEST_HEADER_BYTES :: nat where [host_consts]: "host_RFDC_APPLY_REQUEST_HEADER_BYTES = 8"
definition host_RFDC_APPLY_REQUEST_ENTRY_BYTES :: nat where [host_consts]: "host_RFDC_APPLY_REQUEST_ENTRY_BYTES = 24"
definition host_RFDC_APPLY_RESPONSE_HEADER_BYTES :: nat where [host_consts]: "host_RFDC_APPLY_RESPONSE_HEADER_BYTES = 32"
definition host_RFDC_APPLY_RESPONSE_ENTRY_BYTES :: nat where [host_consts]: "host_RFDC_APPLY_RESPONSE_ENTRY_BYTES = 40"
definition host_RFDC_NCO_MIN_HZ :: int where [host_consts]: "host_RFDC_NCO_MIN_HZ = - 3200000000"
definition host_RFDC_NCO_MAX_HZ :: int where [host_consts]: "host_RFDC_NCO_MAX_HZ = 3200000000"
definition host_NETWORK_RESPONSE_BYTES :: int where [host_consts]: "host_NETWORK_RESPONSE_BYTES = 64"
definition host_NETWORK_EXT_RESPONSE_BYTES :: int where [host_consts]: "host_NETWORK_EXT_RESPONSE_BYTES = 80"
definition host_RV_PLAY_FLAG_AUTO_START :: int where [host_consts]: "host_RV_PLAY_FLAG_AUTO_START = 0x1"
definition host_RV_PLAY_FLAG_LOOP :: int where [host_consts]: "host_RV_PLAY_FLAG_LOOP = 0x2"
definition host_RFDC_CTRL_MAILBOX_OFFSET :: int where [host_consts]: "host_RFDC_CTRL_MAILBOX_OFFSET = host_DDR_MAX_INTERLEAVED_BYTES"
definition host_RFDC_CTRL_MAILBOX_MAGIC :: int where [host_consts]: "host_RFDC_CTRL_MAILBOX_MAGIC = 0x304F434E43444652"
definition host_RFDC_CTRL_MAILBOX_HEADER_BYTES :: nat where [host_consts]: "host_RFDC_CTRL_MAILBOX_HEADER_BYTES = 32"
definition host_RFDC_CTRL_MAILBOX_ENTRY_BYTES :: nat where [host_consts]: "host_RFDC_CTRL_MAILBOX_ENTRY_BYTES = 16"
definition host_RFDC_CTRL_MAILBOX_CHANNELS :: nat where [host_consts]: "host_RFDC_CTRL_MAILBOX_CHANNELS = 8"
definition host_RFDC_CTRL_MAILBOX_BYTES :: nat where [host_consts]: "host_RFDC_CTRL_MAILBOX_BYTES = host_RFDC_CTRL_MAILBOX_HEADER_BYTES + host_RFDC_CTRL_MAILBOX_ENTRY_BYTES * host_RFDC_CTRL_MAILBOX_CHANNELS"
definition host_RFDC_CTRL_MAILBOX_FLAG_APPLY_IMMEDIATE :: int where [host_consts]: "host_RFDC_CTRL_MAILBOX_FLAG_APPLY_IMMEDIATE = 0x1"
definition host_RFDC_RUNTIME_MAILBOX_MAGIC :: int where [host_consts]: "host_RFDC_RUNTIME_MAILBOX_MAGIC = 0x31474643444652"
definition host_RFDC_RUNTIME_MAILBOX_HEADER_BYTES :: nat where [host_consts]: "host_RFDC_RUNTIME_MAILBOX_HEADER_BYTES = 32"
definition host_RFDC_RUNTIME_MAILBOX_ENTRY_BYTES :: nat where [host_consts]: "host_RFDC_RUNTIME_MAILBOX_ENTRY_BYTES = 32"
definition host_RFDC_RUNTIME_MAILBOX_BYTES :: nat where [host_consts]: "host_RFDC_RUNTIME_MAILBOX_BYTES = host_RFDC_RUNTIME_MAILBOX_HEADER_BYTES + host_RFDC_RUNTIME_MAILBOX_ENTRY_BYTES * host_RFDC_CTRL_MAILBOX_CHANNELS"

definition host_RF2_BUILD_PROFILE_NAMES :: "(int \<times> string) list" where
  "host_RF2_BUILD_PROFILE_NAMES =
     [(host_RF2_BUILD_PROFILE_NORMAL, ''custom_xczu47dr''),
      (host_RF2_BUILD_PROFILE_BANDWIDTH, ''custom_xczu47dr_bw'')]"

definition host_validate_udp_bulk_beats :: "int \<Rightarrow> int result" where
  "host_validate_udp_bulk_beats beats =
     guard_raise (beats \<le> 0) ValueError (
     guard_raise (beats > host_UDP_BULK_SAFE_MAX_BEATS) ValueError (
     let payload_bytes = host_UDP_BULK_HEADER_BYTES + beats * host_DDR_INTERLEAVED_BEAT_BYTES in
     guard_raise (payload_bytes > host_UDP_MAX_PAYLOAD_BYTES) ValueError (Inr beats)))"

section \<open>The NCO plan\<close>

record host_nco_plan =
  hp_target_rf_hz :: pyfloat
  hp_nco_hz :: pyfloat
  hp_nyquist_zone :: int
  hp_image :: string

text \<open>\<open>fs / 2.0\<close> is exact apart from underflow and is written as the division it is.\<close>

definition host_rfdc_nco_plan_for_target :: "pynum \<Rightarrow> pynum \<Rightarrow> host_nco_plan result" where
  "host_rfdc_nco_plan_for_target target_rf_hz dac_fs_hz =
     ebind (to_float target_rf_hz) (\<lambda>target.
     ebind (to_float dac_fs_hz) (\<lambda>fs.
     guard_raise (flt target (Fin 0) \<or> flt fs target) ValueError (
     if flt target (fdivc fs 2)
     then Inr \<lparr>hp_target_rf_hz = target, hp_nco_hz = target, hp_nyquist_zone = 1, hp_image = ''direct''\<rparr>
     else Inr \<lparr>hp_target_rf_hz = target, hp_nco_hz = fsub target fs, hp_nyquist_zone = 2,
               hp_image = ''zone2''\<rparr>)))"

section \<open>RFDC mailbox images\<close>

text \<open>\<open>mapping.get(channel, mapping.get(f"ch{channel}", default))\<close> on a dictionary.\<close>

type_synonym chan_map = "(int \<Rightarrow> pynum option) \<times> (string \<Rightarrow> pynum option)"

definition host_map_get :: "chan_map \<Rightarrow> nat \<Rightarrow> pynum \<Rightarrow> pynum" where
  "host_map_get mapping channel dflt =
     (case fst mapping (int channel) of
        Some v \<Rightarrow> v
      | None \<Rightarrow> (case snd mapping (channel_key channel) of Some v \<Rightarrow> v | None \<Rightarrow> dflt))"

definition host_mailbox_channels :: "nat list" where
  "host_mailbox_channels = [1 ..< host_RFDC_CTRL_MAILBOX_CHANNELS + 1]"

text \<open>The loop \<open>for channel in range(1, 9): entries += ...\<close>.\<close>

definition host_append_entries :: "(nat \<Rightarrow> bytes result) \<Rightarrow> nat list \<Rightarrow> bytes \<Rightarrow> bytes result" where
  "host_append_entries entry =
     efold (\<lambda>channel entries. ebind (entry channel) (\<lambda>bs. Inr (entries @ bs)))"

definition host_mailbox_header :: "int \<Rightarrow> int \<Rightarrow> int \<Rightarrow> int \<Rightarrow> bytes result" where
  "host_mailbox_header magic seq apply_mask flags =
     ebind (struct_pack [fQ, fI, fI, fI]
       [magic, seq AND 0xFFFFFFFF, apply_mask AND 0xFF, flags AND 0xFFFFFFFF])
     (\<lambda>bs. Inr (bs @ replicate 12 0))"

definition host_nco_entry :: "chan_map \<Rightarrow> chan_map \<Rightarrow> nat \<Rightarrow> bytes result" where
  "host_nco_entry ncos zones channel =
     ebind (to_float (host_map_get ncos channel (NFloat (Fin 0)))) (\<lambda>nco_f.
     ebind (py_round nco_f) (\<lambda>nco_hz.
     ebind (to_int (host_map_get zones channel (NInt 1))) (\<lambda>zone.
     guard_raise (zone \<notin> {1, 2}) ValueError (
     struct_pack [f_q, fI, fI] [nco_hz, zone, 0]))))"

definition host_pack_rfdc_nco_mailbox :: "chan_map \<Rightarrow> chan_map \<Rightarrow> int \<Rightarrow> int \<Rightarrow> int \<Rightarrow> bytes result" where
  "host_pack_rfdc_nco_mailbox ncos zones seq apply_mask flags =
     ebind (host_append_entries (host_nco_entry ncos zones) host_mailbox_channels []) (\<lambda>entries.
     ebind (host_mailbox_header host_RFDC_CTRL_MAILBOX_MAGIC seq apply_mask flags) (\<lambda>header.
     let image = header @ entries in
     guard_raise (length image \<noteq> host_RFDC_CTRL_MAILBOX_BYTES) AssertionError (Inr image)))"

definition host_runtime_entry ::
  "chan_map \<Rightarrow> chan_map \<Rightarrow> chan_map \<Rightarrow> chan_map \<Rightarrow> nat \<Rightarrow> bytes result" where
  "host_runtime_entry ncos zones phases currents channel =
     ebind (to_float (host_map_get ncos channel (NFloat (Fin 0)))) (\<lambda>nco_f.
     ebind (py_round nco_f) (\<lambda>nco_hz.
     ebind (to_int (host_map_get zones channel (NInt 1))) (\<lambda>zone.
     ebind (to_float (host_map_get phases channel (NFloat (Fin 0)))) (\<lambda>phase_f.
     ebind (py_round (fscale phase_f 1000)) (\<lambda>phase_mdeg.
     ebind (to_float (host_map_get currents channel (NFloat (Fin 20)))) (\<lambda>current_f.
     ebind (py_round (fscale current_f 1000)) (\<lambda>current_ua.
     guard_raise (zone \<notin> {1, 2}) ValueError (
     guard_raise (\<not> (2250 \<le> current_ua \<and> current_ua \<le> 40500)) ValueError (
     struct_pack [f_q, fI, f_i, fI, fI, fI, fI] [nco_hz, zone, phase_mdeg, current_ua, 0, 0, 0])))))))))"

definition host_pack_rfdc_runtime_mailbox ::
  "chan_map \<Rightarrow> chan_map \<Rightarrow> chan_map \<Rightarrow> chan_map \<Rightarrow> int \<Rightarrow> int \<Rightarrow> int \<Rightarrow> bytes result" where
  "host_pack_rfdc_runtime_mailbox ncos zones phases currents seq apply_mask flags =
     ebind (host_append_entries (host_runtime_entry ncos zones phases currents) host_mailbox_channels [])
     (\<lambda>entries.
     ebind (host_mailbox_header host_RFDC_RUNTIME_MAILBOX_MAGIC seq apply_mask flags) (\<lambda>header.
     let image = header @ entries in
     guard_raise (length image \<noteq> host_RFDC_RUNTIME_MAILBOX_BYTES) AssertionError (Inr image)))"

section \<open>RVCTRL0 commands and executor instructions\<close>

definition host_pack_rvctrl_packet :: "int list \<Rightarrow> bytes result" where
  "host_pack_rvctrl_packet words32 =
     (let words = map (\<lambda>w. w AND 0xFFFFFFFF) words32 in
      guard_raise (words = []) ValueError (
      ebind (struct_pack (replicate (length words) fI) words) (\<lambda>payload.
      ebind (struct_pack [fQ, fQ] [host_UDP_RVCTRL_MAGIC, int (length words)]) (\<lambda>header.
      Inr (header @ pad8 payload)))))"

definition host_require_beat_aligned :: "int \<Rightarrow> int result" where
  "host_require_beat_aligned value =
     guard_raise (value mod host_BEAT_BYTES \<noteq> 0) ValueError (Inr value)"

definition host_align_bytes_to_beat :: "int \<Rightarrow> int result" where
  "host_align_bytes_to_beat n_bytes =
     guard_raise (n_bytes < 0) ValueError (
     Inr (if n_bytes mod host_BEAT_BYTES = 0 then n_bytes
          else n_bytes + (host_BEAT_BYTES - n_bytes mod host_BEAT_BYTES)))"

text \<open>\<open>cmd[k]\<close>.\<close>

definition host_item :: "int list \<Rightarrow> nat \<Rightarrow> int result" where
  "host_item cmd k = (if k < length cmd then Inr (cmd ! k) else Inl IndexError)"

definition host_instruction :: "int list \<Rightarrow> bytes result" where
  "host_instruction cmd =
     ebind (host_item cmd 0) (\<lambda>c0. let opc = c0 AND 0xF in
     ebind (host_item cmd 1) (\<lambda>c1. let channel = c1 AND 0xF in
     let flags = (if length cmd > 4 then cmd ! 4 else 0) in
     ebind (if opc = 2 then
              ebind (host_item cmd 2) (\<lambda>c2. ebind (host_require_beat_aligned c2) (\<lambda>_.
              ebind (host_item cmd 3) (\<lambda>c3. host_require_beat_aligned c3)))
            else Inr 0) (\<lambda>_.
     let word0 = (push_bit 4 channel OR opc) OR push_bit 8 (flags AND 0x7) in
     ebind (host_item cmd 2) (\<lambda>c2. let word1 = c2 AND 0xFFFFFFFF in
     ebind (host_item cmd 3) (\<lambda>c3. let addr = c3 AND 0xFFFFFFFFFFFFFFFF;
       word2 = addr AND 0xFFFFFFFF; word3 = drop_bit 32 addr AND 0xFFFFFFFF in
     struct_pack [fI, fI, fI, fI] [word0, word1, word2, word3])))))"

definition host_pack_udp_instruction_packet :: "int list list \<Rightarrow> bytes result" where
  "host_pack_udp_instruction_packet cmd_list =
     ebind (efold (\<lambda>cmd bin_cmds. ebind (host_instruction cmd) (\<lambda>bs. Inr (bin_cmds @ bs))) cmd_list [])
     (\<lambda>bin_cmds.
     guard_raise (cmd_list = []) ValueError (
     ebind (struct_pack [fQ, fQ] [host_UDP_WAVE_INSTR_MAGIC, int (length bin_cmds) div 8]) (\<lambda>header.
     Inr (header @ bin_cmds))))"

definition host_pack_rvctrl_ping :: "int \<Rightarrow> bytes result" where
  "host_pack_rvctrl_ping seq = host_pack_rvctrl_packet [host_RV_CMD_PING, seq]"

definition host_play_flags :: "bool \<Rightarrow> bool \<Rightarrow> int" where
  "host_play_flags auto_start loop =
     (if auto_start then host_RV_PLAY_FLAG_AUTO_START else 0) OR (if loop then host_RV_PLAY_FLAG_LOOP else 0)"

definition host_pack_rvctrl_play_interleaved :: "int \<Rightarrow> int \<Rightarrow> bool \<Rightarrow> bool \<Rightarrow> bytes result" where
  "host_pack_rvctrl_play_interleaved bytes_per_channel seq auto_start loop =
     ebind (host_require_beat_aligned bytes_per_channel) (\<lambda>_.
     host_pack_rvctrl_packet
       [host_RV_CMD_PLAY_INTERLEAVED, seq, bytes_per_channel, host_play_flags auto_start loop])"

definition host_pack_rvctrl_trigger :: "int \<Rightarrow> bytes result" where
  "host_pack_rvctrl_trigger seq = host_pack_rvctrl_packet [host_RV_CMD_TRIGGER, seq]"

definition host_pack_rvctrl_write_mmio :: "int \<Rightarrow> int \<Rightarrow> int \<Rightarrow> bytes result" where
  "host_pack_rvctrl_write_mmio addr value seq =
     host_pack_rvctrl_packet [host_RV_CMD_WRITE_MMIO, seq, addr, value]"

section \<open>RVCTRL1\<close>

definition host_pack_rvctrl1_packet :: "int \<Rightarrow> bytes \<Rightarrow> int \<Rightarrow> int \<Rightarrow> bytes result" where
  "host_pack_rvctrl1_packet opcode raw_payload seq flags =
     (let hdr0 = (push_bit 32 (opcode AND 0xFFFFFFFF) OR push_bit 16 (flags AND 0xFFFF)) OR host_RVCTRL1_VERSION;
          hdr1 = push_bit 32 (int (length raw_payload) AND 0xFFFFFFFF) OR (seq AND 0xFFFFFFFF) in
      ebind (struct_pack [fQ, fQ, fQ] [host_UDP_RVCTRL1_MAGIC, hdr0, hdr1]) (\<lambda>hdr.
      Inr (hdr @ pad8 raw_payload)))"

definition host_pack_rvctrl1_ping :: "int \<Rightarrow> bytes result" where
  "host_pack_rvctrl1_ping seq = host_pack_rvctrl1_packet host_RV1_OP_PING [] seq 0"

definition host_pack_rvctrl1_mmio_read32 :: "int \<Rightarrow> int \<Rightarrow> bytes result" where
  "host_pack_rvctrl1_mmio_read32 addr seq =
     ebind (struct_pack [fI] [addr AND 0xFFFFFFFF]) (\<lambda>payload.
     host_pack_rvctrl1_packet host_RV1_OP_MMIO_READ32 payload seq 0)"

definition host_pack_rvctrl1_mmio_write32 :: "int \<Rightarrow> int \<Rightarrow> int \<Rightarrow> bytes result" where
  "host_pack_rvctrl1_mmio_write32 addr value seq =
     ebind (struct_pack [fI, fI] [addr AND 0xFFFFFFFF, value AND 0xFFFFFFFF]) (\<lambda>payload.
     host_pack_rvctrl1_packet host_RV1_OP_MMIO_WRITE32 payload seq 0)"

definition host_pack_rvctrl1_mmio_rmw32 :: "int \<Rightarrow> int \<Rightarrow> int \<Rightarrow> int \<Rightarrow> bytes result" where
  "host_pack_rvctrl1_mmio_rmw32 addr mask_value value seq =
     ebind (struct_pack [fI, fI, fI] [addr AND 0xFFFFFFFF, mask_value AND 0xFFFFFFFF, value AND 0xFFFFFFFF])
     (\<lambda>payload. host_pack_rvctrl1_packet host_RV1_OP_MMIO_RMW32 payload seq 0)"

definition host_pack_rvctrl1_mmio_batch :: "(int \<times> int) list \<Rightarrow> int \<Rightarrow> bytes result" where
  "host_pack_rvctrl1_mmio_batch writes seq =
     ebind (struct_pack [fI] [int (length writes)]) (\<lambda>count.
     ebind (efold (\<lambda>(addr, value) payload.
         ebind (struct_pack [fI, fI] [addr AND 0xFFFFFFFF, value AND 0xFFFFFFFF]) (\<lambda>bs. Inr (payload @ bs)))
       writes count) (\<lambda>payload.
     host_pack_rvctrl1_packet host_RV1_OP_MMIO_BATCH payload seq 0))"

definition host_pack_rvctrl1_play_interleaved :: "int \<Rightarrow> int \<Rightarrow> bool \<Rightarrow> bool \<Rightarrow> bytes result" where
  "host_pack_rvctrl1_play_interleaved bytes_per_channel seq auto_start loop =
     ebind (host_require_beat_aligned bytes_per_channel) (\<lambda>_.
     ebind (struct_pack [fI, fI] [bytes_per_channel AND 0xFFFFFFFF, host_play_flags auto_start loop])
     (\<lambda>payload. host_pack_rvctrl1_packet host_RV1_OP_PLAY_INTERLEAVED payload seq 0))"

definition host_pack_rvctrl1_trigger :: "int \<Rightarrow> bytes result" where
  "host_pack_rvctrl1_trigger seq = host_pack_rvctrl1_packet host_RV1_OP_TRIGGER [] seq 0"

definition host_pack_rvctrl1_rfdc_ch_enable :: "int \<Rightarrow> int \<Rightarrow> int \<Rightarrow> bytes result" where
  "host_pack_rvctrl1_rfdc_ch_enable channel_mask enable_mask seq =
     ebind (struct_pack [fI, fI] [channel_mask AND 0xFF, enable_mask AND 0xFF]) (\<lambda>payload.
     host_pack_rvctrl1_packet host_RV1_OP_RFDC_CH_ENABLE payload seq 0)"

definition host_pack_rvctrl1_rfdc_set_nco :: "chan_map \<Rightarrow> chan_map \<Rightarrow> int \<Rightarrow> int \<Rightarrow> bytes result" where
  "host_pack_rvctrl1_rfdc_set_nco ncos zones seq apply_mask =
     ebind (struct_pack [fI] [apply_mask AND 0xFF]) (\<lambda>header.
     ebind (host_append_entries (host_nco_entry ncos zones) host_mailbox_channels header) (\<lambda>payload.
     host_pack_rvctrl1_packet host_RV1_OP_RFDC_SET_NCO payload seq 0))"

definition host_pack_rvctrl1_status_read :: "int \<Rightarrow> bytes result" where
  "host_pack_rvctrl1_status_read seq = host_pack_rvctrl1_packet host_RV1_OP_STATUS_READ [] seq 0"

text \<open>The dictionary that both response parsers return.\<close>

record host_response =
  hr_version :: int
  hr_status :: int
  hr_opcode :: int
  hr_seq :: int
  hr_payload_bytes :: int
  hr_payload :: bytes

definition host_parse_rvresp1_packet :: "bytes \<Rightarrow> host_response result" where
  "host_parse_rvresp1_packet packet =
     guard_raise (length packet < 24) ValueError (
     ebind (struct_unpack [fQ, fQ, fQ] (pyslice 0 24 packet)) (\<lambda>h.
     let magic = h ! 0; hdr0 = h ! 1; hdr1 = h ! 2 in
     guard_raise (magic \<noteq> host_UDP_RVRESP1_MAGIC) ValueError (
     let payload_bytes = drop_bit 32 hdr1 AND 0xFFFFFFFF in
     guard_raise (int (length packet) < 24 + payload_bytes) ValueError (
     Inr \<lparr>hr_version = hdr0 AND 0xFFFF, hr_status = drop_bit 16 hdr0 AND 0xFFFF,
          hr_opcode = drop_bit 32 hdr0 AND 0xFFFFFFFF, hr_seq = hdr1 AND 0xFFFFFFFF,
          hr_payload_bytes = payload_bytes,
          hr_payload = pyslice 24 (24 + nat payload_bytes) packet\<rparr>))))"

section \<open>RFCTRL2\<close>

definition host_pack_rfctrl2_packet :: "int \<Rightarrow> bytes \<Rightarrow> int \<Rightarrow> int \<Rightarrow> bytes result" where
  "host_pack_rfctrl2_packet opcode raw_payload seq flags =
     (let hdr0 = (push_bit 32 (opcode AND 0xFFFFFFFF) OR push_bit 16 (flags AND 0xFFFF)) OR host_RFCTRL2_VERSION;
          hdr1 = push_bit 32 (int (length raw_payload) AND 0xFFFFFFFF) OR (seq AND 0xFFFFFFFF) in
      ebind (struct_pack [fQ, fQ, fQ] [host_UDP_RFCTRL2_MAGIC, hdr0, hdr1]) (\<lambda>hdr.
      Inr (hdr @ pad8 raw_payload)))"

definition host_pack_rfctrl2_hello :: "int \<Rightarrow> bytes result" where
  "host_pack_rfctrl2_hello seq = host_pack_rfctrl2_packet host_RF2_OP_HELLO [] seq 0"

definition host_pack_rfctrl2_status :: "int \<Rightarrow> bytes result" where
  "host_pack_rfctrl2_status seq = host_pack_rfctrl2_packet host_RF2_OP_STATUS [] seq 0"

definition host_pack_rfctrl2_diag_snapshot :: "int \<Rightarrow> bytes result" where
  "host_pack_rfctrl2_diag_snapshot seq = host_pack_rfctrl2_packet host_RF2_OP_DIAG_SNAPSHOT [] seq 0"

definition host_pack_rfctrl2_diag_control :: "int \<Rightarrow> bool \<Rightarrow> int \<Rightarrow> bytes result" where
  "host_pack_rfctrl2_diag_control events counters seq =
     ebind (struct_pack [fI, fI] [events AND 0xFFFFFFFF, if counters then 1 else 0]) (\<lambda>payload.
     host_pack_rfctrl2_packet host_RF2_OP_DIAG_CONTROL payload seq 0)"

definition host_normalize_rfdc_phase_mdeg :: "pynum \<Rightarrow> int result" where
  "host_normalize_rfdc_phase_mdeg phase_deg =
     ebind (to_float phase_deg) (\<lambda>p.
     let phase = fsub (fmodc (fadd p (Fin 180)) 360) (Fin 180) in
     py_round (fscale phase 1000))"

fun host_rfdc_channel_value :: "chan_source \<Rightarrow> nat \<Rightarrow> pynum \<Rightarrow> pynum result" where
  "host_rfdc_channel_value (ByMap by_number by_name) channel dflt =
     Inr (host_map_get (by_number, by_name) channel dflt)"
| "host_rfdc_channel_value (BySeq values) channel dflt =
     guard_raise (length values \<noteq> host_RFDC_APPLY_CHANNELS) ValueError (Inr (values ! (channel - 1)))"

definition host_rfdc_apply_entry ::
  "chan_source \<Rightarrow> chan_source \<Rightarrow> chan_source \<Rightarrow> chan_source \<Rightarrow> nat \<Rightarrow> bytes result" where
  "host_rfdc_apply_entry ncos zones phases currents channel =
     ebind (host_rfdc_channel_value ncos channel (NFloat (Fin 0))) (\<lambda>nco_in.
     ebind (to_float nco_in) (\<lambda>nco_f. ebind (py_round nco_f) (\<lambda>nco.
     guard_raise (\<not> (host_RFDC_NCO_MIN_HZ \<le> nco \<and> nco \<le> host_RFDC_NCO_MAX_HZ)) ValueError (
     ebind (host_rfdc_channel_value zones channel (NInt 1)) (\<lambda>zone_in.
     ebind (to_int zone_in) (\<lambda>zone.
     guard_raise (zone \<notin> {1, 2}) ValueError (
     ebind (host_rfdc_channel_value phases channel (NFloat (Fin 0))) (\<lambda>phase_in.
     ebind (to_float phase_in) (\<lambda>phase_f.
     ebind (host_normalize_rfdc_phase_mdeg (NFloat phase_f)) (\<lambda>phase.
     ebind (host_rfdc_channel_value currents channel (NFloat (Fin 20))) (\<lambda>current_in.
     ebind (to_float current_in) (\<lambda>current_f.
     ebind (py_round (fscale current_f 1000)) (\<lambda>current_ua.
     let (current_min, current_max) = (if channel \<in> {5, 6} then (6400, 32000) else (2250, 40500)) in
     guard_raise (\<not> (current_min \<le> current_ua \<and> current_ua \<le> current_max)) ValueError (
     struct_pack rfdc_apply_fmt [nco, zone, phase, current_ua, 0]))))))))))))))"

definition host_pack_rfctrl2_rfdc_apply ::
  "chan_source \<Rightarrow> chan_source \<Rightarrow> chan_source \<Rightarrow> chan_source \<Rightarrow> int \<Rightarrow> int \<Rightarrow> int \<Rightarrow> bytes result" where
  "host_pack_rfctrl2_rfdc_apply ncos zones phases currents revision channel_mask seq =
     guard_raise (channel_mask < 1 \<or> channel_mask > 0xFF) ValueError (
     ebind (struct_pack [fI, fI] [revision AND 0xFFFFFFFF, channel_mask]) (\<lambda>header.
     ebind (host_append_entries (host_rfdc_apply_entry ncos zones phases currents)
       [1 ..< host_RFDC_APPLY_CHANNELS + 1] header) (\<lambda>payload.
     guard_raise (length payload \<noteq> host_RFDC_APPLY_REQUEST_HEADER_BYTES +
         host_RFDC_APPLY_CHANNELS * host_RFDC_APPLY_REQUEST_ENTRY_BYTES)
       AssertionError (
     host_pack_rfctrl2_packet host_RF2_OP_RFDC_APPLY payload seq 0))))"

definition host_pack_rfctrl2_rfdc_get_config :: "int \<Rightarrow> bytes result" where
  "host_pack_rfctrl2_rfdc_get_config seq = host_pack_rfctrl2_packet host_RF2_OP_RFDC_GET_CONFIG [] seq 0"

section \<open>Addresses\<close>

definition host_octet :: "string \<Rightarrow> int result" where
  "host_octet part = (case int_base10 part of None \<Rightarrow> Inl ValueError | Some n \<Rightarrow> Inr n)"

definition host_ipv4_u32 :: "string \<Rightarrow> int result" where
  "host_ipv4_u32 value =
     (let parts = split_on CHR ''.'' value in
      guard_raise (length parts \<noteq> 4) ValueError (
      ebind (emap host_octet parts) (\<lambda>octets.
      guard_raise (\<exists>octet \<in> set octets. octet < 0 \<or> octet > 255) ValueError (
      Inr (foldl (\<lambda>acc octet. acc * 256 + octet) 0 octets)))))"

definition host_u32_ipv4 :: "int \<Rightarrow> string" where
  "host_u32_ipv4 value =
     (let v = value AND 0xFFFFFFFF; octet = (\<lambda>k. dec_digits (nat (drop_bit k v AND 0xFF))) in
      octet 24 @ ''.'' @ octet 16 @ ''.'' @ octet 8 @ ''.'' @ octet 0)"

definition host_mac_u64 :: "string \<Rightarrow> int result" where
  "host_mac_u64 value =
     (let raw = mac_raw value in
      guard_raise (length raw \<noteq> 12) ValueError (
      case int_base16 raw of
        None \<Rightarrow> Inl ValueError
      | Some n \<Rightarrow>
          let parsed = n AND 0xFFFFFFFFFFFF; first_octet = drop_bit 40 parsed AND 0xFF in
          guard_raise (parsed = 0 \<or> parsed = 0xFFFFFFFFFFFF \<or> first_octet AND 0x01 \<noteq> 0)
            ValueError (Inr parsed)))"

definition host_u64_mac :: "int \<Rightarrow> string" where
  "host_u64_mac value = mac_join (hex_digits 12 (nat (value AND 0xFFFFFFFFFFFF)))"

definition host_pack_rfctrl2_network_apply ::
  "int \<Rightarrow> string \<Rightarrow> string \<Rightarrow> string \<Rightarrow> string \<Rightarrow> int \<Rightarrow> int \<Rightarrow> bytes result" where
  "host_pack_rfctrl2_network_apply revision ip mac subnet_mask gateway port seq =
     guard_raise (\<not> (1 \<le> port \<and> port \<le> 65535)) ValueError (
     ebind (host_ipv4_u32 ip) (\<lambda>ip_word. ebind (host_mac_u64 mac) (\<lambda>mac_word.
     ebind (host_ipv4_u32 subnet_mask) (\<lambda>subnet_word. ebind (host_ipv4_u32 gateway) (\<lambda>gateway_word.
     ebind (struct_pack [fI, fI, fQ, fI, fI, fH, fH, fI]
       [revision AND 0xFFFFFFFF, ip_word, mac_word, subnet_word, gateway_word, port, 0, 0]) (\<lambda>payload.
     host_pack_rfctrl2_packet host_RF2_OP_NETWORK_APPLY payload seq 0))))))"

definition host_pack_rfctrl2_network_get :: "int \<Rightarrow> bytes result" where
  "host_pack_rfctrl2_network_get seq = host_pack_rfctrl2_packet host_RF2_OP_NETWORK_GET [] seq 0"

definition host_pack_rfctrl2_network_restart :: "int \<Rightarrow> bytes result" where
  "host_pack_rfctrl2_network_restart seq = host_pack_rfctrl2_packet host_RF2_OP_NETWORK_RESTART [] seq 0"

definition host_build_profile :: "int \<Rightarrow> string" where
  "host_build_profile p = (case map_of host_RF2_BUILD_PROFILE_NAMES p of Some n \<Rightarrow> n | None \<Rightarrow> [])"

definition host_network_defaults :: network_info where
  "host_network_defaults =
     \<lparr>ni_device_uid = [], ni_current_ip = [], ni_current_mac = [],
      ni_bootstrap_ip = ''192.168.254.254'', ni_revision = 0, ni_port = 1234,
      ni_status_flags = 0, ni_capabilities = 0, ni_bootstrap_mac = [],
      ni_subnet_mask = ''255.255.255.0'', ni_gateway = ''0.0.0.0'', ni_link_state = 0,
      ni_build_profile_id = host_RF2_BUILD_PROFILE_UNKNOWN, ni_build_profile = [],
      ni_playback_state = 0, ni_playback_armed = False, ni_playback_prepared = False,
      ni_playback_running = False, ni_rfdc_config_valid_mask = 0,
      ni_hmc_done = False, ni_sync_done = False\<rparr>"

definition host_network_of_words :: "int list \<Rightarrow> network_info" where
  "host_network_of_words words =
     (let status_flags = drop_bit 32 (words ! 4) AND 0xFFFFFFFF;
          ext = length words \<ge> 10;
          build_profile_id = (if ext then words ! 8 AND 0xFFFFFFFF else host_RF2_BUILD_PROFILE_UNKNOWN);
          playback_state = (if ext then drop_bit 32 (words ! 8) AND 0xFFFFFFFF else 0);
          rfdc_config_valid_mask = (if ext then words ! 9 AND 0xFF else 0) in
      \<lparr>ni_device_uid = hex_digits 16 (nat (words ! 0)),
       ni_current_ip = host_u32_ipv4 (words ! 1 AND 0xFFFFFFFF),
       ni_current_mac = host_u64_mac (words ! 2),
       ni_bootstrap_ip = host_u32_ipv4 (drop_bit 32 (words ! 1) AND 0xFFFFFFFF),
       ni_revision = words ! 3 AND 0xFFFFFFFF,
       ni_port = (drop_bit 32 (words ! 3) AND 0xFFFF) AND 0xFFFF,
       ni_status_flags = status_flags,
       ni_capabilities = words ! 4 AND 0xFFFFFFFF,
       ni_bootstrap_mac = host_u64_mac (words ! 5),
       ni_subnet_mask = host_u32_ipv4 (words ! 6 AND 0xFFFFFFFF),
       ni_gateway = host_u32_ipv4 (words ! 7 AND 0xFFFFFFFF),
       ni_link_state = drop_bit 48 (words ! 3) AND 0xFFFF,
       ni_build_profile_id = build_profile_id,
       ni_build_profile = host_build_profile build_profile_id,
       ni_playback_state = playback_state,
       ni_playback_armed = playback_state AND host_RF2_STATUS_ARMED \<noteq> 0,
       ni_playback_prepared = playback_state AND host_RF2_STATUS_PREPARED \<noteq> 0,
       ni_playback_running = playback_state AND host_RF2_STATUS_RUNNING \<noteq> 0,
       ni_rfdc_config_valid_mask = rfdc_config_valid_mask,
       ni_hmc_done = status_flags AND host_RF2_NET_STATUS_HMC_DONE \<noteq> 0,
       ni_sync_done = status_flags AND host_RF2_NET_STATUS_SYNC_DONE \<noteq> 0\<rparr>)"

definition host_parse_rfctrl2_network_response :: "host_response \<Rightarrow> network_info result" where
  "host_parse_rfctrl2_network_response response =
     (let payload = hr_payload response; n = length payload in
      if payload = [] \<and> hr_status response \<noteq> host_RF2_STATUS_OK then Inr host_network_defaults
      else guard_raise (int n \<notin> {host_NETWORK_RESPONSE_BYTES, host_NETWORK_EXT_RESPONSE_BYTES}) ValueError (
      ebind (struct_unpack (replicate (n div 8) fQ) payload) (\<lambda>words. Inr (host_network_of_words words))))"

section \<open>Synchronisation and responses\<close>

definition host_pack_rfctrl2_sync_epoch :: "int \<Rightarrow> int \<Rightarrow> bytes result" where
  "host_pack_rfctrl2_sync_epoch epoch seq =
     ebind (struct_pack [fQ] [epoch AND 0xFFFFFFFFFFFFFFFF]) (\<lambda>payload.
     host_pack_rfctrl2_packet host_RF2_OP_SYNC_EPOCH payload seq 0)"

definition host_pack_rfctrl2_start_at :: "int \<Rightarrow> int \<Rightarrow> bytes result" where
  "host_pack_rfctrl2_start_at start_tick seq =
     ebind (struct_pack [fQ] [start_tick AND 0xFFFFFFFFFFFFFFFF]) (\<lambda>payload.
     host_pack_rfctrl2_packet host_RF2_OP_START_AT payload seq 0)"

definition host_parse_rfresp2_packet :: "bytes \<Rightarrow> host_response result" where
  "host_parse_rfresp2_packet packet =
     guard_raise (length packet < 24) ValueError (
     ebind (struct_unpack [fQ, fQ, fQ] (pyslice 0 24 packet)) (\<lambda>h.
     let magic = h ! 0; hdr0 = h ! 1; hdr1 = h ! 2 in
     guard_raise (magic \<noteq> host_UDP_RFRESP2_MAGIC) ValueError (
     let payload_bytes = drop_bit 32 hdr1 AND 0xFFFFFFFF in
     guard_raise (int (length packet) < 24 + payload_bytes) ValueError (
     Inr \<lparr>hr_version = hdr0 AND 0xFFFF, hr_status = drop_bit 16 hdr0 AND 0xFFFF,
          hr_opcode = drop_bit 32 hdr0 AND 0xFFFFFFFF, hr_seq = hdr1 AND 0xFFFFFFFF,
          hr_payload_bytes = payload_bytes,
          hr_payload = pyslice 24 (24 + nat payload_bytes) packet\<rparr>))))"

end
