(* ===== verification/Host_Status.thy ===== *)
theory Host_Status
  imports Host_Control
begin

unbundle bit_operations_syntax

text \<open>
  The status and configuration parsers of \<open>src/software/host.py\<close>, and the agreement of the tool's
  RFCTRL2 implementation with the driver's: the same requests, the same decoded responses.
\<close>

section \<open>The status payload\<close>

record host_status =
  hs_capabilities :: int
  hs_state_flags :: int
  hs_config_valid_mask :: int
  hs_last_revision :: int
  hs_last_error :: int
  hs_last_error_stage :: int
  hs_last_error_addr :: int
  hs_play_config_channel_mask :: int
  hs_play_fifo_valid_mask :: int
  hs_play_fifo_ready_mask :: int
  hs_play_executor_state :: int
  hs_play_ddr_read_counter :: int
  hs_play_bad_instr_count :: int
  hs_play_prefill_ready :: bool
  hs_play_active_valid :: bool
  hs_play_pending_valid :: bool
  hs_dac_mts_required :: bool
  hs_dac_mts_ready :: bool
  hs_dac_mts_failed :: bool
  hs_dac_mts_tile_mask :: int
  hs_dac_mts_error :: int
  hs_nco_sync_ready :: bool
  hs_nco_sync_epoch :: int
  hs_sync_status :: int
  hs_sync_role :: string
  hs_sync_mode :: string
  hs_sync_seen :: bool
  hs_sync_link_ready :: bool
  hs_trigger_input_count :: int
  hs_trigger_accepted_count :: int
  hs_trigger_output_count :: int
  hs_build_profile_id :: int
  hs_build_profile :: string
  hs_source_commit_id :: int
  hs_trigger_path_version :: int
  hs_rfdc_ready :: bool
  hs_rfdc_busy :: bool
  hs_armed :: bool
  hs_running :: bool
  hs_prepared :: bool

definition host_status_defaults :: host_status where
  "host_status_defaults =
     \<lparr>hs_capabilities = 0, hs_state_flags = 0, hs_config_valid_mask = 0, hs_last_revision = 0,
      hs_last_error = 0, hs_last_error_stage = 0, hs_last_error_addr = 0,
      hs_play_config_channel_mask = 0, hs_play_fifo_valid_mask = 0, hs_play_fifo_ready_mask = 0,
      hs_play_executor_state = 0, hs_play_ddr_read_counter = 0, hs_play_bad_instr_count = 0,
      hs_play_prefill_ready = False, hs_play_active_valid = False, hs_play_pending_valid = False,
      hs_dac_mts_required = False, hs_dac_mts_ready = False, hs_dac_mts_failed = False,
      hs_dac_mts_tile_mask = 0, hs_dac_mts_error = 0, hs_nco_sync_ready = False,
      hs_nco_sync_epoch = 0, hs_sync_status = 0, hs_sync_role = ''slave'',
      hs_sync_mode = ''external'', hs_sync_seen = False, hs_sync_link_ready = False,
      hs_trigger_input_count = 0, hs_trigger_accepted_count = 0, hs_trigger_output_count = 0,
      hs_build_profile_id = host_RF2_BUILD_PROFILE_UNKNOWN, hs_build_profile = [],
      hs_source_commit_id = host_RF2_SOURCE_COMMIT_UNKNOWN, hs_trigger_path_version = 0,
      hs_rfdc_ready = False, hs_rfdc_busy = False, hs_armed = False, hs_running = False,
      hs_prepared = False\<rparr>"

text \<open>One function per \<open>if len(payload) >= n\<close> block, in the order of the source.\<close>

definition host_status_base :: "bytes \<Rightarrow> host_status \<Rightarrow> host_status" where
  "host_status_base payload r =
     (if length payload \<ge> 32 then
        r\<lparr>hs_capabilities := u32_at payload 0, hs_state_flags := u32_at payload 4,
          hs_config_valid_mask := u32_at payload 8, hs_last_revision := u32_at payload 12,
          hs_last_error := u32_at payload 16, hs_last_error_stage := u32_at payload 20,
          hs_last_error_addr := u32_at payload 24\<rparr>
      else r)"

definition host_status_play :: "bytes \<Rightarrow> host_status \<Rightarrow> host_status" where
  "host_status_play payload r =
     (if length payload \<ge> 64 then
        let play_config = u64_at payload 32; play_ready = u64_at payload 40;
            play_counters = u64_at payload 48; play_flags = u64_at payload 56 in
        r\<lparr>hs_play_config_channel_mask := play_config AND 0xFF,
          hs_play_fifo_valid_mask := drop_bit 32 play_config AND 0xFF,
          hs_play_fifo_ready_mask := play_ready AND 0xFF,
          hs_play_executor_state := drop_bit 32 play_ready AND 0xFF,
          hs_play_ddr_read_counter := play_counters AND 0xFFFFFFFF,
          hs_play_bad_instr_count := drop_bit 32 play_counters AND 0xFFFFFFFF,
          hs_play_prefill_ready := flag_bit play_flags 0,
          hs_play_pending_valid := flag_bit play_flags 32,
          hs_play_active_valid := flag_bit play_flags 33\<rparr>
      else r)"

definition host_status_mts :: "bytes \<Rightarrow> host_status \<Rightarrow> host_status" where
  "host_status_mts payload r =
     (if length payload \<ge> 72 then
        let mts_flags = u32_at payload 64 in
        r\<lparr>hs_nco_sync_epoch := u32_at payload 68,
          hs_dac_mts_ready := mts_flags AND 1 \<noteq> 0,
          hs_dac_mts_failed := mts_flags AND 2 \<noteq> 0,
          hs_dac_mts_required := mts_flags AND 4 \<noteq> 0,
          hs_dac_mts_tile_mask := drop_bit 4 mts_flags AND 0xF,
          hs_dac_mts_error := drop_bit 16 mts_flags AND 0xFFFF\<rparr>
      else r)"

definition host_status_sync :: "bytes \<Rightarrow> host_status \<Rightarrow> host_status" where
  "host_status_sync payload r =
     (if length payload \<ge> 80 then
        let sync_status = u32_at payload 72 in
        r\<lparr>hs_sync_status := sync_status,
          hs_trigger_path_version := drop_bit 32 (u64_at payload 72) AND 0xFFFFFFFF,
          hs_sync_seen := sync_status AND host_RF2_SYNC_STATUS_SEEN \<noteq> 0,
          hs_sync_link_ready := sync_status AND host_RF2_SYNC_STATUS_READY \<noteq> 0,
          hs_sync_mode := (if sync_status AND host_RF2_SYNC_STATUS_BYPASS \<noteq> 0 then ''bypass'' else ''external''),
          hs_sync_role := (if sync_status AND host_RF2_SYNC_STATUS_ROLE_MASTER \<noteq> 0 then ''master'' else ''slave'')\<rparr>
      else r)"

definition host_status_triggers :: "bytes \<Rightarrow> host_status \<Rightarrow> host_status" where
  "host_status_triggers payload r0 =
     (let r1 = (if length payload \<ge> 88 then
                  r0\<lparr>hs_trigger_input_count := u32_at payload 80,
                     hs_trigger_accepted_count := u32_at payload 84\<rparr>
                else r0) in
      if length payload \<ge> 96 then r1\<lparr>hs_trigger_output_count := u32_at payload 88\<rparr> else r1)"

definition host_status_identity :: "bytes \<Rightarrow> host_status \<Rightarrow> host_status" where
  "host_status_identity payload r =
     (if length payload \<ge> 112 then
        let identity_word = u64_at payload 104;
            profile_id = drop_bit 16 identity_word AND 0xFFFF in
        r\<lparr>hs_source_commit_id := drop_bit 32 identity_word AND 0xFFFFFFFF,
          hs_build_profile_id := profile_id,
          hs_build_profile := host_build_profile profile_id\<rparr>
      else r)"

definition host_status_flags :: "host_status \<Rightarrow> host_status" where
  "host_status_flags r =
     (let f = hs_state_flags r in
      r\<lparr>hs_rfdc_ready := f AND host_RF2_STATUS_RFDC_READY \<noteq> 0,
        hs_rfdc_busy := f AND host_RF2_STATUS_RFDC_BUSY \<noteq> 0,
        hs_armed := f AND host_RF2_STATUS_ARMED \<noteq> 0,
        hs_running := f AND host_RF2_STATUS_RUNNING \<noteq> 0,
        hs_prepared := f AND host_RF2_STATUS_PREPARED \<noteq> 0,
        hs_dac_mts_ready := hs_dac_mts_ready r \<or> f AND host_RF2_STATUS_DAC_MTS_READY \<noteq> 0,
        hs_dac_mts_failed := hs_dac_mts_failed r \<or> f AND host_RF2_STATUS_DAC_MTS_FAILED \<noteq> 0,
        hs_nco_sync_ready := f AND host_RF2_STATUS_NCO_SYNC_READY \<noteq> 0,
        hs_dac_mts_required := hs_dac_mts_required r \<or> f AND host_RF2_STATUS_DAC_MTS_REQUIRED \<noteq> 0\<rparr>)"

definition host_parse_rfctrl2_status_payload :: "host_response \<Rightarrow> host_status" where
  "host_parse_rfctrl2_status_payload response =
     (let payload = hr_payload response in
      host_status_flags (host_status_identity payload (host_status_triggers payload
        (host_status_sync payload (host_status_mts payload (host_status_play payload
          (host_status_base payload host_status_defaults)))))))"

section \<open>The RFDC configuration\<close>

definition host_rfdc_channel_of :: "nat \<Rightarrow> int list \<Rightarrow> rfdc_channel" where
  "host_rfdc_channel_of channel v =
     \<lparr>rc_channel = channel, rc_nco_hz = v ! 0, rc_nyquist_zone = v ! 1,
      rc_nco_phase_mdeg = v ! 2, rc_nco_phase_deg = fl (of_int (v ! 2) / 1000),
      rc_dac_output_current_ua = v ! 3, rc_dac_output_current_ma = fl (of_int (v ! 3) / 1000),
      rc_status = v ! 4, rc_nco_word = v ! 5, rc_phase_word = v ! 6, rc_vop_code = v ! 7\<rparr>"

definition host_rfdc_defaults :: rfdc_config where
  "host_rfdc_defaults =
     \<lparr>rx_revision = 0, rx_applied_mask = 0, rx_error_mask = 0, rx_config_valid_mask = 0,
      rx_failure_stage = 0, rx_failure_address = 0, rx_axi_response = 0, rx_state_flags = 0,
      rx_channels = []\<rparr>"

definition host_rfdc_with_header :: "int list \<Rightarrow> rfdc_config \<Rightarrow> rfdc_config" where
  "host_rfdc_with_header h r =
     r\<lparr>rx_revision := h ! 0, rx_applied_mask := h ! 1, rx_error_mask := h ! 2,
       rx_config_valid_mask := h ! 3, rx_failure_stage := h ! 4, rx_failure_address := h ! 5,
       rx_axi_response := h ! 6, rx_state_flags := h ! 7\<rparr>"

definition host_parse_rfctrl2_rfdc_config_response :: "host_response \<Rightarrow> rfdc_config result" where
  "host_parse_rfctrl2_rfdc_config_response response =
     (let payload = hr_payload response;
          expected = host_RFDC_APPLY_RESPONSE_HEADER_BYTES +
            host_RFDC_APPLY_CHANNELS * host_RFDC_APPLY_RESPONSE_ENTRY_BYTES in
      if payload = [] \<and> hr_status response \<noteq> host_RF2_STATUS_OK then Inr host_rfdc_defaults
      else guard_raise (length payload \<noteq> expected) ValueError (
      ebind (struct_unpack_from rfdc_config_fmt payload 0) (\<lambda>h.
      ebind (efold (\<lambda>channel (result, offset).
          ebind (struct_unpack_from rfdc_entry_fmt payload offset) (\<lambda>v.
          Inr (result\<lparr>rx_channels := rx_channels result @ [host_rfdc_channel_of channel v]\<rparr>,
               offset + host_RFDC_APPLY_RESPONSE_ENTRY_BYTES)))
        [1 ..< host_RFDC_APPLY_CHANNELS + 1]
        (host_rfdc_with_header h host_rfdc_defaults, host_RFDC_APPLY_RESPONSE_HEADER_BYTES))
      (\<lambda>(result, offset). Inr result))))"

section \<open>Agreement with the driver\<close>

text \<open>What the tool keeps of the driver's status: all but the appended trigger phase and playback counts.\<close>

definition host_view :: "rf_status \<Rightarrow> host_status" where
  "host_view r =
     \<lparr>hs_capabilities = st_capabilities r, hs_state_flags = st_state_flags r,
      hs_config_valid_mask = st_config_valid_mask r, hs_last_revision = st_last_revision r,
      hs_last_error = st_last_error r, hs_last_error_stage = st_last_error_stage r,
      hs_last_error_addr = st_last_error_addr r,
      hs_play_config_channel_mask = st_play_config_channel_mask r,
      hs_play_fifo_valid_mask = st_play_fifo_valid_mask r,
      hs_play_fifo_ready_mask = st_play_fifo_ready_mask r,
      hs_play_executor_state = st_play_executor_state r,
      hs_play_ddr_read_counter = st_play_ddr_read_counter r,
      hs_play_bad_instr_count = st_play_bad_instr_count r,
      hs_play_prefill_ready = st_play_prefill_ready r,
      hs_play_active_valid = st_play_active_valid r,
      hs_play_pending_valid = st_play_pending_valid r,
      hs_dac_mts_required = st_dac_mts_required r, hs_dac_mts_ready = st_dac_mts_ready r,
      hs_dac_mts_failed = st_dac_mts_failed r, hs_dac_mts_tile_mask = st_dac_mts_tile_mask r,
      hs_dac_mts_error = st_dac_mts_error r, hs_nco_sync_ready = st_nco_sync_ready r,
      hs_nco_sync_epoch = st_nco_sync_epoch r, hs_sync_status = st_sync_status r,
      hs_sync_role = (if st_sync_status r AND host_RF2_SYNC_STATUS_ROLE_MASTER \<noteq> 0 then ''master'' else ''slave''),
      hs_sync_mode = (if st_sync_status r AND host_RF2_SYNC_STATUS_BYPASS \<noteq> 0 then ''bypass'' else ''external''),
      hs_sync_seen = (st_sync_status r AND host_RF2_SYNC_STATUS_SEEN \<noteq> 0),
      hs_sync_link_ready = (st_sync_status r AND host_RF2_SYNC_STATUS_READY \<noteq> 0),
      hs_trigger_input_count = st_trigger_input_count r,
      hs_trigger_accepted_count = st_trigger_accepted_count r,
      hs_trigger_output_count = st_trigger_output_count r,
      hs_build_profile_id = st_build_profile_id r, hs_build_profile = st_build_profile r,
      hs_source_commit_id = st_source_commit_id r,
      hs_trigger_path_version = st_trigger_path_version r, hs_rfdc_ready = st_rfdc_ready r,
      hs_rfdc_busy = st_rfdc_busy r, hs_armed = st_armed r, hs_running = st_running r,
      hs_prepared = st_prepared r\<rparr>"

text \<open>The driver's exceptions for a refused argument or a malformed packet are a \<open>ValueError\<close> here.\<close>

definition as_value_error :: "'a result \<Rightarrow> 'a result" where
  "as_value_error r =
     (case r of Inl e \<Rightarrow> Inl (if e = ParameterRangeError \<or> e = ProtocolError then ValueError else e) | Inr x \<Rightarrow> Inr x)"

lemma as_value_error_simps [simp]:
  "as_value_error (Inr x) = Inr x"
  "as_value_error (Inl ParameterRangeError) = Inl ValueError"
  "as_value_error (Inl ProtocolError) = Inl ValueError"
  "as_value_error (Inl ValueError) = Inl ValueError"
  "as_value_error (Inl StructError) = Inl StructError"
  "as_value_error (Inl AssertionError) = Inl AssertionError"
  "as_value_error (Inl OverflowError) = Inl OverflowError"
  by (simp_all add: as_value_error_def)

lemma as_value_error_bind:
  "as_value_error (ebind m f) = ebind (as_value_error m) (\<lambda>x. as_value_error (f x))"
  by (cases m) (simp_all add: as_value_error_def)

lemma as_value_error_guard:
  "as_value_error (guard_raise b ParameterRangeError r) = guard_raise b ValueError (as_value_error r)"
  "as_value_error (guard_raise b ProtocolError r) = guard_raise b ValueError (as_value_error r)"
  "as_value_error (guard_raise b AssertionError r) = guard_raise b AssertionError (as_value_error r)"
  by (simp_all add: guard_raise_def)

lemma as_value_error_struct:
  "as_value_error (struct_pack fmt vs) = struct_pack fmt vs"
  "as_value_error (struct_unpack fmt bs) = struct_unpack fmt bs"
  "as_value_error (struct_unpack_from fmt bs off) = struct_unpack_from fmt bs off"
  by (simp_all add: struct_pack_def struct_unpack_def struct_unpack_from_def)

lemma as_value_error_round: "as_value_error (py_round x) = py_round x" "as_value_error (py_int x) = py_int x"
  by (cases x; simp)+

lemma as_value_error_numbers:
  "as_value_error (to_float n) = to_float n"
  "as_value_error (to_int n) = to_int n"
proof -
  show "as_value_error (to_float n) = to_float n"
    by (cases n) (simp_all only: to_float.simps as_value_error_simps split: if_split, simp_all)
  show "as_value_error (to_int n) = to_int n"
    by (cases n) (simp_all only: to_int.simps as_value_error_simps as_value_error_round)
qed

lemmas as_value_error_rules = as_value_error_bind as_value_error_guard as_value_error_struct
  as_value_error_numbers as_value_error_round as_value_error_simps

lemma host_const_eqs:
  "host_UDP_RFCTRL2_MAGIC = UDP_RFCTRL2_MAGIC" "host_UDP_RFRESP2_MAGIC = UDP_RFRESP2_MAGIC"
  "host_RFCTRL2_VERSION = RFCTRL2_VERSION" "host_RF2_STATUS_OK = RF2_STATUS_OK"
  "host_RF2_OP_HELLO = RF2_OP_HELLO" "host_RF2_OP_STATUS = RF2_OP_STATUS"
  "host_RF2_OP_RFDC_APPLY = RF2_OP_RFDC_APPLY" "host_RF2_OP_SYNC_EPOCH = RF2_OP_SYNC_EPOCH"
  "host_RF2_OP_START_AT = RF2_OP_START_AT" "host_RF2_OP_RFDC_GET_CONFIG = RF2_OP_RFDC_GET_CONFIG"
  "host_RF2_OP_NETWORK_GET = RF2_OP_NETWORK_GET" "host_RF2_OP_NETWORK_APPLY = RF2_OP_NETWORK_APPLY"
  "host_RF2_OP_NETWORK_RESTART = RF2_OP_NETWORK_RESTART"
  "host_RF2_OP_DIAG_SNAPSHOT = RF2_OP_DIAG_SNAPSHOT" "host_RF2_OP_DIAG_CONTROL = RF2_OP_DIAG_CONTROL"
  by (simp_all add: host_consts)

lemma host_packet_agrees: "host_pack_rfctrl2_packet = pack_rfctrl2_packet"
  by (intro ext) (simp only: host_pack_rfctrl2_packet_def pack_rfctrl2_packet_def host_const_eqs)

lemma host_view_blocks:
  "host_status_base p (host_view r) = host_view (status_base p r)"
  "host_status_play p (host_view r) = host_view (status_play p r)"
  "host_status_mts p (host_view r) = host_view (status_mts p r)"
  "host_status_sync p (host_view r) = host_view (status_sync p r)"
  "host_status_triggers p (host_view r) = host_view (status_triggers p r)"
  by (simp_all add: host_view_def host_status_base_def host_status_play_def host_status_mts_def
      host_status_sync_def host_status_triggers_def status_base_def status_play_def status_mts_def
      status_sync_def status_triggers_def Let_def)

lemma host_build_profile_eq: "host_build_profile p = build_profile_name p"
  by (simp add: host_build_profile_def host_RF2_BUILD_PROFILE_NAMES_def build_profile_name_def host_consts)

lemma host_view_identity: "host_status_identity p (host_view r) = host_view (status_identity p r)"
  by (simp add: host_view_def host_status_identity_def status_identity_def Let_def host_build_profile_eq)

lemma host_view_flags: "host_status_flags (host_view r) = host_view (status_flags r)"
  by (simp add: host_view_def host_status_flags_def status_flags_def Let_def host_consts)

lemma host_view_defaults: "host_status_defaults = host_view status_defaults"
  by (simp add: host_view_def host_status_defaults_def status_defaults_def host_consts)

lemma host_view_extras:
  "host_view (status_phase p r) = host_view r" "host_view (status_playback p r) = host_view r"
  by (simp_all add: host_view_def status_phase_def status_playback_def Let_def)


lemma host_status_view:
  "host_parse_rfctrl2_status_payload r = host_view (parse_rfctrl2_status_payload (hr_payload r))"
  unfolding host_parse_rfctrl2_status_payload_def parse_rfctrl2_status_payload_def Let_def
    host_view_flags [symmetric] host_view_extras
  by (simp only: host_view_defaults host_view_blocks host_view_identity)

text \<open>Requests.\<close>

lemma host_channel_value_agrees:
  "host_rfdc_channel_value src channel dflt = as_value_error (channel_value src channel dflt)"
  by (cases src) (simp_all add: host_map_get_def as_value_error_guard host_consts RFDC_APPLY_CHANNELS_def
      split: option.split)

lemma host_phase_agrees:
  "host_normalize_rfdc_phase_mdeg p = normalize_rfdc_phase_mdeg p"
  "as_value_error (normalize_rfdc_phase_mdeg p) = normalize_rfdc_phase_mdeg p"
  by (simp_all only: host_normalize_rfdc_phase_mdeg_def normalize_rfdc_phase_mdeg_def Let_def
      as_value_error_rules)

lemma host_rfdc_consts:
  "host_RFDC_NCO_MIN_HZ = RFDC_NCO_MIN_HZ" "host_RFDC_NCO_MAX_HZ = RFDC_NCO_MAX_HZ"
  "host_RFDC_APPLY_CHANNELS = RFDC_APPLY_CHANNELS"
  "host_RFDC_APPLY_REQUEST_HEADER_BYTES = RFDC_APPLY_REQUEST_HEADER_BYTES"
  "host_RFDC_APPLY_REQUEST_ENTRY_BYTES = RFDC_APPLY_REQUEST_ENTRY_BYTES"
  "host_RFDC_APPLY_RESPONSE_HEADER_BYTES = RFDC_APPLY_RESPONSE_HEADER_BYTES"
  "host_RFDC_APPLY_RESPONSE_ENTRY_BYTES = RFDC_APPLY_RESPONSE_ENTRY_BYTES"
  by (simp_all add: host_consts rfdc_sizes RFDC_NCO_MIN_HZ_def RFDC_NCO_MAX_HZ_def)

lemma host_apply_entry_agrees:
  "host_rfdc_apply_entry ncos zones phases currents channel =
   as_value_error (rfdc_apply_entry ncos zones phases currents channel)"
  by (simp only: host_rfdc_apply_entry_def rfdc_apply_entry_def rfdc_current_range_def case_prod_unfold Let_def
      as_value_error_rules host_channel_value_agrees host_phase_agrees host_rfdc_consts)

lemma as_value_error_fold:
  "as_value_error (efold f xs s) = efold (\<lambda>x s. as_value_error (f x s)) xs s"
  by (induction xs arbitrary: s) (simp_all add: as_value_error_bind)

lemma as_value_error_packet: "as_value_error (pack_rfctrl2_packet opc raw sq flags) = pack_rfctrl2_packet opc raw sq flags"
  by (simp only: pack_rfctrl2_packet_def Let_def as_value_error_rules)

lemma host_rfdc_apply_agrees:
  "host_pack_rfctrl2_rfdc_apply ncos zones phases currents revision channel_mask seq =
   as_value_error (pack_rfctrl2_rfdc_apply ncos zones phases currents revision channel_mask seq)"
  by (simp only: host_pack_rfctrl2_rfdc_apply_def pack_rfctrl2_rfdc_apply_def as_value_error_rules
      as_value_error_fold as_value_error_packet host_append_entries_def host_apply_entry_agrees
      host_rfdc_consts host_packet_agrees host_const_eqs not_le not_less de_Morgan_conj)

lemmas host_command_defs =
  host_pack_rfctrl2_hello_def pack_rfctrl2_hello_def
  host_pack_rfctrl2_status_def pack_rfctrl2_status_def
  host_pack_rfctrl2_diag_snapshot_def pack_rfctrl2_diag_snapshot_def
  host_pack_rfctrl2_diag_control_def pack_rfctrl2_diag_control_def
  host_pack_rfctrl2_rfdc_get_config_def pack_rfctrl2_rfdc_get_config_def
  host_pack_rfctrl2_network_get_def pack_rfctrl2_network_get_def
  host_pack_rfctrl2_network_restart_def pack_rfctrl2_network_restart_def
  host_pack_rfctrl2_sync_epoch_def pack_rfctrl2_sync_epoch_def
  host_pack_rfctrl2_start_at_def pack_rfctrl2_start_at_def

text \<open>Responses.\<close>

definition host_of_response :: "rf_response \<Rightarrow> host_response" where
  "host_of_response r =
     \<lparr>hr_version = rsp_version r, hr_status = rsp_status r, hr_opcode = rsp_opcode r, hr_seq = rsp_seq r,
      hr_payload_bytes = rsp_payload_bytes r, hr_payload = rsp_payload r\<rparr>"

lemma host_of_response_simps [simp]:
  "hr_payload (host_of_response r) = rsp_payload r" "hr_status (host_of_response r) = rsp_status r"
  by (simp_all add: host_of_response_def)

lemma unpack_prefix:
  "24 \<le> length raw \<Longrightarrow>
   struct_unpack [fQ, fQ, fQ] (pyslice 0 24 raw) = struct_unpack_from [fQ, fQ, fQ] raw 0"
  by (simp add: struct_unpack_def struct_unpack_from_def pyslice_def fields_dec_take del: fields_dec.simps)

lemma host_parse_rfresp2_agrees:
  "host_parse_rfresp2_packet raw =
   as_value_error (ebind (parse_rfresp2_packet raw False) (\<lambda>r. Inr (host_of_response r)))"
proof (cases "length raw < 24")
  case True
  then show ?thesis by (simp add: host_parse_rfresp2_packet_def parse_rfresp2_packet_def)
next
  case False
  then have u: "struct_unpack [fQ, fQ, fQ] (pyslice 0 24 raw) = struct_unpack_from [fQ, fQ, fQ] raw 0"
    by (intro unpack_prefix) simp
  obtain h where h: "struct_unpack_from [fQ, fQ, fQ] raw 0 = Inr h"
    using False by (simp add: struct_unpack_from_def)
  show ?thesis
    unfolding host_parse_rfresp2_packet_def parse_rfresp2_packet_def Let_def u h host_const_eqs
    by (simp add: guard_raise_def host_of_response_def)
qed

lemma as_value_error_Inr_bind: "ebind (as_value_error m) (\<lambda>x. Inr (f x)) = as_value_error (ebind m (\<lambda>x. Inr (f x)))"
  by (simp add: as_value_error_bind)

lemma host_rfdc_header_agrees: "host_rfdc_with_header h host_rfdc_defaults = rfdc_header h"
  by (simp add: host_rfdc_with_header_def host_rfdc_defaults_def rfdc_header_def)

lemma host_rfdc_config_agrees:
  "host_parse_rfctrl2_rfdc_config_response (host_of_response r) =
   as_value_error (parse_rfctrl2_rfdc_config_response r)"
proof -
  have c: "host_rfdc_channel_of = rfdc_channel_of"
    by (intro ext) (simp only: host_rfdc_channel_of_def rfdc_channel_of_def)
  have d: "host_rfdc_defaults = rfdc_defaults"
    by (simp only: host_rfdc_defaults_def rfdc_defaults_def)
  show ?thesis
    unfolding host_parse_rfctrl2_rfdc_config_response_def parse_rfctrl2_rfdc_config_response_def Let_def
      host_of_response_simps host_rfdc_consts host_const_eqs host_rfdc_header_agrees c if_distrib [of as_value_error]
      as_value_error_rules as_value_error_fold case_prod_unfold
    by (simp only: d)
qed


section \<open>Addresses\<close>

lemma host_octet_digits: "host_octet (dec_digits n) = Inr (int n)"
  by (simp add: host_octet_def int_base10_digits)

lemma host_ipv4_bytes:
  assumes "a < 256" "b < 256" "c < 256" "d < 256"
  shows "host_ipv4_u32 (dec_digits a @ ''.'' @ dec_digits b @ ''.'' @ dec_digits c @ ''.'' @ dec_digits d) =
    Inr (int a * 16777216 + int b * 65536 + int c * 256 + int d)"
proof -
  let ?ps = "[dec_digits a, dec_digits b, dec_digits c, dec_digits d]"
  have "split_on CHR ''.'' (dec_digits a @ ''.'' @ dec_digits b @ ''.'' @ dec_digits c @ ''.'' @ dec_digits d) = ?ps"
    by (rule split_dotted)
  moreover have "emap host_octet ?ps = Inr [int a, int b, int c, int d]"
    by (simp add: host_octet_digits)
  moreover have "\<not> (\<exists>octet \<in> set [int a, int b, int c, int d]. octet < 0 \<or> octet > 255)"
    using assms by auto
  ultimately show ?thesis by (simp add: host_ipv4_u32_def Let_def)
qed

lemma host_u32_ipv4_agrees: "host_u32_ipv4 value = u32_ipv4 value"
proof -
  let ?v = "value AND 0xFFFFFFFF"
  have v: "0 \<le> ?v" "?v < 4294967296" by (simp_all add: and_mask_bounds)
  have d: "nat (drop_bit k ?v AND 0xFF) = nat ?v div 2 ^ k mod 256" for k
    using v(1) by (simp add: and_mask_numerals drop_bit_eq_div nat_mod_distrib nat_div_distrib
        nat_power_eq pos_imp_zdiv_nonneg_iff)
  have "nat ?v < 4294967296"
    using nat_less_iff [OF v(1), of 4294967296] v(2) by (simp only: of_nat_numeral)
  then have t: "nat ?v div 16777216 mod 256 = nat ?v div 16777216"
    by (simp add: less_mult_imp_div_less)
  show ?thesis unfolding host_u32_ipv4_def u32_ipv4_def Let_def d by (simp add: t)
qed

lemma host_mac_agrees: "host_mac_u64 value = as_value_error (mac_u64 value)"
proof -
  have low: "(x AND 0xFF) AND 1 = x AND (1::int)" for x
    by (simp add: and.assoc)
  show ?thesis
    by (simp add: host_mac_u64_def mac_u64_def Let_def as_value_error_guard low split: option.split)
qed

lemma host_u64_mac_agrees: "host_u64_mac value = u64_mac value"
  by (simp only: host_u64_mac_def u64_mac_def)

lemma u32_ipv4_mask: "u32_ipv4 (value AND 0xFFFFFFFF) = u32_ipv4 value"
  by (simp add: u32_ipv4_def and.assoc)

lemma host_network_words_agree:
  "host_network_of_words words = network_flags (network_ext words (network_words words network_defaults))"
proof -
  have p: "(x AND 0xFFFF) AND 0xFFFF = x AND (0xFFFF :: int)" for x by (simp add: and.assoc)
  show ?thesis
    by (simp add: host_network_of_words_def network_flags_def network_ext_def network_words_def
        network_defaults_def Let_def host_u32_ipv4_agrees host_u64_mac_agrees u32_ipv4_mask p
        host_build_profile_eq host_consts build_profile_name_def)
qed

lemma host_network_agrees:
  "host_parse_rfctrl2_network_response (host_of_response r) =
   as_value_error (parse_rfctrl2_network_response r)"
proof -
  have d: "host_network_defaults = network_defaults"
    by (simp add: host_network_defaults_def network_defaults_def host_consts)
  have n: "host_NETWORK_RESPONSE_BYTES = NETWORK_RESPONSE_BYTES"
    "host_NETWORK_EXT_RESPONSE_BYTES = NETWORK_EXT_RESPONSE_BYTES"
    by (simp_all add: host_consts)
  show ?thesis
    unfolding host_parse_rfctrl2_network_response_def parse_rfctrl2_network_response_def Let_def
      host_of_response_simps host_const_eqs host_network_words_agree n d if_distrib [of as_value_error]
      as_value_error_rules ..
qed

lemma leading_zero_octet:
  "host_ipv4_u32 ''192.168.010.1'' = Inr 0xC0A80A01" "ipv4_u32 ''192.168.010.1'' = Inr 0xC0A80801"
proof -
  have o: "host_octet ''192'' = Inr 192" "host_octet ''168'' = Inr 168" "host_octet ''010'' = Inr 10"
    "host_octet ''1'' = Inr 1"
    by (simp_all add: host_octet_def int_base10_def strip_def is_space_def drop_sign_def is_digit_def
        digit_value_def ccode_def)
  have p: "split_on CHR ''.'' ''192.168.010.1'' = [''192'', ''168'', ''010'', ''1'']" by simp
  show "host_ipv4_u32 ''192.168.010.1'' = Inr 0xC0A80A01"
    unfolding host_ipv4_u32_def Let_def p by (simp add: o)
  have t: "strtoul ''192.168.010.1'' = (192, ''.168.010.1'')" "strtoul ''168.010.1'' = (168, ''.010.1'')"
    "strtoul ''010.1'' = (8, ''.1'')" "strtoul ''1'' = (1, [])"
    by (simp_all add: strtoul_def digits_value_def is_digit_def digit_value_def ccode_def)
  have h: "is_digit 10 CHR ''1''" "is_digit 10 CHR ''0''"
    by (simp_all add: is_digit_def digit_value_def ccode_def)
  have "inet_aton s = aton_parts (Suc (Suc (Suc (Suc 0)))) 0 0 s" for s
    by (simp add: inet_aton_def eval_nat_numeral del: aton_parts.simps)
  then have "inet_aton ''192.168.010.1'' = Some 0xC0A80801" by (simp add: t h)
  then show "ipv4_u32 ''192.168.010.1'' = Inr 0xC0A80801" by (simp add: ipv4_u32_def)
qed


text \<open>
  The tool decodes responses as the driver does: its envelope parser is the driver's without
  the version check; its RFDC configuration and NETWORK parsers return the same dictionary or both
  refuse; and its STATUS dictionary is the driver's without the trigger phase and playback counts,
  with the synchronisation role, mode and link read out of the sync word.
\<close>

lemma host_responses_agree:
  "host_parse_rfresp2_packet raw =
     as_value_error (ebind (parse_rfresp2_packet raw False) (\<lambda>r. Inr (host_of_response r))) \<and>
   host_parse_rfctrl2_status_payload (host_of_response r) =
     host_view (parse_rfctrl2_status_payload (rsp_payload r)) \<and>
   host_parse_rfctrl2_rfdc_config_response (host_of_response r) =
     as_value_error (parse_rfctrl2_rfdc_config_response r) \<and>
   host_parse_rfctrl2_network_response (host_of_response r) =
     as_value_error (parse_rfctrl2_network_response r)"
  by (simp only: host_parse_rfresp2_agrees host_status_view host_rfdc_config_agrees host_network_agrees
      host_of_response_simps simp_thms)

text \<open>
  The two IPv4 readers agree on every address as it is printed, but not on all texts: the tool
  reads each octet in base ten, the driver leaves it to the C library, where a leading zero means
  octal. "192.168.010.1" is 192.168.10.1 for the tool and 192.168.8.1 for the driver.
\<close>

lemma host_ipv4_agreement:
  "(0 \<le> v \<and> v < 2 ^ 32 \<longrightarrow>
      host_ipv4_u32 (host_u32_ipv4 v) = Inr v \<and> ipv4_u32 (host_u32_ipv4 v) = Inr v) \<and>
   host_ipv4_u32 ''192.168.010.1'' = Inr 0xC0A80A01 \<and> ipv4_u32 ''192.168.010.1'' = Inr 0xC0A80801"
proof (intro conjI impI)
  assume "0 \<le> v \<and> v < 2 ^ 32"
  then have v: "0 \<le> v" "v < 4294967296" by simp_all
  have m: "nat (v AND 0xFFFFFFFF) = nat v" using v by (simp add: and_mask_numerals)
  have "nat v div 16777216 < 256" using v by (simp add: less_mult_imp_div_less)
  then have "host_ipv4_u32 (u32_ipv4 v) = Inr (int (nat v div 16777216) * 16777216 +
      int (nat v div 65536 mod 256) * 65536 + int (nat v div 256 mod 256) * 256 + int (nat v mod 256))"
    unfolding u32_ipv4_def Let_def m by (intro host_ipv4_bytes) simp_all
  then show "host_ipv4_u32 (host_u32_ipv4 v) = Inr v"
    unfolding host_u32_ipv4_agrees using v by (simp only: byte_split) simp
  show "ipv4_u32 (host_u32_ipv4 v) = Inr v"
    unfolding host_u32_ipv4_agrees by (rule ipv4_printed [OF v])
qed (simp_all only: leading_zero_octet)

theorem host_ipv4_agreement_witness: "host_ipv4_u32 (host_u32_ipv4 0xC0A80A01) = Inr 0xC0A80A01"
  using host_ipv4_agreement [of "0xC0A80A01"] by simp

end
