(* ===== verification/Host_Waves.thy ===== *)
theory Host_Waves
  imports Host_Control
begin

unbundle bit_operations_syntax

text \<open>
  The waveform side of \<open>src/software/host.py\<close>: the 48-byte DDR write packets and their decoder, the
  tiled and interleaved layouts, the mailbox packets, and the max-length test record in chunks, in
  bulk datagrams and out of a cache file. A generator is the list of the values it yields together with
  the exception that ends it, if one does. \<open>sin\<close> of numpy is a parameter.
\<close>

section \<open>Generators\<close>

type_synonym 'a gen = "'a list \<times> pyerror option"

definition gen_try :: "'x result \<Rightarrow> ('x \<Rightarrow> 'a gen) \<Rightarrow> 'a gen" where
  "gen_try m f = (case m of Inl e \<Rightarrow> ([], Some e) | Inr x \<Rightarrow> f x)"

definition gen_guard :: "bool \<Rightarrow> pyerror \<Rightarrow> 'a gen \<Rightarrow> 'a gen" where
  "gen_guard b e g = (if b then ([], Some e) else g)"

definition gen_append :: "'a gen \<Rightarrow> 'a gen \<Rightarrow> 'a gen" where
  "gen_append a b = (if snd a = None then (fst a @ fst b, snd b) else a)"

fun gen_for :: "('x \<Rightarrow> 'a result) \<Rightarrow> 'x list \<Rightarrow> 'a gen" where
  "gen_for f [] = ([], None)"
| "gen_for f (x # xs) =
     (case f x of Inl e \<Rightarrow> ([], Some e) | Inr y \<Rightarrow> (let (ys, e) = gen_for f xs in (y # ys, e)))"

text \<open>\<open>for x in g: yield f(x)\<close>.\<close>

definition gen_map :: "('x \<Rightarrow> 'a result) \<Rightarrow> 'x gen \<Rightarrow> 'a gen" where
  "gen_map f g = gen_append (gen_for f (fst g)) ([], snd g)"

lemma gen_try_simps [simp]: "gen_try (Inl e) f = ([], Some e)" "gen_try (Inr x) f = f x"
  by (simp_all add: gen_try_def)

lemma gen_guard_simps [simp]: "gen_guard True e g = ([], Some e)" "gen_guard False e g = g"
  by (simp_all add: gen_guard_def)

lemma gen_for_ok: "(\<And>x. x \<in> set xs \<Longrightarrow> f x = Inr (g x)) \<Longrightarrow> gen_for f xs = (map g xs, None)"
  by (induction xs) simp_all

lemma gen_map_ok: "(\<And>x. x \<in> set xs \<Longrightarrow> f x = Inr (g x)) \<Longrightarrow> gen_map f (xs, e) = (map g xs, e)"
  by (simp add: gen_map_def gen_for_ok gen_append_def)

section \<open>DDR write packets\<close>

text \<open>The argument \<open>wave_bytes\<close>: bytes, or a one-dimensional integer array.\<close>

datatype wave_source = WaveBytes bytes | WaveArray "int list"

definition host_normalize_waveform_int16 :: "int list \<Rightarrow> int \<Rightarrow> int16 list" where
  "host_normalize_waveform_int16 data sample_count =
     (let w = cast_i2 data in
      if int (length w) \<ge> sample_count
      then take (nat (if sample_count < 0 then int (length w) + sample_count else sample_count)) w
      else w @ replicate (nat sample_count - length w) 0)"

definition host_payload_bytes :: "wave_source \<Rightarrow> int option \<Rightarrow> bytes" where
  "host_payload_bytes wave sample_count =
     (let raw = (case wave of
          WaveBytes bs \<Rightarrow> bs
        | WaveArray data \<Rightarrow> waveform_bytes (host_normalize_waveform_int16 data
            (case sample_count of Some n \<Rightarrow> if n \<noteq> 0 then n else int (length data) | None \<Rightarrow> int (length data)))) in
      if length raw mod 32 \<noteq> 0 then raw @ replicate (32 - length raw mod 32) 0 else raw)"

text \<open>\<open>range(0, len(payload), 32)\<close>.\<close>

definition beat_offsets :: "nat \<Rightarrow> nat list" where
  "beat_offsets n = map (\<lambda>i. 32 * i) [0 ..< (n + 31) div 32]"

abbreviation "fQ4 \<equiv> [fQ, fQ, fQ, fQ]"
abbreviation "fQ6 \<equiv> [fQ, fQ, fQ, fQ, fQ, fQ]"

definition host_ddr_packet :: "bytes \<Rightarrow> (nat \<Rightarrow> int result) \<Rightarrow> nat \<Rightarrow> bytes result" where
  "host_ddr_packet payload addr offset =
     ebind (struct_unpack fQ4 (pyslice offset (offset + 32) payload)) (\<lambda>data_words.
     ebind (addr offset) (\<lambda>a. struct_pack fQ6 ([host_UDP_WAVE_DDR_MAGIC, a] @ data_words)))"

definition host_iter_udp_waveform_packets :: "wave_source \<Rightarrow> int \<Rightarrow> int option \<Rightarrow> bytes gen" where
  "host_iter_udp_waveform_packets wave ddr_addr sample_count =
     (let payload = host_payload_bytes wave sample_count in
      gen_try (host_require_beat_aligned ddr_addr) (\<lambda>a. let base_addr = a AND 0xFFFFFFFFFFFFFFFF in
      gen_for (host_ddr_packet payload (\<lambda>offset. Inr (base_addr + int offset))) (beat_offsets (length payload))))"

definition host_tiled_ddr_addr :: "int \<Rightarrow> int \<Rightarrow> int \<Rightarrow> int result" where
  "host_tiled_ddr_addr channel byte_offset base_addr =
     (let channel_index = channel - 1 in
      guard_raise (channel_index < 0 \<or> channel_index \<ge> host_DDR_TILE_CHANNELS) ValueError (
      guard_raise (byte_offset < 0) ValueError (
      ebind (host_require_beat_aligned base_addr) (\<lambda>_.
      ebind (host_require_beat_aligned byte_offset) (\<lambda>_.
      let tile_index = byte_offset div host_DDR_TILE_BYTES;
          intra_tile_offset = byte_offset mod host_DDR_TILE_BYTES in
      Inr (base_addr + tile_index * host_DDR_SUPERBLOCK_BYTES + channel_index * host_DDR_TILE_BYTES +
           intra_tile_offset))))))"

definition host_tiled_channel_base_addr :: "int \<Rightarrow> int \<Rightarrow> int result" where
  "host_tiled_channel_base_addr channel base_addr = host_tiled_ddr_addr channel 0 base_addr"

definition host_interleaved_ddr_addr :: "int \<Rightarrow> int \<Rightarrow> int \<Rightarrow> int result" where
  "host_interleaved_ddr_addr channel byte_offset base_addr =
     (let channel_index = channel - 1 in
      guard_raise (channel_index < 0 \<or> channel_index \<ge> host_DDR_TILE_CHANNELS) ValueError (
      guard_raise (byte_offset < 0) ValueError (
      ebind (host_require_beat_aligned base_addr) (\<lambda>_.
      guard_raise (byte_offset mod 8 \<noteq> 0) ValueError (
      let beat_index = byte_offset div 8 in
      Inr (base_addr + beat_index * 64 + channel_index * 8))))))"

definition host_interleaved_channel_lane_addr :: "int \<Rightarrow> int \<Rightarrow> int result" where
  "host_interleaved_channel_lane_addr channel base_addr = host_interleaved_ddr_addr channel 0 base_addr"

definition host_iter_tiled_udp_waveform_packets ::
  "wave_source \<Rightarrow> int \<Rightarrow> int \<Rightarrow> int option \<Rightarrow> bytes gen" where
  "host_iter_tiled_udp_waveform_packets wave channel base_addr sample_count =
     (let payload = host_payload_bytes wave sample_count in
      gen_for (host_ddr_packet payload (\<lambda>offset. host_tiled_ddr_addr channel (int offset) base_addr))
        (beat_offsets (length payload)))"

text \<open>
  The tool's image packer: the sample count is rounded up to 16, each channel's padded stream is cut
  into 8-byte lanes, and each lane is assigned into the image.
\<close>

definition host_max_samples :: "channel_waves \<Rightarrow> nat" where
  "host_max_samples waves =
     (let m = fold (\<lambda>channel m. max m (length (channel_wave waves channel))) channel_numbers 0 in
      if m mod 16 \<noteq> 0 then m + (16 - m mod 16) else m)"

definition host_pack_interleaved_512b_waveforms :: "channel_waves \<Rightarrow> bytes \<times> int" where
  "host_pack_interleaved_512b_waveforms waves =
     (if waves = [] then ([], 0)
      else let max_samples = host_max_samples waves; beat_count = max_samples div 4;
        image = fold (\<lambda>beat_index. fold (\<lambda>channel image.
            let beat_base = beat_index * 64; lane_base = beat_index * 8 in
            slice_assign (beat_base + (channel - 1) * 8) (beat_base + channel * 8)
              (pyslice lane_base (lane_base + 8) (channel_lane waves max_samples channel)) image) channel_numbers)
          [0 ..< beat_count] (replicate (beat_count * 64) 0)
      in (image, int max_samples))"

definition host_iter_interleaved_udp_waveform_packets :: "channel_waves \<Rightarrow> int \<Rightarrow> bytes gen" where
  "host_iter_interleaved_udp_waveform_packets waves base_addr =
     (let payload = fst (host_pack_interleaved_512b_waveforms waves) in
      gen_guard (int (length payload) mod host_BEAT_BYTES \<noteq> 0) ValueError (
      gen_for (host_ddr_packet payload (\<lambda>offset. Inr (base_addr + int offset))) (beat_offsets (length payload))))"

definition host_decode_udp_waveform_packet :: "bytes \<Rightarrow> (int \<times> int \<times> bytes) result" where
  "host_decode_udp_waveform_packet packet =
     guard_raise (length packet \<noteq> 48) ValueError (
     ebind (struct_unpack fQ6 packet) (\<lambda>w.
     guard_raise (w ! 0 \<noteq> host_UDP_WAVE_DDR_MAGIC) ValueError (
     ebind (host_require_beat_aligned (w ! 1)) (\<lambda>_.
     ebind (struct_pack fQ4 [w ! 2, w ! 3, w ! 4, w ! 5]) (\<lambda>data. Inr (w ! 0, w ! 1, data))))))"

section \<open>Mailbox packets\<close>

text \<open>The entries first, the header last, so that the firmware never sees a partial update.\<close>

definition host_iter_rfdc_nco_mailbox_packets ::
  "chan_map \<Rightarrow> chan_map \<Rightarrow> int \<Rightarrow> int \<Rightarrow> int \<Rightarrow> int \<Rightarrow> bytes gen" where
  "host_iter_rfdc_nco_mailbox_packets ncos zones seq apply_mask flags mailbox_offset =
     gen_try (host_pack_rfdc_nco_mailbox ncos zones seq apply_mask flags) (\<lambda>image.
     let entries = drop host_RFDC_CTRL_MAILBOX_HEADER_BYTES image;
         header = take host_RFDC_CTRL_MAILBOX_HEADER_BYTES image in
     gen_append
       (host_iter_udp_waveform_packets (WaveBytes entries)
          (mailbox_offset + int host_RFDC_CTRL_MAILBOX_HEADER_BYTES) None)
       (host_iter_udp_waveform_packets (WaveBytes header) mailbox_offset None))"

definition host_iter_rfdc_runtime_mailbox_packets ::
  "chan_map \<Rightarrow> chan_map \<Rightarrow> chan_map \<Rightarrow> chan_map \<Rightarrow> int \<Rightarrow> int \<Rightarrow> int \<Rightarrow> int \<Rightarrow> bytes gen" where
  "host_iter_rfdc_runtime_mailbox_packets ncos zones phases currents seq apply_mask flags mailbox_offset =
     gen_try (host_pack_rfdc_runtime_mailbox ncos zones phases currents seq apply_mask flags) (\<lambda>image.
     gen_append
       (host_iter_udp_waveform_packets (WaveBytes (drop host_RFDC_RUNTIME_MAILBOX_HEADER_BYTES image))
          (mailbox_offset + int host_RFDC_RUNTIME_MAILBOX_HEADER_BYTES) None)
       (host_iter_udp_waveform_packets (WaveBytes (take host_RFDC_RUNTIME_MAILBOX_HEADER_BYTES image))
          mailbox_offset None))"

section \<open>The max-length record\<close>

definition marker_base :: "string \<Rightarrow> int option" where
  "marker_base = map_of [(''body'', 0x0800), (''start'', 0x1000), (''middle'', 0x2000), (''end'', 0x3000)]"

definition host_max_length_marker_amplitude :: "int \<Rightarrow> string \<Rightarrow> int result" where
  "host_max_length_marker_amplitude channel region =
     guard_raise (channel < 1 \<or> channel > host_DDR_INTERLEAVED_CHANNELS) ValueError (
     case marker_base region of
       None \<Rightarrow> Inl ValueError
     | Some base \<Rightarrow> Inr (base + channel * 0x80))"

definition host_max_length_marker_region :: "int \<Rightarrow> int \<Rightarrow> int \<Rightarrow> string" where
  "host_max_length_marker_region physical_offset total_physical_bytes marker_bytes_per_channel =
     (let marker_physical_bytes = marker_bytes_per_channel * host_DDR_INTERLEAVED_CHANNELS;
          middle_start = max 0 (total_physical_bytes div 2 - marker_physical_bytes div 2) in
      if physical_offset < marker_physical_bytes then ''start''
      else if middle_start \<le> physical_offset \<and> physical_offset < middle_start + marker_physical_bytes
      then ''middle''
      else if physical_offset \<ge> total_physical_bytes - marker_physical_bytes then ''end''
      else ''body'')"

abbreviation "f_h \<equiv> FI 2"

definition host_max_length_interleaved_beat :: "int \<Rightarrow> int \<Rightarrow> int \<Rightarrow> bytes result" where
  "host_max_length_interleaved_beat beat_index total_beats marker_bytes_per_channel =
     guard_raise (beat_index < 0 \<or> beat_index \<ge> total_beats) ValueError (
     let total_physical_bytes = total_beats * host_DDR_INTERLEAVED_BEAT_BYTES;
         physical_offset = beat_index * host_DDR_INTERLEAVED_BEAT_BYTES;
         region = host_max_length_marker_region physical_offset total_physical_bytes marker_bytes_per_channel in
     ebind (emap (\<lambda>channel.
         ebind (host_max_length_marker_amplitude channel region) (\<lambda>i.
         ebind (host_max_length_marker_amplitude channel region) (\<lambda>j.
         struct_pack [f_h, f_h, f_h, f_h] [i, 0, j, 0])))
       [1 .. host_DDR_INTERLEAVED_CHANNELS]) (\<lambda>lanes.
     Inr (concat lanes)))"

datatype length_pattern = CW_MARKER | LOWFREQ_SINE

definition host_pattern :: "string \<Rightarrow> length_pattern option" where
  "host_pattern = map_of [(''cw-marker'', CW_MARKER), (''lowfreq-sine'', LOWFREQ_SINE)]"

text \<open>
  The sine samples: \<open>np_sin\<close> stands for \<open>np.sin\<close>; \<open>np.pi\<close> is its binary64 value. Sample numbers
  stay below \<open>2 ^ 53\<close>, where the products with 2.0 are exact.
\<close>

definition np_pi :: pyfloat where "np_pi = Fin (884279719003555 / 281474976710656)"

definition np_rint :: "pyfloat \<Rightarrow> int" where
  "np_rint x = (case x of Fin r \<Rightarrow> round_half_even r | _ \<Rightarrow> 0)"

definition host_sine_sample :: "(pyfloat \<Rightarrow> pyfloat) \<Rightarrow> pyfloat \<Rightarrow> int \<Rightarrow> nat \<Rightarrow> int \<Rightarrow> int16" where
  "host_sine_sample np_sin sine_freq_hz amp channel sample_index =
     (let base_angle = fmul (fdivc (fmul (fscale np_pi 2) sine_freq_hz) 400000000) (Fin (of_int sample_index));
          phase = fdivc (fmul (fscale np_pi 2) (Fin (of_nat channel))) 8 in
      word_of_int (np_rint (fmul (Fin (of_int amp)) (np_sin (fadd base_angle phase)))))"

definition host_max_length_lowfreq_sine_payload ::
  "(pyfloat \<Rightarrow> pyfloat) \<Rightarrow> pyfloat \<Rightarrow> int \<Rightarrow> int \<Rightarrow> int \<Rightarrow> bytes" where
  "host_max_length_lowfreq_sine_payload np_sin sine_freq_hz sine_amplitude start_beat beat_count =
     (if beat_count \<le> 0 then []
      else let amp = max (- 32768) (min 32767 sine_amplitude) in
        concat (map (\<lambda>beat. concat (map (\<lambda>channel.
            waveform_bytes [host_sine_sample np_sin sine_freq_hz amp channel (2 * (start_beat + int beat)), 0,
                            host_sine_sample np_sin sine_freq_hz amp channel (2 * (start_beat + int beat) + 1), 0])
          [0 ..< 8])) [0 ..< nat beat_count]))"

text \<open>The inner loop: shrink the chunk until its last beat is in the region of its first.\<close>

fun host_shrink :: "(int \<Rightarrow> string) \<Rightarrow> string \<Rightarrow> int \<Rightarrow> nat \<Rightarrow> nat" where
  "host_shrink region_of region beat_index count =
     (if count > 1 then
        (if region_of (beat_index + int count - 1) = region then count
         else host_shrink region_of region beat_index (count - 1))
      else count)"

declare host_shrink.simps [simp del]

lemma host_shrink_bounds: "0 < count \<Longrightarrow> 0 < host_shrink r reg b count \<and> host_shrink r reg b count \<le> count"
  by (induction r reg b count rule: host_shrink.induct) (subst (1 2) host_shrink.simps, auto)

definition host_region_of :: "int \<Rightarrow> int \<Rightarrow> int \<Rightarrow> string" where
  "host_region_of total_physical_bytes marker beat =
     host_max_length_marker_region (beat * host_DDR_INTERLEAVED_BEAT_BYTES) total_physical_bytes marker"

definition host_chunk_beats ::
  "length_pattern \<Rightarrow> int \<Rightarrow> int \<Rightarrow> int \<Rightarrow> int \<Rightarrow> int \<Rightarrow> nat" where
  "host_chunk_beats pattern marker total_physical_bytes total_beats chunk_beats beat_index =
     (let count = nat (min chunk_beats (total_beats - beat_index)) in
      case pattern of
        CW_MARKER \<Rightarrow> host_shrink (host_region_of total_physical_bytes marker)
          (host_region_of total_physical_bytes marker beat_index) beat_index count
      | LOWFREQ_SINE \<Rightarrow> count)"

lemma host_chunk_beats_pos:
  "0 < chunk_beats \<Longrightarrow> beat_index < total_beats \<Longrightarrow>
   0 < host_chunk_beats pattern marker tpb total_beats chunk_beats beat_index \<and>
   int (host_chunk_beats pattern marker tpb total_beats chunk_beats beat_index) \<le>
     min chunk_beats (total_beats - beat_index)"
  using host_shrink_bounds [of "nat (min chunk_beats (total_beats - beat_index))"]
  by (auto simp: host_chunk_beats_def Let_def le_nat_iff split: length_pattern.split)


definition host_chunk_payload ::
  "(pyfloat \<Rightarrow> pyfloat) \<Rightarrow> length_pattern \<Rightarrow> int \<Rightarrow> pyfloat \<Rightarrow> int \<Rightarrow> int \<Rightarrow> int \<Rightarrow> nat \<Rightarrow> bytes result" where
  "host_chunk_payload np_sin pattern marker sine_freq_hz sine_amplitude total_beats beat_index count =
     (case pattern of
        CW_MARKER \<Rightarrow>
          ebind (host_max_length_interleaved_beat beat_index total_beats marker) (\<lambda>beat.
          Inr (concat (replicate count beat)))
      | LOWFREQ_SINE \<Rightarrow>
          Inr (host_max_length_lowfreq_sine_payload np_sin sine_freq_hz sine_amplitude beat_index (int count)))"

text \<open>
  The outer loop \<open>while beat_index < total_beats\<close>. The caller has checked that \<open>chunk_beats\<close> is
  positive; each round then advances by at least one beat (\<open>host_chunk_beats_pos\<close>).
\<close>

function host_chunk_loop ::
  "(int \<Rightarrow> nat \<Rightarrow> bytes result) \<Rightarrow> length_pattern \<Rightarrow> int \<Rightarrow> int \<Rightarrow> int \<Rightarrow> int \<Rightarrow> int \<Rightarrow> (int \<times> bytes) gen" where
  "host_chunk_loop payload_of pattern marker tpb total_beats chunk_beats beat_index =
     (if beat_index < total_beats \<and> 0 < chunk_beats then
        let count = host_chunk_beats pattern marker tpb total_beats chunk_beats beat_index in
        gen_try (payload_of beat_index count) (\<lambda>payload.
        gen_append ([(beat_index, payload)], None)
          (host_chunk_loop payload_of pattern marker tpb total_beats chunk_beats (beat_index + int count)))
      else ([], None))"
  by pat_completeness auto
termination
proof (relation "measure (\<lambda>(_, _, _, _, total_beats, _, beat_index). nat (total_beats - beat_index))", goal_cases)
  case (2 payload_of pattern marker tpb total_beats chunk_beats beat_index count payload)
  then show ?case
    using host_chunk_beats_pos [of chunk_beats beat_index total_beats pattern marker tpb] by simp
qed simp

declare host_chunk_loop.simps [simp del]

definition host_iter_max_length_payload_chunks ::
  "(pyfloat \<Rightarrow> pyfloat) \<Rightarrow> int \<Rightarrow> int \<Rightarrow> int \<Rightarrow> string \<Rightarrow> pyfloat \<Rightarrow> int \<Rightarrow> (int \<times> bytes) gen" where
  "host_iter_max_length_payload_chunks np_sin bytes_per_channel chunk_beats marker pattern sine_freq_hz sine_amplitude =
     gen_try (host_require_beat_aligned bytes_per_channel) (\<lambda>bytes_per_channel.
     gen_guard (bytes_per_channel \<le> 0 \<or> bytes_per_channel > host_DDR_MAX_BYTES_PER_CHANNEL) ValueError (
     gen_guard (chunk_beats \<le> 0) ValueError (
     gen_guard (marker \<le> 0 \<or> marker mod host_BEAT_BYTES \<noteq> 0) ValueError (
     case host_pattern pattern of
       None \<Rightarrow> ([], Some ValueError)
     | Some pat \<Rightarrow>
         let tpb = bytes_per_channel * host_DDR_INTERLEAVED_CHANNELS;
             total_beats = tpb div host_DDR_INTERLEAVED_BEAT_BYTES in
         host_chunk_loop (host_chunk_payload np_sin pat marker sine_freq_hz sine_amplitude total_beats)
           pat marker tpb total_beats chunk_beats 0))))"

text \<open>A bulk datagram: magic, address, number of 64-bit words, payload.\<close>

definition host_bulk_datagram :: "int \<Rightarrow> int \<times> bytes \<Rightarrow> bytes result" where
  "host_bulk_datagram base_addr chunk =
     (let (beat_index, payload) = chunk in
      ebind (struct_pack [fQ, fQ, fQ]
        [host_UDP_WAVE_BULK_MAGIC, base_addr + beat_index * host_DDR_INTERLEAVED_BEAT_BYTES,
         int (length payload) div 8]) (\<lambda>header. Inr (header @ payload)))"

definition host_iter_max_length_udp_batches ::
  "(pyfloat \<Rightarrow> pyfloat) \<Rightarrow> int \<Rightarrow> int \<Rightarrow> int \<Rightarrow> int \<Rightarrow> string \<Rightarrow> pyfloat \<Rightarrow> int \<Rightarrow> bytes gen" where
  "host_iter_max_length_udp_batches np_sin bytes_per_channel base_addr beats_per_datagram marker pattern
     sine_freq_hz sine_amplitude =
     gen_try (host_require_beat_aligned bytes_per_channel) (\<lambda>bytes_per_channel.
     gen_guard (bytes_per_channel \<le> 0 \<or> bytes_per_channel > host_DDR_MAX_BYTES_PER_CHANNEL) ValueError (
     gen_try (host_require_beat_aligned base_addr) (\<lambda>base_addr.
     gen_try (host_validate_udp_bulk_beats beats_per_datagram) (\<lambda>beats_per_datagram.
     gen_map (host_bulk_datagram base_addr)
       (host_iter_max_length_payload_chunks np_sin bytes_per_channel beats_per_datagram marker pattern
          sine_freq_hz sine_amplitude)))))"

text \<open>
  The cache file is its contents. Reading a regular file returns as many bytes as are asked for and
  left; the loop's last test, \<open>read_bytes != expected_size\<close>, is kept.
\<close>

function host_cache_loop :: "bytes \<Rightarrow> nat \<Rightarrow> nat \<Rightarrow> int \<Rightarrow> nat \<Rightarrow> (int \<times> bytes) gen" where
  "host_cache_loop file chunk_bytes expected_size beat_index read_bytes =
     (if read_bytes < expected_size then
        let payload = take (min chunk_bytes (expected_size - read_bytes)) (drop read_bytes file) in
        if payload = [] then ([], if read_bytes \<noteq> expected_size then Some RuntimeError else None)
        else gen_guard (length payload mod 64 \<noteq> 0) ValueError (
          gen_append ([(beat_index, payload)], None)
            (host_cache_loop file chunk_bytes expected_size (beat_index + int (length payload) div 64)
               (read_bytes + length payload)))
      else ([], if read_bytes \<noteq> expected_size then Some RuntimeError else None))"
  by pat_completeness auto
termination
  by (relation "measure (\<lambda>(_, _, expected_size, _, read_bytes). expected_size - read_bytes)") auto

declare host_cache_loop.simps [simp del]

definition host_iter_max_length_payload_chunks_from_cache :: "bytes \<Rightarrow> int \<Rightarrow> int \<Rightarrow> (int \<times> bytes) gen" where
  "host_iter_max_length_payload_chunks_from_cache file bytes_per_channel chunk_beats =
     gen_try (host_require_beat_aligned bytes_per_channel) (\<lambda>bytes_per_channel.
     gen_guard (bytes_per_channel \<le> 0 \<or> bytes_per_channel > host_DDR_MAX_BYTES_PER_CHANNEL) ValueError (
     gen_guard (chunk_beats \<le> 0) ValueError (
     let expected_size = bytes_per_channel * host_DDR_INTERLEAVED_CHANNELS in
     gen_guard (int (length file) \<noteq> expected_size) ValueError (
     host_cache_loop file (nat (chunk_beats * host_DDR_INTERLEAVED_BEAT_BYTES)) (nat expected_size) 0 0))))"

definition host_iter_max_length_udp_batches_from_cache :: "bytes \<Rightarrow> int \<Rightarrow> int \<Rightarrow> int \<Rightarrow> bytes gen" where
  "host_iter_max_length_udp_batches_from_cache file bytes_per_channel base_addr beats_per_datagram =
     gen_try (host_require_beat_aligned bytes_per_channel) (\<lambda>bytes_per_channel.
     gen_try (host_require_beat_aligned base_addr) (\<lambda>base_addr.
     gen_try (host_validate_udp_bulk_beats beats_per_datagram) (\<lambda>beats_per_datagram.
     gen_map (host_bulk_datagram base_addr)
       (host_iter_max_length_payload_chunks_from_cache file bytes_per_channel beats_per_datagram))))"

definition host_decode_udp_bulk_datagram :: "bytes \<Rightarrow> (int \<times> bytes) result" where
  "host_decode_udp_bulk_datagram datagram =
     guard_raise (length datagram < 24) ValueError (
     ebind (struct_unpack [fQ, fQ, fQ] (take 24 datagram)) (\<lambda>h.
     let magic = h ! 0; ddr_addr = h ! 1; word_count = h ! 2 in
     guard_raise (magic \<noteq> host_UDP_WAVE_BULK_MAGIC) ValueError (
     ebind (host_require_beat_aligned ddr_addr) (\<lambda>_.
     let payload = drop 24 datagram in
     guard_raise (word_count = 0 \<or> word_count mod 4 \<noteq> 0 \<or> int (length payload) \<noteq> word_count * 8) ValueError (
     Inr (ddr_addr, payload))))))"

text \<open>\<open>build_dc_iq_tone\<close>: the constant I lane and the zero Q lane.\<close>

definition host_build_dc_iq_tone :: "int \<Rightarrow> pynum \<Rightarrow> int16 list result" where
  "host_build_dc_iq_tone n_bytes amp =
     (let n = (if n_bytes mod 32 \<noteq> 0 then n_bytes + (32 - n_bytes mod 32) else n_bytes) in
      ebind (to_float amp) (\<lambda>a. ebind (py_round (fscale a 32767)) (\<lambda>c.
      let clamped = max (- 32768) (min 32767 c); n_samples = n div 2 in
      guard_raise (n_samples < 0) ValueError (
      Inr (map (\<lambda>k. if even k then word_of_int clamped else 0) [0 ..< nat n_samples])))))"

section \<open>DDR packets round trip\<close>

lemma host_require_Inr [err_simps]:
  "host_require_beat_aligned v = Inr w \<longleftrightarrow> w = v \<and> v mod 32 = 0"
  by (auto simp: host_require_beat_aligned_def host_BEAT_BYTES_def err_simps)

lemma host_require_aligned: "v mod 32 = 0 \<Longrightarrow> host_require_beat_aligned v = Inr v"
  by (simp add: host_require_Inr)

lemma pad32_aligned:
  "length (if length raw mod 32 \<noteq> 0 then raw @ replicate (32 - length raw mod 32) x else raw) mod 32 = 0"
proof -
  have "(k + (32 - k mod 32)) mod 32 = 0" for k :: nat by presburger
  then show ?thesis by simp
qed

lemma host_payload_aligned: "length (host_payload_bytes wave n) mod 32 = 0"
  unfolding host_payload_bytes_def Let_def by (rule pad32_aligned)

lemma host_ddr_packet_ok:
  assumes len: "offset + 32 \<le> length payload" and a: "addr offset = Inr a" "0 \<le> a" "a < 2 ^ 64"
  shows "host_ddr_packet payload addr offset =
    Inr (fields_enc fQ6 ([host_UDP_WAVE_DDR_MAGIC, a] @ fields_dec fQ4 (pyslice offset (offset + 32) payload)))"
proof -
  let ?c = "pyslice offset (offset + 32) payload"
  have c: "length ?c = 32" using len by (simp add: length_pyslice)
  have "fields_ok fQ4 (fields_dec fQ4 ?c)" by (rule fields_ok_dec) (simp add: c)
  then have ok: "fields_ok fQ6 ([host_UDP_WAVE_DDR_MAGIC, a] @ fields_dec fQ4 ?c)"
    using a by (simp add: host_consts del: fields_dec.simps)
  show ?thesis
    unfolding host_ddr_packet_def a(1) using struct_pack_ok [OF ok] c by (simp add: struct_unpack_def)
qed

lemma host_ddr_packet_decodes:
  assumes c: "length c = 32" and a: "0 \<le> a" "a < 2 ^ 64" "a mod 32 = 0"
  shows "host_decode_udp_waveform_packet (fields_enc fQ6 ([host_UDP_WAVE_DDR_MAGIC, a] @ fields_dec fQ4 c)) =
    Inr (host_UDP_WAVE_DDR_MAGIC, a, c)"
proof -
  obtain w0 w1 w2 w3 where w: "fields_dec fQ4 c = [w0, w1, w2, w3]" by simp
  have "fields_ok fQ4 (fields_dec fQ4 c)" by (rule fields_ok_dec) (simp add: c)
  then have ok4: "fields_ok fQ4 [w0, w1, w2, w3]" by (simp only: w)
  then have ok: "fields_ok fQ6 [host_UDP_WAVE_DDR_MAGIC, a, w0, w1, w2, w3]"
    using a by (simp add: host_consts)
  have "fields_enc fQ4 [w0, w1, w2, w3] = c"
    using fields_enc_dec [of c fQ4] c w by simp
  then have p: "struct_pack fQ4 [w0, w1, w2, w3] = Inr c" using struct_pack_ok [OF ok4] by simp
  have len: "length (fields_enc fQ6 [host_UDP_WAVE_DDR_MAGIC, a, w0, w1, w2, w3]) = 48"
    by (simp add: length_fields_enc del: fields_enc.simps)
  then have u: "struct_unpack fQ6 (fields_enc fQ6 [host_UDP_WAVE_DDR_MAGIC, a, w0, w1, w2, w3]) =
      Inr [host_UDP_WAVE_DDR_MAGIC, a, w0, w1, w2, w3]"
    using fields_dec_enc [OF ok, of "[]"] by (simp add: struct_unpack_def del: fields_enc.simps fields_dec.simps)
  show ?thesis
    unfolding w host_decode_udp_waveform_packet_def append.simps len u
    by (simp add: host_require_aligned a(3) p)
qed


lemma concat_slices: "concat (map (\<lambda>k. pyslice (w * k) (w * k + w) xs) [0 ..< n]) = take (w * n) xs"
proof (induction n)
  case (Suc n)
  have "take (w * n) xs @ pyslice (w * n) (w * n + w) xs = take (w * n + w) xs"
    by (simp add: pyslice_def take_add)
  then show ?case using Suc by (simp add: add.commute)
qed simp

lemma beat_offsets_aligned: "n mod 32 = 0 \<Longrightarrow> beat_offsets n = map (\<lambda>i. 32 * i) [0 ..< n div 32]"
  by (simp add: beat_offsets_def div_add1_eq)

text \<open>
  DDR write packets round trip: for a beat-aligned address inside the 64-bit space the tool
  emits one 48-byte packet per 32 bytes of the zero-padded wave and no exception; each packet decodes
  to consecutive addresses, and the decoded payloads in order are exactly the padded wave.
\<close>

lemma host_ddr_packets_roundtrip:
  assumes "0 \<le> addr" and "addr mod 32 = 0"
    and "addr + int (length (host_payload_bytes wave n)) \<le> 2 ^ 64"
  shows "\<exists>pkts slices. host_iter_udp_waveform_packets wave addr n = (pkts, None) \<and>
    map host_decode_udp_waveform_packet pkts =
      map (\<lambda>k. Inr (host_UDP_WAVE_DDR_MAGIC, addr + 32 * int k, slices ! k)) [0 ..< length slices] \<and>
    length pkts = length slices \<and> concat slices = host_payload_bytes wave n \<and>
    length pkts = length (host_payload_bytes wave n) div 32"
proof -
  let ?p = "host_payload_bytes wave n"
  let ?m = "length ?p div 32"
  let ?slice = "\<lambda>k. pyslice (32 * k) (32 * k + 32) ?p"
  let ?pkt = "\<lambda>k. fields_enc fQ6 ([host_UDP_WAVE_DDR_MAGIC, addr + 32 * int k] @ fields_dec fQ4 (?slice k))"
  have al: "length ?p mod 32 = 0" by (rule host_payload_aligned)
  then have len: "length ?p = 32 * ?m" by (simp add: minus_mod_eq_mult_div [symmetric])
  have in_range: "32 * k + 32 \<le> length ?p" if "k < ?m" for k using that len by linarith
  have a: "0 \<le> addr + 32 * int k" "addr + 32 * int k < 2 ^ 64" "(addr + 32 * int k) mod 32 = 0" if "k < ?m" for k
  proof -
    show "0 \<le> addr + 32 * int k" using assms(1) by simp
    have "int (32 * k + 32) \<le> int (length ?p)" using in_range [OF that] by (simp only: of_nat_le_iff)
    then show "addr + 32 * int k < 2 ^ 64" using assms(3) by simp
    show "(addr + 32 * int k) mod 32 = 0" using assms(2) by simp
  qed
  have mask64: "addr AND 0xFFFFFFFFFFFFFFFF = addr" if "0 < ?m"
    using a(2) [OF that] assms(1) by (simp add: and_mask_numerals)
  have pk: "host_ddr_packet ?p (\<lambda>offset. Inr ((addr AND 0xFFFFFFFFFFFFFFFF) + int offset)) (32 * k) = Inr (?pkt k)"
    if "k < ?m" for k
  proof (rule host_ddr_packet_ok [OF in_range [OF that] _ a(1,2) [OF that]])
    have "0 < ?m" using that by simp
    note eq = mask64 [OF this]
    show "Inr ((addr AND 0xFFFFFFFFFFFFFFFF) + int (32 * k)) = Inr (addr + 32 * int k)"
      unfolding eq by simp
  qed
  have gen: "host_iter_udp_waveform_packets wave addr n = (map ?pkt [0 ..< ?m], None)"
  proof -
    have "gen_for (host_ddr_packet ?p (\<lambda>offset. Inr ((addr AND 0xFFFFFFFFFFFFFFFF) + int offset)))
        (map (\<lambda>i. 32 * i) [0 ..< ?m]) = (map (\<lambda>off. ?pkt (off div 32)) (map (\<lambda>i. 32 * i) [0 ..< ?m]), None)"
      by (rule gen_for_ok) (auto simp: pk simp del: fields_enc.simps fields_dec.simps)
    also have "map (\<lambda>off. ?pkt (off div 32)) (map (\<lambda>i. 32 * i) [0 ..< ?m]) = map ?pkt [0 ..< ?m]"
      by (simp add: comp_def del: fields_enc.simps fields_dec.simps)
    finally show ?thesis
      unfolding host_iter_udp_waveform_packets_def Let_def host_require_aligned [OF assms(2)] gen_try_simps
        beat_offsets_aligned [OF al] .
  qed
  have dec: "host_decode_udp_waveform_packet (?pkt k) = Inr (host_UDP_WAVE_DDR_MAGIC, addr + 32 * int k, ?slice k)"
    if "k < ?m" for k
    by (rule host_ddr_packet_decodes) (use a [OF that] in_range [OF that] in \<open>simp_all add: length_pyslice\<close>)
  show ?thesis
  proof (intro exI conjI)
    show "host_iter_udp_waveform_packets wave addr n = (map ?pkt [0 ..< ?m], None)" by (rule gen)
    show "map host_decode_udp_waveform_packet (map ?pkt [0 ..< ?m]) =
      map (\<lambda>k. Inr (host_UDP_WAVE_DDR_MAGIC, addr + 32 * int k, map ?slice [0 ..< ?m] ! k)) [0 ..< length (map ?slice [0 ..< ?m])]"
      by (simp add: dec [unfolded append.simps] del: fields_enc.simps fields_dec.simps)
    show "concat (map ?slice [0 ..< ?m]) = ?p" by (simp only: concat_slices len [symmetric] take_all order_refl)
  qed (simp_all only: length_map length_upt diff_zero)
qed

theorem host_ddr_packets_roundtrip_witness:
  "\<exists>pkts. host_iter_udp_waveform_packets (WaveBytes [1, 2, 3]) 64 None = (pkts, None) \<and> length pkts = 1"
proof -
  have p: "host_payload_bytes (WaveBytes [1, 2, 3]) None = [1, 2, 3] @ replicate 29 0"
    by (simp add: host_payload_bytes_def)
  show ?thesis
    using host_ddr_packets_roundtrip [of 64 "WaveBytes [1, 2, 3]" None] unfolding p by auto
qed


section \<open>The max-length record\<close>

text \<open>Chunks from beat \<open>b\<close> to beat \<open>e\<close>, each starting where the one before it ends.\<close>

fun contiguous :: "int \<Rightarrow> int \<Rightarrow> (int \<times> bytes) list \<Rightarrow> int \<Rightarrow> bool" where
  "contiguous chunk_beats b [] e \<longleftrightarrow> b = e"
| "contiguous chunk_beats b ((i, p) # cs) e \<longleftrightarrow>
     i = b \<and> (\<exists>n > 0. length p = 64 * n \<and> int n \<le> chunk_beats \<and> contiguous chunk_beats (b + int n) cs e)"

text \<open>The record as it should be: the beats one by one.\<close>

definition beats_between :: "(int \<Rightarrow> bytes) \<Rightarrow> int \<Rightarrow> nat \<Rightarrow> bytes" where
  "beats_between beat_of b n = concat (map (\<lambda>i. beat_of (b + int i)) [0 ..< n])"

lemma beats_between_add: "beats_between f b (m + n) = beats_between f b m @ beats_between f (b + int m) n"
  by (induction n) (simp_all add: beats_between_def add.assoc)

lemma length_beats_between:
  "(\<And>i. i < n \<Longrightarrow> length (f (b + int i)) = 64) \<Longrightarrow> length (beats_between f b n) = 64 * n"
  by (induction n) (simp_all add: beats_between_def)

lemma chunk_loop_covers:
  assumes chunk: "0 < chunk_beats" and b: "0 \<le> b" "b \<le> n_beats"
    and len: "\<And>i. 0 \<le> i \<Longrightarrow> i < n_beats \<Longrightarrow> length (beat_of i) = 64"
    and payload: "\<And>b. 0 \<le> b \<Longrightarrow> b < n_beats \<Longrightarrow>
      payload_of b (host_chunk_beats pattern marker tpb n_beats chunk_beats b) =
      Inr (beats_between beat_of b (host_chunk_beats pattern marker tpb n_beats chunk_beats b))"
  shows "\<exists>cs. host_chunk_loop payload_of pattern marker tpb n_beats chunk_beats b = (cs, None) \<and>
    contiguous chunk_beats b cs n_beats \<and> concat (map snd cs) = beats_between beat_of b (nat (n_beats - b))"
  using b
proof (induction "nat (n_beats - b)" arbitrary: b rule: less_induct)
  case less
  show ?case
  proof (cases "b < n_beats")
    case False
    then show ?thesis using less.prems
      by (subst host_chunk_loop.simps) (simp add: beats_between_def)
  next
    case True
    let ?n = "host_chunk_beats pattern marker tpb n_beats chunk_beats b"
    have n: "0 < ?n" "int ?n \<le> chunk_beats" "int ?n \<le> n_beats - b"
      using host_chunk_beats_pos [OF chunk True, of pattern marker tpb] by simp_all
    have step: "nat (n_beats - (b + int ?n)) < nat (n_beats - b)" using n True by simp
    obtain cs where cs: "host_chunk_loop payload_of pattern marker tpb n_beats chunk_beats (b + int ?n) = (cs, None)"
      "contiguous chunk_beats (b + int ?n) cs n_beats"
      "concat (map snd cs) = beats_between beat_of (b + int ?n) (nat (n_beats - (b + int ?n)))"
      using less.hyps [OF step] n less.prems by auto
    have p: "payload_of b ?n = Inr (beats_between beat_of b ?n)"
      using payload [OF less.prems(1) True] .
    have l: "length (beats_between beat_of b ?n) = 64 * ?n"
      by (rule length_beats_between) (rule len, use n less.prems in linarith, use n in linarith)
    have split: "nat (n_beats - b) = ?n + nat (n_beats - (b + int ?n))" using n by simp
    show ?thesis
    proof (intro exI conjI)
      show "host_chunk_loop payload_of pattern marker tpb n_beats chunk_beats b =
          ((b, beats_between beat_of b ?n) # cs, None)"
        using True chunk by (subst host_chunk_loop.simps) (simp add: p cs(1) gen_append_def Let_def)
      show "contiguous chunk_beats b ((b, beats_between beat_of b ?n) # cs) n_beats"
        using n cs(2) l by auto
      show "concat (map snd ((b, beats_between beat_of b ?n) # cs)) = beats_between beat_of b (nat (n_beats - b))"
        unfolding split by (simp add: beats_between_add cs(3))
    qed
  qed
qed

text \<open>The beats of the two patterns.\<close>

definition region_beat :: "string \<Rightarrow> bytes" where
  "region_beat region =
     concat (map (\<lambda>channel. fields_enc [f_h, f_h, f_h, f_h]
         [the (marker_base region) + channel * 0x80, 0, the (marker_base region) + channel * 0x80, 0])
       [1 .. host_DDR_INTERLEAVED_CHANNELS])"

lemma marker_base_region: "marker_base (host_max_length_marker_region off t m) \<in> {Some 0x0800, Some 0x1000, Some 0x2000, Some 0x3000}"
  by (simp add: host_max_length_marker_region_def marker_base_def Let_def)

lemma region_lane:
  assumes "marker_base region \<in> {Some 0x0800, Some 0x1000, Some 0x2000, Some 0x3000}" "1 \<le> channel" "channel \<le> 8"
  shows "ebind (host_max_length_marker_amplitude channel region) (\<lambda>i.
      ebind (host_max_length_marker_amplitude channel region) (\<lambda>j. struct_pack [f_h, f_h, f_h, f_h] [i, 0, j, 0])) =
    Inr (fields_enc [f_h, f_h, f_h, f_h]
      [the (marker_base region) + channel * 0x80, 0, the (marker_base region) + channel * 0x80, 0])"
proof -
  obtain base where base: "marker_base region = Some base" "0 \<le> base" "base \<le> 0x3000" using assms(1) by auto
  have "host_max_length_marker_amplitude channel region = Inr (base + channel * 0x80)"
    using assms(2,3) base by (simp add: host_max_length_marker_amplitude_def host_consts guard_raise_def)
  moreover have "fields_ok [f_h, f_h, f_h, f_h] [base + channel * 0x80, 0, base + channel * 0x80, 0]"
    using assms(2,3) base by simp
  ultimately show ?thesis using base(1) by (simp only: ebind_Inr struct_pack_ok option.sel)
qed

lemma host_beat_ok:
  assumes "0 \<le> b" "b < n_beats"
  shows "host_max_length_interleaved_beat b n_beats marker = Inr (region_beat (host_region_of (n_beats * 64) marker b))"
proof -
  let ?r = "host_region_of (n_beats * 64) marker b"
  have r: "?r = host_max_length_marker_region (b * host_DDR_INTERLEAVED_BEAT_BYTES)
      (n_beats * host_DDR_INTERLEAVED_BEAT_BYTES) marker"
    by (simp add: host_region_of_def host_consts)
  have mr: "marker_base ?r \<in> {Some 0x0800, Some 0x1000, Some 0x2000, Some 0x3000}"
    unfolding r by (rule marker_base_region)
  have "emap (\<lambda>channel.
         ebind (host_max_length_marker_amplitude channel ?r) (\<lambda>i.
         ebind (host_max_length_marker_amplitude channel ?r) (\<lambda>j.
         struct_pack [f_h, f_h, f_h, f_h] [i, 0, j, 0]))) [1 .. host_DDR_INTERLEAVED_CHANNELS] =
     Inr (map (\<lambda>channel. fields_enc [f_h, f_h, f_h, f_h]
         [the (marker_base ?r) + channel * 0x80, 0, the (marker_base ?r) + channel * 0x80, 0])
       [1 .. host_DDR_INTERLEAVED_CHANNELS])"
    by (rule emap_all_Inr, rule region_lane) (use mr in \<open>simp_all add: host_consts\<close>)
  then show ?thesis
    unfolding host_max_length_interleaved_beat_def region_beat_def Let_def r [symmetric]
    using assms by (simp add: guard_raise_def del: fields_enc.simps)
qed

lemma length_region_beat: "length (region_beat region) = 64"
  by (simp add: region_beat_def host_consts length_fields_enc comp_def upto_rec1 del: fields_enc.simps)


text \<open>
  A marker region is an interval of beats, and the gap between two intervals of the body is as wide
  as a marker: a chunk no longer than a marker whose ends agree lies in one region.
\<close>

lemma region_convex:
  assumes "b \<le> x" "x \<le> y" "64 * (y - b) < 8 * marker" "0 < marker" "marker mod 32 = 0"
    and same: "host_region_of (n_beats * 64) marker y = host_region_of (n_beats * 64) marker b"
  shows "host_region_of (n_beats * 64) marker x = host_region_of (n_beats * 64) marker b"
proof -
  have h: "n_beats * 64 div 2 = 32 * n_beats" "marker * 8 div 2 = 4 * marker" by simp_all
  define ms where "ms = max 0 (32 * n_beats - 4 * marker)"
  have ms: "32 * n_beats - 4 * marker \<le> ms" "0 \<le> ms" "ms = 0 \<or> ms = 32 * n_beats - 4 * marker"
    by (auto simp: ms_def)
  have r: "host_region_of (n_beats * 64) marker k =
      (if k * 64 < marker * 8 then ''start''
       else if ms \<le> k * 64 \<and> k * 64 < ms + marker * 8 then ''middle''
       else if k * 64 \<ge> n_beats * 64 - marker * 8 then ''end'' else ''body'')" for k
    by (simp add: host_region_of_def host_max_length_marker_region_def host_consts h ms_def Let_def)
  have distinct: "''start'' \<noteq> ''middle''" "''start'' \<noteq> ''end''" "''start'' \<noteq> ''body''"
    "''middle'' \<noteq> ''end''" "''middle'' \<noteq> ''body''" "''end'' \<noteq> ''body''" by simp_all
  show ?thesis
    using same ms assms(1-4) unfolding r by (auto split: if_splits)
qed

lemma host_shrink_same:
  "0 < count \<Longrightarrow> r (b + int (host_shrink r (r b) b count) - 1) = r b"
proof (induction count rule: less_induct)
  case (less count)
  show ?case
  proof (cases "count > 1")
    case True
    then show ?thesis using less.IH [of "count - 1"]
      by (subst host_shrink.simps) simp
  next
    case False
    then have "count = 1" using less.prems by simp
    then show ?thesis by (subst host_shrink.simps) simp
  qed
qed

text \<open>What the record should hold: each beat as the one-beat payload of its own position.\<close>

definition host_record_beat ::
  "(pyfloat \<Rightarrow> pyfloat) \<Rightarrow> length_pattern \<Rightarrow> int \<Rightarrow> pyfloat \<Rightarrow> int \<Rightarrow> int \<Rightarrow> int \<Rightarrow> bytes" where
  "host_record_beat np_sin pattern marker freq amp n_beats b =
     (case host_chunk_payload np_sin pattern marker freq amp n_beats b 1 of Inr p \<Rightarrow> p | Inl _ \<Rightarrow> [])"

lemma record_beat_cw:
  "0 \<le> b \<Longrightarrow> b < n_beats \<Longrightarrow>
   host_record_beat np_sin CW_MARKER marker freq amp n_beats b = region_beat (host_region_of (n_beats * 64) marker b)"
  by (simp add: host_record_beat_def host_chunk_payload_def host_beat_ok)

lemma record_beat_sine:
  "host_record_beat np_sin LOWFREQ_SINE marker freq amp n_beats b =
   host_max_length_lowfreq_sine_payload np_sin freq amp b 1"
  by (simp add: host_record_beat_def host_chunk_payload_def)

lemma sine_payload_beats:
  "host_max_length_lowfreq_sine_payload np_sin freq amp b (int n) =
   beats_between (\<lambda>b. host_max_length_lowfreq_sine_payload np_sin freq amp b 1) b n"
  by (simp add: host_max_length_lowfreq_sine_payload_def beats_between_def Let_def)

lemma length_sine_beat: "length (host_max_length_lowfreq_sine_payload np_sin freq amp b 1) = 64"
  by (simp add: host_max_length_lowfreq_sine_payload_def Let_def waveform_bytes_def sample_bytes_def
      length_concat comp_def sum_list_triv)

lemma length_record_beat:
  "0 \<le> b \<Longrightarrow> b < n_beats \<Longrightarrow> length (host_record_beat np_sin pattern marker freq amp n_beats b) = 64"
  by (cases pattern) (simp_all add: record_beat_cw record_beat_sine length_region_beat length_sine_beat)

lemma beats_between_const:
  "(\<And>i. i < n \<Longrightarrow> f (b + int i) = c) \<Longrightarrow> beats_between f b n = concat (replicate n c)"
proof (induction n)
  case (Suc n)
  have "replicate (Suc n) c = replicate n c @ [c]" by (simp add: replicate_append_same)
  then show ?case using Suc by (simp add: beats_between_def del: replicate.simps)
qed (simp add: beats_between_def)

lemma narrow: "(n::int) \<le> c \<Longrightarrow> 8 * c \<le> m \<Longrightarrow> 64 * (b + n - 1 - b) < 8 * m"
  by (simp add: algebra_simps)

lemma chunk_payload_ok:
  assumes chunk: "0 < chunk_beats" and b: "0 \<le> b" "b < n_beats"
    and marker: "0 < marker" "marker mod 32 = 0"
    and short: "pattern = CW_MARKER \<Longrightarrow> 8 * chunk_beats \<le> marker"
  shows "host_chunk_payload np_sin pattern marker freq amp n_beats b
      (host_chunk_beats pattern marker (n_beats * 64) n_beats chunk_beats b) =
    Inr (beats_between (host_record_beat np_sin pattern marker freq amp n_beats) b
      (host_chunk_beats pattern marker (n_beats * 64) n_beats chunk_beats b))"
proof (cases pattern)
  case LOWFREQ_SINE
  then show ?thesis
    by (simp add: host_chunk_payload_def sine_payload_beats record_beat_sine [abs_def])
next
  case CW_MARKER
  let ?r = "host_region_of (n_beats * 64) marker"
  let ?n = "host_chunk_beats pattern marker (n_beats * 64) n_beats chunk_beats b"
  have n: "0 < ?n" "int ?n \<le> chunk_beats" "int ?n \<le> n_beats - b"
    using host_chunk_beats_pos [OF chunk b(2), of pattern marker "n_beats * 64"] by simp_all
  have sh: "8 * chunk_beats \<le> marker" using short CW_MARKER by simp
  have "0 < nat (min chunk_beats (n_beats - b))" using chunk b by simp
  from host_shrink_same [OF this, of ?r b] have last: "?r (b + int ?n - 1) = ?r b"
    by (simp add: host_chunk_beats_def CW_MARKER Let_def)
  have "host_record_beat np_sin CW_MARKER marker freq amp n_beats (b + int i) = region_beat (?r b)" if "i < ?n" for i
  proof -
    have w: "64 * (b + int ?n - 1 - b) < 8 * marker" by (rule narrow [OF n(2) sh])
    have "int i < int ?n" using that by (simp only: of_nat_less_iff)
    then have "?r (b + int i) = ?r b"
      by (intro region_convex [OF _ _ w marker last]) linarith+
    then show ?thesis using b n that by (subst record_beat_cw) simp_all
  qed
  then show ?thesis
    unfolding CW_MARKER host_chunk_payload_def using host_beat_ok [OF b] beats_between_const
    by (simp add: CW_MARKER)
qed


definition record_args :: "int \<Rightarrow> int \<Rightarrow> string \<Rightarrow> length_pattern \<Rightarrow> bool" where
  "record_args bytes_per_channel marker pattern pat \<longleftrightarrow>
     0 < bytes_per_channel \<and> bytes_per_channel \<le> host_DDR_MAX_BYTES_PER_CHANNEL \<and>
     bytes_per_channel mod 32 = 0 \<and> 0 < marker \<and> marker mod 32 = 0 \<and> host_pattern pattern = Some pat"

abbreviation "whole_record np_sin pat marker freq amp bytes_per_channel \<equiv>
  beats_between (host_record_beat np_sin pat marker freq amp (bytes_per_channel div 8)) 0
    (nat (bytes_per_channel div 8))"

lemma chunks_cover:
  assumes args: "record_args bytes_per_channel marker pattern pat"
    and chunk: "0 < chunk_beats" and short: "pat = CW_MARKER \<Longrightarrow> 8 * chunk_beats \<le> marker"
  obtains cs where "host_iter_max_length_payload_chunks np_sin bytes_per_channel chunk_beats marker pattern freq amp = (cs, None)"
    and "contiguous chunk_beats 0 cs (bytes_per_channel div 8)"
    and "concat (map snd cs) = whole_record np_sin pat marker freq amp bytes_per_channel"
proof -
  let ?T = "bytes_per_channel div 8"
  have a: "0 < bytes_per_channel" "bytes_per_channel \<le> host_DDR_MAX_BYTES_PER_CHANNEL"
    "bytes_per_channel mod 32 = 0" "0 < marker" "marker mod 32 = 0" "host_pattern pattern = Some pat"
    using args by (simp_all add: record_args_def)
  obtain k where k: "bytes_per_channel = 32 * k" using a(3) by auto
  have T: "0 \<le> ?T" using a(1) unfolding k by simp
  have tpb: "bytes_per_channel * host_DDR_INTERLEAVED_CHANNELS = ?T * 64"
    "?T * 64 div host_DDR_INTERLEAVED_BEAT_BYTES = ?T"
    unfolding k by (simp_all add: host_consts)
  have "\<exists>cs. host_chunk_loop (host_chunk_payload np_sin pat marker freq amp ?T) pat marker (?T * 64) ?T chunk_beats 0 =
      (cs, None) \<and> contiguous chunk_beats 0 cs ?T \<and>
      concat (map snd cs) = beats_between (host_record_beat np_sin pat marker freq amp ?T) 0 (nat (?T - 0))"
    by (rule chunk_loop_covers [OF chunk order_refl T])
      (simp_all add: length_record_beat chunk_payload_ok [OF chunk _ _ a(4,5)] short)
  then obtain cs where cs: "host_chunk_loop (host_chunk_payload np_sin pat marker freq amp ?T) pat marker (?T * 64) ?T chunk_beats 0 =
      (cs, None)" "contiguous chunk_beats 0 cs ?T"
    "concat (map snd cs) = whole_record np_sin pat marker freq amp bytes_per_channel"
    by auto
  have "host_iter_max_length_payload_chunks np_sin bytes_per_channel chunk_beats marker pattern freq amp = (cs, None)"
    unfolding host_iter_max_length_payload_chunks_def host_require_aligned [OF a(3)] gen_try_simps Let_def tpb
    using a chunk cs(1) by (simp add: gen_guard_def host_BEAT_BYTES_def)
  then show thesis using cs(2,3) by (rule that)
qed



section \<open>Bulk datagrams\<close>

text \<open>Every chunk of a contiguous list starts inside the record.\<close>

lemma contiguous_members:
  "contiguous chunk_beats b cs e \<Longrightarrow> (i, p) \<in> set cs \<Longrightarrow>
   b \<le> i \<and> (\<exists>n > 0. length p = 64 * n \<and> i + int n \<le> e) \<and> b \<le> e"
proof (induction cs arbitrary: b i p)
  case (Cons c cs)
  obtain j q where c: "c = (j, q)" by (cases c)
  obtain n where n: "j = b" "0 < n" "length q = 64 * n" "contiguous chunk_beats (b + int n) cs e"
    using Cons.prems(1) by (auto simp: c)
  have e: "b + int n \<le> e"
  proof (cases cs)
    case (Cons d ds)
    then show ?thesis using Cons.IH [OF n(4), of "fst d" "snd d"]  by simp
  qed (use n(4) in simp)
  show ?case
  proof (cases "(i, p) = c")
    case True
    then show ?thesis using n e by (auto simp: c)
  next
    case False
    then have "(i, p) \<in> set cs" using Cons.prems(2) by simp
    from Cons.IH [OF n(4) this] show ?thesis using n(2) by auto
  qed
qed simp


lemma bulk_datagram_roundtrip:
  assumes base: "0 \<le> base" "base mod 32 = 0" "base + 64 * e \<le> 2 ^ 64"
    and chunk: "0 \<le> i" "length p = 64 * n" "0 < n" "i + int n \<le> e"
  obtains d where "host_bulk_datagram base (i, p) = Inr d"
    and "host_decode_udp_bulk_datagram d = Inr (base + 64 * i, p)"
proof -
  let ?vs = "[host_UDP_WAVE_BULK_MAGIC, base + i * 64, int (8 * n)]"
  have small: "base + i * 64 < 2 ^ 64" "int (8 * n) < 2 ^ 64" using base chunk by simp_all
  then have ok: "fields_ok [fQ, fQ, fQ] ?vs"
    using base(1) chunk(1) by (simp add: host_UDP_WAVE_BULK_MAGIC_def)
  let ?h = "fields_enc [fQ, fQ, fQ] ?vs"
  have len: "length ?h = 24" by (simp add: length_fields_enc del: fields_enc.simps)
  have "fields_dec [fQ, fQ, fQ] ?h = ?vs" using fields_dec_enc [OF ok, of "[]"] by simp
  then have u: "struct_unpack [fQ, fQ, fQ] ?h = Inr ?vs"
    using len by (simp add: struct_unpack_def del: fields_enc.simps fields_dec.simps)
  have al: "(base + i * 64) mod 32 = 0"
  proof -
    have eq: "base + i * 64 = base + 32 * (2 * i)" by simp
    show ?thesis unfolding eq by (simp only: mod_mult_self2 base(2))
  qed
  have "host_bulk_datagram base (i, p) = Inr (?h @ p)"
    using struct_pack_ok [OF ok] chunk(2)
    by (simp add: host_bulk_datagram_def host_DDR_INTERLEAVED_BEAT_BYTES_def host_DDR_TILE_CHANNELS_def
        host_DDR_INTERLEAVED_LANE_BYTES_def del: fields_enc.simps)
  moreover have "host_decode_udp_bulk_datagram (?h @ p) = Inr (base + 64 * i, p)"
  proof -
    have t: "take 24 (?h @ p) = ?h" "drop 24 (?h @ p) = p" "\<not> length (?h @ p) < 24"
      using len by (simp_all del: fields_enc.simps)
    have w: "\<not> (int (8 * n) = 0 \<or> int (8 * n) mod 4 \<noteq> 0 \<or> int (length p) \<noteq> int (8 * n) * 8)"
      using chunk(2,3) by (simp add: zmod_int [symmetric])
    have "(8 * int n) mod 4 = 0" by presburger
    then show ?thesis
      unfolding host_decode_udp_bulk_datagram_def t u ebind_Inr Let_def
      using w by (simp add: guard_raise_def host_require_aligned [OF al])
  qed
  ultimately show thesis by (rule that)
qed

lemma bulk_record:
  assumes args: "record_args bytes_per_channel marker pattern pat"
    and base: "0 \<le> base" "base mod 32 = 0" "base + 8 * bytes_per_channel \<le> 2 ^ 64"
    and beats: "1 \<le> beats" "beats \<le> 4"
  shows "\<exists>cs ds. host_iter_max_length_udp_batches np_sin bytes_per_channel base beats marker pattern freq amp = (ds, None) \<and>
    map host_decode_udp_bulk_datagram ds = map (\<lambda>(i, p). Inr (base + 64 * i, p)) cs \<and>
    contiguous beats 0 cs (bytes_per_channel div 8) \<and>
    concat (map snd cs) = whole_record np_sin pat marker freq amp bytes_per_channel"
proof -
  have a: "0 < bytes_per_channel" "bytes_per_channel \<le> host_DDR_MAX_BYTES_PER_CHANNEL"
    "bytes_per_channel mod 32 = 0" "0 < marker" "marker mod 32 = 0"
    using args by (simp_all add: record_args_def)
  have m: "32 \<le> marker" using a(4,5) by (auto elim!: dvdE simp: mod_eq_0_iff_dvd)
  obtain cs where g: "host_iter_max_length_payload_chunks np_sin bytes_per_channel beats marker pattern freq amp = (cs, None)"
    and c: "contiguous beats 0 cs (bytes_per_channel div 8)"
    and w: "concat (map snd cs) = whole_record np_sin pat marker freq amp bytes_per_channel"
    by (rule chunks_cover [OF args, of beats]) (use beats m in auto)
  have e: "base + 64 * (bytes_per_channel div 8) \<le> 2 ^ 64"
    using base(3) a(3) by (auto elim!: dvdE simp: mod_eq_0_iff_dvd)
  define dg where "dg = (\<lambda>x. case host_bulk_datagram base x of Inr d \<Rightarrow> d | Inl _ \<Rightarrow> [])"
  have each: "host_bulk_datagram base x = Inr (dg x) \<and>
      host_decode_udp_bulk_datagram (dg x) = Inr (base + 64 * fst x, snd x)" if "x \<in> set cs" for x
  proof -
    obtain i p where x: "x = (i, p)" by (cases x)
    have ip: "(i, p) \<in> set cs" using that x by simp
    obtain n where n: "0 \<le> i" "length p = 64 * n" "0 < n" "i + int n \<le> bytes_per_channel div 8"
      using contiguous_members [OF c ip] by auto
    show ?thesis by (rule bulk_datagram_roundtrip [OF base(1,2) e n]) (simp add: dg_def x)
  qed
  have b: "host_validate_udp_bulk_beats beats = Inr beats"
    using beats by (simp add: host_validate_udp_bulk_beats_def host_consts guard_raise_def)
  have "gen_map (host_bulk_datagram base) (cs, None) = (map dg cs, None)"
    by (rule gen_map_ok) (simp add: each)
  then have "host_iter_max_length_udp_batches np_sin bytes_per_channel base beats marker pattern freq amp = (map dg cs, None)"
    unfolding host_iter_max_length_udp_batches_def host_require_aligned [OF a(3)] host_require_aligned [OF base(2)]
      gen_try_simps b using a by (simp add: g)
  moreover have "map host_decode_udp_bulk_datagram (map dg cs) = map (\<lambda>(i, p). Inr (base + 64 * i, p)) cs"
    by (simp add: each case_prod_unfold)
  ultimately show ?thesis using c w by blast
qed

text \<open>
  The bulk datagrams of the max-length test transport the record: at 1 to 4 beats per datagram
  every datagram is accepted by the decoder, which returns the DDR address of its first beat and its
  payload; the payloads in order are the record beat by beat, every beat of the marker pattern carrying
  the code of its own region.
\<close>

lemma max_length_datagrams_roundtrip:
  assumes "record_args bytes_per_channel marker pattern pat" and "0 \<le> base" and "base mod 32 = 0"
    and "base + 8 * bytes_per_channel \<le> 2 ^ 64" and "1 \<le> beats" and "beats \<le> 4"
  shows "\<exists>cs ds. host_iter_max_length_udp_batches np_sin bytes_per_channel base beats marker pattern freq amp = (ds, None) \<and>
    map host_decode_udp_bulk_datagram ds = map (\<lambda>(i, p). Inr (base + 64 * i, p)) cs \<and>
    contiguous beats 0 cs (bytes_per_channel div 8) \<and>
    concat (map snd cs) = whole_record np_sin pat marker freq amp bytes_per_channel"
  by (rule bulk_record [OF assms])

theorem max_length_datagrams_roundtrip_witness:
  "\<exists>cs ds. host_iter_max_length_udp_batches (\<lambda>x. Fin 0) 160 64 3 32 ''cw-marker'' (Fin 10) 4096 = (ds, None) \<and>
    map host_decode_udp_bulk_datagram ds = map (\<lambda>(i, p). Inr (64 + 64 * i, p)) cs \<and> contiguous 3 0 cs 20"
  using max_length_datagrams_roundtrip [of 160 32 "''cw-marker''" CW_MARKER 64 3 "\<lambda>x. Fin 0" "Fin 10" 4096]
  by (auto simp: record_args_def host_pattern_def host_consts)

section \<open>A chunk longer than a marker\<close>

text \<open>
  The restriction on the chunk length is needed: the inner loop only compares the region of the
  chunk's last beat with that of its first, so a body chunk long enough to span the middle marker
  replaces it. The cache file is generated with chunks of 8192 beats, the default marker has 512.
\<close>

lemma middle_marker_lost:
  "host_chunk_beats CW_MARKER 32 (20 * 64) 20 10 0 = 4 \<and>
   host_chunk_beats CW_MARKER 32 (20 * 64) 20 10 4 = 10 \<and>
   host_region_of (20 * 64) 32 4 = ''body'' \<and> host_region_of (20 * 64) 32 9 = ''middle''"
proof (intro conjI)
  note ev = host_chunk_beats_def host_region_of_def host_max_length_marker_region_def host_consts Let_def
  show "host_chunk_beats CW_MARKER 32 (20 * 64) 20 10 0 = 4"
    by (simp add: ev host_shrink.simps [of _ _ _ 10] host_shrink.simps [of _ _ _ 9] host_shrink.simps [of _ _ _ 8]
        host_shrink.simps [of _ _ _ 7] host_shrink.simps [of _ _ _ 6] host_shrink.simps [of _ _ _ 5]
        host_shrink.simps [of _ _ _ 4])
  show "host_chunk_beats CW_MARKER 32 (20 * 64) 20 10 4 = 10"
    by (simp add: ev host_shrink.simps [of _ _ _ 10])
qed (simp_all add: host_region_of_def host_max_length_marker_region_def host_consts Let_def)

end
