(* ===== verification/Tdc.thy ===== *)
theory Tdc
  imports Device_Upload
begin

unbundle bit_operations_syntax

text \<open>
  The calibration of the eight-channel event compensation (\<open>dr47/tdc.py\<close>). The first part is the
  arithmetic: the table format, and the code-density histogram turned into bin centres with numpy's
  float64 and int64 operations. The second part is the protocol with the board: every function takes
  an object with \<open>read_tdc_register\<close>, \<open>write_tdc_register\<close>, \<open>abort\<close> and \<open>status\<close>, which is the record
  \<open>tdc_board\<close> here; \<open>device_board\<close> is the driver's object. \<open>logged\<close> wraps any such object with a log
  of its calls, and \<open>logged_erases\<close> shows that the wrapping changes nothing else, so that what the
  functions do to a board is a statement about the log.
\<close>

section \<open>Constants\<close>

definition IDENTITY :: int where "IDENTITY = 0x54444301"
definition CONTROL :: int where "CONTROL = 0x0004"
definition STATUS :: int where "STATUS = 0x0008"
definition OFFSET :: int where "OFFSET = 0x000C"
definition COMMAND :: int where "COMMAND = 0x0058"
definition LUT_BASE :: int where "LUT_BASE = 0x1000"
definition HISTOGRAM_BASE :: int where "HISTOGRAM_BASE = 0x4000"
definition TAPS :: nat where "TAPS = 2048"
definition SAMPLE_PERIOD_PS :: int where "SAMPLE_PERIOD_PS = 5000"

definition REGISTERS :: "(string \<times> int) list" where
  "REGISTERS =
     [(''status'', STATUS), (''measured'', 0x10), (''invalid'', 0x14), (''overflow'', 0x18),
      (''bad_code'', 0x1C), (''phase_10ps'', 0x20), (''raw_tap_and_flags'', 0x24),
      (''capture_epoch'', 0x28), (''histogram_samples'', 0x2C), (''accepted'', 0x30),
      (''completed'', 0x34), (''rejected'', 0x38), (''late'', 0x3C), (''faults'', 0x40),
      (''clipped_channels'', 0x44), (''event_state'', 0x48), (''delay_code'', 0x4C),
      (''calibration_revision'', 0x54)]"

section \<open>The table\<close>

definition validate_table :: "pyval list \<Rightarrow> int list result" where
  "validate_table table =
     guard_raise (length table \<noteq> TAPS) ValueError (
     ebind (emap operator_index table) (\<lambda>values.
     guard_raise (\<exists>v \<in> set values. v < 0 \<or> v > 600) ValueError (
     guard_raise (\<exists>(left, right) \<in> set (zip values (tl values)). right < left) ValueError (
     guard_raise (last values - hd values < 400) ValueError (Inr values)))))"

section \<open>Numpy\<close>

text \<open>A signed 64-bit integer: conversion raises, arithmetic wraps.\<close>

definition as_int64 :: "int \<Rightarrow> int result" where
  "as_int64 n = (if - (2 ^ 63) \<le> n \<and> n < 2 ^ 63 then Inr n else Inl OverflowError)"

definition wrap64 :: "int \<Rightarrow> int" where
  "wrap64 n = to_signed 8 (n mod 2 ^ 64)"

definition np_sum :: "int list \<Rightarrow> int" where
  "np_sum counts = foldl (\<lambda>acc c. wrap64 (acc + c)) 0 counts"

text \<open>Division by an integer, which is converted to a float; there is no exception for zero.\<close>

fun np_div :: "pyfloat \<Rightarrow> int \<Rightarrow> pyfloat" where
  "np_div (Fin x) n =
     (if n = 0 then (if x = 0 then NaN else finf (0 < x))
      else case fl (of_int n) of Fin y \<Rightarrow> fl (x / y) | NaN \<Rightarrow> NaN | _ \<Rightarrow> Fin 0)"
| "np_div NaN n = NaN"
| "np_div a n = finf ((0 \<le> n) = (a = PInf))"

text \<open>\<open>max\<close> of an array is NaN as soon as one element is.\<close>

definition np_max2 :: "pyfloat \<Rightarrow> pyfloat \<Rightarrow> pyfloat" where
  "np_max2 a b = (if a = NaN \<or> b = NaN then NaN else if fle b a then a else b)"

fun np_max :: "pyfloat list \<Rightarrow> pyfloat" where
  "np_max [] = NaN"
| "np_max [x] = x"
| "np_max (x # y # ys) = np_max (np_max2 x y # ys)"

fun np_cumsum :: "pyfloat \<Rightarrow> pyfloat list \<Rightarrow> pyfloat list" where
  "np_cumsum acc [] = []"
| "np_cumsum acc (x # xs) = fadd acc x # np_cumsum (fadd acc x) xs"

text \<open>\<open>rint(_).astype(int64)\<close>; what does not fit is the smallest integer, as on x86-64.\<close>

fun rint_int64 :: "pyfloat \<Rightarrow> int" where
  "rint_int64 (Fin x) =
     (let n = round_half_even x in if - (2 ^ 63) \<le> n \<and> n < 2 ^ 63 then n else - (2 ^ 63))"
| "rint_int64 _ = - (2 ^ 63)"

section \<open>The histogram\<close>

record calibration =
  cal_samples :: int
  cal_occupied_bins :: nat
  cal_largest_bin_ps :: pyfloat
  cal_table :: "int list"
  cal_histogram :: "int list"

definition bin_widths :: "int list \<Rightarrow> int \<Rightarrow> pyfloat list" where
  "bin_widths counts samples = map (\<lambda>c. np_div (fscale (fl (of_int c)) (of_int SAMPLE_PERIOD_PS)) samples) counts"

definition bin_centers :: "int list \<Rightarrow> int \<Rightarrow> pyfloat list" where
  "bin_centers counts samples =
     map2 (\<lambda>cum c. np_div (fscale (fsub cum (fdivc (fl (of_int c)) 2)) (of_int SAMPLE_PERIOD_PS)) samples)
       (np_cumsum (Fin 0) (map (\<lambda>c. fl (of_int c)) counts)) counts"

definition calibration_from_histogram :: "pyval list \<Rightarrow> int \<Rightarrow> calibration result" where
  "calibration_from_histogram histogram minimum_samples =
     guard_raise (length histogram \<noteq> TAPS) ValueError (
     ebind (emap operator_index histogram) (\<lambda>indices.
     ebind (emap as_int64 indices) (\<lambda>counts.
     guard_raise (\<exists>c \<in> set counts. c < 0) ValueError (
     let samples = np_sum counts; occupied = length (filter (\<lambda>c. c \<noteq> 0) counts) in
     guard_raise (samples < minimum_samples \<or> occupied < 64) ValueError (
     let largest = np_max (bin_widths counts samples) in
     guard_raise (flt (Fin 100) largest) ValueError (
     ebind (validate_table (map (\<lambda>center. PyInt (rint_int64 (fdivc center 10))) (bin_centers counts samples)))
       (\<lambda>table. Inr \<lparr>cal_samples = samples, cal_occupied_bins = occupied, cal_largest_bin_ps = largest,
                     cal_table = table, cal_histogram = counts\<rparr>)))))))"

definition default_minimum_samples :: int where "default_minimum_samples = 262144"


section \<open>What a histogram becomes\<close>

text \<open>The exact centre of a bin in picoseconds: half of it and everything before it, scaled to the period.\<close>

definition bin_center :: "int list \<Rightarrow> nat \<Rightarrow> rat" where
  "bin_center counts i = of_int (2500 * (2 * sum_list (take (Suc i) counts) - counts ! i)) / of_int (sum_list counts)"

definition good_histogram :: "int list \<Rightarrow> int \<Rightarrow> bool" where
  "good_histogram counts minimum \<longleftrightarrow>
     length counts = 2048 \<and> minimum \<le> sum_list counts \<and> 64 \<le> length (filter (\<lambda>c. c \<noteq> 0) counts) \<and>
     (\<forall>c \<in> set counts. 50 * c \<le> sum_list counts)"

lemma emap_as_int64: "\<forall>c \<in> set cs. 0 \<le> c \<and> c < 2 ^ 39 \<Longrightarrow> emap as_int64 cs = Inr cs"
  by (induction cs) (auto simp: as_int64_def)

lemma emap_index_PyInt [simp]: "emap operator_index (map PyInt cs) = Inr cs"
  by (induction cs) simp_all

lemma wrap64_id: "0 \<le> n \<Longrightarrow> n < 2 ^ 63 \<Longrightarrow> wrap64 n = n"
  by (simp add: wrap64_def to_signed_def)

lemma np_sum_exact:
  assumes "\<forall>c \<in> set cs. 0 \<le> c" "sum_list cs < 2 ^ 39"
  shows "np_sum cs = sum_list cs"
proof -
  have "foldl (\<lambda>acc c. wrap64 (acc + c)) a cs = a + sum_list cs"
    if "0 \<le> a" "a + sum_list cs < 2 ^ 39" "\<forall>c \<in> set cs. 0 \<le> c" for a
    using that
  proof (induction cs arbitrary: a)
    case (Cons c cs)
    have "0 \<le> sum_list cs" using Cons.prems(3) by (simp add: sum_list_nonneg)
    then have "wrap64 (a + c) = a + c" by (intro wrap64_id) (use Cons.prems in simp_all)
    then show ?case using Cons.IH [of "a + c"] Cons.prems by (simp add: add.assoc)
  qed simp
  from this [of 0] assms show ?thesis by (simp add: np_sum_def)
qed

lemma np_cumsum_exact:
  assumes "0 \<le> a" "\<forall>c \<in> set cs. 0 \<le> c" "a + sum_list cs < 2 ^ 39"
  shows "np_cumsum (Fin (of_int a)) (map (\<lambda>c. fl (of_int c)) cs) =
         map (\<lambda>i. Fin (of_int (a + sum_list (take (Suc i) cs)))) [0..<length cs]"
  using assms
proof (induction cs arbitrary: a)
  case (Cons c cs)
  have nn: "0 \<le> sum_list cs" using Cons.prems(2) by (simp add: sum_list_nonneg)
  have c: "fl (of_int c) = Fin (of_int c)" by (rule fl_int) (use Cons.prems nn in simp)
  have "fl (of_int a + of_int c) = Fin (of_int (a + c))"
    using fl_int [of "a + c"] Cons.prems nn by simp
  then have h: "fadd (Fin (of_int a)) (fl (of_int c)) = Fin (of_int (a + c))" by (simp only: c fadd.simps)
  have t: "np_cumsum (Fin (of_int (a + c))) (map (\<lambda>c. fl (of_int c)) cs) =
      map (\<lambda>i. Fin (of_int (a + c + sum_list (take (Suc i) cs)))) [0..<length cs]"
    by (rule Cons.IH) (use Cons.prems nn in \<open>simp_all add: add.assoc\<close>)
  have s: "map (\<lambda>i. Fin (of_int (a + sum_list (take (Suc i) (c # cs))))) [Suc 0..<Suc (length cs)] =
      map (\<lambda>i. Fin (of_int (a + c + sum_list (take (Suc i) cs)))) [0..<length cs]"
    unfolding map_Suc_upt [symmetric] map_map by (simp add: add.assoc)
  show ?case
    unfolding list.map np_cumsum.simps h t
    by (simp only: list.size add_Suc_right add_0_right upt_conv_Cons zero_less_Suc list.map s [symmetric])
      simp
qed simp

lemma np_div_exact:
  assumes "0 < s" "s < 2 ^ 39"
  shows "np_div (Fin x) s = fl (x / of_int s)"
proof -
  have "fl (of_int s) = Fin (of_int s)" by (rule fl_int) (use assms in simp)
  then show ?thesis using assms(1) by simp
qed

lemma width_exact:
  assumes "0 \<le> c" "c \<le> s" "0 < s" "s < 2 ^ 39"
  shows "np_div (fscale (fl (of_int c)) (of_int SAMPLE_PERIOD_PS)) s = fl (of_int (5000 * c) / of_int s)"
proof -
  have c: "fl (of_int c) = Fin (of_int c)" by (rule fl_int) (use assms in simp)
  have "fl (of_int (5000 * c)) = Fin (of_int (5000 * c))" by (rule fl_int) (use assms in simp)
  then have "fl (of_int c * of_int SAMPLE_PERIOD_PS) = Fin (of_int (5000 * c))"
    by (simp add: SAMPLE_PERIOD_PS_def mult.commute)
  then show ?thesis by (simp only: c fscale.simps np_div_exact [OF assms(3,4)])
qed

lemma center_exact:
  assumes "0 \<le> c" "c \<le> cum" "cum \<le> s" "0 < s" "s < 2 ^ 39"
  shows "np_div (fscale (fsub (Fin (of_int cum)) (fdivc (fl (of_int c)) 2)) (of_int SAMPLE_PERIOD_PS)) s =
         fl (of_int (2500 * (2 * cum - c)) / of_int s)"
proof -
  have c: "fl (of_int c) = Fin (of_int c)" by (rule fl_int) (use assms in simp)
  have h: "fl (of_int c / 2) = Fin (of_int c / 2)" by (rule fl_half) (use assms in simp)
  have "of_int cum + - (of_int c / 2) = (of_int (2 * cum - c) / 2 :: rat)" by (simp add: field_simps)
  moreover have "fl (of_int (2 * cum - c) / 2) = Fin (of_int (2 * cum - c) / 2)"
    by (rule fl_half) (use assms in simp)
  ultimately have d: "fsub (Fin (of_int cum)) (fdivc (fl (of_int c)) 2) = Fin (of_int (2 * cum - c) / 2)"
    by (simp only: c h fdivc.simps fsub_def fneg.simps fadd.simps)
  have "fl (of_int (2500 * (2 * cum - c))) = Fin (of_int (2500 * (2 * cum - c)))"
    by (rule fl_int) (use assms in simp)
  moreover have "of_int (2 * cum - c) / 2 * of_int SAMPLE_PERIOD_PS = (of_int (2500 * (2 * cum - c)) :: rat)"
    by (simp add: SAMPLE_PERIOD_PS_def)
  ultimately show ?thesis by (simp only: d fscale.simps np_div_exact [OF assms(4,5)])
qed

lemma take_Suc_bounds:
  assumes "\<forall>c \<in> set cs. (0 :: int) \<le> c" "i < length cs"
  shows "0 \<le> cs ! i" "cs ! i \<le> sum_list (take (Suc i) cs)" "sum_list (take (Suc i) cs) \<le> sum_list cs"
proof -
  show "0 \<le> cs ! i" using assms by simp
  have "0 \<le> sum_list (take i cs)" using assms(1) by (intro sum_list_nonneg) (auto dest: in_set_takeD)
  then show "cs ! i \<le> sum_list (take (Suc i) cs)" using assms(2) by (simp add: take_Suc_conv_app_nth)
  have "0 \<le> sum_list (drop (Suc i) cs)" using assms(1) by (intro sum_list_nonneg) (auto dest: in_set_dropD)
  then show "sum_list (take (Suc i) cs) \<le> sum_list cs"
    by (metis append_take_drop_id sum_list_append le_add_same_cancel1)
qed

lemma bin_centers_exact:
  assumes "\<forall>c \<in> set cs. 0 \<le> c" "0 < sum_list cs" "sum_list cs < 2 ^ 39"
  shows "bin_centers cs (sum_list cs) = map (\<lambda>i. fl (bin_center cs i)) [0..<length cs]"
proof -
  have cum: "np_cumsum (Fin 0) (map (\<lambda>c. fl (of_int c)) cs) =
      map (\<lambda>i. Fin (of_int (sum_list (take (Suc i) cs)))) [0..<length cs]"
    using np_cumsum_exact [of 0 cs] assms by simp
  show ?thesis
  proof (rule nth_equalityI)
    fix i assume "i < length (bin_centers cs (sum_list cs))"
    then have i: "i < length cs" by (simp add: bin_centers_def cum)
    note b = take_Suc_bounds [OF assms(1) i]
    show "bin_centers cs (sum_list cs) ! i = map (\<lambda>i. fl (bin_center cs i)) [0..<length cs] ! i"
      using center_exact [OF b assms(2,3)] i
      by (simp add: bin_centers_def cum bin_center_def)
  qed (simp add: bin_centers_def cum)
qed

text \<open>One entry of the table: two roundings to float and one to an integer.\<close>

definition table_entry :: "rat \<Rightarrow> int" where
  "table_entry x = rint_int64 (fdivc (fl x) 10)"

lemma table_entry_rounds:
  assumes "of_int a \<le> x" "x \<le> of_int b" "0 \<le> a" "b \<le> 5000"
  obtains r q where "fl x = Fin r" "of_int a \<le> r" "r \<le> of_int b" "fl (r / 10) = Fin q"
    "0 \<le> q" "q \<le> 500" "table_entry x = round_half_even q"
    "r - 1 / 2 ^ 40 \<le> x" "x \<le> r + 1 / 2 ^ 40" "q - 1 / 2 ^ 44 \<le> r / 10" "r / 10 \<le> q + 1 / 2 ^ 44"
proof -
  have lo: "0 \<le> x" and hi: "x \<le> 5000"
    using assms by (metis of_int_0_le_iff order_trans) (metis assms(2,4) of_int_le_iff of_int_numeral order_trans)
  obtain r where r: "fl x = Fin r" "of_int a \<le> r" "r \<le> of_int b"
    by (rule fl_bounds [OF assms(1,2)]) (use assms(3,4) in simp_all)
  obtain r' where r': "fl x = Fin r'" "x - 2 ^ 13 / 2 ^ 53 \<le> r'" "r' \<le> x + 2 ^ 13 / 2 ^ 53"
    by (rule fl_error [of x 13]) (use lo hi in simp_all)
  have rr: "r' = r" using r(1) r'(1) by simp
  have r0: "0 \<le> r" "r \<le> 5000"
    using r(2,3) assms(3,4) by (metis of_int_0_le_iff order_trans) (metis r(3) assms(4) of_int_le_iff of_int_numeral order_trans)
  obtain q where q: "fl (r / 10) = Fin q" "of_int 0 \<le> q" "q \<le> of_int 500"
    by (rule fl_bounds [of 0 "r / 10" 500]) (use r0 in simp_all)
  obtain q' where q': "fl (r / 10) = Fin q'" "r / 10 - 2 ^ 9 / 2 ^ 53 \<le> q'" "q' \<le> r / 10 + 2 ^ 9 / 2 ^ 53"
    by (rule fl_error [of "r / 10" 9]) (use r0 in simp_all)
  have qq: "q' = q" using q(1) q'(1) by simp
  have "0 \<le> round_half_even q" "round_half_even q \<le> 500"
    using round_half_even_ge [OF q(2)] round_half_even_le [OF q(3)] .
  then have t: "table_entry x = round_half_even q"
    by (simp add: table_entry_def r(1) q(1) Let_def)
  show thesis
    by (rule that [OF r q(1) _ _ t]) (use q r' q' in \<open>simp_all add: rr qq\<close>)
qed

lemma table_entry_near:
  assumes "0 \<le> x" "x \<le> 5000"
  shows "\<bar>of_int (10 * table_entry x) - x\<bar> \<le> 5 + 1 / 2 ^ 39"
proof -
  obtain r q where rq: "table_entry x = round_half_even q" "r - 1 / 2 ^ 40 \<le> x" "x \<le> r + 1 / 2 ^ 40"
    "q - 1 / 2 ^ 44 \<le> r / 10" "r / 10 \<le> q + 1 / 2 ^ 44"
    by (rule table_entry_rounds [of 0 x 5000]) (use assms in simp_all)
  have "\<bar>of_int (round_half_even q) - q\<bar> \<le> 1 / 2" by (rule round_half_even_error)
  then have "of_int (round_half_even q) \<le> q + 1 / 2" "q - 1 / 2 \<le> of_int (round_half_even q)" by linarith+
  then have "10 * of_int (round_half_even q) - x \<le> 5 + 1 / 2 ^ 39" "- (10 * of_int (round_half_even q) - x) \<le> 5 + 1 / 2 ^ 39"
    using rq(2-5) by simp_all
  then show ?thesis unfolding rq(1) by (simp only: abs_le_iff of_int_mult of_int_numeral simp_thms)
qed

lemma table_entry_mono:
  assumes "0 \<le> x" "x \<le> y" "y \<le> 5000"
  shows "table_entry x \<le> table_entry y"
proof -
  obtain r q where a: "fl x = Fin r" "of_int 0 \<le> r" "fl (r / 10) = Fin q" "table_entry x = round_half_even q"
    by (rule table_entry_rounds [of 0 x 5000]) (use assms in simp_all)
  obtain r' q' where b: "fl y = Fin r'" "fl (r' / 10) = Fin q'" "table_entry y = round_half_even q'"
    by (rule table_entry_rounds [of 0 y 5000]) (use assms in simp_all)
  have "r \<le> r'" by (rule fl_mono [OF assms(1,2) a(1) b(1)])
  then have "r / 10 \<le> r' / 10" by (simp add: divide_right_mono)
  then have "q \<le> q'" by (rule fl_mono [OF _ _ a(3) b(2), rotated]) (use a(2) in simp)
  then show ?thesis unfolding a(4) b(3) by (rule round_half_even_mono)
qed

lemma table_entry_bounds:
  assumes "of_int (10 * a) \<le> x" "x \<le> of_int (10 * b)" "0 \<le> a" "b \<le> 500"
  shows "a \<le> table_entry x" "table_entry x \<le> b"
proof -
  obtain r q where a: "of_int (10 * a) \<le> r" "r \<le> of_int (10 * b)" "fl (r / 10) = Fin q" "table_entry x = round_half_even q"
    by (rule table_entry_rounds [OF assms(1,2)]) (use assms(3,4) in simp_all)
  obtain q' where q': "fl (r / 10) = Fin q'" "of_int a \<le> q'" "q' \<le> of_int b"
    by (rule fl_bounds [of a "r / 10" b]) (use a(1,2) assms in simp_all)
  have "q' = q" using a(3) q'(1) by simp
  then show "a \<le> table_entry x" "table_entry x \<le> b"
    unfolding a(4) using q' by (auto intro: round_half_even_ge round_half_even_le)
qed

lemma validate_table_PyInt:
  assumes "length t = 2048" "\<forall>v \<in> set t. 0 \<le> v \<and> v \<le> 600" "sorted t" "400 \<le> t ! 2047 - t ! 0"
  shows "validate_table (map PyInt t) = Inr t"
proof -
  have ne: "t \<noteq> []" using assms(1) by auto
  have m: "\<not> (\<exists>(left, right) \<in> set (zip t (tl t)). right < left)"
  proof
    assume "\<exists>(left, right) \<in> set (zip t (tl t)). right < left"
    then obtain i where "Suc i < length t" "t ! Suc i < t ! i"
      by (auto simp: in_set_zip nth_tl less_diff_conv)
    then show False using sorted_nth_mono [OF assms(3), of i "Suc i"] by simp
  qed
  have "last t = t ! 2047" "hd t = t ! 0" using ne assms(1) by (simp_all add: last_conv_nth hd_conv_nth)
  then show ?thesis
    using assms(1,2,4) m by (auto simp: validate_table_def TAPS_def guard_raise_def not_less)
qed

lemma np_max_Fin: "xs \<noteq> [] \<Longrightarrow> np_max (map Fin xs) = Fin (Max (set xs))"
proof (induction "map Fin xs" arbitrary: xs rule: np_max.induct)
  case (2 x)
  then show ?case by auto
next
  case (3 x y ys)
  from "3.hyps"(2) obtain a b zs where xs: "xs = a # b # zs" "x = Fin a" "y = Fin b" "ys = map Fin zs" by auto
  have m: "np_max2 (Fin a) (Fin b) = Fin (max a b)" by (simp add: np_max2_def max_def)
  have "np_max (map Fin (max a b # zs)) = Fin (Max (set (max a b # zs)))"
    by (rule "3.hyps"(1)) (simp_all add: xs m)
  moreover have "Max (set (max a b # zs)) = Max (set (a # b # zs))"
    by (cases "zs = []") (simp_all add: max.assoc)
  ultimately show ?case by (simp add: xs m)
qed simp

lemma width_limit:
  assumes "0 \<le> c" "c \<le> s" "0 < s" "s < 2 ^ 39"
  obtains w where "fl (of_int (5000 * c) / of_int s) = Fin w" "100 < w \<longleftrightarrow> s < 50 * c"
proof -
  let ?x = "of_int (5000 * c) / of_int s :: rat"
  have s: "(0 :: rat) < of_int s" using assms(3) by simp
  have x0: "of_int 0 \<le> ?x" using assms(1) s by simp
  have "of_int (5000 * c) \<le> (of_int (5000 * s) :: rat)" using assms(2) unfolding of_int_le_iff by simp
  then have x1: "?x \<le> 5000" using s by (simp add: divide_le_eq)
  obtain w where w: "fl ?x = Fin w" "?x - 2 ^ 13 / 2 ^ 53 \<le> w"
    by (rule fl_error [of ?x 13]) (use x0 x1 in simp_all)
  show thesis
  proof (cases "s < 50 * c")
    case True
    then have "of_int (100 * s + 100) \<le> (of_int (5000 * c) :: rat)" unfolding of_int_le_iff by simp
    then have "of_int (100 * s + 100) / of_int s \<le> ?x" by (rule divide_right_mono) (use s in simp)
    moreover have "of_int (100 * s + 100) / of_int s = (100 + 100 / of_int s :: rat)"
      using s by (simp add: add_divide_distrib)
    moreover have "100 / 2 ^ 39 \<le> (100 / of_int s :: rat)"
    proof (rule divide_left_mono)
      have "(of_int s :: rat) \<le> of_int (2 ^ 39)" using assms(4) by (simp only: of_int_le_iff)
      then show "(of_int s :: rat) \<le> 2 ^ 39" by simp
    qed (use s in simp_all)
    moreover have "(2 :: rat) ^ 13 / 2 ^ 53 < 100 / 2 ^ 39" by simp
    ultimately have "100 < w" using w(2) by linarith
    then show thesis using that [OF w(1)] True by simp
  next
    case False
    then have "of_int (5000 * c) \<le> (of_int (100 * s) :: rat)" unfolding of_int_le_iff by simp
    then have "?x \<le> of_int 100" using s by (simp add: divide_le_eq)
    obtain w' where "fl ?x = Fin w'" "w' \<le> of_int 100"
      by (rule fl_bounds [OF x0 \<open>?x \<le> of_int 100\<close>]) simp_all
    then show thesis using that [OF w(1)] False w(1) by simp
  qed
qed

lemma largest_width:
  assumes "\<forall>c \<in> set cs. 0 \<le> c" "0 < sum_list cs" "sum_list cs < 2 ^ 39" "cs \<noteq> []"
  shows "flt (Fin 100) (np_max (bin_widths cs (sum_list cs))) \<longleftrightarrow> (\<exists>c \<in> set cs. sum_list cs < 50 * c)"
proof -
  let ?s = "sum_list cs"
  define w where "w c = (case fl (of_int (5000 * c) / of_int ?s) of Fin w \<Rightarrow> w | _ \<Rightarrow> 0)" for c
  have le: "0 \<le> c \<and> c \<le> ?s" if "c \<in> set cs" for c
    using assms(1) that by (simp add: member_le_sum_list)
  have w: "fl (of_int (5000 * c) / of_int ?s) = Fin (w c) \<and> (100 < w c \<longleftrightarrow> ?s < 50 * c)" if "c \<in> set cs" for c
  proof -
    note c = le [OF that]
    obtain v where "fl (of_int (5000 * c) / of_int ?s) = Fin v" "100 < v \<longleftrightarrow> ?s < 50 * c"
      by (rule width_limit [of c ?s]) (use c assms(2,3) in simp_all)
    then show ?thesis by (simp only: w_def pyfloat.case simp_thms)
  qed
  have "bin_widths cs ?s = map Fin (map w cs)"
    unfolding bin_widths_def map_map using width_exact [OF _ _ assms(2,3)] le w by (intro map_cong) simp_all
  then have "np_max (bin_widths cs ?s) = Fin (Max (w ` set cs))" using np_max_Fin [of "map w cs"] assms(4) by simp
  moreover have "100 < Max (w ` set cs) \<longleftrightarrow> (\<exists>c \<in> set cs. 100 < w c)"
    using assms(4) by (subst Max_gr_iff) auto
  moreover have "(\<exists>c \<in> set cs. 100 < w c) \<longleftrightarrow> (\<exists>c \<in> set cs. ?s < 50 * c)" using w by (meson bexE bexI)
  moreover have "flt (Fin 100) (Fin m) \<longleftrightarrow> 100 < m" for m by (auto simp: flt_def)
  ultimately show ?thesis by simp
qed

lemma bin_center_mono:
  assumes "\<forall>c \<in> set cs. 0 \<le> c" "0 < sum_list cs" "Suc i < length cs"
  shows "bin_center cs i \<le> bin_center cs (Suc i)"
proof -
  have "2 * sum_list (take (Suc i) cs) - cs ! i \<le> 2 * sum_list (take (Suc (Suc i)) cs) - cs ! Suc i"
    using take_Suc_bounds(1) [OF assms(1), of i] take_Suc_bounds(1) [OF assms(1,3)] assms(3)
    by (simp add: take_Suc_conv_app_nth [of "Suc i"])
  then have "of_int (2500 * (2 * sum_list (take (Suc i) cs) - cs ! i)) \<le>
      (of_int (2500 * (2 * sum_list (take (Suc (Suc i)) cs) - cs ! Suc i)) :: rat)"
    unfolding of_int_le_iff by simp
  then show ?thesis unfolding bin_center_def by (rule divide_right_mono) (use assms(2) in simp)
qed

lemma bin_center_bounds:
  assumes "\<forall>c \<in> set cs. 0 \<le> c" "0 < sum_list cs" "i < length cs"
  shows "0 \<le> bin_center cs i" "bin_center cs i \<le> 5000"
proof -
  note b = take_Suc_bounds [OF assms(1,3)]
  have s: "(0 :: rat) < of_int (sum_list cs)" using assms(2) by simp
  have "0 \<le> (of_int (2500 * (2 * sum_list (take (Suc i) cs) - cs ! i)) :: rat)" using b unfolding of_int_0_le_iff by simp
  then show "0 \<le> bin_center cs i" unfolding bin_center_def using s by (simp only: divide_nonneg_pos)
  have "of_int (2500 * (2 * sum_list (take (Suc i) cs) - cs ! i)) \<le> (of_int (5000 * sum_list cs) :: rat)"
    using b unfolding of_int_le_iff by simp
  then show "bin_center cs i \<le> 5000" unfolding bin_center_def using s by (simp add: divide_le_eq)
qed

text \<open>The first and the last centre when no bin is wider than 100 ps.\<close>

lemma bin_center_ends:
  assumes "\<forall>c \<in> set cs. 0 \<le> c \<and> 50 * c \<le> sum_list cs" "0 < sum_list cs" "length cs = Suc n"
  shows "bin_center cs 0 \<le> 50" "4950 \<le> bin_center cs n"
proof -
  have s: "(0 :: rat) < of_int (sum_list cs)" using assms(2) by simp
  have c: "50 * (cs ! 0) \<le> sum_list cs" "50 * (cs ! n) \<le> sum_list cs" using assms(1,3) by simp_all
  have "take (Suc 0) cs = [cs ! 0]" using assms(3) by (cases cs) simp_all
  then have "of_int (2500 * (2 * sum_list (take (Suc 0) cs) - cs ! 0)) \<le> (of_int (50 * sum_list cs) :: rat)"
    using c unfolding of_int_le_iff by simp
  then show "bin_center cs 0 \<le> 50" unfolding bin_center_def using s by (simp add: divide_le_eq)
  have "of_int (4950 * sum_list cs) \<le> (of_int (2500 * (2 * sum_list (take (Suc n) cs) - cs ! n)) :: rat)"
    using c assms(3) unfolding of_int_le_iff by simp
  then show "4950 \<le> bin_center cs n" unfolding bin_center_def using s by (simp add: le_divide_eq)
qed

definition calibration_table :: "int list \<Rightarrow> int list" where
  "calibration_table cs = map (\<lambda>i. table_entry (bin_center cs i)) [0..<length cs]"

lemma calibration_table_valid:
  assumes "\<forall>c \<in> set cs. 0 \<le> c \<and> 50 * c \<le> sum_list cs" "0 < sum_list cs" "length cs = 2048"
  shows "validate_table (map PyInt (calibration_table cs)) = Inr (calibration_table cs)"
    and "sorted (calibration_table cs)" and "\<forall>v \<in> set (calibration_table cs). 0 \<le> v \<and> v \<le> 500"
proof -
  have nn: "\<forall>c \<in> set cs. 0 \<le> c" using assms(1) by simp
  note b = bin_center_bounds [OF nn assms(2)]
  have len: "length (calibration_table cs) = 2048" by (simp add: calibration_table_def assms(3))
  have entry: "calibration_table cs ! i = table_entry (bin_center cs i)" if "i < 2048" for i
    using that by (simp add: calibration_table_def assms(3))
  have range: "0 \<le> table_entry (bin_center cs i) \<and> table_entry (bin_center cs i) \<le> 500" if "i < 2048" for i
    using table_entry_bounds [of 0 "bin_center cs i" 500] b [of i] that assms(3) by simp
  show r: "\<forall>v \<in> set (calibration_table cs). 0 \<le> v \<and> v \<le> 500"
    unfolding calibration_table_def assms(3) using range by auto
  show s: "sorted (calibration_table cs)"
    unfolding sorted_iff_nth_Suc len
  proof (intro allI impI)
    fix i :: nat assume i: "Suc i < 2048"
    then have "table_entry (bin_center cs i) \<le> table_entry (bin_center cs (Suc i))"
      by (intro table_entry_mono b bin_center_mono nn assms(2)) (simp_all add: assms(3))
    then show "calibration_table cs ! i \<le> calibration_table cs ! Suc i" using i by (simp add: entry)
  qed
  note ends = bin_center_ends [OF assms(1,2), of 2047]
  have "table_entry (bin_center cs 0) \<le> 5"
    by (rule table_entry_bounds(2) [of 0]) (use ends(1) b [of 0] assms(3) in simp_all)
  moreover have "495 \<le> table_entry (bin_center cs 2047)"
    by (rule table_entry_bounds(1) [of 495 _ 500]) (use ends(2) b [of 2047] assms(3) in simp_all)
  ultimately have "400 \<le> calibration_table cs ! 2047 - calibration_table cs ! 0"
    by (simp add: entry)
  then show "validate_table (map PyInt (calibration_table cs)) = Inr (calibration_table cs)"
    using r by (intro validate_table_PyInt len s) fastforce+
qed

text \<open>
  C14. For histograms of fewer than 2^39 samples, the code-density calibration in float64 accepts
  exactly the histograms with 2048 bins, enough samples, 64 occupied bins and no bin above 100 ps; every
  other histogram is a ValueError. An accepted one never fails the validation of the table built from
  it: the table is monotonic, lies within 0..500, and every entry is within half a unit (5 ps, up to
  the error of the floats) of the exact centre of its bin.
\<close>

theorem calibration_from_histogram_exact:
  assumes "\<forall>c \<in> set cs. 0 \<le> c" "sum_list cs < 2 ^ 39"
  shows "case calibration_from_histogram (map PyInt cs) minimum of
      Inl e \<Rightarrow> e = ValueError \<and> \<not> good_histogram cs minimum
    | Inr cal \<Rightarrow> good_histogram cs minimum \<and> cal_samples cal = sum_list cs \<and> cal_histogram cal = cs \<and>
        validate_table (map PyInt (cal_table cal)) = Inr (cal_table cal) \<and>
        sorted (cal_table cal) \<and> length (cal_table cal) = 2048 \<and>
        (\<forall>i < 2048. 0 \<le> cal_table cal ! i \<and> cal_table cal ! i \<le> 500 \<and>
           \<bar>of_int (10 * cal_table cal ! i) - bin_center cs i\<bar> \<le> 5 + 1 / 2 ^ 39)"
proof -
  let ?s = "sum_list cs"
  have le: "c \<le> ?s" if "c \<in> set cs" for c using assms(1) that by (simp add: member_le_sum_list)
  have i64: "emap as_int64 cs = Inr cs" by (rule emap_as_int64) (use assms le in fastforce)
  have sum: "np_sum cs = ?s" by (rule np_sum_exact [OF assms])
  have nonneg: "\<not> (\<exists>c \<in> set cs. c < 0)" using assms(1) by force
  show ?thesis
  proof (cases "length cs = 2048 \<and> minimum \<le> ?s \<and> 64 \<le> length (filter (\<lambda>c. c \<noteq> 0) cs)")
    case False
    then have "calibration_from_histogram (map PyInt cs) minimum = Inl ValueError"
      by (auto simp: calibration_from_histogram_def TAPS_def guard_raise_def i64 nonneg sum Let_def)
    then show ?thesis using False by (auto simp: good_histogram_def)
  next
    case True
    then have "filter (\<lambda>c. c \<noteq> 0) cs \<noteq> []" by auto
    then obtain c where c: "c \<in> set cs" "c \<noteq> 0" by (auto simp: filter_empty_conv)
    then have pos: "0 < ?s" using le [OF c(1)] assms(1) by force
    have ne: "cs \<noteq> []" using c(1) by auto
    have table: "map (\<lambda>center. PyInt (rint_int64 (fdivc center 10))) (bin_centers cs ?s) = map PyInt (calibration_table cs)"
      by (simp add: bin_centers_exact [OF assms(1) pos assms(2)] calibration_table_def table_entry_def)
    have eq: "calibration_from_histogram (map PyInt cs) minimum =
        (if \<exists>c \<in> set cs. ?s < 50 * c then Inl ValueError
         else ebind (validate_table (map PyInt (calibration_table cs))) (\<lambda>table.
           Inr \<lparr>cal_samples = ?s, cal_occupied_bins = length (filter (\<lambda>c. c \<noteq> 0) cs),
             cal_largest_bin_ps = np_max (bin_widths cs ?s), cal_table = table, cal_histogram = cs\<rparr>))"
      unfolding calibration_from_histogram_def emap_index_PyInt ebind_Inr i64 Let_def sum table
        largest_width [OF assms(1) pos assms(2) ne]
      using True nonneg by (simp add: guard_raise_def TAPS_def)
    show ?thesis
    proof (cases "\<exists>c \<in> set cs. ?s < 50 * c")
      case bad: True
      then have "\<not> good_histogram cs minimum" by (force simp: good_histogram_def not_le)
      then show ?thesis unfolding eq if_P [OF bad] by simp
    next
      case False
      then have ok: "\<forall>c \<in> set cs. 0 \<le> c \<and> 50 * c \<le> ?s" using assms(1) by force
      note v = calibration_table_valid [OF ok pos conjunct1 [OF True]]
      have near: "\<bar>of_int (10 * calibration_table cs ! i) - bin_center cs i\<bar> \<le> 5 + 1 / 2 ^ 39" if "i < 2048" for i
        using table_entry_near [OF bin_center_bounds [OF assms(1) pos, of i]] that True
        by (simp add: calibration_table_def)
      have len: "length (calibration_table cs) = 2048" using True by (simp add: calibration_table_def)
      have r: "0 \<le> calibration_table cs ! i \<and> calibration_table cs ! i \<le> 500" if "i < 2048" for i
        using v(3) that len by (metis nth_mem)
      have "good_histogram cs minimum" using True ok by (simp add: good_histogram_def)
      then show ?thesis
        unfolding eq if_not_P [OF False] v(1) ebind_Inr sum.case calibration.select_convs
        using v len near r by blast
    qed
  qed
qed

lemma calibration_from_histogram_exact_witness:
  "case calibration_from_histogram (map PyInt (replicate 2048 128)) default_minimum_samples of
     Inl e \<Rightarrow> False
   | Inr cal \<Rightarrow> cal_samples cal = 262144 \<and> \<bar>of_int (10 * cal_table cal ! 1) - (1875 / 512 :: rat)\<bar> \<le> 6"
proof -
  let ?cs = "replicate 2048 (128 :: int)"
  have s: "sum_list ?cs = 262144" by (simp add: sum_list_replicate)
  have good: "good_histogram ?cs default_minimum_samples"
    by (simp add: good_histogram_def s default_minimum_samples_def)
  have center: "bin_center ?cs 1 = 1875 / 512"
    by (simp add: bin_center_def s numeral_eq_Suc)
  have nn: "\<forall>c \<in> set ?cs. 0 \<le> c" and small: "sum_list ?cs < 2 ^ 39" by (simp_all only: s) simp_all
  show ?thesis
  proof (cases "calibration_from_histogram (map PyInt ?cs) default_minimum_samples")
    case (Inl e)
    then show ?thesis using calibration_from_histogram_exact [OF nn small, of default_minimum_samples] good
      unfolding Inl by simp
  next
    case (Inr cal)
    have near: "\<forall>i < 2048. 0 \<le> cal_table cal ! i \<and> cal_table cal ! i \<le> 500 \<and>
        \<bar>of_int (10 * cal_table cal ! i) - bin_center ?cs i\<bar> \<le> 5 + 1 / 2 ^ 39" and samples: "cal_samples cal = 262144"
      using calibration_from_histogram_exact [OF nn small, of default_minimum_samples]
      unfolding Inr sum.case s by blast+
    have "\<bar>of_int (10 * cal_table cal ! 1) - bin_center ?cs 1\<bar> \<le> 5 + 1 / 2 ^ 39" using near by simp
    then show ?thesis using samples unfolding Inr sum.case center by simp
  qed
qed

section \<open>The board object\<close>

record 's tdc_board =
  tb_read :: "int \<Rightarrow> ('s, int) prog"
  tb_write :: "int \<Rightarrow> int \<Rightarrow> ('s, unit) prog"
  tb_abort :: "('s, unit) prog"
  tb_status_uid :: "('s, string) prog"
  tb_sleep :: "pyfloat \<Rightarrow> ('s, unit) prog"
  tb_clock :: "'s \<Rightarrow> rat list"
  tb_set_clock :: "rat list \<Rightarrow> 's \<Rightarrow> 's"

text \<open>The driver's object; sleeping changes nothing, the clock tells the time.\<close>

definition device_board :: "device tdc_board" where
  "device_board =
     \<lparr>tb_read = (\<lambda>a. read_tdc_register (PyInt a)),
      tb_write = (\<lambda>a v. pbind (write_tdc_register (PyInt a) (PyInt v)) (\<lambda>_. pret ())),
      tb_abort = pbind (device_abort (PyInt 0)) (\<lambda>_. pret ()),
      tb_status_uid = pbind (device_status_op True) (\<lambda>s. pret (cp_device_uid (ds_capabilities s))),
      tb_sleep = (\<lambda>_. pret ()),
      tb_clock = dv_clock, tb_set_clock = (\<lambda>c d. d\<lparr>dv_clock := c\<rparr>)\<rparr>"

definition check_identity :: "'s tdc_board \<Rightarrow> ('s, unit) prog" where
  "check_identity b = pbind (tb_read b 0) (\<lambda>v. praise_if (v \<noteq> IDENTITY) RuntimeError)"

definition tdc_read_diagnostics :: "'s tdc_board \<Rightarrow> ('s, (string \<times> int) list) prog" where
  "tdc_read_diagnostics b = pmap (\<lambda>(name, address). pbind (tb_read b address) (\<lambda>v. pret (name, v))) REGISTERS"

section \<open>Polling\<close>

text \<open>
  Each reading of the clock is a round of a loop, and an exhausted clock is past every deadline.
\<close>

fun idle_poll :: "'s tdc_board \<Rightarrow> rat \<Rightarrow> rat list \<Rightarrow> ('s, unit) prog" where
  "idle_poll b deadline [] = praise TimeoutError"
| "idle_poll b deadline (now # later) =
     pthen (pmodify (tb_set_clock b later)) (
     if now < deadline then
       pbind (tb_read b STATUS) (\<lambda>v.
       if v AND 0x20 = 0 then pret ()
       else pthen (tb_sleep b (fl (1 / 100))) (idle_poll b deadline later))
     else praise TimeoutError)"

definition wait_idle :: "'s tdc_board \<Rightarrow> ('s, unit) prog" where
  "wait_idle b =
     pbind (pgets (tb_clock b)) (\<lambda>clock.
     case clock of [] \<Rightarrow> praise TimeoutError | now # later \<Rightarrow> idle_poll b (now + 5) later)"

fun clear_poll :: "'s tdc_board \<Rightarrow> rat \<Rightarrow> rat list \<Rightarrow> ('s, unit) prog" where
  "clear_poll b deadline [] =
     pbind (tb_read b STATUS) (\<lambda>v. if v AND 0x10 = 0 then pret () else praise TimeoutError)"
| "clear_poll b deadline (now # later) =
     pbind (tb_read b STATUS) (\<lambda>v.
     if v AND 0x10 = 0 then pret ()
     else pthen (pmodify (tb_set_clock b later)) (
       if deadline < now then praise TimeoutError
       else pthen (tb_sleep b (fl (1 / 100))) (clear_poll b deadline later)))"

definition clear_statistics :: "'s tdc_board \<Rightarrow> ('s, unit) prog" where
  "clear_statistics b =
     pthen (wait_idle b) (
     pthen (tb_write b COMMAND 1) (
     pbind (pgets (tb_clock b)) (\<lambda>clock.
     case clock of
       [] \<Rightarrow> clear_poll b 0 []
     | now # later \<Rightarrow> pthen (pmodify (tb_set_clock b later)) (clear_poll b (now + 2) later))))"

section \<open>Collecting\<close>

record collected = calibration +
  cal_diagnostics :: "(string \<times> int) list"
  cal_device_uid :: string

definition diagnostic :: "(string \<times> int) list \<Rightarrow> string \<Rightarrow> int" where
  "diagnostic d name = (case map_of d name of Some v \<Rightarrow> v | None \<Rightarrow> 0)"

definition collect_calibration :: "'s tdc_board \<Rightarrow> pyfloat \<Rightarrow> ('s, collected) prog" where
  "collect_calibration b seconds =
     pthen (praise_if (flt seconds (Fin 1) \<or> \<not> isfinite seconds) ValueError) (
     pthen (check_identity b) (
     pthen (tb_abort b) (
     pthen (wait_idle b) (
     pthen (tb_write b CONTROL 0) (
     pthen (clear_statistics b) (
     pthen (tb_write b CONTROL 2) (
     pthen (pfinally (tb_sleep b seconds) (tb_write b CONTROL 0)) (
     pthen (tb_sleep b (fl (1 / 1000))) (
     pbind (tdc_read_diagnostics b) (\<lambda>d.
     pthen (praise_if (diagnostic d ''overflow'' \<noteq> 0) RuntimeError) (
     pthen (praise_if (diagnostic d ''invalid'' > max 10 (diagnostic d ''measured'' div 100)) RuntimeError) (
     pbind (pmap (\<lambda>index. tb_read b (HISTOGRAM_BASE + 4 * int index)) [0..<TAPS]) (\<lambda>histogram.
     pbind (plift (calibration_from_histogram (map PyInt histogram) default_minimum_samples)) (\<lambda>cal.
     pbind (tb_status_uid b) (\<lambda>uid.
     pret (calibration.extend cal \<lparr>cal_diagnostics = d, cal_device_uid = uid\<rparr>))))))))))))))))"

section \<open>Loading\<close>

text \<open>What a calibration file gives: the keys that are read, each possibly missing.\<close>

record stored_calibration =
  st_identity :: "int option"
  st_units :: "string option"
  st_table :: "pyval list option"
  st_uid :: "string option"

definition lut_entries :: "int list \<Rightarrow> (int \<times> int) list" where
  "lut_entries table = map (\<lambda>i. (LUT_BASE + 4 * int i, table ! i)) [0..<length table]"

definition stored_table :: "stored_calibration \<Rightarrow> int list result" where
  "stored_table cal =
     guard_raise (st_identity cal \<noteq> Some IDENTITY \<or> st_units cal \<noteq> Some ''10 ps'') ValueError
       (case st_table cal of None \<Rightarrow> Inl KeyError | Some t \<Rightarrow> validate_table t)"

text \<open>Writing the table with the compensation off, reading it back and committing it.\<close>

definition load_table :: "'s tdc_board \<Rightarrow> int list \<Rightarrow> ('s, unit) prog" where
  "load_table b table =
     pthen (tb_write b CONTROL 0) (
     pthen (pfor (lut_entries table) (\<lambda>(address, v). tb_write b address v)) (
     pthen (pfor (lut_entries table) (\<lambda>(address, v).
              pbind (tb_read b address) (\<lambda>got. praise_if (got \<noteq> v) RuntimeError))) (
     pthen (tb_write b COMMAND 2) (
     pbind (tb_read b STATUS) (\<lambda>v. praise_if (v AND 2 = 0) RuntimeError)))))"

definition load_calibration :: "'s tdc_board \<Rightarrow> stored_calibration \<Rightarrow> ('s, unit) prog" where
  "load_calibration b cal =
     pthen (check_identity b) (
     pbind (plift (stored_table cal)) (\<lambda>table.
     pbind (tb_status_uid b) (\<lambda>actual_uid.
     pthen (praise_if (st_uid cal \<notin> {None, Some [], Some actual_uid}) ValueError) (
     pthen (wait_idle b) (load_table b table)))))"

definition enable_compensation :: "'s tdc_board \<Rightarrow> bool \<Rightarrow> pyval \<Rightarrow> ('s, unit) prog" where
  "enable_compensation b carrier_phase offset_ps =
     pbind (plift (operator_index offset_ps)) (\<lambda>offset.
     pthen (praise_if (offset mod 10 \<noteq> 0 \<or> \<not> (- 19990 \<le> offset \<and> offset \<le> 19990)) ValueError) (
     pthen (wait_idle b) (
     pthen (tb_write b OFFSET ((offset div 10) AND 0xFFFFFFFF)) (
     pthen (tb_write b CONTROL (if carrier_phase then 5 else 1)) (
     pbind (tb_read b STATUS) (\<lambda>v. praise_if (v AND 4 = 0) RuntimeError))))))"

section \<open>The log of a run\<close>

datatype tdc_event = EvRead int "int result" | EvWrite int int "unit result" | EvAbort "unit result" | EvUid "string result"

definition log_with :: "('s, 'a) prog \<Rightarrow> ('a result \<Rightarrow> tdc_event) \<Rightarrow> ('s \<times> tdc_event list, 'a) prog" where
  "log_with m ev = (\<lambda>(s, l). case m s of (r, s') \<Rightarrow> (r, s', l @ [ev r]))"

definition unlogged :: "('s, 'a) prog \<Rightarrow> ('s \<times> tdc_event list, 'a) prog" where
  "unlogged m = (\<lambda>(s, l). case m s of (r, s') \<Rightarrow> (r, s', l))"

definition logged :: "'s tdc_board \<Rightarrow> ('s \<times> tdc_event list) tdc_board" where
  "logged b =
     \<lparr>tb_read = (\<lambda>a. log_with (tb_read b a) (EvRead a)),
      tb_write = (\<lambda>a v. log_with (tb_write b a v) (EvWrite a v)),
      tb_abort = log_with (tb_abort b) EvAbort,
      tb_status_uid = log_with (tb_status_uid b) EvUid,
      tb_sleep = (\<lambda>t. unlogged (tb_sleep b t)),
      tb_clock = (\<lambda>(s, l). tb_clock b s), tb_set_clock = (\<lambda>c (s, l). (tb_set_clock b c s, l))\<rparr>"

text \<open>A logged run is the run itself.\<close>

definition erases :: "('s \<times> tdc_event list, 'a) prog \<Rightarrow> ('s, 'a) prog \<Rightarrow> bool" where
  "erases m' m \<longleftrightarrow> (\<forall>s l. fst (m' (s, l)) = fst (m s) \<and> fst (snd (m' (s, l))) = snd (m s))"

named_theorems erases_rules

lemma erases_basic [erases_rules]:
  "erases (pret x) (pret x)" "erases (praise e) (praise e)" "erases (plift r) (plift r)"
  "erases (praise_if c e) (praise_if c e)"
  "erases (log_with m ev) m" "erases (unlogged m) m"
  by (simp_all add: erases_def plift_def praise_if_def log_with_def unlogged_def split: prod.split)

lemma erases_clock [erases_rules]:
  "erases (pgets (tb_clock (logged b))) (pgets (tb_clock b))"
  "erases (pmodify (tb_set_clock (logged b) c)) (pmodify (tb_set_clock b c))"
  by (simp_all add: erases_def logged_def)

lemma erases_board [erases_rules]:
  "erases (tb_read (logged b) a) (tb_read b a)" "erases (tb_write (logged b) a v) (tb_write b a v)"
  "erases (tb_abort (logged b)) (tb_abort b)" "erases (tb_status_uid (logged b)) (tb_status_uid b)"
  "erases (tb_sleep (logged b) t) (tb_sleep b t)"
  by (simp_all add: logged_def erases_basic)

lemma erases_pbind [erases_rules]:
  assumes "erases m' m" "\<And>x. erases (f' x) (f x)"
  shows "erases (pbind m' f') (pbind m f)"
proof -
  have "fst (pbind m' f' (s, l)) = fst (pbind m f s) \<and> fst (snd (pbind m' f' (s, l))) = snd (pbind m f s)" for s l
  proof -
    obtain r s1 l1 where m': "m' (s, l) = (r, s1, l1)" by (metis prod_cases3)
    then have m: "m s = (r, s1)" using assms(1) by (metis erases_def fst_conv prod.collapse snd_conv)
    show ?thesis
      using assms(2) by (cases r) (simp_all add: pbind_def m m' erases_def)
  qed
  then show ?thesis by (simp add: erases_def)
qed

lemma erases_pthen [erases_rules]: "erases m' m \<Longrightarrow> erases n' n \<Longrightarrow> erases (pthen m' n') (pthen m n)"
  unfolding pthen_def by (rule erases_pbind)

lemma erases_pfinally [erases_rules]:
  assumes "erases m' m" "erases n' n"
  shows "erases (pfinally m' n') (pfinally m n)"
proof -
  have "fst (pfinally m' n' (s, l)) = fst (pfinally m n s) \<and> fst (snd (pfinally m' n' (s, l))) = snd (pfinally m n s)" for s l
  proof -
    obtain r s1 l1 where m': "m' (s, l) = (r, s1, l1)" by (metis prod_cases3)
    then have m: "m s = (r, s1)" using assms(1) by (metis erases_def fst_conv prod.collapse snd_conv)
    obtain q s2 l2 where n': "n' (s1, l1) = (q, s2, l2)" by (metis prod_cases3)
    then have n: "n s1 = (q, s2)" using assms(2) by (metis erases_def fst_conv prod.collapse snd_conv)
    show ?thesis by (cases q) (simp_all add: pfinally_def m m' n n')
  qed
  then show ?thesis by (simp add: erases_def)
qed

lemma erases_pfor [erases_rules]:
  assumes h: "\<And>x. erases (f' x) (f x)"
  shows "erases (pfor xs f') (pfor xs f)"
  by (induction xs) (simp_all only: pfor.simps, (intro erases_rules h | assumption)+)

lemma erases_pmap [erases_rules]:
  assumes h: "\<And>x. erases (f' x) (f x)"
  shows "erases (pmap f' xs) (pmap f xs)"
  by (induction xs) (simp_all only: pmap.simps, (intro erases_rules h | assumption)+)

lemma erases_if [erases_rules]: "erases m' m \<Longrightarrow> erases n' n \<Longrightarrow> erases (if c then m' else n') (if c then m else n)"
  by simp

lemma erases_list_case [erases_rules]:
  "erases m' m \<Longrightarrow> (\<And>x xs. erases (f' x xs) (f x xs)) \<Longrightarrow>
   erases (case l of [] \<Rightarrow> m' | x # xs \<Rightarrow> f' x xs) (case l of [] \<Rightarrow> m | x # xs \<Rightarrow> f x xs)"
  by (cases l) simp_all

lemma erases_idle_poll [erases_rules]: "erases (idle_poll (logged b) deadline clock) (idle_poll b deadline clock)"
  by (induction clock) (simp_all only: idle_poll.simps, (intro erases_rules | assumption)+)

lemma erases_clear_poll [erases_rules]: "erases (clear_poll (logged b) deadline clock) (clear_poll b deadline clock)"
  by (induction clock) (simp_all only: clear_poll.simps, (intro erases_rules | assumption)+)

lemma erases_wait_idle [erases_rules]: "erases (wait_idle (logged b)) (wait_idle b)"
  unfolding wait_idle_def by (intro erases_rules)

lemma erases_clear_statistics [erases_rules]: "erases (clear_statistics (logged b)) (clear_statistics b)"
  unfolding clear_statistics_def by (intro erases_rules)

lemma logged_erases:
  "erases (load_calibration (logged b) cal) (load_calibration b cal)"
  "erases (enable_compensation (logged b) carrier offset) (enable_compensation b carrier offset)"
  "erases (collect_calibration (logged b) seconds) (collect_calibration b seconds)"
  unfolding load_calibration_def load_table_def enable_compensation_def collect_calibration_def check_identity_def
    tdc_read_diagnostics_def Let_def case_prod_unfold
  by (intro erases_rules)+

section \<open>Triples over the log\<close>

definition ltriple ::
  "(tdc_event list \<Rightarrow> bool) \<Rightarrow> ('s \<times> tdc_event list, 'a) prog \<Rightarrow> ('a \<Rightarrow> tdc_event list \<Rightarrow> bool) \<Rightarrow>
   (tdc_event list \<Rightarrow> bool) \<Rightarrow> bool" where
  "ltriple P m Q E \<longleftrightarrow> triple (\<lambda>(s, l). P l) m (\<lambda>x (s, l). Q x l) (\<lambda>e (s, l). E l)"

lemma ltriple_pbind:
  assumes "ltriple P m R E" "\<And>x. ltriple (R x) (f x) Q E"
  shows "ltriple P (pbind m f) Q E"
  using assms unfolding ltriple_def by (rule triple_pbind)

lemma ltriple_pthen:
  assumes "ltriple P m (\<lambda>_. R) E" "ltriple R n Q E"
  shows "ltriple P (pthen m n) Q E"
  using assms unfolding ltriple_def by (rule triple_pthen)

lemma ltriple_weaken:
  assumes "ltriple P' m Q' E'" "\<And>l. P l \<Longrightarrow> P' l" "\<And>x l. Q' x l \<Longrightarrow> Q x l" "\<And>l. E' l \<Longrightarrow> E l"
  shows "ltriple P m Q E"
  using assms(1) unfolding ltriple_def by (rule triple_weaken) (use assms(2-4) in auto)

lemma ltriple_log_with:
  assumes "\<And>l x. P l \<Longrightarrow> Q x (l @ [ev (Inr x)])" "\<And>l e. P l \<Longrightarrow> E (l @ [ev (Inl e)])"
  shows "ltriple P (log_with m ev) Q E"
  using assms by (auto simp: ltriple_def triple_def log_with_def split: prod.split sum.split)

lemma ltriple_board:
  "(\<And>l x. P l \<Longrightarrow> Q x (l @ [EvRead a (Inr x)])) \<Longrightarrow> (\<And>l e. P l \<Longrightarrow> E (l @ [EvRead a (Inl e)])) \<Longrightarrow>
   ltriple P (tb_read (logged b) a) Q E"
  "(\<And>l. P l \<Longrightarrow> Q' () (l @ [EvWrite a v (Inr ())])) \<Longrightarrow> (\<And>l e. P l \<Longrightarrow> E (l @ [EvWrite a v (Inl e)])) \<Longrightarrow>
   ltriple P (tb_write (logged b) a v) Q' E"
  "(\<And>l. P l \<Longrightarrow> Q' () (l @ [EvAbort (Inr ())])) \<Longrightarrow> (\<And>l e. P l \<Longrightarrow> E (l @ [EvAbort (Inl e)])) \<Longrightarrow>
   ltriple P (tb_abort (logged b)) Q' E"
  "(\<And>l x. P l \<Longrightarrow> Q'' x (l @ [EvUid (Inr x)])) \<Longrightarrow> (\<And>l e. P l \<Longrightarrow> E (l @ [EvUid (Inl e)])) \<Longrightarrow>
   ltriple P (tb_status_uid (logged b)) Q'' E"
  by (simp_all add: logged_def ltriple_log_with)

lemma ltriple_sleep:
  "(\<And>l. P l \<Longrightarrow> Q () l) \<Longrightarrow> (\<And>l. P l \<Longrightarrow> E l) \<Longrightarrow> ltriple P (tb_sleep (logged b) t) Q E"
  by (auto simp: ltriple_def triple_def logged_def unlogged_def split: prod.split sum.split)

lemma ltriple_clock:
  "ltriple P (pgets f) (\<lambda>_. P) E"
  "ltriple P (pmodify (tb_set_clock (logged b) c)) (\<lambda>_. P) E"
  by (auto simp: ltriple_def triple_def logged_def)

lemma ltriple_praise_if:
  "(\<And>l. P l \<Longrightarrow> c \<Longrightarrow> E l) \<Longrightarrow> (\<And>l. P l \<Longrightarrow> \<not> c \<Longrightarrow> Q () l) \<Longrightarrow> ltriple P (praise_if c e) Q E"
  by (auto simp: ltriple_def triple_def praise_if_def)

lemma ltriple_pret: "(\<And>l. P l \<Longrightarrow> Q x l) \<Longrightarrow> ltriple P (pret x) Q E"
  and ltriple_praise: "(\<And>l. P l \<Longrightarrow> E l) \<Longrightarrow> ltriple P (praise e) Q E"
  and ltriple_plift: "(\<And>l x. P l \<Longrightarrow> r = Inr x \<Longrightarrow> Q x l) \<Longrightarrow> (\<And>l e. P l \<Longrightarrow> E l) \<Longrightarrow> ltriple P (plift r) Q E"
  by (auto simp: ltriple_def triple_def split: sum.split)

lemma ltriple_if:
  "(c \<Longrightarrow> ltriple P m Q E) \<Longrightarrow> (\<not> c \<Longrightarrow> ltriple P n Q E) \<Longrightarrow> ltriple P (if c then m else n) Q E"
  by simp

lemma ltriple_pure: "(A \<Longrightarrow> ltriple P m Q E) \<Longrightarrow> ltriple (\<lambda>l. A \<and> P l) m Q E"
  by (cases A) (simp_all add: ltriple_def triple_def)

lemma ltriple_ex:
  assumes "\<And>x. ltriple (P x) m Q E"
  shows "ltriple (\<lambda>l. \<exists>x. P x l) m Q E"
  unfolding ltriple_def
proof (rule tripleI)
  fix sl x sl' assume s: "case sl of (s, l) \<Rightarrow> \<exists>x. P x l" and m: "m sl = (Inr x, sl')"
  then obtain y where "case sl of (s, l) \<Rightarrow> P y l" by auto
  then show "case sl' of (s, l) \<Rightarrow> Q x l" using m by (rule tripleD_Inr [OF assms [unfolded ltriple_def]])
next
  fix sl e sl' assume s: "case sl of (s, l) \<Rightarrow> \<exists>x. P x l" and m: "m sl = (Inl e, sl')"
  then obtain y where "case sl of (s, l) \<Rightarrow> P y l" by auto
  then show "case sl' of (s, l) \<Rightarrow> E l" using m by (rule tripleD_Inl [OF assms [unfolded ltriple_def]])
qed

text \<open>A loop that logs one event per element, or fails on one of them.\<close>

lemma ltriple_pfor:
  assumes "\<And>x p. ltriple (\<lambda>l. l = p) (body x) (\<lambda>_ l. l = p @ [ev x]) (\<lambda>l. \<exists>z. bad x z \<and> l = p @ [z])"
  shows "ltriple (\<lambda>l. l = p) (pfor xs body) (\<lambda>_ l. l = p @ map ev xs)
    (\<lambda>l. \<exists>ys x zs z. xs = ys @ x # zs \<and> bad x z \<and> l = p @ map ev ys @ [z])"
proof (induction xs arbitrary: p)
  case Nil
  show ?case unfolding pfor.simps by (rule ltriple_pret) simp
next
  case (Cons x xs)
  show ?case
    unfolding pfor.simps
  proof (rule ltriple_pthen)
    show "ltriple (\<lambda>l. l = p) (body x) (\<lambda>_ l. l = p @ [ev x])
        (\<lambda>l. \<exists>ys xa zs z. x # xs = ys @ xa # zs \<and> bad xa z \<and> l = p @ map ev ys @ [z])"
      by (rule ltriple_weaken [OF assms]) (assumption | fastforce)+
    show "ltriple (\<lambda>l. l = p @ [ev x]) (pfor xs body) (\<lambda>_ l. l = p @ map ev (x # xs))
        (\<lambda>l. \<exists>ys xa zs z. x # xs = ys @ xa # zs \<and> bad xa z \<and> l = p @ map ev ys @ [z])"
    proof (rule ltriple_weaken [OF Cons.IH [of "p @ [ev x]"]])
      fix l assume "\<exists>ys x' zs z. xs = ys @ x' # zs \<and> bad x' z \<and> l = (p @ [ev x]) @ map ev ys @ [z]"
      then obtain ys x' zs z where "xs = ys @ x' # zs" "bad x' z" "l = (p @ [ev x]) @ map ev ys @ [z]" by blast
      then show "\<exists>ys xa zs z. x # xs = ys @ xa # zs \<and> bad xa z \<and> l = p @ map ev ys @ [z]"
        by (intro exI [of _ "x # ys"]) auto
    qed simp_all
  qed
qed

section \<open>What a run writes\<close>

fun writes :: "tdc_event list \<Rightarrow> (int \<times> int) list" where
  "writes [] = []"
| "writes (EvWrite a v r # l) = (a, v) # writes l"
| "writes (_ # l) = writes l"

lemma writes_append [simp]: "writes (xs @ ys) = writes xs @ writes ys"
  by (induction xs rule: writes.induct) simp_all

text \<open>Successful polls of the status register, the last of which found the board idle.\<close>

definition polls :: "tdc_event list \<Rightarrow> bool" where
  "polls p \<longleftrightarrow> (\<exists>q v. p = q @ [EvRead STATUS (Inr v)] \<and> v AND 0x20 = 0 \<and> set q \<subseteq> range (\<lambda>v. EvRead STATUS (Inr v)))"

lemma writes_reads: "set q \<subseteq> range (\<lambda>v. EvRead a (Inr v)) \<Longrightarrow> writes q = []"
  by (induction q) auto

lemma polls_writes: "polls p \<Longrightarrow> writes p = []"
  by (auto simp: polls_def writes_reads)

lemma idle_poll_log:
  "ltriple (\<lambda>l. \<exists>q. set q \<subseteq> range (\<lambda>v. EvRead STATUS (Inr v)) \<and> l = p @ q) (idle_poll (logged b) deadline clock)
     (\<lambda>_ l. \<exists>q. polls q \<and> l = p @ q) (\<lambda>l. \<exists>q. writes q = [] \<and> l = p @ q)"
proof (induction clock)
  case Nil
  show ?case unfolding idle_poll.simps by (rule ltriple_praise) (auto simp: writes_reads)
next
  case (Cons now later)
  show ?case
    unfolding idle_poll.simps
  proof (rule ltriple_pthen [OF ltriple_clock(2)], rule ltriple_if)
    let ?P = "\<lambda>l. \<exists>q. set q \<subseteq> range (\<lambda>v. EvRead STATUS (Inr v)) \<and> l = p @ q"
    let ?R = "\<lambda>v l. \<exists>q. set q \<subseteq> range (\<lambda>v. EvRead STATUS (Inr v)) \<and> l = p @ q @ [EvRead STATUS (Inr v)]"
    show "ltriple ?P (pbind (tb_read (logged b) STATUS) (\<lambda>v. if v AND 0x20 = 0 then pret ()
          else pthen (tb_sleep (logged b) (fl (1 / 100))) (idle_poll (logged b) deadline later)))
        (\<lambda>_ l. \<exists>q. polls q \<and> l = p @ q) (\<lambda>l. \<exists>q. writes q = [] \<and> l = p @ q)"
    proof (rule ltriple_pbind)
      show "ltriple ?P (tb_read (logged b) STATUS) ?R (\<lambda>l. \<exists>q. writes q = [] \<and> l = p @ q)"
      proof (rule ltriple_board(1))
        fix l x assume "?P l"
        then show "?R x (l @ [EvRead STATUS (Inr x)])" by auto
      next
        fix l e assume "?P l"
        then obtain q where "set q \<subseteq> range (\<lambda>v. EvRead STATUS (Inr v))" "l = p @ q" by blast
        then show "\<exists>q. writes q = [] \<and> l @ [EvRead STATUS (Inl e)] = p @ q"
          by (intro exI [of _ "q @ [EvRead STATUS (Inl e)]"]) (simp add: writes_reads)
      qed
      fix v
      show "ltriple (?R v) (if v AND 0x20 = 0 then pret ()
          else pthen (tb_sleep (logged b) (fl (1 / 100))) (idle_poll (logged b) deadline later))
        (\<lambda>_ l. \<exists>q. polls q \<and> l = p @ q) (\<lambda>l. \<exists>q. writes q = [] \<and> l = p @ q)"
      proof (rule ltriple_if)
        assume "v AND 0x20 = 0"
        then show "ltriple (?R v) (pret ()) (\<lambda>_ l. \<exists>q. polls q \<and> l = p @ q) (\<lambda>l. \<exists>q. writes q = [] \<and> l = p @ q)"
          by (intro ltriple_pret) (auto simp: polls_def)
      next
        have next_poll: "?R v l \<Longrightarrow> ?P l" for l
        proof -
          assume "?R v l"
          then obtain q where "set q \<subseteq> range (\<lambda>v. EvRead STATUS (Inr v))" "l = p @ q @ [EvRead STATUS (Inr v)]" by blast
          then show "?P l" by (intro exI [of _ "q @ [EvRead STATUS (Inr v)]"]) auto
        qed
        show "ltriple (?R v) (pthen (tb_sleep (logged b) (fl (1 / 100))) (idle_poll (logged b) deadline later))
            (\<lambda>_ l. \<exists>q. polls q \<and> l = p @ q) (\<lambda>l. \<exists>q. writes q = [] \<and> l = p @ q)"
          by (rule ltriple_pthen [OF ltriple_sleep Cons.IH]) (use next_poll writes_reads in blast)+
      qed
    qed
  next
    show "ltriple (\<lambda>l. \<exists>q. set q \<subseteq> range (\<lambda>v. EvRead STATUS (Inr v)) \<and> l = p @ q) (praise TimeoutError)
        (\<lambda>_ l. \<exists>q. polls q \<and> l = p @ q) (\<lambda>l. \<exists>q. writes q = [] \<and> l = p @ q)"
      by (rule ltriple_praise) (auto simp: writes_reads)
  qed
qed

lemma wait_idle_log:
  "ltriple (\<lambda>l. l = p) (wait_idle (logged b)) (\<lambda>_ l. \<exists>q. polls q \<and> l = p @ q) (\<lambda>l. \<exists>q. writes q = [] \<and> l = p @ q)"
  unfolding wait_idle_def
proof (rule ltriple_pbind [OF ltriple_clock(1)])
  fix clock
  show "ltriple (\<lambda>l. l = p) (case clock of [] \<Rightarrow> praise TimeoutError | now # later \<Rightarrow> idle_poll (logged b) (now + 5) later)
      (\<lambda>_ l. \<exists>q. polls q \<and> l = p @ q) (\<lambda>l. \<exists>q. writes q = [] \<and> l = p @ q)"
  proof (cases clock)
    case Nil
    show ?thesis unfolding Nil list.case by (rule ltriple_praise) auto
  next
    case (Cons now later)
    show ?thesis unfolding Cons list.case by (rule ltriple_weaken [OF idle_poll_log [of p]]) auto
  qed
qed

section \<open>Loading a table\<close>

definition lut_writes :: "int list \<Rightarrow> tdc_event list" where
  "lut_writes table = map (\<lambda>(a, v). EvWrite a v (Inr ())) (lut_entries table)"

definition lut_reads :: "int list \<Rightarrow> tdc_event list" where
  "lut_reads table = map (\<lambda>(a, v). EvRead a (Inr v)) (lut_entries table)"

text \<open>Everything a load does before it writes, and its run up to the comparison of the table.\<close>

definition load_checks :: "stored_calibration \<Rightarrow> tdc_event list \<Rightarrow> bool" where
  "load_checks cal p \<longleftrightarrow>
     (\<exists>uid q. p = EvRead 0 (Inr IDENTITY) # EvUid (Inr uid) # q \<and> polls q \<and> st_uid cal \<in> {None, Some [], Some uid})"

definition verified_load :: "stored_calibration \<Rightarrow> int list \<Rightarrow> tdc_event list \<Rightarrow> bool" where
  "verified_load cal table l \<longleftrightarrow>
     stored_table cal = Inr table \<and>
     (\<exists>p. load_checks cal p \<and> l = p @ EvWrite CONTROL 0 (Inr ()) # lut_writes table @ lut_reads table)"

definition failed_load :: "stored_calibration \<Rightarrow> tdc_event list \<Rightarrow> bool" where
  "failed_load cal l \<longleftrightarrow>
     writes l = [] \<or>
     (\<exists>table rest. stored_table cal = Inr table \<and> writes l @ rest = (CONTROL, 0) # lut_entries table) \<or>
     (\<exists>table p r post. verified_load cal table p \<and> l = p @ EvWrite COMMAND 2 r # post \<and> writes post = [])"

lemma load_checks_writes: "load_checks cal p \<Longrightarrow> writes p = []"
  by (auto simp: load_checks_def polls_writes)

lemma writes_lut_writes [simp]: "writes (map (\<lambda>(a, v). EvWrite a v (Inr ())) es) = es"
  by (induction es) auto

lemma writes_lut_reads [simp]: "writes (map (\<lambda>(a, v). EvRead a (Inr v)) es) = []"
  by (induction es) auto

lemma failed_load_prefix:
  "stored_table cal = Inr table \<Longrightarrow> writes l @ rest = (CONTROL, 0) # lut_entries table \<Longrightarrow> failed_load cal l"
  by (auto simp: failed_load_def)

lemma failed_load_committed:
  "verified_load cal table p \<Longrightarrow> writes post = [] \<Longrightarrow> failed_load cal (p @ EvWrite COMMAND 2 r # post)"
  unfolding failed_load_def by blast

lemma lut_write_log:
  "ltriple (\<lambda>l. l = p) (pfor es (\<lambda>(address, v). tb_write (logged b) address v))
     (\<lambda>_ l. l = p @ map (\<lambda>(a, v). EvWrite a v (Inr ())) es)
     (\<lambda>l. \<exists>ys x zs z. es = ys @ x # zs \<and> (\<exists>e. z = EvWrite (fst x) (snd x) (Inl e)) \<and>
        l = p @ map (\<lambda>(a, v). EvWrite a v (Inr ())) ys @ [z])"
  by (rule ltriple_pfor) (clarsimp simp: case_prod_unfold, rule ltriple_board(2), auto)

lemma lut_read_log:
  "ltriple (\<lambda>l. l = p) (pfor es (\<lambda>(address, v). pbind (tb_read (logged b) address) (\<lambda>got. praise_if (got \<noteq> v) RuntimeError)))
     (\<lambda>_ l. l = p @ map (\<lambda>(a, v). EvRead a (Inr v)) es)
     (\<lambda>l. \<exists>ys x zs z. es = ys @ x # zs \<and> (\<exists>r. z = EvRead (fst x) r) \<and>
        l = p @ map (\<lambda>(a, v). EvRead a (Inr v)) ys @ [z])"
proof (rule ltriple_pfor)
  fix x :: "int \<times> int" and p
  show "ltriple (\<lambda>l. l = p) (case x of (address, v) \<Rightarrow> pbind (tb_read (logged b) address) (\<lambda>got. praise_if (got \<noteq> v) RuntimeError))
      (\<lambda>_ l. l = p @ [case x of (a, v) \<Rightarrow> EvRead a (Inr v)]) (\<lambda>l. \<exists>z. (\<exists>r. z = EvRead (fst x) r) \<and> l = p @ [z])"
    unfolding case_prod_unfold
  proof (rule ltriple_pbind)
    show "ltriple (\<lambda>l. l = p) (tb_read (logged b) (fst x)) (\<lambda>v l. l = p @ [EvRead (fst x) (Inr v)])
        (\<lambda>l. \<exists>z. (\<exists>r. z = EvRead (fst x) r) \<and> l = p @ [z])"
      by (rule ltriple_board(1)) auto
  qed (rule ltriple_praise_if, auto)
qed

lemma load_table_log:
  assumes "stored_table cal = Inr table"
  shows "ltriple (load_checks cal) (load_table (logged b) table)
     (\<lambda>_ l. \<exists>p v. verified_load cal table p \<and> v AND 2 \<noteq> 0 \<and>
        l = p @ [EvWrite COMMAND 2 (Inr ()), EvRead STATUS (Inr v)])
     (failed_load cal)"
    (is "ltriple _ _ ?Q _")
  unfolding load_table_def
proof (rule ltriple_pthen)
  let ?W = "\<lambda>p. p @ [EvWrite CONTROL 0 (Inr ())]"
  show "ltriple (load_checks cal) (tb_write (logged b) CONTROL 0)
      (\<lambda>_ l. \<exists>p. load_checks cal p \<and> l = ?W p) (failed_load cal)"
    by (rule ltriple_board(2)) (auto intro!: failed_load_prefix [OF assms] simp: load_checks_writes)
  show "ltriple (\<lambda>l. \<exists>p. load_checks cal p \<and> l = ?W p)
     (pthen (pfor (lut_entries table) (\<lambda>(address, v). tb_write (logged b) address v)) (
      pthen (pfor (lut_entries table) (\<lambda>(address, v).
               pbind (tb_read (logged b) address) (\<lambda>got. praise_if (got \<noteq> v) RuntimeError))) (
      pthen (tb_write (logged b) COMMAND 2) (
      pbind (tb_read (logged b) STATUS) (\<lambda>v. praise_if (v AND 2 = 0) RuntimeError))))) ?Q (failed_load cal)"
  proof (rule ltriple_ex, rule ltriple_pure, rule ltriple_pthen)
    fix p assume p: "load_checks cal p"
    show "ltriple (\<lambda>l. l = ?W p) (pfor (lut_entries table) (\<lambda>(address, v). tb_write (logged b) address v))
        (\<lambda>_ l. l = ?W p @ lut_writes table) (failed_load cal)"
    proof (rule ltriple_weaken [OF lut_write_log])
      fix l assume "\<exists>ys x zs z. lut_entries table = ys @ x # zs \<and> (\<exists>e. z = EvWrite (fst x) (snd x) (Inl e)) \<and>
          l = ?W p @ map (\<lambda>(a, v). EvWrite a v (Inr ())) ys @ [z]"
      then obtain ys x zs e where "lut_entries table = ys @ x # zs"
        "l = ?W p @ map (\<lambda>(a, v). EvWrite a v (Inr ())) ys @ [EvWrite (fst x) (snd x) (Inl e)]" by blast
      then show "failed_load cal l"
        by (intro failed_load_prefix [OF assms, of _ zs]) (simp add: load_checks_writes [OF p])
    qed (simp_all add: lut_writes_def)
    show "ltriple (\<lambda>l. l = ?W p @ lut_writes table)
       (pthen (pfor (lut_entries table) (\<lambda>(address, v).
                 pbind (tb_read (logged b) address) (\<lambda>got. praise_if (got \<noteq> v) RuntimeError))) (
        pthen (tb_write (logged b) COMMAND 2) (
        pbind (tb_read (logged b) STATUS) (\<lambda>v. praise_if (v AND 2 = 0) RuntimeError)))) ?Q (failed_load cal)"
    proof (rule ltriple_pthen)
      show "ltriple (\<lambda>l. l = ?W p @ lut_writes table) (pfor (lut_entries table) (\<lambda>(address, v).
                 pbind (tb_read (logged b) address) (\<lambda>got. praise_if (got \<noteq> v) RuntimeError)))
          (\<lambda>_. verified_load cal table) (failed_load cal)"
      proof (rule ltriple_weaken [OF lut_read_log])
        fix l assume "\<exists>ys x zs z. lut_entries table = ys @ x # zs \<and> (\<exists>r. z = EvRead (fst x) r) \<and>
            l = (?W p @ lut_writes table) @ map (\<lambda>(a, v). EvRead a (Inr v)) ys @ [z]"
        then obtain ys x r where "l = (?W p @ lut_writes table) @ map (\<lambda>(a, v). EvRead a (Inr v)) ys @ [EvRead (fst x) r]" by force
        then show "failed_load cal l"
          by (intro failed_load_prefix [OF assms, of _ "[]"]) (simp add: load_checks_writes [OF p] lut_writes_def)
      qed (use p assms in \<open>auto simp: verified_load_def lut_reads_def\<close>)
      show "ltriple (verified_load cal table) (pthen (tb_write (logged b) COMMAND 2) (
          pbind (tb_read (logged b) STATUS) (\<lambda>v. praise_if (v AND 2 = 0) RuntimeError))) ?Q (failed_load cal)"
      proof (rule ltriple_pthen)
        show "ltriple (verified_load cal table) (tb_write (logged b) COMMAND 2)
            (\<lambda>_ l. \<exists>p. verified_load cal table p \<and> l = p @ [EvWrite COMMAND 2 (Inr ())]) (failed_load cal)"
          by (rule ltriple_board(2)) (auto intro: failed_load_committed)
        show "ltriple (\<lambda>l. \<exists>p. verified_load cal table p \<and> l = p @ [EvWrite COMMAND 2 (Inr ())])
            (pbind (tb_read (logged b) STATUS) (\<lambda>v. praise_if (v AND 2 = 0) RuntimeError)) ?Q (failed_load cal)"
        proof (rule ltriple_pbind)
          show "ltriple (\<lambda>l. \<exists>p. verified_load cal table p \<and> l = p @ [EvWrite COMMAND 2 (Inr ())]) (tb_read (logged b) STATUS)
              (\<lambda>v l. \<exists>p. verified_load cal table p \<and> l = p @ [EvWrite COMMAND 2 (Inr ()), EvRead STATUS (Inr v)]) (failed_load cal)"
          proof (rule ltriple_board(1))
            fix l e assume "\<exists>p. verified_load cal table p \<and> l = p @ [EvWrite COMMAND 2 (Inr ())]"
            then obtain p where "verified_load cal table p" "l = p @ [EvWrite COMMAND 2 (Inr ())]" by blast
            then show "failed_load cal (l @ [EvRead STATUS (Inl e)])" by (simp add: failed_load_committed)
          qed auto
          fix v
          show "ltriple (\<lambda>l. \<exists>p. verified_load cal table p \<and> l = p @ [EvWrite COMMAND 2 (Inr ()), EvRead STATUS (Inr v)])
              (praise_if (v AND 2 = 0) RuntimeError) ?Q (failed_load cal)"
            by (rule ltriple_praise_if) (auto intro: failed_load_committed)
        qed
      qed
    qed
  qed
qed

text \<open>
  C15. Loading a calibration, on any board object and whatever its answers: the commit command is
  written only after the board identified itself, was seen idle, had its compensation switched off, and
  returned the whole table, entry by entry, as it was written; a load returns normally only if the
  status then reports the commit. A failed load wrote nothing, or a prefix of the disabled-control
  write and the table in order, or it failed after that commit.
\<close>

theorem load_calibration_trace:
  "case load_calibration (logged b) cal (s, []) of
     (Inr _, _, l) \<Rightarrow> \<exists>table p v. verified_load cal table p \<and> v AND 2 \<noteq> 0 \<and>
       l = p @ [EvWrite COMMAND 2 (Inr ()), EvRead STATUS (Inr v)]
   | (Inl _, _, l) \<Rightarrow> failed_load cal l"
proof -
  let ?E = "failed_load cal"
  let ?Q = "\<lambda>_ l. \<exists>table p v. verified_load cal table p \<and> v AND 2 \<noteq> 0 \<and>
       l = p @ [EvWrite COMMAND 2 (Inr ()), EvRead STATUS (Inr v)]"
  let ?I = "EvRead 0 (Inr IDENTITY)"
  have silent: "writes l = [] \<Longrightarrow> ?E l" for l by (simp add: failed_load_def)
  have identity: "ltriple (\<lambda>l. l = []) (check_identity (logged b)) (\<lambda>_ l. l = [?I]) ?E"
    unfolding check_identity_def
    by (rule ltriple_pbind [where R = "\<lambda>v l. l = [EvRead 0 (Inr v)]"], rule ltriple_board(1))
      (auto intro: silent intro!: ltriple_praise_if)
  have uid: "ltriple (\<lambda>l. l = [?I]) (tb_status_uid (logged b)) (\<lambda>u l. l = [?I, EvUid (Inr u)]) ?E"
    by (rule ltriple_board(4)) (auto intro: silent)
  have match: "ltriple (\<lambda>l. l = [?I, EvUid (Inr u)]) (praise_if (st_uid cal \<notin> {None, Some [], Some u}) ValueError)
      (\<lambda>_ l. st_uid cal \<in> {None, Some [], Some u} \<and> l = [?I, EvUid (Inr u)]) ?E" for u
    by (rule ltriple_praise_if) (auto intro: silent)
  have idle: "ltriple (\<lambda>l. st_uid cal \<in> {None, Some [], Some u} \<and> l = [?I, EvUid (Inr u)]) (wait_idle (logged b))
      (\<lambda>_. load_checks cal) ?E" for u
    by (rule ltriple_pure, rule ltriple_weaken [OF wait_idle_log]) (auto simp: load_checks_def intro: silent)
  have table: "ltriple (\<lambda>l. stored_table cal = Inr table \<and> l = [?I]) (pbind (tb_status_uid (logged b)) (\<lambda>u.
      pthen (praise_if (st_uid cal \<notin> {None, Some [], Some u}) ValueError) (
      pthen (wait_idle (logged b)) (load_table (logged b) table)))) ?Q ?E" for table
  proof (rule ltriple_pure)
    assume t: "stored_table cal = Inr table"
    have "ltriple (load_checks cal) (load_table (logged b) table) ?Q ?E"
      by (rule ltriple_weaken [OF load_table_log [OF t]]) blast+
    then show "ltriple (\<lambda>l. l = [?I]) (pbind (tb_status_uid (logged b)) (\<lambda>u.
      pthen (praise_if (st_uid cal \<notin> {None, Some [], Some u}) ValueError) (
      pthen (wait_idle (logged b)) (load_table (logged b) table)))) ?Q ?E"
      by (intro ltriple_pbind [OF uid] ltriple_pthen [OF match] ltriple_pthen [OF idle])
  qed
  have run: "ltriple (\<lambda>l. l = []) (load_calibration (logged b) cal) ?Q ?E"
    unfolding load_calibration_def
    by (rule ltriple_pthen [OF identity], rule ltriple_pbind [OF ltriple_plift table]) (auto intro: silent)
  show ?thesis
    using tripleD_Inr [OF run [unfolded ltriple_def], of "(s, [])"] tripleD_Inl [OF run [unfolded ltriple_def], of "(s, [])"]
    by (fastforce split: prod.split sum.split)
qed

section \<open>Collecting a calibration and enabling the compensation\<close>

lemma ltriple_at:
  assumes "\<And>p. P p \<Longrightarrow> ltriple (\<lambda>l. l = p) m Q E"
  shows "ltriple P m Q E"
proof -
  have "ltriple (\<lambda>l. \<exists>p. P p \<and> l = p) m Q E" by (rule ltriple_ex, rule ltriple_pure, rule assms)
  then show ?thesis by (rule ltriple_weaken) auto
qed

text \<open>Programs that write nothing.\<close>

definition silent :: "('s \<times> tdc_event list, 'a) prog \<Rightarrow> bool" where
  "silent m \<longleftrightarrow> (\<forall>ws. ltriple (\<lambda>l. writes l = ws) m (\<lambda>_ l. writes l = ws) (\<lambda>l. writes l = ws))"

named_theorems silent_rules

lemma silent_basic [silent_rules]:
  "silent (pret x)" "silent (praise e)" "silent (plift r)" "silent (praise_if q e)" "silent (pgets f)"
  "silent (pmodify (tb_set_clock (logged b) c))"
  "silent (tb_read (logged b) a)" "silent (tb_abort (logged b))" "silent (tb_status_uid (logged b))"
  "silent (tb_sleep (logged b) t)"
  unfolding silent_def
  by (auto intro!: ltriple_pret ltriple_praise ltriple_plift ltriple_praise_if ltriple_board ltriple_sleep ltriple_clock)

lemma silent_pbind [silent_rules]: "silent m \<Longrightarrow> (\<And>x. silent (f x)) \<Longrightarrow> silent (pbind m f)"
  unfolding silent_def by (blast intro: ltriple_pbind)

lemma silent_pthen [silent_rules]: "silent m \<Longrightarrow> silent n \<Longrightarrow> silent (pthen m n)"
  unfolding silent_def by (blast intro: ltriple_pthen)

lemma silent_if [silent_rules]: "silent m \<Longrightarrow> silent n \<Longrightarrow> silent (if c then m else n)"
  by simp

lemma silent_pmap [silent_rules]:
  assumes h: "\<And>x. silent (f x)"
  shows "silent (pmap f xs)"
  by (induction xs) (simp_all only: pmap.simps, (intro silent_rules h | assumption)+)

lemma silent_clear_poll [silent_rules]: "silent (clear_poll (logged b) deadline clock)"
  by (induction clock) (simp_all only: clear_poll.simps, (intro silent_rules | assumption)+)

lemma silent_wait_idle [silent_rules]: "silent (wait_idle (logged b))"
  unfolding silent_def
proof (intro allI, rule ltriple_at)
  fix ws p assume "writes p = ws"
  then show "ltriple (\<lambda>l. l = p) (wait_idle (logged b)) (\<lambda>_ l. writes l = ws) (\<lambda>l. writes l = ws)"
    by (intro ltriple_weaken [OF wait_idle_log [of p]]) (auto dest: polls_writes)
qed

lemma silent_check_identity [silent_rules]: "silent (check_identity (logged b))"
  unfolding check_identity_def by (intro silent_rules)

lemma silent_diagnostics [silent_rules]: "silent (tdc_read_diagnostics (logged b))"
  unfolding tdc_read_diagnostics_def case_prod_unfold by (intro silent_rules)

lemma silent_triple:
  assumes "silent m" "\<And>l. writes l = ws \<Longrightarrow> E l"
  shows "ltriple (\<lambda>l. writes l = ws) m (\<lambda>_ l. writes l = ws) E"
  by (rule ltriple_weaken [OF assms(1) [unfolded silent_def, rule_format, of ws]]) (use assms(2) in auto)

lemma write_triple:
  assumes "\<And>l e. writes l = ws @ [(a, v)] \<Longrightarrow> last l = EvWrite a v (Inl e) \<Longrightarrow> E l"
  shows "ltriple (\<lambda>l. writes l = ws) (tb_write (logged b) a v) (\<lambda>_ l. writes l = ws @ [(a, v)]) E"
  by (rule ltriple_board(2)) (use assms in auto)

lemma validate_table_again: "validate_table raw = Inr t \<Longrightarrow> validate_table (map PyInt t) = Inr t"
  by (auto simp: validate_table_def err_simps dest: emap_length)

text \<open>The file a collected calibration is saved to, as a load finds it.\<close>

definition saved :: "collected \<Rightarrow> stored_calibration" where
  "saved c = \<lparr>st_identity = Some IDENTITY, st_units = Some ''10 ps'', st_table = Some (map PyInt (cal_table c)),
              st_uid = Some (cal_device_uid c)\<rparr>"

definition collect_writes :: "(int \<times> int) list" where
  "collect_writes = [(CONTROL, 0), (COMMAND, 1), (CONTROL, 2), (CONTROL, 0)]"

text \<open>How far a failed acquisition got: it never leaves the counting mode on, unless switching it on itself failed.\<close>

definition failed_collect :: "tdc_event list \<Rightarrow> bool" where
  "failed_collect l \<longleftrightarrow>
     writes l \<in> {[], take 1 collect_writes, take 2 collect_writes, collect_writes} \<or>
     writes l = take 3 collect_writes \<and> (\<exists>e. last l = EvWrite CONTROL 2 (Inl e))"

lemma failed_collectI:
  "writes l = [] \<Longrightarrow> failed_collect l"
  "writes l = [(CONTROL, 0)] \<Longrightarrow> failed_collect l"
  "writes l = [(CONTROL, 0), (COMMAND, 1)] \<Longrightarrow> failed_collect l"
  "writes l = [(CONTROL, 0), (COMMAND, 1), (CONTROL, 2)] \<Longrightarrow> last l = EvWrite CONTROL 2 (Inl e) \<Longrightarrow> failed_collect l"
  "writes l = [(CONTROL, 0), (COMMAND, 1), (CONTROL, 2), (CONTROL, 0)] \<Longrightarrow> failed_collect l"
  by (simp_all add: failed_collect_def collect_writes_def)

lemma clear_statistics_log:
  "ltriple (\<lambda>l. writes l = [(CONTROL, 0)]) (clear_statistics (logged b))
     (\<lambda>_ l. writes l = [(CONTROL, 0), (COMMAND, 1)]) failed_collect"
  unfolding clear_statistics_def
proof (rule ltriple_pthen [OF silent_triple], rule silent_wait_idle)
  have "silent (pbind (pgets (tb_clock (logged b))) (\<lambda>clock. case clock of
       [] \<Rightarrow> clear_poll (logged b) 0 []
     | now # later \<Rightarrow> pthen (pmodify (tb_set_clock (logged b) later)) (clear_poll (logged b) (now + 2) later)))"
  proof (rule silent_pbind [OF silent_basic(5)])
    fix clock
    show "silent (case clock of [] \<Rightarrow> clear_poll (logged b) 0 []
     | now # later \<Rightarrow> pthen (pmodify (tb_set_clock (logged b) later)) (clear_poll (logged b) (now + 2) later))"
      by (cases clock) (simp_all only: list.case, (intro silent_rules)+)
  qed
  then have rest: "ltriple (\<lambda>l. writes l = [(CONTROL, 0), (COMMAND, 1)]) (pbind (pgets (tb_clock (logged b))) (\<lambda>clock. case clock of
       [] \<Rightarrow> clear_poll (logged b) 0 []
     | now # later \<Rightarrow> pthen (pmodify (tb_set_clock (logged b) later)) (clear_poll (logged b) (now + 2) later)))
     (\<lambda>_ l. writes l = [(CONTROL, 0), (COMMAND, 1)]) failed_collect"
    by (rule silent_triple) (rule failed_collectI)
  have "ltriple (\<lambda>l. writes l = [(CONTROL, 0)]) (tb_write (logged b) COMMAND 1)
      (\<lambda>_ l. writes l = [(CONTROL, 0)] @ [(COMMAND, 1)]) failed_collect"
    by (rule write_triple) (simp add: failed_collectI)
  then show "ltriple (\<lambda>l. writes l = [(CONTROL, 0)]) (pthen (tb_write (logged b) COMMAND 1) (
     pbind (pgets (tb_clock (logged b))) (\<lambda>clock. case clock of
       [] \<Rightarrow> clear_poll (logged b) 0 []
     | now # later \<Rightarrow> pthen (pmodify (tb_set_clock (logged b) later)) (clear_poll (logged b) (now + 2) later))))
     (\<lambda>_ l. writes l = [(CONTROL, 0), (COMMAND, 1)]) failed_collect"
    unfolding append_Cons append_Nil by (rule ltriple_pthen) (rule rest)
qed (rule failed_collectI)

lemma acquisition_log:
  "ltriple (\<lambda>l. writes l = [(CONTROL, 0), (COMMAND, 1), (CONTROL, 2)])
     (pfinally (tb_sleep (logged b) t) (tb_write (logged b) CONTROL 0))
     (\<lambda>_ l. writes l = collect_writes) (\<lambda>l. writes l = collect_writes)"
  by (auto simp: ltriple_def triple_def pfinally_def logged_def unlogged_def log_with_def collect_writes_def
      split: prod.split sum.split)

lemma ltriple_result:
  assumes "ltriple P m (\<lambda>_. Q) E" "\<And>s x s'. m s = (Inr x, s') \<Longrightarrow> R x"
  shows "ltriple P m (\<lambda>x l. R x \<and> Q l) E"
  unfolding ltriple_def
proof (rule tripleI)
  fix sl x sl' assume "case sl of (s, l) \<Rightarrow> P l" and m: "m sl = (Inr x, sl')"
  then have "case sl' of (s, l) \<Rightarrow> Q l" by (rule tripleD_Inr [OF assms(1) [unfolded ltriple_def]])
  then show "case sl' of (s, l) \<Rightarrow> R x \<and> Q l" using assms(2) [OF m] by auto
next
  fix sl e sl' assume "case sl of (s, l) \<Rightarrow> P l" and m: "m sl = (Inl e, sl')"
  then show "case sl' of (s, l) \<Rightarrow> E l" by (rule tripleD_Inl [OF assms(1) [unfolded ltriple_def]])
qed

lemma collect_tail_result:
  assumes "pbind (plift (calibration_from_histogram h n)) (\<lambda>cal. pbind m (\<lambda>uid.
     pret (calibration.extend cal \<lparr>cal_diagnostics = d, cal_device_uid = uid\<rparr>))) s = (Inr c, s')"
  shows "stored_table (saved c) = Inr (cal_table c)"
proof -
  from assms obtain cal uid where cal: "calibration_from_histogram h n = Inr cal"
    and c: "c = calibration.extend cal \<lparr>cal_diagnostics = d, cal_device_uid = uid\<rparr>"
    by (auto simp: pbind_eq_Inr)
  from cal have "\<exists>raw. validate_table raw = Inr (cal_table cal)"
    by (auto simp: calibration_from_histogram_def err_simps Let_def)
  then have "validate_table (map PyInt (cal_table cal)) = Inr (cal_table cal)" using validate_table_again by blast
  then show ?thesis by (simp add: c saved_def stored_table_def calibration.defs)
qed

text \<open>
  Collecting a calibration, on any board object and whatever its answers: a run that returns has
  written exactly the clear, start and stop sequence and yields a calibration whose saved form a load
  accepts with the same table. A run that fails stops within that sequence, and leaves the counting mode
  switched on only if the write that switches it on raised itself.
\<close>

lemma collect_calibration_trace:
  "case collect_calibration (logged b) seconds (s, []) of
     (Inr c, _, l) \<Rightarrow> stored_table (saved c) = Inr (cal_table c) \<and>
       writes l = [(CONTROL, 0), (COMMAND, 1), (CONTROL, 2), (CONTROL, 0)]
   | (Inl _, _, l) \<Rightarrow> failed_collect l"
proof -
  let ?Q = "\<lambda>c l. stored_table (saved c) = Inr (cal_table c) \<and> writes l = collect_writes"
  have finished: "writes l = collect_writes \<Longrightarrow> failed_collect l" for l by (simp add: failed_collect_def)
  have tail: "ltriple (\<lambda>l. writes l = collect_writes)
      (pbind (plift (calibration_from_histogram h n)) (\<lambda>cal. pbind (tb_status_uid (logged b)) (\<lambda>uid.
       pret (calibration.extend cal \<lparr>cal_diagnostics = d, cal_device_uid = uid\<rparr>)))) ?Q failed_collect" for h n d
  proof (rule ltriple_result [OF _ collect_tail_result])
    show "ltriple (\<lambda>l. writes l = collect_writes)
      (pbind (plift (calibration_from_histogram h n)) (\<lambda>cal. pbind (tb_status_uid (logged b)) (\<lambda>uid.
       pret (calibration.extend cal \<lparr>cal_diagnostics = d, cal_device_uid = uid\<rparr>))))
      (\<lambda>_ l. writes l = collect_writes) failed_collect"
      by (rule silent_triple [OF _ finished]) (intro silent_rules)
  qed
  have run: "ltriple (\<lambda>l. writes l = []) (collect_calibration (logged b) seconds) ?Q failed_collect"
    unfolding collect_calibration_def
    by (rule ltriple_pthen [OF silent_triple [OF silent_basic(4)]],
        simp add: failed_collectI,
        rule ltriple_pthen [OF silent_triple [OF silent_check_identity]],
        simp add: failed_collectI,
        rule ltriple_pthen [OF silent_triple [OF silent_basic(8)]],
        simp add: failed_collectI,
        rule ltriple_pthen [OF silent_triple [OF silent_wait_idle]],
        simp add: failed_collectI,
        rule ltriple_pthen [OF write_triple],
        simp add: failed_collectI,
        unfold append_Nil,
        rule ltriple_pthen [OF clear_statistics_log],
        rule ltriple_pthen [OF write_triple],
        simp add: failed_collectI,
        unfold append_Cons append_Nil,
        rule ltriple_pthen [OF ltriple_weaken [OF acquisition_log]],
        assumption, assumption, erule finished)
      (intro ltriple_pthen [OF silent_triple] ltriple_pbind [OF silent_triple] tail silent_rules finished)
  show ?thesis
    using tripleD_Inr [OF run [unfolded ltriple_def], of "(s, [])"] tripleD_Inl [OF run [unfolded ltriple_def], of "(s, [])"]
    by (fastforce simp: collect_writes_def split: prod.split sum.split)
qed

text \<open>Enabling: the offset register gets the offset in units of 10 ps as a 32-bit two's complement number.\<close>

lemma enable_compensation_trace:
  "case enable_compensation (logged b) carrier offset_ps (s, []) of
     (Inr _, _, l) \<Rightarrow> \<exists>n w q v. operator_index offset_ps = Inr n \<and> n mod 10 = 0 \<and> - 19990 \<le> n \<and> n \<le> 19990 \<and>
       polls q \<and> to_signed 4 w = n div 10 \<and> v AND 4 \<noteq> 0 \<and>
       l = q @ [EvWrite OFFSET w (Inr ()), EvWrite CONTROL (if carrier then 5 else 1) (Inr ()), EvRead STATUS (Inr v)]
   | (Inl _, _, l) \<Rightarrow>
       writes l = [] \<or> (\<exists>w. writes l = [(OFFSET, w)]) \<or> (\<exists>w. writes l = [(OFFSET, w), (CONTROL, if carrier then 5 else 1)])"
proof -
  let ?mode = "if carrier then 5 else 1 :: int"
  let ?E = "\<lambda>l. writes l = [] \<or> (\<exists>w. writes l = [(OFFSET, w)]) \<or> (\<exists>w. writes l = [(OFFSET, w), (CONTROL, ?mode)])"
  let ?ok = "\<lambda>n. operator_index offset_ps = Inr n \<and> n mod 10 = 0 \<and> - 19990 \<le> n \<and> n \<le> 19990"
  let ?Q = "\<lambda>_ l. \<exists>n w q v. ?ok n \<and> polls q \<and> to_signed 4 w = n div 10 \<and> v AND 4 \<noteq> 0 \<and>
       l = q @ [EvWrite OFFSET w (Inr ()), EvWrite CONTROL ?mode (Inr ()), EvRead STATUS (Inr v)]"
  have wrap: "to_signed 4 ((n div 10) AND 0xFFFFFFFF) = n div 10" if "- 19990 \<le> n" "n \<le> 19990" for n
    using that to_signed_mod [of 4 "n div 10"] by (simp add: and_mask_numerals)
  have steps: "ltriple (\<lambda>l. ?ok n \<and> l = []) (pthen (wait_idle (logged b)) (
     pthen (tb_write (logged b) OFFSET ((n div 10) AND 0xFFFFFFFF)) (
     pthen (tb_write (logged b) CONTROL ?mode) (
     pbind (tb_read (logged b) STATUS) (\<lambda>v. praise_if (v AND 4 = 0) RuntimeError))))) ?Q ?E" for n
  proof (rule ltriple_pure)
    assume ok: "?ok n"
    let ?w = "(n div 10) AND 0xFFFFFFFF"
    have idle: "ltriple (\<lambda>l. l = []) (wait_idle (logged b)) (\<lambda>_. polls) ?E"
      by (rule ltriple_weaken [OF wait_idle_log [of "[]"]]) auto
    have offs: "ltriple polls (tb_write (logged b) OFFSET ?w) (\<lambda>_ l. \<exists>q. polls q \<and> l = q @ [EvWrite OFFSET ?w (Inr ())]) ?E"
      by (rule ltriple_board(2)) (auto simp: polls_writes)
    have ctrl: "ltriple (\<lambda>l. \<exists>q. polls q \<and> l = q @ [EvWrite OFFSET ?w (Inr ())]) (tb_write (logged b) CONTROL ?mode)
        (\<lambda>_ l. \<exists>q. polls q \<and> l = q @ [EvWrite OFFSET ?w (Inr ()), EvWrite CONTROL ?mode (Inr ())]) ?E"
      by (rule ltriple_board(2)) (auto simp: polls_writes)
    have stat: "ltriple (\<lambda>l. \<exists>q. polls q \<and> l = q @ [EvWrite OFFSET ?w (Inr ()), EvWrite CONTROL ?mode (Inr ())])
        (tb_read (logged b) STATUS)
        (\<lambda>v l. \<exists>q. polls q \<and> l = q @ [EvWrite OFFSET ?w (Inr ()), EvWrite CONTROL ?mode (Inr ()), EvRead STATUS (Inr v)]) ?E"
      by (rule ltriple_board(1)) (auto simp: polls_writes)
    have fin: "ltriple (\<lambda>l. \<exists>q. polls q \<and> l = q @ [EvWrite OFFSET ?w (Inr ()), EvWrite CONTROL ?mode (Inr ()), EvRead STATUS (Inr v)])
        (praise_if (v AND 4 = 0) RuntimeError) ?Q ?E" for v
      by (rule ltriple_praise_if) (use ok wrap in \<open>auto simp: polls_writes\<close>)
    show "ltriple (\<lambda>l. l = []) (pthen (wait_idle (logged b)) (
       pthen (tb_write (logged b) OFFSET ?w) (
       pthen (tb_write (logged b) CONTROL ?mode) (
       pbind (tb_read (logged b) STATUS) (\<lambda>v. praise_if (v AND 4 = 0) RuntimeError))))) ?Q ?E"
      by (rule ltriple_pthen [OF idle ltriple_pthen [OF offs ltriple_pthen [OF ctrl ltriple_pbind [OF stat fin]]]])
  qed
  have run: "ltriple (\<lambda>l. l = []) (enable_compensation (logged b) carrier offset_ps) ?Q ?E"
    unfolding enable_compensation_def
    by (rule ltriple_pbind [OF ltriple_plift [where Q = "\<lambda>n l. operator_index offset_ps = Inr n \<and> l = []"]],
        simp, simp, rule ltriple_pthen [OF ltriple_praise_if steps], auto)
  show ?thesis
    using tripleD_Inr [OF run [unfolded ltriple_def], of "(s, [])"] tripleD_Inl [OF run [unfolded ltriple_def], of "(s, [])"]
    by (fastforce split: prod.split sum.split)
qed

end
