(* ===== verification/Provision.thy ===== *)
theory Provision
  imports Device_Upload Ip_Address "HOL-Library.Char_ord" "HOL-Library.List_Lexorder" "HOL-Library.Product_Lexorder"
begin

unbundle bit_operations_syntax

text \<open>
  The enrollment of several boards behind a switch (\<open>dr47/network.py\<close>): discovery by broadcast, the
  check of address assignments, NETWORK_APPLY with the recovery from a running playback, and the
  provisioning of one board with the verification of its new identity. What the host does for each new
  socket is a \<open>machine\<close>; \<open>arping\<close> is a parameter, the return code of the probe if the program exists.
\<close>

section \<open>Boards and texts\<close>

record board =
  db_device_uid :: string
  db_current_ip :: string
  db_current_mac :: string
  db_build_profile :: string
  db_revision :: int
  db_port :: int
  db_subnet_mask :: string
  db_gateway :: string
  db_response_address :: string
  db_interface :: string
  db_source_ip :: string

definition folded :: "string \<Rightarrow> string" where
  "folded s = lower (strip s)"

definition identity_key :: "board \<Rightarrow> string \<times> string" where
  "identity_key b = (folded (db_device_uid b), folded (db_current_mac b))"

record provisioned =
  pv_device_uid :: string
  pv_previous_ip :: string
  pv_ip :: string
  pv_mac :: string
  pv_subnet_mask :: string
  pv_gateway :: string
  pv_port :: int
  pv_revision :: int
  pv_build_profile :: string

definition validate_ipv4 :: "string \<Rightarrow> string result" where
  "validate_ipv4 value =
     (case ip4_address value of Inl _ \<Rightarrow> Inl ParameterRangeError | Inr v \<Rightarrow> Inr (u32_ipv4 v))"

definition validate_mac :: "string \<Rightarrow> string result" where
  "validate_mac value =
     (let raw = mac_raw value in
      guard_raise (length raw \<noteq> 12) ParameterRangeError (
      case int_base16 raw of
        None \<Rightarrow> Inl ParameterRangeError
      | Some number \<Rightarrow>
          let first = drop_bit 40 number AND 0xFF in
          guard_raise (number \<in> {0, 0xFFFFFFFFFFFF} \<or> first AND 1 \<noteq> 0) ParameterRangeError
            (Inr (mac_join (lower raw)))))"

section \<open>Discovery\<close>

definition board_from_response ::
  "rf_response \<Rightarrow> sock_addr option \<Rightarrow> string \<Rightarrow> string \<Rightarrow> board option result" where
  "board_from_response response addr interface source_ip =
     (if rsp_status response \<noteq> RF2_STATUS_OK then Inr None
      else ebind (parse_rfctrl2_network_response response) (\<lambda>decoded.
        let response_address = (case addr of Some (host, _) \<Rightarrow> host | None \<Rightarrow> ni_current_ip decoded) in
        if ni_device_uid decoded = [] \<or> ni_current_ip decoded = [] \<or> ni_current_mac decoded = [] then Inr None
        else Inr (Some
          \<lparr>db_device_uid = ni_device_uid decoded, db_current_ip = ni_current_ip decoded,
           db_current_mac = ni_current_mac decoded, db_build_profile = ni_build_profile decoded,
           db_revision = ni_revision decoded, db_port = or_int (ni_port decoded) 1234,
           db_subnet_mask = or_text (ni_subnet_mask decoded) ''255.255.0.0'',
           db_gateway = or_text (ni_gateway decoded) ''0.0.0.0'',
           db_response_address = response_address, db_interface = interface, db_source_ip = source_ip\<rparr>)))"

text \<open>\<open>found.setdefault(board.identity_key, board)\<close>; the dictionary is the list of its values.\<close>

definition add_board :: "board \<Rightarrow> board list \<Rightarrow> board list" where
  "add_board b found = (if identity_key b \<in> identity_key ` set found then found else found @ [b])"

definition add_response ::
  "string \<Rightarrow> string \<Rightarrow> rf_response \<times> sock_addr option \<Rightarrow> board list \<Rightarrow> board list result" where
  "add_response interface source_ip answer found =
     ebind (board_from_response (fst answer) (snd answer) interface source_ip) (\<lambda>b.
     Inr (case b of None \<Rightarrow> found | Some b \<Rightarrow> add_board b found))"

text \<open>One broadcast: its sequence number, and what is received before the deadline.\<close>

definition discover_answers ::
  "rat \<Rightarrow> int \<times> rat list \<Rightarrow> (transport, (rf_response \<times> sock_addr option) list) prog" where
  "discover_answers timeout_s env =
     (let sequence = or_int (fst env AND 0xFFFFFFFF) 1 in
      pbind (plift (pack_rfctrl2_network_get sequence)) (\<lambda>packet.
      pbind (transport_send packet) (\<lambda>_.
      receive_rfresp2_many (Some sequence) (Some RF2_OP_NETWORK_GET) timeout_s (snd env))))"

fun discover_rounds ::
  "string \<Rightarrow> string \<Rightarrow> rat \<Rightarrow> (int \<times> rat list) list \<Rightarrow> board list \<Rightarrow> (transport, board list) prog" where
  "discover_rounds interface source_ip timeout_s [] found = pret found"
| "discover_rounds interface source_ip timeout_s (env # envs) found =
     pbind (discover_answers timeout_s env) (\<lambda>answers.
     pbind (plift (efold (add_response interface source_ip) answers found)) (\<lambda>found.
     discover_rounds interface source_ip timeout_s envs found))"

definition discover_boards ::
  "string \<Rightarrow> string \<Rightarrow> string \<Rightarrow> string \<Rightarrow> int \<Rightarrow> rat \<Rightarrow> int \<Rightarrow> socket_caps \<Rightarrow> socket \<Rightarrow> (nat \<Rightarrow> int \<times> rat list) \<Rightarrow>
   board list result" where
  "discover_boards interface source_ip source_cidr broadcast_ip port timeout_s rounds caps sock env =
     ebind (validate_ipv4 source_ip) (\<lambda>_.
     ebind (validate_ipv4 broadcast_ip) (\<lambda>_.
     guard_raise (\<not> (1 \<le> port \<and> port \<le> 65535)) ParameterRangeError (
     guard_raise (timeout_s \<le> 0 \<or> rounds < 1) ParameterRangeError (
     guard_raise (map_option Inr (interface_16 source_cidr) \<noteq> Some (ip4_address source_ip)) ParameterRangeError (
     ebind (fst (transport_init caps broadcast_ip port timeout_s interface source_ip sock)) (\<lambda>t.
     ebind (fst (discover_rounds interface source_ip timeout_s (map env [0..<nat rounds]) [] t)) (\<lambda>found.
     guard_raise (found = []) DiscoveryError (Inr (sort_key identity_key found)))))))))"

section \<open>Devices of the enrollment\<close>

record machine =
  mc_caps :: socket_caps
  mc_socket :: socket
  mc_time_ns :: int
  mc_clock :: "rat list"

definition new_device :: "machine \<Rightarrow> string \<Rightarrow> int \<Rightarrow> rat \<Rightarrow> string \<Rightarrow> string \<Rightarrow> int \<Rightarrow> device" where
  "new_device m ip port timeout_s udp_interface udp_source_ip retries =
     device_init ip port timeout_s udp_interface udp_source_ip retries False None True
       (Some RF2_BUILD_PROFILE_NORMAL) (Some RF2_TRIGGER_PATH_VERSION) None (mc_time_ns m) (mc_caps m)
       (mc_socket m) (mc_clock m)"

definition connect_discovered :: "machine \<Rightarrow> board \<Rightarrow> rat \<Rightarrow> int \<Rightarrow> device result \<times> device" where
  "connect_discovered m b timeout_s retries =
     (case device_connect (new_device m (db_current_ip b) (db_port b) timeout_s (db_interface b)
              (db_source_ip b) retries) of
        (Inl e, d) \<Rightarrow> (Inl e, d)
      | (Inr _, d) \<Rightarrow>
          let uid = cp_device_uid (dv_capabilities d) in
          if uid \<noteq> [] \<and> uid \<noteq> db_device_uid b then (Inl ProvisionError, snd (device_close d))
          else (Inr d, d))"

section \<open>Assignments\<close>

fun check_duplicate_assignments :: "board list \<Rightarrow> string \<Rightarrow> string \<Rightarrow> string \<Rightarrow> string \<Rightarrow> unit result" where
  "check_duplicate_assignments [] ip mac exclude_device_uid exclude_device_mac = Inr ()"
| "check_duplicate_assignments (b # bs) ip mac exclude_device_uid exclude_device_mac =
     (let rest = check_duplicate_assignments bs ip mac exclude_device_uid exclude_device_mac in
      if folded exclude_device_uid \<noteq> [] \<and> folded (db_device_uid b) = folded exclude_device_uid \<and>
         folded (db_current_mac b) = folded (or_text exclude_device_mac mac) then rest
      else guard_raise (db_current_ip b = ip \<and> lower (db_current_mac b) \<noteq> lower mac) ProvisionError (
           guard_raise (lower (db_current_mac b) = lower mac \<and> db_current_ip b \<noteq> ip) ProvisionError rest))"

text \<open>None when arping is absent.\<close>

definition probe_ip_conflict :: "(string \<Rightarrow> string \<Rightarrow> int option) \<Rightarrow> string \<Rightarrow> string \<Rightarrow> bool option" where
  "probe_ip_conflict arping ip interface = map_option (\<lambda>returncode. returncode \<noteq> 0) (arping ip interface)"

section \<open>NETWORK_APPLY with recovery\<close>

fun playback_rounds :: "rat \<Rightarrow> rat list \<Rightarrow> (device, unit) prog" where
  "playback_rounds deadline [] = praise ProvisionError"
| "playback_rounds deadline (now # later) =
     pthen (pmodify (\<lambda>d. d\<lparr>dv_clock := later\<rparr>)) (
     if now < deadline then
       pbind (device_status_op True) (\<lambda>status.
       if ds_state status = IDLE then pret () else playback_rounds deadline later)
     else praise ProvisionError)"

definition NETWORK_IDLE_TIMEOUT_S :: rat where "NETWORK_IDLE_TIMEOUT_S = 5"

definition recover_playback :: "(device, unit) prog" where
  "recover_playback =
     pcatch
       (pbind (pgets connected) (\<lambda>online.
        pthen (if online then pret 0 else device_connect) (
        pbind (device_abort (PyInt 0)) (\<lambda>_.
        pbind tick_clock (\<lambda>now.
        case now of
          None \<Rightarrow> praise ProvisionError
        | Some t0 \<Rightarrow> pbind (pgets dv_clock) (playback_rounds (t0 + NETWORK_IDLE_TIMEOUT_S)))))))
       (\<lambda>_. praise ProvisionError)"

definition network_apply_with_recovery ::
  "int \<Rightarrow> string \<Rightarrow> string \<Rightarrow> string \<Rightarrow> string \<Rightarrow> int \<Rightarrow> (device, network_info answer) prog" where
  "network_apply_with_recovery revision ip mac subnet_mask gateway port =
     (let apply_once = rfctrl2_network_apply revision ip mac subnet_mask gateway port None True None in
      pcatch apply_once (\<lambda>e.
        if \<not> is_DeviceStatusError e \<or> err_status e \<noteq> RF2_STATUS_UNSAFE_STATE then praise e
        else pthen recover_playback apply_once))"

section \<open>Provisioning one board\<close>

record target =
  tg_ip :: string
  tg_mask :: string
  tg_gateway :: string
  tg_mac :: string
  tg_source_ip :: string

definition provision_target ::
  "board \<Rightarrow> string \<Rightarrow> string option \<Rightarrow> string \<Rightarrow> string \<Rightarrow> string option \<Rightarrow> target result" where
  "provision_target b ip mac subnet_mask gateway verification_source_ip =
     ebind (validate_ipv4 ip) (\<lambda>target_ip.
     ebind (validate_ipv4 subnet_mask) (\<lambda>target_mask.
     ebind (validate_ipv4 gateway) (\<lambda>target_gateway.
     ebind (validate_mac (or_text (case mac of None \<Rightarrow> [] | Some m \<Rightarrow> m) (db_current_mac b))) (\<lambda>target_mac.
     ebind (case verification_source_ip of None \<Rightarrow> Inr [] | Some s \<Rightarrow> validate_ipv4 s) (\<lambda>source.
     Inr \<lparr>tg_ip = target_ip, tg_mask = target_mask, tg_gateway = target_gateway, tg_mac = target_mac,
          tg_source_ip = source\<rparr>)))))"

definition applied_revision :: "network_info answer \<Rightarrow> int \<Rightarrow> int result" where
  "applied_revision response revision =
     (case response of NotAwaited _ \<Rightarrow> Inl TypeError | Answer info \<Rightarrow> Inr (or_int (ni_revision info) revision))"

text \<open>The first device: apply, restart; every exception becomes a \<open>ProvisionError\<close>.\<close>

definition provision_apply :: "target \<Rightarrow> int \<Rightarrow> int \<Rightarrow> (device, int) prog" where
  "provision_apply tg revision port =
     pfinally
       (pcatch
          (pbind (network_apply_with_recovery revision (tg_ip tg) (tg_mac tg) (tg_mask tg) (tg_gateway tg) port) (\<lambda>response.
           pbind (plift (applied_revision response revision)) (\<lambda>applied.
           pbind (rfctrl2_network_restart None True None) (\<lambda>_. pret applied))))
          (\<lambda>_. praise ProvisionError))
       device_close"

definition identity_verified :: "board \<Rightarrow> target \<Rightarrow> network_info \<Rightarrow> bool" where
  "identity_verified b tg candidate \<longleftrightarrow>
     folded (ni_device_uid candidate) = folded (db_device_uid b) \<and>
     folded (ni_current_mac candidate) = folded (tg_mac tg) \<and> ni_current_ip candidate = tg_ip tg"

text \<open>The attempts to reach the board at its new address, each with the time at which it starts.\<close>

fun verify_attempts :: "board \<Rightarrow> target \<Rightarrow> int \<Rightarrow> rat \<Rightarrow> (rat \<times> machine) list \<Rightarrow> network_info result" where
  "verify_attempts b tg port deadline [] = Inl ProvisionError"
| "verify_attempts b tg port deadline ((now, m) # rest) =
     (if \<not> now < deadline then Inl ProvisionError
      else case fst (rfctrl2_network_get None True None
             (new_device m (tg_ip tg) port 1 (db_interface b) (or_text (tg_source_ip tg) (db_source_ip b)) 1)) of
        Inr (Answer candidate) \<Rightarrow>
          if identity_verified b tg candidate then Inr candidate else verify_attempts b tg port deadline rest
      | _ \<Rightarrow> verify_attempts b tg port deadline rest)"

definition provision_board ::
  "board \<Rightarrow> string \<Rightarrow> string option \<Rightarrow> string \<Rightarrow> string \<Rightarrow> int \<Rightarrow> int option \<Rightarrow> board list \<Rightarrow> bool \<Rightarrow> string option \<Rightarrow>
   (string \<Rightarrow> string \<Rightarrow> int option) \<Rightarrow> machine \<Rightarrow> rat \<Rightarrow> (rat \<times> machine) list \<Rightarrow> provisioned result" where
  "provision_board b ip mac subnet_mask gateway port revision known_boards reject_unverified_conflict
     verification_source_ip arping m start attempts =
     ebind (provision_target b ip mac subnet_mask gateway verification_source_ip) (\<lambda>tg.
     guard_raise (\<not> (1 \<le> port \<and> port \<le> 65535)) ParameterRangeError (
     ebind (check_duplicate_assignments known_boards (tg_ip tg) (tg_mac tg) (db_device_uid b) (db_current_mac b)) (\<lambda>_.
     let conflict = (if tg_ip tg = db_current_ip b then Some False
                     else probe_ip_conflict arping (tg_ip tg) (db_interface b)) in
     guard_raise (conflict = Some True) ProvisionError (
     guard_raise (conflict = None \<and> reject_unverified_conflict) ProvisionError (
     let next_revision = (case revision of None \<Rightarrow> db_revision b + 1 | Some r \<Rightarrow> r) in
     ebind (fst (provision_apply tg next_revision port
              (new_device m (db_current_ip b) (db_port b) 3 (db_interface b) (tg_source_ip tg) 2))) (\<lambda>applied.
     ebind (verify_attempts b tg port (start + 8) attempts) (\<lambda>response.
     Inr \<lparr>pv_device_uid = db_device_uid b, pv_previous_ip = db_current_ip b, pv_ip = tg_ip tg,
          pv_mac = or_text (ni_current_mac response) (tg_mac tg),
          pv_subnet_mask = or_text (ni_subnet_mask response) (tg_mask tg),
          pv_gateway = or_text (ni_gateway response) (tg_gateway tg),
          pv_port = or_int (ni_port response) port, pv_revision = or_int (ni_revision response) applied,
          pv_build_profile = or_text (ni_build_profile response) (db_build_profile b)\<rparr>)))))))"

section \<open>Address pools\<close>

definition parse_ip_pool :: "string \<Rightarrow> string list result" where
  "parse_ip_pool value =
     (case split_on CHR ''-'' value of
        first # rest1 # others \<Rightarrow>
          ebind (ip4_address (strip first)) (\<lambda>start.
          ebind (ip4_address (strip (join_on CHR ''-'' (rest1 # others)))) (\<lambda>last_ip.
          guard_raise (last_ip < start) ParameterRangeError (
          guard_raise (drop_bit 8 start \<noteq> drop_bit 8 last_ip) ParameterRangeError (
          Inr (map u32_ipv4 [start..last_ip])))))
      | _ \<Rightarrow> Inl ParameterRangeError)"


section \<open>What discovery finds\<close>

lemma board_from_response_Some:
  assumes "board_from_response r addr interface source_ip = Inr (Some b)"
  shows "rsp_status r = RF2_STATUS_OK" "db_interface b = interface" "db_source_ip b = source_ip"
    "db_device_uid b \<noteq> []" "db_current_ip b \<noteq> []" "db_current_mac b \<noteq> []"
    "\<And>host port. addr = Some (host, port) \<Longrightarrow> db_response_address b = host"
  using assms by (auto simp: board_from_response_def err_simps Let_def split: if_splits)

text \<open>The boards of a list of answers, one option per answer.\<close>

definition answer_boards ::
  "string \<Rightarrow> string \<Rightarrow> (rf_response \<times> sock_addr option) list \<Rightarrow> board option list result" where
  "answer_boards interface source_ip = emap (\<lambda>a. board_from_response (fst a) (snd a) interface source_ip)"

text \<open>The inventory of some boards: one of them per identity, and nothing else.\<close>

definition inventory :: "board option list \<Rightarrow> board list \<Rightarrow> bool" where
  "inventory boards found \<longleftrightarrow>
     distinct (map identity_key found) \<and> set found \<subseteq> {b. Some b \<in> set boards} \<and>
     identity_key ` set found = identity_key ` {b. Some b \<in> set boards}"

lemma inventory_Nil: "inventory [] []"
  by (simp add: inventory_def)

lemma inventory_add:
  "inventory boards found \<Longrightarrow>
   inventory (boards @ [x]) (case x of None \<Rightarrow> found | Some b \<Rightarrow> add_board b found)"
  by (auto simp: inventory_def add_board_def split: option.split)

lemma inventory_answers:
  assumes "efold (add_response interface source_ip) answers found = Inr found'" "inventory before found"
  shows "\<exists>boards. answer_boards interface source_ip answers = Inr boards \<and> inventory (before @ boards) found'"
  using assms
proof (induction answers arbitrary: found before)
  case Nil
  then show ?case by (simp add: answer_boards_def)
next
  case (Cons a answers)
  from Cons.prems(1) obtain x where x: "board_from_response (fst a) (snd a) interface source_ip = Inr x"
    and r: "efold (add_response interface source_ip) answers (case x of None \<Rightarrow> found | Some b \<Rightarrow> add_board b found) = Inr found'"
    unfolding efold.simps ebind_eq_Inr add_response_def [of _ _ a] by blast
  from Cons.IH [OF r inventory_add [OF Cons.prems(2)]] obtain boards
    where "answer_boards interface source_ip answers = Inr boards" "inventory ((before @ [x]) @ boards) found'" by blast
  then show ?case by (intro exI [of _ "x # boards"]) (simp add: answer_boards_def x)
qed

text \<open>All answers of all rounds, in the order of their arrival.\<close>

fun all_answers ::
  "rat \<Rightarrow> (int \<times> rat list) list \<Rightarrow> (transport, (rf_response \<times> sock_addr option) list) prog" where
  "all_answers timeout_s [] = pret []"
| "all_answers timeout_s (env # envs) =
     pbind (discover_answers timeout_s env) (\<lambda>answers.
     pbind (all_answers timeout_s envs) (\<lambda>later. pret (answers @ later)))"

lemma discover_rounds_answers:
  assumes "discover_rounds interface source_ip timeout_s envs found t = (Inr found', t')" "inventory before found"
  shows "\<exists>answers boards. all_answers timeout_s envs t = (Inr answers, t') \<and>
    answer_boards interface source_ip answers = Inr boards \<and> inventory (before @ boards) found'"
  using assms
proof (induction envs arbitrary: found before t)
  case Nil
  then show ?case by (auto simp: answer_boards_def)
next
  case (Cons env envs)
  from Cons.prems(1) obtain answers t1 found1 where a: "discover_answers timeout_s env t = (Inr answers, t1)"
    and f: "efold (add_response interface source_ip) answers found = Inr found1"
    and r: "discover_rounds interface source_ip timeout_s envs found1 t1 = (Inr found', t')"
    by (auto simp: pbind_eq_Inr)
  from inventory_answers [OF f Cons.prems(2)] obtain boards1
    where b1: "answer_boards interface source_ip answers = Inr boards1" "inventory (before @ boards1) found1" by blast
  from Cons.IH [OF r b1(2)] obtain later boards2 where b2: "all_answers timeout_s envs t1 = (Inr later, t')"
    "answer_boards interface source_ip later = Inr boards2" "inventory ((before @ boards1) @ boards2) found'" by blast
  have "answer_boards interface source_ip (answers @ later) = Inr (boards1 @ boards2)"
    using b1(1) b2(2) unfolding answer_boards_def
    by (induction answers arbitrary: boards1) (auto simp: err_simps)
  then show ?case using a b2
    by (intro exI [of _ "answers @ later"] exI [of _ "boards1 @ boards2"]) (simp add: pbind_def)
qed

lemma source_matches_same:
  "tp_ip t1 = tp_ip t \<Longrightarrow> tp_port t1 = tp_port t \<Longrightarrow> source_matches t1 addr = source_matches t addr"
  by (cases addr) (auto simp: source_matches_def)

lemma receive_many_sources:
  "receive_many_loop t es eo deadline clock rx acc = (Inr answers, rx') \<Longrightarrow>
   \<forall>(r, addr) \<in> set acc. source_matches t addr \<Longrightarrow> \<forall>(r, addr) \<in> set answers. source_matches t addr"
  by (induction t es eo deadline clock rx acc rule: receive_many_loop.induct)
    (auto split: if_splits list.splits recv_outcome.splits sum.splits)

lemma discover_answers_sources:
  assumes "discover_answers timeout_s env t = (Inr answers, t')"
  shows "tp_ip t' = tp_ip t \<and> tp_port t' = tp_port t \<and> (\<forall>(r, addr) \<in> set answers. source_matches t addr)"
proof -
  from assms obtain packet t1 n where s: "transport_send packet t = (Inr n, t1)"
    and m: "receive_rfresp2_many (Some (or_int (fst env AND 0xFFFFFFFF) 1)) (Some RF2_OP_NETWORK_GET) timeout_s (snd env) t1 = (Inr answers, t')"
    by (auto simp: discover_answers_def Let_def pbind_eq_Inr)
  have t1: "tp_ip t1 = tp_ip t" "tp_port t1 = tp_port t"
    using s by (auto simp: transport_send_def Let_def split: if_splits list.splits send_outcome.splits)
  have same: "source_matches t1 addr = source_matches t addr" for addr
    by (rule source_matches_same) (rule t1)+
  show ?thesis
  proof (cases "snd env")
    case Nil
    then show ?thesis using m t1 by (simp add: receive_rfresp2_many_def)
  next
    case (Cons t0 readings)
    then obtain rx where l: "receive_many_loop t1 (Some (or_int (fst env AND 0xFFFFFFFF) 1)) (Some RF2_OP_NETWORK_GET)
        (t0 + max 0 timeout_s) readings (sk_rx (tp_sock t1)) [] = (Inr answers, rx)"
      and t': "t' = t1\<lparr>tp_sock := (tp_sock t1)\<lparr>sk_rx := rx\<rparr>\<rparr>"
      using m by (auto simp: receive_rfresp2_many_def Let_def split: prod.splits)
    from receive_many_sources [OF l] t1 t' show ?thesis by (simp add: same)
  qed
qed

lemma all_answers_sources:
  "all_answers timeout_s envs t = (Inr answers, t') \<Longrightarrow> \<forall>(r, addr) \<in> set answers. source_matches t addr"
proof (induction envs arbitrary: t answers)
  case (Cons env envs)
  then obtain first later t1 where a: "discover_answers timeout_s env t = (Inr first, t1)"
    and l: "all_answers timeout_s envs t1 = (Inr later, t')" and answers: "answers = first @ later"
    by (auto simp: pbind_eq_Inr)
  note s = discover_answers_sources [OF a]
  have "tp_ip t1 = tp_ip t" "tp_port t1 = tp_port t" using s by simp_all
  then have "source_matches t1 addr = source_matches t addr" for addr by (rule source_matches_same)
  then show ?case using s Cons.IH [OF l] answers by auto
qed simp

lemma sorted_inventory:
  assumes "distinct (map identity_key found)"
  shows "sorted_wrt (\<lambda>a b. identity_key a < identity_key b) (sort_key identity_key found)"
proof -
  let ?s = "sort_key identity_key found"
  have "distinct (map identity_key ?s)" using assms by (simp add: distinct_map inj_on_def)
  then have "sorted_wrt (<) (map identity_key ?s)" by (simp add: strict_sorted_iff)
  then show ?thesis by (simp add: sorted_wrt_map)
qed


section \<open>Addresses\<close>

lemma validate_ipv4_Inr: "validate_ipv4 s = Inr ip \<Longrightarrow> ip = s \<and> (\<exists>v. 0 \<le> v \<and> v < 2 ^ 32 \<and> u32_ipv4 v = s)"
  using ip4_address_canonical [of s] by (auto simp: validate_ipv4_def split: sum.splits)

lemma validate_ipv4_Inl: "validate_ipv4 s = Inl e \<Longrightarrow> e = ParameterRangeError"
  by (auto simp: validate_ipv4_def split: sum.splits)

lemma validate_mac_Inl: "validate_mac s = Inl e \<Longrightarrow> e = ParameterRangeError"
  by (auto simp: validate_mac_def Let_def err_simps split: option.splits)

text \<open>The digits of a text in either case, written in lower case.\<close>

lemma hex_digit_lower: "is_digit 16 c \<Longrightarrow> digit_char (the (digit_value c)) = lower_char c"
  using char_of_ccode [of c]
  by (auto simp: is_digit_def digit_value_def digit_char_def lower_char_def Let_def split: if_splits)

lemma hex_digits_lower: "\<forall>c \<in> set s. is_digit 16 c \<Longrightarrow> hex_digits (length s) (digits_value 16 s) = lower s"
proof (induction s rule: rev_induct)
  case (snoc c s)
  have c: "is_digit 16 c" "the (digit_value c) < 16"
    using snoc.prems by (auto simp: is_digit_def split: option.splits)
  then have "(digits_value 16 s * 16 + the (digit_value c)) div 16 = digits_value 16 s"
    "(digits_value 16 s * 16 + the (digit_value c)) mod 16 = the (digit_value c)" by simp_all
  then show ?case using snoc hex_digit_lower [OF c(1)] by (simp add: digits_value_snoc lower_def)
qed (simp add: lower_def)

lemma lower_char_plain: "d \<in> set ''+-_:0 '' \<Longrightarrow> lower_char c = d \<longleftrightarrow> c = d"
  by (auto simp: lower_char_def ccode_eq_iff [of _ d] ccode_char_of) (auto simp: ccode_def)

lemma lower_char_x: "lower_char c = CHR ''x'' \<longleftrightarrow> c = CHR ''x'' \<or> c = CHR ''X''"
  "lower_char c \<noteq> CHR ''X''"
  by (auto simp: lower_char_def ccode_eq_iff [of _ "CHR ''x''"] ccode_eq_iff [of _ "CHR ''X''"] ccode_char_of)
    (auto simp: ccode_def)

lemma digit_value_lower: "digit_value (lower_char c) = digit_value c"
  by (auto simp: lower_char_def digit_value_def ccode_char_of Let_def)

lemma is_space_lower: "is_space (lower_char c) = is_space c"
  by (auto simp: is_space_def lower_char_def ccode_char_of)

lemma strip_lower: "strip (lower s) = lower (strip s)"
proof -
  have "is_space \<circ> lower_char = is_space" by (rule ext) (simp add: is_space_lower)
  then show ?thesis by (simp add: strip_def lower_def dropWhile_map rev_map)
qed

lemma drop_sign_lower: "drop_sign (lower s) = (case drop_sign s of (neg, r) \<Rightarrow> (neg, lower r))"
  by (cases s) (auto simp: drop_sign_def lower_def lower_char_plain)

lemma drop_hex_prefix_lower: "drop_hex_prefix (lower s) = lower (drop_hex_prefix s)"
proof -
  have h: "(take 2 (lower s) = ''0x'' \<or> take 2 (lower s) = ''0X'') \<longleftrightarrow> (take 2 s = ''0x'' \<or> take 2 s = ''0X'')"
    by (cases s; cases "tl s") (auto simp: lower_def lower_char_plain lower_char_x)
  have u: "take 1 (drop 2 (lower s)) = ''_'' \<longleftrightarrow> take 1 (drop 2 s) = ''_''"
    by (cases "drop 2 s") (auto simp: lower_def drop_map lower_char_plain)
  show ?thesis
    unfolding drop_hex_prefix_def h u by (simp add: lower_def drop_map)
qed

lemma hex_scan_lower: "hex_scan acc us (lower s) = hex_scan acc us s"
proof (induction s arbitrary: acc us)
  case (Cons c s)
  then show ?case
    by (cases "digit_value c") (simp_all add: lower_def lower_char_plain digit_value_lower)
qed (simp add: lower_def)

lemma int_base16_lower: "int_base16 (lower s) = int_base16 s"
proof -
  obtain neg r where r: "drop_sign (strip s) = (neg, r)" by fastforce
  have l: "drop_sign (strip (lower s)) = (neg, lower r)" by (simp add: strip_lower drop_sign_lower r)
  show ?thesis
    unfolding int_base16_def r l Let_def case_prod_conv drop_hex_prefix_lower hex_scan_lower
    by (cases "drop_hex_prefix r") (simp_all add: lower_def lower_char_plain)
qed

lemma six_pairs:
  fixes x :: string
  assumes "length x = 12"
  shows "x = take 2 x @ take 2 (drop 2 x) @ take 2 (drop 4 x) @ take 2 (drop 6 x) @ take 2 (drop 8 x) @ take 2 (drop 10 x)"
proof -
  have step: "drop k x = take 2 (drop k x) @ drop (k + 2) x" for k
    using append_take_drop_id [of 2 "drop k x"] by (simp add: add.commute)
  have "x = take 2 x @ drop 2 x" by simp
  also have "drop 2 x = take 2 (drop 2 x) @ drop 4 x" using step [of 2] by (simp only: add_num_simps arith_simps)
  also have "drop 4 x = take 2 (drop 4 x) @ drop 6 x" using step [of 4] by (simp only: add_num_simps arith_simps)
  also have "drop 6 x = take 2 (drop 6 x) @ drop 8 x" using step [of 6] by (simp only: add_num_simps arith_simps)
  also have "drop 8 x = take 2 (drop 8 x) @ drop 10 x" using step [of 8] by (simp only: add_num_simps arith_simps)
  also have "drop 10 x = take 2 (drop 10 x)" using assms by simp
  finally show ?thesis .
qed

lemma mac_raw_lower: "\<forall>c \<in> set s. c \<noteq> CHR '':'' \<and> c \<noteq> CHR ''-'' \<Longrightarrow> length s = 12 \<Longrightarrow> mac_raw (mac_join (lower s)) = lower s"
proof -
  assume a: "\<forall>c \<in> set s. c \<noteq> CHR '':'' \<and> c \<noteq> CHR ''-''" and l: "length s = 12"
  have k: "filter (\<lambda>c. c \<noteq> CHR '':'' \<and> c \<noteq> CHR ''-'') xs = xs" if "set xs \<subseteq> set (lower s)" for xs
  proof (rule filter_True, rule ballI)
    fix c assume "c \<in> set xs"
    then have "c \<in> set (lower s)" using that by (rule subsetD [rotated])
    then obtain d where d: "d \<in> set s" "c = lower_char d" unfolding lower_def set_map by (rule imageE)
    have "d \<noteq> CHR '':'' \<and> d \<noteq> CHR ''-''" by (rule bspec [OF a d(1)])
    then show "c \<noteq> CHR '':'' \<and> c \<noteq> CHR ''-''" unfolding d(2) by (simp add: lower_char_plain)
  qed
  have sub: "set (take 2 (drop i (lower s))) \<subseteq> set (lower s)" "set (take 2 (lower s)) \<subseteq> set (lower s)" for i
    by (meson order_trans set_drop_subset set_take_subset)+
  have "lower s = take 2 (lower s) @ take 2 (drop 2 (lower s)) @ take 2 (drop 4 (lower s)) @ take 2 (drop 6 (lower s)) @
      take 2 (drop 8 (lower s)) @ take 2 (drop 10 (lower s))"
    by (rule six_pairs) (simp add: l lower_def)
  then show ?thesis by (simp add: mac_raw_def mac_join_def k sub)
qed



section \<open>Assignments and identities\<close>

text \<open>What the check of assignments promises: a known board is the board itself, or it shares neither
  the address nor the MAC, or both of them.\<close>

definition same_board :: "board \<Rightarrow> string \<Rightarrow> string \<Rightarrow> bool" where
  "same_board b uid mac \<longleftrightarrow>
     folded uid \<noteq> [] \<and> folded (db_device_uid b) = folded uid \<and> folded (db_current_mac b) = folded mac"

definition disjoint_assignment :: "string \<Rightarrow> string \<Rightarrow> board \<Rightarrow> bool" where
  "disjoint_assignment ip mac b \<longleftrightarrow> (db_current_ip b = ip \<longleftrightarrow> lower (db_current_mac b) = lower mac)"

definition assignable :: "board list \<Rightarrow> string \<Rightarrow> string \<Rightarrow> string \<Rightarrow> string \<Rightarrow> bool" where
  "assignable known ip mac uid own_mac \<longleftrightarrow>
     list_all (\<lambda>b. same_board b uid (or_text own_mac mac) \<or> disjoint_assignment ip mac b) known"

lemma check_duplicate_assignments_iff:
  "check_duplicate_assignments known ip mac uid own_mac =
     (if assignable known ip mac uid own_mac then Inr () else Inl ProvisionError)"
  by (induction known)
    (auto simp: assignable_def same_board_def disjoint_assignment_def Let_def err_simps)

definition address_free :: "(string \<Rightarrow> string \<Rightarrow> int option) \<Rightarrow> bool \<Rightarrow> board \<Rightarrow> string \<Rightarrow> bool" where
  "address_free arping strict b ip \<longleftrightarrow>
     ip = db_current_ip b \<or> arping ip (db_interface b) = Some 0 \<or> (arping ip (db_interface b) = None \<and> \<not> strict)"

lemma provision_target_fields:
  assumes "provision_target b ip mac subnet_mask gateway source = Inr tg"
  shows "validate_ipv4 ip = Inr (tg_ip tg)" "validate_ipv4 subnet_mask = Inr (tg_mask tg)"
    "validate_ipv4 gateway = Inr (tg_gateway tg)"
    "validate_mac (or_text (case mac of None \<Rightarrow> [] | Some m \<Rightarrow> m) (db_current_mac b)) = Inr (tg_mac tg)"
  using assms by (auto simp: provision_target_def err_simps split: option.splits)

lemma provision_target_error:
  "provision_target b ip mac subnet_mask gateway source = Inl e \<Longrightarrow> e = ParameterRangeError"
  by (auto simp: provision_target_def err_simps dest: validate_ipv4_Inl validate_mac_Inl split: option.splits)

lemma verify_attempts_Inr:
  assumes "verify_attempts b tg port deadline attempts = Inr candidate"
  shows "identity_verified b tg candidate" "\<exists>now m. (now, m) \<in> set attempts \<and> now < deadline \<and>
    fst (rfctrl2_network_get None True None
      (new_device m (tg_ip tg) port 1 (db_interface b) (or_text (tg_source_ip tg) (db_source_ip b)) 1)) =
    Inr (Answer candidate)"
  using assms
  by (induction b tg port deadline attempts rule: verify_attempts.induct;
      fastforce split: if_splits sum.splits answer.splits)+

lemma verify_attempts_Inl: "verify_attempts b tg port deadline attempts = Inl e \<Longrightarrow> e = ProvisionError"
  by (induction b tg port deadline attempts rule: verify_attempts.induct)
    (auto split: if_splits sum.splits answer.splits)

lemma folded_or_text: "folded a = folded b \<Longrightarrow> folded (or_text a b) = folded b"
  by (simp add: or_text_def)

lemma provision_apply_error: "fst (provision_apply tg revision port d) = Inl e \<Longrightarrow> e = ProvisionError"
  by (auto simp: provision_apply_def pfinally_def pcatch_def device_close_def split: prod.splits sum.splits)

text \<open>
  C18. Provisioning a board ends in one of two ways. Either it returns the board at the requested
  address: the target texts are valid, the port is a UDP port, no other known board has the address
  without the MAC or the MAC without the address, the address is the board's own or the ARP probe found
  it free (or there was no arping and the caller did not insist), NETWORK_APPLY and NETWORK_RESTART
  succeeded on a device at the old address, and within eight seconds a device at the new address
  reported the UID, the MAC and the address that were asked for, which are those of the result. Or it
  raises a ParameterRangeError or a ProvisionError, whatever happened on the wire.
\<close>

theorem provision_board_verified:
  "case provision_board b ip mac subnet_mask gateway port revision known strict source arping m start attempts of
     Inr p \<Rightarrow> (\<exists>tg applied candidate now n.
       provision_target b ip mac subnet_mask gateway source = Inr tg \<and> 1 \<le> port \<and> port \<le> 65535 \<and>
       assignable known (tg_ip tg) (tg_mac tg) (db_device_uid b) (db_current_mac b) \<and>
       address_free arping strict b (tg_ip tg) \<and>
       fst (provision_apply tg (case revision of None \<Rightarrow> db_revision b + 1 | Some r \<Rightarrow> r) port
         (new_device m (db_current_ip b) (db_port b) 3 (db_interface b) (tg_source_ip tg) 2)) = Inr applied \<and>
       (now, n) \<in> set attempts \<and> now < start + 8 \<and>
       fst (rfctrl2_network_get None True None
         (new_device n (tg_ip tg) port 1 (db_interface b) (or_text (tg_source_ip tg) (db_source_ip b)) 1)) =
         Inr (Answer candidate) \<and>
       folded (ni_device_uid candidate) = folded (db_device_uid b) \<and> ni_current_ip candidate = tg_ip tg \<and>
       pv_device_uid p = db_device_uid b \<and> pv_previous_ip p = db_current_ip b \<and> pv_ip p = tg_ip tg \<and>
       folded (pv_mac p) = folded (tg_mac tg) \<and> pv_revision p = or_int (ni_revision candidate) applied)
   | Inl e \<Rightarrow> e \<in> {ParameterRangeError, ProvisionError}"
proof (cases "provision_board b ip mac subnet_mask gateway port revision known strict source arping m start attempts")
  case (Inl e)
  from Inl have "e \<in> {ParameterRangeError, ProvisionError}"
    by (auto simp: provision_board_def check_duplicate_assignments_iff err_simps Let_def
        dest: provision_target_error verify_attempts_Inl provision_apply_error split: if_splits)
  then show ?thesis by (simp add: Inl)
next
  case (Inr p)
  then obtain tg applied candidate where tg: "provision_target b ip mac subnet_mask gateway source = Inr tg"
    and port: "1 \<le> port" "port \<le> 65535"
    and dup: "assignable known (tg_ip tg) (tg_mac tg) (db_device_uid b) (db_current_mac b)"
    and free: "tg_ip tg = db_current_ip b \<or> (probe_ip_conflict arping (tg_ip tg) (db_interface b) \<noteq> Some True \<and>
        (probe_ip_conflict arping (tg_ip tg) (db_interface b) = None \<longrightarrow> \<not> strict))"
    and ap: "fst (provision_apply tg (case revision of None \<Rightarrow> db_revision b + 1 | Some r \<Rightarrow> r) port
         (new_device m (db_current_ip b) (db_port b) 3 (db_interface b) (tg_source_ip tg) 2)) = Inr applied"
    and ver: "verify_attempts b tg port (start + 8) attempts = Inr candidate"
    and p: "pv_device_uid p = db_device_uid b" "pv_previous_ip p = db_current_ip b" "pv_ip p = tg_ip tg"
       "pv_mac p = or_text (ni_current_mac candidate) (tg_mac tg)"
       "pv_revision p = or_int (ni_revision candidate) applied"
    by (auto simp: provision_board_def check_duplicate_assignments_iff err_simps Let_def split: if_splits)
  from free have free: "address_free arping strict b (tg_ip tg)"
    by (cases "arping (tg_ip tg) (db_interface b)") (auto simp: address_free_def probe_ip_conflict_def)
  from verify_attempts_Inr [OF ver] p tg port dup free ap show ?thesis
    unfolding Inr sum.case identity_verified_def
    by (intro exI [of _ tg] exI [of _ applied] exI [of _ candidate]) (auto simp: folded_or_text)
qed

section \<open>Recovery from a running playback\<close>

text \<open>
  NETWORK_APPLY is sent a second time only after the board refused the first one as unsafe, and only
  after the playback was seen idle: the state is then one a status query left behind.
\<close>

lemma playback_rounds_Inr:
  assumes "playback_rounds deadline clock d = (Inr (), d')"
  shows "\<exists>d0 st. device_status_op True d0 = (Inr st, d') \<and> ds_state st = IDLE"
  using assms
proof (induction deadline clock arbitrary: d rule: playback_rounds.induct)
  case (2 deadline now later)
  show ?case
  proof (cases "now < deadline")
    case True
    let ?d = "d\<lparr>dv_clock := later\<rparr>"
    obtain r d1 where r: "device_status_op True ?d = (r, d1)" by (cases "device_status_op True ?d")
    show ?thesis using 2 True r by (cases r) (auto simp: pbind_def pthen_def split: if_splits)
  qed (use 2 in \<open>simp add: pthen_def pbind_def\<close>)
qed simp

lemma recover_playback_Inr:
  assumes "recover_playback d = (Inr (), d')"
  shows "\<exists>d0 st. device_status_op True d0 = (Inr st, d') \<and> ds_state st = IDLE"
proof -
  from assms obtain t0 clock d1 where "playback_rounds t0 clock d1 = (Inr (), d')"
    by (auto simp: recover_playback_def pcatch_def pbind_def pthen_def split: prod.splits sum.splits option.splits if_splits)
  then show ?thesis by (rule playback_rounds_Inr)
qed

lemma recover_playback_Inl: "recover_playback d = (Inl e, d') \<Longrightarrow> e = ProvisionError"
  by (auto simp: recover_playback_def pcatch_def split: prod.splits sum.splits)

lemma network_apply_with_recovery_cases:
  defines "apply_once \<equiv> \<lambda>revision ip mac netmask gateway port. rfctrl2_network_apply revision ip mac netmask gateway port None True None"
  assumes "network_apply_with_recovery revision ip mac netmask gateway port d = (r, d')"
  obtains "apply_once revision ip mac netmask gateway port d = (r, d')"
      "\<nexists>e. r = Inl e \<and> is_DeviceStatusError e \<and> err_status e = RF2_STATUS_UNSAFE_STATE"
  | e d1 where "apply_once revision ip mac netmask gateway port d = (Inl e, d1)" "is_DeviceStatusError e"
      "err_status e = RF2_STATUS_UNSAFE_STATE" "recover_playback d1 = (Inl ProvisionError, d')" "r = Inl ProvisionError"
  | e d1 d2 d0 st where "apply_once revision ip mac netmask gateway port d = (Inl e, d1)" "is_DeviceStatusError e"
      "err_status e = RF2_STATUS_UNSAFE_STATE" "recover_playback d1 = (Inr (), d2)"
      "device_status_op True d0 = (Inr st, d2)" "ds_state st = IDLE"
      "apply_once revision ip mac netmask gateway port d2 = (r, d')"
proof -
  obtain r1 d1 where o: "apply_once revision ip mac netmask gateway port d = (r1, d1)"
    by (cases "apply_once revision ip mac netmask gateway port d")
  note u = assms(2) [unfolded network_apply_with_recovery_def Let_def, folded apply_once_def]
  show thesis
  proof (cases "\<exists>e. r1 = Inl e \<and> is_DeviceStatusError e \<and> err_status e = RF2_STATUS_UNSAFE_STATE")
    case False
    then have "(r, d') = (r1, d1)" using u o by (cases r1) (auto simp: apply_once_def pcatch_def)
    then show thesis using that(1) o False by simp
  next
    case True
    then obtain e where e: "r1 = Inl e" "is_DeviceStatusError e" "err_status e = RF2_STATUS_UNSAFE_STATE" by blast
    then have v: "pthen recover_playback (apply_once revision ip mac netmask gateway port) d1 = (r, d')"
      using u o by (simp add: apply_once_def pcatch_def)
    obtain r2 d2 where rec: "recover_playback d1 = (r2, d2)" by (cases "recover_playback d1")
    show thesis
    proof (cases r2)
      case (Inl e2)
      then show thesis using that(2) o e v rec recover_playback_Inl by (auto simp: pthen_Inl)
    next
      case (Inr u)
      then obtain d0 st where "device_status_op True d0 = (Inr st, d2)" "ds_state st = IDLE"
        using recover_playback_Inr [of d1 d2] rec by auto
      then show thesis using that(3) o e v rec Inr by (auto simp: pthen_Inr)
    qed
  qed
qed

section \<open>Address pools\<close>

lemma parse_ip_pool_Inr:
  assumes "parse_ip_pool text = Inr pool"
  shows "\<exists>a b. 0 \<le> a \<and> a \<le> b \<and> b < 2 ^ 32 \<and> a div 256 = b div 256 \<and> pool = map u32_ipv4 [a..b]"
    "length pool \<le> 256"
proof -
  from assms obtain a b ta tb where ab: "ip4_address ta = Inr a" "ip4_address tb = Inr b" "a \<le> b"
    "drop_bit 8 a = drop_bit 8 b" and pool: "pool = map u32_ipv4 [a..b]"
    by (auto simp: parse_ip_pool_def err_simps split: list.splits)
  have r: "0 \<le> a" "b < 2 ^ 32" using ip4_address_canonical [OF ab(1)] ip4_address_canonical [OF ab(2)] by auto
  have d: "a div 256 = b div 256" using ab(4) by (simp add: drop_bit_eq_div)
  show "\<exists>a b. 0 \<le> a \<and> a \<le> b \<and> b < 2 ^ 32 \<and> a div 256 = b div 256 \<and> pool = map u32_ipv4 [a..b]"
    using r d ab(3) pool by blast
  have "b - a < 256" using d by presburger
  then show "length pool \<le> 256" by (simp add: pool)
qed

section \<open>Connecting to a discovered board\<close>

text \<open>The comparison of the UIDs never fires: a connected device knows no UID.\<close>

lemma connect_discovered_unchecked:
  "connect_discovered m b timeout_s retries =
     (case device_connect (new_device m (db_current_ip b) (db_port b) timeout_s (db_interface b)
              (db_source_ip b) retries) of
        (Inl e, d) \<Rightarrow> (Inl e, d) | (Inr _, d) \<Rightarrow> (Inr d, d))"
proof -
  let ?d = "new_device m (db_current_ip b) (db_port b) timeout_s (db_interface b) (db_source_ip b) retries"
  have "device_inv (snd (device_connect ?d))"
    unfolding new_device_def by (rule keepsD [OF inv_connect inv_init])
  then have "cp_device_uid (dv_capabilities (snd (device_connect ?d))) = []" by (simp add: device_inv_def)
  then show ?thesis by (auto simp: connect_discovered_def Let_def split: prod.splits sum.splits)
qed

end
