(* ===== verification/Web_Network.thy ===== *)
theory Web_Network
  imports Ip_Address "HOL-Library.Char_ord" "HOL-Library.List_Lexorder"
begin

unbundle bit_operations_syntax

text \<open>
  The network half of the web application (\<open>webapp/network.py\<close>): the link profiles of the host NICs,
  the address pool of each, the targets of a discovery and the checks of the path to a board. What the
  operating system reports is a \<open>host_env\<close>: the files of \<open>/sys/class/net\<close>, the default routes, the
  addresses of each NIC, what the \<open>ip\<close> command answers, and the two-byte hash of a name.
\<close>

section \<open>Texts\<close>

definition starts_with :: "string \<Rightarrow> string \<Rightarrow> bool" where
  "starts_with p s \<longleftrightarrow> take (length p) s = p"

fun contains :: "string \<Rightarrow> string \<Rightarrow> bool" where
  "contains needle [] \<longleftrightarrow> needle = []"
| "contains needle (c # s) \<longleftrightarrow> starts_with needle (c # s) \<or> contains needle s"

definition show_int :: "int \<Rightarrow> string" where
  "show_int n = (if n < 0 then ''-'' @ dec_digits (nat (- n)) else dec_digits (nat n))"

section \<open>The process capabilities\<close>

definition CAPABILITY_BITS :: "(string \<times> nat) list" where
  "CAPABILITY_BITS = [(''CAP_NET_ADMIN'', 12), (''CAP_NET_RAW'', 13)]"

definition REQUIRED_LINK_CAPABILITIES :: "string list" where
  "REQUIRED_LINK_CAPABILITIES = [''CAP_NET_ADMIN'', ''CAP_NET_RAW'']"

definition decode_capability_names :: "int \<Rightarrow> string list" where
  "decode_capability_names mask_bits =
     map fst (filter (\<lambda>(name, k). mask_bits AND push_bit k 1 \<noteq> 0) CAPABILITY_BITS)"

record capability_report =
  cr_effective :: "string list"
  cr_permitted :: "string list"
  cr_ambient :: "string list"
  cr_missing :: "string list"
  cr_ok :: bool

text \<open>The part of a line before its first colon and the part after it.\<close>

definition split_colon :: "string \<Rightarrow> string \<times> string" where
  "split_colon line = (takeWhile (\<lambda>c. c \<noteq> CHR '':'') line, drop 1 (dropWhile (\<lambda>c. c \<noteq> CHR '':'') line))"

fun capability_fields :: "string list \<Rightarrow> (string \<Rightarrow> int option) \<Rightarrow> (string \<Rightarrow> int option) result" where
  "capability_fields [] found = Inr found"
| "capability_fields (line # rest) found =
     (if starts_with ''CapEff:'' line \<or> starts_with ''CapPrm:'' line \<or> starts_with ''CapAmb:'' line then
        (case int_base16 (strip (snd (split_colon line))) of
           None \<Rightarrow> Inl ValueError
         | Some v \<Rightarrow> capability_fields rest (found(fst (split_colon line) \<mapsto> v)))
      else capability_fields rest found)"

text \<open>The argument is None when the status file cannot be read.\<close>

definition process_capability_report :: "string list option \<Rightarrow> capability_report result" where
  "process_capability_report text =
     ebind (case text of None \<Rightarrow> Inr Map.empty | Some ls \<Rightarrow> capability_fields ls Map.empty) (\<lambda>found.
       let names = (\<lambda>key. decode_capability_names (case found key of None \<Rightarrow> 0 | Some v \<Rightarrow> v));
           effective = names ''CapEff'';
           missing = filter (\<lambda>name. name \<notin> set effective) REQUIRED_LINK_CAPABILITIES in
       Inr \<lparr>cr_effective = effective, cr_permitted = names ''CapPrm'', cr_ambient = names ''CapAmb'',
            cr_missing = missing, cr_ok = (missing = [])\<rparr>)"

section \<open>Link profiles\<close>

record link_profile =
  lp_target_ip :: string
  lp_target_mac :: string
  lp_target_profile :: string
  lp_inventory_name :: string
  lp_jtag_cable_serial :: string
  lp_serial_path :: string
  lp_source_ip :: string
  lp_source_cidr :: string
  lp_discovery_source_ip :: string
  lp_discovery_source_cidr :: string
  lp_bootstrap_source_ip :: string
  lp_bootstrap_source_cidr :: string
  lp_bootstrap_ip :: string
  lp_pool_prefix :: string
  lp_pool_start :: int
  lp_pool_end :: int
  lp_dynamic :: bool

definition PROFILED_UDP_INTERFACES :: "string list" where
  "PROFILED_UDP_INTERFACES = [''enp225s0f0'', ''enp225s0f1'', ''eno1np0'', ''eno2np1'']"

definition FPGA_BOOTSTRAP_IP :: string where "FPGA_BOOTSTRAP_IP = ''192.168.254.254''"
definition FPGA_LINKLOCAL_DEFAULT_IP :: string where "FPGA_LINKLOCAL_DEFAULT_IP = ''169.254.32.1''"

definition AUTO_FPGA_LINK_PROFILES :: "(string \<times> link_profile) list" where
  "AUTO_FPGA_LINK_PROFILES =
     [(''enp225s0f0'',
       \<lparr>lp_target_ip = ''192.168.1.128'', lp_target_mac = ''02:00:00:00:00:01'',
        lp_target_profile = ''custom_xczu47dr_master'', lp_inventory_name = ''XCZU47DR 081'',
        lp_jtag_cable_serial = ''210512180081'',
        lp_serial_path = ''/dev/serial/by-id/usb-FTDI_FT232R_USB_UART_AQ04KVC7-if00-port0'',
        lp_source_ip = ''192.168.1.10'', lp_source_cidr = ''192.168.1.10/24'',
        lp_discovery_source_ip = ''169.254.250.10'', lp_discovery_source_cidr = ''169.254.250.10/16'',
        lp_bootstrap_source_ip = ''192.168.254.10'', lp_bootstrap_source_cidr = ''192.168.254.10/24'',
        lp_bootstrap_ip = FPGA_BOOTSTRAP_IP, lp_pool_prefix = ''192.168.1'',
        lp_pool_start = 128, lp_pool_end = 254, lp_dynamic = False\<rparr>),
      (''enp225s0f1'',
       \<lparr>lp_target_ip = ''192.168.2.128'', lp_target_mac = ''02:00:00:00:00:02'',
        lp_target_profile = ''custom_xczu47dr_slave'', lp_inventory_name = ''XCZU47DR 082'',
        lp_jtag_cable_serial = ''210512180082'',
        lp_serial_path = ''/dev/serial/by-id/usb-FTDI_FT232R_USB_UART_AQ04KVC8-if00-port0'',
        lp_source_ip = ''192.168.2.10'', lp_source_cidr = ''192.168.2.10/24'',
        lp_discovery_source_ip = ''169.254.250.11'', lp_discovery_source_cidr = ''169.254.250.11/16'',
        lp_bootstrap_source_ip = ''192.168.254.11'', lp_bootstrap_source_cidr = ''192.168.254.11/24'',
        lp_bootstrap_ip = FPGA_BOOTSTRAP_IP, lp_pool_prefix = ''192.168.2'',
        lp_pool_start = 128, lp_pool_end = 254, lp_dynamic = False\<rparr>)]"

record host_env =
  he_dynamic_nics :: bool
  he_digest :: "string \<Rightarrow> byte \<times> byte"
  he_names :: "string list option"
  he_present :: "string \<Rightarrow> bool"
  he_type :: "string \<Rightarrow> string option"
  he_device_path :: "string \<Rightarrow> string option"
  he_speed :: "string \<Rightarrow> int option"
  he_operstate :: "string \<Rightarrow> string option"
  he_carrier :: "string \<Rightarrow> string option"
  he_default_routes :: "string list"
  he_ipv4 :: "string \<Rightarrow> string list"

definition skip_dynamic_interface :: "host_env \<Rightarrow> string \<Rightarrow> bool" where
  "skip_dynamic_interface h name =
     (if name \<in> set PROFILED_UDP_INTERFACES then False
      else if name = ''lo'' \<or> list_ex (\<lambda>p. starts_with p name)
          [''docker'', ''veth'', ''br-'', ''virbr'', ''wl'', ''tailscale'', ''zt''] then True
      else case he_type h name of
          None \<Rightarrow> True
        | Some t \<Rightarrow>
            if t \<noteq> ''1'' then True
            else case he_device_path h name of
                None \<Rightarrow> True
              | Some path \<Rightarrow> contains ''/virtual/'' path \<or> contains ''/usb'' path)"

definition dynamic_fpga_link_profile :: "host_env \<Rightarrow> string \<Rightarrow> link_profile option" where
  "dynamic_fpga_link_profile h interface =
     (if interface \<in> fst ` set AUTO_FPGA_LINK_PROFILES then None
      else if \<not> he_dynamic_nics h then None
      else if \<not> he_present h interface \<or> skip_dynamic_interface h interface then None
      else if interface \<in> set (he_default_routes h) then None
      else if (case he_speed h interface of None \<Rightarrow> False | Some speed \<Rightarrow> 0 < speed \<and> speed < 10000) then None
      else
        let digest = he_digest h interface;
            subnet = show_int (32 + uint (fst digest) mod 160);
            host_octet = show_int (20 + uint (snd digest) mod 180);
            linklocal_octet = show_int (20 + uint (fst digest) mod 200) in
        Some \<lparr>lp_target_ip = ''192.168.'' @ subnet @ ''.128'', lp_target_mac = ''02:00:00:00:00:01'',
          lp_target_profile = ''custom_xczu47dr'', lp_inventory_name = [], lp_jtag_cable_serial = [],
          lp_serial_path = [], lp_source_ip = ''192.168.'' @ subnet @ ''.10'',
          lp_source_cidr = ''192.168.'' @ subnet @ ''.10/24'',
          lp_discovery_source_ip = ''169.254.250.'' @ host_octet,
          lp_discovery_source_cidr = ''169.254.250.'' @ host_octet @ ''/16'',
          lp_bootstrap_source_ip = ''192.168.254.'' @ linklocal_octet,
          lp_bootstrap_source_cidr = ''192.168.254.'' @ linklocal_octet @ ''/24'',
          lp_bootstrap_ip = FPGA_BOOTSTRAP_IP, lp_pool_prefix = ''192.168.'' @ subnet,
          lp_pool_start = 128, lp_pool_end = 254, lp_dynamic = True\<rparr>)"

definition explicit_auto_fpga_link_profile :: "string \<Rightarrow> link_profile option" where
  "explicit_auto_fpga_link_profile interface = map_of AUTO_FPGA_LINK_PROFILES interface"

definition auto_fpga_link_profile :: "host_env \<Rightarrow> string \<Rightarrow> link_profile option" where
  "auto_fpga_link_profile h interface =
     (case map_of AUTO_FPGA_LINK_PROFILES interface of
        Some profile \<Rightarrow> Some profile
      | None \<Rightarrow> dynamic_fpga_link_profile h interface)"

section \<open>Source addresses\<close>

definition required_auto_source_cidrs :: "host_env \<Rightarrow> string \<Rightarrow> string list" where
  "required_auto_source_cidrs h interface =
     (case auto_fpga_link_profile h interface of
        None \<Rightarrow> []
      | Some profile \<Rightarrow> [lp_source_cidr profile, lp_discovery_source_cidr profile, lp_bootstrap_source_cidr profile])"

definition required_auto_source_cidrs_from_profile :: "link_profile \<Rightarrow> string list" where
  "required_auto_source_cidrs_from_profile profile =
     [lp_source_cidr profile, lp_discovery_source_cidr profile] @
     (if lp_bootstrap_source_cidr profile \<noteq> [] then [lp_bootstrap_source_cidr profile] else [])"

definition cidr_address :: "string \<Rightarrow> string" where
  "cidr_address cidr = takeWhile (\<lambda>c. c \<noteq> CHR ''/'') cidr"

definition missing_source_addresses :: "link_profile option \<Rightarrow> string list \<Rightarrow> string list" where
  "missing_source_addresses profile addresses =
     (case profile of
        None \<Rightarrow> []
      | Some p \<Rightarrow> filter (\<lambda>cidr. cidr_address cidr \<notin> set addresses) (required_auto_source_cidrs_from_profile p))"

definition missing_auto_source_addresses :: "host_env \<Rightarrow> string \<Rightarrow> string list" where
  "missing_auto_source_addresses h interface =
     missing_source_addresses (auto_fpga_link_profile h interface) (he_ipv4 h interface)"

text \<open>The outcome of an \<open>ip\<close> command: None without the program, or its return code and texts.\<close>

type_synonym command_runner = "string list \<Rightarrow> (int \<times> string \<times> string) option"

definition run_ip_command :: "command_runner \<Rightarrow> string list \<Rightarrow> unit result" where
  "run_ip_command run args =
     (case run args of
        None \<Rightarrow> Inl NetworkAutoConfigError
      | Some (returncode, out, err) \<Rightarrow>
          if returncode = 0 then Inr ()
          else
            let error_text = strip (if err \<noteq> [] then err else if out \<noteq> [] then out else ''unknown error'') in
            if contains ''File exists'' error_text then Inr () else Inl NetworkAutoConfigError)"

definition ensure_auto_source_addresses :: "host_env \<Rightarrow> command_runner \<Rightarrow> string \<Rightarrow> string list result" where
  "ensure_auto_source_addresses h run interface =
     efold (\<lambda>cidr added.
         ebind (run_ip_command run [''ip'', ''address'', ''replace'', cidr, ''dev'', interface]) (\<lambda>_.
         Inr (added @ [cidr])))
       (missing_auto_source_addresses h interface) []"

definition ensure_auto_link_ready :: "host_env \<Rightarrow> command_runner \<Rightarrow> string \<Rightarrow> string list result" where
  "ensure_auto_link_ready h run interface =
     (case auto_fpga_link_profile h interface of
        None \<Rightarrow> Inr []
      | Some _ \<Rightarrow>
          let operstate = (case he_operstate h interface of None \<Rightarrow> ''missing'' | Some s \<Rightarrow> s) in
          ebind (if operstate \<noteq> ''up'' then run_ip_command run [''ip'', ''link'', ''set'', ''dev'', interface, ''up'']
                 else Inr ()) (\<lambda>_.
          ensure_auto_source_addresses h run interface))"

definition udp_source_ip_for_address :: "host_env \<Rightarrow> string \<Rightarrow> string \<Rightarrow> string option \<Rightarrow> string" where
  "udp_source_ip_for_address h udp_interface udp_source_ip address =
     (case (auto_fpga_link_profile h udp_interface, address) of
        (Some profile, Some a) \<Rightarrow>
          if a = [] then udp_source_ip
          else if a = lp_bootstrap_ip profile then lp_bootstrap_source_ip profile
          else if starts_with ''169.254.'' a \<or> a \<in> {''169.254.255.255'', ''255.255.255.255''}
            then lp_discovery_source_ip profile
          else udp_source_ip
      | _ \<Rightarrow> udp_source_ip)"

section \<open>Pools and targets\<close>

definition ip_pool_for_interface :: "host_env \<Rightarrow> string \<Rightarrow> string list" where
  "ip_pool_for_interface h interface =
     (case auto_fpga_link_profile h interface of
        None \<Rightarrow> []
      | Some profile \<Rightarrow>
          map (\<lambda>suffix. lp_pool_prefix profile @ ''.'' @ show_int suffix) [lp_pool_start profile..lp_pool_end profile])"

text \<open>\<open>if address and address not in targets: targets.append(address)\<close>.\<close>

fun add_targets :: "string list \<Rightarrow> string list \<Rightarrow> string list" where
  "add_targets [] targets = targets"
| "add_targets (a # rest) targets =
     add_targets rest (if a \<noteq> [] \<and> a \<notin> set targets then targets @ [a] else targets)"

definition discovery_targets_for_interface :: "host_env \<Rightarrow> string \<Rightarrow> string list \<Rightarrow> string list" where
  "discovery_targets_for_interface h interface known_ips =
     (case auto_fpga_link_profile h interface of
        None \<Rightarrow> []
      | Some profile \<Rightarrow>
          add_targets [lp_target_ip profile, lp_bootstrap_ip profile, FPGA_LINKLOCAL_DEFAULT_IP,
                       ''169.254.255.255'', ''255.255.255.255'']
            (add_targets known_ips []))"

definition discovery_target_profile :: "host_env \<Rightarrow> string \<Rightarrow> string \<Rightarrow> string" where
  "discovery_target_profile h interface reported_profile =
     (let configured = (case auto_fpga_link_profile h interface of
                          None \<Rightarrow> ''custom_xczu47dr'' | Some p \<Rightarrow> lp_target_profile p) in
      if reported_profile \<in> {[], ''custom_xczu47dr''} \<and>
         configured \<in> {''custom_xczu47dr_master'', ''custom_xczu47dr_slave''} then configured
      else if reported_profile \<noteq> [] then reported_profile else configured)"

definition is_control_pool_ip :: "host_env \<Rightarrow> string \<Rightarrow> string \<Rightarrow> bool" where
  "is_control_pool_ip h interface address = (address \<in> set (ip_pool_for_interface h interface))"

section \<open>The NICs of the host\<close>

definition candidate_udp_interfaces :: "host_env \<Rightarrow> string list" where
  "candidate_udp_interfaces h =
     (let found = (case he_names h of None \<Rightarrow> [] | Some names \<Rightarrow> filter (\<lambda>n. \<not> skip_dynamic_interface h n) names);
          others = filter (\<lambda>n. n \<notin> set PROFILED_UDP_INTERFACES) found in
      PROFILED_UDP_INTERFACES @ sort (remdups others))"

datatype link_message = NicMissing | NoCarrier | NoAddress | LinkUp "string list"

record nic_info =
  nic_name :: string
  nic_present :: bool
  nic_operstate :: string
  nic_carrier :: bool
  nic_addresses :: "string list"
  nic_message :: link_message
  nic_dynamic :: bool

definition udp_interface_info :: "host_env \<Rightarrow> string \<Rightarrow> nic_info" where
  "udp_interface_info h name =
     (let present = he_present h name;
          operstate = (if present then case he_operstate h name of None \<Rightarrow> ''missing'' | Some s \<Rightarrow> s else ''missing'');
          carrier = (present \<and> (case he_carrier h name of None \<Rightarrow> ''0'' | Some s \<Rightarrow> s) = ''1'');
          addresses = (if present then he_ipv4 h name else []);
          profile = (if present then auto_fpga_link_profile h name else None) in
      \<lparr>nic_name = name, nic_present = present, nic_operstate = operstate, nic_carrier = carrier,
       nic_addresses = addresses,
       nic_message = (if \<not> present then NicMissing else if \<not> carrier then NoCarrier
                     else if addresses = [] then NoAddress else LinkUp addresses),
       nic_dynamic = (case profile of None \<Rightarrow> False | Some p \<Rightarrow> lp_dynamic p)\<rparr>)"

definition list_udp_interfaces :: "host_env \<Rightarrow> nic_info list" where
  "list_udp_interfaces h = map (udp_interface_info h) (candidate_udp_interfaces h)"

datatype path_error = AutoConfigFailed | InterfaceMissing | InterfaceDown | SourceMissing "string list"

text \<open>\<open>h'\<close> is what the host reports after the commands of \<open>ensure_auto_link_ready\<close>.\<close>

definition udp_path_error :: "host_env \<Rightarrow> command_runner \<Rightarrow> host_env \<Rightarrow> string \<Rightarrow> string \<Rightarrow> path_error option" where
  "udp_path_error h run h' udp_interface udp_source_ip =
     (case ensure_auto_link_ready h run udp_interface of
        Inl _ \<Rightarrow> Some AutoConfigFailed
      | Inr _ \<Rightarrow>
          (case find (\<lambda>i. nic_name i = udp_interface) (list_udp_interfaces h') of
             None \<Rightarrow> Some InterfaceMissing
           | Some i \<Rightarrow>
               if \<not> nic_present i then Some InterfaceMissing
               else if \<not> nic_carrier i then Some InterfaceDown
               else if udp_source_ip \<notin> set (nic_addresses i) then Some (SourceMissing (nic_addresses i))
               else None))"
section \<open>The pools are blocks of addresses\<close>

text \<open>The third byte of the network of a profile.\<close>

definition subnet_of :: "host_env \<Rightarrow> string \<Rightarrow> int" where
  "subnet_of h interface =
     (if interface = ''enp225s0f0'' then 1 else if interface = ''enp225s0f1'' then 2
      else 32 + uint (fst (he_digest h interface)) mod 160)"

lemma subnet_range: "subnet_of h interface \<in> {1, 2} \<union> {32..<192}"
  by (simp add: subnet_of_def pos_mod_bound)

definition net_base :: "int \<Rightarrow> int" where
  "net_base subnet = 192 * 2 ^ 24 + 168 * 2 ^ 16 + subnet * 2 ^ 8"

lemma u32_ipv4_net:
  assumes "0 \<le> subnet" "subnet < 256" "0 \<le> k" "k < 256"
  shows "u32_ipv4 (net_base subnet + k) = ''192.168.'' @ show_int subnet @ ''.'' @ show_int k"
proof -
  obtain a b where n: "subnet = int a" "k = int b" using assms by (metis nonneg_int_cases)
  then have ab: "a < 256" "b < 256" using assms by simp_all
  let ?v = "3232235520 + a * 256 + b"
  have v: "nat ((net_base subnet + k) AND 0xFFFFFFFF) = ?v"
    using ab by (simp add: net_base_def n and_mask_numerals)
  have v1: "?v = (a * 256 + b) + 49320 * 65536" and v2: "?v = b + (a + 49320 * 256) * 256"
    and v3: "?v = (a * 256 + b + 168 * 65536) + 192 * 16777216" by simp_all
  have d1: "?v div 65536 mod 256 = 168"
    unfolding v1 using ab by (subst div_mult_self1) simp_all
  have "?v div 256 = a + 49320 * 256"
    unfolding v2 using ab by (subst div_mult_self1) simp_all
  then have d2: "?v div 256 mod 256 = a" using ab by (simp only: mod_mult_self1 mod_less)
  have d3: "?v mod 256 = b" unfolding v2 using ab by (simp only: mod_mult_self1 mod_less)
  have d4: "?v div 16777216 = 192" unfolding v3 using ab by (subst div_mult_self1) simp_all
  note d = d1 d2 d3 d4
  have t: "dec_digits 192 = ''192''" "dec_digits 168 = ''168''" by code_simp+
  show ?thesis unfolding u32_ipv4_def v Let_def d t using n by (simp add: show_int_def)
qed

lemma profile_addresses:
  assumes "auto_fpga_link_profile h interface = Some p"
  shows "lp_pool_prefix p = ''192.168.'' @ show_int (subnet_of h interface)"
    "lp_pool_start p = 128" "lp_pool_end p = 254"
    "lp_target_ip p = ''192.168.'' @ show_int (subnet_of h interface) @ ''.'' @ show_int 128"
    "lp_source_ip p = ''192.168.'' @ show_int (subnet_of h interface) @ ''.'' @ show_int 10"
    "lp_bootstrap_ip p = ''192.168.254.254''"
proof -
  have d: "show_int 1 = ''1''" "show_int 2 = ''2''" "show_int 128 = ''128''" "show_int 10 = ''10''"
    by code_simp+
  from assms consider "interface = ''enp225s0f0''" "map_of AUTO_FPGA_LINK_PROFILES interface = Some p"
    | "interface = ''enp225s0f1''" "map_of AUTO_FPGA_LINK_PROFILES interface = Some p"
    | "interface \<noteq> ''enp225s0f0''" "interface \<noteq> ''enp225s0f1''" "dynamic_fpga_link_profile h interface = Some p"
    by (auto simp: auto_fpga_link_profile_def AUTO_FPGA_LINK_PROFILES_def split: if_splits)
  note c = this
  show "lp_pool_prefix p = ''192.168.'' @ show_int (subnet_of h interface)"
    "lp_pool_start p = 128" "lp_pool_end p = 254"
    "lp_target_ip p = ''192.168.'' @ show_int (subnet_of h interface) @ ''.'' @ show_int 128"
    "lp_source_ip p = ''192.168.'' @ show_int (subnet_of h interface) @ ''.'' @ show_int 10"
    "lp_bootstrap_ip p = ''192.168.254.254''"
    by (cases rule: c; auto simp: AUTO_FPGA_LINK_PROFILES_def dynamic_fpga_link_profile_def Let_def subnet_of_def
        FPGA_BOOTSTRAP_IP_def d split: if_splits)+
qed



lemma pool_addresses:
  "ip_pool_for_interface h interface =
     (case auto_fpga_link_profile h interface of None \<Rightarrow> []
      | Some _ \<Rightarrow> map (\<lambda>k. u32_ipv4 (net_base (subnet_of h interface) + k)) [128..254])"
proof (cases "auto_fpga_link_profile h interface")
  case (Some p)
  have s: "0 \<le> subnet_of h interface" "subnet_of h interface < 256" using subnet_range [of h interface] by auto
  have "map (\<lambda>k. (''192.168.'' @ show_int (subnet_of h interface)) @ ''.'' @ show_int k) [a..b] =
      map (\<lambda>k. u32_ipv4 (net_base (subnet_of h interface) + k)) [a..b]" if "0 \<le> a" "b < 256" for a b
    by (rule map_cong [OF refl]) (use that in \<open>simp add: u32_ipv4_net [OF s]\<close>)
  from this [of 128 254] show ?thesis
    unfolding ip_pool_for_interface_def Some option.case profile_addresses(1-3) [OF Some]
    by simp
qed (simp add: ip_pool_for_interface_def)

lemma target_in_pool:
  assumes "auto_fpga_link_profile h interface = Some p"
  shows "lp_target_ip p \<in> set (ip_pool_for_interface h interface)" "lp_target_ip p \<noteq> []"
proof -
  have s: "0 \<le> subnet_of h interface" "subnet_of h interface < 256" using subnet_range [of h interface] by auto
  have t: "lp_target_ip p = u32_ipv4 (net_base (subnet_of h interface) + 128)"
    unfolding profile_addresses(4) [OF assms] by (simp add: u32_ipv4_net [OF s])
  show "lp_target_ip p \<in> set (ip_pool_for_interface h interface)"
    unfolding pool_addresses assms option.case t set_map set_upto by (rule imageI) simp
  show "lp_target_ip p \<noteq> []" unfolding profile_addresses(4) [OF assms] by simp
qed

text \<open>Different addresses have different texts.\<close>

lemma u32_ipv4_inject:
  assumes "0 \<le> v" "v < 2 ^ 32" "0 \<le> w" "w < 2 ^ 32" "u32_ipv4 v = u32_ipv4 w"
  shows "v = w"
proof -
  have "Inr v = ip4_address (u32_ipv4 w)" using ip4_address_u32 [OF assms(1,2)] by (simp only: assms(5))
  then show ?thesis by (simp only: ip4_address_u32 [OF assms(3,4)] sum.inject)
qed

lemma net_base_range: "0 \<le> subnet \<Longrightarrow> subnet < 256 \<Longrightarrow> 0 \<le> k \<Longrightarrow> k < 256 \<Longrightarrow>
    0 \<le> net_base subnet + k \<and> net_base subnet + k < 2 ^ 32"
  by (simp add: net_base_def)

lemma net_address_inject:
  assumes "u32_ipv4 (net_base s + k) = u32_ipv4 (net_base t + l)"
    "0 \<le> s" "s < 256" "0 \<le> t" "t < 256" "0 \<le> k" "k < 256" "0 \<le> l" "l < 256"
  shows "s = t \<and> k = l"
proof -
  have "net_base s + k = net_base t + l"
    by (rule u32_ipv4_inject) (use assms net_base_range in auto)
  then have e: "s * 256 + k = t * 256 + l" by (simp add: net_base_def)
  then have "(s * 256 + k) div 256 = (t * 256 + l) div 256" by simp
  then have "s = t" using assms by simp
  with e show ?thesis by simp
qed

text \<open>
  The control addresses of a NIC with a profile are one block, base + 128 to base + 254, of a private
  /24 network. They are distinct and valid IPv4 texts; the preferred target is the first of them, the
  host's own source address and the bootstrap address are not among them. The blocks of two NICs are the
  same or disjoint, and the two NICs with fixed profiles share their block with no other NIC.
\<close>

lemma control_pools:
  "case auto_fpga_link_profile h interface of
     None \<Rightarrow> ip_pool_for_interface h interface = []
   | Some p \<Rightarrow>
       ip_pool_for_interface h interface = map (\<lambda>k. u32_ipv4 (net_base (subnet_of h interface) + k)) [128..254] \<and>
       subnet_of h interface \<in> {1, 2} \<union> {32..<192} \<and> distinct (ip_pool_for_interface h interface) \<and>
       length (ip_pool_for_interface h interface) = 127 \<and>
       lp_target_ip p = hd (ip_pool_for_interface h interface) \<and>
       lp_source_ip p \<notin> set (ip_pool_for_interface h interface) \<and>
       lp_bootstrap_ip p \<notin> set (ip_pool_for_interface h interface) \<and>
       list_all (\<lambda>a. \<exists>v. ip4_address a = Inr v) (ip_pool_for_interface h interface) \<and>
       (set (ip_pool_for_interface h interface) \<inter> set (ip_pool_for_interface h other) = {} \<or>
        (ip_pool_for_interface h other = ip_pool_for_interface h interface \<and>
         (interface = other \<or> 32 \<le> subnet_of h interface)))"
proof (cases "auto_fpga_link_profile h interface")
  case (Some p)
  let ?s = "subnet_of h interface" and ?t = "subnet_of h other"
  have s: "0 \<le> ?s" "?s < 256" "?s \<noteq> 254" "0 \<le> ?t" "?t < 256"
    using subnet_range [of h interface] subnet_range [of h other] by auto
  define K where "K = [128..254::int]"
  have K: "set K = {128..254}" "distinct K" "length K = 127" unfolding K_def by (simp_all add: distinct_upto length_upto del: upto_rec_numeral)
  have hd: "hd K = 128" "K \<noteq> []" unfolding K_def by (simp_all add: upto_rec1)
  note pool = pool_addresses [of h interface, unfolded Some option.case, folded K_def]
  have inj: "inj_on (\<lambda>k. u32_ipv4 (net_base ?s + k)) (set K)"
    unfolding K by (rule inj_onI) (use net_address_inject [of ?s _ ?s] s in auto)
  have valid: "\<exists>v. ip4_address (u32_ipv4 (net_base ?s + k)) = Inr v" if "k \<in> set K" for k
    using ip4_address_u32 [of "net_base ?s + k"] net_base_range [OF s(1,2), of k] that K by auto
  have src: "u32_ipv4 (net_base ?s + 10) \<notin> (\<lambda>k. u32_ipv4 (net_base ?s + k)) ` set K"
    using net_address_inject [of ?s 10 ?s] s K by fastforce
  have boot: "u32_ipv4 (net_base 254 + 254) \<notin> (\<lambda>k. u32_ipv4 (net_base ?s + k)) ` set K"
    using net_address_inject [of 254 254 ?s] s K by fastforce
  have "show_int 254 = ''254''" by code_simp
  then have b: "''192.168.254.254'' = u32_ipv4 (net_base 254 + 254)" by (simp add: u32_ipv4_net)
  have fixed: "interface = other \<or> 32 \<le> ?s" if "?s = ?t"
    using that subnet_range [of h other] by (auto simp: subnet_of_def split: if_splits)
  have two: "(\<lambda>k. u32_ipv4 (net_base ?s + k)) ` set K \<inter> (\<lambda>k. u32_ipv4 (net_base ?t + k)) ` set K = {}" if "?s \<noteq> ?t"
    using net_address_inject [of ?s _ ?t] s K that by fastforce
  have blocks: "set (ip_pool_for_interface h interface) \<inter> set (ip_pool_for_interface h other) = {} \<or>
      (ip_pool_for_interface h other = ip_pool_for_interface h interface \<and> ?s = ?t)"
    unfolding pool pool_addresses [of h other, folded K_def]
    using two by (cases "?s = ?t"; cases "auto_fpga_link_profile h other") simp_all
  then have blocks': "set (ip_pool_for_interface h interface) \<inter> set (ip_pool_for_interface h other) = {} \<or>
      (ip_pool_for_interface h other = ip_pool_for_interface h interface \<and> (interface = other \<or> 32 \<le> ?s))"
    using fixed by blast
  have t: "lp_target_ip p = u32_ipv4 (net_base ?s + 128)" "lp_source_ip p = u32_ipv4 (net_base ?s + 10)"
    "lp_bootstrap_ip p = u32_ipv4 (net_base 254 + 254)"
    by (simp_all only: profile_addresses [OF Some] b) (simp_all add: u32_ipv4_net [OF s(1,2)])
  show ?thesis
    unfolding Some option.case t K_def [symmetric]
    using blocks' valid src boot inj subnet_range [of h interface]
    unfolding pool by (simp add: K hd distinct_map hd_map list_all_iff)
qed (simp add: ip_pool_for_interface_def)

section \<open>Targets, candidates and the path to a board\<close>

lemma add_targets_set: "set (add_targets xs ts) = set ts \<union> (set xs - {[]})"
  by (induction xs ts rule: add_targets.induct) auto

lemma add_targets_distinct: "distinct ts \<Longrightarrow> distinct (add_targets xs ts)"
  by (induction xs ts rule: add_targets.induct) auto

lemma add_targets_prefix: "\<exists>rest. add_targets xs ts = ts @ rest"
  by (induction xs ts rule: add_targets.induct) auto

text \<open>A discovery on a NIC with a profile asks every known address and the five standard ones, once each,
  the known ones first.\<close>

lemma discovery_targets:
  assumes "auto_fpga_link_profile h interface = Some p"
  shows "distinct (discovery_targets_for_interface h interface known)"
    "set (discovery_targets_for_interface h interface known) = (set known - {[]}) \<union>
       ({lp_target_ip p, lp_bootstrap_ip p, FPGA_LINKLOCAL_DEFAULT_IP, ''169.254.255.255'', ''255.255.255.255''} - {[]})"
    "\<exists>rest. discovery_targets_for_interface h interface known = add_targets known [] @ rest"
proof -
  show "distinct (discovery_targets_for_interface h interface known)"
    unfolding discovery_targets_for_interface_def assms option.case by (intro add_targets_distinct) simp
  show "set (discovery_targets_for_interface h interface known) = (set known - {[]}) \<union>
       ({lp_target_ip p, lp_bootstrap_ip p, FPGA_LINKLOCAL_DEFAULT_IP, ''169.254.255.255'', ''255.255.255.255''} - {[]})"
    unfolding discovery_targets_for_interface_def assms option.case add_targets_set by (simp only: list.set) simp
  show "\<exists>rest. discovery_targets_for_interface h interface known = add_targets known [] @ rest"
    unfolding discovery_targets_for_interface_def assms option.case by (rule add_targets_prefix)
qed

lemma sort_remdups_names: "set (sort (remdups xs)) = set xs" "distinct (sort (remdups xs))"
  by simp_all

lemma candidate_interfaces:
  "distinct (candidate_udp_interfaces h)"
  "set PROFILED_UDP_INTERFACES \<subseteq> set (candidate_udp_interfaces h)"
  "n \<in> set (candidate_udp_interfaces h) \<longleftrightarrow> n \<in> set PROFILED_UDP_INTERFACES \<or>
     (\<exists>names. he_names h = Some names \<and> n \<in> set names \<and> \<not> skip_dynamic_interface h n)"
proof -
  have d: "distinct PROFILED_UDP_INTERFACES" by (simp add: PROFILED_UDP_INTERFACES_def)
  then show "distinct (candidate_udp_interfaces h)" by (auto simp: candidate_udp_interfaces_def Let_def)
  show "set PROFILED_UDP_INTERFACES \<subseteq> set (candidate_udp_interfaces h)" by (simp add: candidate_udp_interfaces_def Let_def)
  show "n \<in> set (candidate_udp_interfaces h) \<longleftrightarrow> n \<in> set PROFILED_UDP_INTERFACES \<or>
     (\<exists>names. he_names h = Some names \<and> n \<in> set names \<and> \<not> skip_dynamic_interface h n)"
    by (auto simp: candidate_udp_interfaces_def Let_def split: option.splits)
qed

text \<open>The path to a board is free of errors exactly when its NIC could be prepared and is then a
  candidate with a carrier and the board's source address.\<close>

lemma udp_path_ok:
  "udp_path_error h run h' nic source = None \<longleftrightarrow>
     (\<exists>added. ensure_auto_link_ready h run nic = Inr added) \<and> nic \<in> set (candidate_udp_interfaces h') \<and>
     he_present h' nic \<and> he_carrier h' nic = Some ''1'' \<and> source \<in> set (he_ipv4 h' nic)"
proof -
  have f: "find (\<lambda>i. nic_name i = nic) (map (udp_interface_info h') ns) =
      (if nic \<in> set ns then Some (udp_interface_info h' nic) else None)" for ns
    by (induction ns) (auto simp: udp_interface_info_def Let_def)
  show ?thesis
    unfolding udp_path_error_def list_udp_interfaces_def f
    by (auto simp: udp_interface_info_def Let_def split: sum.splits option.splits)
qed

text \<open>After the commands succeeded the addresses that were missing are the ones that were added.\<close>

lemma ensure_auto_source_addresses_Inr:
  assumes "ensure_auto_source_addresses h run interface = Inr added"
  shows "added = missing_auto_source_addresses h interface"
proof -
  have "efold (\<lambda>cidr added.
      ebind (run_ip_command run [''ip'', ''address'', ''replace'', cidr, ''dev'', interface]) (\<lambda>_. Inr (added @ [cidr])))
      cidrs before = Inr after \<Longrightarrow> after = before @ cidrs" for cidrs before after
  proof (induction cidrs arbitrary: before)
    case (Cons a cidrs)
    then show ?case by (auto simp: err_simps dest: Cons.IH)
  qed simp
  from this [of _ "[]"] assms show ?thesis by (simp add: ensure_auto_source_addresses_def)
qed

end
