(* ===== verification/Mgmt_Tables.thy ===== *)
theory Mgmt_Tables
  imports Prog Web_Network "HOL-Library.Product_Lexorder"
begin

text \<open>
  The database of the web application (\<open>webapp/management.py\<close>): the rows of its tables, the state of
  the store, and what an SQL statement does to it. A table is the list of its rows in the order of their
  insertion. A method is a program on the store; a transaction that raises leaves the store as it was.
  UNIQUE, CHECK and REFERENCES constraints are tests that raise \<open>IntegrityError\<close>; users and boards are
  never deleted, so the ON DELETE clauses do not act. The times are the texts of \<open>isoformat\<close>, in an
  order that is the order of time, and are arguments, as random tokens and identifiers are.
\<close>

section \<open>Rows\<close>

datatype user_role = ADMIN | USER

record user_row =
  us_id :: int
  us_username :: string
  us_password_hash :: string
  us_role :: user_role
  us_enabled :: bool
  us_created_at :: string

record session_row =
  se_token :: string
  se_csrf_token :: string
  se_user_id :: int
  se_expires_at :: string
  se_created_at :: string

record board_row =
  bo_id :: string
  bo_name :: string
  bo_model :: string
  bo_ip :: string
  bo_port :: int
  bo_mac :: string
  bo_bootstrap_ip :: string
  bo_desired_ip :: string
  bo_active_ip :: string
  bo_desired_mac :: string
  bo_active_mac :: string
  bo_device_uid :: string
  bo_network_revision :: int
  bo_network_apply_status :: string
  bo_network_apply_error :: string
  bo_udp_interface :: string
  bo_udp_source_ip :: string
  bo_clock_source :: string
  bo_target_profile :: string
  bo_jtag_cable_serial :: string
  bo_serial_path :: string
  bo_baud_rate :: int
  bo_serial_status :: string
  bo_serial_error :: string
  bo_location :: string
  bo_notes :: string
  bo_last_seen_at :: string
  bo_enabled :: bool
  bo_created_at :: string
  bo_updated_at :: string

datatype lease_status = LeaseActive | LeaseReleased | LeaseForced

record lease_row =
  le_id :: int
  le_board_id :: string
  le_user_id :: int
  le_status :: lease_status
  le_starts_at :: string
  le_released_at :: "string option"
  le_released_by :: "int option"

type_synonym details = "string \<Rightarrow> string option"

record discovery_row =
  di_id :: int
  di_kind :: string
  di_fingerprint :: string
  di_label :: string
  di_details :: details
  di_first_seen_at :: string
  di_last_seen_at :: string

record serial_log_row =
  sl_id :: int
  sl_board_id :: string
  sl_line :: string
  sl_created_at :: string

record artifact_row =
  ar_id :: string
  ar_label :: string
  ar_target_profile :: string
  ar_bit_name :: string
  ar_elf_name :: string
  ar_bit_path :: string
  ar_elf_path :: string
  ar_bit_sha256 :: string
  ar_elf_sha256 :: string
  ar_bit_size :: int
  ar_elf_size :: int
  ar_created_by :: int
  ar_created_at :: string

record job_row =
  pj_id :: string
  pj_board_id :: string
  pj_artifact_id :: string
  pj_state :: string
  pj_progress :: rat
  pj_error :: string
  pj_created_by :: int
  pj_created_at :: string
  pj_updated_at :: string

record program_log_row =
  pl_id :: int
  pl_job_id :: string
  pl_line :: string
  pl_created_at :: string

record audit_row =
  au_id :: int
  au_type :: string
  au_message :: string
  au_user_id :: "int option"
  au_board_id :: "string option"
  au_metadata :: details
  au_created_at :: string

record run_owner_row =
  ro_run_id :: string
  ro_user_id :: int

record rfdc_config_row =
  rc_board_id :: string
  rc_config_json :: string
  rc_revision :: int
  rc_applied_at :: "string option"
  rc_apply_status :: string
  rc_apply_error :: string
  rc_updated_at :: string

record phase_row =
  ph_device_uid :: string
  ph_frequency_hz :: int
  ph_channel :: int
  ph_phase_deg :: rat
  ph_updated_by :: "int option"
  ph_updated_at :: string

section \<open>The store\<close>

text \<open>The last fields are the sequences of the AUTOINCREMENT keys: the largest identifier ever given.\<close>

record store =
  st_users :: "user_row list"
  st_sessions :: "session_row list"
  st_boards :: "board_row list"
  st_leases :: "lease_row list"
  st_discoveries :: "discovery_row list"
  st_serial_logs :: "serial_log_row list"
  st_artifacts :: "artifact_row list"
  st_jobs :: "job_row list"
  st_program_logs :: "program_log_row list"
  st_audits :: "audit_row list"
  st_run_owners :: "run_owner_row list"
  st_rfdc_configs :: "rfdc_config_row list"
  st_phases :: "phase_row list"
  seq_users :: int
  seq_leases :: int
  seq_discoveries :: int
  seq_serial_logs :: int
  seq_program_logs :: int
  seq_audits :: int

text \<open>The tables right after CREATE TABLE.\<close>

definition empty_store :: store where
  "empty_store =
     \<lparr>st_users = [], st_sessions = [], st_boards = [], st_leases = [], st_discoveries = [],
      st_serial_logs = [], st_artifacts = [], st_jobs = [], st_program_logs = [], st_audits = [],
      st_run_owners = [], st_rfdc_configs = [], st_phases = [], seq_users = 0, seq_leases = 0,
      seq_discoveries = 0, seq_serial_logs = 0, seq_program_logs = 0, seq_audits = 0\<rparr>"

section \<open>Statements\<close>

definition transaction :: "('s, 'a) prog \<Rightarrow> ('s, 'a) prog" where
  "transaction m s = (case m s of (Inl e, _) \<Rightarrow> (Inl e, s) | (Inr x, s') \<Rightarrow> (Inr x, s'))"

definition sql_check :: "(store \<Rightarrow> bool) \<Rightarrow> (store, unit) prog" where
  "sql_check ok = pbind (pgets ok) (\<lambda>b. praise_if (\<not> b) IntegrityError)"

text \<open>\<open>UPDATE ... WHERE\<close> on the rows of a table.\<close>

definition sql_update :: "('r \<Rightarrow> bool) \<Rightarrow> ('r \<Rightarrow> 'r) \<Rightarrow> 'r list \<Rightarrow> 'r list" where
  "sql_update P f rows = map (\<lambda>r. if P r then f r else r) rows"

text \<open>\<open>LIMIT\<close>; a negative limit is none. \<open>ORDER BY ... DESC\<close> keeps the order of equal rows.\<close>

definition sql_limit :: "int \<Rightarrow> 'r list \<Rightarrow> 'r list" where
  "sql_limit n rows = (if n < 0 then rows else take (nat n) rows)"

definition sort_desc :: "('r \<Rightarrow> 'k::linorder) \<Rightarrow> 'r list \<Rightarrow> 'r list" where
  "sort_desc key rows = rev (sort_key key (rev rows))"

text \<open>\<open>LIKE '%pattern%'\<close>: letters without case, and an underscore matches any character.\<close>

fun like_here :: "string \<Rightarrow> string \<Rightarrow> bool" where
  "like_here [] s \<longleftrightarrow> True"
| "like_here (p # ps) [] \<longleftrightarrow> False"
| "like_here (p # ps) (c # s) \<longleftrightarrow> (p = CHR ''_'' \<or> lower_char p = lower_char c) \<and> like_here ps s"

fun like_infix :: "string \<Rightarrow> string \<Rightarrow> bool" where
  "like_infix pat [] \<longleftrightarrow> like_here pat []"
| "like_infix pat (c # s) \<longleftrightarrow> like_here pat (c # s) \<or> like_infix pat s"

definition user_known :: "int \<Rightarrow> store \<Rightarrow> bool" where
  "user_known uid s \<longleftrightarrow> uid \<in> us_id ` set (st_users s)"

definition board_known :: "string \<Rightarrow> store \<Rightarrow> bool" where
  "board_known bid s \<longleftrightarrow> bid \<in> bo_id ` set (st_boards s)"

definition username_of :: "store \<Rightarrow> int \<Rightarrow> string option" where
  "username_of s uid = map_option us_username (find (\<lambda>u. us_id u = uid) (st_users s))"

section \<open>Audit events\<close>

definition add_audit ::
  "string \<Rightarrow> string \<Rightarrow> string \<Rightarrow> int option \<Rightarrow> string option \<Rightarrow> details \<Rightarrow> (store, unit) prog" where
  "add_audit now event_type message user_id board_id metadata =
     transaction (
       pthen (sql_check (\<lambda>s. case user_id of None \<Rightarrow> True | Some u \<Rightarrow> user_known u s)) (
       pthen (sql_check (\<lambda>s. case board_id of None \<Rightarrow> True | Some b \<Rightarrow> board_known b s)) (
       pmodify (\<lambda>s. s\<lparr>st_audits := st_audits s @
          [\<lparr>au_id = seq_audits s + 1, au_type = event_type, au_message = message, au_user_id = user_id,
            au_board_id = board_id, au_metadata = metadata, au_created_at = now\<rparr>],
          seq_audits := seq_audits s + 1\<rparr>))))"

definition audit_events :: "int \<Rightarrow> (store, (audit_row \<times> string option) list) prog" where
  "audit_events limit =
     transaction (pgets (\<lambda>s. map (\<lambda>a. (a, Option.bind (au_user_id a) (username_of s)))
       (sql_limit limit (sort_desc au_id (st_audits s)))))"

section \<open>Transactions\<close>

lemma keeps_transaction [keeps_rules]: "keeps I m \<Longrightarrow> keeps I (transaction m)"
  by (auto simp: keeps_def transaction_def split: prod.splits sum.splits)

lemma keeps_sql_check [keeps_rules]: "keeps I (sql_check ok)"
  unfolding sql_check_def by (intro keeps_rules)

lemma sql_check_apply [simp]: "sql_check ok s = (if ok s then Inr () else Inl IntegrityError, s)"
  by (simp add: sql_check_def prog_defs)

lemma transaction_Inr: "m s = (Inr x, s') \<Longrightarrow> transaction m s = (Inr x, s')"
  by (simp add: transaction_def)

lemma transaction_Inl: "m s = (Inl e, s') \<Longrightarrow> transaction m s = (Inl e, s)"
  by (simp add: transaction_def)

lemma transaction_pgets [simp]: "transaction (pgets f) s = (Inr (f s), s)"
  by (simp add: transaction_def)

text \<open>An exception inside a transaction undoes everything it did.\<close>

lemma transaction_atomic:
  "(\<exists>e. transaction m s = (Inl e, s)) \<or> (\<exists>x. transaction m s = m s \<and> fst (m s) = Inr x)"
  by (cases "m s"; cases "fst (m s)") (auto simp: transaction_def)

section \<open>Rows under updates\<close>

lemma sql_update_key:
  assumes "\<And>r. key (f r) = key r"
  shows "map key (sql_update P f rows) = map key rows"
  by (simp add: sql_update_def assms)

lemma set_sql_update: "r \<in> set (sql_update P f rows) \<longleftrightarrow> (\<exists>q \<in> set rows. r = (if P q then f q else q))"
  by (auto simp: sql_update_def)

lemma length_sort_desc [simp]: "length (sort_desc key rows) = length rows"
  by (simp add: sort_desc_def)

lemma set_sort_desc [simp]: "set (sort_desc key rows) = set rows"
  by (simp add: sort_desc_def)

lemma sort_desc_sorted: "sorted_wrt (\<lambda>a b. key b \<le> key a) (sort_desc key rows)"
proof -
  have "sorted (map key (sort_key key (rev rows)))" by simp
  then show ?thesis by (simp add: sort_desc_def sorted_wrt_rev sorted_map)
qed

lemma set_sql_limit: "set (sql_limit n rows) \<subseteq> set rows"
  by (auto simp: sql_limit_def dest: in_set_takeD)

lemma find_key:
  assumes "distinct (map key rows)" "r \<in> set rows"
  shows "find (\<lambda>q. key q = key r) rows = Some r"
  using assms by (induction rows) auto

lemma find_key_None: "find (\<lambda>q. key q = k) rows = None \<longleftrightarrow> k \<notin> key ` set rows"
  by (auto simp: find_None_iff)

lemma find_key_and:
  assumes "distinct (map key rows)" "r \<in> set rows"
  shows "find (\<lambda>q. key q = key r \<and> P q) rows = (if P r then Some r else None)"
  using assms by (induction rows) (auto simp: find_None_iff image_iff)

lemma find_snoc: "find P (xs @ [x]) = (case find P xs of Some y \<Rightarrow> Some y | None \<Rightarrow> if P x then Some x else None)"
  by (induction xs) auto

lemma find_SomeD: "find P xs = Some x \<Longrightarrow> x \<in> set xs \<and> P x"
  by (induction xs) (auto split: if_splits)


end
