(* ===== verification/Run_Store.thy ===== *)
theory Run_Store
  imports Mgmt_Tables
begin

text \<open>
  The runs of the web application: the requests of \<open>webapp/models.py\<close> with their validators, as far as
  the server reads them, and the table of runs of \<open>webapp/store.py\<close>. A record of a run is its row; its
  request is kept as the value its JSON text stands for. Every call of \<open>utc_now\<close> takes the next reading
  of a clock. A method that raises has committed nothing, except that the record read at the end may
  be refused after the update was committed.
\<close>

section \<open>Requests\<close>

record wave_channel =
  wc_channel :: int
  wc_enabled :: bool

text \<open>\<open>wq_rest\<close> stands for the fields the server hands on to the generators.\<close>

record waveform_request =
  wq_name :: string
  wq_mode :: string
  wq_loop :: bool
  wq_manual_channels :: "wave_channel list"
  wq_ezq_channels :: "wave_channel list"
  wq_rest :: string

text \<open>
  The RFDC configuration of one channel; numbers are finite floats. \<open>rfc_data\<close> stands for the offset, the
  amplitude and the phase of the data, \<open>rfc_actual\<close> for what the hardware reported last.
\<close>

record rfdc_actual =
  ac_nco_hz :: int
  ac_zone :: int
  ac_phase_mdeg :: int
  ac_current_ua :: int
  ac_nco_word :: int
  ac_phase_word :: int
  ac_vop_code :: int
  ac_status :: int

record channel_config =
  rfc_channel :: int
  rfc_current_ma :: rat
  rfc_target_hz :: rat
  rfc_nco_hz :: rat
  rfc_zone :: int
  rfc_data :: "rat \<times> rat \<times> rat"
  rfc_phase_deg :: rat
  rfc_calibration_deg :: rat
  rfc_actual :: "rfdc_actual option"

record rfdc_request =
  rr_board_id :: string
  rr_revision :: int
  rr_channels :: "channel_config list"

record apply_request =
  aq_channels :: "channel_config list"
  aq_mask :: int

record board_job =
  jb_board_id :: string
  jb_waveform :: waveform_request
  jb_override :: "(int \<Rightarrow> bool option) option"
  jb_rfdc_config :: "rfdc_request option"

record run_request =
  rq_jobs :: "board_job list"
  rq_dry_run :: bool
  rq_execution_mode :: string
  rq_completion_mode :: string
  rq_playback_mode :: string
  rq_one_shot_duration_ms :: rat

definition rq_board_ids :: "run_request \<Rightarrow> string list" where
  "rq_board_ids q = map jb_board_id (rq_jobs q)"

definition channel_config_valid :: "channel_config \<Rightarrow> bool" where
  "channel_config_valid c \<longleftrightarrow> 1 \<le> rfc_channel c \<and> rfc_channel c \<le> 8 \<and>
     9/4 \<le> rfc_current_ma c \<and> rfc_current_ma c \<le> 81/2 \<and> 0 \<le> rfc_target_hz c \<and> rfc_target_hz c \<le> 6400000000 \<and>
     \<bar>rfc_nco_hz c\<bar> \<le> 3200000000 \<and> rfc_zone c \<in> {1, 2} \<and>
     (case rfc_data c of (offset, amplitude, phase) \<Rightarrow> \<bar>offset\<bar> \<le> 160000000 \<and> \<bar>amplitude\<bar> \<le> 1 \<and> \<bar>phase\<bar> \<le> 3600) \<and>
     \<bar>rfc_phase_deg c\<bar> \<le> 3600 \<and> \<bar>rfc_calibration_deg c\<bar> \<le> 3600 \<and>
     (case rfc_actual c of None \<Rightarrow> True | Some a \<Rightarrow> ac_zone a \<in> {1, 2})"

definition eight_channels :: "channel_config list \<Rightarrow> bool" where
  "eight_channels channels \<longleftrightarrow> list_all channel_config_valid channels \<and> sort (map rfc_channel channels) = [1..8]"

definition rfdc_request_valid :: "rfdc_request \<Rightarrow> bool" where
  "rfdc_request_valid c \<longleftrightarrow> eight_channels (rr_channels c)"

definition validate_apply_request :: "channel_config list \<Rightarrow> int \<Rightarrow> apply_request result" where
  "validate_apply_request channels channel_mask =
     guard_raise (\<not> eight_channels channels \<or> channel_mask < 1 \<or> 0xFF < channel_mask) ValidationError (
     guard_raise (\<not> list_all (\<lambda>c. rfc_channel c \<in> {5, 6} \<longrightarrow> 32/5 \<le> rfc_current_ma c \<and> rfc_current_ma c \<le> 32) channels)
       ValidationError (
     Inr \<lparr>aq_channels = channels, aq_mask = channel_mask\<rparr>))"

text \<open>The channels of the mode in use.\<close>

definition mode_channels :: "waveform_request \<Rightarrow> wave_channel list" where
  "mode_channels w = (if wq_mode w = ''manual'' then wq_manual_channels w else wq_ezq_channels w)"

definition waveform_valid :: "waveform_request \<Rightarrow> bool" where
  "waveform_valid w \<longleftrightarrow> wq_name w \<noteq> [] \<and> length (wq_name w) \<le> 120 \<and> wq_mode w \<in> {''manual'', ''ezq''} \<and>
     list_all (\<lambda>c. 1 \<le> wc_channel c \<and> wc_channel c \<le> 8) (wq_manual_channels w @ wq_ezq_channels w) \<and>
     sort (map wc_channel (mode_channels w)) = [1..8]"

definition job_request_valid :: "board_job \<Rightarrow> bool" where
  "job_request_valid j \<longleftrightarrow> jb_board_id j \<noteq> [] \<and> length (jb_board_id j) \<le> 120 \<and> waveform_valid (jb_waveform j) \<and>
     (case jb_rfdc_config j of None \<Rightarrow> True | Some config \<Rightarrow> rfdc_request_valid config)"

definition validate_run_request :: "run_request \<Rightarrow> run_request result" where
  "validate_run_request q =
     guard_raise (rq_jobs q = [] \<or> \<not> list_all job_request_valid (rq_jobs q) \<or>
                  rq_execution_mode q \<notin> {''single'', ''synchronized''} \<or> rq_completion_mode q \<notin> {''upload'', ''one_shot''} \<or>
                  rq_playback_mode q \<notin> {''single'', ''continuous_sine''} \<or>
                  rq_one_shot_duration_ms q < 0 \<or> 3600000 < rq_one_shot_duration_ms q) ValidationError (
     guard_raise (\<not> distinct (rq_board_ids q)) ValidationError (
     guard_raise (rq_execution_mode q = ''single'' \<and> length (rq_jobs q) \<noteq> 1) ValidationError (
     guard_raise (rq_execution_mode q = ''synchronized'' \<and> length (rq_jobs q) \<noteq> 2) ValidationError (
     if rq_playback_mode q = ''continuous_sine'' then
       let w = jb_waveform (hd (rq_jobs q)) in
       guard_raise (\<not> wq_loop w) ValidationError (
       guard_raise (wq_mode w \<noteq> ''manual'') ValidationError (
       guard_raise (filter wc_enabled (wq_manual_channels w) = []) ValidationError (Inr q)))
     else Inr q))))"

section \<open>The tables\<close>

datatype run_state =
  Run_QUEUED | Run_GENERATING | Run_UPLOADING | Run_READY | Run_ARMED | Run_RUNNING | Run_DONE | Run_FAULT | Run_ABORTED

record run_row =
  rn_id :: string
  rn_name :: string
  rn_state :: run_state
  rn_dry_run :: bool
  rn_board_ids :: "string list"
  rn_start_mode :: string
  rn_execution_mode :: string
  rn_completion_mode :: string
  rn_playback_mode :: string
  rn_created_at :: string
  rn_updated_at :: string
  rn_artifact_dir :: string
  rn_progress :: rat
  rn_error :: string
  rn_request :: run_request
  rn_loaded :: bool
  rn_waveform_sessions :: "string \<Rightarrow> int option"

record event_row =
  ev_id :: int
  ev_run_id :: string
  ev_timestamp :: string
  ev_level :: string
  ev_message :: string

record run_store =
  rs_runs :: "run_row list"
  rs_events :: "event_row list"
  rs_last_event :: int
  rs_time :: "nat \<Rightarrow> string"
  rs_tick :: nat

definition utc_now :: "(run_store, string) prog" where
  "utc_now s = (Inr (rs_time s (rs_tick s)), s\<lparr>rs_tick := Suc (rs_tick s)\<rparr>)"

definition find_run :: "string \<Rightarrow> run_store \<Rightarrow> run_row option" where
  "find_run run_id s = find (\<lambda>r. rn_id r = run_id) (rs_runs s)"

definition update_runs :: "(run_row \<Rightarrow> bool) \<Rightarrow> (run_row \<Rightarrow> run_row) \<Rightarrow> (run_store, unit) prog" where
  "update_runs P f = pmodify (\<lambda>s. s\<lparr>rs_runs := sql_update P f (rs_runs s)\<rparr>)"

section \<open>Methods\<close>

text \<open>The repair of \<open>_initialize\<close> on tables that exist.\<close>

definition run_store_initialize :: "(run_store, unit) prog" where
  "run_store_initialize = update_runs (\<lambda>r. rn_dry_run r \<and> rn_loaded r) (\<lambda>r. r\<lparr>rn_loaded := False\<rparr>)"

text \<open>The model \<open>RunRecord\<close> accepts a progress in [0, 1] only.\<close>

definition run_record :: "run_row \<Rightarrow> run_row result" where
  "run_record r = guard_raise (rn_progress r < 0 \<or> 1 < rn_progress r) ValidationError (Inr r)"

definition rs_get :: "string \<Rightarrow> (run_store, run_row option) prog" where
  "rs_get run_id =
     pbind (pgets (find_run run_id)) (\<lambda>row.
     case row of None \<Rightarrow> pret None | Some r \<Rightarrow> pbind (plift (run_record r)) (\<lambda>x. pret (Some x)))"

definition rs_require :: "string \<Rightarrow> (run_store, run_row) prog" where
  "rs_require run_id =
     pbind (rs_get run_id) (\<lambda>found. case found of None \<Rightarrow> praise KeyError | Some r \<Rightarrow> pret r)"

definition rs_create :: "string \<Rightarrow> run_request \<Rightarrow> string \<Rightarrow> (run_store, run_row) prog" where
  "rs_create run_id request artifact_dir =
     pbind utc_now (\<lambda>now.
     pthen (praise_if (rq_jobs request = []) IndexError) (
     let r = \<lparr>rn_id = run_id, rn_name = wq_name (jb_waveform (hd (rq_jobs request))), rn_state = Run_QUEUED,
              rn_dry_run = rq_dry_run request, rn_board_ids = rq_board_ids request, rn_start_mode = ''trigger'',
              rn_execution_mode = rq_execution_mode request, rn_completion_mode = rq_completion_mode request,
              rn_playback_mode = rq_playback_mode request, rn_created_at = now, rn_updated_at = now,
              rn_artifact_dir = artifact_dir, rn_progress = 0, rn_error = [], rn_request = request,
              rn_loaded = False, rn_waveform_sessions = Map.empty\<rparr> in
     pbind (pgets (find_run run_id)) (\<lambda>old.
     pthen (praise_if (old \<noteq> None) IntegrityError) (
     pthen (pmodify (\<lambda>s. s\<lparr>rs_runs := rs_runs s @ [r]\<rparr>)) (
     pret r)))))"

text \<open>An UPDATE of one run, and the record read back.\<close>

definition rs_change :: "string \<Rightarrow> (string \<Rightarrow> run_row \<Rightarrow> run_row) \<Rightarrow> (run_store, run_row) prog" where
  "rs_change run_id f =
     pbind utc_now (\<lambda>now.
     pthen (update_runs (\<lambda>r. rn_id r = run_id) (f now)) (
     rs_require run_id))"

definition rs_set_waveform_sessions :: "string \<Rightarrow> (string \<Rightarrow> int option) \<Rightarrow> (run_store, run_row) prog" where
  "rs_set_waveform_sessions run_id sessions =
     rs_change run_id (\<lambda>now r. r\<lparr>rn_waveform_sessions := (\<lambda>b. map_option (\<lambda>v. v mod 2 ^ 32) (sessions b)), rn_updated_at := now\<rparr>)"

definition rs_update :: "string \<Rightarrow> run_state \<Rightarrow> rat \<Rightarrow> string \<Rightarrow> (run_store, run_row) prog" where
  "rs_update run_id state progress error_text =
     rs_change run_id (\<lambda>now r. r\<lparr>rn_state := state, rn_progress := progress, rn_error := error_text, rn_updated_at := now\<rparr>)"

definition rs_set_loaded :: "string \<Rightarrow> bool \<Rightarrow> (run_store, run_row) prog" where
  "rs_set_loaded run_id loaded = rs_change run_id (\<lambda>now r. r\<lparr>rn_loaded := loaded, rn_updated_at := now\<rparr>)"

definition rs_complete_loaded :: "string \<Rightarrow> run_state \<Rightarrow> (run_store, run_row) prog" where
  "rs_complete_loaded run_id state =
     rs_change run_id (\<lambda>now r. r\<lparr>rn_loaded := True, rn_state := state, rn_progress := 1, rn_updated_at := now\<rparr>)"

definition rs_complete_unloaded :: "string \<Rightarrow> (run_store, run_row) prog" where
  "rs_complete_unloaded run_id =
     rs_change run_id (\<lambda>now r. r\<lparr>rn_loaded := False, rn_state := Run_DONE, rn_progress := 1, rn_updated_at := now\<rparr>)"

definition rs_finish_one_shot :: "string \<Rightarrow> (run_store, run_row) prog" where
  "rs_finish_one_shot run_id =
     rs_change run_id (\<lambda>now r. r\<lparr>rn_loaded := False, rn_state := Run_DONE, rn_progress := 1, rn_updated_at := now\<rparr>)"

definition unfinished :: "run_state \<Rightarrow> bool" where
  "unfinished st \<longleftrightarrow> st \<in> {Run_QUEUED, Run_GENERATING, Run_UPLOADING, Run_READY, Run_ARMED, Run_RUNNING}"

definition orphan_note :: string where "orphan_note = ''server restart recovered an orphaned run''"

definition rs_recover_orphaned :: "string set \<Rightarrow> (run_store, run_row list) prog" where
  "rs_recover_orphaned active_ids =
     pbind (pgets (\<lambda>s. map rn_id (filter (\<lambda>r. unfinished (rn_state r) \<and> rn_id r \<notin> active_ids) (rs_runs s)))) (\<lambda>orphans.
     pthen (pfor orphans (\<lambda>run_id.
       pbind utc_now (\<lambda>now.
       update_runs (\<lambda>r. rn_id r = run_id)
         (\<lambda>r. r\<lparr>rn_state := Run_ABORTED, rn_error := orphan_note, rn_updated_at := now\<rparr>)))) (
     pbind (pmap rs_get orphans) (\<lambda>found.
     pret (List.map_filter (\<lambda>x. x) found))))"

definition rs_get_request :: "string \<Rightarrow> (run_store, run_request) prog" where
  "rs_get_request run_id =
     pbind (pgets (find_run run_id)) (\<lambda>row.
     case row of None \<Rightarrow> praise KeyError | Some r \<Rightarrow> plift (validate_run_request (rn_request r)))"

definition rs_list :: "int \<Rightarrow> (run_store, run_row list) prog" where
  "rs_list limit =
     pbind (pgets (\<lambda>s. sql_limit limit (sort_desc rn_created_at (rs_runs s)))) (\<lambda>rows.
     plift (emap run_record rows))"

definition rs_add_event :: "string \<Rightarrow> string \<Rightarrow> string \<Rightarrow> (run_store, event_row) prog" where
  "rs_add_event run_id message level =
     pbind utc_now (\<lambda>now.
     pthen (praise_if (level \<notin> {''info'', ''warning'', ''error''}) ValidationError) (
     pbind (pgets (\<lambda>s. \<lparr>ev_id = rs_last_event s + 1, ev_run_id = run_id, ev_timestamp = now, ev_level = level,
              ev_message = message\<rparr>)) (\<lambda>e.
     pthen (pmodify (\<lambda>s. s\<lparr>rs_events := rs_events s @ [e], rs_last_event := rs_last_event s + 1\<rparr>)) (
     pret e))))"

definition rs_run_events :: "string \<Rightarrow> (run_store, event_row list) prog" where
  "rs_run_events run_id = pgets (\<lambda>s. sort_key ev_id (filter (\<lambda>e. ev_run_id e = run_id) (rs_events s)))"
end
