(* ===== verification/Run_Coordinator.thy ===== *)
theory Run_Coordinator
  imports Run_Store Wave_Protocol
begin

text \<open>
  The coordinator of runs (\<open>RunCoordinator\<close> of \<open>webapp/controller.py\<close>). Its state is the run store, the
  dictionary of the boards and the runs that own them, the events published so far, the worker threads
  started, and the state of the boards. What it asks of the boards, the generators and the clock is a
  record of programs on that state, \<open>'s gateway\<close>: a call may raise, and during a long call other threads
  may call the coordinator, so a program of the gateway may change the whole state. \<open>execute\<close> is the
  body of a worker thread.
\<close>

section \<open>State\<close>

datatype board_state =
  Board_OFFLINE | Board_IDLE | Board_READY | Board_ARMED | Board_RUNNING | Board_DONE | Board_FAULT | Board_MUTED

datatype hub_event = RunUpdate run_row | RunDone run_row | RunEvent event_row | ServiceEvent string string

record 'g coord =
  co_store :: run_store
  co_active :: "string \<Rightarrow> string option"
  co_published :: "hub_event list"
  co_threads :: "string list"
  co_boards :: 'g

record board_info =
  bi_name :: string
  bi_target_profile :: string

text \<open>What an upload returns: the identity reported by COMMIT, if there is one, and the lines of its log.\<close>

record upload_outcome =
  up_commit :: "(int option \<times> int option) option"
  up_log_lines :: "string list"

text \<open>The answer of a board to RFDC_APPLY and RFDC_GET_CONFIG, the channels by their number.\<close>

record rfdc_answer =
  ra_status :: int
  ra_revision :: int
  ra_applied_mask :: int
  ra_error_mask :: int
  ra_valid_mask :: int
  ra_failure_stage :: int
  ra_failure_address :: int
  ra_axi_response :: int
  ra_channels :: "(int \<times> rfdc_actual) list"

record 's gateway =
  gw_simulation :: bool
  gw_artifacts_root :: string
  gw_profile :: "string \<Rightarrow> ('s, board_info) prog"
  gw_sync_two_boards :: "string \<Rightarrow> string \<Rightarrow> int \<Rightarrow> ('s, string) prog"
  gw_rfdc_service :: "(string \<Rightarrow> apply_request \<Rightarrow> ('s, string \<times> int) prog) option"
  gw_rfdc_apply :: "string \<Rightarrow> channel_config list \<Rightarrow> int \<Rightarrow> int \<Rightarrow> ('s, rfdc_answer) prog"
  gw_config :: "board_job \<Rightarrow> ('s, unit) prog"
  gw_upload :: "string \<Rightarrow> board_job \<Rightarrow> bool \<Rightarrow> ('s, upload_outcome) prog"
  gw_register :: "string \<Rightarrow> int \<Rightarrow> int \<Rightarrow> ('s, unit) prog"
  gw_mark_state :: "string \<Rightarrow> board_state \<Rightarrow> ('s, unit) prog"
  gw_refresh_online :: "string \<Rightarrow> ('s, bool) prog"
  gw_summary :: "string \<Rightarrow> ('s, string) prog"
  gw_arm :: "string \<Rightarrow> int \<Rightarrow> ('s, unit) prog"
  gw_manual_trigger :: "string \<Rightarrow> int \<Rightarrow> bool \<Rightarrow> ('s, unit) prog"
  gw_mute :: "string \<Rightarrow> int \<Rightarrow> ('s, unit) prog"
  gw_sleep :: "rat \<Rightarrow> ('s, unit) prog"
  gw_text :: "pyerror \<Rightarrow> string"
  gw_format_g :: "rat \<Rightarrow> string"

text \<open>A method of the run store, called by the coordinator.\<close>

definition with_store :: "(run_store, 'a) prog \<Rightarrow> ('g coord, 'a) prog" where
  "with_store m s = (case m (co_store s) of (r, st) \<Rightarrow> (r, s\<lparr>co_store := st\<rparr>))"

definition publish :: "hub_event \<Rightarrow> ('g coord, unit) prog" where
  "publish e = pmodify (\<lambda>s. s\<lparr>co_published := co_published s @ [e]\<rparr>)"

definition co_event :: "string \<Rightarrow> string \<Rightarrow> string \<Rightarrow> ('g coord, unit) prog" where
  "co_event run_id message level =
     pbind (with_store (rs_add_event run_id message level)) (\<lambda>e. publish (RunEvent e))"

definition publish_run :: "run_row \<Rightarrow> ('g coord, unit) prog" where
  "publish_run record = publish (RunUpdate record)"

definition release_group :: "string \<Rightarrow> ('g coord, unit) prog" where
  "release_group run_id = pmodify (\<lambda>s. s\<lparr>co_active := (\<lambda>b. if co_active s b = Some run_id then None else co_active s b)\<rparr>)"

definition active_run_for_board :: "string \<Rightarrow> ('g coord, string option) prog" where
  "active_run_for_board board_id = pgets (\<lambda>s. co_active s board_id)"

definition require_run :: "string \<Rightarrow> ('g coord, run_row) prog" where
  "require_run run_id = with_store (rs_require run_id)"

definition require_loaded :: "string \<Rightarrow> ('g coord, run_row) prog" where
  "require_loaded run_id =
     pbind (require_run run_id) (\<lambda>record.
     pthen (praise_if (rn_dry_run record \<or> rn_state record \<noteq> Run_DONE \<or> \<not> rn_loaded record) ValueError) (
     pret record))"

definition loaded_run_for_board :: "string \<Rightarrow> ('g coord, run_row option) prog" where
  "loaded_run_for_board board_id =
     pbind (with_store (rs_list 50)) (\<lambda>rows.
     pret (case filter (\<lambda>r. \<not> rn_dry_run r \<and> rn_loaded r \<and> rn_state r = Run_DONE \<and> board_id \<in> set (rn_board_ids r)) rows of
       [] \<Rightarrow> None | r # _ \<Rightarrow> Some r))"

section \<open>Sessions and channels\<close>

definition waveform_session :: "run_row \<Rightarrow> string \<Rightarrow> int result" where
  "waveform_session record board_id =
     guard_raise (board_id \<notin> set (rn_board_ids record)) RuntimeError (
     case rn_waveform_sessions record board_id of
       None \<Rightarrow> Inl RuntimeError
     | Some v \<Rightarrow> guard_raise (v mod 2 ^ 32 = 0) RuntimeError (Inr (v mod 2 ^ 32)))"

definition channel_on :: "board_job \<Rightarrow> wave_channel \<Rightarrow> bool" where
  "channel_on job c =
     (case jb_override job of
        None \<Rightarrow> wc_enabled c
      | Some enabled \<Rightarrow> (case enabled (wc_channel c) of None \<Rightarrow> wc_enabled c | Some b \<Rightarrow> b))"

definition channel_mask_for_job :: "board_job \<Rightarrow> int result" where
  "channel_mask_for_job job =
     (let mask_bits = fold (\<lambda>c m. if channel_on job c then or m (push_bit (nat (wc_channel c - 1)) 1) else m)
                        (mode_channels (jb_waveform job)) 0 in
      guard_raise (mask_bits = 0) ValueError (Inr mask_bits))"

definition master_profiles :: "string list" where
  "master_profiles = [''custom_xczu47dr'', ''custom_xczu47dr_master'']"

fun sync_master_id :: "'s gateway \<Rightarrow> board_job list \<Rightarrow> ('s, string) prog" where
  "sync_master_id gw [] = praise ValueError"
| "sync_master_id gw (job # jobs) =
     pbind (gw_profile gw (jb_board_id job)) (\<lambda>profile.
     if bi_target_profile profile \<in> set master_profiles then pret (jb_board_id job) else sync_master_id gw jobs)"

definition trigger_board_ids :: "'s gateway \<Rightarrow> run_request \<Rightarrow> ('s, string list) prog" where
  "trigger_board_ids gw request =
     (if rq_execution_mode request = ''synchronized''
      then pbind (sync_master_id gw (rq_jobs request)) (\<lambda>b. pret [b])
      else pret (rq_board_ids request))"

definition RF2_OK :: int where "RF2_OK = 0"

definition apply_job_rfdc :: "'s gateway \<Rightarrow> board_job \<Rightarrow> ('s, unit) prog" where
  "apply_job_rfdc gw job =
     (case jb_rfdc_config job of
        None \<Rightarrow> pret ()
      | Some config \<Rightarrow>
          pbind (plift (channel_mask_for_job job)) (\<lambda>channel_mask.
          case gw_rfdc_service gw of
            Some apply_rfdc \<Rightarrow>
              pbind (plift (validate_apply_request (rr_channels config) channel_mask)) (\<lambda>request.
              pbind (apply_rfdc (jb_board_id job) request) (\<lambda>(apply_status, error_mask).
              praise_if (apply_status \<notin> {''applied'', ''partial''} \<or> error_mask \<noteq> 0) RuntimeError))
          | None \<Rightarrow>
              pbind (gw_rfdc_apply gw (jb_board_id job) (sort_key rfc_channel (rr_channels config)) (rr_revision config) channel_mask)
                (\<lambda>answer. praise_if (ra_status answer \<noteq> RF2_OK \<or> ra_error_mask answer \<noteq> 0) RuntimeError)))"

definition ascii_bytes :: "string \<Rightarrow> bytes" where
  "ascii_bytes s = map (\<lambda>c. of_char c) s"

definition simulation_waveform_identity :: "string \<Rightarrow> string \<Rightarrow> int \<times> int" where
  "simulation_waveform_identity run_id board_id =
     (let seed_text = run_id @ '':'' @ board_id;
          session = crc32 (ascii_bytes (''waveform-session:'' @ seed_text));
          descriptor = crc32 (ascii_bytes (''waveform-descriptor:'' @ seed_text)) in
      (if session = 0 then 1 else session, if descriptor = 0 then 1 else descriptor))"

text \<open>The identity of an upload: what COMMIT reported, or one made up in the simulation.\<close>

definition upload_identity :: "bool \<Rightarrow> string \<Rightarrow> string \<Rightarrow> upload_outcome \<Rightarrow> (int \<times> int) result" where
  "upload_identity simulation run_id board_id outcome =
     (case up_commit outcome of
        Some (Some session, Some descriptor) \<Rightarrow>
          guard_raise (session mod 2 ^ 32 = 0 \<or> descriptor mod 2 ^ 32 = 0) RuntimeError (
          Inr (session mod 2 ^ 32, descriptor mod 2 ^ 32))
      | Some _ \<Rightarrow> Inl RuntimeError
      | None \<Rightarrow> if simulation then Inr (simulation_waveform_identity run_id board_id) else Inl RuntimeError)"

definition record_waveform_session :: "'g coord gateway \<Rightarrow> string \<Rightarrow> string \<Rightarrow> upload_outcome \<Rightarrow> ('g coord, run_row) prog" where
  "record_waveform_session gw run_id board_id outcome =
     pbind (require_run run_id) (\<lambda>record.
     pbind (plift (upload_identity (gw_simulation gw) run_id board_id outcome)) (\<lambda>(session, descriptor).
     pthen (praise_if (case rn_waveform_sessions record board_id of None \<Rightarrow> False | Some previous \<Rightarrow> previous \<noteq> session)
              RuntimeError) (
     pbind (with_store (rs_set_waveform_sessions run_id ((rn_waveform_sessions record)(board_id \<mapsto> session)))) (\<lambda>updated.
     pthen (if gw_simulation gw then gw_register gw board_id session descriptor else pret ()) (
     pret updated)))))"
section \<open>The worker\<close>

definition co_update :: "string \<Rightarrow> run_state \<Rightarrow> rat \<Rightarrow> string \<Rightarrow> ('g coord, run_row) prog" where
  "co_update run_id state progress error_text = with_store (rs_update run_id state progress error_text)"

text \<open>\<open>boards.mute(board_id, session=self._waveform_session(record, board_id))\<close>, and the same for the others.\<close>

definition on_session :: "run_row \<Rightarrow> (string \<Rightarrow> int \<Rightarrow> ('s, unit) prog) \<Rightarrow> string \<Rightarrow> ('s, unit) prog" where
  "on_session record act board_id =
     pbind (plift (waveform_session record board_id)) (\<lambda>session. act board_id session)"

definition synchronise :: "'g coord gateway \<Rightarrow> string \<Rightarrow> run_request \<Rightarrow> ('g coord, unit) prog" where
  "synchronise gw run_id request =
     pbind (sync_master_id gw (rq_jobs request)) (\<lambda>master_id.
     case find (\<lambda>job. jb_board_id job \<noteq> master_id) (rq_jobs request) of
       None \<Rightarrow> praise RuntimeError
     | Some slave \<Rightarrow>
         pthen (co_event run_id ''synchronizing HMC7044 SYSREF and waiting for DAC MTS'' ''info'') (
         case int_base16 run_id of
           None \<Rightarrow> praise ValueError
         | Some epoch \<Rightarrow>
             pbind (gw_sync_two_boards gw master_id (jb_board_id slave) epoch) (\<lambda>message.
             co_event run_id (''two-board synchronization complete: '' @ message) ''info'')))"

definition last_lines :: "nat \<Rightarrow> string list \<Rightarrow> string list" where
  "last_lines n xs = drop (length xs - n) xs"

definition execute_job :: "'g coord gateway \<Rightarrow> string \<Rightarrow> run_request \<Rightarrow> nat \<times> board_job \<Rightarrow> ('g coord, unit) prog" where
  "execute_job gw run_id request indexed =
     (case indexed of (index, job) \<Rightarrow>
      let board_id = jb_board_id job; live = \<not> rq_dry_run request in
      pbind (gw_profile gw board_id) (\<lambda>board.
      pthen (gw_config gw job) (
      pthen (if live then
               pbind (co_update run_id Run_UPLOADING (1/10 + 6/10 * of_nat index / of_nat (length (rq_board_ids request))) []) (\<lambda>record.
               pthen (co_event run_id ((if gw_simulation gw then ''simulating upload to '' else ''uploading '') @ bi_name board) ''info'')
                 (publish_run record))
             else pret ()) (
      pbind (gw_upload gw run_id job (rq_dry_run request \<or> gw_simulation gw)) (\<lambda>outcome.
      pthen (if live then pbind (record_waveform_session gw run_id board_id outcome) (\<lambda>_. pret ()) else pret ()) (
      pthen (pfor (last_lines 5 (up_log_lines outcome)) (\<lambda>line. co_event run_id (board_id @ '': '' @ line) ''info'')) (
      if live then
        pthen (gw_mark_state gw board_id Board_READY) (
        pbind (gw_refresh_online gw board_id) (\<lambda>online. praise_if (\<not> online) RuntimeError))
      else pret ())))))))"

definition finish_run :: "string \<Rightarrow> ('g coord, run_row) prog \<Rightarrow> ('g coord, unit) prog" where
  "finish_run run_id completion =
     pthen (release_group run_id) (
     pbind completion (\<lambda>record.
     pthen (publish_run record) (publish (RunDone record))))"

definition one_shot_message :: "'s gateway \<Rightarrow> run_request \<Rightarrow> string" where
  "one_shot_message gw request =
     (let duration = gw_format_g gw (rq_one_shot_duration_ms request) @ '' ms and muted'' in
      if rq_playback_mode request = ''continuous_sine'' then ''continuous playback triggered once for '' @ duration
      else if wq_loop (jb_waveform (hd (rq_jobs request))) then ''loop playback triggered once for '' @ duration
      else ''one-shot triggered and muted'')"

definition one_shot_trigger :: "'g coord gateway \<Rightarrow> string \<Rightarrow> run_request \<Rightarrow> run_row \<Rightarrow> string \<Rightarrow> ('g coord, unit) prog" where
  "one_shot_trigger gw run_id request record board_id =
     (if rn_dry_run record then gw_mark_state gw board_id Board_RUNNING
      else pthen (on_session record (\<lambda>b session. gw_manual_trigger gw b session (rq_playback_mode request = ''continuous_sine'')) board_id) (
           pbind (gw_summary gw board_id) (\<lambda>summary. co_event run_id (board_id @ '': '' @ summary) ''info'')))"

definition one_shot :: "'g coord gateway \<Rightarrow> string \<Rightarrow> run_request \<Rightarrow> ('g coord, unit) prog" where
  "one_shot gw run_id request =
     pbind (with_store (rs_complete_loaded run_id Run_READY)) (\<lambda>record.
     pthen (publish_run record) (
     pthen (pfor (rq_jobs request) (\<lambda>job.
              if rn_dry_run record then gw_mark_state gw (jb_board_id job) Board_ARMED
              else on_session record (gw_arm gw) (jb_board_id job))) (
     pbind (trigger_board_ids gw request) (\<lambda>targets.
     pthen (pfor targets (one_shot_trigger gw run_id request record)) (
     if rq_playback_mode request = ''continuous_sine'' \<and> rq_one_shot_duration_ms request \<le> 0 then
       pbind (co_update run_id Run_RUNNING 1 []) (\<lambda>record.
       pthen (co_event run_id ''continuous playback is running until Stop/Mute is requested'' ''info'')
         (publish_run record))
     else
       pthen (if 0 < rq_one_shot_duration_ms request then gw_sleep gw (rq_one_shot_duration_ms request / 1000) else pret ()) (
       pthen (pfor (rn_board_ids record) (\<lambda>b.
                if rn_dry_run record then gw_mark_state gw b Board_MUTED else on_session record (gw_mute gw) b)) (
       pthen (co_event run_id (one_shot_message gw request) ''info'') (
       finish_run run_id (with_store (rs_finish_one_shot run_id))))))))))"

definition execute_body :: "'g coord gateway \<Rightarrow> string \<Rightarrow> ('g coord, unit) prog" where
  "execute_body gw run_id =
     pbind (with_store (rs_get_request run_id)) (\<lambda>request.
     pbind (co_update run_id Run_GENERATING (5/100) []) (\<lambda>record.
     pthen (co_event run_id ''generating waveform artifacts'' ''info'') (
     pthen (publish_run record) (
     pthen (if rq_execution_mode request = ''synchronized'' then synchronise gw run_id request else pret ()) (
     pthen (pfor (rq_jobs request) (apply_job_rfdc gw)) (
     pthen (pfor (List.enumerate 1 (rq_jobs request)) (execute_job gw run_id request)) (
     if rq_dry_run request then
       pthen (co_event run_id ''waveform generation validation completed; no data was sent to the board'' ''info'') (
       finish_run run_id (with_store (rs_complete_unloaded run_id)))
     else
       pthen (co_event run_id (if rq_execution_mode request = ''single'' then ''single board waveform upload completed''
                               else ''synchronized waveform upload completed'') ''info'') (
       if rq_completion_mode request = ''one_shot'' then one_shot gw run_id request
       else finish_run run_id (with_store (rs_complete_loaded run_id Run_DONE))))))))))"

definition fault :: "'g coord gateway \<Rightarrow> string \<Rightarrow> string \<Rightarrow> ('g coord, unit) prog" where
  "fault gw run_id message =
     pbind (co_update run_id Run_FAULT 1 message) (\<lambda>record.
     pthen (if rn_dry_run record then pret ()
            else pfor (rn_board_ids record) (\<lambda>b. pcatch (on_session record (gw_mute gw) b) (\<lambda>_. pret ()))) (
     pthen (pcatch (pfor (rn_board_ids record) (\<lambda>b. gw_mark_state gw b Board_FAULT))
              (\<lambda>e. if e = KeyError then pret () else praise e)) (
     pthen (co_event run_id message ''error'') (
     pthen (publish_run record) (
     release_group run_id)))))"

definition execute :: "'g coord gateway \<Rightarrow> string \<Rightarrow> ('g coord, unit) prog" where
  "execute gw run_id = pcatch (execute_body gw run_id) (\<lambda>e. fault gw run_id (gw_text gw e))"

section \<open>Requests to the coordinator\<close>

definition claim_boards :: "string \<Rightarrow> string list \<Rightarrow> ('g coord, unit) prog" where
  "claim_boards run_id board_ids =
     pbind (pgets (\<lambda>s. list_ex (\<lambda>b. co_active s b \<noteq> None \<and> co_active s b \<noteq> Some []) board_ids)) (\<lambda>taken.
     pthen (praise_if taken RuntimeError)
       (pmodify (\<lambda>s. s\<lparr>co_active := (\<lambda>b. if b \<in> set board_ids then Some run_id else co_active s b)\<rparr>)))"

definition create_run :: "'g coord gateway \<Rightarrow> string \<Rightarrow> run_request \<Rightarrow> (string \<Rightarrow> ('g coord, unit) prog) option \<Rightarrow>
    ('g coord, run_row) prog" where
  "create_run gw run_id request prepare =
     pthen (praise_if (rq_execution_mode request \<notin> {''single'', ''synchronized''}) ValueError) (
     pthen (praise_if (rq_execution_mode request = ''synchronized'' \<and> length (rq_jobs request) \<noteq> 2) ValueError) (
     pthen (praise_if (rq_execution_mode request = ''single'' \<and> length (rq_jobs request) \<noteq> 1) ValueError) (
     pthen (pfor (rq_board_ids request) (\<lambda>b. pbind (gw_profile gw b) (\<lambda>_. pret ()))) (
     pthen (claim_boards run_id (rq_board_ids request)) (
     pbind (pcatch
         (pthen (case prepare of None \<Rightarrow> pret () | Some p \<Rightarrow> p run_id)
           (with_store (rs_create run_id request (gw_artifacts_root gw @ ''/'' @ run_id))))
         (\<lambda>e. pthen (release_group run_id) (praise e))) (\<lambda>record.
     pthen (publish_run record) (
     pthen (pmodify (\<lambda>s. s\<lparr>co_threads := co_threads s @ [run_id]\<rparr>)) (
     pret record))))))))"

definition arm_run :: "'g coord gateway \<Rightarrow> string \<Rightarrow> ('g coord, run_row) prog" where
  "arm_run gw run_id =
     pbind (require_run run_id) (\<lambda>record.
     pthen (praise_if (rn_state record \<noteq> Run_READY) ValueError) (
     pthen (if \<not> rn_dry_run record then
              pbind (with_store (rs_get_request run_id)) (\<lambda>request.
              pcatch (pfor (rq_jobs request) (\<lambda>job. on_session record (gw_arm gw) (jb_board_id job)))
                (\<lambda>e. pthen (fault gw run_id (gw_text gw e)) (praise e)))
            else pfor (rn_board_ids record) (\<lambda>b. gw_mark_state gw b Board_ARMED)) (
     pbind (co_update run_id Run_ARMED 1 []) (\<lambda>record.
     pthen (co_event run_id ''single board armed'' ''info'') (
     pthen (publish_run record) (
     pret record))))))"

text \<open>\<open>except Exception as exc: self._event(run_id, str(exc), "error"); raise\<close>.\<close>

definition log_error :: "'g coord gateway \<Rightarrow> string \<Rightarrow> ('g coord, 'a) prog \<Rightarrow> ('g coord, 'a) prog" where
  "log_error gw run_id m = pcatch m (\<lambda>e. pthen (co_event run_id (gw_text gw e) ''error'') (praise e))"

definition arm_loaded :: "'g coord gateway \<Rightarrow> string \<Rightarrow> ('g coord, run_row) prog" where
  "arm_loaded gw run_id =
     pbind (require_loaded run_id) (\<lambda>record.
     log_error gw run_id (
       pbind (with_store (rs_get_request run_id)) (\<lambda>request.
       pthen (pfor (rq_jobs request) (\<lambda>job.
         pbind (plift (channel_mask_for_job job)) (\<lambda>_.
         if rn_dry_run record then gw_mark_state gw (jb_board_id job) Board_ARMED
         else on_session record (gw_arm gw) (jb_board_id job)))) (
       pthen (co_event run_id (if rq_execution_mode request = ''single'' then ''loaded waveform armed''
                               else ''synchronized loaded waveform armed'') ''info'') (
       pret record)))))"

definition trigger_loaded :: "'g coord gateway \<Rightarrow> string \<Rightarrow> ('g coord, run_row) prog" where
  "trigger_loaded gw run_id =
     pbind (require_loaded run_id) (\<lambda>record.
     log_error gw run_id (
       pbind (with_store (rs_get_request run_id)) (\<lambda>request.
       pbind (trigger_board_ids gw request) (\<lambda>targets.
       pthen (pfor targets (\<lambda>b.
         if rn_dry_run record then gw_mark_state gw b Board_RUNNING
         else on_session record (\<lambda>b session. gw_manual_trigger gw b session (rq_playback_mode request = ''continuous_sine'')) b)) (
       pthen (co_event run_id (if rq_execution_mode request = ''single'' then ''loaded waveform triggered''
                               else ''synchronized master triggered'') ''info'') (
       pret record))))))"

definition play_loaded :: "'g coord gateway \<Rightarrow> string \<Rightarrow> ('g coord, run_row) prog" where
  "play_loaded gw run_id = pthen (arm_loaded gw run_id) (trigger_loaded gw run_id)"

text \<open>Mute every board, collecting the messages of the failures.\<close>

definition mute_all :: "'g coord gateway \<Rightarrow> (string \<Rightarrow> ('g coord, unit) prog) \<Rightarrow> string list \<Rightarrow> ('g coord, string list) prog" where
  "mute_all gw mute board_ids =
     pbind (pmap (\<lambda>b. pcatch (pthen (mute b) (pret [])) (\<lambda>e. pret [b @ '': '' @ gw_text gw e])) board_ids) (\<lambda>errors.
     pret (concat errors))"

definition join_errors :: "string list \<Rightarrow> string" where
  "join_errors errors = concat (case errors of [] \<Rightarrow> [] | e # es \<Rightarrow> e # map (\<lambda>x. ''; '' @ x) es)"

definition abort_loaded :: "'g coord gateway \<Rightarrow> string \<Rightarrow> ('g coord, run_row) prog" where
  "abort_loaded gw run_id =
     pbind (require_run run_id) (\<lambda>record.
     pthen (praise_if (rn_state record \<noteq> Run_DONE \<or> \<not> rn_loaded record) ValueError) (
     pbind (mute_all gw (\<lambda>b. if rn_dry_run record then gw_mark_state gw b Board_MUTED else on_session record (gw_mute gw) b)
              (rn_board_ids record)) (\<lambda>errors.
     pthen (co_event run_id (if errors = [] then ''loaded waveform muted'' else join_errors errors)
              (if errors = [] then ''info'' else ''warning'')) (
     pret record))))"

definition start_run :: "'g coord gateway \<Rightarrow> string \<Rightarrow> ('g coord, run_row) prog" where
  "start_run gw run_id =
     pbind (require_run run_id) (\<lambda>record.
     pthen (praise_if (rn_state record \<noteq> Run_ARMED) ValueError) (
     pthen (pcatch (
         pbind (with_store (rs_get_request run_id)) (\<lambda>request.
         pbind (trigger_board_ids gw request) (\<lambda>targets.
         pfor targets (\<lambda>b.
           if rn_dry_run record then gw_mark_state gw b Board_RUNNING
           else on_session record (\<lambda>b session. gw_manual_trigger gw b session True) b))))
       (\<lambda>e. pthen (fault gw run_id (gw_text gw e)) (praise e))) (
     pbind (co_update run_id Run_RUNNING 1 []) (\<lambda>record.
     pthen (co_event run_id ''trigger accepted'' ''info'') (
     pthen (publish_run record) (
     pret record))))))"

definition abort_run :: "'g coord gateway \<Rightarrow> string \<Rightarrow> ('g coord, run_row) prog" where
  "abort_run gw run_id =
     pbind (require_run run_id) (\<lambda>record.
     pbind (if rn_dry_run record then pret [] else mute_all gw (on_session record (gw_mute gw)) (rn_board_ids record)) (\<lambda>errors.
     pbind (co_update run_id Run_ABORTED 1 (join_errors errors)) (\<lambda>record.
     pthen (co_event run_id (if errors = [] then ''abort/mute requested''
                             else ''abort completed with errors: '' @ join_errors errors) ''warning'') (
     pthen (publish_run record) (
     pthen (release_group run_id) (
     pret record))))))"

text \<open>The construction of the coordinator.\<close>

definition coordinator_init :: "('g coord, unit) prog" where
  "coordinator_init = pbind (with_store (rs_recover_orphaned {})) (\<lambda>_. pret ())"

end
