(* ===== verification/Board_Gateway.thy ===== *)
theory Board_Gateway
  imports Run_Coordinator Rf_Config
begin

text \<open>
  The boards as the web application sees them (\<open>BoardGateway\<close> of \<open>webapp/controller.py\<close>) in its
  simulation mode, \<open>RFSOC_WEB_SIMULATION=1\<close>: the profiles of the inventory, the cached status of each
  board and the simulated waveform of each board. The translation of a waveform state into the status
  fields is the same for live boards.
\<close>

section \<open>State\<close>

record board_status =
  bs_state :: board_state
  bs_online :: bool
  bs_armed :: bool
  bs_prepared :: bool
  bs_running :: bool
  bs_session :: int
  bs_descriptor :: int
  bs_loop_count :: int
  bs_underflow_mask :: int
  bs_trigger_fire_count :: int
  bs_valid_mask :: int
  bs_revision :: int
  bs_mts_ready :: bool
  bs_nco_sync_ready :: bool

record sim_waveform =
  sw_session :: int
  sw_descriptor :: int
  sw_state :: wave_state
  sw_loop_count :: int
  sw_trigger_fire_count :: int

text \<open>The dictionary of a simulated board; an absent key is None.\<close>

record sim_board =
  sb_waveform :: "sim_waveform option"
  sb_rfdc :: "rfdc_answer option"

record sim_boards =
  sg_profiles :: "(string \<times> board_info) list"
  sg_status :: "string \<Rightarrow> board_status option"
  sg_boards :: "string \<Rightarrow> sim_board option"

type_synonym sim_coord = "sim_boards coord"

section \<open>Profiles and status\<close>

definition sim_initial_status :: board_status where
  "sim_initial_status =
     \<lparr>bs_state = Board_IDLE, bs_online = True, bs_armed = False, bs_prepared = False, bs_running = False,
      bs_session = 0, bs_descriptor = 0, bs_loop_count = 0, bs_underflow_mask = 0, bs_trigger_fire_count = 0,
      bs_valid_mask = 0xFF, bs_revision = 0, bs_mts_ready = True, bs_nco_sync_ready = True\<rparr>"

text \<open>The property \<open>boards\<close>: new boards get a status, statuses of boards that are gone are dropped.\<close>

definition sync_statuses :: "sim_boards \<Rightarrow> sim_boards" where
  "sync_statuses g = g\<lparr>sg_status := (\<lambda>b. if b \<in> fst ` set (sg_profiles g)
     then (case sg_status g b of None \<Rightarrow> Some sim_initial_status | Some st \<Rightarrow> Some st) else None)\<rparr>"

definition with_boards :: "(sim_boards, 'a) prog \<Rightarrow> (sim_coord, 'a) prog" where
  "with_boards m s = (case m (co_boards s) of (r, g) \<Rightarrow> (r, s\<lparr>co_boards := g\<rparr>))"

definition sim_profile :: "string \<Rightarrow> (sim_boards, board_info) prog" where
  "sim_profile board_id =
     pthen (pmodify sync_statuses) (
     pbind (pgets (\<lambda>g. map_of (rev (sg_profiles g)) board_id)) (\<lambda>found.
     case found of None \<Rightarrow> praise KeyError | Some info \<Rightarrow> pret info))"

definition set_board_status :: "string \<Rightarrow> (board_status \<Rightarrow> board_status) \<Rightarrow> (sim_boards, board_status) prog" where
  "set_board_status board_id f =
     pbind (pgets (\<lambda>g. sg_status g board_id)) (\<lambda>current.
     case current of
       None \<Rightarrow> praise KeyError
     | Some st \<Rightarrow> pthen (pmodify (\<lambda>g. g\<lparr>sg_status := (sg_status g)(board_id \<mapsto> f st)\<rparr>)) (pret (f st)))"

definition sim_mark_state :: "string \<Rightarrow> board_state \<Rightarrow> (sim_boards, unit) prog" where
  "sim_mark_state board_id state = pbind (set_board_status board_id (\<lambda>st. st\<lparr>bs_state := state\<rparr>)) (\<lambda>_. pret ())"

section \<open>Waveform status\<close>

record wave_snapshot =
  wn_status :: int
  wn_session :: int
  wn_descriptor :: int
  wn_state_name :: string
  wn_loop_count :: int
  wn_underflow_count :: int
  wn_trigger_fire_count :: int

definition waveform_state :: "wave_snapshot \<Rightarrow> string result" where
  "waveform_state response = guard_raise (wn_status response \<noteq> 0) RuntimeError (Inr (wn_state_name response))"

definition waveform_status_fields :: "wave_snapshot \<Rightarrow> (board_status \<Rightarrow> board_status) result" where
  "waveform_status_fields response =
     ebind (waveform_state response) (\<lambda>state_name.
       let armed = state_name \<in> {''prefetch'', ''wait_trigger'', ''playing'', ''draining''};
           prepared = state_name = ''wait_trigger'';
           running = state_name \<in> {''playing'', ''draining''};
           board_state = (if running then Board_RUNNING else if armed then Board_ARMED
                          else if state_name \<in> {''ready'', ''done''} then Board_READY
                          else if state_name = ''error'' then Board_FAULT else Board_IDLE) in
       Inr (\<lambda>st. st\<lparr>bs_state := board_state, bs_armed := armed, bs_prepared := prepared, bs_running := running,
              bs_session := wn_session response, bs_descriptor := wn_descriptor response,
              bs_loop_count := wn_loop_count response,
              bs_underflow_mask := (if wn_underflow_count response \<noteq> 0 then 0xFF else 0),
              bs_trigger_fire_count := wn_trigger_fire_count response\<rparr>))"

definition set_waveform_status :: "string \<Rightarrow> wave_snapshot \<Rightarrow> (sim_boards, unit) prog" where
  "set_waveform_status board_id response =
     pbind (plift (waveform_status_fields response)) (\<lambda>f.
     pbind (set_board_status board_id (\<lambda>st. (f st)\<lparr>bs_online := True\<rparr>)) (\<lambda>_. pret ()))"

text \<open>The answers the simulation makes up; keys it leaves out read as zero.\<close>

definition sim_answer :: "sim_waveform \<Rightarrow> int \<Rightarrow> wave_snapshot" where
  "sim_answer w fire_count =
     \<lparr>wn_status = 0, wn_session = sw_session w, wn_descriptor = sw_descriptor w,
      wn_state_name = wave_state_name (sw_state w), wn_loop_count = 0, wn_underflow_count = 0,
      wn_trigger_fire_count = fire_count\<rparr>"

definition sim_waveform_of :: "string \<Rightarrow> sim_boards \<Rightarrow> sim_waveform option" where
  "sim_waveform_of board_id g = Option.bind (sg_boards g board_id) sb_waveform"

definition empty_sim_board :: sim_board where
  "empty_sim_board = \<lparr>sb_waveform = None, sb_rfdc = None\<rparr>"

definition put_waveform :: "string \<Rightarrow> sim_waveform option \<Rightarrow> (sim_boards, unit) prog" where
  "put_waveform board_id w = pmodify (\<lambda>g. g\<lparr>sg_boards := (sg_boards g)(board_id \<mapsto>
     (case sg_boards g board_id of None \<Rightarrow> empty_sim_board | Some b \<Rightarrow> b)\<lparr>sb_waveform := w\<rparr>)\<rparr>)"

definition sim_refresh :: "string \<Rightarrow> (sim_boards, board_status) prog" where
  "sim_refresh board_id =
     pbind (sim_profile board_id) (\<lambda>_.
     pbind (pgets (\<lambda>g. (sim_waveform_of board_id g, sg_boards g board_id))) (\<lambda>(waveform, board).
     let answer = (case waveform of
           None \<Rightarrow> \<lparr>wn_status = 0, wn_session = 0, wn_descriptor = 0, wn_state_name = ''idle'', wn_loop_count = 0,
                   wn_underflow_count = 0, wn_trigger_fire_count = 0\<rparr>
         | Some w \<Rightarrow> (sim_answer w (sw_trigger_fire_count w))\<lparr>wn_loop_count := sw_loop_count w\<rparr>) in
     pbind (plift (waveform_status_fields answer)) (\<lambda>f.
     set_board_status board_id (\<lambda>st. (f st)\<lparr>bs_online := True,
       bs_valid_mask := (case Option.bind board sb_rfdc of None \<Rightarrow> 0xFF | Some a \<Rightarrow> ra_valid_mask a),
       bs_revision := (case Option.bind board sb_rfdc of None \<Rightarrow> 0 | Some a \<Rightarrow> ra_revision a),
       bs_mts_ready := True, bs_nco_sync_ready := True\<rparr>))))"

definition board_status_of :: "string \<Rightarrow> bool \<Rightarrow> (sim_boards, board_status) prog" where
  "board_status_of board_id refresh =
     pthen (pmodify sync_statuses) (
     pthen (if refresh then pbind (sim_refresh board_id) (\<lambda>_. pret ()) else pret ()) (
     pbind (pgets (\<lambda>g. sg_status g board_id)) (\<lambda>st.
     case st of None \<Rightarrow> praise KeyError | Some st \<Rightarrow> pret st)))"

section \<open>Playback\<close>

definition register_waveform_session :: "string \<Rightarrow> int \<Rightarrow> int \<Rightarrow> (sim_boards, unit) prog" where
  "register_waveform_session board_id session descriptor =
     pthen (praise_if (session mod 2 ^ 32 = 0) ValueError) (
     put_waveform board_id (Some \<lparr>sw_session = session mod 2 ^ 32, sw_descriptor = descriptor mod 2 ^ 32,
       sw_state = WS_WAIT_TRIGGER, sw_loop_count = 1, sw_trigger_fire_count = 0\<rparr>))"

text \<open>The waveform of the session that is asked for, or an exception.\<close>

definition own_waveform :: "string \<Rightarrow> int \<Rightarrow> (sim_boards, sim_waveform) prog" where
  "own_waveform board_id session =
     pbind (sim_profile board_id) (\<lambda>_.
     pthen (praise_if (session mod 2 ^ 32 = 0) ValueError) (
     pbind (pgets (sim_waveform_of board_id)) (\<lambda>found.
     case found of
       None \<Rightarrow> praise RuntimeError
     | Some w \<Rightarrow> pthen (praise_if (sw_session w \<noteq> session mod 2 ^ 32) RuntimeError) (pret w))))"

definition sim_arm :: "string \<Rightarrow> int \<Rightarrow> (sim_boards, unit) prog" where
  "sim_arm board_id session =
     pbind (own_waveform board_id session) (\<lambda>w.
     pthen (praise_if (sw_state w \<notin> {WS_PREFETCH, WS_WAIT_TRIGGER}) RuntimeError) (
     set_waveform_status board_id (sim_answer w 0)))"

definition sim_manual_trigger :: "string \<Rightarrow> int \<Rightarrow> (sim_boards, unit) prog" where
  "sim_manual_trigger board_id session =
     pbind (own_waveform board_id session) (\<lambda>w.
     pthen (praise_if (sw_state w \<noteq> WS_WAIT_TRIGGER) RuntimeError) (
     let w' = w\<lparr>sw_state := WS_PLAYING, sw_trigger_fire_count := sw_trigger_fire_count w + 1\<rparr> in
     pthen (put_waveform board_id (Some w')) (
     set_waveform_status board_id (sim_answer w' (sw_trigger_fire_count w')))))"

definition sim_mute :: "string \<Rightarrow> int \<Rightarrow> (sim_boards, unit) prog" where
  "sim_mute board_id session =
     pbind (own_waveform board_id session) (\<lambda>w.
     let w' = w\<lparr>sw_state := WS_READY\<rparr> in
     pthen (put_waveform board_id (Some w')) (
     set_waveform_status board_id (sim_answer w' 0)))"

definition sim_board_abort :: "string \<Rightarrow> int \<Rightarrow> (sim_boards, unit) prog" where
  "sim_board_abort board_id session =
     pbind (sim_profile board_id) (\<lambda>_.
     pbind (pgets (sim_waveform_of board_id)) (\<lambda>found.
     pthen (praise_if (case found of None \<Rightarrow> False | Some w \<Rightarrow> session mod 2 ^ 32 \<noteq> 0 \<and> sw_session w \<noteq> session mod 2 ^ 32)
              RuntimeError) (
     pthen (put_waveform board_id None) (
     pbind (set_board_status board_id (\<lambda>st. st\<lparr>bs_state := Board_IDLE, bs_armed := False, bs_prepared := False,
              bs_running := False, bs_session := 0, bs_descriptor := 0\<rparr>)) (\<lambda>_. pret ())))))"

section \<open>RFDC and synchronization\<close>

definition channel_in_mask :: "int \<Rightarrow> int \<Rightarrow> bool" where
  "channel_in_mask channel_mask channel \<longleftrightarrow> and channel_mask (push_bit (nat (channel - 1)) 1) \<noteq> 0"

definition no_actual :: rfdc_actual where
  "no_actual = \<lparr>ac_nco_hz = 0, ac_zone = 0, ac_phase_mdeg = 0, ac_current_ua = 0, ac_nco_word = 0, ac_phase_word = 0,
     ac_vop_code = 0, ac_status = 0\<rparr>"

text \<open>What the simulated converter does with one channel, in the words of the hardware.\<close>

definition sim_channel :: "channel_config \<Rightarrow> rfdc_actual result" where
  "sim_channel c =
     (let nco_hz = round_half_even (rfc_nco_hz c) in
      ebind (normalize_rfdc_phase_mdeg (NFloat (Fin (rfc_phase_deg c)))) (\<lambda>phase_mdeg.
      ebind (py_int (fdivc (fsub (fscale (Fin (rfc_current_ma c)) 1000) (Fin 1400)) (175/4))) (\<lambda>code.
      let vop_code = max 0 code in
      ebind (py_round (fadd (Fin 1400) (fscale (fl (of_int vop_code)) (175/4)))) (\<lambda>current_ua.
      Inr \<lparr>ac_nco_hz = nco_hz, ac_zone = rfc_zone c, ac_phase_mdeg = phase_mdeg, ac_current_ua = current_ua,
           ac_nco_word = (nco_hz * 2 ^ 48 div 6400000000) mod 2 ^ 48,
           ac_phase_word = (phase_mdeg * 2 ^ 17 div 180000) mod 2 ^ 18, ac_vop_code = vop_code, ac_status = 0\<rparr>))))"

definition sim_answer_channel :: "(int \<times> rfdc_actual) list \<Rightarrow> int \<Rightarrow> channel_config \<Rightarrow> (int \<times> rfdc_actual) result" where
  "sim_answer_channel previous channel_mask c =
     (if \<not> channel_in_mask channel_mask (rfc_channel c)
      then Inr (rfc_channel c, case map_of (rev previous) (rfc_channel c) of None \<Rightarrow> no_actual | Some a \<Rightarrow> a)
      else ebind (sim_channel c) (\<lambda>a. Inr (rfc_channel c, a)))"

text \<open>The whole dictionary of the board is replaced by the answer to the last RFDC request.\<close>

definition sim_rfdc_apply :: "string \<Rightarrow> channel_config list \<Rightarrow> int \<Rightarrow> int \<Rightarrow> (sim_boards, rfdc_answer) prog" where
  "sim_rfdc_apply board_id channels revision channel_mask =
     pbind (sim_profile board_id) (\<lambda>_.
     pbind (pgets (\<lambda>g. Option.bind (sg_boards g board_id) sb_rfdc)) (\<lambda>previous.
     pbind (plift (emap (sim_answer_channel (case previous of None \<Rightarrow> [] | Some a \<Rightarrow> ra_channels a) channel_mask)
              (sort_key rfc_channel channels))) (\<lambda>answers.
     let valid_mask = or (case previous of None \<Rightarrow> 0 | Some a \<Rightarrow> ra_valid_mask a) channel_mask;
         answer = \<lparr>ra_status = RF2_OK, ra_revision = revision, ra_applied_mask = channel_mask, ra_error_mask = 0,
           ra_valid_mask = valid_mask, ra_failure_stage = 0, ra_failure_address = 0, ra_axi_response = 0, ra_channels = answers\<rparr> in
     pthen (pmodify (\<lambda>g. g\<lparr>sg_boards := (sg_boards g)(board_id \<mapsto> \<lparr>sb_waveform = None, sb_rfdc = Some answer\<rparr>)\<rparr>)) (
     pbind (set_board_status board_id (\<lambda>st. st\<lparr>bs_valid_mask := valid_mask, bs_revision := revision\<rparr>)) (\<lambda>_.
     pret answer)))))"

text \<open>The read-back; a board with a waveform but no RFDC request has a dictionary without the answer's keys.\<close>

definition sim_rfdc_get_config :: "string \<Rightarrow> (sim_boards, rfdc_answer option) prog" where
  "sim_rfdc_get_config board_id =
     pbind (sim_profile board_id) (\<lambda>_.
     pgets (\<lambda>g. case sg_boards g board_id of
         None \<Rightarrow> Some \<lparr>ra_status = RF2_OK, ra_revision = 0, ra_applied_mask = 0, ra_error_mask = 0, ra_valid_mask = 0,
                     ra_failure_stage = 0, ra_failure_address = 0, ra_axi_response = 0, ra_channels = []\<rparr>
       | Some b \<Rightarrow> sb_rfdc b))"

definition sim_sync_two_boards :: "string \<Rightarrow> string \<Rightarrow> int \<Rightarrow> (sim_boards, string) prog" where
  "sim_sync_two_boards master_id slave_id epoch =
     pbind (sim_profile master_id) (\<lambda>master.
     pbind (sim_profile slave_id) (\<lambda>slave.
     pbind (board_status_of master_id True) (\<lambda>_.
     pbind (board_status_of slave_id True) (\<lambda>_.
     pret (''synchronized '' @ bi_name master @ '' (master) and '' @ bi_name slave @ '' (slave)'')))))"

text \<open>
  The gateway of the coordinator over the simulated boards. The generators of waveforms and the texts
  (of exceptions, of durations, of a status) are arguments; in the simulation an upload writes files only, so it reports no COMMIT.
\<close>

definition sim_gateway ::
  "(board_job \<Rightarrow> unit result) \<Rightarrow> (string \<Rightarrow> board_job \<Rightarrow> string list result) \<Rightarrow> (pyerror \<Rightarrow> string) \<Rightarrow> (rat \<Rightarrow> string) \<Rightarrow>
    (board_status \<Rightarrow> string) \<Rightarrow> sim_coord gateway" where
  "sim_gateway config_of generate text_of format_of summary_of =
     \<lparr>gw_simulation = True, gw_artifacts_root = ''artifacts'',
      gw_profile = (\<lambda>b. with_boards (sim_profile b)),
      gw_sync_two_boards = (\<lambda>m sl epoch. with_boards (sim_sync_two_boards m sl epoch)),
      gw_rfdc_service = None,
      gw_rfdc_apply = (\<lambda>b channels revision mask_bits. with_boards (sim_rfdc_apply b channels revision mask_bits)),
      gw_config = (\<lambda>job. plift (config_of job)),
      gw_upload = (\<lambda>run_id job dry_run. plift (ebind (generate run_id job) (\<lambda>ls. Inr \<lparr>up_commit = None, up_log_lines = ls\<rparr>))),
      gw_register = (\<lambda>b session descriptor. with_boards (register_waveform_session b session descriptor)),
      gw_mark_state = (\<lambda>b state. with_boards (sim_mark_state b state)),
      gw_refresh_online = (\<lambda>b. with_boards (pbind (sim_refresh b) (\<lambda>st. pret (bs_online st)))),
      gw_summary = (\<lambda>b. with_boards (pbind (board_status_of b False) (\<lambda>st. pret (summary_of st)))),
      gw_arm = (\<lambda>b session. with_boards (sim_arm b session)),
      gw_manual_trigger = (\<lambda>b session sustained. with_boards (sim_manual_trigger b session)),
      gw_mute = (\<lambda>b session. with_boards (sim_mute b session)),
      gw_sleep = (\<lambda>seconds. pret ()),
      gw_text = text_of, gw_format_g = format_of\<rparr>"
end
