(* ===== verification/Run_Worker.thy ===== *)
theory Run_Worker
  imports Board_Gateway
begin

text \<open>
  What a worker does to its run. The contract of the boards, the locale \<open>board_services\<close>: a call leaves
  the coordinator's own state alone, and marking a board raises only KeyError. It is interpreted for
  the simulated boards. Under it every run ends, and ends released.
\<close>

section \<open>Calls that leave the coordinator alone\<close>

definition quiet :: "('g coord, 'a) prog \<Rightarrow> bool" where
  "quiet m \<longleftrightarrow> (\<forall>s. co_store (snd (m s)) = co_store s \<and> co_active (snd (m s)) = co_active s \<and>
     co_threads (snd (m s)) = co_threads s)"

named_theorems quiet_rules "programs that leave the coordinator alone"

lemma quietD: "quiet m \<Longrightarrow> co_store (snd (m s)) = co_store s \<and> co_active (snd (m s)) = co_active s"
  by (simp add: quiet_def)

lemma quiet_basic [quiet_rules]:
  "quiet (pret x)" "quiet (praise e)" "quiet (pgets f)" "quiet (plift r)" "quiet (praise_if b e)"
  by (simp_all add: quiet_def prog_defs)

lemma quiet_pbind [quiet_rules]: "quiet m \<Longrightarrow> (\<And>x. quiet (f x)) \<Longrightarrow> quiet (pbind m f)"
  by (auto simp: quiet_def pbind_def split: prod.splits sum.splits) (metis snd_conv)+

lemma quiet_pthen [quiet_rules]: "quiet m \<Longrightarrow> quiet n \<Longrightarrow> quiet (pthen m n)"
  unfolding pthen_def by (rule quiet_pbind)

lemma quiet_pfor [quiet_rules]: "(\<And>x. quiet (body x)) \<Longrightarrow> quiet (pfor xs body)"
  by (induction xs) (auto intro!: quiet_rules)

lemma quiet_split [quiet_rules]:
  "quiet m \<Longrightarrow> quiet n \<Longrightarrow> quiet (if b then m else n)"
  "quiet n \<Longrightarrow> (\<And>x. quiet (g x)) \<Longrightarrow> quiet (case opt of None \<Rightarrow> n | Some x \<Rightarrow> g x)"
  "(\<And>x y. quiet (k x y)) \<Longrightarrow> quiet (case p of (x, y) \<Rightarrow> k x y)"
  by (auto split: option.split prod.split)

lemma quiet_with_boards [quiet_rules]: "quiet (with_boards m)"
  by (auto simp: quiet_def with_boards_def split: prod.splits)

section \<open>The contract of the boards\<close>

locale board_services =
  fixes gw :: "'g coord gateway"
  assumes profile_quiet: "quiet (gw_profile gw b)"
    and sync_quiet: "quiet (gw_sync_two_boards gw m sl epoch)"
    and service_quiet: "gw_rfdc_service gw = Some f \<Longrightarrow> quiet (f b request)"
    and rfdc_quiet: "quiet (gw_rfdc_apply gw b channels revision mask_bits)"
    and config_quiet: "quiet (gw_config gw job)"
    and upload_quiet: "quiet (gw_upload gw run_id job dry)"
    and register_quiet: "quiet (gw_register gw b session descriptor)"
    and mark_quiet: "quiet (gw_mark_state gw b st)"
    and refresh_quiet: "quiet (gw_refresh_online gw b)"
    and summary_quiet: "quiet (gw_summary gw b)"
    and arm_quiet: "quiet (gw_arm gw b session)"
    and trigger_quiet: "quiet (gw_manual_trigger gw b session sustained)"
    and mute_quiet: "quiet (gw_mute gw b session)"
    and sleep_quiet: "quiet (gw_sleep gw duration)"
    and mark_error: "fst (gw_mark_state gw b st s) = Inl e \<Longrightarrow> e = KeyError"
begin

lemmas services_quiet = profile_quiet sync_quiet service_quiet rfdc_quiet config_quiet upload_quiet register_quiet
  mark_quiet refresh_quiet summary_quiet arm_quiet trigger_quiet mute_quiet sleep_quiet

lemma on_session_quiet: "(\<And>b session. quiet (act b session)) \<Longrightarrow> quiet (on_session record act b)"
  unfolding on_session_def by (intro quiet_rules)

lemma apply_quiet: "quiet (apply_job_rfdc gw job)"
proof (cases "jb_rfdc_config job")
  case None
  then show ?thesis unfolding apply_job_rfdc_def by (simp only: option.case) (rule quiet_rules)
next
  case (Some config)
  then show ?thesis
    unfolding apply_job_rfdc_def option.case
    by (cases "gw_rfdc_service gw"; simp only: option.case; intro quiet_rules services_quiet) assumption
qed

lemma master_quiet: "quiet (sync_master_id gw jobs)"
  by (induction jobs; unfold sync_master_id.simps; intro quiet_rules services_quiet) assumption

lemma targets_quiet: "quiet (trigger_board_ids gw request)"
  unfolding trigger_board_ids_def by (intro quiet_rules master_quiet)



end

lemma sim_mark_state_error: "fst (sim_mark_state b st g) = Inl e \<Longrightarrow> e = KeyError"
  by (auto simp: sim_mark_state_def set_board_status_def prog_defs split: option.splits)

interpretation sim: board_services "sim_gateway config_of generate text_of format_of summary_of"
proof (unfold_locales, goal_cases)
  case (15 b st s e)
  then show ?case
    using sim_mark_state_error [of b st "co_boards s" e] by (simp add: sim_gateway_def with_boards_def split: prod.splits)
qed (auto simp: sim_gateway_def intro!: quiet_rules)

section \<open>The row of a run\<close>

definition run_rows :: "string \<Rightarrow> run_store \<Rightarrow> run_row list" where
  "run_rows run_id st = filter (\<lambda>r. rn_id r = run_id) (rs_runs st)"

definition other_rows :: "string \<Rightarrow> run_store \<Rightarrow> run_row list" where
  "other_rows run_id st = filter (\<lambda>r. rn_id r \<noteq> run_id) (rs_runs st)"

definition run_at :: "string \<Rightarrow> (string \<Rightarrow> string option) \<Rightarrow> run_row list \<Rightarrow> (run_row \<Rightarrow> bool) \<Rightarrow> 'g coord \<Rightarrow> bool" where
  "run_at run_id act rest P s \<longleftrightarrow> co_active s = act \<and> other_rows run_id (co_store s) = rest \<and>
     (\<exists>r. run_rows run_id (co_store s) = [r] \<and> P r)"

text \<open>What no operation of the worker changes, and the range that a record must have.\<close>

definition of_request :: "run_request \<Rightarrow> run_row \<Rightarrow> bool" where
  "of_request q r \<longleftrightarrow> rn_request r = q \<and> rn_dry_run r = rq_dry_run q \<and> rn_board_ids r = rq_board_ids q \<and>
     0 \<le> rn_progress r \<and> rn_progress r \<le> 1"

definition released :: "string \<Rightarrow> (string \<Rightarrow> string option) \<Rightarrow> string \<Rightarrow> string option" where
  "released run_id act b = (if act b = Some run_id then None else act b)"

lemma run_at_mono: "run_at run_id act rest P s \<Longrightarrow> (\<And>r. P r \<Longrightarrow> Q r) \<Longrightarrow> run_at run_id act rest Q s"
  by (auto simp: run_at_def)

lemma quiet_keeps_run: "quiet m \<Longrightarrow> keeps (run_at run_id act rest P) m"
  by (simp add: keeps_def run_at_def quietD)

lemma sql_update_rows:
  assumes "\<And>r. rn_id (f r) = rn_id r"
  shows "filter (\<lambda>r. rn_id r = i) (sql_update (\<lambda>r. rn_id r = i) f rows) = map f (filter (\<lambda>r. rn_id r = i) rows)"
    "filter (\<lambda>r. rn_id r \<noteq> i) (sql_update (\<lambda>r. rn_id r = i) f rows) = filter (\<lambda>r. rn_id r \<noteq> i) rows"
  using assms by (induction rows) (auto simp: sql_update_def)

lemma find_run_rows: "run_rows i st = [r] \<Longrightarrow> find_run i st = Some r"
  unfolding run_rows_def find_run_def
  by (metis (mono_tags, lifting) find_None_iff filter_eq_Cons_iff find_SomeD list.set_intros(1) mem_Collect_eq
      not_None_eq set_filter singletonD list.simps(15) empty_set)

text \<open>An update of the run gives its new row.\<close>

lemma change_run:
  assumes "\<And>now r. rn_id (f now r) = rn_id r" "\<And>now r. P r \<Longrightarrow> Q (f now r) \<and> 0 \<le> rn_progress (f now r) \<and> rn_progress (f now r) \<le> 1"
  shows "triple (run_at i act rest P) (with_store (rs_change i f))
    (\<lambda>x. run_at i act rest (\<lambda>r. r = x \<and> Q r)) (\<lambda>_ _. False)"
proof -
  { fix s :: "'a coord" assume "run_at i act rest P s"
    then obtain r where r: "run_rows i (co_store s) = [r]" "P r" "co_active s = act" "other_rows i (co_store s) = rest"
      by (auto simp: run_at_def)
    let ?now = "rs_time (co_store s) (rs_tick (co_store s))"
    let ?st = "(co_store s)\<lparr>rs_tick := Suc (rs_tick (co_store s)), rs_runs := sql_update (\<lambda>r. rn_id r = i) (f ?now) (rs_runs (co_store s))\<rparr>"
    have rows: "run_rows i ?st = [f ?now r]" "other_rows i ?st = rest"
      using r sql_update_rows [of "f ?now" i "rs_runs (co_store s)", OF assms(1)] by (simp_all add: run_rows_def other_rows_def)
    have "run_record (f ?now r) = Inr (f ?now r)" using assms(2) [OF r(2), of ?now] by (simp add: run_record_def guard_raise_def)
    then have "with_store (rs_change i f) s = (Inr (f ?now r), s\<lparr>co_store := ?st\<rparr>)"
      using find_run_rows [OF rows(1)]
      by (simp add: with_store_def rs_change_def rs_require_def rs_get_def utc_now_def update_runs_def prog_defs)
    then have "case with_store (rs_change i f) s of (Inr x, s') \<Rightarrow> run_at i act rest (\<lambda>r. r = x \<and> Q r) s' | (Inl e, s') \<Rightarrow> False"
      using rows assms(2) [OF r(2)] r(3) by (simp add: run_at_def) }
  then show ?thesis by (simp add: triple_def)
qed
section \<open>Steps of the worker\<close>

lemma triple_keeps: "keeps I m \<Longrightarrow> triple I m (\<lambda>_. I) (\<lambda>_. I)"
  by (simp add: keeps_triple)

lemma triple_quiet: "quiet m \<Longrightarrow> triple (run_at i act rest P) m (\<lambda>_. run_at i act rest P) (\<lambda>_. run_at i act rest P)"
  by (rule triple_keeps, rule quiet_keeps_run)

lemma event_done:
  assumes "level \<in> {''info'', ''warning'', ''error''}"
  shows "triple (run_at i act rest P) (co_event i message level) (\<lambda>_. run_at i act rest P) (\<lambda>_ _. False)"
  using assms
  by (simp add: triple_def co_event_def with_store_def rs_add_event_def utc_now_def publish_def prog_defs run_at_def
      run_rows_def other_rows_def)

lemma publish_done: "triple (run_at i act rest P) (publish e) (\<lambda>_. run_at i act rest P) (\<lambda>_ _. False)"
  by (simp add: triple_def publish_def run_at_def)

lemma release_done: "triple (run_at i act rest P) (release_group i) (\<lambda>_. run_at i (released i act) rest P) (\<lambda>_ _. False)"
  by (auto simp: triple_def release_group_def run_at_def released_def fun_eq_iff)

lemma done_keeps: "triple I m (\<lambda>_. I) (\<lambda>_ _. False) \<Longrightarrow> keeps I m"
  unfolding keeps_triple by (erule triple_weaken) auto

lemma event_keeps: "level \<in> {''info'', ''warning'', ''error''} \<Longrightarrow> keeps (run_at i act rest P) (co_event i message level)"
  by (rule done_keeps, rule event_done)

lemma publish_keeps: "keeps (run_at i act rest P) (publish e)" "keeps (run_at i act rest P) (publish_run r)"
  unfolding publish_run_def by (rule done_keeps, rule publish_done)+

lemma change_keeps:
  assumes "\<And>now r. rn_id (f now r) = rn_id r" "\<And>now r. P r \<Longrightarrow> P (f now r) \<and> 0 \<le> rn_progress (f now r) \<and> rn_progress (f now r) \<le> 1"
  shows "keeps (run_at i act rest P) (with_store (rs_change i f))"
  unfolding keeps_triple
  by (rule triple_weaken [OF change_run [of f P P]]) (use assms in \<open>auto intro: run_at_mono\<close>)

lemma update_keeps:
  assumes "0 \<le> p" "p \<le> 1"
  shows "keeps (run_at i act rest (of_request q)) (co_update i st p e)"
  unfolding co_update_def rs_update_def by (rule change_keeps) (use assms in \<open>simp_all add: of_request_def\<close>)

lemma require_keeps: "keeps I (require_run i)"
proof -
  have "snd (rs_require i st) = st" for st
    by (auto simp: rs_require_def rs_get_def prog_defs split: option.splits sum.splits)
  then show ?thesis by (simp add: keeps_def require_run_def with_store_def case_prod_unfold)
qed

lemma enumerate_index: "(n, x) \<in> set (List.enumerate 1 xs) \<Longrightarrow> 1 \<le> n \<and> n \<le> length xs"
  by (auto simp: in_set_enumerate_eq)

lemma upload_progress:
  assumes "1 \<le> n" "n \<le> k"
  shows "0 \<le> (1/10 + 6/10 * of_nat n / of_nat k :: rat)" "(1/10 + 6/10 * of_nat n / of_nat k :: rat) \<le> 1"
proof -
  have "(of_nat n / of_nat k :: rat) \<le> 1" using assms by (simp add: divide_le_eq_1)
  moreover have "0 \<le> (of_nat n / of_nat k :: rat)" by simp
  ultimately show "0 \<le> (1/10 + 6/10 * of_nat n / of_nat k :: rat)" "(1/10 + 6/10 * of_nat n / of_nat k :: rat) \<le> 1"
    by (simp_all only: times_divide_eq_right [symmetric])
qed

lemma keeps_pfor_in: "(\<And>x. x \<in> set xs \<Longrightarrow> keeps I (body x)) \<Longrightarrow> keeps I (pfor xs body)"
  unfolding keeps_triple by (rule triple_pfor)

context board_services
begin

lemma quiet_keeps: "keeps (run_at i act rest P) m" if "quiet m" for m :: "('g coord, 'b) prog"
  using that by (rule quiet_keeps_run)

lemmas services_keep = services_quiet [THEN quiet_keeps]

lemma synchronise_keeps: "keeps (run_at i act rest P) (synchronise gw i q)"
  unfolding synchronise_def
  by (intro keeps_rules quiet_keeps [OF master_quiet] services_keep event_keeps) simp_all

lemma record_session_keeps: "keeps (run_at i act rest (of_request q)) (record_waveform_session gw i b outcome)"
  unfolding record_waveform_session_def rs_set_waveform_sessions_def
  by (intro keeps_rules require_keeps services_keep change_keeps) (simp_all add: of_request_def)

lemma execute_job_keeps:
  assumes "x \<in> set (List.enumerate 1 (rq_jobs q))"
  shows "keeps (run_at i act rest (of_request q)) (execute_job gw i q x)"
proof -
  obtain n job where x: "x = (n, job)" by fastforce
  then have n: "1 \<le> n" "n \<le> length (rq_board_ids q)"
    using enumerate_index [of n job "rq_jobs q"] assms by (simp_all add: rq_board_ids_def)
  show ?thesis
    unfolding x execute_job_def Let_def prod.case
    by (intro keeps_rules services_keep publish_keeps update_keeps upload_progress [OF n] event_keeps record_session_keeps) simp_all
qed

lemma get_request_done:
  assumes "validate_run_request q = Inr q"
  shows "triple (run_at i act rest (of_request q)) (with_store (rs_get_request i))
    (\<lambda>x s. x = q \<and> run_at i act rest (of_request q) s) (\<lambda>_ _. False)"
  unfolding triple_def
proof (intro allI impI)
  fix s assume at: "run_at i act rest (of_request q) s"
  then obtain r where "run_rows i (co_store s) = [r]" "rn_request r = q" by (auto simp: run_at_def of_request_def)
  then have "with_store (rs_get_request i) s = (Inr q, s)"
    using assms by (simp add: with_store_def rs_get_request_def find_run_rows prog_defs)
  then show "case with_store (rs_get_request i) s of
      (Inl e, s') \<Rightarrow> False | (Inr x, s') \<Rightarrow> x = q \<and> run_at i act rest (of_request q) s'" using at by simp
qed

end

section \<open>How a run ends\<close>

definition finished :: "string \<Rightarrow> (string \<Rightarrow> string option) \<Rightarrow> run_row list \<Rightarrow> run_request \<Rightarrow> run_state \<Rightarrow> (run_row \<Rightarrow> bool) \<Rightarrow>
    'g coord \<Rightarrow> bool" where
  "finished i act rest q st P =
     run_at i (released i act) rest (\<lambda>r. of_request q r \<and> rn_state r = st \<and> P r)"

definition plays_on :: "run_request \<Rightarrow> bool" where
  "plays_on q \<longleftrightarrow> \<not> rq_dry_run q \<and> rq_completion_mode q = ''one_shot'' \<and> rq_playback_mode q = ''continuous_sine'' \<and>
     rq_one_shot_duration_ms q \<le> 0"

definition run_result :: "string \<Rightarrow> (string \<Rightarrow> string option) \<Rightarrow> run_row list \<Rightarrow> run_request \<Rightarrow> 'g coord \<Rightarrow> bool" where
  "run_result i act rest q s \<longleftrightarrow>
     (if plays_on q then run_at i act rest (\<lambda>r. of_request q r \<and> rn_state r = Run_RUNNING \<and> rn_loaded r) s
      else finished i act rest q Run_DONE (\<lambda>r. rn_loaded r = (\<not> rq_dry_run q \<and> rq_completion_mode q \<noteq> ''one_shot'')) s)"

lemma finish_done:
  assumes "\<And>now r. rn_id (f now r) = rn_id r"
    "\<And>now r. of_request q r \<Longrightarrow> of_request q (f now r) \<and> rn_state (f now r) = st \<and> P (f now r)"
  shows "triple (run_at i act rest (of_request q)) (finish_run i (with_store (rs_change i f)))
    (\<lambda>_. finished i act rest q st P) (\<lambda>_ _. False)"
  unfolding finish_run_def
proof (rule triple_pthen [OF release_done], rule triple_pbind)
  show "triple (run_at i (released i act) rest (of_request q)) (with_store (rs_change i f))
      (\<lambda>_. finished i act rest q st P) (\<lambda>_ _. False)"
    by (rule triple_weaken [OF change_run [of f "of_request q" "\<lambda>r. of_request q r \<and> rn_state r = st \<and> P r"]])
      (use assms in \<open>auto simp: finished_def of_request_def intro: run_at_mono\<close>)
  show "triple (finished i act rest q st P) (pthen (publish_run record0) (publish (RunDone record0)))
      (\<lambda>_. finished i act rest q st P) (\<lambda>_ _. False)" for record0
    unfolding finished_def publish_run_def by (rule triple_pthen [OF publish_done publish_done])
qed

lemma triple_at: "(x = q \<Longrightarrow> triple P m Q E) \<Longrightarrow> triple (\<lambda>s. x = q \<and> P s) m Q E"
  by (auto simp: triple_def)

lemma never_raises: "triple P m Q (\<lambda>_ _. False) \<Longrightarrow> triple P m Q E"
  by (erule triple_weaken) auto

context board_services
begin

lemma one_shot_done:
  assumes "\<not> rq_dry_run q" "rq_completion_mode q = ''one_shot''"
  shows "triple (run_at i act rest (of_request q)) (one_shot gw i q) (\<lambda>_. run_result i act rest q)
    (\<lambda>_. run_at i act rest (of_request q))"
proof -
  let ?L = "run_at i act rest (\<lambda>r. of_request q r \<and> rn_loaded r)"
  have weaken: "triple ?L m Q (\<lambda>_. run_at i act rest (of_request q))" if "triple ?L m Q (\<lambda>_. ?L)" for m :: "('g coord, 'b) prog" and Q
    by (rule triple_weaken [OF that]) (auto intro: run_at_mono)
  have quietly: "triple ?L m (\<lambda>_. ?L) (\<lambda>_. run_at i act rest (of_request q))" if "quiet m" for m :: "('g coord, 'b) prog"
    by (rule weaken, rule triple_quiet [OF that])
  have keeping: "triple ?L m (\<lambda>_. ?L) (\<lambda>_. run_at i act rest (of_request q))" if "keeps ?L m" for m :: "('g coord, 'b) prog"
    by (rule weaken, rule triple_keeps [OF that])
  have loaded: "triple (run_at i act rest (of_request q)) (with_store (rs_complete_loaded i Run_READY)) (\<lambda>_. ?L)
      (\<lambda>_. run_at i act rest (of_request q))"
    unfolding rs_complete_loaded_def
    by (rule never_raises, rule triple_weaken [OF change_run [of _ "of_request q" "\<lambda>r. of_request q r \<and> rn_loaded r"]])
      (auto simp: of_request_def intro: run_at_mono)
  have arm: "quiet (pfor (rq_jobs q) (\<lambda>job. if rn_dry_run record0 then gw_mark_state gw (jb_board_id job) Board_ARMED
      else on_session record0 (gw_arm gw) (jb_board_id job)))" for record0
    by (intro quiet_rules services_quiet on_session_quiet)
  have trigger: "keeps ?L (pfor targets (one_shot_trigger gw i q record0))" for targets record0
    unfolding one_shot_trigger_def
    by (intro keeps_rules quiet_keeps [OF on_session_quiet] services_quiet services_keep event_keeps) simp_all
  have mute: "quiet (pfor (rn_board_ids record0) (\<lambda>b. if rn_dry_run record0 then gw_mark_state gw b Board_MUTED
      else on_session record0 (gw_mute gw) b))" for record0
    by (intro quiet_rules services_quiet on_session_quiet)
  have running: "triple ?L (co_update i Run_RUNNING 1 [])
      (\<lambda>_. run_at i act rest (\<lambda>r. of_request q r \<and> rn_state r = Run_RUNNING \<and> rn_loaded r)) (\<lambda>_ _. False)"
    unfolding co_update_def rs_update_def
    by (rule triple_weaken [OF change_run [of _ "\<lambda>r. of_request q r \<and> rn_loaded r"
            "\<lambda>r. of_request q r \<and> rn_state r = Run_RUNNING \<and> rn_loaded r"]])
      (auto simp: of_request_def intro: run_at_mono)
  show ?thesis
    unfolding one_shot_def
  proof (rule triple_pbind [OF loaded], rule triple_pthen [OF keeping [OF publish_keeps(2)]], rule triple_pthen [OF quietly [OF arm]],
      rule triple_pbind [OF quietly [OF targets_quiet]], rule triple_pthen [OF keeping [OF trigger]])
    fix record0 targets
    show "triple ?L
       (if rq_playback_mode q = ''continuous_sine'' \<and> rq_one_shot_duration_ms q \<le> 0
        then pbind (co_update i Run_RUNNING 1 []) (\<lambda>record.
               pthen (co_event i ''continuous playback is running until Stop/Mute is requested'' ''info'') (publish_run record))
        else pthen (if 0 < rq_one_shot_duration_ms q then gw_sleep gw (rq_one_shot_duration_ms q / 1000) else pret ())
               (pthen (pfor (rn_board_ids record0) (\<lambda>b. if rn_dry_run record0 then gw_mark_state gw b Board_MUTED
                                                     else on_session record0 (gw_mute gw) b))
                 (pthen (co_event i (one_shot_message gw q) ''info'') (finish_run i (with_store (rs_finish_one_shot i))))))
       (\<lambda>_. run_result i act rest q) (\<lambda>_. run_at i act rest (of_request q))"
    proof (cases "rq_playback_mode q = ''continuous_sine'' \<and> rq_one_shot_duration_ms q \<le> 0")
      case True
      then have r: "run_result i act rest q = run_at i act rest (\<lambda>r. of_request q r \<and> rn_state r = Run_RUNNING \<and> rn_loaded r)"
        using assms by (simp add: run_result_def plays_on_def fun_eq_iff)
      show ?thesis
        unfolding if_P [OF True] r publish_run_def
        by (rule never_raises, rule triple_pbind [OF running], rule triple_pthen [OF event_done publish_done]) simp
    next
      case False
      then have r: "run_result i act rest q = finished i act rest q Run_DONE (\<lambda>r. \<not> rn_loaded r)"
      proof -
        have "\<not> plays_on q" using False unfolding plays_on_def by blast
        then show ?thesis using assms by (simp add: run_result_def fun_eq_iff)
      qed
      have fin: "triple ?L (finish_run i (with_store (rs_finish_one_shot i)))
          (\<lambda>_. finished i act rest q Run_DONE (\<lambda>r. \<not> rn_loaded r)) (\<lambda>_ _. False)"
        unfolding rs_finish_one_shot_def
        by (rule triple_weaken [OF finish_done [of _ q Run_DONE "\<lambda>r. \<not> rn_loaded r"]])
          (auto simp: of_request_def intro: run_at_mono)
      have sl: "quiet (if 0 < rq_one_shot_duration_ms q then gw_sleep gw (rq_one_shot_duration_ms q / 1000) else pret ())"
        by (intro quiet_rules services_quiet)
      show ?thesis
        unfolding if_not_P [OF False] r
        by (rule triple_pthen [OF quietly [OF sl]], rule triple_pthen [OF quietly [OF mute]],
            rule triple_pthen [OF never_raises [OF event_done] never_raises [OF fin]]) simp
    qed
  qed
qed

lemma body_done:
  assumes "validate_run_request q = Inr q"
  shows "triple (run_at i act rest (of_request q)) (execute_body gw i) (\<lambda>_. run_result i act rest q)
    (\<lambda>_. run_at i act rest (of_request q))"
proof -
  let ?I = "run_at i act rest (of_request q)"
  have sync: "keeps ?I (if rq_execution_mode q = ''synchronized'' then synchronise gw i q else pret ())"
    by (intro keeps_rules synchronise_keeps)
  have rfdc: "keeps ?I (pfor (rq_jobs q) (apply_job_rfdc gw))" by (intro keeps_rules quiet_keeps [OF apply_quiet])
  have jobs: "keeps ?I (pfor (List.enumerate 1 (rq_jobs q)) (execute_job gw i q))"
    by (rule keeps_pfor_in, rule execute_job_keeps)
  note kept = triple_keeps [OF update_keeps] triple_keeps [OF event_keeps] triple_keeps [OF publish_keeps(2)]
  show ?thesis
    unfolding execute_body_def
  proof (rule triple_pbind [OF never_raises [OF get_request_done [OF assms]]], rule triple_at, hypsubst,
      rule triple_pbind [OF kept(1)], (simp; fail), (simp; fail), rule triple_pthen [OF kept(2)], (simp; fail),
      rule triple_pthen [OF kept(3)], rule triple_pthen [OF triple_keeps [OF sync]],
      rule triple_pthen [OF triple_keeps [OF rfdc]], rule triple_pthen [OF triple_keeps [OF jobs]])
      show "triple ?I (if rq_dry_run q then
         pthen (co_event i ''waveform generation validation completed; no data was sent to the board'' ''info'') (
         finish_run i (with_store (rs_complete_unloaded i)))
       else
         pthen (co_event i (if rq_execution_mode q = ''single'' then ''single board waveform upload completed''
                                 else ''synchronized waveform upload completed'') ''info'') (
         if rq_completion_mode q = ''one_shot'' then one_shot gw i q
         else finish_run i (with_store (rs_complete_loaded i Run_DONE))))
       (\<lambda>_. run_result i act rest q) (\<lambda>_. ?I)"
      proof (cases "rq_dry_run q")
        case True
        then have r: "run_result i act rest q = finished i act rest q Run_DONE (\<lambda>r. \<not> rn_loaded r)"
          by (simp add: run_result_def plays_on_def fun_eq_iff)
        show ?thesis
          unfolding if_P [OF True] r rs_complete_unloaded_def
          by (rule never_raises, rule triple_pthen [OF event_done finish_done]) (simp_all add: of_request_def)
      next
        case False
        show ?thesis
          unfolding if_not_P [OF False]
        proof (rule triple_pthen [OF kept(2)], (simp; fail))
          show "triple ?I (if rq_completion_mode q = ''one_shot'' then one_shot gw i q
              else finish_run i (with_store (rs_complete_loaded i Run_DONE))) (\<lambda>_. run_result i act rest q) (\<lambda>_. ?I)"
          proof (cases "rq_completion_mode q = ''one_shot''")
            case True
            show ?thesis unfolding if_P [OF True] by (rule one_shot_done [OF False True])
          next
            case f: False
            then have r: "run_result i act rest q = finished i act rest q Run_DONE rn_loaded"
              using False by (simp add: run_result_def plays_on_def fun_eq_iff finished_def)
            show ?thesis
              unfolding if_not_P [OF f] r rs_complete_loaded_def
              by (rule never_raises, rule finish_done) (simp_all add: of_request_def)
          qed
        qed
      qed
  qed
qed

end

section \<open>Failed runs\<close>

context board_services
begin

lemma fault_done:
  "triple (run_at i act rest (of_request q)) (fault gw i message)
     (\<lambda>_. finished i act rest q Run_FAULT (\<lambda>r. rn_error r = message)) (\<lambda>_ _. False)"
proof -
  let ?F = "run_at i act rest (\<lambda>r. of_request q r \<and> rn_state r = Run_FAULT \<and> rn_error r = message)"
  have upd: "triple (run_at i act rest (of_request q)) (co_update i Run_FAULT 1 message) (\<lambda>_. ?F) (\<lambda>_ _. False)"
    unfolding co_update_def rs_update_def
    by (rule triple_weaken [OF change_run [of _ "of_request q" "\<lambda>r. of_request q r \<and> rn_state r = Run_FAULT \<and> rn_error r = message"]])
      (auto simp: of_request_def intro: run_at_mono)
  have pret: "triple I (pret x) (\<lambda>_. I) (\<lambda>_ _. False)" for I and x :: 'b by (simp add: triple_def)
  have mute: "triple ?F (if rn_dry_run row then pret ()
      else pfor (rn_board_ids row) (\<lambda>b. pcatch (on_session row (gw_mute gw) b) (\<lambda>_. pret ()))) (\<lambda>_. ?F) (\<lambda>_ _. False)" for row
  proof (cases "rn_dry_run row")
    case False
    show ?thesis
      unfolding if_not_P [OF False]
    proof (rule triple_pfor)
      fix b
      show "triple ?F (pcatch (on_session row (gw_mute gw) b) (\<lambda>_. pret ())) (\<lambda>_. ?F) (\<lambda>_ _. False)"
        by (rule triple_pcatch [OF triple_quiet pret]) (intro on_session_quiet services_quiet)
    qed
  qed (simp only: if_P, rule pret)
  have mark: "triple ?F (pcatch (pfor (rn_board_ids row) (\<lambda>b. gw_mark_state gw b Board_FAULT))
      (\<lambda>e. if e = KeyError then pret () else praise e)) (\<lambda>_. ?F) (\<lambda>_ _. False)" for row
  proof (rule triple_pcatch [where R = "\<lambda>e s. e = KeyError \<and> ?F s"])
    show "triple ?F (pfor (rn_board_ids row) (\<lambda>b. gw_mark_state gw b Board_FAULT)) (\<lambda>_. ?F) (\<lambda>e s. e = KeyError \<and> ?F s)"
    proof (rule triple_pfor)
      fix b
      have "triple ?F (gw_mark_state gw b Board_FAULT) (\<lambda>_. ?F) (\<lambda>_. ?F)" by (intro triple_quiet services_quiet)
      moreover have "e = KeyError" if "gw_mark_state gw b Board_FAULT s = (Inl e, s')" for s e s'
        using mark_error [of b Board_FAULT s e] that by simp
      ultimately show "triple ?F (gw_mark_state gw b Board_FAULT) (\<lambda>_. ?F) (\<lambda>e s. e = KeyError \<and> ?F s)"
        unfolding triple_def by (fastforce split: prod.splits sum.splits)
    qed
    show "triple (\<lambda>s. e = KeyError \<and> ?F s) (if e = KeyError then pret () else praise e) (\<lambda>_. ?F) (\<lambda>_ _. False)" for e
      by (simp add: triple_def)
  qed
  show ?thesis
    unfolding fault_def finished_def publish_run_def
    by (rule triple_pbind [OF upd], rule triple_pthen [OF mute], rule triple_pthen [OF mark],
        rule triple_pthen [OF event_done triple_pthen [OF publish_done release_done]]) simp
qed

lemma execute_done:
  assumes "validate_run_request q = Inr q"
  shows "triple (run_at i act rest (of_request q)) (execute gw i)
    (\<lambda>_ s. run_result i act rest q s \<or> finished i act rest q Run_FAULT (\<lambda>_. True) s) (\<lambda>_ _. False)"
  unfolding execute_def
proof (rule triple_pcatch)
  show "triple (run_at i act rest (of_request q)) (execute_body gw i)
      (\<lambda>_ s. run_result i act rest q s \<or> finished i act rest q Run_FAULT (\<lambda>_. True) s) (\<lambda>_. run_at i act rest (of_request q))"
    by (rule triple_weaken [OF body_done [OF assms]]) auto
  show "triple (run_at i act rest (of_request q)) (fault gw i (gw_text gw e))
      (\<lambda>_ s. run_result i act rest q s \<or> finished i act rest q Run_FAULT (\<lambda>_. True) s) (\<lambda>_ _. False)" for e
    by (rule triple_weaken [OF fault_done]) (auto simp: finished_def intro: run_at_mono)
qed

end

section \<open>Claims\<close>

definition claimed :: "string \<Rightarrow> string list \<Rightarrow> (string \<Rightarrow> string option) \<Rightarrow> string \<Rightarrow> string option" where
  "claimed i ids act b = (if b \<in> set ids then Some i else act b)"

definition is_free :: "(string \<Rightarrow> string option) \<Rightarrow> string \<Rightarrow> bool" where
  "is_free act b \<longleftrightarrow> act b = None \<or> act b = Some []"

text \<open>The claim of the boards, all or none.\<close>

lemma claim_boards_eq:
  "claim_boards i ids s = (if list_all (is_free (co_active s)) ids then (Inr (), s\<lparr>co_active := claimed i ids (co_active s)\<rparr>)
     else (Inl RuntimeError, s))"
  by (auto simp: claim_boards_def prog_defs list_ex_iff list_all_iff is_free_def claimed_def fun_eq_iff)

lemma rs_create_cases:
  obtains e st' where "rs_create i q dir st = (Inl e, st')" "rs_runs st' = rs_runs st"
  | row st' where "rs_create i q dir st = (Inr row, st')" "rs_runs st' = rs_runs st @ [row]" "find_run i st = None"
      "rn_id row = i" "of_request q row" "rn_state row = Run_QUEUED" "\<not> rn_loaded row" "rn_waveform_sessions row = Map.empty"
proof (cases "rq_jobs q = []")
  case True
  then show thesis using that(1) by (simp add: rs_create_def utc_now_def prog_defs)
next
  case False
  show thesis
  proof (cases "find_run i st")
    case (Some r)
    then show thesis using that(1) False by (simp add: rs_create_def utc_now_def find_run_def prog_defs Let_def)
  next
    case None
    then show thesis using that(2) False
      by (simp add: rs_create_def utc_now_def find_run_def prog_defs Let_def of_request_def)
  qed
qed

definition owned_by :: "run_store \<Rightarrow> (string \<Rightarrow> string option) \<Rightarrow> 'g coord \<Rightarrow> bool" where
  "owned_by st act s \<longleftrightarrow> co_store s = st \<and> co_active s = act"

lemma quiet_owned: "quiet m \<Longrightarrow> triple (owned_by st act) m (\<lambda>_. owned_by st act) (\<lambda>_. owned_by st act)"
  by (rule triple_keeps) (simp add: keeps_def owned_by_def quietD)

lemma triple_fixed: "triple P m Q E \<Longrightarrow> triple (\<lambda>s. B \<and> P s) m (\<lambda>x s. B \<and> Q x s) (\<lambda>e s. B \<and> E e s)"
  by (cases B) (simp_all add: triple_def)

text \<open>The run that was created, and what is left of a refused request.\<close>

definition new_run :: "string \<Rightarrow> run_request \<Rightarrow> run_store \<Rightarrow> run_store \<Rightarrow> run_row \<Rightarrow> bool" where
  "new_run i q st st' row \<longleftrightarrow> rs_runs st' = rs_runs st @ [row] \<and> find_run i st = None \<and> rn_id row = i \<and> of_request q row \<and>
     rn_state row = Run_QUEUED \<and> \<not> rn_loaded row \<and> rn_waveform_sessions row = Map.empty"

lemma create_run_triple:
  fixes gw :: "'g coord gateway"
  assumes "board_services gw" "\<And>p. prepare = Some p \<Longrightarrow> quiet (p i)"
  shows "triple (owned_by st act) (create_run gw i q prepare)
    (\<lambda>row s. list_all (is_free act) (rq_board_ids q) \<and> co_active s = claimed i (rq_board_ids q) act \<and>
       new_run i q st (co_store s) row)
    (\<lambda>_ s. rs_runs (co_store s) = rs_runs st \<and>
       (co_active s = act \<or> list_all (is_free act) (rq_board_ids q) \<and> co_active s = released i (claimed i (rq_board_ids q) act)))"
    (is "triple _ _ ?Q ?E")
proof -
  note services_quiet = board_services.services_quiet [OF assms(1)]
  let ?ids = "rq_board_ids q"
  let ?P = "\<lambda>s :: 'g coord. list_all (is_free act) ?ids \<and> owned_by st (claimed i ?ids act) s"
  let ?F = "\<lambda>_ (s :: 'g coord). list_all (is_free act) ?ids \<and> rs_runs (co_store s) = rs_runs st \<and> co_active s = claimed i ?ids act"
  have quietly: "triple (owned_by st act) m (\<lambda>_. owned_by st act) ?E" if "quiet m" for m :: "('g coord, 'c) prog"
    by (rule triple_weaken [OF quiet_owned [OF that]]) (auto simp: owned_by_def)
  have profiles: "quiet (pfor ?ids (\<lambda>b. pbind (gw_profile gw b) (\<lambda>_. pret ())))" by (intro quiet_rules services_quiet)
  have claim: "triple (owned_by st act) (claim_boards i ?ids) (\<lambda>_. ?P) ?E"
    by (simp add: triple_def claim_boards_eq owned_by_def)
  have prep: "triple ?P (case prepare of None \<Rightarrow> pret () | Some p \<Rightarrow> p i) (\<lambda>_. ?P) ?F"
  proof -
    have "quiet (case prepare of None \<Rightarrow> pret () | Some p \<Rightarrow> p i)" using assms(2) quiet_basic(1) by (cases prepare) (auto simp del: pret_apply)
    from triple_fixed [OF quiet_owned [OF this, of st "claimed i ?ids act"], of "list_all (is_free act) ?ids"] show ?thesis
      by (rule triple_weaken) (auto simp: owned_by_def)
  qed
  have create: "triple ?P (with_store (rs_create i q (gw_artifacts_root gw @ ''/'' @ i))) ?Q ?F"
  proof (unfold triple_def, intro allI impI)
    fix s assume s: "?P s"
    show "case with_store (rs_create i q (gw_artifacts_root gw @ ''/'' @ i)) s of (Inl e, s') \<Rightarrow> ?F e s' | (Inr x, s') \<Rightarrow> ?Q x s'"
      by (rule rs_create_cases [of i q "gw_artifacts_root gw @ ''/'' @ i" "co_store s"])
        (use s in \<open>simp_all add: with_store_def owned_by_def new_run_def\<close>)
  qed
  have undo: "triple (?F e) (pthen (release_group i) (praise e)) ?Q ?E" for e
    by (auto simp: triple_def release_group_def released_def fun_eq_iff)
  have out: "triple (?Q row) (pthen (publish_run row) (pthen (pmodify (\<lambda>s. s\<lparr>co_threads := co_threads s @ [i]\<rparr>)) (pret row))) ?Q ?E" for row
    by (simp add: triple_def publish_run_def publish_def)
  show ?thesis
    unfolding create_run_def
    by (rule triple_pthen [OF quietly], rule quiet_rules, rule triple_pthen [OF quietly], rule quiet_rules,
        rule triple_pthen [OF quietly], rule quiet_rules, rule triple_pthen [OF quietly [OF profiles]],
        rule triple_pthen [OF claim], rule triple_pbind [OF triple_pcatch [OF triple_pthen [OF prep create] undo] out])
qed

lemma find_run_append: "find_run i st = None \<Longrightarrow> rs_runs st' = rs_runs st @ [row] \<Longrightarrow> rn_id row = i \<Longrightarrow>
  run_rows i st' = [row] \<and> other_rows i st' = rs_runs st"
  by (auto simp: find_run_def find_None_iff run_rows_def other_rows_def filter_empty_conv filter_id_conv)

text \<open>
  C19. Every run that was accepted ends. Whatever the boards, the generators and the RFDC service do or
  raise, the worker returns without an exception; the run is then DONE or FAULT and all its boards are
  free again, except a continuous one-shot without a duration, which is RUNNING and keeps its boards.
  A run that is DONE is marked as loaded exactly if it was an upload that was not a dry run. The boards
  and the records of other runs are as they were.
\<close>

theorem accepted_run_ends:
  assumes "board_services gw" "\<forall>p \<in> set_option prepare. quiet (p i)" "validate_run_request q = Inr q"
    "create_run gw i q prepare s = (Inr row, s1)" "execute gw i s1 = (x, s2)"
  shows "x = Inr () \<and> other_rows i (co_store s2) = rs_runs (co_store s) \<and>
    (\<exists>r. find_run i (co_store s2) = Some r \<and> rn_request r = q \<and>
      (if rn_state r = Run_RUNNING
       then plays_on q \<and> rn_loaded r \<and> co_active s2 = claimed i (rq_board_ids q) (co_active s)
       else rn_state r \<in> {Run_DONE, Run_FAULT} \<and> co_active s2 = released i (claimed i (rq_board_ids q) (co_active s)) \<and>
            (if rn_state r = Run_DONE
             then rn_loaded r = (\<not> rq_dry_run q \<and> rq_completion_mode q \<noteq> ''one_shot'') else True)))"
proof -
  let ?act = "claimed i (rq_board_ids q) (co_active s)" and ?rest = "rs_runs (co_store s)"
  have "co_active s1 = ?act \<and> new_run i q (co_store s) (co_store s1) row"
    using tripleD_Inr [OF create_run_triple [OF assms(1), of prepare i "co_store s" "co_active s" q] _ assms(4)] assms(2)
    by (simp add: owned_by_def)
  then have "run_at i ?act ?rest (of_request q) s1"
    using find_run_append [of i "co_store s" "co_store s1" row] by (simp add: new_run_def run_at_def)
  note ends = board_services.execute_done [OF assms(1,3), of i ?act ?rest]
  obtain u where x: "x = Inr u" using tripleD_Inl [OF ends \<open>run_at i ?act ?rest (of_request q) s1\<close>] assms(5) by (cases x) auto
  have "run_result i ?act ?rest q s2 \<or> finished i ?act ?rest q Run_FAULT (\<lambda>_. True) s2"
    using tripleD_Inr [OF ends \<open>run_at i ?act ?rest (of_request q) s1\<close>] assms(5) unfolding x by blast
  then show ?thesis
    unfolding run_result_def finished_def run_at_def
    by (auto simp: x of_request_def find_run_rows split: if_splits)
qed

section \<open>An example\<close>

definition example_waveform :: waveform_request where
  "example_waveform = \<lparr>wq_name = ''w'', wq_mode = ''manual'', wq_loop = False,
     wq_manual_channels = map (\<lambda>c. \<lparr>wc_channel = c, wc_enabled = True\<rparr>) [1, 2, 3, 4, 5, 6, 7, 8],
     wq_ezq_channels = [], wq_rest = []\<rparr>"

definition example_request :: "string list \<Rightarrow> bool \<Rightarrow> rfdc_request option \<Rightarrow> run_request" where
  "example_request boards dry_run config =
     \<lparr>rq_jobs = map (\<lambda>b. \<lparr>jb_board_id = b, jb_waveform = example_waveform, jb_override = None, jb_rfdc_config = config\<rparr>) boards,
      rq_dry_run = dry_run, rq_execution_mode = (if length boards = 2 then ''synchronized'' else ''single''),
      rq_completion_mode = ''upload'', rq_playback_mode = ''single'', rq_one_shot_duration_ms = 0\<rparr>"

definition example_gateway :: "sim_coord gateway" where
  "example_gateway = sim_gateway (\<lambda>_. Inr ()) (\<lambda>_ _. Inr []) (\<lambda>_. ''error'') (\<lambda>_. ''0'') (\<lambda>_. [])"

definition example_coord :: sim_coord where
  "example_coord =
     \<lparr>co_store = \<lparr>rs_runs = [], rs_events = [], rs_last_event = 0, rs_time = (\<lambda>_. ''t''), rs_tick = 0\<rparr>,
      co_active = Map.empty, co_published = [], co_threads = [],
      co_boards = \<lparr>sg_profiles = [(''a'', \<lparr>bi_name = ''A'', bi_target_profile = ''custom_xczu47dr''\<rparr>),
                               (''b'', \<lparr>bi_name = ''B'', bi_target_profile = ''other''\<rparr>)],
                   sg_status = Map.empty, sg_boards = Map.empty\<rparr>\<rparr>"

lemma example_request_valid:
  "(case config of None \<Rightarrow> True | Some c \<Rightarrow> rfdc_request_valid c) \<Longrightarrow>
     validate_run_request (example_request [''a''] dry_run config) = Inr (example_request [''a''] dry_run config)"
  "validate_run_request (example_request [''a''] dry_run None) = Inr (example_request [''a''] dry_run None)"
  by (simp_all add: validate_run_request_def example_request_def job_request_valid_def waveform_valid_def example_waveform_def
      mode_channels_def rq_board_ids_def guard_raise_def upto.simps)


lemmas run_defs = with_store_def with_boards_def rs_create_def rs_get_request_def rs_change_def rs_require_def rs_get_def
  rs_update_def rs_complete_loaded_def rs_complete_unloaded_def rs_add_event_def utc_now_def update_runs_def find_run_def
  run_record_def publish_run_def publish_def co_event_def co_update_def release_group_def claim_boards_def require_run_def
  sim_profile_def sync_statuses_def prog_defs Let_def

lemma example_created:
  "\<exists>row s. create_run example_gateway ''1f'' (example_request [''a''] dry_run config) None example_coord = (Inr row, s)"
  by (simp add: create_run_def example_gateway_def sim_gateway_def example_coord_def example_request_def rq_board_ids_def
      example_waveform_def run_defs)

lemma accepted_run_ends_witness:
  "fst (execute example_gateway ''1f''
     (snd (create_run example_gateway ''1f'' (example_request [''a''] False None) None example_coord))) = Inr ()"
proof -
  have b: "board_services example_gateway" unfolding example_gateway_def by (rule sim.board_services_axioms)
  show ?thesis
    using accepted_run_ends [OF b, of None "''1f''", OF _ example_request_valid(2) _ surjective_pairing]
      example_created [of False None] by auto
qed

end
