(* ===== verification/Mgmt_Users.thy ===== *)
theory Mgmt_Users
  imports Mgmt_Tables
begin

text \<open>
  Passwords, users and sessions of \<open>webapp/management.py\<close>. The key derivation
  \<open>hashlib.pbkdf2_hmac("sha256", ...)\<close> is a parameter \<open>kdf\<close>: password, salt and iterations give the
  digest or an exception.
\<close>

section \<open>Passwords\<close>

type_synonym kdf = "string \<Rightarrow> bytes \<Rightarrow> int \<Rightarrow> bytes result"

definition bytes_hex :: "bytes \<Rightarrow> string" where
  "bytes_hex bs = concat (map (\<lambda>b. hex_digits 2 (unat b)) bs)"

text \<open>\<open>bytes.fromhex\<close>: pairs of hexadecimal digits, white space only between pairs.\<close>

fun bytes_fromhex :: "string \<Rightarrow> bytes option" where
  "bytes_fromhex [] = Some []"
| "bytes_fromhex (c # s) =
     (if is_space c then bytes_fromhex s
      else case s of
        [] \<Rightarrow> None
      | d # rest \<Rightarrow>
          (case (digit_value c, digit_value d) of
             (Some h, Some l) \<Rightarrow> map_option (\<lambda>bs. word_of_nat (16 * h + l) # bs) (bytes_fromhex rest)
           | _ \<Rightarrow> None))"

text \<open>\<open>str.split(":", n)\<close>: at most \<open>n\<close> splits.\<close>

fun split_limit :: "char \<Rightarrow> nat \<Rightarrow> string \<Rightarrow> string list" where
  "split_limit d 0 s = [s]"
| "split_limit d (Suc n) s =
     (if d \<in> set s then takeWhile (\<lambda>c. c \<noteq> d) s # split_limit d n (tl (dropWhile (\<lambda>c. c \<noteq> d) s)) else [s])"

definition PASSWORD_ITERATIONS :: int where "PASSWORD_ITERATIONS = 250000"

definition hash_password :: "kdf \<Rightarrow> string \<Rightarrow> bytes \<Rightarrow> string result" where
  "hash_password kdf password salt =
     ebind (kdf password salt PASSWORD_ITERATIONS) (\<lambda>digest.
     Inr (''pbkdf2:'' @ show_int PASSWORD_ITERATIONS @ '':'' @ bytes_hex salt @ '':'' @ bytes_hex digest))"

definition verify_password :: "kdf \<Rightarrow> string \<Rightarrow> string \<Rightarrow> bool result" where
  "verify_password kdf password encoded =
     (case split_limit CHR '':'' 3 encoded of
        [scheme, iterations_text, salt_text, expected_text] \<Rightarrow>
          if scheme \<noteq> ''pbkdf2'' then Inr False
          else (case (bytes_fromhex salt_text, int_base10 iterations_text) of
              (Some salt, Some iterations) \<Rightarrow>
                (case kdf password salt iterations of
                   Inl e \<Rightarrow> if e = TypeError \<or> is_ValueError e then Inr False else Inl e
                 | Inr actual \<Rightarrow> Inr (bytes_hex actual = expected_text))
            | _ \<Rightarrow> Inr False)
      | _ \<Rightarrow> Inr False)"

section \<open>Users\<close>

text \<open>The public part of a user.\<close>

record user_record =
  ur_id :: int
  ur_username :: string
  ur_role :: user_role
  ur_enabled :: bool
  ur_created_at :: string

definition to_user :: "user_row \<Rightarrow> user_record" where
  "to_user r = \<lparr>ur_id = us_id r, ur_username = us_username r, ur_role = us_role r,
     ur_enabled = us_enabled r, ur_created_at = us_created_at r\<rparr>"

definition authenticate :: "kdf \<Rightarrow> string \<Rightarrow> string \<Rightarrow> (store, user_record option) prog" where
  "authenticate kdf username password =
     pbind (transaction (pgets (\<lambda>s. find (\<lambda>u. us_username u = username \<and> us_enabled u) (st_users s)))) (\<lambda>row.
     case row of
       None \<Rightarrow> pret None
     | Some r \<Rightarrow>
         pbind (plift (verify_password kdf password (us_password_hash r))) (\<lambda>ok.
         pret (if ok then Some (to_user r) else None)))"

definition list_users :: "(store, user_record list) prog" where
  "list_users = transaction (pgets (\<lambda>s. map to_user (sort_key (lower \<circ> us_username) (st_users s))))"

definition insert_user :: "string \<Rightarrow> string \<Rightarrow> user_role \<Rightarrow> bool \<Rightarrow> string \<Rightarrow> (store, unit) prog" where
  "insert_user username password_hash role enabled now =
     pthen (sql_check (\<lambda>s. username \<notin> us_username ` set (st_users s)))
       (pmodify (\<lambda>s. s\<lparr>st_users := st_users s @
          [\<lparr>us_id = seq_users s + 1, us_username = username, us_password_hash = password_hash, us_role = role,
            us_enabled = enabled, us_created_at = now\<rparr>],
          seq_users := seq_users s + 1\<rparr>))"

definition create_user ::
  "kdf \<Rightarrow> bytes \<Rightarrow> string \<Rightarrow> string \<Rightarrow> string \<Rightarrow> user_role \<Rightarrow> bool \<Rightarrow> (store, user_record option) prog" where
  "create_user kdf salt now username password role enabled =
     transaction (
       pthen (pcatch
          (pbind (plift (hash_password kdf password salt)) (\<lambda>password_hash.
           insert_user username password_hash role enabled now))
          (\<lambda>e. if e = IntegrityError then praise ManagementError else praise e)) (
       pgets (\<lambda>s. map_option to_user (find (\<lambda>u. us_id u = seq_users s) (st_users s)))))"

definition update_user ::
  "kdf \<Rightarrow> bytes \<Rightarrow> int \<Rightarrow> string option \<Rightarrow> user_role \<Rightarrow> bool \<Rightarrow> (store, user_record option) prog" where
  "update_user kdf salt user_id password role enabled =
     transaction (
       pbind (pgets (\<lambda>s. find (\<lambda>u. us_id u = user_id) (st_users s))) (\<lambda>current.
       pthen (praise_if (current = None) KeyError) (
       pthen (case password of
           Some p \<Rightarrow>
             if p = [] then pmodify (\<lambda>s. s\<lparr>st_users := sql_update (\<lambda>u. us_id u = user_id)
               (\<lambda>u. u\<lparr>us_role := role, us_enabled := enabled\<rparr>) (st_users s)\<rparr>)
             else pbind (plift (hash_password kdf p salt)) (\<lambda>h.
               pmodify (\<lambda>s. s\<lparr>st_users := sql_update (\<lambda>u. us_id u = user_id)
                 (\<lambda>u. u\<lparr>us_password_hash := h, us_role := role, us_enabled := enabled\<rparr>) (st_users s)\<rparr>))
         | None \<Rightarrow> pmodify (\<lambda>s. s\<lparr>st_users := sql_update (\<lambda>u. us_id u = user_id)
               (\<lambda>u. u\<lparr>us_role := role, us_enabled := enabled\<rparr>) (st_users s)\<rparr>)) (
       pthen (if enabled then pret ()
              else pmodify (\<lambda>s. s\<lparr>st_sessions := filter (\<lambda>x. se_user_id x \<noteq> user_id) (st_sessions s)\<rparr>)) (
       pgets (\<lambda>s. map_option to_user (find (\<lambda>u. us_id u = user_id) (st_users s))))))))"

section \<open>Sessions\<close>

definition create_session ::
  "string \<Rightarrow> string \<Rightarrow> string \<Rightarrow> string \<Rightarrow> user_record \<Rightarrow> (store, string \<times> string) prog" where
  "create_session token csrf expires now user =
     pthen (transaction (
       pthen (sql_check (\<lambda>s. token \<notin> se_token ` set (st_sessions s))) (
       pthen (sql_check (user_known (ur_id user))) (
       pmodify (\<lambda>s. s\<lparr>st_sessions := st_sessions s @
          [\<lparr>se_token = token, se_csrf_token = csrf, se_user_id = ur_id user, se_expires_at = expires,
            se_created_at = now\<rparr>]\<rparr>))))) (
     pret (token, csrf))"

definition session_user :: "string \<Rightarrow> string option \<Rightarrow> (store, (user_record \<times> string) option) prog" where
  "session_user now token =
     (case token of
        None \<Rightarrow> pret None
      | Some t \<Rightarrow>
          if t = [] then pret None
          else transaction (pgets (\<lambda>s.
            case find (\<lambda>x. se_token x = t \<and> now < se_expires_at x) (st_sessions s) of
              None \<Rightarrow> None
            | Some x \<Rightarrow> map_option (\<lambda>u. (to_user u, se_csrf_token x))
                (find (\<lambda>u. us_id u = se_user_id x \<and> us_enabled u) (st_users s)))))"

definition delete_session :: "string option \<Rightarrow> (store, unit) prog" where
  "delete_session token =
     (case token of
        None \<Rightarrow> pret ()
      | Some t \<Rightarrow>
          if t = [] then pret ()
          else transaction (pmodify (\<lambda>s. s\<lparr>st_sessions := filter (\<lambda>x. se_token x \<noteq> t) (st_sessions s)\<rparr>)))"

section \<open>What a password hash promises\<close>

lemma is_space_hex: "d < 16 \<Longrightarrow> \<not> is_space (digit_char d)"
  by (simp add: is_space_def digit_char_code)

lemma bytes_fromhex_hex: "bytes_fromhex (bytes_hex bs) = Some bs"
proof (induction bs)
  case (Cons b bs)
  have "unat b < 256" using unsigned_less [of b] by simp
  then have d: "unat b div 16 < 16" "unat b mod 16 < 16" by (simp_all add: less_mult_imp_div_less)
  have h: "bytes_hex (b # bs) = digit_char (unat b div 16 mod 16) # digit_char (unat b mod 16) # bytes_hex bs"
    by (simp add: bytes_hex_def numeral_2_eq_2)
  have "unat b div 16 mod 16 = unat b div 16" using d by simp
  then show ?case using d Cons by (simp add: h is_space_hex digit_value_char)
qed (simp add: bytes_hex_def)

lemma hex_no_colon: "CHR '':'' \<notin> set (bytes_hex bs)"
proof
  assume "CHR '':'' \<in> set (bytes_hex bs)"
  then obtain b :: byte where "CHR '':'' \<in> set (hex_digits 2 (unat b))" unfolding bytes_hex_def set_concat set_map by blast
  with hex_digits_ok [of 2 "unat b"] obtain d where "d < 16" "CHR '':'' = digit_char d" by blast
  then show False using digit_char_plain [of d "CHR '':''"] by simp
qed

lemma show_int_no_colon: "0 \<le> n \<Longrightarrow> CHR '':'' \<notin> set (show_int n)"
proof
  assume n: "0 \<le> n" and "CHR '':'' \<in> set (show_int n)"
  then have "CHR '':'' \<in> set (dec_digits (nat n))" by (simp add: show_int_def)
  with dec_digits_are_digits [of "nat n"] have "is_digit 10 CHR '':''" by blast
  then show False by (simp add: is_digit_def digit_value_def ccode_def)
qed

lemma split_limit_part:
  "d \<notin> set a \<Longrightarrow> split_limit d (Suc n) (a @ d # rest) = a # split_limit d n rest"
  by (simp add: takeWhile_append dropWhile_append)

lemma int_base10_show: "0 \<le> n \<Longrightarrow> int_base10 (show_int n) = Some n"
  by (simp add: show_int_def int_base10_digits)

text \<open>
  A password is verified against the text stored for it exactly when the key derivation gives the
  digest that was stored: the text is taken apart into the salt and the number of iterations with
  which it was made, and nothing else is compared.
\<close>

lemma password_roundtrip:
  "case hash_password kdf password salt of
     Inl e \<Rightarrow> kdf password salt PASSWORD_ITERATIONS = Inl e
   | Inr encoded \<Rightarrow>
       verify_password kdf password encoded = Inr True \<and>
       verify_password kdf attempt encoded =
         (case kdf attempt salt PASSWORD_ITERATIONS of
            Inr d \<Rightarrow> Inr (Inr d = kdf password salt PASSWORD_ITERATIONS)
          | Inl e \<Rightarrow> if e = TypeError \<or> is_ValueError e then Inr False else Inl e)"
proof (cases "kdf password salt PASSWORD_ITERATIONS")
  case (Inr digest)
  have inj: "bytes_hex d = bytes_hex digest \<longleftrightarrow> d = digest" for d
    by (metis bytes_fromhex_hex option.inject)
  let ?enc = "''pbkdf2'' @ CHR '':'' # show_int PASSWORD_ITERATIONS @ CHR '':'' # bytes_hex salt @ CHR '':'' # bytes_hex digest"
  have h: "hash_password kdf password salt = Inr ?enc" by (simp add: hash_password_def Inr)
  have n: "0 \<le> PASSWORD_ITERATIONS" by (simp add: PASSWORD_ITERATIONS_def)
  have three: "(3::nat) = Suc (Suc (Suc 0))" by simp
  have parts: "split_limit CHR '':'' 3 ?enc =
      [''pbkdf2'', show_int PASSWORD_ITERATIONS, bytes_hex salt, bytes_hex digest]"
  proof -
    have p: "CHR '':'' \<notin> set ''pbkdf2''" by simp
    show ?thesis
      unfolding three split_limit_part [OF p] split_limit_part [OF show_int_no_colon [OF n]]
        split_limit_part [OF hex_no_colon] by simp
  qed
  have v: "verify_password kdf attempt ?enc =
      (case kdf attempt salt PASSWORD_ITERATIONS of
         Inl e \<Rightarrow> if e = TypeError \<or> is_ValueError e then Inr False else Inl e
       | Inr actual \<Rightarrow> Inr (actual = digest))" for attempt
    unfolding verify_password_def parts by (simp add: bytes_fromhex_hex int_base10_show [OF n] inj split: sum.split)
  show ?thesis unfolding h sum.case v by (simp add: Inr split: sum.split)
qed (simp add: hash_password_def)

section \<open>Users and sessions\<close>

text \<open>A login token names the user it was created for, while it has not expired and the user is enabled.\<close>

lemma session_of_new_token:
  assumes "create_session token csrf expires now user s = (Inr (t, c), s')" "token \<noteq> []"
    "u \<in> set (st_users s)" "us_id u = ur_id user" "distinct (map us_id (st_users s))"
  shows "session_user later (Some t) s' =
    (Inr (if later < expires \<and> us_enabled u then Some (to_user u, csrf) else None), s')"
proof -
  have u: "find (\<lambda>q. us_id q = ur_id user \<and> us_enabled q) (st_users s) = (if us_enabled u then Some u else None)"
    using find_key_and [OF assms(5,3), of us_enabled] assms(4) by simp
  let ?x = "\<lparr>se_token = token, se_csrf_token = csrf, se_user_id = ur_id user, se_expires_at = expires, se_created_at = now\<rparr>"
  from assms(1) have tok: "token \<notin> se_token ` set (st_sessions s)" and r: "t = token" "c = csrf"
    and s': "s' = s\<lparr>st_sessions := st_sessions s @ [?x]\<rparr>"
    by (auto simp: create_session_def transaction_def prog_defs split: if_splits)
  have "find (\<lambda>x. se_token x = token \<and> later < se_expires_at x) (st_sessions s) = None"
    using tok by (auto simp: find_None_iff)
  then show ?thesis
    using assms(2) u by (simp add: r s' session_user_def find_snoc)
qed

text \<open>Disabling a user ends every session: no token answers for him afterwards.\<close>

lemma update_user_Inr:
  assumes "update_user kdf salt uid password role enabled s = (Inr r, s')"
  shows "\<exists>h. s' = s\<lparr>st_users := sql_update (\<lambda>u. us_id u = uid)
            (\<lambda>u. u\<lparr>us_password_hash := h (us_password_hash u), us_role := role, us_enabled := enabled\<rparr>) (st_users s),
          st_sessions := (if enabled then st_sessions s else filter (\<lambda>x. se_user_id x \<noteq> uid) (st_sessions s))\<rparr>"
proof -
  have k: "u\<lparr>us_role := role, us_enabled := enabled\<rparr> =
      u\<lparr>us_password_hash := us_password_hash u, us_role := role, us_enabled := enabled\<rparr>" for u :: user_row
    by simp
  show ?thesis
  proof (cases "password = None \<or> password = Some []")
    case True
    then have "s' = s\<lparr>st_users := sql_update (\<lambda>u. us_id u = uid)
            (\<lambda>u. u\<lparr>us_role := role, us_enabled := enabled\<rparr>) (st_users s),
          st_sessions := (if enabled then st_sessions s else filter (\<lambda>x. se_user_id x \<noteq> uid) (st_sessions s))\<rparr>"
      using assms by (auto simp: update_user_def transaction_def prog_defs split: if_splits option.splits)
    then show ?thesis by (intro exI [of _ "\<lambda>x. x"]) simp
  next
    case False
    then obtain p h where "password = Some p" "p \<noteq> []" "hash_password kdf p salt = Inr h"
      using assms by (cases password; cases "hash_password kdf (the password) salt")
        (auto simp: update_user_def transaction_def prog_defs split: if_splits option.splits)
    then have "s' = s\<lparr>st_users := sql_update (\<lambda>u. us_id u = uid)
            (\<lambda>u. u\<lparr>us_password_hash := h, us_role := role, us_enabled := enabled\<rparr>) (st_users s),
          st_sessions := (if enabled then st_sessions s else filter (\<lambda>x. se_user_id x \<noteq> uid) (st_sessions s))\<rparr>"
      using assms by (auto simp: update_user_def transaction_def prog_defs split: if_splits option.splits)
    then show ?thesis by (intro exI [of _ "\<lambda>_. h"]) simp
  qed
qed

lemma update_user_disables:
  assumes "update_user kdf salt uid password role False s = (Inr r, s')"
  shows "uid \<notin> se_user_id ` set (st_sessions s')"
    "session_user now token s' = (Inr (Some (u, csrf)), s'') \<Longrightarrow> ur_id u \<noteq> uid"
proof -
  show a: "uid \<notin> se_user_id ` set (st_sessions s')" using update_user_Inr [OF assms] by auto
  assume "session_user now token s' = (Inr (Some (u, csrf)), s'')"
  then obtain t x q where "find (\<lambda>x. se_token x = t \<and> now < se_expires_at x) (st_sessions s') = Some x"
    "find (\<lambda>u. us_id u = se_user_id x \<and> us_enabled u) (st_users s') = Some q" "u = to_user q"
    by (auto simp: session_user_def split: option.splits if_splits)
  then have "x \<in> set (st_sessions s')" "us_id q = se_user_id x" "ur_id u = us_id q"
    by (auto dest: find_SomeD simp: to_user_def)
  with a show "ur_id u \<noteq> uid" by auto
qed


end
