(* ===== verification/Mgmt_Boards.thy ===== *)
theory Mgmt_Boards
  imports Mgmt_Users
begin

text \<open>
  The board inventory of \<open>webapp/management.py\<close>: reading a board with its lease, the updates of an
  operator, the addresses for discovered boards, the insertion of a discovered board, and leases.
\<close>

section \<open>Reading boards\<close>

text \<open>What the model \<open>BoardProfile\<close> accepts; a row outside raises when it is read.\<close>

definition profile_ok :: "board_row \<Rightarrow> bool" where
  "profile_ok r \<longleftrightarrow> 1 \<le> bo_port r \<and> bo_port r \<le> 65535 \<and> 0 \<le> bo_network_revision r \<and>
     bo_network_apply_status r \<in> {''unknown'', ''pending'', ''applied'', ''failed''} \<and>
     bo_clock_source r = ''onboard'' \<and> 300 \<le> bo_baud_rate r \<and> bo_baud_rate r \<le> 4000000"

record board_profile =
  bp_row :: board_row
  bp_lease :: "(lease_row \<times> string) option"

definition to_profile :: "board_row \<Rightarrow> (lease_row \<times> string) option \<Rightarrow> board_profile result" where
  "to_profile r lease =
     guard_raise (\<not> profile_ok r) ValidationError (
     Inr \<lparr>bp_row = r\<lparr>bo_desired_ip := or_text (bo_desired_ip r) (bo_ip r),
                     bo_active_ip := or_text (bo_active_ip r) (bo_ip r),
                     bo_desired_mac := or_text (bo_desired_mac r) (bo_mac r),
                     bo_active_mac := or_text (bo_active_mac r) (bo_mac r)\<rparr>,
          bp_lease = lease\<rparr>)"

definition is_active_lease :: "string \<Rightarrow> lease_row \<Rightarrow> bool" where
  "is_active_lease bid l \<longleftrightarrow> le_board_id l = bid \<and> le_status l = LeaseActive"

text \<open>The board with its active lease; the unique index leaves at most one.\<close>

definition board_of :: "store \<Rightarrow> board_row \<Rightarrow> board_profile result" where
  "board_of s r =
     (case find (is_active_lease (bo_id r)) (st_leases s) of
        None \<Rightarrow> to_profile r None
      | Some l \<Rightarrow>
          (case username_of s (le_user_id l) of
             None \<Rightarrow> Inl ValidationError
           | Some name \<Rightarrow> to_profile r (Some (l, name))))"

definition list_boards :: "(store, board_profile list) prog" where
  "list_boards =
     pbind (transaction (pgets (\<lambda>s. map (board_of s)
       (sort_key (lower \<circ> bo_name) (filter bo_enabled (st_boards s)))))) (\<lambda>rows.
     plift (emap (\<lambda>r. r) rows))"

definition list_inventory_records :: "(store, board_profile list) prog" where
  "list_inventory_records =
     pbind (transaction (pgets (\<lambda>s. map (board_of s) (sort_key (lower \<circ> bo_name) (st_boards s))))) (\<lambda>rows.
     plift (emap (\<lambda>r. r) rows))"

definition get_board :: "string \<Rightarrow> (store, board_profile) prog" where
  "get_board board_id =
     pbind (transaction (pgets (\<lambda>s. map_option (board_of s) (find (\<lambda>r. bo_id r = board_id) (st_boards s))))) (\<lambda>row.
     case row of None \<Rightarrow> praise KeyError | Some r \<Rightarrow> plift r)"

definition store_add_board :: "(store, board_profile) prog" where
  "store_add_board = praise ManagementError"

section \<open>Updates of an operator\<close>

record board_request =
  bq_name :: string
  bq_model :: string
  bq_ip :: string
  bq_port :: int
  bq_mac :: string
  bq_bootstrap_ip :: string
  bq_desired_ip :: string
  bq_active_ip :: string
  bq_desired_mac :: string
  bq_active_mac :: string
  bq_device_uid :: string
  bq_network_revision :: int
  bq_network_apply_status :: string
  bq_network_apply_error :: string
  bq_udp_interface :: string
  bq_udp_source_ip :: string
  bq_clock_source :: string
  bq_target_profile :: string
  bq_jtag_cable_serial :: string
  bq_serial_path :: string
  bq_baud_rate :: int
  bq_location :: string
  bq_notes :: string
  bq_enabled :: bool

definition normalize_network_fields :: "board_request \<Rightarrow> board_request" where
  "normalize_network_fields q =
     (let q = q\<lparr>bq_desired_ip := or_text (bq_desired_ip q) (bq_ip q)\<rparr>;
          q = q\<lparr>bq_active_ip := or_text (bq_active_ip q) (bq_ip q)\<rparr>;
          q = q\<lparr>bq_desired_mac := or_text (bq_desired_mac q) (bq_mac q)\<rparr>;
          q = q\<lparr>bq_active_mac := or_text (bq_active_mac q) (bq_mac q)\<rparr> in
      q\<lparr>bq_ip := bq_active_ip q, bq_mac := bq_active_mac q\<rparr>)"

definition request_row :: "string \<Rightarrow> board_request \<Rightarrow> board_row \<Rightarrow> board_row" where
  "request_row now q r =
     r\<lparr>bo_name := bq_name q, bo_model := bq_model q, bo_ip := bq_ip q, bo_port := bq_port q, bo_mac := bq_mac q,
       bo_bootstrap_ip := bq_bootstrap_ip q, bo_desired_ip := bq_desired_ip q, bo_active_ip := bq_active_ip q,
       bo_desired_mac := bq_desired_mac q, bo_active_mac := bq_active_mac q, bo_device_uid := bq_device_uid q,
       bo_network_revision := bq_network_revision q, bo_network_apply_status := bq_network_apply_status q,
       bo_network_apply_error := bq_network_apply_error q, bo_udp_interface := bq_udp_interface q,
       bo_udp_source_ip := bq_udp_source_ip q, bo_clock_source := bq_clock_source q,
       bo_target_profile := bq_target_profile q, bo_jtag_cable_serial := bq_jtag_cable_serial q,
       bo_serial_path := bq_serial_path q, bo_baud_rate := bq_baud_rate q, bo_location := bq_location q,
       bo_notes := bq_notes q, bo_enabled := bq_enabled q, bo_updated_at := now\<rparr>"

text \<open>The columns an INSERT leaves to their defaults.\<close>

definition default_row :: "string \<Rightarrow> string \<Rightarrow> board_row" where
  "default_row bid now =
     \<lparr>bo_id = bid, bo_name = [], bo_model = [], bo_ip = [], bo_port = 0, bo_mac = [],
      bo_bootstrap_ip = ''192.168.254.254'', bo_desired_ip = [], bo_active_ip = [], bo_desired_mac = [],
      bo_active_mac = [], bo_device_uid = [], bo_network_revision = 0,
      bo_network_apply_status = ''unknown'', bo_network_apply_error = [], bo_udp_interface = [],
      bo_udp_source_ip = [], bo_clock_source = [], bo_target_profile = [], bo_jtag_cable_serial = [],
      bo_serial_path = [], bo_baud_rate = 115200, bo_serial_status = ''missing'', bo_serial_error = [],
      bo_location = [], bo_notes = [], bo_last_seen_at = [], bo_enabled = True, bo_created_at = now,
      bo_updated_at = now\<rparr>"

definition insert_board :: "board_row \<Rightarrow> (store, unit) prog" where
  "insert_board r =
     pthen (sql_check (\<lambda>s. \<not> board_known (bo_id r) s \<and> bo_clock_source r = ''onboard''))
       (pmodify (\<lambda>s. s\<lparr>st_boards := st_boards s @ [r]\<rparr>))"

definition update_boards :: "(board_row \<Rightarrow> bool) \<Rightarrow> (board_row \<Rightarrow> board_row) \<Rightarrow> (store, unit) prog" where
  "update_boards P f =
     pthen (sql_check (\<lambda>s. list_all (\<lambda>r. P r \<longrightarrow> bo_clock_source (f r) = ''onboard'') (st_boards s)))
       (pmodify (\<lambda>s. s\<lparr>st_boards := sql_update P f (st_boards s)\<rparr>))"

definition serial_conflict :: "string \<Rightarrow> string \<Rightarrow> store \<Rightarrow> bool" where
  "serial_conflict path board_id s \<longleftrightarrow>
     list_ex (\<lambda>r. bo_serial_path r = path \<and> bo_id r \<noteq> board_id) (st_boards s)"

definition created_request :: "host_env \<Rightarrow> board_request \<Rightarrow> board_request" where
  "created_request h q =
     (case auto_fpga_link_profile h (bq_udp_interface q) of
        None \<Rightarrow> q
      | Some p \<Rightarrow> q\<lparr>bq_ip := lp_target_ip p, bq_desired_ip := lp_target_ip p, bq_active_ip := lp_target_ip p,
          bq_mac := lp_target_mac p, bq_desired_mac := lp_target_mac p, bq_active_mac := lp_target_mac p,
          bq_bootstrap_ip := lp_bootstrap_ip p, bq_udp_source_ip := lp_source_ip p,
          bq_target_profile := lp_target_profile p, bq_clock_source := ''onboard''\<rparr>)"

definition write_board :: "host_env \<Rightarrow> string \<Rightarrow> string \<Rightarrow> board_request \<Rightarrow> bool \<Rightarrow> (store, unit) prog" where
  "write_board h now board_id request create =
     (let values = (if create then created_request h request else request) in
      transaction (
        pbind (pgets (\<lambda>s. \<not> create \<and> \<not> board_known board_id s)) (\<lambda>unknown.
        pthen (praise_if unknown KeyError) (
        pbind (pgets (\<lambda>s. bq_serial_path values \<noteq> [] \<and> serial_conflict (bq_serial_path values) board_id s)) (\<lambda>conflict.
        pthen (praise_if conflict ManagementError) (
        if create then insert_board (request_row now values (default_row board_id now))
        else update_boards (\<lambda>r. bo_id r = board_id) (request_row now values)))))))"

definition update_board :: "host_env \<Rightarrow> string \<Rightarrow> string \<Rightarrow> board_request \<Rightarrow> (store, board_profile) prog" where
  "update_board h now board_id request =
     pthen (write_board h now board_id request False) (get_board board_id)"

section \<open>The network identity of a board\<close>

text \<open>Every argument that is None leaves its column alone.\<close>

record network_update =
  nu_desired_ip :: "string option"
  nu_desired_mac :: "string option"
  nu_active_ip :: "string option"
  nu_active_mac :: "string option"
  nu_device_uid :: "string option"
  nu_revision :: "int option"
  nu_status :: "string option"
  nu_error :: "string option"

definition set_to :: "'a option \<Rightarrow> 'a \<Rightarrow> 'a" where
  "set_to new old = (case new of None \<Rightarrow> old | Some v \<Rightarrow> v)"

definition network_row :: "string \<Rightarrow> network_update \<Rightarrow> board_row \<Rightarrow> board_row" where
  "network_row now u r =
     r\<lparr>bo_desired_ip := set_to (nu_desired_ip u) (bo_desired_ip r),
       bo_desired_mac := set_to (nu_desired_mac u) (bo_desired_mac r),
       bo_active_ip := set_to (nu_active_ip u) (bo_active_ip r),
       bo_active_mac := set_to (nu_active_mac u) (bo_active_mac r),
       bo_device_uid := set_to (nu_device_uid u) (bo_device_uid r),
       bo_network_revision := set_to (nu_revision u) (bo_network_revision r),
       bo_network_apply_status := set_to (nu_status u) (bo_network_apply_status r),
       bo_network_apply_error := set_to (nu_error u) (bo_network_apply_error r),
       bo_ip := set_to (nu_active_ip u) (bo_ip r), bo_mac := set_to (nu_active_mac u) (bo_mac r),
       bo_updated_at := now\<rparr>"

definition nothing_to_update :: "network_update \<Rightarrow> bool" where
  "nothing_to_update u \<longleftrightarrow> nu_desired_ip u = None \<and> nu_desired_mac u = None \<and> nu_active_ip u = None \<and>
     nu_active_mac u = None \<and> nu_device_uid u = None \<and> nu_revision u = None \<and> nu_status u = None \<and>
     nu_error u = None"

definition update_network_state :: "string \<Rightarrow> string \<Rightarrow> network_update \<Rightarrow> (store, board_profile) prog" where
  "update_network_state now board_id u =
     (if nothing_to_update u then get_board board_id
      else pthen (transaction (
             pbind (pgets (board_known board_id)) (\<lambda>known.
             pthen (praise_if (\<not> known) KeyError) (
             update_boards (\<lambda>r. bo_id r = board_id) (network_row now u))))) (
           get_board board_id))"
section \<open>Discovered boards\<close>

definition first_free :: "string list \<Rightarrow> string set \<Rightarrow> string option" where
  "first_free candidates used = find (\<lambda>a. a \<noteq> [] \<and> a \<notin> used) candidates"

definition board_addresses :: "board_row \<Rightarrow> string list" where
  "board_addresses r = filter (\<lambda>a. a \<noteq> []) [bo_desired_ip r, bo_active_ip r, bo_ip r]"

definition used_addresses :: "string \<Rightarrow> store \<Rightarrow> string set" where
  "used_addresses interface s =
     (\<Union>r \<in> set (filter (\<lambda>r. bo_udp_interface r = interface \<and> bo_enabled r) (st_boards s)). set (board_addresses r))"

definition same_device :: "string \<Rightarrow> string \<Rightarrow> board_row \<Rightarrow> bool" where
  "same_device device_uid active_mac r \<longleftrightarrow>
     bo_device_uid r = device_uid \<and> (active_mac = [] \<or> bo_active_mac r = active_mac \<or> bo_mac r = active_mac)"

text \<open>The address the board has already, if the method returns one of them.\<close>

definition kept_address :: "string list \<Rightarrow> board_row option \<Rightarrow> string option" where
  "kept_address pool existing =
     (case existing of
        None \<Rightarrow> None
      | Some r \<Rightarrow>
          (case find (\<lambda>a. pool \<noteq> [] \<and> a \<in> set pool) [bo_desired_ip r, bo_active_ip r, bo_ip r] of
             Some a \<Rightarrow> Some a
           | None \<Rightarrow> if pool = [] \<and> bo_ip r \<noteq> [] then Some (bo_ip r) else None))"

definition allocated_ip_for_discovery :: "host_env \<Rightarrow> string \<Rightarrow> string \<Rightarrow> string \<Rightarrow> (store, string) prog" where
  "allocated_ip_for_discovery h interface device_uid active_mac =
     (let pool = ip_pool_for_interface h interface;
          profile = auto_fpga_link_profile h interface in
      pbind (transaction (pgets (\<lambda>s.
        let rows = sort_desc (\<lambda>r. (bo_last_seen_at r, bo_updated_at r)) (filter (same_device device_uid active_mac) (st_boards s)) in
        (kept_address pool (case rows of [] \<Rightarrow> None | r # _ \<Rightarrow> Some r), used_addresses interface s)))) (\<lambda>(kept, used).
      case kept of
        Some a \<Rightarrow> pret a
      | None \<Rightarrow>
          if pool = [] then pret (case profile of None \<Rightarrow> ''192.168.1.128'' | Some p \<Rightarrow> lp_target_ip p)
          else
            let preferred = (case profile of None \<Rightarrow> [] | Some p \<Rightarrow> lp_target_ip p);
                candidates = preferred # filter (\<lambda>a. a \<noteq> preferred) pool in
            (case first_free candidates used of None \<Rightarrow> praise ManagementError | Some a \<Rightarrow> pret a)))"

definition plain_mac :: "string \<Rightarrow> string" where
  "plain_mac s = lower (filter (\<lambda>c. c \<noteq> CHR '':'') s)"

definition mac_match :: "string \<Rightarrow> string \<Rightarrow> bool" where
  "mac_match left right \<longleftrightarrow> plain_mac left = plain_mac right"

definition row_mac :: "board_row \<Rightarrow> string" where
  "row_mac r = or_text (bo_active_mac r) (bo_mac r)"

definition TARGET_PROFILES :: "string list" where
  "TARGET_PROFILES =
     [''custom_xczu47dr'', ''custom_xczu47dr_master'', ''custom_xczu47dr_slave'', ''custom_xczu47dr_bw'']"

definition resolved_profile :: "link_profile option \<Rightarrow> string \<Rightarrow> string" where
  "resolved_profile profile target_profile =
     (let p = or_text target_profile (case profile of None \<Rightarrow> ''custom_xczu47dr'' | Some p \<Rightarrow> lp_target_profile p) in
      if p \<in> set TARGET_PROFILES then p else ''custom_xczu47dr'')"

definition is_alnum :: "char \<Rightarrow> bool" where
  "is_alnum c \<longleftrightarrow> (48 \<le> ccode c \<and> ccode c \<le> 57) \<or> (65 \<le> ccode c \<and> ccode c \<le> 90) \<or> (97 \<le> ccode c \<and> ccode c \<le> 122)"

definition upper :: "string \<Rightarrow> string" where
  "upper s = map (\<lambda>c. if 97 \<le> ccode c \<and> ccode c \<le> 122 then char_of (ccode c - 32) else c) s"

text \<open>The last eight letters and digits of the UID, or eight of a random identifier.\<close>

definition uid_suffix :: "string \<Rightarrow> string \<Rightarrow> string" where
  "uid_suffix device_uid random_hex =
     (let t = map lower_char (filter is_alnum device_uid) in
      or_text (drop (length t - 8) t) (take 8 random_hex))"

text \<open>\<open>while\<close> the identifier is taken: append four random digits. The list holds the random texts; the
  loop does not return when all of them are taken.\<close>

fun fresh_board_id :: "string \<Rightarrow> string list \<Rightarrow> string set \<Rightarrow> string \<Rightarrow> string option" where
  "fresh_board_id suffix [] taken candidate = (if candidate \<in> taken then None else Some candidate)"
| "fresh_board_id suffix (hex # hexes) taken candidate =
     (if candidate \<in> taken then fresh_board_id suffix hexes taken (''fpga-'' @ suffix @ ''-'' @ take 4 hex)
      else Some candidate)"

definition duplicate_note :: string where
  "duplicate_note = ''disabled duplicate device_uid; inventory is keyed by RFCTRL2 device_uid''"

definition append_note :: "string \<Rightarrow> string \<Rightarrow> string \<Rightarrow> string" where
  "append_note pat note old =
     (if like_infix pat old then old else if old = [] then note else old @ char_of (10::nat) # note)"

definition disable_duplicate :: "string \<Rightarrow> board_row \<Rightarrow> board_row" where
  "disable_duplicate now r =
     r\<lparr>bo_enabled := False,
       bo_notes := append_note ''disabled duplicate device_uid'' duplicate_note (bo_notes r),
       bo_updated_at := now\<rparr>"

record discovered =
  dc_device_uid :: string
  dc_udp_interface :: string
  dc_active_ip :: string
  dc_active_mac :: string
  dc_desired_ip :: string
  dc_desired_mac :: string
  dc_network_revision :: int
  dc_network_apply_status :: string
  dc_network_apply_error :: string
  dc_target_profile :: string

definition discovered_row :: "link_profile option \<Rightarrow> string \<Rightarrow> discovered \<Rightarrow> board_row \<Rightarrow> board_row" where
  "discovered_row profile now d r =
     r\<lparr>bo_name := or_text (case profile of None \<Rightarrow> [] | Some p \<Rightarrow> lp_inventory_name p) (bo_name r),
       bo_ip := dc_active_ip d, bo_mac := dc_active_mac d, bo_desired_ip := dc_desired_ip d,
       bo_active_ip := dc_active_ip d, bo_desired_mac := dc_desired_mac d, bo_active_mac := dc_active_mac d,
       bo_device_uid := dc_device_uid d, bo_udp_interface := dc_udp_interface d,
       bo_udp_source_ip := (case profile of None \<Rightarrow> ''192.168.1.10'' | Some p \<Rightarrow> lp_source_ip p),
       bo_bootstrap_ip := (case profile of None \<Rightarrow> ''192.168.254.254'' | Some p \<Rightarrow> lp_bootstrap_ip p),
       bo_target_profile := resolved_profile profile (dc_target_profile d), bo_clock_source := ''onboard'',
       bo_jtag_cable_serial := or_text (case profile of None \<Rightarrow> [] | Some p \<Rightarrow> lp_jtag_cable_serial p) (bo_jtag_cable_serial r),
       bo_serial_path := or_text (case profile of None \<Rightarrow> [] | Some p \<Rightarrow> lp_serial_path p) (bo_serial_path r),
       bo_network_revision := dc_network_revision d, bo_network_apply_status := dc_network_apply_status d,
       bo_network_apply_error := dc_network_apply_error d, bo_last_seen_at := now, bo_enabled := True,
       bo_updated_at := now\<rparr>"

definition inserted_row :: "link_profile option \<Rightarrow> string \<Rightarrow> discovered \<Rightarrow> string \<Rightarrow> string \<Rightarrow> board_row" where
  "inserted_row profile now d board_id suffix =
     discovered_row profile now d ((default_row board_id now)
       \<lparr>bo_name := ''FPGA '' @ upper suffix, bo_model := ''XCZU47DR RFDC'', bo_port := 1234\<rparr>)"

text \<open>The rows of the same device: the one to be updated, if any, and the duplicates.\<close>

definition device_rows :: "discovered \<Rightarrow> board_row list \<Rightarrow> board_row option \<times> board_row list" where
  "device_rows d boards =
     (let rows = sort_desc (\<lambda>r. (bo_enabled r, bo_last_seen_at r, bo_updated_at r))
                   (filter (\<lambda>r. bo_device_uid r = dc_device_uid d) boards) in
      if dc_active_mac d \<noteq> [] then
        let matches = filter (\<lambda>r. mac_match (row_mac r) (dc_active_mac d)) rows;
            row = (case matches of [] \<Rightarrow> None | r # _ \<Rightarrow> Some r) in
        (row, filter (\<lambda>r. (case row of None \<Rightarrow> True | Some q \<Rightarrow> bo_id r \<noteq> bo_id q) \<and>
                          mac_match (row_mac r) (dc_active_mac d)) rows)
      else (case rows of [] \<Rightarrow> (None, []) | r # rest \<Rightarrow> (Some r, rest)))"

definition upsert_discovered_board ::
  "host_env \<Rightarrow> string \<Rightarrow> string list \<Rightarrow> discovered \<Rightarrow> (store, board_profile) prog" where
  "upsert_discovered_board h now hexes d =
     pthen (praise_if (dc_device_uid d = []) ManagementError) (
     let profile = auto_fpga_link_profile h (dc_udp_interface d);
         suffix = uid_suffix (dc_device_uid d) (hd (hexes @ [''''])) in
     pbind (transaction (
       pbind (pgets (\<lambda>s. device_rows d (st_boards s))) (\<lambda>(row, duplicates).
       pthen (pfor duplicates (\<lambda>q. update_boards (\<lambda>r. bo_id r = bo_id q) (disable_duplicate now))) (
       case row of
         Some q \<Rightarrow> pthen (update_boards (\<lambda>r. bo_id r = bo_id q) (discovered_row profile now d)) (pret (bo_id q))
       | None \<Rightarrow>
           pbind (pgets (\<lambda>s. fresh_board_id suffix (tl (hexes @ [''''])) (bo_id ` set (st_boards s)) (''fpga-'' @ suffix))) (\<lambda>bid.
           case bid of
             None \<Rightarrow> praise RuntimeError
           | Some board_id \<Rightarrow>
               pthen (insert_board (inserted_row profile now d board_id suffix)) (pret board_id)))))) (\<lambda>board_id.
     get_board board_id))"

section \<open>Leases\<close>

definition active_lease :: "string \<Rightarrow> (store, (lease_row \<times> string) option) prog" where
  "active_lease board_id =
     transaction (pgets (\<lambda>s.
       case find (is_active_lease board_id) (st_leases s) of
         None \<Rightarrow> None
       | Some l \<Rightarrow> map_option (\<lambda>name. (l, name)) (username_of s (le_user_id l))))"

definition insert_lease :: "string \<Rightarrow> string \<Rightarrow> int \<Rightarrow> (store, unit) prog" where
  "insert_lease now board_id user_id =
     pthen (sql_check (\<lambda>s. board_known board_id s \<and> user_known user_id s \<and>
              find (is_active_lease board_id) (st_leases s) = None))
       (pmodify (\<lambda>s. s\<lparr>st_leases := st_leases s @
          [\<lparr>le_id = seq_leases s + 1, le_board_id = board_id, le_user_id = user_id, le_status = LeaseActive,
            le_starts_at = now, le_released_at = None, le_released_by = None\<rparr>],
          seq_leases := seq_leases s + 1\<rparr>))"

definition lease_board :: "string \<Rightarrow> string \<Rightarrow> user_record \<Rightarrow> (store, board_profile) prog" where
  "lease_board now board_id user =
     pthen (transaction (
       pbind (pgets (\<lambda>s. find (\<lambda>r. bo_id r = board_id) (st_boards s))) (\<lambda>board.
       case board of
         None \<Rightarrow> praise KeyError
       | Some r \<Rightarrow>
           pthen (praise_if (\<not> bo_enabled r) ManagementError) (
           pbind (pgets (\<lambda>s. find (is_active_lease board_id) (st_leases s) \<noteq> None)) (\<lambda>leased.
           pthen (praise_if leased ManagementError) (
           insert_lease now board_id (ur_id user))))))) (
     pthen (add_audit now ''lease.acquired'' (ur_username user @ '' acquired board'') (Some (ur_id user)) (Some board_id) Map.empty) (
     get_board board_id))"

definition end_lease :: "string \<Rightarrow> int \<Rightarrow> lease_status \<Rightarrow> int \<Rightarrow> (store, unit) prog" where
  "end_lease now lease_id status actor_id =
     pthen (sql_check (user_known actor_id))
       (pmodify (\<lambda>s. s\<lparr>st_leases := sql_update (\<lambda>l. le_id l = lease_id)
          (\<lambda>l. l\<lparr>le_status := status, le_released_at := Some now, le_released_by := Some actor_id\<rparr>) (st_leases s)\<rparr>))"

definition release_board :: "string \<Rightarrow> string \<Rightarrow> user_record \<Rightarrow> bool \<Rightarrow> (store, board_profile) prog" where
  "release_board now board_id actor force =
     pthen (transaction (
       pbind (pgets (\<lambda>s. find (is_active_lease board_id) (st_leases s))) (\<lambda>row.
       case row of
         None \<Rightarrow> praise ManagementError
       | Some l \<Rightarrow>
           pthen (praise_if (le_user_id l \<noteq> ur_id actor \<and> \<not> force) LeasePermissionError) (
           end_lease now (le_id l) (if force then LeaseForced else LeaseReleased) (ur_id actor))))) (
     pthen (add_audit now (if force then ''lease.forced'' else ''lease.released'')
              (ur_username actor @ '' released board'') (Some (ur_id actor)) (Some board_id) Map.empty) (
     get_board board_id))"

definition require_lease :: "user_record \<Rightarrow> string \<Rightarrow> (store, unit) prog" where
  "require_lease user board_id =
     pbind (active_lease board_id) (\<lambda>lease.
     praise_if (case lease of None \<Rightarrow> True | Some (l, _) \<Rightarrow> le_user_id l \<noteq> ur_id user) LeasePermissionError)"


end
