(* ===== verification/Mgmt_Jobs.thy ===== *)
theory Mgmt_Jobs
  imports Mgmt_Boards
begin

text \<open>
  The rest of \<open>webapp/management.py\<close>: owners of runs, RFDC configurations, phase calibrations, serial
  ports and logs, hardware discoveries, artifacts, programming jobs, and the repairs at start-up. The
  JSON text of an RFDC configuration is written and read by \<open>pydantic\<close>, which is a parameter.
\<close>

section \<open>Owners of runs\<close>

definition set_run_owner :: "string \<Rightarrow> user_record \<Rightarrow> (store, unit) prog" where
  "set_run_owner run_id user =
     transaction (
       pthen (sql_check (user_known (ur_id user))) (
       pmodify (\<lambda>s. s\<lparr>st_run_owners := filter (\<lambda>r. ro_run_id r \<noteq> run_id) (st_run_owners s) @
         [\<lparr>ro_run_id = run_id, ro_user_id = ur_id user\<rparr>]\<rparr>)))"

definition can_manage_run :: "string \<Rightarrow> user_record \<Rightarrow> (store, bool) prog" where
  "can_manage_run run_id user =
     (if ur_role user = ADMIN then pret True
      else transaction (pgets (\<lambda>s.
        case find (\<lambda>r. ro_run_id r = run_id) (st_run_owners s) of
          None \<Rightarrow> False
        | Some r \<Rightarrow> ro_user_id r = ur_id user)))"

section \<open>RFDC configurations\<close>

text \<open>The fields the store reads itself; \<open>rf_body\<close> is the rest of the model, the channels and masks.\<close>

record 'b stored_rfdc =
  rf_board_id :: string
  rf_revision :: int
  rf_applied_at :: "string option"
  rf_apply_status :: string
  rf_apply_error :: string
  rf_body :: 'b

definition load_rfdc_config ::
  "(string \<Rightarrow> 'b stored_rfdc result) \<Rightarrow> string \<Rightarrow> (store, 'b stored_rfdc option) prog" where
  "load_rfdc_config validate_json board_id =
     pbind (transaction (pgets (\<lambda>s. find (\<lambda>r. rc_board_id r = board_id) (st_rfdc_configs s)))) (\<lambda>row.
     case row of
       None \<Rightarrow> pret None
     | Some r \<Rightarrow>
         pbind (plift (validate_json (rc_config_json r))) (\<lambda>config.
         pret (Some (config\<lparr>rf_board_id := board_id, rf_revision := rc_revision r, rf_applied_at := rc_applied_at r,
           rf_apply_status := rc_apply_status r, rf_apply_error := rc_apply_error r\<rparr>))))"

definition save_rfdc_config ::
  "('b stored_rfdc \<Rightarrow> string) \<Rightarrow> string \<Rightarrow> 'b stored_rfdc \<Rightarrow> (store, 'b stored_rfdc) prog" where
  "save_rfdc_config dump_json now config =
     pthen (transaction (
       pthen (sql_check (board_known (rf_board_id config))) (
       pmodify (\<lambda>s.
         let row = \<lparr>rc_board_id = rf_board_id config, rc_config_json = dump_json config, rc_revision = rf_revision config,
                    rc_applied_at = rf_applied_at config, rc_apply_status = rf_apply_status config,
                    rc_apply_error = rf_apply_error config, rc_updated_at = now\<rparr> in
         if rf_board_id config \<in> rc_board_id ` set (st_rfdc_configs s)
         then s\<lparr>st_rfdc_configs := sql_update (\<lambda>r. rc_board_id r = rf_board_id config) (\<lambda>_. row) (st_rfdc_configs s)\<rparr>
         else s\<lparr>st_rfdc_configs := st_rfdc_configs s @ [row]\<rparr>)))) (
     pret config)"

section \<open>Phase calibrations\<close>

definition list_phase_calibrations :: "string \<Rightarrow> (store, (phase_row \<times> string option) list) prog" where
  "list_phase_calibrations board_id =
     pbind (get_board board_id) (\<lambda>board.
     if bo_device_uid (bp_row board) = [] then pret []
     else transaction (pgets (\<lambda>s. map (\<lambda>c. (c, Option.bind (ph_updated_by c) (username_of s)))
       (sort_key (\<lambda>c. (ph_frequency_hz c, ph_channel c))
         (filter (\<lambda>c. ph_device_uid c = bo_device_uid (bp_row board)) (st_phases s))))))"

definition phase_key :: "phase_row \<Rightarrow> string \<times> int \<times> int" where
  "phase_key c = (ph_device_uid c, ph_frequency_hz c, ph_channel c)"

definition upsert_phase :: "phase_row \<Rightarrow> (store, unit) prog" where
  "upsert_phase row =
     pthen (sql_check (\<lambda>s. 0 \<le> ph_frequency_hz row \<and> ph_frequency_hz row \<le> 6400000000 \<and>
              1 \<le> ph_channel row \<and> ph_channel row \<le> 8 \<and> -3600 \<le> ph_phase_deg row \<and> ph_phase_deg row \<le> 3600 \<and>
              (case ph_updated_by row of None \<Rightarrow> True | Some u \<Rightarrow> user_known u s)))
       (pmodify (\<lambda>s.
         if phase_key row \<in> phase_key ` set (st_phases s)
         then s\<lparr>st_phases := sql_update (\<lambda>c. phase_key c = phase_key row) (\<lambda>_. row) (st_phases s)\<rparr>
         else s\<lparr>st_phases := st_phases s @ [row]\<rparr>))"

definition save_phase_calibration ::
  "string \<Rightarrow> string \<Rightarrow> int \<Rightarrow> int \<Rightarrow> rat \<Rightarrow> user_record \<Rightarrow> (store, phase_row \<times> string option) prog" where
  "save_phase_calibration now board_id frequency_hz channel phase_deg user =
     pbind (get_board board_id) (\<lambda>board.
     pthen (praise_if (bo_device_uid (bp_row board) = []) ManagementError) (
     pthen (transaction (upsert_phase
       \<lparr>ph_device_uid = bo_device_uid (bp_row board), ph_frequency_hz = frequency_hz, ph_channel = channel,
        ph_phase_deg = phase_deg, ph_updated_by = Some (ur_id user), ph_updated_at = now\<rparr>)) (
     pbind (list_phase_calibrations board_id) (\<lambda>items.
     case find (\<lambda>(c, _). ph_frequency_hz c = frequency_hz \<and> ph_channel c = channel) items of
       None \<Rightarrow> praise RuntimeError
     | Some item \<Rightarrow> pret item))))"

section \<open>Serial ports\<close>

definition set_serial_binding :: "string \<Rightarrow> string \<Rightarrow> string \<Rightarrow> int \<Rightarrow> (store, board_profile) prog" where
  "set_serial_binding now board_id path baud_rate =
     pthen (transaction (
       pbind (pgets (board_known board_id)) (\<lambda>known.
       pthen (praise_if (\<not> known) KeyError) (
       pbind (pgets (serial_conflict path board_id)) (\<lambda>conflict.
       pthen (praise_if conflict ManagementError) (
       update_boards (\<lambda>r. bo_id r = board_id) (\<lambda>r. r\<lparr>bo_serial_path := path, bo_baud_rate := baud_rate,
         bo_serial_status := ''connecting'', bo_serial_error := [], bo_updated_at := now\<rparr>))))))) (
     get_board board_id)"

definition update_serial_state :: "string \<Rightarrow> string \<Rightarrow> string \<Rightarrow> string \<Rightarrow> (store, unit) prog" where
  "update_serial_state now board_id state error_text =
     transaction (update_boards (\<lambda>r. bo_id r = board_id)
       (\<lambda>r. r\<lparr>bo_serial_status := state, bo_serial_error := error_text, bo_updated_at := now\<rparr>))"

text \<open>The identifiers of the newest lines of a board.\<close>

definition newest_lines :: "string \<Rightarrow> int \<Rightarrow> serial_log_row list \<Rightarrow> serial_log_row list" where
  "newest_lines board_id limit rows = sql_limit limit (sort_desc sl_id (filter (\<lambda>r. sl_board_id r = board_id) rows))"

definition add_serial_log :: "string \<Rightarrow> string \<Rightarrow> string \<Rightarrow> int \<Rightarrow> (store, string \<times> string) prog" where
  "add_serial_log now board_id line limit =
     pthen (transaction (
       pthen (sql_check (board_known board_id)) (
       pthen (pmodify (\<lambda>s. s\<lparr>st_serial_logs := st_serial_logs s @
          [\<lparr>sl_id = seq_serial_logs s + 1, sl_board_id = board_id, sl_line = line, sl_created_at = now\<rparr>],
          seq_serial_logs := seq_serial_logs s + 1\<rparr>)) (
       pmodify (\<lambda>s. s\<lparr>st_serial_logs := filter (\<lambda>r. sl_board_id r \<noteq> board_id \<or>
          sl_id r \<in> sl_id ` set (newest_lines board_id limit (st_serial_logs s))) (st_serial_logs s)\<rparr>))))) (
     pret (line, now))"

definition serial_logs :: "string \<Rightarrow> int \<Rightarrow> (store, (string \<times> string) list) prog" where
  "serial_logs board_id limit =
     transaction (pgets (\<lambda>s. map (\<lambda>r. (sl_line r, sl_created_at r)) (rev (newest_lines board_id limit (st_serial_logs s)))))"

section \<open>Hardware discoveries\<close>

definition detail :: "details \<Rightarrow> string \<Rightarrow> string" where
  "detail d key = (case d key of None \<Rightarrow> [] | Some v \<Rightarrow> v)"

definition detail_path :: "details \<Rightarrow> string" where
  "detail_path d = or_text (detail d ''path'') (detail d ''stable_path'')"

record discovery_resource =
  dr_row :: discovery_row
  dr_board_id :: "string option"

definition write_discovery ::
  "string \<Rightarrow> string \<Rightarrow> string \<Rightarrow> string \<Rightarrow> details \<Rightarrow> discovery_row option \<Rightarrow> (store, unit) prog" where
  "write_discovery now kind fingerprint label details existing =
     (case existing of
        Some e \<Rightarrow> pmodify (\<lambda>s. s\<lparr>st_discoveries := sql_update (\<lambda>r. di_id r = di_id e)
            (\<lambda>r. r\<lparr>di_label := label, di_details := details, di_last_seen_at := now\<rparr>) (st_discoveries s)\<rparr>)
      | None \<Rightarrow>
          pthen (sql_check (\<lambda>s. kind \<in> {''jtag'', ''serial''})) (
          pmodify (\<lambda>s. s\<lparr>st_discoveries := st_discoveries s @
            [\<lparr>di_id = seq_discoveries s + 1, di_kind = kind, di_fingerprint = fingerprint, di_label = label,
              di_details = details, di_first_seen_at = now, di_last_seen_at = now\<rparr>],
            seq_discoveries := seq_discoveries s + 1\<rparr>)))"

definition owning_board :: "details \<Rightarrow> store \<Rightarrow> string option" where
  "owning_board details s =
     (let cable_serial = detail details ''cable_serial''; serial_path = detail_path details in
      map_option bo_id (find (\<lambda>r. (cable_serial \<noteq> [] \<and> bo_jtag_cable_serial r = cable_serial) \<or>
                                 (serial_path \<noteq> [] \<and> bo_serial_path r = serial_path)) (st_boards s)))"

definition upsert_discovery ::
  "string \<Rightarrow> string \<Rightarrow> string \<Rightarrow> string \<Rightarrow> details \<Rightarrow> (store, discovery_resource) prog" where
  "upsert_discovery now kind fingerprint label details =
     transaction (
       pbind (pgets (\<lambda>s. find (\<lambda>r. di_fingerprint r = fingerprint) (st_discoveries s))) (\<lambda>existing.
       pthen (write_discovery now kind fingerprint label details existing) (
       pbind (pgets (\<lambda>s. case existing of None \<Rightarrow> (seq_discoveries s, now) | Some e \<Rightarrow> (di_id e, di_first_seen_at e)))
         (\<lambda>(ident, first_seen).
       pbind (pgets (owning_board details)) (\<lambda>board_id.
       pthen (praise_if (kind \<notin> {''jtag'', ''serial''}) ValidationError) (
       pret \<lparr>dr_row = \<lparr>di_id = ident, di_kind = kind, di_fingerprint = fingerprint, di_label = label,
               di_details = details, di_first_seen_at = first_seen, di_last_seen_at = now\<rparr>,
             dr_board_id = board_id\<rparr>))))))"

definition prune_discoveries :: "string \<Rightarrow> string set \<Rightarrow> (store, unit) prog" where
  "prune_discoveries kind fingerprints =
     transaction (pmodify (\<lambda>s. s\<lparr>st_discoveries :=
       filter (\<lambda>r. di_kind r \<noteq> kind \<or> di_fingerprint r \<in> fingerprints) (st_discoveries s)\<rparr>))"

text \<open>The dictionary of the boards by a text column: a later board replaces an earlier one.\<close>

definition board_by :: "(board_row \<Rightarrow> string) \<Rightarrow> board_profile list \<Rightarrow> string \<Rightarrow> string option" where
  "board_by column boards key =
     map_option (\<lambda>p. bo_id (bp_row p)) (find (\<lambda>p. column (bp_row p) \<noteq> [] \<and> column (bp_row p) = key) (rev boards))"

definition discoveries :: "(store, discovery_resource list) prog" where
  "discoveries =
     pbind list_boards (\<lambda>boards.
     pbind (transaction (pgets (\<lambda>s. sort_desc di_last_seen_at (st_discoveries s)))) (\<lambda>rows.
     pret (map (\<lambda>r.
       let by_jtag = board_by bo_jtag_cable_serial boards (detail (di_details r) ''cable_serial'');
           by_serial = board_by bo_serial_path boards (detail_path (di_details r)) in
       \<lparr>dr_row = r, dr_board_id = (case by_jtag of Some b \<Rightarrow> if b = [] then by_serial else Some b | None \<Rightarrow> by_serial)\<rparr>) rows)))"

section \<open>Artifacts\<close>

definition get_artifact :: "string \<Rightarrow> (store, artifact_row \<times> string) prog" where
  "get_artifact artifact_id =
     pbind (transaction (pgets (\<lambda>s.
       case find (\<lambda>a. ar_id a = artifact_id) (st_artifacts s) of
         None \<Rightarrow> None
       | Some a \<Rightarrow> map_option (\<lambda>name. (a, name)) (username_of s (ar_created_by a))))) (\<lambda>row.
     case row of None \<Rightarrow> praise KeyError | Some a \<Rightarrow> pret a)"

definition add_artifact :: "artifact_row \<Rightarrow> (store, artifact_row \<times> string) prog" where
  "add_artifact row =
     pthen (transaction (
       pthen (sql_check (\<lambda>s. ar_id row \<notin> ar_id ` set (st_artifacts s) \<and> user_known (ar_created_by row) s)) (
       pmodify (\<lambda>s. s\<lparr>st_artifacts := st_artifacts s @ [row]\<rparr>)))) (
     get_artifact (ar_id row))"

definition artifact_paths :: "string \<Rightarrow> (store, string \<times> string) prog" where
  "artifact_paths artifact_id =
     pbind (transaction (pgets (\<lambda>s. find (\<lambda>a. ar_id a = artifact_id) (st_artifacts s)))) (\<lambda>row.
     case row of None \<Rightarrow> praise KeyError | Some a \<Rightarrow> pret (ar_bit_path a, ar_elf_path a))"

definition with_names :: "('r \<Rightarrow> int) \<Rightarrow> store \<Rightarrow> 'r list \<Rightarrow> ('r \<times> string) list" where
  "with_names owner s rows =
     List.map_filter (\<lambda>r. map_option (\<lambda>name. (r, name)) (username_of s (owner r))) rows"

definition list_artifacts :: "(store, (artifact_row \<times> string) list) prog" where
  "list_artifacts = transaction (pgets (\<lambda>s. with_names ar_created_by s (sort_desc ar_created_at (st_artifacts s))))"

definition latest_successful_artifact :: "string \<Rightarrow> (store, (artifact_row \<times> string) option) prog" where
  "latest_successful_artifact board_id =
     pbind (transaction (pgets (\<lambda>s. sort_desc pj_updated_at
       (filter (\<lambda>j. pj_board_id j = board_id \<and> pj_state j = ''SUCCEEDED'') (st_jobs s))))) (\<lambda>rows.
     case rows of [] \<Rightarrow> pret None | j # _ \<Rightarrow> pbind (get_artifact (pj_artifact_id j)) (\<lambda>a. pret (Some a)))"

section \<open>Programming jobs\<close>

definition job_in_flight :: "job_row \<Rightarrow> bool" where
  "job_in_flight j \<longleftrightarrow> pj_state j \<in> {''QUEUED'', ''PREFLIGHT'', ''RUNNING''}"

definition job_valid :: "job_row \<Rightarrow> bool" where
  "job_valid j \<longleftrightarrow>
     pj_state j \<in> {''QUEUED'', ''PREFLIGHT'', ''RUNNING'', ''SUCCEEDED'', ''FAILED''} \<and>
     0 \<le> pj_progress j \<and> pj_progress j \<le> 1"

definition program_job :: "string \<Rightarrow> (store, job_row \<times> string) prog" where
  "program_job job_id =
     pbind (transaction (pgets (\<lambda>s.
       case find (\<lambda>j. pj_id j = job_id) (st_jobs s) of
         None \<Rightarrow> None
       | Some j \<Rightarrow> map_option (\<lambda>name. (j, name)) (username_of s (pj_created_by j))))) (\<lambda>row.
     case row of
       None \<Rightarrow> praise KeyError
     | Some (j, name) \<Rightarrow> pthen (praise_if (\<not> job_valid j) ValidationError) (pret (j, name)))"

definition create_program_job ::
  "string \<Rightarrow> string \<Rightarrow> string \<Rightarrow> string \<Rightarrow> user_record \<Rightarrow> (store, job_row \<times> string) prog" where
  "create_program_job job_id now board_id artifact_id user =
     pthen (transaction (
       pbind (pgets (\<lambda>s. list_ex (\<lambda>j. pj_board_id j = board_id \<and> job_in_flight j) (st_jobs s))) (\<lambda>active.
       pthen (praise_if active ManagementError) (
       pthen (sql_check (\<lambda>s. job_id \<notin> pj_id ` set (st_jobs s) \<and> board_known board_id s \<and>
                artifact_id \<in> ar_id ` set (st_artifacts s) \<and> user_known (ur_id user) s)) (
       pmodify (\<lambda>s. s\<lparr>st_jobs := st_jobs s @
          [\<lparr>pj_id = job_id, pj_board_id = board_id, pj_artifact_id = artifact_id, pj_state = ''QUEUED'',
            pj_progress = 0, pj_error = [], pj_created_by = ur_id user, pj_created_at = now, pj_updated_at = now\<rparr>]\<rparr>)))))) (
     program_job job_id)"

definition update_program_job :: "string \<Rightarrow> string \<Rightarrow> string \<Rightarrow> rat \<Rightarrow> string \<Rightarrow> (store, job_row \<times> string) prog" where
  "update_program_job now job_id state progress error_text =
     pthen (transaction (pmodify (\<lambda>s. s\<lparr>st_jobs := sql_update (\<lambda>j. pj_id j = job_id)
       (\<lambda>j. j\<lparr>pj_state := state, pj_progress := progress, pj_error := error_text, pj_updated_at := now\<rparr>) (st_jobs s)\<rparr>))) (
     program_job job_id)"

definition list_program_jobs :: "int \<Rightarrow> (store, (job_row \<times> string) list) prog" where
  "list_program_jobs limit =
     pbind (transaction (pgets (\<lambda>s. sql_limit limit (with_names pj_created_by s (sort_desc pj_created_at (st_jobs s)))))) (\<lambda>rows.
     pthen (praise_if (list_ex (\<lambda>(j, _). \<not> job_valid j) rows) ValidationError) (pret rows))"

text \<open>\<open>str.rstrip\<close>.\<close>

definition rstrip :: "string \<Rightarrow> string" where
  "rstrip s = rev (dropWhile is_space (rev s))"

definition add_program_log :: "string \<Rightarrow> string \<Rightarrow> string \<Rightarrow> (store, unit) prog" where
  "add_program_log now job_id line =
     transaction (
       pthen (sql_check (\<lambda>s. job_id \<in> pj_id ` set (st_jobs s))) (
       pmodify (\<lambda>s. s\<lparr>st_program_logs := st_program_logs s @
          [\<lparr>pl_id = seq_program_logs s + 1, pl_job_id = job_id, pl_line = rstrip line, pl_created_at = now\<rparr>],
          seq_program_logs := seq_program_logs s + 1\<rparr>)))"

definition program_logs :: "string \<Rightarrow> (store, (string \<times> string) list) prog" where
  "program_logs job_id =
     transaction (pgets (\<lambda>s. map (\<lambda>r. (pl_line r, pl_created_at r))
       (sort_key pl_id (filter (\<lambda>r. pl_job_id r = job_id) (st_program_logs s)))))"

section \<open>Start-up\<close>

text \<open>The repairs of \<open>_initialize\<close>, in their order, on tables that exist already.\<close>

definition fill_network_columns :: "board_row \<Rightarrow> board_row" where
  "fill_network_columns r =
     r\<lparr>bo_desired_ip := or_text (bo_desired_ip r) (bo_ip r), bo_active_ip := or_text (bo_active_ip r) (bo_ip r),
       bo_desired_mac := or_text (bo_desired_mac r) (bo_mac r), bo_active_mac := or_text (bo_active_mac r) (bo_mac r)\<rparr>"

definition cleanup_note :: string where
  "cleanup_note = ''disabled by discovery-only migration; rescan RFCTRL2 to add real inventory''"

definition cleanup_legacy_inventory :: "string \<Rightarrow> (store, unit) prog" where
  "cleanup_legacy_inventory now =
     update_boards (\<lambda>r. bo_enabled r \<and> (bo_device_uid r = [] \<or> bo_last_seen_at r = [] \<or> bo_active_mac r = []))
       (\<lambda>r. r\<lparr>bo_enabled := False,
              bo_notes := append_note ''disabled by discovery-only migration'' cleanup_note (bo_notes r),
              bo_updated_at := now\<rparr>)"

definition repair_auto_profiles :: "host_env \<Rightarrow> (store, unit) prog" where
  "repair_auto_profiles h =
     pfor [''enp225s0f0'', ''enp225s0f1''] (\<lambda>interface.
       case auto_fpga_link_profile h interface of
         None \<Rightarrow> pret ()
       | Some p \<Rightarrow> update_boards (\<lambda>r. bo_udp_interface r = interface)
           (\<lambda>r. r\<lparr>bo_udp_source_ip := or_text (bo_udp_source_ip r) (lp_source_ip p),
                  bo_bootstrap_ip := or_text (bo_bootstrap_ip r) (lp_bootstrap_ip p),
                  bo_target_profile := or_text (bo_target_profile r) (lp_target_profile p)\<rparr>))"

record seed_env =
  sd_admin_username :: string
  sd_admin_password :: string
  sd_simulation_boards :: bool

definition seed_board :: "host_env \<Rightarrow> string \<Rightarrow> string \<times> string \<times> string \<times> string \<Rightarrow> board_row" where
  "seed_board h now row =
     (case row of (board_id, name, udp_interface, target_profile) \<Rightarrow>
        let profile = auto_fpga_link_profile h udp_interface;
            ip = (case profile of None \<Rightarrow> ''192.168.1.128'' | Some p \<Rightarrow> lp_target_ip p) in
        (default_row board_id now)
          \<lparr>bo_name := name, bo_model := ''XCZU47DR RFDC'', bo_ip := ip, bo_port := 1234, bo_desired_ip := ip,
           bo_active_ip := ip, bo_device_uid := ''sim-'' @ board_id, bo_network_revision := 1,
           bo_network_apply_status := ''applied'', bo_udp_interface := udp_interface,
           bo_udp_source_ip := (case profile of None \<Rightarrow> ''192.168.1.10'' | Some p \<Rightarrow> lp_source_ip p),
           bo_clock_source := ''onboard'', bo_target_profile := target_profile, bo_last_seen_at := now\<rparr>)"

definition seed :: "host_env \<Rightarrow> seed_env \<Rightarrow> kdf \<Rightarrow> bytes \<Rightarrow> string \<Rightarrow> (store, unit) prog" where
  "seed h env kdf salt now =
     pbind (pgets (\<lambda>s. st_users s = [])) (\<lambda>no_users.
     pthen (if no_users then
              pbind (plift (hash_password kdf (sd_admin_password env) salt)) (\<lambda>password_hash.
              insert_user (sd_admin_username env) password_hash ADMIN True now)
            else pret ()) (
     pbind (pgets (\<lambda>s. st_boards s = [])) (\<lambda>no_boards.
     if sd_simulation_boards env \<and> no_boards then
       pfor [(''board-a'', ''XCZU47DR A'', ''enp225s0f0'', ''custom_xczu47dr''),
             (''board-b'', ''XCZU47DR B'', ''enp225s0f1'', ''custom_xczu47dr_slave'')]
         (\<lambda>row. insert_board (seed_board h now row))
     else pret ())))"

definition initialize :: "host_env \<Rightarrow> seed_env \<Rightarrow> kdf \<Rightarrow> bytes \<Rightarrow> string \<Rightarrow> (store, unit) prog" where
  "initialize h env kdf salt now =
     transaction (
       pthen (update_boards (\<lambda>r. bo_clock_source r \<noteq> ''onboard'') (\<lambda>r. r\<lparr>bo_clock_source := ''onboard''\<rparr>)) (
       pthen (update_boards (\<lambda>r. bo_desired_ip r = [] \<or> bo_active_ip r = [] \<or> bo_desired_mac r = [] \<or> bo_active_mac r = [])
                fill_network_columns) (
       pthen (cleanup_legacy_inventory now) (
       pthen (repair_auto_profiles h) (
       seed h env kdf salt now)))))"


end
