(* ===== verification/Mgmt_Invariant.thy ===== *)
theory Mgmt_Invariant
  imports Mgmt_Jobs
begin

text \<open>
  What every state of the database satisfies: the keys are unique, every reference has its row, every
  CHECK holds and a board has at most one active lease. The states are those reached from the empty
  tables by any sequence of the methods, with any arguments.
\<close>

section \<open>Well-formed tables\<close>

definition users_ok :: "user_row list \<Rightarrow> int \<Rightarrow> bool" where
  "users_ok us n \<longleftrightarrow> distinct (map us_id us) \<and> distinct (map us_username us) \<and> (\<forall>u \<in> set us. us_id u \<le> n)"

definition sessions_ok :: "int set \<Rightarrow> session_row list \<Rightarrow> bool" where
  "sessions_ok U ss \<longleftrightarrow> distinct (map se_token ss) \<and> se_user_id ` set ss \<subseteq> U"

definition boards_ok :: "board_row list \<Rightarrow> bool" where
  "boards_ok bs \<longleftrightarrow> distinct (map bo_id bs) \<and> (\<forall>b \<in> set bs. bo_clock_source b = ''onboard'')"

definition active_leases :: "lease_row list \<Rightarrow> lease_row list" where
  "active_leases ls = filter (\<lambda>l. le_status l = LeaseActive) ls"

definition leases_ok :: "string set \<Rightarrow> int set \<Rightarrow> lease_row list \<Rightarrow> int \<Rightarrow> bool" where
  "leases_ok B U ls n \<longleftrightarrow>
     distinct (map le_id ls) \<and> distinct (map le_board_id (active_leases ls)) \<and>
     (\<forall>l \<in> set ls. le_id l \<le> n \<and> le_board_id l \<in> B \<and> le_user_id l \<in> U \<and> set_option (le_released_by l) \<subseteq> U)"

definition discoveries_ok :: "discovery_row list \<Rightarrow> int \<Rightarrow> bool" where
  "discoveries_ok ds n \<longleftrightarrow> distinct (map di_id ds) \<and> distinct (map di_fingerprint ds) \<and>
     (\<forall>d \<in> set ds. di_id d \<le> n \<and> di_kind d \<in> {''jtag'', ''serial''})"

definition serial_logs_ok :: "string set \<Rightarrow> serial_log_row list \<Rightarrow> int \<Rightarrow> bool" where
  "serial_logs_ok B ls n \<longleftrightarrow> distinct (map sl_id ls) \<and> (\<forall>l \<in> set ls. sl_id l \<le> n \<and> sl_board_id l \<in> B)"

definition artifacts_ok :: "int set \<Rightarrow> artifact_row list \<Rightarrow> bool" where
  "artifacts_ok U as \<longleftrightarrow> distinct (map ar_id as) \<and> ar_created_by ` set as \<subseteq> U"

definition jobs_ok :: "string set \<Rightarrow> string set \<Rightarrow> int set \<Rightarrow> job_row list \<Rightarrow> bool" where
  "jobs_ok B A U js \<longleftrightarrow> distinct (map pj_id js) \<and>
     (\<forall>j \<in> set js. pj_board_id j \<in> B \<and> pj_artifact_id j \<in> A \<and> pj_created_by j \<in> U)"

definition program_logs_ok :: "string set \<Rightarrow> program_log_row list \<Rightarrow> int \<Rightarrow> bool" where
  "program_logs_ok J ls n \<longleftrightarrow> distinct (map pl_id ls) \<and> (\<forall>l \<in> set ls. pl_id l \<le> n \<and> pl_job_id l \<in> J)"

definition audits_ok :: "string set \<Rightarrow> int set \<Rightarrow> audit_row list \<Rightarrow> int \<Rightarrow> bool" where
  "audits_ok B U as n \<longleftrightarrow> distinct (map au_id as) \<and>
     (\<forall>a \<in> set as. au_id a \<le> n \<and> set_option (au_user_id a) \<subseteq> U \<and> set_option (au_board_id a) \<subseteq> B)"

definition run_owners_ok :: "int set \<Rightarrow> run_owner_row list \<Rightarrow> bool" where
  "run_owners_ok U rs \<longleftrightarrow> distinct (map ro_run_id rs) \<and> ro_user_id ` set rs \<subseteq> U"

definition rfdc_configs_ok :: "string set \<Rightarrow> rfdc_config_row list \<Rightarrow> bool" where
  "rfdc_configs_ok B rs \<longleftrightarrow> distinct (map rc_board_id rs) \<and> rc_board_id ` set rs \<subseteq> B"

definition phases_ok :: "int set \<Rightarrow> phase_row list \<Rightarrow> bool" where
  "phases_ok U ps \<longleftrightarrow> distinct (map phase_key ps) \<and>
     (\<forall>p \<in> set ps. 0 \<le> ph_frequency_hz p \<and> ph_frequency_hz p \<le> 6400000000 \<and> 1 \<le> ph_channel p \<and>
        ph_channel p \<le> 8 \<and> -3600 \<le> ph_phase_deg p \<and> ph_phase_deg p \<le> 3600 \<and>
        set_option (ph_updated_by p) \<subseteq> U)"

definition user_ids :: "store \<Rightarrow> int set" where "user_ids s = us_id ` set (st_users s)"
definition board_ids :: "store \<Rightarrow> string set" where "board_ids s = bo_id ` set (st_boards s)"

definition store_wf :: "store \<Rightarrow> bool" where
  "store_wf s \<longleftrightarrow>
     users_ok (st_users s) (seq_users s) \<and> sessions_ok (user_ids s) (st_sessions s) \<and> boards_ok (st_boards s) \<and>
     leases_ok (board_ids s) (user_ids s) (st_leases s) (seq_leases s) \<and>
     discoveries_ok (st_discoveries s) (seq_discoveries s) \<and>
     serial_logs_ok (board_ids s) (st_serial_logs s) (seq_serial_logs s) \<and>
     artifacts_ok (user_ids s) (st_artifacts s) \<and>
     jobs_ok (board_ids s) (ar_id ` set (st_artifacts s)) (user_ids s) (st_jobs s) \<and>
     program_logs_ok (pj_id ` set (st_jobs s)) (st_program_logs s) (seq_program_logs s) \<and>
     audits_ok (board_ids s) (user_ids s) (st_audits s) (seq_audits s) \<and>
     run_owners_ok (user_ids s) (st_run_owners s) \<and> rfdc_configs_ok (board_ids s) (st_rfdc_configs s) \<and>
     phases_ok (user_ids s) (st_phases s)"

lemmas table_defs = users_ok_def sessions_ok_def boards_ok_def leases_ok_def discoveries_ok_def
  serial_logs_ok_def artifacts_ok_def jobs_ok_def program_logs_ok_def audits_ok_def run_owners_ok_def
  rfdc_configs_ok_def phases_ok_def

lemma store_wf_empty: "store_wf empty_store"
  by (simp add: store_wf_def empty_store_def table_defs active_leases_def)

section \<open>References survive\<close>

text \<open>More users and more boards break no table that refers to them.\<close>

lemma tables_mono:
  assumes "B \<subseteq> B'" "U \<subseteq> U'"
  shows "sessions_ok U ss \<Longrightarrow> sessions_ok U' ss" "leases_ok B U ls n \<Longrightarrow> leases_ok B' U' ls n"
    "serial_logs_ok B sl n \<Longrightarrow> serial_logs_ok B' sl n" "artifacts_ok U as \<Longrightarrow> artifacts_ok U' as"
    "jobs_ok B A U js \<Longrightarrow> jobs_ok B' A U' js" "audits_ok B U au n \<Longrightarrow> audits_ok B' U' au n"
    "run_owners_ok U ro \<Longrightarrow> run_owners_ok U' ro" "rfdc_configs_ok B rc \<Longrightarrow> rfdc_configs_ok B' rc"
    "phases_ok U ps \<Longrightarrow> phases_ok U' ps"
  using assms by (auto simp: table_defs subset_eq)

lemma store_wf_boards:
  assumes "store_wf s" "boards_ok bs" "board_ids s \<subseteq> bo_id ` set bs"
  shows "store_wf (s\<lparr>st_boards := bs\<rparr>)"
  using assms tables_mono [of "board_ids s" "bo_id ` set bs" "user_ids s" "user_ids s", OF assms(3) order_refl]
  by (simp add: store_wf_def board_ids_def user_ids_def)

lemma store_wf_users:
  assumes "store_wf s" "users_ok us n" "user_ids s \<subseteq> us_id ` set us"
  shows "store_wf (s\<lparr>st_users := us, seq_users := n\<rparr>)"
  using assms tables_mono [of "board_ids s" "board_ids s" "user_ids s" "us_id ` set us", OF order_refl assms(3)]
  by (simp add: store_wf_def board_ids_def user_ids_def)

section \<open>The statements\<close>

lemma ball_sql_update: "(\<And>q. q \<in> set rows \<Longrightarrow> Q q \<and> Q (f q)) \<Longrightarrow> \<forall>r \<in> set (sql_update P f rows). Q r"
  by (auto simp: sql_update_def)

named_theorems wf_rules "statements that keep the tables well-formed"

lemma image_sql_update: "(\<And>r. key (f r) = key r) \<Longrightarrow> key ` set (sql_update P f rows) = key ` set rows"
  by (metis sql_update_key list.set_map)

lemma wf_update_boards [wf_rules]:
  assumes "\<And>r. bo_id (f r) = bo_id r"
  shows "keeps store_wf (update_boards P f)"
proof (rule keepsI)
  fix s assume wf: "store_wf s"
  have "boards_ok (sql_update P f (st_boards s))" if "list_all (\<lambda>r. P r \<longrightarrow> bo_clock_source (f r) = ''onboard'') (st_boards s)"
    using wf that sql_update_key [of bo_id f P "st_boards s", OF assms]
    by (auto simp: store_wf_def boards_ok_def set_sql_update list_all_iff)
  moreover have "board_ids s \<subseteq> bo_id ` set (sql_update P f (st_boards s))"
    by (simp add: board_ids_def image_sql_update assms)
  ultimately show "store_wf (snd (update_boards P f s))"
    using wf by (auto simp: update_boards_def prog_defs intro!: store_wf_boards)
qed

lemma wf_insert_board [wf_rules]: "keeps store_wf (insert_board r)"
proof (rule keepsI)
  fix s assume wf: "store_wf s"
  have "boards_ok (st_boards s @ [r])" if "\<not> board_known (bo_id r) s" "bo_clock_source r = ''onboard''"
    using wf that by (auto simp: store_wf_def boards_ok_def board_known_def)
  then show "store_wf (snd (insert_board r s))"
    using wf by (auto simp: insert_board_def prog_defs board_ids_def intro!: store_wf_boards)
qed

lemma wf_insert_user [wf_rules]: "keeps store_wf (insert_user username h role enabled now)"
proof (rule keepsI)
  fix s assume wf: "store_wf s"
  let ?us = "st_users s @ [\<lparr>us_id = seq_users s + 1, us_username = username, us_password_hash = h,
      us_role = role, us_enabled = enabled, us_created_at = now\<rparr>]"
  have "users_ok ?us (seq_users s + 1)" if "username \<notin> us_username ` set (st_users s)"
    using wf that by (fastforce simp: store_wf_def users_ok_def)
  then show "store_wf (snd (insert_user username h role enabled now s))"
    using wf by (auto simp: insert_user_def prog_defs user_ids_def intro!: store_wf_users)
qed

lemma active_leases_snoc: "active_leases (ls @ [l]) = active_leases ls @ (if le_status l = LeaseActive then [l] else [])"
  by (simp add: active_leases_def)

lemma no_active_lease: "find (is_active_lease b) ls = None \<longleftrightarrow> b \<notin> le_board_id ` set (active_leases ls)"
  by (auto simp: find_None_iff is_active_lease_def active_leases_def)

lemma wf_insert_lease [wf_rules]: "keeps store_wf (insert_lease now board_id user_id)"
  by (rule keepsI)
    (fastforce simp: insert_lease_def prog_defs store_wf_def leases_ok_def active_leases_snoc no_active_lease
      board_known_def user_known_def board_ids_def user_ids_def)

text \<open>A lease that ends leaves the active leases of the other boards.\<close>

lemma distinct_active_update:
  assumes "distinct (map le_board_id (active_leases ls))" "\<And>l. le_board_id (f l) = le_board_id l"
    "\<And>l. le_status (f l) \<noteq> LeaseActive"
  shows "distinct (map le_board_id (active_leases (sql_update P f ls)))"
proof -
  have "active_leases (sql_update P f ls) = filter (\<lambda>l. \<not> P l) (active_leases ls)"
    using assms(3) by (induction ls) (auto simp: active_leases_def sql_update_def)
  then show ?thesis using assms(1) by (simp add: distinct_map_filter)
qed

lemma wf_end_lease [wf_rules]:
  assumes "status \<noteq> LeaseActive"
  shows "keeps store_wf (end_lease now lease_id status actor)"
proof (rule keepsI)
  fix s assume wf: "store_wf s"
  let ?f = "\<lambda>l. l\<lparr>le_status := status, le_released_at := Some now, le_released_by := Some actor\<rparr>"
  let ?ls = "sql_update (\<lambda>l. le_id l = lease_id) ?f (st_leases s)"
  have "leases_ok (board_ids s) (user_ids s) ?ls (seq_leases s)" if "user_known actor s"
  proof -
    have "distinct (map le_board_id (active_leases ?ls))"
      by (rule distinct_active_update) (use wf assms in \<open>auto simp: store_wf_def leases_ok_def\<close>)
    moreover have "distinct (map le_id ?ls)"
      using wf by (subst sql_update_key) (auto simp: store_wf_def leases_ok_def)
    moreover have "\<forall>l \<in> set ?ls. le_id l \<le> seq_leases s \<and> le_board_id l \<in> board_ids s \<and> le_user_id l \<in> user_ids s \<and>
        set_option (le_released_by l) \<subseteq> user_ids s"
      by (rule ball_sql_update) (use wf that in \<open>auto simp: store_wf_def leases_ok_def user_known_def user_ids_def\<close>)
    ultimately show ?thesis by (simp add: leases_ok_def)
  qed
  then show "store_wf (snd (end_lease now lease_id status actor s))"
    using wf by (auto simp: end_lease_def prog_defs store_wf_def user_ids_def board_ids_def)
qed


lemma wf_add_audit [wf_rules]: "keeps store_wf (add_audit now event message user_id board_id metadata)"
  by (rule keepsI)
    (fastforce simp: add_audit_def transaction_def prog_defs store_wf_def audits_ok_def board_known_def user_known_def
      board_ids_def user_ids_def split: option.splits)

section \<open>The methods\<close>

text \<open>A modification of one table.\<close>

lemma wf_modify:
  "(\<And>s. store_wf s \<Longrightarrow> sessions_ok (user_ids s) (f s)) \<Longrightarrow> keeps store_wf (pmodify (\<lambda>s. s\<lparr>st_sessions := f s\<rparr>))"
  "(\<And>s. store_wf s \<Longrightarrow> discoveries_ok (g s) (seq_discoveries s)) \<Longrightarrow>
    keeps store_wf (pmodify (\<lambda>s. s\<lparr>st_discoveries := g s\<rparr>))"
  "(\<And>s. store_wf s \<Longrightarrow> serial_logs_ok (board_ids s) (k s) (seq_serial_logs s)) \<Longrightarrow>
    keeps store_wf (pmodify (\<lambda>s. s\<lparr>st_serial_logs := k s\<rparr>))"
  by (auto simp: keeps_def store_wf_def user_ids_def board_ids_def)

lemma wf_user_update:
  assumes "\<And>u. us_id (f u) = us_id u \<and> us_username (f u) = us_username u"
  shows "keeps store_wf (pmodify (\<lambda>s. s\<lparr>st_users := sql_update P f (st_users s)\<rparr>))"
proof (rule keeps_pmodify)
  fix s assume wf: "store_wf s"
  have k: "\<And>u. us_id (f u) = us_id u" "\<And>u. us_username (f u) = us_username u" using assms by simp_all
  have "users_ok (sql_update P f (st_users s)) (seq_users s)"
    using wf sql_update_key [of us_id f P "st_users s", OF k(1)] sql_update_key [of us_username f P "st_users s", OF k(2)]
    by (auto simp: store_wf_def users_ok_def set_sql_update k)
  then have "store_wf (s\<lparr>st_users := sql_update P f (st_users s), seq_users := seq_users s\<rparr>)"
    by (rule store_wf_users [OF wf]) (simp add: user_ids_def image_sql_update [of us_id f, OF k(1)])
  then show "store_wf (s\<lparr>st_users := sql_update P f (st_users s)\<rparr>)" by simp
qed

lemma wf_user_methods [wf_rules]:
  "keeps store_wf (authenticate kdf username password)" "keeps store_wf list_users"
  "keeps store_wf (create_user kdf salt now username password role enabled)"
  "keeps store_wf (update_user kdf salt user_id new_password role enabled)"
  "keeps store_wf (session_user now token)" "keeps store_wf (delete_session token)"
proof -
  show "keeps store_wf (authenticate kdf username password)" "keeps store_wf list_users"
    "keeps store_wf (create_user kdf salt now username password role enabled)" "keeps store_wf (session_user now token)"
    unfolding authenticate_def list_users_def create_user_def session_user_def by (intro keeps_rules wf_rules)+
  have d: "sessions_ok (user_ids s) (filter P (st_sessions s))" if "store_wf s" for P s
    using that by (auto simp: store_wf_def sessions_ok_def distinct_map_filter)
  show "keeps store_wf (delete_session token)"
    unfolding delete_session_def by (intro keeps_case keeps_if keeps_basic keeps_transaction wf_modify d)
  show "keeps store_wf (update_user kdf salt user_id new_password role enabled)"
    unfolding update_user_def
    by (intro keeps_case keeps_if keeps_basic keeps_transaction keeps_pbind keeps_pthen wf_modify d wf_user_update) simp_all
qed

lemma wf_create_session [wf_rules]: "keeps store_wf (create_session token csrf expires now user)"
  by (rule keepsI)
    (fastforce simp: create_session_def transaction_def prog_defs store_wf_def sessions_ok_def user_known_def user_ids_def
      board_ids_def)

lemma wf_board_methods [wf_rules]:
  "keeps store_wf list_boards" "keeps store_wf list_inventory_records" "keeps store_wf (get_board board_id)"
  "keeps store_wf store_add_board" "keeps store_wf (update_board h now board_id request)"
  "keeps store_wf (update_network_state now board_id u)"
  "keeps store_wf (allocated_ip_for_discovery h interface uid mac)"
  "keeps store_wf (upsert_discovered_board h now hexes d)"
proof -
  show a: "keeps store_wf list_boards" "keeps store_wf list_inventory_records" "keeps store_wf (get_board board_id)"
    "keeps store_wf store_add_board" "keeps store_wf (allocated_ip_for_discovery h interface uid mac)" for board_id
    unfolding list_boards_def list_inventory_records_def get_board_def store_add_board_def allocated_ip_for_discovery_def Let_def
    by (intro keeps_rules wf_rules)+
  show "keeps store_wf (update_board h now board_id request)"
    unfolding update_board_def write_board_def Let_def
    by (intro keeps_rules wf_rules a) (simp_all add: request_row_def)
  show "keeps store_wf (update_network_state now board_id u)"
    unfolding update_network_state_def by (intro keeps_rules wf_rules a) (simp_all add: network_row_def)
  show "keeps store_wf (upsert_discovered_board h now hexes d)"
    unfolding upsert_discovered_board_def Let_def
    by (intro keeps_rules wf_rules a) (simp_all add: disable_duplicate_def discovered_row_def)
qed

lemma wf_lease_methods [wf_rules]:
  "keeps store_wf (active_lease board_id)" "keeps store_wf (lease_board now board_id user)"
  "keeps store_wf (release_board now board_id user force)" "keeps store_wf (require_lease user board_id)"
  unfolding active_lease_def lease_board_def release_board_def require_lease_def
  by (intro keeps_rules wf_rules; simp)+
lemma keeps_list_case:
  "keeps I n \<Longrightarrow> (\<And>x xs. keeps I (f x xs)) \<Longrightarrow> keeps I (case l of [] \<Rightarrow> n | x # xs \<Rightarrow> f x xs)"
  by (simp split: list.split)

lemma wf_set_run_owner [wf_rules]: "keeps store_wf (set_run_owner run_id user)"
  by (rule keepsI)
    (fastforce simp: set_run_owner_def transaction_def prog_defs store_wf_def run_owners_ok_def user_known_def
      user_ids_def board_ids_def distinct_map_filter)

lemma upsert_rows_distinct:
  assumes "distinct (map key rows)" "key row = k"
  shows "k \<notin> key ` set rows \<Longrightarrow> distinct (map key (rows @ [row]))"
    "distinct (map key (sql_update (\<lambda>r. key r = k) (\<lambda>_. row) rows))"
proof -
  show "distinct (map key (rows @ [row]))" if "k \<notin> key ` set rows" using assms that by auto
  have "map key (sql_update (\<lambda>r. key r = k) (\<lambda>_. row) rows) = map key rows"
    using assms(2) by (auto simp: sql_update_def)
  then show "distinct (map key (sql_update (\<lambda>r. key r = k) (\<lambda>_. row) rows))" using assms(1) by simp
qed

lemma wf_save_rfdc_config [wf_rules]: "keeps store_wf (save_rfdc_config dump_json now config)"
proof (rule keepsI)
  fix s assume wf: "store_wf s"
  let ?row = "\<lparr>rc_board_id = rf_board_id config, rc_config_json = dump_json config, rc_revision = rf_revision config,
      rc_applied_at = rf_applied_at config, rc_apply_status = rf_apply_status config,
      rc_apply_error = rf_apply_error config, rc_updated_at = now\<rparr>"
  have "rfdc_configs_ok (board_ids s) (sql_update (\<lambda>r. rc_board_id r = rf_board_id config) (\<lambda>_. ?row) (st_rfdc_configs s))"
    "rf_board_id config \<notin> rc_board_id ` set (st_rfdc_configs s) \<Longrightarrow> rfdc_configs_ok (board_ids s) (st_rfdc_configs s @ [?row])"
    if "board_known (rf_board_id config) s"
    using wf that upsert_rows_distinct [of rc_board_id "st_rfdc_configs s" ?row "rf_board_id config"]
    by (auto simp: store_wf_def rfdc_configs_ok_def board_known_def board_ids_def set_sql_update subset_eq)
  then show "store_wf (snd (save_rfdc_config dump_json now config s))"
    using wf by (auto simp: save_rfdc_config_def transaction_def prog_defs store_wf_def user_ids_def board_ids_def Let_def)
qed

lemma wf_load_rfdc_config [wf_rules]: "keeps store_wf (load_rfdc_config validate_json board_id)"
  unfolding load_rfdc_config_def by (intro keeps_rules)

definition phase_ok :: "int set \<Rightarrow> phase_row \<Rightarrow> bool" where
  "phase_ok U p \<longleftrightarrow> 0 \<le> ph_frequency_hz p \<and> ph_frequency_hz p \<le> 6400000000 \<and> 1 \<le> ph_channel p \<and>
     ph_channel p \<le> 8 \<and> -3600 \<le> ph_phase_deg p \<and> ph_phase_deg p \<le> 3600 \<and> set_option (ph_updated_by p) \<subseteq> U"

lemma phases_ok_alt: "phases_ok U ps \<longleftrightarrow> distinct (map phase_key ps) \<and> (\<forall>p \<in> set ps. phase_ok U p)"
  by (simp add: phases_ok_def phase_ok_def)

lemma wf_upsert_phase [wf_rules]: "keeps store_wf (upsert_phase row)"
proof (rule keepsI)
  fix s assume wf: "store_wf s"
  then have ps: "phases_ok (user_ids s) (st_phases s)" by (simp add: store_wf_def)
  let ?up = "sql_update (\<lambda>c. phase_key c = phase_key row) (\<lambda>_. row) (st_phases s)"
  have "phases_ok (user_ids s) ?up"
    "phase_key row \<notin> phase_key ` set (st_phases s) \<Longrightarrow> phases_ok (user_ids s) (st_phases s @ [row])"
    if row: "phase_ok (user_ids s) row"
  proof -
    have "\<forall>p \<in> set ?up. phase_ok (user_ids s) p"
      by (rule ball_sql_update) (use ps row in \<open>simp add: phases_ok_alt\<close>)
    then show "phases_ok (user_ids s) ?up"
      using ps upsert_rows_distinct(2) [of phase_key "st_phases s" row "phase_key row"] by (simp add: phases_ok_alt)
    show "phases_ok (user_ids s) (st_phases s @ [row])" if "phase_key row \<notin> phase_key ` set (st_phases s)"
      using ps row that by (auto simp: phases_ok_alt)
  qed
  moreover have "store_wf (s\<lparr>st_phases := x\<rparr>)" if "phases_ok (user_ids s) x" for x
    using wf that by (simp add: store_wf_def user_ids_def board_ids_def)
  moreover have "snd (upsert_phase row s) =
      (if phase_ok (user_ids s) row
       then if phase_key row \<in> phase_key ` set (st_phases s) then s\<lparr>st_phases := ?up\<rparr> else s\<lparr>st_phases := st_phases s @ [row]\<rparr>
       else s)"
    by (cases "ph_updated_by row") (simp_all add: upsert_phase_def prog_defs sql_check_def phase_ok_def user_known_def user_ids_def)
  ultimately show "store_wf (snd (upsert_phase row s))" using wf by simp
qed

lemma wf_phase_methods [wf_rules]:
  "keeps store_wf (list_phase_calibrations board_id)"
  "keeps store_wf (save_phase_calibration now board_id frequency_hz channel phase_deg user)"
  unfolding list_phase_calibrations_def save_phase_calibration_def by (intro keeps_rules wf_rules)+

lemma wf_serial_methods [wf_rules]:
  "keeps store_wf (set_serial_binding now board_id path baud_rate)"
  "keeps store_wf (update_serial_state now board_id state error_text)"
  "keeps store_wf (serial_logs board_id limit)"
  unfolding set_serial_binding_def update_serial_state_def serial_logs_def by (intro keeps_rules wf_rules; simp)+

lemma serial_logs_filter: "serial_logs_ok B ls n \<Longrightarrow> serial_logs_ok B (filter P ls) n"
  by (auto simp: serial_logs_ok_def distinct_map_filter)

lemma serial_logs_snoc:
  "serial_logs_ok B ls n \<Longrightarrow> b \<in> B \<Longrightarrow>
   serial_logs_ok B (ls @ [\<lparr>sl_id = n + 1, sl_board_id = b, sl_line = t, sl_created_at = now\<rparr>]) (n + 1)"
  by (fastforce simp: serial_logs_ok_def)

lemma wf_add_serial_log [wf_rules]: "keeps store_wf (add_serial_log now board_id line limit)"
proof (rule keepsI)
  fix s assume wf: "store_wf s"
  let ?ls = "st_serial_logs s @ [\<lparr>sl_id = seq_serial_logs s + 1, sl_board_id = board_id, sl_line = line, sl_created_at = now\<rparr>]"
  have "serial_logs_ok (board_ids s) (filter P ?ls) (seq_serial_logs s + 1)" if "board_known board_id s" for P
    using wf that by (intro serial_logs_filter serial_logs_snoc) (auto simp: store_wf_def board_known_def board_ids_def)
  then show "store_wf (snd (add_serial_log now board_id line limit s))"
    using wf by (auto simp: add_serial_log_def transaction_def prog_defs store_wf_def user_ids_def board_ids_def
      simp del: filter_append)
qed

lemma keeps_pgets_then:
  assumes "\<And>s. I s \<Longrightarrow> I (snd (m (k s) s))" "\<And>x. keeps I (n x)"
  shows "keeps I (pbind (pgets k) (\<lambda>x. pthen (m x) (n x)))"
proof (rule keepsI)
  fix s assume "I s"
  then have "I (snd (m (k s) s))" by (rule assms(1))
  then show "I (snd (pbind (pgets k) (\<lambda>x. pthen (m x) (n x)) s))"
    using keepsD [OF assms(2)] by (cases "m (k s) s") (auto simp: prog_defs split: sum.split)
qed

lemma wf_write_discovery:
  assumes wf: "store_wf s"
  shows "store_wf (snd (write_discovery now kind fingerprint label details
    (find (\<lambda>r. di_fingerprint r = fingerprint) (st_discoveries s)) s))"
proof -
  let ?f = "\<lambda>r. r\<lparr>di_label := label, di_details := details, di_last_seen_at := now\<rparr>"
  let ?e = "find (\<lambda>r. di_fingerprint r = fingerprint) (st_discoveries s)"
  have up: "discoveries_ok (sql_update P ?f (st_discoveries s)) (seq_discoveries s)" for P
  proof -
    have "map di_id (sql_update P ?f (st_discoveries s)) = map di_id (st_discoveries s)"
      "map di_fingerprint (sql_update P ?f (st_discoveries s)) = map di_fingerprint (st_discoveries s)"
      by (rule sql_update_key; simp)+
    moreover have "\<forall>d \<in> set (sql_update P ?f (st_discoveries s)). di_id d \<le> seq_discoveries s \<and> di_kind d \<in> {''jtag'', ''serial''}"
      by (rule ball_sql_update) (use wf in \<open>simp add: store_wf_def discoveries_ok_def\<close>)
    ultimately show ?thesis using wf by (simp add: store_wf_def discoveries_ok_def)
  qed
  have "discoveries_ok (st_discoveries s @ [\<lparr>di_id = seq_discoveries s + 1, di_kind = kind, di_fingerprint = fingerprint,
      di_label = label, di_details = details, di_first_seen_at = now, di_last_seen_at = now\<rparr>]) (seq_discoveries s + 1)"
    if "?e = None" "kind \<in> {''jtag'', ''serial''}"
    using wf that by (fastforce simp: store_wf_def discoveries_ok_def find_None_iff)
  then show ?thesis
    using wf up by (cases ?e) (auto simp: write_discovery_def prog_defs sql_check_def store_wf_def user_ids_def board_ids_def)
qed

lemma wf_upsert_discovery [wf_rules]: "keeps store_wf (upsert_discovery now kind fingerprint label details)"
  unfolding upsert_discovery_def
  by (rule keeps_transaction, rule keeps_pgets_then, erule wf_write_discovery) (intro keeps_rules)

lemma wf_discovery_methods [wf_rules]:
  "keeps store_wf (prune_discoveries kind fingerprints)" "keeps store_wf discoveries"
proof -
  have "discoveries_ok (filter P (st_discoveries s)) (seq_discoveries s)" if "store_wf s" for P s
    using that by (auto simp: store_wf_def discoveries_ok_def distinct_map_filter)
  then show "keeps store_wf (prune_discoveries kind fingerprints)"
    unfolding prune_discoveries_def by (intro keeps_transaction wf_modify)
  show "keeps store_wf discoveries" unfolding discoveries_def Let_def by (intro keeps_rules wf_rules)
qed

lemma wf_artifact_methods [wf_rules]:
  "keeps store_wf (get_artifact artifact_id)" "keeps store_wf (add_artifact row)"
  "keeps store_wf (artifact_paths artifact_id)" "keeps store_wf list_artifacts"
  "keeps store_wf (latest_successful_artifact board_id)"
proof -
  show a: "keeps store_wf (get_artifact i)" for i unfolding get_artifact_def by (intro keeps_rules)
  show "keeps store_wf (artifact_paths artifact_id)" "keeps store_wf list_artifacts"
    "keeps store_wf (latest_successful_artifact board_id)"
    unfolding artifact_paths_def list_artifacts_def latest_successful_artifact_def
    by (intro keeps_rules keeps_list_case a)+
  show "keeps store_wf (add_artifact row)"
  proof (rule keepsI)
    fix s assume wf: "store_wf s"
    then have "store_wf (s\<lparr>st_artifacts := st_artifacts s @ [row]\<rparr>)"
      if "ar_id row \<notin> ar_id ` set (st_artifacts s)" "user_known (ar_created_by row) s"
      using that by (auto simp: store_wf_def artifacts_ok_def jobs_ok_def user_known_def user_ids_def board_ids_def)
    then show "store_wf (snd (add_artifact row s))"
      using wf keepsD [OF a] by (auto simp: add_artifact_def transaction_def prog_defs sql_check_def)
  qed
qed

lemma wf_job_methods [wf_rules]:
  "keeps store_wf (program_job job_id)"
  "keeps store_wf (create_program_job job_id now board_id artifact_id user)"
  "keeps store_wf (update_program_job now job_id state progress error_text)"
  "keeps store_wf (list_program_jobs limit)" "keeps store_wf (add_program_log now job_id line)"
  "keeps store_wf (program_logs job_id)"
proof -
  show a: "keeps store_wf (program_job i)" for i unfolding program_job_def by (intro keeps_rules)
  show "keeps store_wf (list_program_jobs limit)" "keeps store_wf (program_logs job_id)"
    unfolding list_program_jobs_def program_logs_def by (intro keeps_rules)+
  show "keeps store_wf (create_program_job job_id now board_id artifact_id user)"
  proof (rule keepsI)
    fix s assume wf: "store_wf s"
    let ?s = "s\<lparr>st_jobs := st_jobs s @ [\<lparr>pj_id = job_id, pj_board_id = board_id, pj_artifact_id = artifact_id,
        pj_state = ''QUEUED'', pj_progress = 0, pj_error = [], pj_created_by = ur_id user, pj_created_at = now, pj_updated_at = now\<rparr>]\<rparr>"
    have "store_wf ?s" if "job_id \<notin> pj_id ` set (st_jobs s)" "board_known board_id s"
      "artifact_id \<in> ar_id ` set (st_artifacts s)" "user_known (ur_id user) s"
      using wf that by (auto simp: store_wf_def jobs_ok_def program_logs_ok_def board_known_def user_known_def user_ids_def board_ids_def)
    then show "store_wf (snd (create_program_job job_id now board_id artifact_id user s))"
      using wf keepsD [OF a] by (auto simp: create_program_job_def transaction_def prog_defs sql_check_def)
  qed
  show "keeps store_wf (update_program_job now job_id state progress error_text)"
  proof (rule keepsI)
    fix s assume wf: "store_wf s"
    let ?f = "\<lambda>j. j\<lparr>pj_state := state, pj_progress := progress, pj_error := error_text, pj_updated_at := now\<rparr>"
    let ?js = "sql_update (\<lambda>j. pj_id j = job_id) ?f (st_jobs s)"
    have k: "map pj_id ?js = map pj_id (st_jobs s)" by (rule sql_update_key) simp
    have "\<forall>j \<in> set ?js. pj_board_id j \<in> board_ids s \<and> pj_artifact_id j \<in> ar_id ` set (st_artifacts s) \<and> pj_created_by j \<in> user_ids s"
      by (rule ball_sql_update) (use wf in \<open>simp add: store_wf_def jobs_ok_def\<close>)
    then have "jobs_ok (board_ids s) (ar_id ` set (st_artifacts s)) (user_ids s) ?js"
      using wf k by (simp add: jobs_ok_def store_wf_def)
    moreover have "pj_id ` set ?js = pj_id ` set (st_jobs s)" by (rule image_sql_update) simp
    ultimately have "store_wf (s\<lparr>st_jobs := ?js\<rparr>)"
      using wf by (simp add: store_wf_def board_ids_def user_ids_def)
    then show "store_wf (snd (update_program_job now job_id state progress error_text s))"
      using keepsD [OF a] by (simp add: update_program_job_def transaction_def prog_defs)
  qed
  show "keeps store_wf (add_program_log now job_id line)"
    by (rule keepsI)
      (fastforce simp: add_program_log_def transaction_def prog_defs store_wf_def program_logs_ok_def user_ids_def board_ids_def)
qed

lemma wf_reads [wf_rules]:
  "keeps store_wf (audit_events limit)" "keeps store_wf (can_manage_run run_id user)"
  unfolding audit_events_def can_manage_run_def by (intro keeps_rules)+

lemma wf_initialize [wf_rules]: "keeps store_wf (initialize h env kdf salt now)"
proof -
  have f: "bo_id (fill_network_columns r) = bo_id r" for r by (simp add: fill_network_columns_def)
  show ?thesis
    unfolding initialize_def cleanup_legacy_inventory_def repair_auto_profiles_def seed_def
    by (intro keeps_rules wf_rules f) simp_all
qed

section \<open>Reachable stores\<close>

inductive store_step :: "store \<Rightarrow> store \<Rightarrow> bool" where
  initialize: "store_step s (snd (initialize h env kdf salt now s))"
| audit: "store_step s (snd (add_audit now event message user_id board_id metadata s))"
| create_user: "store_step s (snd (create_user kdf salt now username password role enabled s))"
| update_user: "store_step s (snd (update_user kdf salt uid new_password role enabled s))"
| create_session: "store_step s (snd (create_session token csrf expires now user s))"
| delete_session: "store_step s (snd (delete_session tok s))"
| update_board: "store_step s (snd (update_board h now bid request s))"
| network: "store_step s (snd (update_network_state now bid u s))"
| discovered: "store_step s (snd (upsert_discovered_board h now hexes d s))"
| lease: "store_step s (snd (lease_board now bid user s))"
| release: "store_step s (snd (release_board now bid user force s))"
| run_owner: "store_step s (snd (set_run_owner run_id user s))"
| rfdc: "store_step s (snd (save_rfdc_config dump_json now (config :: string stored_rfdc) s))"
| phase: "store_step s (snd (save_phase_calibration now bid frequency_hz channel phase_deg user s))"
| serial_binding: "store_step s (snd (set_serial_binding now bid path baud_rate s))"
| serial_state: "store_step s (snd (update_serial_state now bid state error_text s))"
| serial_log: "store_step s (snd (add_serial_log now bid line limit s))"
| discovery: "store_step s (snd (upsert_discovery now kind fingerprint label details s))"
| prune: "store_step s (snd (prune_discoveries kind fingerprints s))"
| artifact: "store_step s (snd (add_artifact row s))"
| job: "store_step s (snd (create_program_job job_id now bid artifact_id user s))"
| job_update: "store_step s (snd (update_program_job now job_id state progress error_text s))"
| program_log: "store_step s (snd (add_program_log now job_id line s))"

inductive store_reachable :: "store \<Rightarrow> bool" where
  start: "store_reachable empty_store"
| step: "store_reachable s \<Longrightarrow> store_step s s' \<Longrightarrow> store_reachable s'"

lemma store_step_wf: "store_step s s' \<Longrightarrow> store_wf s \<Longrightarrow> store_wf s'"
  by (induction rule: store_step.induct) (erule keepsD [rotated], intro wf_rules)+

lemma store_reachable_wf: "store_reachable s \<Longrightarrow> store_wf s"
  by (induction rule: store_reachable.induct) (auto intro: store_wf_empty store_step_wf)


end
