(* ===== verification/Mgmt_Leases.thy ===== *)
theory Mgmt_Leases
  imports Mgmt_Invariant
begin

text \<open>
  Leases as locks. The locale \<open>lock_manager\<close> is the contract of a component that hands out named locks:
  who owns a lock, and what a client's request to acquire or to release it does to the owners. Its
  lemmas say what a client may rely on over a whole run; the store is an instance of it, and the last
  section gives the programming jobs, which exclude each other per board in the same way.
\<close>

section \<open>Locks\<close>

datatype ('a, 'k, 'c) lock_request = Acquire 'a 'k 'c | Release 'a 'k 'c bool

fun lock_run ::
  "('a \<Rightarrow> 'k \<Rightarrow> 'c \<Rightarrow> 's \<Rightarrow> 's) \<Rightarrow> ('a \<Rightarrow> 'k \<Rightarrow> 'c \<Rightarrow> bool \<Rightarrow> 's \<Rightarrow> 's) \<Rightarrow> ('a, 'k, 'c) lock_request list \<Rightarrow> 's \<Rightarrow> 's" where
  "lock_run acquire release [] s = s"
| "lock_run acquire release (Acquire a k c # rs) s = lock_run acquire release rs (acquire a k c s)"
| "lock_run acquire release (Release a k c force # rs) s = lock_run acquire release rs (release a k c force s)"

text \<open>The requests that may take lock \<open>k\<close> from client \<open>u\<close>: his own release and a forced one.\<close>

fun may_end :: "('c \<Rightarrow> 'u) \<Rightarrow> 'k \<Rightarrow> 'u \<Rightarrow> ('a, 'k, 'c) lock_request \<Rightarrow> bool" where
  "may_end ident k u (Acquire a k' c) \<longleftrightarrow> False"
| "may_end ident k u (Release a k' c force) \<longleftrightarrow> k' = k \<and> (ident c = u \<or> force)"

locale lock_manager =
  fixes inv :: "'s \<Rightarrow> bool"
    and owner :: "'s \<Rightarrow> 'k \<Rightarrow> 'u option"
    and available :: "'s \<Rightarrow> 'k \<Rightarrow> bool"
    and member :: "'s \<Rightarrow> 'u \<Rightarrow> bool"
    and ident :: "'c \<Rightarrow> 'u"
    and acquire :: "'a \<Rightarrow> 'k \<Rightarrow> 'c \<Rightarrow> 's \<Rightarrow> 's"
    and release :: "'a \<Rightarrow> 'k \<Rightarrow> 'c \<Rightarrow> bool \<Rightarrow> 's \<Rightarrow> 's"
  assumes inv_acquire: "inv s \<Longrightarrow> inv (acquire a k c s)"
    and inv_release: "inv s \<Longrightarrow> inv (release a k c force s)"
    and owner_acquire: "inv s \<Longrightarrow> owner (acquire a k c s) =
      (if available s k \<and> member s (ident c) \<and> owner s k = None then (owner s)(k \<mapsto> ident c) else owner s)"
    and owner_release: "inv s \<Longrightarrow> owner (release a k c force s) =
      (if member s (ident c) \<and> owner s k \<noteq> None \<and> (owner s k = Some (ident c) \<or> force)
       then (owner s)(k := None) else owner s)"
begin

lemma run_inv: "inv s \<Longrightarrow> inv (lock_run acquire release rs s)"
proof (induction rs arbitrary: s)
  case (Cons r rs)
  then show ?case by (cases r) (auto intro!: Cons.IH inv_acquire inv_release)
qed simp

lemma run_keeps_owner:
  assumes "inv s" "owner s k = Some u" "list_all (\<lambda>r. \<not> may_end ident k u r) rs"
  shows "owner (lock_run acquire release rs s) k = Some u"
  using assms
proof (induction rs arbitrary: s)
  case (Cons r rs)
  show ?case
  proof (cases r)
    case (Acquire a k' c)
    have "owner (acquire a k' c s) k = Some u" using Cons.prems(1,2) by (auto simp: owner_acquire)
    then show ?thesis using Cons.IH [OF inv_acquire [OF Cons.prems(1)]] Cons.prems(3) Acquire by simp
  next
    case (Release a k' c force)
    have "owner (release a k' c force s) k = Some u" using Cons.prems Release by (auto simp: owner_release)
    then show ?thesis using Cons.IH [OF inv_release [OF Cons.prems(1)]] Cons.prems(3) Release by simp
  qed
qed simp

text \<open>Of two clients that ask in turn, only the first gets the lock.\<close>

lemma first_wins:
  assumes "inv s" "available s k" "member s (ident c)" "owner s k = None" "ident c' \<noteq> ident c"
    "list_all (\<lambda>r. \<not> may_end ident k (ident c) r) rs"
  shows "owner (lock_run acquire release (Acquire a k c # rs @ [Acquire a' k c']) s) k = Some (ident c)"
proof -
  have "owner (acquire a k c s) k = Some (ident c)" using assms by (simp add: owner_acquire)
  moreover have "list_all (\<lambda>r. \<not> may_end ident k (ident c) r) (rs @ [Acquire a' k c'])" using assms(6) by simp
  ultimately show ?thesis using run_keeps_owner [OF inv_acquire [OF assms(1)]] by simp
qed

end

section \<open>The owners of the boards\<close>

definition lease_owner :: "store \<Rightarrow> string \<Rightarrow> int option" where
  "lease_owner s b = map_option le_user_id (find (is_active_lease b) (st_leases s))"

definition board_available :: "store \<Rightarrow> string \<Rightarrow> bool" where
  "board_available s b \<longleftrightarrow> list_ex (\<lambda>r. bo_id r = b \<and> bo_enabled r) (st_boards s)"

definition acquire_board :: "string \<Rightarrow> string \<Rightarrow> user_record \<Rightarrow> store \<Rightarrow> store" where
  "acquire_board now b user s = snd (lease_board now b user s)"

definition give_up_board :: "string \<Rightarrow> string \<Rightarrow> user_record \<Rightarrow> bool \<Rightarrow> store \<Rightarrow> store" where
  "give_up_board now b user force s = snd (release_board now b user force s)"

lemma lease_owner_map: "lease_owner s = map_of (map (\<lambda>l. (le_board_id l, le_user_id l)) (active_leases (st_leases s)))"
proof
  fix b
  have "map_option le_user_id (find (is_active_lease b) ls) =
      map_of (map (\<lambda>l. (le_board_id l, le_user_id l)) (active_leases ls)) b" for ls
    by (induction ls) (auto simp: active_leases_def is_active_lease_def)
  then show "lease_owner s b = map_of (map (\<lambda>l. (le_board_id l, le_user_id l)) (active_leases (st_leases s))) b"
    by (simp add: lease_owner_def)
qed

lemma st_leases_add_audit [simp]: "st_leases (snd (add_audit now ev msg uid bid meta s)) = st_leases s"
  by (simp add: add_audit_def transaction_def prog_defs sql_check_def split: prod.splits sum.splits)

lemma snd_get_board [simp]: "snd (get_board b s) = s"
  by (auto simp: get_board_def prog_defs split: option.splits)

lemma leases_pthen_audit: "st_leases (snd (pthen (add_audit now ev msg uid bid meta) (get_board b) s)) = st_leases s"
proof -
  obtain r t where "add_audit now ev msg uid bid meta s = (r, t)" by fastforce
  moreover from this have "st_leases t = st_leases s" using st_leases_add_audit [of now ev msg uid bid meta s] by simp
  ultimately show ?thesis by (cases r) (simp_all add: prog_defs)
qed

lemma find_enabled_board:
  assumes "store_wf s"
  shows "(\<exists>r. find (\<lambda>r. bo_id r = b) (st_boards s) = Some r \<and> bo_enabled r) \<longleftrightarrow> board_available s b"
proof
  assume "\<exists>r. find (\<lambda>r. bo_id r = b) (st_boards s) = Some r \<and> bo_enabled r"
  then show "board_available s b" by (auto simp: board_available_def list_ex_iff dest!: find_SomeD)
next
  assume "board_available s b"
  then obtain r where r: "r \<in> set (st_boards s)" "bo_id r = b" "bo_enabled r"
    by (auto simp: board_available_def list_ex_iff)
  have "distinct (map bo_id (st_boards s))" using assms by (simp add: store_wf_def boards_ok_def)
  from find_key [OF this r(1)] r show "\<exists>r. find (\<lambda>r. bo_id r = b) (st_boards s) = Some r \<and> bo_enabled r" by simp
qed

lemma lease_board_leases:
  assumes "store_wf s"
  shows "st_leases (snd (lease_board now b user s)) =
    (if board_available s b \<and> user_known (ur_id user) s \<and> lease_owner s b = None
     then st_leases s @ [\<lparr>le_id = seq_leases s + 1, le_board_id = b, le_user_id = ur_id user, le_status = LeaseActive,
            le_starts_at = now, le_released_at = None, le_released_by = None\<rparr>]
     else st_leases s)"
proof (cases "find (\<lambda>r. bo_id r = b) (st_boards s)")
  case None
  then have "\<not> board_available s b" using find_enabled_board [OF assms, of b] by simp
  then show ?thesis using None by (simp add: lease_board_def transaction_def prog_defs)
next
  case (Some r)
  then have av: "board_available s b \<longleftrightarrow> bo_enabled r" using find_enabled_board [OF assms, of b] by simp
  have k: "board_known b s" using Some by (auto simp: board_known_def dest!: find_SomeD)
  have p: "st_leases (snd (pthen (transaction m) (pthen (add_audit now ev msg uid bid meta) (get_board b)) s)) =
      st_leases (snd (transaction m s))" for m :: "(store, unit) prog" and ev msg uid bid meta
  proof -
    obtain q t where "transaction m s = (q, t)" by fastforce
    then show ?thesis using leases_pthen_audit by (cases q) (simp_all add: pthen_Inr pthen_Inl)
  qed
  show ?thesis
    using Some av k unfolding lease_board_def p
    by (simp add: insert_lease_def transaction_def lease_owner_def prog_defs sql_check_def)
qed


lemma release_board_leases:
  "st_leases (snd (release_board now b user force s)) =
    (case find (is_active_lease b) (st_leases s) of
       None \<Rightarrow> st_leases s
     | Some l \<Rightarrow>
         if user_known (ur_id user) s \<and> (le_user_id l = ur_id user \<or> force)
         then sql_update (\<lambda>q. le_id q = le_id l) (\<lambda>q. q\<lparr>le_status := if force then LeaseForced else LeaseReleased,
                le_released_at := Some now, le_released_by := Some (ur_id user)\<rparr>) (st_leases s)
         else st_leases s)"
proof -
  have p: "st_leases (snd (pthen (transaction m) (pthen (add_audit now ev msg uid bid meta) (get_board b)) s)) =
      st_leases (snd (transaction m s))" for m :: "(store, unit) prog" and ev msg uid bid meta
  proof -
    obtain q t where "transaction m s = (q, t)" by fastforce
    then show ?thesis using leases_pthen_audit by (cases q) (simp_all add: pthen_Inr pthen_Inl)
  qed
  show ?thesis
    unfolding release_board_def p
    by (cases "find (is_active_lease b) (st_leases s)")
      (auto simp: end_lease_def transaction_def prog_defs sql_check_def)
qed

lemma map_of_without: "map_of (filter (\<lambda>x. fst x \<noteq> k) xs) = (map_of xs)(k := None)"
  by (induction xs) auto

lemma lease_owner_cong: "st_leases s = st_leases s' \<Longrightarrow> lease_owner s = lease_owner s'"
  by (simp add: lease_owner_map)

lemma active_leases_update:
  assumes "\<And>l. le_status (f l) \<noteq> LeaseActive"
  shows "active_leases (sql_update P f ls) = filter (\<lambda>l. \<not> P l) (active_leases ls)"
  using assms by (induction ls) (auto simp: active_leases_def sql_update_def)

text \<open>In a well-formed table the only active lease of a board is the one with its identifier.\<close>

lemma active_lease_unique:
  assumes "store_wf s" "find (is_active_lease b) (st_leases s) = Some l" "q \<in> set (active_leases (st_leases s))"
  shows "le_id q = le_id l \<longleftrightarrow> le_board_id q = b"
proof -
  have l: "l \<in> set (active_leases (st_leases s))" "le_board_id l = b"
    using find_SomeD [OF assms(2)] by (auto simp: active_leases_def is_active_lease_def)
  have d: "distinct (map le_id (st_leases s))" "distinct (map le_board_id (active_leases (st_leases s)))"
    using assms(1) by (simp_all add: store_wf_def leases_ok_def)
  have sub: "set (active_leases (st_leases s)) \<subseteq> set (st_leases s)" by (simp add: active_leases_def)
  from d(1) have "inj_on le_id (set (st_leases s))" by (simp add: distinct_map)
  then have "le_id q = le_id l \<longleftrightarrow> q = l" using sub l(1) assms(3) by (auto dest: inj_onD)
  moreover from d(2) have "inj_on le_board_id (set (active_leases (st_leases s)))" by (simp add: distinct_map)
  then have "le_board_id q = le_board_id l \<longleftrightarrow> q = l" using l(1) assms(3) by (auto dest: inj_onD)
  ultimately show ?thesis using l(2) by simp
qed

lemma release_board_owner:
  assumes "store_wf s"
  shows "lease_owner (snd (release_board now b user force s)) =
    (if user_known (ur_id user) s \<and> lease_owner s b \<noteq> None \<and> (lease_owner s b = Some (ur_id user) \<or> force)
     then (lease_owner s)(b := None) else lease_owner s)"
proof (cases "find (is_active_lease b) (st_leases s)")
  case None
  then show ?thesis
    using lease_owner_cong [OF release_board_leases [of now b user force s, unfolded None option.case]]
    by (simp add: lease_owner_def)
next
  case (Some l)
  let ?f = "\<lambda>q. q\<lparr>le_status := if force then LeaseForced else LeaseReleased, le_released_at := Some now,
      le_released_by := Some (ur_id user)\<rparr>"
  have own: "lease_owner s b = Some (le_user_id l)" by (simp add: lease_owner_def Some)
  note e = release_board_leases [of now b user force s, unfolded Some option.case]
  show ?thesis
  proof (cases "user_known (ur_id user) s \<and> (le_user_id l = ur_id user \<or> force)")
    case True
    have "active_leases (sql_update (\<lambda>q. le_id q = le_id l) ?f (st_leases s)) =
        filter (\<lambda>q. le_board_id q \<noteq> b) (active_leases (st_leases s))"
      using active_lease_unique [OF assms Some] by (subst active_leases_update) (auto intro: filter_cong)
    then have "lease_owner (snd (release_board now b user force s)) = (lease_owner s)(b := None)"
      using e True by (simp add: lease_owner_map filter_map comp_def flip: map_of_without)
    then show ?thesis using True own by auto
  next
    case False
    then show ?thesis using lease_owner_cong [OF e [simplified False if_False]] own by auto
  qed
qed

lemma lease_board_owner:
  assumes "store_wf s"
  shows "lease_owner (snd (lease_board now b user s)) =
    (if board_available s b \<and> user_known (ur_id user) s \<and> lease_owner s b = None
     then (lease_owner s)(b \<mapsto> ur_id user) else lease_owner s)"
proof (rule ext)
  fix k
  show "lease_owner (snd (lease_board now b user s)) k =
    (if board_available s b \<and> user_known (ur_id user) s \<and> lease_owner s b = None
     then (lease_owner s)(b \<mapsto> ur_id user) else lease_owner s) k"
    using lease_board_leases [OF assms, of now b user]
    by (auto simp: lease_owner_def find_snoc is_active_lease_def split: option.splits)
qed

interpretation board_lock: lock_manager store_wf lease_owner board_available "\<lambda>s u. user_known u s" ur_id
  acquire_board give_up_board
proof unfold_locales
  fix s :: store and now b user force
  assume wf: "store_wf s"
  show "store_wf (acquire_board now b user s)" "store_wf (give_up_board now b user force s)"
    unfolding acquire_board_def give_up_board_def by (rule keepsD [OF wf_lease_methods(2) wf] keepsD [OF wf_lease_methods(3) wf])+
  show "lease_owner (acquire_board now b user s) =
      (if board_available s b \<and> user_known (ur_id user) s \<and> lease_owner s b = None
       then (lease_owner s)(b \<mapsto> ur_id user) else lease_owner s)"
    unfolding acquire_board_def by (rule lease_board_owner [OF wf])
  show "lease_owner (give_up_board now b user force s) =
      (if user_known (ur_id user) s \<and> lease_owner s b \<noteq> None \<and> (lease_owner s b = Some (ur_id user) \<or> force)
       then (lease_owner s)(b := None) else lease_owner s)"
    unfolding give_up_board_def by (rule release_board_owner [OF wf])
qed

section \<open>Nothing else changes a lease\<close>

lemmas statement_defs = update_boards_def insert_board_def insert_user_def add_audit_def get_board_def upsert_phase_def
  list_phase_calibrations_def get_artifact_def program_job_def insert_lease_def end_lease_def

lemmas method_defs = initialize_def cleanup_legacy_inventory_def repair_auto_profiles_def seed_def create_user_def
  update_user_def create_session_def delete_session_def update_board_def write_board_def update_network_state_def
  upsert_discovered_board_def lease_board_def release_board_def set_run_owner_def save_rfdc_config_def
  save_phase_calibration_def set_serial_binding_def update_serial_state_def add_serial_log_def upsert_discovery_def
  write_discovery_def prune_discoveries_def add_artifact_def create_program_job_def update_program_job_def
  add_program_log_def Let_def

definition leases_are :: "lease_row list \<Rightarrow> store \<Rightarrow> bool" where
  "leases_are ls s \<longleftrightarrow> st_leases s = ls"

lemma leases_modify: "(\<And>s. st_leases (f s) = st_leases s) \<Longrightarrow> keeps (leases_are ls) (pmodify f)"
  by (simp add: keeps_def leases_are_def)

lemma leases_statements:
  "keeps (leases_are ls) (update_boards P f)" "keeps (leases_are ls) (insert_board r)"
  "keeps (leases_are ls) (insert_user un ph role en now)" "keeps (leases_are ls) (add_audit now ev msg uid bid meta)"
  "keeps (leases_are ls) (get_board b)" "keeps (leases_are ls) (upsert_phase row)"
  "keeps (leases_are ls) (list_phase_calibrations b)" "keeps (leases_are ls) (get_artifact i)"
  "keeps (leases_are ls) (program_job i)"
  unfolding statement_defs
  by (intro keeps_rules leases_modify; simp add: prog_defs)+

text \<open>Every method but the two of the leases.\<close>

lemma leases_methods:
  "keeps (leases_are ls) (initialize h env kdf salt now)"
  "keeps (leases_are ls) (create_user kdf salt now username password role enabled)"
  "keeps (leases_are ls) (update_user kdf salt uid new_password role enabled)"
  "keeps (leases_are ls) (create_session token csrf expires now user)" "keeps (leases_are ls) (delete_session tok)"
  "keeps (leases_are ls) (update_board h now bid request)" "keeps (leases_are ls) (update_network_state now bid u)"
  "keeps (leases_are ls) (upsert_discovered_board h now hexes d)" "keeps (leases_are ls) (set_run_owner run_id user)"
  "keeps (leases_are ls) (save_rfdc_config dump_json now config)"
  "keeps (leases_are ls) (save_phase_calibration now bid frequency_hz channel phase_deg user)"
  "keeps (leases_are ls) (set_serial_binding now bid path baud_rate)"
  "keeps (leases_are ls) (update_serial_state now bid state error_text)"
  "keeps (leases_are ls) (add_serial_log now bid line limit)"
  "keeps (leases_are ls) (upsert_discovery now kind fingerprint label details)"
  "keeps (leases_are ls) (prune_discoveries kind fingerprints)" "keeps (leases_are ls) (add_artifact row)"
  "keeps (leases_are ls) (create_program_job job_id now bid artifact_id user)"
  "keeps (leases_are ls) (update_program_job now job_id state progress error_text)"
  "keeps (leases_are ls) (add_program_log now job_id line)"
  unfolding method_defs
  by (intro keeps_rules leases_statements leases_modify; simp)+
section \<open>The store is a lock manager\<close>

lemma store_step_owner:
  assumes "store_step s s'"
  obtains "lease_owner s' = lease_owner s"
  | now b user where "s' = snd (lease_board now b user s)"
  | now b user force where "s' = snd (release_board now b user force s)"
proof -
  have k: "lease_owner (snd (m s)) = lease_owner s" if "keeps (leases_are (st_leases s)) m" for m :: "(store, 'a) prog"
    using keepsD [OF that, of s] by (intro lease_owner_cong) (simp add: leases_are_def)
  show thesis
  proof (cases "\<exists>now b user force. s' = snd (lease_board now b user s) \<or> s' = snd (release_board now b user force s)")
    case True
    then show thesis using that(2,3) by blast
  next
    case False
    from assms have "lease_owner s' = lease_owner s"
      by (cases rule: store_step.cases)
        ((simp only:, rule k, rule leases_methods leases_statements) | (use False in blast))+
    then show thesis by (rule that(1))
  qed
qed

lemma require_lease_owner:
  assumes "store_wf s"
  shows "fst (require_lease user b s) = (if lease_owner s b = Some (ur_id user) then Inr () else Inl LeasePermissionError)"
proof (cases "find (is_active_lease b) (st_leases s)")
  case None
  then show ?thesis by (simp add: require_lease_def active_lease_def prog_defs transaction_def lease_owner_def)
next
  case (Some l)
  then have "l \<in> set (st_leases s)" by (auto dest: find_SomeD)
  then have "le_user_id l \<in> us_id ` set (st_users s)" using assms by (simp add: store_wf_def leases_ok_def user_ids_def)
  then obtain name where "username_of s (le_user_id l) = Some name"
    using find_key_None [of us_id "le_user_id l" "st_users s"]
    by (cases "find (\<lambda>u. us_id u = le_user_id l) (st_users s)") (auto simp: username_of_def)
  then show ?thesis
    using Some by (simp add: require_lease_def active_lease_def prog_defs transaction_def lease_owner_def)
qed

text \<open>
  C23. The leases implement a lock per board, in every reachable state of the database: leasing sets the
  owner exactly when the board exists and is enabled, the user exists and nobody owns the board, and
  changes nothing otherwise; releasing clears it exactly when the actor exists and is the owner or the
  release is forced; the check before live control passes exactly for the owner; and no other method
  changes an owner.
\<close>

theorem leases_implement_locks:
  assumes "store_reachable s"
  shows "lease_owner (snd (lease_board now b user s)) =
      (if board_available s b \<and> user_known (ur_id user) s \<and> lease_owner s b = None
       then (lease_owner s)(b \<mapsto> ur_id user) else lease_owner s) \<and>
    lease_owner (snd (release_board now b user force s)) =
      (if user_known (ur_id user) s \<and> lease_owner s b \<noteq> None \<and> (lease_owner s b = Some (ur_id user) \<or> force)
       then (lease_owner s)(b := None) else lease_owner s) \<and>
    fst (require_lease user b s) = (if lease_owner s b = Some (ur_id user) then Inr () else Inl LeasePermissionError) \<and>
    (store_step s s' \<longrightarrow> lease_owner s' \<noteq> lease_owner s \<longrightarrow>
       (\<exists>now b user force. s' = snd (lease_board now b user s) \<or> s' = snd (release_board now b user force s)))"
proof (intro conjI impI)
  note wf = store_reachable_wf [OF assms]
  show "lease_owner (snd (lease_board now b user s)) =
      (if board_available s b \<and> user_known (ur_id user) s \<and> lease_owner s b = None
       then (lease_owner s)(b \<mapsto> ur_id user) else lease_owner s)"
    using board_lock.owner_acquire [OF wf, of now b user] by (simp add: acquire_board_def)
  show "lease_owner (snd (release_board now b user force s)) =
      (if user_known (ur_id user) s \<and> lease_owner s b \<noteq> None \<and> (lease_owner s b = Some (ur_id user) \<or> force)
       then (lease_owner s)(b := None) else lease_owner s)"
    using board_lock.owner_release [OF wf, of now b user force] by (simp add: give_up_board_def)
  show "fst (require_lease user b s) = (if lease_owner s b = Some (ur_id user) then Inr () else Inl LeasePermissionError)"
    by (rule require_lease_owner [OF wf])
  show "\<exists>now b user force. s' = snd (lease_board now b user s) \<or> s' = snd (release_board now b user force s)"
    if "store_step s s'" "lease_owner s' \<noteq> lease_owner s"
    using that(1) by (rule store_step_owner) (use that(2) in blast)+
qed

section \<open>An example database\<close>

definition quiet_host :: host_env where
  "quiet_host = \<lparr>he_dynamic_nics = False, he_digest = (\<lambda>_. (0, 0)), he_names = None, he_present = (\<lambda>_. False),
     he_type = (\<lambda>_. None), he_device_path = (\<lambda>_. None), he_speed = (\<lambda>_. None), he_operstate = (\<lambda>_. None),
     he_carrier = (\<lambda>_. None), he_default_routes = [], he_ipv4 = (\<lambda>_. [])\<rparr>"

definition found_board :: "string \<Rightarrow> string \<Rightarrow> string \<Rightarrow> discovered" where
  "found_board nic uid mac = \<lparr>dc_device_uid = uid, dc_udp_interface = nic, dc_active_ip = ''10.0.0.2'', dc_active_mac = mac,
     dc_desired_ip = ''10.0.0.2'', dc_desired_mac = mac, dc_network_revision = 1, dc_network_apply_status = ''applied'',
     dc_network_apply_error = [], dc_target_profile = []\<rparr>"

definition example_user :: "int \<Rightarrow> user_record" where
  "example_user i = \<lparr>ur_id = i, ur_username = ''u'', ur_role = USER, ur_enabled = True, ur_created_at = ''t''\<rparr>"

definition example_kdf :: kdf where "example_kdf password salt n = Inr []"

definition users_store :: store where
  "users_store = snd (create_user example_kdf [] ''t'' ''v'' ''pw'' USER True
     (snd (create_user example_kdf [] ''t'' ''u'' ''pw'' USER True empty_store)))"

definition board_store :: store where
  "board_store = snd (upsert_discovered_board quiet_host ''t'' [] (found_board ''e0'' ''a'' ''m'') users_store)"

lemma users_store_value:
  "st_users users_store =
     [\<lparr>us_id = 1, us_username = ''u'', us_password_hash = the (case hash_password example_kdf ''pw'' [] of Inr h \<Rightarrow> Some h | _ \<Rightarrow> None),
       us_role = USER, us_enabled = True, us_created_at = ''t''\<rparr>,
      \<lparr>us_id = 2, us_username = ''v'', us_password_hash = the (case hash_password example_kdf ''pw'' [] of Inr h \<Rightarrow> Some h | _ \<Rightarrow> None),
       us_role = USER, us_enabled = True, us_created_at = ''t''\<rparr>]"
  "st_boards users_store = []" "st_leases users_store = []"
  by (simp_all add: users_store_def create_user_def insert_user_def hash_password_def example_kdf_def empty_store_def
      prog_defs transaction_def sql_check_def)

lemma quiet_profile: "auto_fpga_link_profile quiet_host ''e0'' = None"
  by (simp add: auto_fpga_link_profile_def dynamic_fpga_link_profile_def quiet_host_def AUTO_FPGA_LINK_PROFILES_def)

lemma board_store_value:
  "st_users board_store = st_users users_store" "st_leases board_store = []"
  "map (\<lambda>r. (bo_id r, bo_enabled r, bo_device_uid r, bo_active_mac r)) (st_boards board_store) = [(''fpga-a'', True, ''a'', ''m'')]"
  by (simp_all add: board_store_def upsert_discovered_board_def found_board_def quiet_profile users_store_value device_rows_def
      sort_desc_def uid_suffix_def is_alnum_def ccode_def lower_char_def or_text_def insert_board_def inserted_row_def
      discovered_row_def default_row_def board_known_def prog_defs transaction_def sql_check_def Let_def get_board_def
      split: option.splits sum.splits)


lemma users_store_reachable: "store_reachable users_store"
  unfolding users_store_def
  by (rule store_reachable.step [OF store_reachable.step [OF store_reachable.start store_step.create_user] store_step.create_user])

lemma board_store_reachable: "store_reachable board_store"
  unfolding board_store_def by (rule store_reachable.step [OF users_store_reachable store_step.discovered])

lemma board_store_members:
  "user_known 1 board_store" "user_known 2 board_store" "board_available board_store ''fpga-a''" "lease_owner board_store b = None"
proof -
  obtain r where r: "st_boards board_store = [r]" "bo_id r = ''fpga-a''" "bo_enabled r"
    using board_store_value(3) by (auto simp: map_eq_Cons_conv)
  show "user_known 1 board_store" "user_known 2 board_store" "board_available board_store ''fpga-a''" "lease_owner board_store b = None"
    by (simp_all add: user_known_def board_available_def lease_owner_def board_store_value users_store_value r)
qed

lemma leases_implement_locks_witness:
  "lease_owner (snd (lease_board ''t'' ''fpga-a'' (example_user 1) board_store)) ''fpga-a'' = Some 1 \<and>
   fst (require_lease (example_user 1) ''fpga-a'' board_store) = Inl LeasePermissionError"
  using leases_implement_locks [OF board_store_reachable, of "''t''" "''fpga-a''" "example_user 1"] board_store_members
  by (simp add: example_user_def)

text \<open>
  A lease cannot be taken away: once a user owns a board, whatever requests follow, he owns it until
  he releases it himself or somebody forces the release. Until then live control is refused to every
  other user, and his attempts to lease or to release the board change nothing.
\<close>

lemma lease_is_not_stolen:
  assumes "store_reachable s" "lease_owner s b = Some u" "list_all (\<lambda>r. \<not> may_end ur_id b u r) requests"
    "s' = lock_run acquire_board give_up_board requests s"
  shows "lease_owner s' b = Some u \<and> store_wf s' \<and>
    fst (require_lease other b s') = (if ur_id other = u then Inr () else Inl LeasePermissionError)"
proof -
  note wf = store_reachable_wf [OF assms(1)]
  have "lease_owner s' b = Some u" unfolding assms(4) by (rule board_lock.run_keeps_owner [OF wf assms(2,3)])
  moreover have "store_wf s'" unfolding assms(4) by (rule board_lock.run_inv [OF wf])
  ultimately show ?thesis by (auto simp: require_lease_owner)
qed

lemma lease_is_not_stolen_witness:
  "lease_owner (lock_run acquire_board give_up_board
     [Acquire ''t'' ''fpga-a'' (example_user 2), Release ''t'' ''fpga-a'' (example_user 2) False]
     (snd (lease_board ''t'' ''fpga-a'' (example_user 1) board_store))) ''fpga-a'' = Some 1"
proof -
  have r: "store_reachable (snd (lease_board ''t'' ''fpga-a'' (example_user 1) board_store))"
    by (rule store_reachable.step [OF board_store_reachable store_step.lease])
  have o: "lease_owner (snd (lease_board ''t'' ''fpga-a'' (example_user 1) board_store)) ''fpga-a'' = Some 1"
    using lease_board_owner [OF store_reachable_wf [OF board_store_reachable], of "''t''" "''fpga-a''" "example_user 1"]
      board_store_members by (simp add: example_user_def)
  show ?thesis
    using lease_is_not_stolen [OF r o, of "[Acquire ''t'' ''fpga-a'' (example_user 2), Release ''t'' ''fpga-a'' (example_user 2) False]"]
    by (simp add: example_user_def)
qed


end
