(* ===== verification/Web_Runs.thy ===== *)
theory Web_Runs
  imports Run_Worker Rf_Protocol Mgmt_Leases
begin

text \<open>
  The routes of \<open>webapp/main.py\<close> that create and control runs: who may do it. The state is the
  management store and the coordinator; the live status of a board and the RFDC service are parameters.
  An exception is the outcome of a route; its HTTP code is not modelled.
\<close>

section \<open>State\<close>

record live_status =
  ls_device_uid :: string
  ls_online :: bool
  ls_protocol_version :: int
  ls_network_configured :: bool
  ls_network_apply_status :: string
  ls_rfdc_ready :: "bool option"
  ls_mts_required :: bool
  ls_mts_ready :: bool
  ls_mts_failed :: bool
  ls_armed :: bool
  ls_prepared :: bool
  ls_running :: bool
  ls_session :: int

record 'g web =
  wb_gateway :: "'g coord gateway"
  wb_status :: "string \<Rightarrow> ('g coord, live_status) prog"
  wb_rfdc_apply :: "string \<Rightarrow> apply_request \<Rightarrow> ('g coord, unit) prog"

record 'g app =
  ap_mgmt :: store
  ap_coord :: "'g coord"

definition with_mgmt :: "(store, 'a) prog \<Rightarrow> ('g app, 'a) prog" where
  "with_mgmt m s = (case m (ap_mgmt s) of (r, t) \<Rightarrow> (r, s\<lparr>ap_mgmt := t\<rparr>))"

definition with_coord :: "('g coord, 'a) prog \<Rightarrow> ('g app, 'a) prog" where
  "with_coord m s = (case m (ap_coord s) of (r, t) \<Rightarrow> (r, s\<lparr>ap_coord := t\<rparr>))"

section \<open>Creating a run\<close>

definition require_live_board_ready :: "'g web \<Rightarrow> string \<Rightarrow> ('g app, unit) prog" where
  "require_live_board_ready web board_id =
     pbind (with_mgmt (get_board board_id)) (\<lambda>board.
     pthen (praise_if (\<not> bo_enabled (bp_row board)) RuntimeError) (
     pbind (with_coord (wb_status web board_id)) (\<lambda>status.
     praise_if ((bo_device_uid (bp_row board) = [] \<and> ls_device_uid status = []) \<or> \<not> ls_online status \<or>
       ls_protocol_version status \<noteq> RFCTRL2_VERSION \<or> \<not> ls_network_configured status \<or>
       ls_network_apply_status status \<noteq> ''applied'' \<or> ls_rfdc_ready status \<noteq> Some True \<or>
       \<not> ls_mts_required status \<or> \<not> ls_mts_ready status \<or> ls_mts_failed status) RuntimeError)))"

text \<open>The function \<open>prepare\<close> of a live single run: mute what plays, then program the RFDC.\<close>

definition prepare_rfdc :: "'g web \<Rightarrow> string \<Rightarrow> rfdc_request \<Rightarrow> int \<Rightarrow> string \<Rightarrow> ('g coord, unit) prog" where
  "prepare_rfdc web board_id config channel_mask run_id =
     pbind (wb_status web board_id) (\<lambda>status.
     pthen (if ls_armed status \<or> ls_prepared status \<or> ls_running status then
              pthen (praise_if (ls_session status = 0) RuntimeError)
                (gw_mute (wb_gateway web) board_id (ls_session status))
            else pret ()) (
     pbind (plift (validate_apply_request (rr_channels config) channel_mask)) (wb_rfdc_apply web board_id)))"

text \<open>The checks before a live run, and its \<open>prepare\<close>.\<close>

definition live_checks :: "'g web \<Rightarrow> user_record \<Rightarrow> run_request \<Rightarrow> ('g app, (string \<Rightarrow> ('g coord, unit) prog) option) prog" where
  "live_checks web user request =
     (if rq_execution_mode request = ''synchronized'' then
        pthen (praise_if (length (rq_jobs request) \<noteq> 2) ValueError) (
        pbind (with_coord (pmap (\<lambda>job. gw_profile (wb_gateway web) (jb_board_id job)) (rq_jobs request))) (\<lambda>profiles.
        pthen (praise_if (length (filter (\<lambda>p. bi_target_profile p \<in> set master_profiles) profiles) \<noteq> 1) ValueError) (
        pthen (pfor (rq_jobs request) (\<lambda>job.
          pthen (with_mgmt (require_lease user (jb_board_id job))) (require_live_board_ready web (jb_board_id job)))) (
        pret None))))
      else
        (case rq_jobs request of
           [] \<Rightarrow> praise IndexError
         | job # _ \<Rightarrow>
             pthen (with_mgmt (require_lease user (jb_board_id job))) (
             pthen (require_live_board_ready web (jb_board_id job)) (
             case jb_rfdc_config job of
               None \<Rightarrow> pret None
             | Some config \<Rightarrow>
                 pthen (praise_if (rr_board_id config \<noteq> jb_board_id job) ValueError) (
                 pbind (plift (channel_mask_for_job job)) (\<lambda>channel_mask.
                 pret (Some (prepare_rfdc web (jb_board_id job) config channel_mask))))))))"

definition web_create_run :: "'g web \<Rightarrow> string \<Rightarrow> user_record \<Rightarrow> string \<Rightarrow> run_request \<Rightarrow> ('g app, run_row) prog" where
  "web_create_run web now user run_id body =
     pbind (plift (validate_run_request body)) (\<lambda>request.
     pbind (if rq_dry_run request then pret None else live_checks web user request) (\<lambda>prepare.
     pbind (with_coord (create_run (wb_gateway web) run_id request prepare)) (\<lambda>record.
     pthen (with_mgmt (set_run_owner (rn_id record) user)) (
     pthen (with_mgmt (add_audit now ''run.created''
              (ur_username user @ '' created '' @ rq_execution_mode request @ '' run '' @ rn_name record)
              (Some (ur_id user)) (Some (hd (rn_board_ids record))) Map.empty)) (
     pret record)))))"

section \<open>Controlling runs\<close>

definition check_run_control :: "run_row \<Rightarrow> user_record \<Rightarrow> ('g app, unit) prog" where
  "check_run_control record user =
     pbind (with_mgmt (can_manage_run (rn_id record) user)) (\<lambda>ok.
     pthen (praise_if (\<not> ok) LeasePermissionError) (
     if rn_dry_run record then pret ()
     else pfor (rn_board_ids record) (\<lambda>b. with_mgmt (require_lease user b))))"

definition web_get_run :: "string \<Rightarrow> ('g app, run_row) prog" where
  "web_get_run run_id = with_coord (with_store (rs_require run_id))"

definition web_play_run :: "'g web \<Rightarrow> user_record \<Rightarrow> string \<Rightarrow> ('g app, run_row) prog" where
  "web_play_run web user run_id =
     pbind (web_get_run run_id) (\<lambda>record.
     pthen (check_run_control record user) (
     with_coord (play_loaded (wb_gateway web) run_id)))"

datatype board_action = ArmAction | TriggerAction | AbortAction

definition web_loaded_run :: "string \<Rightarrow> ('g app, run_row) prog" where
  "web_loaded_run board_id =
     pbind (with_coord (loaded_run_for_board board_id)) (\<lambda>found.
     case found of None \<Rightarrow> praise KeyError | Some r \<Rightarrow> pret r)"

definition board_loaded_action :: "'g web \<Rightarrow> user_record \<Rightarrow> string \<Rightarrow> board_action \<Rightarrow> ('g app, run_row) prog" where
  "board_loaded_action web user board_id action =
     pbind (with_coord (active_run_for_board board_id)) (\<lambda>active_run.
     case (action, active_run) of
       (AbortAction, Some run_id) \<Rightarrow>
         pbind (web_get_run run_id) (\<lambda>record.
         pthen (check_run_control record user) (
         with_coord (abort_run (wb_gateway web) run_id)))
     | _ \<Rightarrow>
         pbind (web_loaded_run board_id) (\<lambda>record.
         pthen (check_run_control record user) (
         with_coord (case action of
             ArmAction \<Rightarrow> arm_loaded (wb_gateway web) (rn_id record)
           | TriggerAction \<Rightarrow> trigger_loaded (wb_gateway web) (rn_id record)
           | AbortAction \<Rightarrow> abort_loaded (wb_gateway web) (rn_id record)))))"

definition run_action :: "'g web \<Rightarrow> user_record \<Rightarrow> string \<Rightarrow> board_action \<Rightarrow> ('g app, run_row) prog" where
  "run_action web user run_id action =
     pbind (web_get_run run_id) (\<lambda>record.
     pbind (with_mgmt (can_manage_run run_id user)) (\<lambda>ok.
     pthen (praise_if (\<not> ok) LeasePermissionError) (
     pthen (if rn_dry_run record then pret ()
            else (case rn_board_ids record of
                    [] \<Rightarrow> praise IndexError
                  | b # _ \<Rightarrow> with_mgmt (require_lease user b))) (
     with_coord (case action of
         ArmAction \<Rightarrow> arm_run (wb_gateway web) run_id
       | TriggerAction \<Rightarrow> start_run (wb_gateway web) run_id
       | AbortAction \<Rightarrow> abort_run (wb_gateway web) run_id)))))"

definition force_release_board :: "'g web \<Rightarrow> string \<Rightarrow> user_record \<Rightarrow> string \<Rightarrow> ('g app, board_profile) prog" where
  "force_release_board web now actor board_id =
     pbind (with_coord (active_run_for_board board_id)) (\<lambda>active.
     pthen (case active of
              None \<Rightarrow> pret ()
            | Some run_id \<Rightarrow> pbind (with_coord (abort_run (wb_gateway web) run_id)) (\<lambda>_. pret ())) (
     with_mgmt (release_board now board_id actor True)))"
end
