(* ===== verification/Run_Theorems.thy ===== *)
theory Run_Theorems
  imports Web_Runs
begin

text \<open>
  What the coordinator and the routes promise, and where they do not: the restart, the identity of an
  uploaded waveform, the ownership of boards, leases.
\<close>

section \<open>Restart\<close>

definition recovered :: "run_row \<Rightarrow> run_row \<Rightarrow> bool" where
  "recovered r r' \<longleftrightarrow> (\<exists>t. r' = r\<lparr>rn_state := Run_ABORTED, rn_error := orphan_note, rn_updated_at := t\<rparr>)"

definition recovered_ids :: "string set \<Rightarrow> run_row list \<Rightarrow> run_row list \<Rightarrow> bool" where
  "recovered_ids D = list_all2 (\<lambda>r r'. if rn_id r \<in> D then recovered r r' else r' = r)"

lemma recovered_id: "recovered r r' \<Longrightarrow> rn_id r' = rn_id r \<and> rn_progress r' = rn_progress r"
  by (auto simp: recovered_def)

lemma recovered_ids_start: "recovered_ids {} rows rows"
  by (simp add: recovered_ids_def list_all2_same)

lemma recovered_ids_step:
  assumes "recovered_ids D rows rows'"
  shows "recovered_ids (insert i D) rows (sql_update (\<lambda>r. rn_id r = i)
    (\<lambda>r. r\<lparr>rn_state := Run_ABORTED, rn_error := orphan_note, rn_updated_at := t\<rparr>) rows')"
proof -
  let ?f = "\<lambda>r. r\<lparr>rn_state := Run_ABORTED, rn_error := orphan_note, rn_updated_at := t\<rparr>"
  have step: "if rn_id r \<in> insert i D then recovered r (if rn_id r' = i then ?f r' else r')
      else (if rn_id r' = i then ?f r' else r') = r"
    if "if rn_id r \<in> D then recovered r r' else r' = r" for r r'
  proof (cases "rn_id r \<in> D")
    case True
    then have r: "recovered r r'" using that by simp
    have "recovered r (?f r')" using r unfolding recovered_def by force
    then show ?thesis using True r by simp
  next
    case False
    then have "r' = r" using that by simp
    moreover have "recovered r (?f r)" unfolding recovered_def by blast
    ultimately show ?thesis using False by simp
  qed
  show ?thesis
    using assms unfolding recovered_ids_def sql_update_def list_all2_map2
    by (rule list_all2_mono) (rule step)
qed

lemma recover_loop:
  assumes "recovered_ids D rows (rs_runs st)"
  shows "\<exists>st'. pfor ids (\<lambda>run_id. pbind utc_now (\<lambda>now. update_runs (\<lambda>r. rn_id r = run_id)
       (\<lambda>r. r\<lparr>rn_state := Run_ABORTED, rn_error := orphan_note, rn_updated_at := now\<rparr>))) st = (Inr (), st') \<and>
     recovered_ids (D \<union> set ids) rows (rs_runs st')"
  using assms
proof (induction ids arbitrary: D st)
  case (Cons i ids)
  let ?st = "st\<lparr>rs_tick := Suc (rs_tick st), rs_runs := sql_update (\<lambda>r. rn_id r = i)
    (\<lambda>r. r\<lparr>rn_state := Run_ABORTED, rn_error := orphan_note, rn_updated_at := rs_time st (rs_tick st)\<rparr>) (rs_runs st)\<rparr>"
  have "recovered_ids (insert i D) rows (rs_runs ?st)" using recovered_ids_step [OF Cons.prems] by simp
  from Cons.IH [OF this] show ?case by (simp add: utc_now_def update_runs_def prog_defs)
qed simp

lemma recovered_progress:
  assumes "recovered_ids D rows rows'" "list_all (\<lambda>r. 0 \<le> rn_progress r \<and> rn_progress r \<le> 1) rows"
  shows "list_all (\<lambda>r. 0 \<le> rn_progress r \<and> rn_progress r \<le> 1) rows'"
  using assms unfolding recovered_ids_def
  by (induction rows rows' rule: list_all2_induct) (auto dest: recovered_id split: if_splits)

lemma read_back_all:
  assumes "list_all (\<lambda>r. 0 \<le> rn_progress r \<and> rn_progress r \<le> 1) (rs_runs st)"
  shows "\<exists>found. pmap rs_get ids st = (Inr found, st)"
proof (induction ids)
  case (Cons i ids)
  have "\<exists>x. rs_get i st = (Inr x, st)"
  proof (cases "find_run i st")
    case (Some r)
    then have "r \<in> set (rs_runs st)" by (auto simp: find_run_def dest: find_SomeD)
    then have "0 \<le> rn_progress r \<and> rn_progress r \<le> 1" using assms by (simp add: list_all_iff)
    then show ?thesis using Some by (simp add: rs_get_def run_record_def guard_raise_def prog_defs)
  qed (simp add: rs_get_def prog_defs)
  then show ?case using Cons by (auto simp: prog_defs)
qed simp

lemma restart_rows:
  assumes "distinct (map rn_id (rs_runs (co_store s)))"
    "list_all (\<lambda>r. 0 \<le> rn_progress r \<and> rn_progress r \<le> 1) (rs_runs (co_store s))"
    "coordinator_init s = (x, s')"
  shows "x = Inr () \<and>
    list_all2 (\<lambda>r r'. if unfinished (rn_state r) then recovered r r' else r' = r) (rs_runs (co_store s)) (rs_runs (co_store s')) \<and>
    list_all (\<lambda>r. \<not> unfinished (rn_state r)) (rs_runs (co_store s'))"
proof -
  let ?rows = "rs_runs (co_store s)"
  let ?ids = "map rn_id (filter (\<lambda>r. unfinished (rn_state r) \<and> rn_id r \<notin> {}) ?rows)"
  obtain st' where st': "pfor ?ids (\<lambda>run_id. pbind utc_now (\<lambda>now. update_runs (\<lambda>r. rn_id r = run_id)
       (\<lambda>r. r\<lparr>rn_state := Run_ABORTED, rn_error := orphan_note, rn_updated_at := now\<rparr>))) (co_store s) = (Inr (), st')"
    "recovered_ids (set ?ids) ?rows (rs_runs st')"
    using recover_loop [where st = "co_store s" and ids = ?ids, OF recovered_ids_start] by auto
  obtain found where "pmap rs_get ?ids st' = (Inr found, st')"
    using read_back_all [OF recovered_progress [OF st'(2) assms(2)]] by blast
  then have init: "x = Inr ()" "co_store s' = st'"
    using assms(3) st'(1) by (auto simp: coordinator_init_def with_store_def rs_recover_orphaned_def prog_defs)
  have ids: "rn_id r \<in> set ?ids \<longleftrightarrow> unfinished (rn_state r)" if "r \<in> set ?rows" for r
    using that assms(1) by (auto simp: distinct_map inj_on_def)
  have rows: "list_all2 (\<lambda>r r'. if unfinished (rn_state r) then recovered r r' else r' = r) ?rows (rs_runs st')"
    using st'(2) ids unfolding recovered_ids_def by (simp add: list_all2_conv_all_nth)
  have "list_all (\<lambda>r. \<not> unfinished (rn_state r)) (rs_runs st')"
    using rows by (auto simp: list_all_length list_all2_conv_all_nth recovered_def unfinished_def split: if_splits)
  with init rows show ?thesis by simp
qed

text \<open>
  C33. A restart leaves no run unfinished. Every run that was queued, active or waiting becomes ABORTED
  with the note of the recovery; the finished runs are unchanged, and no row is lost or added.
\<close>

theorem restart_recovers_runs:
  assumes "distinct (map rn_id (rs_runs (co_store s)))"
    "list_all (\<lambda>r. 0 \<le> rn_progress r \<and> rn_progress r \<le> 1) (rs_runs (co_store s))"
    "coordinator_init s = (x, s')"
  shows "x = Inr () \<and>
    list_all2 (\<lambda>r r'. if unfinished (rn_state r) then recovered r r' else r' = r) (rs_runs (co_store s)) (rs_runs (co_store s')) \<and>
    list_all (\<lambda>r. \<not> unfinished (rn_state r)) (rs_runs (co_store s'))"
  by (rule restart_rows [OF assms])

lemma restart_recovers_runs_witness:
  "fst (coordinator_init (snd (create_run example_gateway ''1f'' (example_request [''a''] True None) None example_coord))) = Inr ()"
proof -
  obtain row s where c: "create_run example_gateway ''1f'' (example_request [''a''] True None) None example_coord = (Inr row, s)"
    using example_created by blast
  have b: "board_services example_gateway" unfolding example_gateway_def by (rule sim.board_services_axioms)
  have n: "new_run ''1f'' (example_request [''a''] True None) (co_store example_coord) (co_store s) row"
    using tripleD_Inr [OF create_run_triple [OF b, of None "''1f''" "co_store example_coord" "co_active example_coord"] _ c]
    by (auto simp: owned_by_def)
  then have "rs_runs (co_store s) = [row]" "of_request (example_request [''a''] True None) row"
    by (simp_all add: new_run_def example_coord_def)
  then show ?thesis using restart_recovers_runs [of s, OF _ _ surjective_pairing] c by (simp add: of_request_def)
qed
section \<open>The identity of an upload\<close>

lemma find_run_update:
  assumes "\<And>r. rn_id (f r) = rn_id r"
  shows "find_run i (st\<lparr>rs_runs := sql_update (\<lambda>r. rn_id r = i) f (rs_runs st)\<rparr>) = map_option f (find_run i st)"
proof -
  have "find (\<lambda>r. rn_id r = i) (sql_update (\<lambda>r. rn_id r = i) f rows) = map_option f (find (\<lambda>r. rn_id r = i) rows)" for rows
    using assms by (induction rows) (simp_all add: sql_update_def)
  then show ?thesis by (simp add: find_run_def)
qed

lemma crc32_range: "0 \<le> crc32 bs" "crc32 bs < 2 ^ 32"
  using and_mask_mod [of "zlib_crc32 bs" 32] by (simp_all add: crc32_def mask_eq_exp_minus_1)

lemma simulation_identity_bounds:
  "simulation_waveform_identity i b = (session, descriptor) \<Longrightarrow> 0 < session \<and> session < 2 ^ 32 \<and> 0 < descriptor \<and> descriptor < 2 ^ 32"
  using crc32_range [of "ascii_bytes (''waveform-session:'' @ i @ '':'' @ b)"]
    crc32_range [of "ascii_bytes (''waveform-descriptor:'' @ i @ '':'' @ b)"]
  unfolding simulation_waveform_identity_def Let_def by (auto simp del: append.simps split: if_splits)

lemma upload_identity_bounds:
  assumes "upload_identity simulation i b outcome = Inr (session, descriptor)"
  shows "0 < session \<and> session < 2 ^ 32 \<and> 0 < descriptor \<and> descriptor < 2 ^ 32"
proof -
  have pos: "0 < v mod 2 ^ 32 \<and> v mod 2 ^ 32 < 2 ^ 32" if "v mod 2 ^ 32 \<noteq> 0" for v :: int
    using that pos_mod_bound [of "2 ^ 32" v] pos_mod_sign [of "2 ^ 32" v] by (simp add: order_less_le)
  show ?thesis
  proof (cases "up_commit outcome")
    case None
    then have "simulation_waveform_identity i b = (session, descriptor)"
      using assms by (simp add: upload_identity_def split: if_splits)
    then show ?thesis by (rule simulation_identity_bounds)
  next
    case (Some c)
    then obtain x y where c: "up_commit outcome = Some (Some x, Some y)"
      using assms by (cases c) (auto simp: upload_identity_def split: option.splits)
    then show ?thesis
      using assms pos [of x] pos [of y] by (auto simp: upload_identity_def guard_raise_def split: if_splits)
  qed
qed

lemma require_run_Inr: "require_run i s = (Inr r, s') \<longleftrightarrow> find_run i (co_store s) = Some r \<and> 0 \<le> rn_progress r \<and> rn_progress r \<le> 1 \<and> s' = s"
  by (auto simp: require_run_def with_store_def rs_require_def rs_get_def run_record_def guard_raise_def prog_defs
      split: option.splits sum.splits if_splits)

lemma set_sessions_Inr:
  assumes "with_store (rs_set_waveform_sessions i sessions) s = (Inr row, s1)"
  shows "rn_waveform_sessions row = (\<lambda>b. map_option (\<lambda>v. v mod 2 ^ 32) (sessions b)) \<and> find_run i (co_store s1) = Some row"
proof -
  let ?f = "\<lambda>now r. r\<lparr>rn_waveform_sessions := (\<lambda>b. map_option (\<lambda>v. v mod 2 ^ 32) (sessions b)), rn_updated_at := now\<rparr>"
  let ?st = "(co_store s)\<lparr>rs_tick := Suc (rs_tick (co_store s))\<rparr>"
  let ?st' = "?st\<lparr>rs_runs := sql_update (\<lambda>r. rn_id r = i) (?f (rs_time (co_store s) (rs_tick (co_store s)))) (rs_runs ?st)\<rparr>"
  have find: "find_run i ?st' = map_option (?f (rs_time (co_store s) (rs_tick (co_store s)))) (find_run i ?st)"
    by (rule find_run_update) simp
  have "rs_set_waveform_sessions i sessions (co_store s) = rs_require i ?st'"
    by (simp add: rs_set_waveform_sessions_def rs_change_def utc_now_def update_runs_def prog_defs)
  then have "rs_require i ?st' = (Inr row, co_store s1)"
    using assms by (auto simp: with_store_def split: prod.splits)
  then have "find_run i ?st' = Some row \<and> co_store s1 = ?st'"
    by (auto simp: rs_require_def rs_get_def run_record_def guard_raise_def prog_defs split: option.splits sum.splits if_splits)
  then have found: "find_run i ?st' = Some row" "co_store s1 = ?st'" by simp_all
  from found(1) obtain z where "row = ?f (rs_time (co_store s) (rs_tick (co_store s))) z" unfolding find by blast
  then show ?thesis using found by simp
qed

text \<open>
  An uploaded waveform has an identity. When the worker has recorded an upload, the run's row holds,
  for the board, exactly the session that COMMIT reported (in the simulation the session derived from the
  run and the board), reduced to 32 bits and never zero; later calls of the coordinator use it.
\<close>

lemma uploaded_session_identity:
  assumes "\<And>b session descriptor. quiet (gw_register gw b session descriptor)" "record_waveform_session gw i b outcome s = (Inr row, s')"
  shows "find_run i (co_store s') = Some row \<and>
    (case upload_identity (gw_simulation gw) i b outcome of
       Inl e \<Rightarrow> False
     | Inr (session, descriptor) \<Rightarrow>
         0 < session \<and> session < 2 ^ 32 \<and> 0 < descriptor \<and> descriptor < 2 ^ 32 \<and>
         rn_waveform_sessions row b = Some session \<and>
         waveform_session row b = (if b \<in> set (rn_board_ids row) then Inr session else Inl RuntimeError))"
proof -
  obtain r where r: "require_run i s = (Inr r, s)"
    using assms(2) by (auto simp: record_waveform_session_def pbind_eq_Inr require_run_Inr)
  obtain session descriptor where id: "upload_identity (gw_simulation gw) i b outcome = Inr (session, descriptor)"
    using assms(2) by (auto simp: record_waveform_session_def pbind_eq_Inr plift_eq_Inr)
  note bounds = upload_identity_bounds [OF id]
  obtain s1 where set: "with_store (rs_set_waveform_sessions i ((rn_waveform_sessions r)(b \<mapsto> session))) s = (Inr row, s1)"
    and reg: "(if gw_simulation gw then gw_register gw b session descriptor else pret ()) s1 = (Inr (), s')"
    using assms(2) r id
    by (auto simp: record_waveform_session_def pbind_eq_Inr pthen_eq_Inr plift_eq_Inr praise_if_def split: if_splits)
  have "quiet (if gw_simulation gw then gw_register gw b session descriptor else pret ())"
    by (intro quiet_rules assms(1))
  from quietD [OF this, of s1] reg have "co_store s' = co_store s1" by simp
  then show ?thesis
    using set_sessions_Inr [OF set] bounds unfolding id by (simp add: waveform_session_def guard_raise_def)
qed

lemma uploaded_session_identity_witness:
  "case record_waveform_session (example_gateway\<lparr>gw_simulation := False\<rparr>) ''1f'' ''a''
       \<lparr>up_commit = Some (Some (2 ^ 32 + 7), Some 9), up_log_lines = []\<rparr>
       (snd (create_run example_gateway ''1f'' (example_request [''a''] False None) None example_coord)) of
     (Inr row, s') \<Rightarrow> rn_waveform_sessions row ''a'' = Some 7 | _ \<Rightarrow> False"
proof -
  let ?gw = "example_gateway\<lparr>gw_simulation := False\<rparr>"
  let ?outcome = "\<lparr>up_commit = Some (Some (2 ^ 32 + 7), Some 9), up_log_lines = []\<rparr>"
  let ?s = "snd (create_run example_gateway ''1f'' (example_request [''a''] False None) None example_coord)"
  have q: "quiet (gw_register ?gw b session descriptor)" for b session descriptor
    by (simp add: example_gateway_def sim_gateway_def quiet_rules)
  have "\<exists>row s'. record_waveform_session ?gw ''1f'' ''a'' ?outcome ?s = (Inr row, s')"
    by (simp add: record_waveform_session_def upload_identity_def guard_raise_def sql_update_def rs_set_waveform_sessions_def
        create_run_def example_gateway_def sim_gateway_def example_coord_def example_request_def rq_board_ids_def
        example_waveform_def run_defs)
  then obtain row s' where r: "record_waveform_session ?gw ''1f'' ''a'' ?outcome ?s = (Inr row, s')" by blast
  from uploaded_session_identity [OF q r] show ?thesis
    unfolding r by (simp add: upload_identity_def guard_raise_def example_gateway_def sim_gateway_def)
qed

section \<open>A loaded waveform can be played once\<close>

datatype sim_call =
  CallRefresh | CallMark board_state | CallArm int | CallTrigger int | CallMute int | CallAbort int | CallRfdc "channel_config list" int int

definition sim_call :: "string \<times> sim_call \<Rightarrow> (sim_boards, unit) prog" where
  "sim_call c = (case c of (b, call) \<Rightarrow> (case call of
       CallRefresh \<Rightarrow> pbind (sim_refresh b) (\<lambda>_. pret ())
     | CallMark st \<Rightarrow> sim_mark_state b st
     | CallArm session \<Rightarrow> sim_arm b session
     | CallTrigger session \<Rightarrow> sim_manual_trigger b session
     | CallMute session \<Rightarrow> sim_mute b session
     | CallAbort session \<Rightarrow> sim_board_abort b session
     | CallRfdc channels revision channel_mask \<Rightarrow> pbind (sim_rfdc_apply b channels revision channel_mask) (\<lambda>_. pret ())))"

text \<open>The board holds no waveform that waits for its trigger.\<close>

definition spent :: "string \<Rightarrow> sim_boards \<Rightarrow> bool" where
  "spent b g = (case sim_waveform_of b g of None \<Rightarrow> True | Some w \<Rightarrow> sw_state w \<notin> {WS_PREFETCH, WS_WAIT_TRIGGER})"

lemma spent_boards: "sg_boards g' = sg_boards g \<Longrightarrow> spent b g' = spent b g"
  by (simp add: spent_def sim_waveform_of_def)

lemma keeps_spent_boards: "(\<And>g. sg_boards (snd (m g)) = sg_boards g) \<Longrightarrow> keeps (spent b) m"
  by (rule keepsI) (metis spent_boards)

lemma spent_profile: "keeps (spent b) (sim_profile c)"
  by (rule keeps_spent_boards) (auto simp: sim_profile_def sync_statuses_def prog_defs split: option.splits)

lemma spent_status: "keeps (spent b) (set_board_status c f)"
  by (rule keeps_spent_boards) (auto simp: set_board_status_def prog_defs split: option.splits)

lemma spent_wave_status: "keeps (spent b) (set_waveform_status c answer)"
  unfolding set_waveform_status_def by (intro keeps_rules spent_status)

lemma spent_own: "keeps (spent b) (own_waveform c session)"
  unfolding own_waveform_def by (intro keeps_rules spent_profile)

lemma spent_put: "sw_state w \<notin> {WS_PREFETCH, WS_WAIT_TRIGGER} \<Longrightarrow> keeps (spent b) (put_waveform c (Some w))"
  "keeps (spent b) (put_waveform c None)"
  by (auto simp: keeps_def put_waveform_def spent_def sim_waveform_of_def split: option.splits)

lemma spent_rfdc: "keeps (spent b) (sim_rfdc_apply c channels revision channel_mask)"
proof -
  have "spent b g \<Longrightarrow> spent b (g\<lparr>sg_boards := (sg_boards g)(c \<mapsto> \<lparr>sb_waveform = None, sb_rfdc = a\<rparr>)\<rparr>)" for g a
    by (auto simp: spent_def sim_waveform_of_def)
  then show ?thesis
    unfolding sim_rfdc_apply_def Let_def by (intro keeps_rules spent_profile spent_status)
qed

lemma spent_call: "keeps (spent b) (sim_call c)"
proof (cases c)
  case (Pair d call)
  show ?thesis
  proof (cases call)
    case CallRefresh
    show ?thesis
      unfolding Pair CallRefresh sim_call_def sim_refresh_def Let_def prod.case sim_call.case
      by (intro keeps_rules spent_profile spent_status)
  next
    case (CallMark st)
    show ?thesis unfolding Pair CallMark sim_call_def sim_mark_state_def prod.case sim_call.case by (intro keeps_rules spent_status)
  next
    case (CallArm session)
    show ?thesis
      unfolding Pair CallArm sim_call_def sim_arm_def prod.case sim_call.case by (intro keeps_rules spent_own spent_wave_status)
  next
    case (CallTrigger session)
    show ?thesis
      unfolding Pair CallTrigger sim_call_def sim_manual_trigger_def Let_def prod.case sim_call.case
      by (intro keeps_rules spent_own spent_wave_status spent_put) simp
  next
    case (CallMute session)
    show ?thesis
      unfolding Pair CallMute sim_call_def sim_mute_def Let_def prod.case sim_call.case
      by (intro keeps_rules spent_own spent_wave_status spent_put) simp
  next
    case (CallAbort session)
    show ?thesis
      unfolding Pair CallAbort sim_call_def sim_board_abort_def prod.case sim_call.case
      by (intro keeps_rules spent_profile spent_status spent_put)
  next
    case (CallRfdc channels revision channel_mask)
    show ?thesis unfolding Pair CallRfdc sim_call_def prod.case sim_call.case by (intro keeps_rules spent_rfdc)
  qed
qed

lemma own_waveform_Inr:
  "own_waveform b session g = (Inr w, g') \<Longrightarrow> sim_waveform_of b g' = Some w \<and> sim_waveform_of b g = Some w"
  by (auto simp: own_waveform_def sim_profile_def sync_statuses_def sim_waveform_of_def prog_defs
      split: option.splits if_splits sum.splits)

lemma spent_refuses:
  assumes "spent b g"
  shows "\<exists>e. fst (sim_arm b session g) = Inl e" "\<exists>e. fst (sim_manual_trigger b session g) = Inl e"
proof -
  have "sw_state w \<noteq> WS_WAIT_TRIGGER \<and> sw_state w \<noteq> WS_PREFETCH" if "own_waveform b session g = (Inr w, g')" for w g'
    using own_waveform_Inr [OF that] assms by (simp add: spent_def)
  then show "\<exists>e. fst (sim_arm b session g) = Inl e" "\<exists>e. fst (sim_manual_trigger b session g) = Inl e"
    by (cases "own_waveform b session g"; cases "fst (own_waveform b session g)";
        auto simp: sim_arm_def sim_manual_trigger_def prog_defs Let_def)+
qed

lemma wave_status_keeps_boards: "sg_boards (snd (set_waveform_status b answer g)) = sg_boards g"
  by (auto simp: set_waveform_status_def set_board_status_def prog_defs split: option.splits sum.splits)

lemma trigger_spends:
  assumes "sim_manual_trigger b session g = (Inr (), g')"
  shows "spent b g'"
proof -
  obtain w g1 where "own_waveform b session g = (Inr w, g1)"
    using assms by (auto simp: sim_manual_trigger_def pbind_eq_Inr)
  moreover define w' where "w' = w\<lparr>sw_state := WS_PLAYING, sw_trigger_fire_count := sw_trigger_fire_count w + 1\<rparr>"
  ultimately have "g' = snd (set_waveform_status b (sim_answer w' (sw_trigger_fire_count w')) (snd (put_waveform b (Some w') g1)))"
    using assms by (auto simp: sim_manual_trigger_def pbind_eq_Inr pthen_eq_Inr praise_if_def Let_def split: if_splits)
  then have "sg_boards g' = sg_boards (snd (put_waveform b (Some w') g1))" by (simp add: wave_status_keeps_boards)
  then have "spent b g' = spent b (snd (put_waveform b (Some w') g1))" by (rule spent_boards)
  then show ?thesis by (simp add: w'_def spent_def sim_waveform_of_def put_waveform_def)
qed



end
