(* ===== verification/Run_Leases.thy ===== *)
theory Run_Leases
  imports Run_Theorems
begin

text \<open>
  Who may run and play on a board: what the routes check before they call the coordinator, and two
  places where the check is missing.
\<close>

section \<open>Routes that leave everything alone\<close>

definition untouched :: "'g app \<Rightarrow> 'g app \<Rightarrow> bool" where
  "untouched s s' \<longleftrightarrow> ap_mgmt s' = ap_mgmt s \<and> co_store (ap_coord s') = co_store (ap_coord s) \<and>
     co_active (ap_coord s') = co_active (ap_coord s) \<and> co_threads (ap_coord s') = co_threads (ap_coord s)"

definition looks :: "('g app, 'a) prog \<Rightarrow> bool" where
  "looks m \<longleftrightarrow> (\<forall>s. untouched s (snd (m s)))"

named_theorems looks_rules "programs that leave the stores and the owners of boards alone"

lemma untouched_refl [simp]: "untouched s s" by (simp add: untouched_def)

lemma untouched_trans: "untouched s t \<Longrightarrow> untouched t u \<Longrightarrow> untouched s u" by (simp add: untouched_def)

lemma looks_basic [looks_rules]:
  "looks (pret x)" "looks (praise e)" "looks (plift r)" "looks (praise_if b e)"
  by (simp_all add: looks_def prog_defs)

lemma looks_pbind [looks_rules]: "looks m \<Longrightarrow> (\<And>x. looks (f x)) \<Longrightarrow> looks (pbind m f)"
  unfolding looks_def pbind_def by (auto split: prod.splits sum.splits) (metis snd_conv untouched_trans)+

lemma looks_pthen [looks_rules]: "looks m \<Longrightarrow> looks n \<Longrightarrow> looks (pthen m n)"
  unfolding pthen_def by (rule looks_pbind)

lemma looks_pfor [looks_rules]: "(\<And>x. looks (body x)) \<Longrightarrow> looks (pfor xs body)"
  by (induction xs) (auto intro!: looks_rules)

lemma looks_split [looks_rules]:
  "looks m \<Longrightarrow> looks n \<Longrightarrow> looks (if b then m else n)"
  "looks n \<Longrightarrow> (\<And>x. looks (g x)) \<Longrightarrow> looks (case opt of None \<Rightarrow> n | Some x \<Rightarrow> g x)"
  "looks n \<Longrightarrow> (\<And>x xs. looks (h x xs)) \<Longrightarrow> looks (case l of [] \<Rightarrow> n | x # xs \<Rightarrow> h x xs)"
  by (auto split: option.split list.split)

lemma looks_coord [looks_rules]: "quiet m \<Longrightarrow> looks (with_coord m)"
  by (auto simp: looks_def untouched_def with_coord_def quiet_def split: prod.splits) (metis snd_conv)+

lemma looks_mgmt: "(\<And>t. snd (m t) = t) \<Longrightarrow> looks (with_mgmt m)"
  by (auto simp: looks_def untouched_def with_mgmt_def split: prod.splits) (metis snd_conv)

lemma get_board_reads: "snd (get_board b t) = t"
  by (auto simp: get_board_def prog_defs transaction_def split: option.splits)

lemma require_lease_reads: "snd (require_lease user b t) = t"
  by (auto simp: require_lease_def active_lease_def prog_defs transaction_def split: option.splits sum.splits)

lemma can_manage_reads: "snd (can_manage_run i user t) = t"
  by (auto simp: can_manage_run_def prog_defs transaction_def)

lemmas looks_store [looks_rules] = looks_mgmt [OF get_board_reads] looks_mgmt [OF require_lease_reads] looks_mgmt [OF can_manage_reads]

lemma looksD: "looks m \<Longrightarrow> m s = (x, s') \<Longrightarrow> untouched s s'"
  unfolding looks_def by (metis snd_conv)

text \<open>The check of one lease.\<close>

lemma lease_check:
  assumes "store_wf (ap_mgmt s)"
  shows "with_mgmt (require_lease user b) s =
    (if lease_owner (ap_mgmt s) b = Some (ur_id user) then Inr () else Inl LeasePermissionError, s)"
  using require_lease_owner [OF assms, of user b] require_lease_reads [of user b "ap_mgmt s"]
  by (cases "require_lease user b (ap_mgmt s)") (simp add: with_mgmt_def)

lemma pfor_passes:
  assumes "pfor xs body s = (Inr (), s')" "\<And>x. looks (body x)" "x \<in> set xs"
  shows "\<exists>s1 s2. untouched s s1 \<and> body x s1 = (Inr (), s2)"
  using assms(1,3)
proof (induction xs arbitrary: s)
  case (Cons y ys)
  then obtain s1 where y: "body y s = (Inr (), s1)" "pfor ys body s1 = (Inr (), s')" by (auto simp: pthen_eq_Inr)
  show ?case
  proof (cases "x = y")
    case True
    then show ?thesis using y(1) untouched_refl by blast
  next
    case False
    then obtain t1 t2 where "untouched s1 t1" "body x t1 = (Inr (), t2)"
      using Cons.IH [OF y(2)] Cons.prems(2) by auto
    then show ?thesis using looksD [OF assms(2) y(1)] untouched_trans by blast
  qed
qed simp

section \<open>Live runs need the leases\<close>

lemma validate_run_request_Inr:
  "validate_run_request q = Inr request \<longleftrightarrow> validate_run_request q = Inr q \<and> request = q"
  by (auto simp: validate_run_request_def guard_raise_def Let_def split: if_splits)

lemma validate_run_request_shape:
  assumes "validate_run_request q = Inr q"
  shows "(rq_execution_mode q = ''single'' \<and> (\<exists>job. rq_jobs q = [job])) \<or>
    (rq_execution_mode q = ''synchronized'' \<and> length (rq_jobs q) = 2)"
  using assms by (auto simp: validate_run_request_def guard_raise_def length_Suc_conv split: if_splits)

lemma ready_looks:
  assumes "\<And>b. quiet (wb_status web b)"
  shows "looks (require_live_board_ready web b)"
  unfolding require_live_board_ready_def by (intro looks_rules assms)

lemma live_checks_looks:
  assumes "board_services (wb_gateway web)" "\<And>b. quiet (wb_status web b)"
  shows "looks (live_checks web user q)"
proof -
  have "quiet (pmap (\<lambda>job. gw_profile (wb_gateway web) (jb_board_id job)) jobs)" for jobs
    by (induction jobs) (auto intro!: quiet_rules board_services.profile_quiet [OF assms(1)] simp del: pret_apply)
  then show ?thesis unfolding live_checks_def by (intro looks_rules ready_looks assms(2))
qed

lemma live_checks_leases:
  assumes "store_wf (ap_mgmt s)" "board_services (wb_gateway web)" "\<And>b. quiet (wb_status web b)"
    "validate_run_request q = Inr q" "live_checks web user q s = (Inr p, s')" "b \<in> set (rq_board_ids q)"
  shows "lease_owner (ap_mgmt s) b = Some (ur_id user)"
proof -
  have leased: "lease_owner (ap_mgmt s) (jb_board_id job) = Some (ur_id user)"
    if "untouched s t" "with_mgmt (require_lease user (jb_board_id job)) t = (Inr u, t')" for t t' u job
    using that assms(1) lease_check [of t user "jb_board_id job"] by (auto simp: untouched_def split: if_splits)
  from validate_run_request_shape [OF assms(4)] show ?thesis
  proof (elim disjE conjE exE)
    fix job assume job: "rq_jobs q = [job]" "rq_execution_mode q = ''single''"
    then obtain t u where "with_mgmt (require_lease user (jb_board_id job)) s = (Inr u, t)"
      using assms(5) by (auto simp: live_checks_def pthen_eq_Inr)
    from leased [OF untouched_refl this] show ?thesis using assms(6) job by (simp add: rq_board_ids_def)
  next
    assume two: "rq_execution_mode q = ''synchronized''" "length (rq_jobs q) = 2"
    let ?body = "\<lambda>job. pthen (with_mgmt (require_lease user (jb_board_id job))) (require_live_board_ready web (jb_board_id job))"
    let ?profiles = "with_coord (pmap (\<lambda>job. gw_profile (wb_gateway web) (jb_board_id job)) (rq_jobs q))"
    have "quiet (pmap (\<lambda>job. gw_profile (wb_gateway web) (jb_board_id job)) jobs)" for jobs
      by (induction jobs) (auto intro!: quiet_rules board_services.profile_quiet [OF assms(2)] simp del: pret_apply)
    then have looks: "looks ?profiles" by (rule looks_coord)
    obtain ps t t' where t: "?profiles s = (Inr ps, t)" "pfor (rq_jobs q) ?body t = (Inr (), t')"
      using assms(5) two by (auto simp: live_checks_def pbind_eq_Inr pthen_eq_Inr praise_if_def split: if_splits)
    obtain job where job: "job \<in> set (rq_jobs q)" "b = jb_board_id job" using assms(6) by (auto simp: rq_board_ids_def)
    have "looks (?body job)" for job by (intro looks_rules ready_looks assms(3))
    from pfor_passes [OF t(2) this job(1)] obtain t1 t2 where t1: "untouched t t1" "?body job t1 = (Inr (), t2)" by blast
    then obtain u t3 where "with_mgmt (require_lease user (jb_board_id job)) t1 = (Inr u, t3)" by (auto simp: pthen_eq_Inr)
    from leased [OF untouched_trans [OF looksD [OF looks t(1)] t1(1)] this] show ?thesis by (simp add: job(2))
  qed
qed

text \<open>
  C21. A live run needs the lease of every board. A request that is not a dry run and names a board the user
  does not hold is refused, whatever the boards answer, and nothing happens: the database, the runs, the
  owners of the boards and the workers are as before.
\<close>

theorem live_run_needs_lease:
  assumes "store_wf (ap_mgmt s)" "board_services (wb_gateway web)" "\<And>b. quiet (wb_status web b)"
    "\<not> rq_dry_run q" "b \<in> set (rq_board_ids q)" "lease_owner (ap_mgmt s) b \<noteq> Some (ur_id user)"
    "web_create_run web now user run_id q s = (x, s')"
  shows "(\<exists>e. x = Inl e) \<and> untouched s s'"
proof (cases "validate_run_request q")
  case (Inl e)
  then show ?thesis using assms(7) by (auto simp: web_create_run_def prog_defs)
next
  case (Inr request)
  then have q: "validate_run_request q = Inr q" "request = q" using validate_run_request_Inr [of q request] by simp_all
  obtain y t where y: "live_checks web user q s = (y, t)" by fastforce
  have "\<exists>e. y = Inl e" using live_checks_leases [OF assms(1-3) q(1) _ assms(5)] assms(6) y by (cases y) auto
  moreover have "untouched s t" using looksD [OF live_checks_looks [OF assms(2,3)] y] .
  ultimately show ?thesis using assms(4,7) q y by (auto simp: web_create_run_def prog_defs)
qed
definition example_web :: "sim_boards web" where
  "example_web = \<lparr>wb_gateway = example_gateway, wb_status = (\<lambda>_. praise KeyError), wb_rfdc_apply = (\<lambda>_ _. pret ())\<rparr>"

definition example_app :: "store \<Rightarrow> sim_boards app" where
  "example_app t = \<lparr>ap_mgmt = t, ap_coord = example_coord\<rparr>"

lemma example_gateway_services: "board_services example_gateway"
  unfolding example_gateway_def by (rule sim.board_services_axioms)

lemma live_run_needs_lease_witness:
  "\<exists>e. fst (web_create_run example_web ''t'' (example_user 1) ''1f'' (example_request [''fpga-a''] False None) (example_app board_store)) = Inl e"
proof -
  have "board_services (wb_gateway example_web)" "quiet (wb_status example_web b)" for b
    using example_gateway_services quiet_basic(2) by (simp_all add: example_web_def del: praise_apply)
  from live_run_needs_lease [OF _ this _ _ _ surjective_pairing, of "example_app board_store" "example_request [''fpga-a''] False None" "''fpga-a''"]
  show ?thesis
    using store_reachable_wf [OF board_store_reachable] board_store_members(4)
    by (simp add: example_app_def example_request_def rq_board_ids_def)
qed

section \<open>Playback needs the leases, but not of all boards\<close>

lemma get_run:
  "find_run run_id (co_store (ap_coord s)) = Some r \<Longrightarrow> 0 \<le> rn_progress r \<Longrightarrow> rn_progress r \<le> 1 \<Longrightarrow> web_get_run run_id s = (Inr r, s)"
  by (simp add: web_get_run_def with_coord_def with_store_def rs_require_def rs_get_def run_record_def guard_raise_def prog_defs)

lemma manage_check:
  "with_mgmt (can_manage_run i user) s = (fst (can_manage_run i user (ap_mgmt s)), s)"
  using can_manage_reads [of i user "ap_mgmt s"] by (cases "can_manage_run i user (ap_mgmt s)") (simp add: with_mgmt_def)

lemma leases_check:
  assumes "store_wf (ap_mgmt s)"
  shows "pfor bs (\<lambda>b. with_mgmt (require_lease user b)) s =
    (if \<forall>b \<in> set bs. lease_owner (ap_mgmt s) b = Some (ur_id user) then Inr () else Inl LeasePermissionError, s)"
  by (induction bs) (simp_all add: lease_check [OF assms] pthen_def pbind_def)

lemma control_check:
  assumes "store_wf (ap_mgmt s)" "fst (can_manage_run (rn_id r) user (ap_mgmt s)) = Inr True" "\<not> rn_dry_run r"
  shows "check_run_control r user s =
    (if \<forall>b \<in> set (rn_board_ids r). lease_owner (ap_mgmt s) b = Some (ur_id user) then Inr () else Inl LeasePermissionError, s)"
  using assms by (simp add: check_run_control_def manage_check leases_check pbind_def pthen_def)

text \<open>
  C35. Playing a loaded waveform is refused, with nothing changed, unless its user holds the lease of every
  board of the run. The routes that arm, start and abort a run check the lease of its first board only: with it, and
  without the lease of another board of the run, they go on to the coordinator, which acts on all of them.
\<close>

theorem run_action_checks_one_board:
  assumes "store_wf (ap_mgmt s)" "find_run run_id (co_store (ap_coord s)) = Some r" "0 \<le> rn_progress r" "rn_progress r \<le> 1"
    "\<not> rn_dry_run r" "fst (can_manage_run run_id user (ap_mgmt s)) = Inr True" "rn_board_ids r = a # bs"
    "lease_owner (ap_mgmt s) a = Some (ur_id user)" "b \<in> set bs" "lease_owner (ap_mgmt s) b \<noteq> Some (ur_id user)"
  shows "web_play_run web user run_id s = (Inl LeasePermissionError, s) \<and>
    run_action web user run_id action s =
      with_coord (case action of ArmAction \<Rightarrow> arm_run (wb_gateway web) run_id | TriggerAction \<Rightarrow> start_run (wb_gateway web) run_id
                  | AbortAction \<Rightarrow> abort_run (wb_gateway web) run_id) s"
proof -
  have id: "rn_id r = run_id" using assms(2) by (auto simp: find_run_def dest: find_SomeD)
  have "check_run_control r user s = (Inl LeasePermissionError, s)"
    using control_check [of s r user] assms id by (auto split: if_splits)
  then have "web_play_run web user run_id s = (Inl LeasePermissionError, s)"
    by (simp add: web_play_run_def get_run [OF assms(2-4)] pbind_def pthen_def)
  moreover have "run_action web user run_id action s =
      with_coord (case action of ArmAction \<Rightarrow> arm_run (wb_gateway web) run_id | TriggerAction \<Rightarrow> start_run (wb_gateway web) run_id
                  | AbortAction \<Rightarrow> abort_run (wb_gateway web) run_id) s"
    using assms(5-8) lease_check [OF assms(1), of user a]
    by (simp add: run_action_def get_run [OF assms(2-4)] manage_check pbind_def pthen_def)
  ultimately show ?thesis ..
qed

text \<open>A database in which the first of two boards is leased by its first user.\<close>

definition leased_store :: store where
  "leased_store = snd (lease_board ''t'' ''fpga-a'' (example_user 1) board_store)"

lemma leased_store_facts: "store_wf leased_store" "lease_owner leased_store ''fpga-a'' = Some 1" "lease_owner leased_store ''b'' = None"
proof -
  have "store_reachable leased_store"
    unfolding leased_store_def by (rule store_reachable.step [OF board_store_reachable store_step.lease])
  then show "store_wf leased_store" by (rule store_reachable_wf)
  have "lease_owner leased_store = (lease_owner board_store)(''fpga-a'' \<mapsto> 1)"
    unfolding leased_store_def
    using lease_board_owner [OF store_reachable_wf [OF board_store_reachable], of "''t''" "''fpga-a''" "example_user 1"] board_store_members
    by (simp add: example_user_def)
  then show "lease_owner leased_store ''fpga-a'' = Some 1" "lease_owner leased_store ''b'' = None" by (simp_all add: board_store_members)
qed

definition two_board_run :: run_row where
  "two_board_run = \<lparr>rn_id = ''1f'', rn_name = ''w'', rn_state = Run_RUNNING, rn_dry_run = False, rn_board_ids = [''fpga-a'', ''b''],
     rn_start_mode = ''trigger'', rn_execution_mode = ''synchronized'', rn_completion_mode = ''upload'', rn_playback_mode = ''single'',
     rn_created_at = ''t'', rn_updated_at = ''t'', rn_artifact_dir = ''d'', rn_progress = 1, rn_error = [],
     rn_request = example_request [''fpga-a'', ''b''] False None, rn_loaded = True,
     rn_waveform_sessions = [''fpga-a'' \<mapsto> 7, ''b'' \<mapsto> 8]\<rparr>"

lemma run_action_checks_one_board_witness:
  "\<exists>s. web_play_run example_web (example_user 1\<lparr>ur_role := ADMIN\<rparr>) ''1f'' s = (Inl LeasePermissionError, s) \<and>
     run_action example_web (example_user 1\<lparr>ur_role := ADMIN\<rparr>) ''1f'' AbortAction s = with_coord (abort_run example_gateway ''1f'') s"
proof -
  let ?s = "(example_app leased_store)\<lparr>ap_coord := example_coord\<lparr>co_store := (co_store example_coord)\<lparr>rs_runs := [two_board_run]\<rparr>\<rparr>\<rparr>"
  let ?user = "example_user 1\<lparr>ur_role := ADMIN\<rparr>"
  have "find_run ''1f'' (co_store (ap_coord ?s)) = Some two_board_run" by (simp add: find_run_def two_board_run_def)
  from run_action_checks_one_board [OF _ this, of ?user "''fpga-a''" "[''b'']" "''b''" example_web AbortAction]
  have "web_play_run example_web ?user ''1f'' ?s = (Inl LeasePermissionError, ?s) \<and>
     run_action example_web ?user ''1f'' AbortAction ?s = with_coord (abort_run example_gateway ''1f'') ?s"
    by (simp add: example_app_def two_board_run_def leased_store_facts can_manage_run_def example_user_def example_web_def prog_defs)
  then show ?thesis by blast
qed

section \<open>A dry run configures the board\<close>

lemma keeps_coord_mgmt: "keeps (\<lambda>s. ap_coord s = c) (with_mgmt m)"
  by (simp add: keeps_def with_mgmt_def split: prod.split)

lemma example_mask:
  "channel_mask_for_job \<lparr>jb_board_id = b, jb_waveform = example_waveform, jb_override = None, jb_rfdc_config = c\<rparr> = Inr 255"
  by (simp add: channel_mask_for_job_def channel_on_def mode_channels_def example_waveform_def guard_raise_def push_bit_eq_mult)

lemma fl_finite:
  assumes "of_int a \<le> x" "x \<le> of_int b" "- (2 ^ 52) < a" "b < 2 ^ 52"
  shows "\<exists>r. fl x = Fin r \<and> of_int a \<le> r \<and> r \<le> of_int b"
  using fl_bounds [OF assms] by blast

text \<open>A valid configuration is accepted by the simulated converter.\<close>

lemma sim_channel_valid:
  assumes "channel_config_valid c"
  shows "\<exists>a. sim_channel c = Inr a"
proof -
  have p: "\<bar>rfc_phase_deg c\<bar> \<le> 3600" and m: "9/4 \<le> rfc_current_ma c" "rfc_current_ma c \<le> 81/2"
    using assms by (simp_all add: channel_config_valid_def)
  have phase: "\<exists>n. normalize_rfdc_phase_mdeg (NFloat (Fin (rfc_phase_deg c))) = Inr n"
  proof -
    obtain r where r: "fl (rfc_phase_deg c + 180) = Fin r"
      using fl_finite [of "- 3420" "rfc_phase_deg c + 180" 3780] p by (auto simp: abs_le_iff)
    obtain t where t: "fmodc (Fin r) 360 = Fin t" "0 \<le> t" "t \<le> 360" proof (rule fmodc_bounds [of 360 "Fin r"])
      assume "fmodc (Fin r) (of_int 360) = NaN"
      then show thesis by (auto simp: fl_def Let_def split: if_splits)
    qed auto
    obtain u where u: "fl (t - 180) = Fin u" "- 180 \<le> u" "u \<le> 180" using fl_finite [of "- 180" "t - 180" 180] t by auto
    obtain v where "fl (u * 1000) = Fin v" using fl_finite [of "- 180000" "u * 1000" 180000] u by auto
    then show ?thesis using r t u by (simp add: normalize_rfdc_phase_mdeg_def fsub_def del: fmodc.simps)
  qed
  obtain x where x: "fl (rfc_current_ma c * 1000) = Fin x" "2250 \<le> x" "x \<le> 40500"
    using fl_finite [of 2250 "rfc_current_ma c * 1000" 40500] m by auto
  obtain y where y: "fl (x - 1400) = Fin y" "850 \<le> y" "y \<le> 39100" using fl_finite [of 850 "x - 1400" 39100] x by auto
  obtain z where z: "fl (y / (175/4)) = Fin z" "19 \<le> z" "z \<le> 894"
    using fl_finite [of 19 "y / (175/4)" 894] y by (auto simp: field_simps)
  define vop where "vop = max 0 (trunc z)"
  have vop: "0 \<le> vop" "vop \<le> 894" using z by (auto simp: vop_def trunc_def floor_le_iff)
  then have "fl (of_int vop) = Fin (of_int vop)" by (intro fl_int) simp
  moreover obtain w where w: "fl (of_int vop * (175/4)) = Fin w" "0 \<le> w" "w \<le> 40000"
    using fl_finite [of 0 "of_int vop * (175/4)" 40000] vop by auto
  moreover obtain v where "fl (1400 + w) = Fin v" using fl_finite [of 1400 "1400 + w" 41400] w by auto
  ultimately show ?thesis using phase x y z
    by (auto simp: sim_channel_def fsub_def vop_def [symmetric] Let_def)
qed

lemma sim_answers_valid:
  assumes "eight_channels channels"
  shows "\<exists>answers. emap (sim_answer_channel previous channel_mask) (sort_key rfc_channel channels) = Inr answers"
proof -
  have "\<exists>answers. emap (sim_answer_channel previous channel_mask) cs = Inr answers" if "list_all channel_config_valid cs" for cs
    using that by (induction cs) (auto simp: sim_answer_channel_def dest: sim_channel_valid)
  then show ?thesis using assms by (simp add: eight_channels_def list_all_iff)
qed

lemma dry_run_executed:
  assumes "rfdc_request_valid config"
  shows "case execute example_gateway ''1f'' (snd (create_run example_gateway ''1f'' (example_request [''a''] True (Some config)) None example_coord)) of
     (x, s') \<Rightarrow> x = Inr () \<and> map_option ra_revision (Option.bind (sg_boards (co_boards s') ''a'') sb_rfdc) = Some (rr_revision config)"
proof -
  obtain answers where "emap (sim_answer_channel [] 255) (sort_key rfc_channel (rr_channels config)) = Inr answers"
    using sim_answers_valid [of "rr_channels config" "[]" 255] assms by (auto simp: rfdc_request_valid_def)
  moreover have "sort_key rfc_channel (sort_key rfc_channel (rr_channels config)) = sort_key rfc_channel (rr_channels config)"
    by (rule sort_key_id_if_sorted) simp
  ultimately show ?thesis
  using example_request_valid(1) [of "Some config" True] assms
  by (simp add: execute_def execute_body_def apply_job_rfdc_def example_mask sim_rfdc_apply_def set_board_status_def RF2_OK_def
      execute_job_def last_lines_def finish_run_def sql_update_def
      create_run_def example_gateway_def sim_gateway_def example_coord_def example_request_def rq_board_ids_def run_defs)
qed


definition example_channel :: "int \<Rightarrow> channel_config" where
  "example_channel c = \<lparr>rfc_channel = c, rfc_current_ma = 20, rfc_target_hz = 0, rfc_nco_hz = 0, rfc_zone = 1, rfc_data = (0, 1/2, 0),
     rfc_phase_deg = 0, rfc_calibration_deg = 0, rfc_actual = None\<rparr>"


end
