(* ===== verification/Rfdc_Service.thy ===== *)
theory Rfdc_Service
  imports Run_Leases Device_Rfdc
begin

text \<open>
  The RFDC configuration service of the web application (\<open>webapp/rfdc.py\<close>): the stored configuration of
  a board, the calibrations added to it, and its application to the hardware. The answers of the boards, the
  JSON text of a configuration and the texts of errors are parameters; one reading of the clock serves a call.
\<close>

section \<open>Configurations\<close>

record rfdc_body =
  rb_channels :: "channel_config list"
  rb_requested_mask :: int
  rb_applied_mask :: int
  rb_error_mask :: int
  rb_valid_mask :: int
  rb_failure_stage :: int
  rb_failure_address :: int
  rb_axi_response :: int

type_synonym board_rfdc = "rfdc_body stored_rfdc"

record 'g rfdc_env =
  re_status :: "string \<Rightarrow> ('g coord, live_status) prog"
  re_get_config :: "string \<Rightarrow> ('g coord, rfdc_answer option) prog"
  re_apply :: "string \<Rightarrow> channel_config list \<Rightarrow> int \<Rightarrow> int \<Rightarrow> ('g coord, rfdc_answer) prog"
  re_dump :: "board_rfdc \<Rightarrow> string"
  re_parse :: "string \<Rightarrow> board_rfdc result"
  re_text :: "pyerror \<Rightarrow> string"
  re_answer_text :: "rfdc_answer \<Rightarrow> string"

definition default_targets :: "(int \<times> rat) list" where
  "default_targets = [(1, 4500000000), (2, 4500000000), (3, 4500000000), (4, 4500000000), (5, 0), (6, 0),
     (7, 5800000000), (8, 6200000000)]"

text \<open>A channel with the default values of the model but for what is planned.\<close>

definition planned_channel :: "int \<Rightarrow> rat \<Rightarrow> rat \<Rightarrow> int \<Rightarrow> channel_config" where
  "planned_channel channel target nco_hz zone =
     \<lparr>rfc_channel = channel, rfc_current_ma = 20, rfc_target_hz = target, rfc_nco_hz = nco_hz, rfc_zone = zone,
      rfc_data = (0, 1/2, 0), rfc_phase_deg = 0, rfc_calibration_deg = 0, rfc_actual = None\<rparr>"

definition default_channel :: "int \<times> rat \<Rightarrow> channel_config result" where
  "default_channel ct =
     (case ct of (channel, target) \<Rightarrow>
      ebind (rfdc_nco_plan_for_target (NFloat (fdivc (Fin target) 1000000000)) (NFloat (fl (64/10)))) (\<lambda>plan.
      case fscale (np_nco plan) 1000000000 of
        Fin nco_hz \<Rightarrow>
          Inr (planned_channel channel target nco_hz (np_zone plan))
      | _ \<Rightarrow> Inl ValidationError))"

definition default_rfdc_config :: "string \<Rightarrow> board_rfdc result" where
  "default_rfdc_config board_id =
     ebind (emap default_channel default_targets) (\<lambda>channels.
     Inr \<lparr>rf_board_id = board_id, rf_revision = 0, rf_applied_at = None, rf_apply_status = ''unknown'', rf_apply_error = [],
          rf_body = \<lparr>rb_channels = channels, rb_requested_mask = 0xFF, rb_applied_mask = 0, rb_error_mask = 0, rb_valid_mask = 0,
                     rb_failure_stage = 0, rb_failure_address = 0, rb_axi_response = 0\<rparr>\<rparr>)"

section \<open>Calibrations\<close>

definition phase_table :: "(phase_row \<times> string option) list \<Rightarrow> int \<times> int \<Rightarrow> rat" where
  "phase_table records k =
     (case map_of (rev (map (\<lambda>(c, _). ((ph_frequency_hz c, ph_channel c), ph_phase_deg c)) records)) k of
        None \<Rightarrow> 0
      | Some p \<Rightarrow> p)"

definition calibration_by_key :: "string \<Rightarrow> ('g app, int \<times> int \<Rightarrow> rat) prog" where
  "calibration_by_key board_id =
     pbind (with_mgmt (list_phase_calibrations board_id)) (\<lambda>records. pret (phase_table records))"

definition calibrated :: "(int \<times> int \<Rightarrow> rat) \<Rightarrow> channel_config \<Rightarrow> channel_config" where
  "calibrated by_key c = c\<lparr>rfc_calibration_deg := by_key (round_half_even (rfc_target_hz c), rfc_channel c)\<rparr>"

text \<open>The sum of two phases, a float; phases are bounded, so the sum is finite.\<close>

definition phase_sum :: "rat \<Rightarrow> rat \<Rightarrow> rat" where
  "phase_sum a b = (case fl (a + b) of Fin r \<Rightarrow> r | _ \<Rightarrow> a + b)"

definition hardware_channel :: "channel_config \<Rightarrow> channel_config" where
  "hardware_channel c = c\<lparr>rfc_phase_deg := phase_sum (rfc_phase_deg c) (rfc_calibration_deg c)\<rparr>"

section \<open>Answers of the hardware\<close>

definition with_actual :: "rfdc_answer \<Rightarrow> channel_config \<Rightarrow> channel_config" where
  "with_actual answer c =
     (case map_of (rev (ra_channels answer)) (rfc_channel c) of
        None \<Rightarrow> c
      | Some a \<Rightarrow> if channel_in_mask (ra_valid_mask answer mod 256) (rfc_channel c) then c\<lparr>rfc_actual := Some a\<rparr> else c)"

definition config_from_hardware :: "string \<Rightarrow> board_rfdc \<Rightarrow> rfdc_answer \<Rightarrow> string \<Rightarrow> board_rfdc" where
  "config_from_hardware now base answer apply_status =
     base\<lparr>rf_revision := ra_revision answer, rf_applied_at := Some now, rf_apply_status := apply_status, rf_apply_error := [],
       rf_body := (rf_body base)\<lparr>rb_channels := map (with_actual answer) (sort_key rfc_channel (rb_channels (rf_body base))),
         rb_applied_mask := ra_applied_mask answer mod 256, rb_error_mask := ra_error_mask answer mod 256,
         rb_valid_mask := ra_valid_mask answer mod 256, rb_failure_stage := ra_failure_stage answer,
         rb_failure_address := ra_failure_address answer, rb_axi_response := ra_axi_response answer\<rparr>\<rparr>"

section \<open>The service\<close>

definition save_config :: "'g rfdc_env \<Rightarrow> string \<Rightarrow> board_rfdc \<Rightarrow> ('g app, unit) prog" where
  "save_config env now config = pbind (with_mgmt (save_rfdc_config (re_dump env) now config)) (\<lambda>_. pret ())"

definition rfdc_event :: "string \<Rightarrow> string \<Rightarrow> ('g app, unit) prog" where
  "rfdc_event kind board_id = with_coord (publish (ServiceEvent kind board_id))"

definition rfdc_get :: "'g rfdc_env \<Rightarrow> string \<Rightarrow> string \<Rightarrow> bool \<Rightarrow> ('g app, board_rfdc) prog" where
  "rfdc_get env now board_id refresh =
     pbind (with_mgmt (get_board board_id)) (\<lambda>_.
     pbind (with_mgmt (load_rfdc_config (re_parse env) board_id)) (\<lambda>loaded.
     pbind (case loaded of Some c \<Rightarrow> pret c | None \<Rightarrow> plift (default_rfdc_config board_id)) (\<lambda>found.
     pbind (calibration_by_key board_id) (\<lambda>by_key.
     let current = found\<lparr>rf_body := (rf_body found)\<lparr>rb_channels := map (calibrated by_key) (rb_channels (rf_body found))\<rparr>\<rparr> in
     if \<not> refresh then pret current
     else
       pbind (with_coord (re_get_config env board_id)) (\<lambda>response.
       case response of
         None \<Rightarrow> praise ManagementError
       | Some answer \<Rightarrow>
           pthen (praise_if (ra_status answer \<noteq> RF2_OK) ManagementError) (
           let refreshed = config_from_hardware now current answer ''applied'' in
           pthen (save_config env now refreshed) (
           pret refreshed)))))))"

text \<open>What a board must report before its RFDC is programmed.\<close>

definition rfdc_ready :: "live_status \<Rightarrow> bool" where
  "rfdc_ready status \<longleftrightarrow> \<not> (ls_armed status \<or> ls_prepared status \<or> ls_running status) \<and> ls_online status \<and>
     ls_mts_required status \<and> ls_mts_ready status \<and> \<not> ls_mts_failed status"

definition pending_config :: "board_rfdc \<Rightarrow> string \<Rightarrow> channel_config list \<Rightarrow> int \<Rightarrow> board_rfdc" where
  "pending_config current board_id channels channel_mask =
     \<lparr>rf_board_id = board_id, rf_revision = rf_revision current + 1, rf_applied_at = None, rf_apply_status = ''pending'',
      rf_apply_error = [],
      rf_body = \<lparr>rb_channels = channels, rb_requested_mask = channel_mask, rb_applied_mask = 0, rb_error_mask = 0,
        rb_valid_mask = rb_valid_mask (rf_body current), rb_failure_stage = 0, rb_failure_address = 0, rb_axi_response = 0\<rparr>\<rparr>"

definition apply_hardware :: "'g rfdc_env \<Rightarrow> string \<Rightarrow> string \<Rightarrow> channel_config list \<Rightarrow> int \<Rightarrow> board_rfdc \<Rightarrow> ('g app, board_rfdc) prog" where
  "apply_hardware env now board_id channels channel_mask pending =
     pbind (with_coord (re_apply env board_id channels (rf_revision pending) channel_mask)) (\<lambda>answer.
     let applied_mask = and (ra_applied_mask answer) channel_mask; error_mask = and (ra_error_mask answer) channel_mask;
         complete = (ra_status answer = RF2_OK \<and> applied_mask = channel_mask \<and> error_mask = 0);
         partial = (applied_mask \<noteq> 0 \<and> \<not> complete) in
     pthen (praise_if (\<not> complete \<and> \<not> partial) ManagementError) (
     let config = config_from_hardware now pending answer (if complete then ''applied'' else ''partial'');
         result = (if partial then config\<lparr>rf_apply_error := re_answer_text env answer\<rparr> else config) in
     pthen (save_config env now result) (
     pthen (rfdc_event (if complete then ''rfdc.apply.succeeded'' else ''rfdc.apply.failed'') board_id) (
     pret result))))"

definition rfdc_apply_service :: "'g rfdc_env \<Rightarrow> string \<Rightarrow> string \<Rightarrow> apply_request \<Rightarrow> ('g app, board_rfdc) prog" where
  "rfdc_apply_service env now board_id request =
     pbind (with_mgmt (get_board board_id)) (\<lambda>_.
     pbind (rfdc_get env now board_id False) (\<lambda>current.
     pbind (with_coord (re_status env board_id)) (\<lambda>status.
     pthen (praise_if (\<not> rfdc_ready status) ManagementError) (
     pbind (calibration_by_key board_id) (\<lambda>by_key.
     let channels = map (calibrated by_key) (sort_key rfc_channel (aq_channels request));
         pending = pending_config current board_id channels (aq_mask request) in
     pthen (save_config env now pending) (
     pthen (rfdc_event ''rfdc.apply.started'' board_id) (
     pcatch (apply_hardware env now board_id (map hardware_channel channels) (aq_mask request) pending)
       (\<lambda>e.
         let failed = pending\<lparr>rf_apply_status := ''failed'', rf_apply_error := re_text env e\<rparr> in
         pthen (save_config env now failed) (
         pthen (rfdc_event ''rfdc.apply.failed'' board_id) (
         praise e))))))))))"section \<open>What the parts do to the store\<close>

definition rfdc_row_of :: "'g rfdc_env \<Rightarrow> string \<Rightarrow> board_rfdc \<Rightarrow> rfdc_config_row" where
  "rfdc_row_of env now c =
     \<lparr>rc_board_id = rf_board_id c, rc_config_json = re_dump env c, rc_revision = rf_revision c, rc_applied_at = rf_applied_at c,
      rc_apply_status = rf_apply_status c, rc_apply_error = rf_apply_error c, rc_updated_at = now\<rparr>"

definition rfdc_stored :: "string \<Rightarrow> 'g app \<Rightarrow> rfdc_config_row option" where
  "rfdc_stored board_id s = find (\<lambda>r. rc_board_id r = board_id) (st_rfdc_configs (ap_mgmt s))"

text \<open>The store is \<open>m\<close> but for the table of RFDC configurations.\<close>

definition only_rfdc :: "store \<Rightarrow> 'g app \<Rightarrow> bool" where
  "only_rfdc m s \<longleftrightarrow> (\<exists>rows. ap_mgmt s = m\<lparr>st_rfdc_configs := rows\<rparr>)"

lemma find_after_update: "rc_board_id row = b \<Longrightarrow> b \<in> rc_board_id ` set rows \<Longrightarrow>
  find (\<lambda>r. rc_board_id r = b) (sql_update (\<lambda>r. rc_board_id r = b) (\<lambda>_. row) rows) = Some row"
  by (induction rows) (auto simp: sql_update_def)

lemma find_after_insert: "rc_board_id row = b \<Longrightarrow> b \<notin> rc_board_id ` set rows \<Longrightarrow>
  find (\<lambda>r. rc_board_id r = b) (rows @ [row]) = Some row"
  by (induction rows) auto

definition put_rfdc :: "rfdc_config_row \<Rightarrow> rfdc_config_row list \<Rightarrow> rfdc_config_row list" where
  "put_rfdc row rows =
     (if rc_board_id row \<in> rc_board_id ` set rows then sql_update (\<lambda>r. rc_board_id r = rc_board_id row) (\<lambda>_. row) rows
      else rows @ [row])"

lemma find_put_rfdc: "find (\<lambda>r. rc_board_id r = rc_board_id row) (put_rfdc row rows) = Some row"
  by (simp add: put_rfdc_def find_after_update find_after_insert)

lemma save_config_run:
  assumes "board_known (rf_board_id c) (ap_mgmt s)"
  shows "save_config env now c s =
    (Inr (), s\<lparr>ap_mgmt := (ap_mgmt s)\<lparr>st_rfdc_configs := put_rfdc (rfdc_row_of env now c) (st_rfdc_configs (ap_mgmt s))\<rparr>\<rparr>)"
  using assms
  by (simp add: save_config_def with_mgmt_def save_rfdc_config_def transaction_def sql_check_def prog_defs Let_def
      rfdc_row_of_def put_rfdc_def)

lemma save_config_triple:
  "triple (\<lambda>s. only_rfdc m s \<and> board_known (rf_board_id c) m) (save_config env now c)
     (\<lambda>_ s. only_rfdc m s \<and> board_known (rf_board_id c) m \<and> rfdc_stored (rf_board_id c) s = Some (rfdc_row_of env now c)) (\<lambda>_ _. False)"
  unfolding triple_def
proof (intro allI impI)
  fix s :: "'a app"
  assume s: "only_rfdc m s \<and> board_known (rf_board_id c) m"
  then have k: "board_known (rf_board_id c) (ap_mgmt s)"
    by (auto simp: only_rfdc_def board_known_def)
  show "case save_config env now c s of (Inl e, s') \<Rightarrow> False
    | (Inr x, s') \<Rightarrow> only_rfdc m s' \<and> board_known (rf_board_id c) m \<and> rfdc_stored (rf_board_id c) s' = Some (rfdc_row_of env now c)"
    using s find_put_rfdc [of "rfdc_row_of env now c"]
    by (auto simp: save_config_run [OF k] only_rfdc_def rfdc_stored_def rfdc_row_of_def)
qed

lemma with_coord_keeps: "keeps (\<lambda>s. P (ap_mgmt s)) (with_coord m)"
  by (simp add: keeps_def with_coord_def split: prod.split)

text \<open>Reading leaves the state alone and does not look at the stored configurations.\<close>

lemma get_board_pure: "get_board b m = (fst (get_board b m), m)"
  by (auto simp: get_board_def transaction_def prog_defs split: option.splits)

lemma board_of_rfdc [simp]: "board_of (m\<lparr>st_rfdc_configs := rows\<rparr>) = board_of m"
  by (rule ext) (simp add: board_of_def username_of_def split: option.split)

lemma get_board_rfdc [simp]: "fst (get_board b (m\<lparr>st_rfdc_configs := rows\<rparr>)) = fst (get_board b m)"
  by (auto simp: get_board_def transaction_def prog_defs split: option.splits)

lemma get_board_known: "fst (get_board b m) = Inr p \<Longrightarrow> board_known b m"
  by (auto simp: get_board_def transaction_def prog_defs board_known_def find_Some_iff split: option.splits)

lemma phases_read: "list_phase_calibrations b m = (fst (list_phase_calibrations b m), m)"
  using get_board_pure [of b m]
  by (cases "fst (get_board b m)") (auto simp: list_phase_calibrations_def transaction_def prog_defs)

lemma phases_rfdc [simp]: "fst (list_phase_calibrations b (m\<lparr>st_rfdc_configs := rows\<rparr>)) = fst (list_phase_calibrations b m)"
proof -
  obtain r where g: "get_board b m = (r, m)" "get_board b (m\<lparr>st_rfdc_configs := rows\<rparr>) = (r, m\<lparr>st_rfdc_configs := rows\<rparr>)"
    by (metis get_board_pure get_board_rfdc)
  have u: "username_of (m\<lparr>st_rfdc_configs := rows\<rparr>) = username_of m" by (rule ext) (simp add: username_of_def)
  show ?thesis
    by (cases r) (simp_all add: list_phase_calibrations_def transaction_def pbind_def g u)
qed

text \<open>The calibrations of a board.\<close>

definition phases_of :: "string \<Rightarrow> store \<Rightarrow> int \<times> int \<Rightarrow> rat" where
  "phases_of board_id m = (case fst (list_phase_calibrations board_id m) of Inl e \<Rightarrow> \<lambda>_. 0 | Inr records \<Rightarrow> phase_table records)"

lemma calibration_triple:
  "triple P (calibration_by_key b) (\<lambda>k s. P s \<and> k = phases_of b (ap_mgmt s)) (\<lambda>_. P)"
  unfolding triple_def
proof (intro allI impI)
  fix s :: "'a app" assume "P s"
  have w: "with_mgmt (list_phase_calibrations b) s = (fst (list_phase_calibrations b (ap_mgmt s)), s)"
    unfolding with_mgmt_def by (subst phases_read) simp
  show "case calibration_by_key b s of (Inl e, s') \<Rightarrow> P s' | (Inr k, s') \<Rightarrow> P s' \<and> k = phases_of b (ap_mgmt s')"
    using \<open>P s\<close> w
    by (cases "fst (list_phase_calibrations b (ap_mgmt s))") (simp_all add: calibration_by_key_def pbind_def phases_of_def)
qed

lemma load_reads: "load_rfdc_config f b m = (fst (load_rfdc_config f b m), m)"
  by (auto simp: load_rfdc_config_def transaction_def prog_defs split: option.splits sum.splits)

lemma with_mgmt_reads:
  assumes "\<And>m. f m = (fst (f m), m)"
  shows "with_mgmt f s = (fst (f (ap_mgmt s)), s)"
  unfolding with_mgmt_def by (subst assms) simp

lemma get_stored_triple:
  "triple P (rfdc_get env now b False) (\<lambda>_ s. P s \<and> board_known b (ap_mgmt s)) (\<lambda>_. P)"
proof -
  have 1: "triple P (with_mgmt (get_board b)) (\<lambda>_ s. P s \<and> board_known b (ap_mgmt s)) (\<lambda>_. P)"
    unfolding triple_def with_mgmt_reads [OF get_board_pure]
  proof (intro allI impI)
    fix s :: "'a app" assume "P s"
    then show "case (fst (get_board b (ap_mgmt s)), s) of (Inl e, s') \<Rightarrow> P s' | (Inr p, s') \<Rightarrow> P s' \<and> board_known b (ap_mgmt s')"
      by (cases "fst (get_board b (ap_mgmt s))") (auto intro: get_board_known)
  qed
  let ?Q = "\<lambda>s. P s \<and> board_known b (ap_mgmt s)"
  have 2: "triple ?Q (with_mgmt (load_rfdc_config f b)) (\<lambda>_. ?Q) (\<lambda>_. P)" for f
    unfolding triple_def by (auto simp: with_mgmt_reads [OF load_reads] split: prod.splits sum.splits)
  have 3: "triple ?Q (case found of Some c \<Rightarrow> pret c | None \<Rightarrow> plift r) (\<lambda>_. ?Q) (\<lambda>_. P)" for found r
    by (auto simp: triple_def plift_def split: option.splits sum.splits)
  have 4: "triple ?Q (calibration_by_key b) (\<lambda>_. ?Q) (\<lambda>_. P)"
    by (rule triple_weaken [OF calibration_triple [of ?Q]]) auto
  have 5: "triple ?Q (pret x) (\<lambda>_. ?Q) (\<lambda>_. P)" for x
    by (simp add: triple_def)
  show ?thesis
    unfolding rfdc_get_def Let_def by (intro triple_pbind [OF 1] triple_pbind [OF 2] triple_pbind [OF 3] triple_pbind [OF 4]) (simp add: 5)
qed

section \<open>Applying a configuration\<close>

lemma with_actual_fields [simp]:
  "rfc_channel (with_actual a c) = rfc_channel c" "rfc_phase_deg (with_actual a c) = rfc_phase_deg c"
  "calibrated k (with_actual a c) = with_actual a (calibrated k c)" "rfc_target_hz (with_actual a c) = rfc_target_hz c"
  "rfc_calibration_deg (with_actual a c) = rfc_calibration_deg c"
  by (auto simp: with_actual_def calibrated_def split: option.split)

lemma calibrated_fields [simp]:
  "rfc_channel (calibrated k c) = rfc_channel c" "rfc_phase_deg (calibrated k c) = rfc_phase_deg c"
  "calibrated k (calibrated k c) = calibrated k c"
  by (simp_all add: calibrated_def)

text \<open>A stored configuration of \<open>b\<close> for the request \<open>q\<close>: the user's phases, and the calibrations beside them.\<close>

definition config_of_request :: "(int \<times> int \<Rightarrow> rat) \<Rightarrow> string \<Rightarrow> apply_request \<Rightarrow> board_rfdc \<Rightarrow> bool" where
  "config_of_request k b q c \<longleftrightarrow> rf_board_id c = b \<and> list_all (\<lambda>x. calibrated k x = x) (rb_channels (rf_body c)) \<and>
     map (\<lambda>x. (rfc_channel x, rfc_phase_deg x)) (rb_channels (rf_body c)) =
     map (\<lambda>x. (rfc_channel x, rfc_phase_deg x)) (sort_key rfc_channel (aq_channels q))"

lemma pending_of_request:
  "config_of_request k b q (pending_config current b (map (calibrated k) (sort_key rfc_channel (aq_channels q))) msk)"
  by (simp add: config_of_request_def pending_config_def list_all_iff o_def)

lemma answered_of_request:
  assumes "config_of_request k b q c"
  shows "config_of_request k b q (config_from_hardware now c answer st)"
proof -
  let ?cs = "rb_channels (rf_body c)"
  have "map fst (map (\<lambda>x. (rfc_channel x, rfc_phase_deg x)) ?cs)
      = map fst (map (\<lambda>x. (rfc_channel x, rfc_phase_deg x)) (sort_key rfc_channel (aq_channels q)))"
    using assms by (simp add: config_of_request_def del: map_map)
  then have "sorted (map rfc_channel ?cs)" by (simp add: o_def)
  then have "sort_key rfc_channel ?cs = ?cs" by (rule sort_key_id_if_sorted)
  then show ?thesis
    using assms by (auto simp: config_of_request_def config_from_hardware_def list_all_iff o_def)
qed

lemma config_of_request_fields [simp]:
  "config_of_request k b q (c\<lparr>rf_apply_status := st, rf_apply_error := t\<rparr>) = config_of_request k b q c"
  "config_of_request k b q (c\<lparr>rf_apply_error := t\<rparr>) = config_of_request k b q c"
  by (simp_all add: config_of_request_def)

definition stored_as :: "'g rfdc_env \<Rightarrow> string \<Rightarrow> board_rfdc \<Rightarrow> 'g app \<Rightarrow> bool" where
  "stored_as env now c s \<longleftrightarrow> rfdc_stored (rf_board_id c) s = Some (rfdc_row_of env now c)"

lemma stored_mgmt: "stored_as env now c s = stored_as env now c (s\<lparr>ap_coord := x\<rparr>)"
  "only_rfdc m s = only_rfdc m (s\<lparr>ap_coord := x\<rparr>)"
  by (simp_all add: stored_as_def rfdc_stored_def only_rfdc_def)

lemma coord_triple:
  assumes "\<And>s c. P (s\<lparr>ap_coord := c\<rparr>) = P s"
  shows "triple P (with_coord m) (\<lambda>_. P) (\<lambda>_. P)"
  using assms by (auto simp: triple_def with_coord_def split: prod.splits sum.splits)

lemma apply_hardware_triple:
  assumes c: "config_of_request k b q pending" and m: "board_known b m"
  shows "triple (only_rfdc m) (apply_hardware env now b channels channel_mask pending)
     (\<lambda>c s. only_rfdc m s \<and> config_of_request k b q c \<and> rf_apply_status c \<in> {''applied'', ''partial''} \<and> stored_as env now c s)
     (\<lambda>_. only_rfdc m)"
proof -
  have 1: "triple (only_rfdc m) (with_coord x) (\<lambda>_. only_rfdc m) (\<lambda>_. only_rfdc m)" for x :: "('a coord, 'b) prog"
    by (rule coord_triple) (simp add: only_rfdc_def)
  have 2: "triple (only_rfdc m) (praise_if p e) (\<lambda>_. only_rfdc m) (\<lambda>_. only_rfdc m)" for p e
    by (auto simp: triple_def praise_if_def)
  have 3: "triple (only_rfdc m) (save_config env now r)
      (\<lambda>_ s. only_rfdc m s \<and> stored_as env now r s) (\<lambda>_. only_rfdc m)" if "rf_board_id r = b" for r
    by (rule triple_weaken [OF save_config_triple [of m r]]) (use that m in \<open>auto simp: stored_as_def\<close>)
  have 4: "triple (\<lambda>s. only_rfdc m s \<and> stored_as env now r s) (rfdc_event kind i)
      (\<lambda>_ s. only_rfdc m s \<and> stored_as env now r s) (\<lambda>_. only_rfdc m)" for r kind i
    unfolding rfdc_event_def
    by (rule triple_weaken [OF coord_triple [of "\<lambda>s. only_rfdc m s \<and> stored_as env now r s"]])
       (auto simp: only_rfdc_def stored_as_def rfdc_stored_def)
  have 5: "triple (\<lambda>s. only_rfdc m s \<and> stored_as env now r s) (pret r)
     (\<lambda>c s. only_rfdc m s \<and> config_of_request k b q c \<and> rf_apply_status c \<in> {''applied'', ''partial''} \<and> stored_as env now c s)
     (\<lambda>_. only_rfdc m)" if "config_of_request k b q r" "rf_apply_status r \<in> {''applied'', ''partial''}" for r
    using that by (simp add: triple_def)
  have id: "rf_board_id r = b" if "config_of_request k b q r" for r
    using that by (simp add: config_of_request_def)
  have st: "rf_apply_status (config_from_hardware now pending answer st) = st" for answer st
    by (simp add: config_from_hardware_def)
  have r: "config_of_request k b q (if p then (config_from_hardware now pending answer st)\<lparr>rf_apply_error := t\<rparr>
        else config_from_hardware now pending answer st)"
    "rf_apply_status (if p then (config_from_hardware now pending answer st)\<lparr>rf_apply_error := t\<rparr>
        else config_from_hardware now pending answer st) = st" for p answer st t
    by (simp_all add: answered_of_request [OF c] st)
  show ?thesis
    unfolding apply_hardware_def Let_def
    by (intro triple_pbind [OF 1] triple_pthen [OF 2] triple_pthen [OF 3] triple_pthen [OF 4] 5 id r) (simp add: r)
qed

text \<open>The outcome of an apply: nothing has happened to the store, or the row of the board says how it went.\<close>

lemma rfdc_apply_triple:
  "triple (\<lambda>s. ap_mgmt s = m) (rfdc_apply_service env now b q)
     (\<lambda>c s. only_rfdc m s \<and> config_of_request (phases_of b m) b q c \<and> rf_apply_status c \<in> {''applied'', ''partial''} \<and>
        stored_as env now c s)
     (\<lambda>e s. ap_mgmt s = m \<or> only_rfdc m s \<and>
        (\<exists>c. rf_board_id c = b \<and> rf_apply_status c = ''failed'' \<and> rf_apply_error c = re_text env e \<and> stored_as env now c s))"
  (is "triple ?P _ ?Q ?E")
proof -
  let ?K = "\<lambda>s. ap_mgmt s = m \<and> board_known b m"
  have 1: "triple ?P (with_mgmt (get_board b)) (\<lambda>_. ?P) ?E"
    by (auto simp: triple_def with_mgmt_reads [OF get_board_pure] split: prod.splits sum.splits)
  have 2: "triple ?P (rfdc_get env now b False) (\<lambda>_. ?K) ?E"
    by (rule triple_weaken [OF get_stored_triple [of ?P]]) auto
  have 3: "triple ?K (with_coord x) (\<lambda>_. ?K) ?E" for x :: "('a coord, 'b) prog"
    by (rule triple_weaken [OF coord_triple [of ?K]]) auto
  have 4: "triple ?K (praise_if p e) (\<lambda>_. ?K) ?E" for p e
    by (auto simp: triple_def praise_if_def)
  have 5: "triple ?K (calibration_by_key b) (\<lambda>k s. ?K s \<and> k = phases_of b m) ?E"
    by (rule triple_weaken [OF calibration_triple [of ?K]]) auto
  have id: "rf_board_id (pending_config current b channels x) = b" for current channels x
    by (simp add: pending_config_def)
  have 6: "triple (\<lambda>s. ?K s \<and> k = phases_of b m) (save_config env now (pending_config current b channels x))
      (\<lambda>_ s. only_rfdc m s \<and> board_known b m \<and> k = phases_of b m) ?E" for k current channels x
    unfolding triple_def
  proof (intro allI impI)
    fix s :: "'a app" assume s: "?K s \<and> k = phases_of b m"
    then have kn: "board_known (rf_board_id (pending_config current b channels x)) (ap_mgmt s)" by (simp add: id)
    show "case save_config env now (pending_config current b channels x) s of
        (Inl e, s') \<Rightarrow> ?E e s' | (Inr y, s') \<Rightarrow> only_rfdc m s' \<and> board_known b m \<and> k = phases_of b m"
      using s by (auto simp: save_config_run [OF kn] only_rfdc_def)
  qed
  have 7: "triple (\<lambda>s. only_rfdc m s \<and> board_known b m \<and> k = phases_of b m) (rfdc_event kind i)
      (\<lambda>_ s. only_rfdc m s \<and> board_known b m \<and> k = phases_of b m) ?E" for k kind i
    by (auto simp: triple_def rfdc_event_def with_coord_def publish_def only_rfdc_def)
  have 8: "triple (\<lambda>s. only_rfdc m s \<and> board_known b m \<and> k = phases_of b m)
      (apply_hardware env now b channels x (pending_config current b (map (calibrated k) (sort_key rfc_channel (aq_channels q))) x))
      ?Q (\<lambda>_ s. only_rfdc m s \<and> board_known b m)" for k channels x current
  proof (cases "board_known b m \<and> k = phases_of b m")
    case True
    show ?thesis
      using apply_hardware_triple [OF pending_of_request, of b m, unfolded triple_def] True
      by (fastforce simp: triple_def split: prod.splits sum.splits)
  qed (auto simp: triple_def)
  have 9: "triple (\<lambda>s. only_rfdc m s \<and> board_known b m) (pthen (save_config env now r) (pthen (rfdc_event kind i) (praise e))) ?Q ?E"
    if "rf_board_id r = b" "rf_apply_status r = ''failed''" "rf_apply_error r = re_text env e" for r kind i e
    unfolding triple_def
  proof (intro allI impI)
    fix s :: "'a app" assume s: "only_rfdc m s \<and> board_known b m"
    then have kn: "board_known (rf_board_id r) (ap_mgmt s)" using that by (auto simp: only_rfdc_def board_known_def)
    note saved = save_config_run [where env = env and now = now, OF kn]
    show "case pthen (save_config env now r) (pthen (rfdc_event kind i) (praise e)) s of (Inl e, s') \<Rightarrow> ?E e s' | (Inr y, s') \<Rightarrow> ?Q y s'"
      using s that find_put_rfdc [of "rfdc_row_of env now r"]
      by (auto simp: saved rfdc_event_def with_coord_def publish_def pthen_def pbind_def
          only_rfdc_def stored_as_def rfdc_stored_def rfdc_row_of_def)
  qed
  show ?thesis
    unfolding rfdc_apply_service_def Let_def
    by (intro triple_pbind [OF 1] triple_pbind [OF 2] triple_pbind [OF 3] triple_pthen [OF 4] triple_pbind [OF 5] triple_pthen [OF 6]
        triple_pthen [OF 7] triple_pcatch [OF 8] 9) (simp_all add: id)
qed

section \<open>The default configuration\<close>

lemma default_direct: "default_channel (c, 0) = Inr (planned_channel c 0 0 1)"
proof -
  obtain s where s: "fl (64 / 10) = Fin s" "64 / 10 - 2 ^ 3 / 2 ^ 53 \<le> s" "s \<le> 64 / 10 + 2 ^ 3 / 2 ^ 53"
    by (rule fl_error [of "64 / 10" 3]) simp_all
  have s1: "fl (32 / 5) = Fin s" using s(1) by simp
  have hb: "\<bar>s / 2\<bar> < 2 ^ 2" using s(2,3) by (simp add: abs_less_iff)
  obtain h where h: "fl (s / 2) = Fin h" "s / 2 - 2 ^ 2 / 2 ^ 53 \<le> h"
    by (rule fl_error [OF hb]) simp_all
  have p: "0 < s" "0 < h" using s(2) h(2) by simp_all
  then have n: "0 \<le> s" "\<not> s \<le> 0" "0 \<le> h" "\<not> h \<le> 0" by simp_all
  have z: "fl 0 = Fin 0" by (simp add: fl_def)
  show ?thesis
    using n by (simp add: default_channel_def rfdc_nco_plan_for_target_def guard_raise_def z s1 h(1) flt_def)
qed

text \<open>A target above the first Nyquist zone: the oscillator runs at the target less the sampling rate.\<close>

lemma default_zone2:
  assumes t: "4 * 1000000000 \<le> t" "t \<le> 63 * 100000000"
  obtains w where "default_channel (c, t) = Inr (planned_channel c t w 2)"
    "t - 6400000000 - 1 \<le> w" "w \<le> t - 6400000000 + 1"
proof -
  obtain s where s: "fl (64 / 10) = Fin s" "64 / 10 - 2 ^ 3 / 2 ^ 53 \<le> s" "s \<le> 64 / 10 + 2 ^ 3 / 2 ^ 53"
    by (rule fl_error [of "64 / 10" 3]) simp_all
  have s1: "fl (32 / 5) = Fin s" using s(1) by simp
  have hb: "\<bar>s / 2\<bar> < 2 ^ 2" using s(2,3) by (simp add: abs_less_iff)
  obtain h where h: "fl (s / 2) = Fin h" "s / 2 - 2 ^ 2 / 2 ^ 53 \<le> h" "h \<le> s / 2 + 2 ^ 2 / 2 ^ 53"
    by (rule fl_error [OF hb]) simp_all
  have gb: "\<bar>t / 1000000000\<bar> < 2 ^ 3" using t by (simp add: abs_less_iff)
  obtain x where x: "fl (t / 1000000000) = Fin x" "t / 1000000000 - 2 ^ 3 / 2 ^ 53 \<le> x" "x \<le> t / 1000000000 + 2 ^ 3 / 2 ^ 53"
    by (rule fl_error [OF gb]) simp_all
  have xb: "0 \<le> x" "x \<le> s" "\<not> s \<le> 0" "h \<le> x" "0 \<le> s"
    using s(2,3) h(2,3) x(2,3) t by (simp_all add: field_simps)
  have yb: "\<bar>x - s\<bar> < 2 ^ 2" using xb s(2,3) x(2,3) t by (simp add: abs_less_iff field_simps)
  obtain y where y: "fl (x - s) = Fin y" "x - s - 2 ^ 2 / 2 ^ 53 \<le> y" "y \<le> x - s + 2 ^ 2 / 2 ^ 53"
    by (rule fl_error [OF yb]) simp_all
  define n where "n = round_half_even (y * 1000000000000)"
  have "of_int n - y * 1000000000000 \<le> 1 / 2" "y * 1000000000000 - of_int n \<le> 1 / 2"
    using round_half_even_error [of "y * 1000000000000"] unfolding n_def abs_le_iff by linarith+
  then have n: "of_int n / 1000000000000 \<le> y + 1 / 1000000000000" "y - 1 / 1000000000000 \<le> of_int n / 1000000000000"
    by simp_all
  have nb: "\<bar>of_int n / 1000000000000 :: rat\<bar> < 2 ^ 3"
    using n y(2,3) yb by (simp add: abs_less_iff)
  obtain v where v: "fl (of_int n / 1000000000000) = Fin v"
    "of_int n / 1000000000000 - 2 ^ 3 / 2 ^ 53 \<le> v" "v \<le> of_int n / 1000000000000 + 2 ^ 3 / 2 ^ 53"
    by (rule fl_error [OF nb]) simp_all
  have vb: "t / 1000000000 - 64 / 10 - 1 / 2 ^ 36 \<le> v" "v \<le> t / 1000000000 - 64 / 10 + 1 / 2 ^ 36"
    using v(2,3) n y(2,3) x(2,3) s(2,3) by (simp_all add: field_simps)
  have wb: "\<bar>v * 1000000000\<bar> < 2 ^ 33" using vb t by (simp add: abs_less_iff field_simps)
  obtain w where w: "fl (v * 1000000000) = Fin w" "v * 1000000000 - 2 ^ 33 / 2 ^ 53 \<le> w" "w \<le> v * 1000000000 + 2 ^ 33 / 2 ^ 53"
    by (rule fl_error [OF wb]) simp_all
  have "default_channel (c, t) = Inr (planned_channel c t w 2)"
    using xb by (simp add: default_channel_def rfdc_nco_plan_for_target_def guard_raise_def x(1) s1 h(1) y(1) v(1) w(1) flt_def fsub_def
        n_def [symmetric])
  then show thesis by (rule that) (use vb w(2,3) in \<open>simp_all add: field_simps\<close>)
qed

lemma default_rfdc_config_Inr: "\<exists>c. default_rfdc_config b = Inr c"
proof -
  have z: "\<exists>x. default_channel (c, t) = Inr x" if "t \<in> {0, 4500000000, 5800000000, 6200000000}" for c t
  proof (cases "t = 0")
    case True
    then show ?thesis using default_direct by blast
  next
    case False
    show ?thesis by (rule default_zone2 [of t c]) (use that False in auto)
  qed
  have "\<exists>xs. emap default_channel cts = Inr xs" if "snd ` set cts \<subseteq> {0, 4500000000, 5800000000, 6200000000}" for cts
    using that
  proof (induction cts)
    case (Cons ct cts)
    then show ?case using z [of "snd ct" "fst ct"] by (cases ct) auto
  qed simp
  from this [of default_targets] show ?thesis by (auto simp: default_rfdc_config_def default_targets_def)
qed

text \<open>
  The configuration of a board that nobody has configured can be applied as it is: it lists the eight
  channels with values the apply route accepts, and the oscillator and the zone of each channel put the
  output within one hertz of its target frequency.
\<close>

lemma default_config_accepted:
  "\<exists>c. default_rfdc_config board_id = Inr c \<and>
     validate_apply_request (rb_channels (rf_body c)) 0xFF = Inr \<lparr>aq_channels = rb_channels (rf_body c), aq_mask = 0xFF\<rparr> \<and>
     list_all (\<lambda>x. \<bar>rfc_nco_hz x + (if rfc_zone x = 2 then 6400000000 else 0) - rfc_target_hz x\<bar> \<le> 1) (rb_channels (rf_body c))"
proof -
  have t: "4 * 1000000000 \<le> (4500000000::rat)" "4500000000 \<le> (63 * 100000000::rat)"
    "4 * 1000000000 \<le> (5800000000::rat)" "5800000000 \<le> (63 * 100000000::rat)"
    "4 * 1000000000 \<le> (6200000000::rat)" "6200000000 \<le> (63 * 100000000::rat)" by simp_all
  obtain w1 w2 w3 w4 w7 w8 where w:
    "default_channel (1, 4500000000) = Inr (planned_channel 1 4500000000 w1 2)"
    "default_channel (2, 4500000000) = Inr (planned_channel 2 4500000000 w2 2)"
    "default_channel (3, 4500000000) = Inr (planned_channel 3 4500000000 w3 2)"
    "default_channel (4, 4500000000) = Inr (planned_channel 4 4500000000 w4 2)"
    "default_channel (7, 5800000000) = Inr (planned_channel 7 5800000000 w7 2)"
    "default_channel (8, 6200000000) = Inr (planned_channel 8 6200000000 w8 2)"
    and b: "list_all (\<lambda>w. -1900000001 \<le> w \<and> w \<le> -1899999999) [w1, w2, w3, w4]" "-600000001 \<le> w7" "w7 \<le> -599999999"
      "-200000001 \<le> w8" "w8 \<le> -199999999"
    by (rule default_zone2 [OF t(1,2), of 1]; rule default_zone2 [OF t(1,2), of 2]; rule default_zone2 [OF t(1,2), of 3];
        rule default_zone2 [OF t(1,2), of 4]; rule default_zone2 [OF t(3,4), of 7]; rule default_zone2 [OF t(5,6), of 8]) simp
  show ?thesis
    using b
    by (simp add: default_rfdc_config_def default_targets_def w default_direct planned_channel_def validate_apply_request_def guard_raise_def
        eight_channels_def channel_config_valid_def upto.simps abs_le_iff)
qed

text \<open>
  C27. Whatever an RFDC apply runs into, the store does not end with a configuration that is still pending:
  when the route returns, the row of the board has the status it returns, applied or partial; when it
  raises, the store is as before the call or the row says failed, with the text of that error.
\<close>

theorem rfdc_apply_settles:
  "case rfdc_apply_service env now board_id request s of
     (Inr c, s') \<Rightarrow> rf_apply_status c \<in> {''applied'', ''partial''} \<and> rfdc_stored board_id s' = Some (rfdc_row_of env now c)
   | (Inl e, s') \<Rightarrow> ap_mgmt s' = ap_mgmt s \<or>
       (\<exists>row. rfdc_stored board_id s' = Some row \<and> rc_apply_status row = ''failed'' \<and> rc_apply_error row = re_text env e)"
proof -
  have r: "rc_apply_status (rfdc_row_of env now c) = rf_apply_status c" "rc_apply_error (rfdc_row_of env now c) = rf_apply_error c" for c
    by (simp_all add: rfdc_row_of_def)
  show ?thesis
    using rfdc_apply_triple [of "ap_mgmt s" env now board_id request, unfolded triple_def, rule_format, of s]
    by (auto simp: config_of_request_def stored_as_def r split: prod.splits sum.splits)
qed

text \<open>
  C28. A board that plays, is armed or prepared, or does not report a working DAC alignment, keeps its RFDC
  configuration: the service asks it for its status, raises, and neither sends it a configuration nor
  stores or announces one.
\<close>

theorem rfdc_apply_refused:
  assumes "re_status env board_id (ap_coord s) = (Inr status, c')"
    and "ls_armed status \<or> ls_prepared status \<or> ls_running status \<or> \<not> ls_mts_ready status"
  shows "\<exists>e. rfdc_apply_service env now board_id request s \<in> {(Inl e, s), (Inl ManagementError, s\<lparr>ap_coord := c'\<rparr>)}"
proof -
  have u: "\<not> rfdc_ready status" using assms(2) by (auto simp: rfdc_ready_def)
  obtain r where g: "with_mgmt (get_board board_id) s = (r, s)" by (simp add: with_mgmt_reads [OF get_board_pure])
  have "triple (\<lambda>t. t = s) (rfdc_get env now board_id False) (\<lambda>_ t. t = s) (\<lambda>_ t. t = s)"
    by (rule triple_weaken [OF get_stored_triple [of "\<lambda>t. t = s"]]) auto
  then obtain q where f: "rfdc_get env now board_id False s = (q, s)"
    by (cases "rfdc_get env now board_id False s"; cases "fst (rfdc_get env now board_id False s)") (auto simp: triple_def)
  have "with_coord (re_status env board_id) s = (Inr status, s\<lparr>ap_coord := c'\<rparr>)"
    using assms(1) by (simp add: with_coord_def)
  then show ?thesis
    using u g f by (cases r; cases q) (simp_all add: rfdc_apply_service_def pbind_def pthen_def praise_if_def)
qed

lemma listed_phases: "fst (get_board b m) = Inr p \<Longrightarrow> \<exists>records. list_phase_calibrations b m = (Inr records, m)"
  using get_board_pure [of b m] by (auto simp: list_phase_calibrations_def transaction_def pbind_def)

text \<open>Reading the configuration of a stored row, whose text reads back.\<close>

lemma rfdc_get_stored:
  assumes board: "fst (get_board b (ap_mgmt s)) = Inr p" and row: "rfdc_stored b s = Some (rfdc_row_of env now c)"
    and json: "re_parse env (re_dump env c) = Inr c" and b: "rf_board_id c = b"
    and cal: "list_all (\<lambda>x. calibrated (phases_of b (ap_mgmt s)) x = x) (rb_channels (rf_body c))"
  shows "rfdc_get env later b False s = (Inr c, s)"
proof -
  have g: "with_mgmt (get_board b) s = (Inr p, s)" by (simp add: with_mgmt_reads [OF get_board_pure] board)
  have "load_rfdc_config (re_parse env) b (ap_mgmt s) = (Inr (Some c), ap_mgmt s)"
    using row json b by (simp add: load_rfdc_config_def transaction_def prog_defs rfdc_stored_def rfdc_row_of_def)
  then have l: "with_mgmt (load_rfdc_config (re_parse env) b) s = (Inr (Some c), s)" by (simp add: with_mgmt_def)
  obtain records where "list_phase_calibrations b (ap_mgmt s) = (Inr records, ap_mgmt s)" using listed_phases [OF board] by blast
  then have k: "calibration_by_key b s = (Inr (phases_of b (ap_mgmt s)), s)"
    by (simp add: calibration_by_key_def with_mgmt_def pbind_def phases_of_def)
  have "map (calibrated (phases_of b (ap_mgmt s))) (rb_channels (rf_body c)) = rb_channels (rf_body c)"
    using cal by (simp add: list_all_iff map_idI)
  then show ?thesis by (simp add: rfdc_get_def pbind_def g l k)
qed

text \<open>
  C29. What an apply returns is what a later request reads back, when the stored text reads back: the
  channels in order, each with the phase its user asked for. The calibration of the board is kept beside
  the phase and is not folded into it.
\<close>

theorem rfdc_apply_then_get:
  assumes ran: "rfdc_apply_service env now board_id request s = (Inr c, s')" and json: "re_parse env (re_dump env c) = Inr c"
  shows "rfdc_get env later board_id False s' = (Inr c, s') \<and>
    map (\<lambda>x. (rfc_channel x, rfc_phase_deg x)) (rb_channels (rf_body c)) =
    map (\<lambda>x. (rfc_channel x, rfc_phase_deg x)) (sort_key rfc_channel (aq_channels request))"
proof -
  let ?m = "ap_mgmt s"
  have t: "only_rfdc ?m s'" "config_of_request (phases_of board_id ?m) board_id request c" "stored_as env now c s'"
    using rfdc_apply_triple [of ?m env now board_id request, unfolded triple_def, rule_format, of s] ran by simp_all
  obtain p where p: "fst (get_board board_id ?m) = Inr p"
    using ran by (cases "fst (get_board board_id ?m)") (auto simp: rfdc_apply_service_def pbind_def with_mgmt_reads [OF get_board_pure])
  obtain rows where rows: "ap_mgmt s' = ?m\<lparr>st_rfdc_configs := rows\<rparr>" using t(1) by (auto simp: only_rfdc_def)
  have same: "fst (get_board board_id (ap_mgmt s')) = Inr p" "phases_of board_id (ap_mgmt s') = phases_of board_id ?m"
    by (simp_all add: rows p phases_of_def)
  have "rfdc_get env later board_id False s' = (Inr c, s')"
    by (rule rfdc_get_stored [OF same(1) _ json]) (use t(2,3) in \<open>simp_all add: stored_as_def config_of_request_def same(2)\<close>)
  then show ?thesis using t(2) by (simp add: config_of_request_def)
qed

section \<open>An example board\<close>

lemma board_store_board:
  "\<exists>p. fst (get_board ''fpga-a'' board_store) = Inr p" "st_rfdc_configs board_store = []" "st_phases board_store = []"
  by (simp_all add: board_store_def upsert_discovered_board_def found_board_def quiet_profile users_store_value device_rows_def
      sort_desc_def uid_suffix_def is_alnum_def ccode_def lower_char_def or_text_def insert_board_def inserted_row_def
      discovered_row_def default_row_def board_known_def prog_defs transaction_def sql_check_def Let_def get_board_def
      board_of_def to_profile_def profile_ok_def guard_raise_def users_store_def create_user_def insert_user_def
      hash_password_def example_kdf_def empty_store_def
      split: option.splits sum.splits)

text \<open>A board whose DAC is aligned, and one that plays; it answers that all channels were applied.\<close>

definition example_live :: "bool \<Rightarrow> live_status" where
  "example_live running = \<lparr>ls_device_uid = ''a'', ls_online = True, ls_protocol_version = RFCTRL2_VERSION, ls_network_configured = True,
     ls_network_apply_status = ''applied'', ls_rfdc_ready = Some True, ls_mts_required = True, ls_mts_ready = True,
     ls_mts_failed = False, ls_armed = False, ls_prepared = False, ls_running = running, ls_session = 0\<rparr>"

definition example_answer :: rfdc_answer where
  "example_answer = \<lparr>ra_status = RF2_OK, ra_revision = 1, ra_applied_mask = 0xFF, ra_error_mask = 0, ra_valid_mask = 0,
     ra_failure_stage = 0, ra_failure_address = 0, ra_axi_response = 0, ra_channels = []\<rparr>"

definition example_apply :: apply_request where
  "example_apply = \<lparr>aq_channels = map example_channel [1, 2, 3, 4, 5, 6, 7, 8], aq_mask = 0xFF\<rparr>"

definition example_config :: board_rfdc where
  "example_config = \<lparr>rf_board_id = ''fpga-a'', rf_revision = 1, rf_applied_at = Some ''t'', rf_apply_status = ''applied'',
     rf_apply_error = [], rf_body = \<lparr>rb_channels = aq_channels example_apply, rb_requested_mask = 0xFF, rb_applied_mask = 0xFF,
       rb_error_mask = 0, rb_valid_mask = 0, rb_failure_stage = 0, rb_failure_address = 0, rb_axi_response = 0\<rparr>\<rparr>"

definition example_env :: "bool \<Rightarrow> sim_boards rfdc_env" where
  "example_env running = \<lparr>re_status = (\<lambda>_. pret (example_live running)), re_get_config = (\<lambda>_. pret None),
     re_apply = (\<lambda>_ _ _ _. pret example_answer), re_dump = (\<lambda>_. []), re_parse = (\<lambda>_. Inr example_config), re_text = (\<lambda>_. []),
     re_answer_text = (\<lambda>_. [])\<rparr>"

lemma rfdc_apply_refused_witness:
  "\<exists>e. rfdc_apply_service (example_env True) ''t'' ''fpga-a'' example_apply (example_app board_store)
     \<in> {(Inl e, example_app board_store), (Inl ManagementError, example_app board_store)}"
  using rfdc_apply_refused [of "example_env True" "''fpga-a''" "example_app board_store" "example_live True" "ap_coord (example_app board_store)"]
  by (simp add: example_env_def example_live_def)

lemma example_phases: "list_phase_calibrations ''fpga-a'' (board_store\<lparr>st_rfdc_configs := rows\<rparr>) =
    (Inr [], board_store\<lparr>st_rfdc_configs := rows\<rparr>)"
proof -
  obtain p where "fst (get_board ''fpga-a'' (board_store\<lparr>st_rfdc_configs := rows\<rparr>)) = Inr p" using board_store_board(1) by auto
  then have "get_board ''fpga-a'' (board_store\<lparr>st_rfdc_configs := rows\<rparr>) = (Inr p, board_store\<lparr>st_rfdc_configs := rows\<rparr>)"
    by (metis get_board_pure)
  then show ?thesis by (simp add: list_phase_calibrations_def transaction_def prog_defs board_store_board)
qed

lemma example_applied:
  "\<exists>s'. rfdc_apply_service (example_env False) ''t'' ''fpga-a'' example_apply (example_app board_store) = (Inr example_config, s')"
proof -
  let ?s = "example_app board_store"
  obtain p where p: "get_board ''fpga-a'' board_store = (Inr p, board_store)" using board_store_board(1) by (metis get_board_pure)
  obtain d where d: "default_rfdc_config ''fpga-a'' = Inr d" using default_rfdc_config_Inr by blast
  have ph: "list_phase_calibrations ''fpga-a'' board_store = (Inr [], board_store)" using example_phases [of "st_rfdc_configs board_store"] by simp
  obtain cur where cur: "rfdc_get (example_env False) ''t'' ''fpga-a'' False ?s = (Inr cur, ?s)"
    by (simp add: rfdc_get_def example_app_def with_mgmt_def p d ph load_rfdc_config_def transaction_def board_store_board
        calibration_by_key_def prog_defs)
  have g: "with_mgmt (get_board ''fpga-a'') ?s = (Inr p, ?s)" using p by (simp add: with_mgmt_def example_app_def)
  have st: "with_coord (re_status (example_env False) ''fpga-a'') t = (Inr (example_live False), t)"
    "with_coord (re_apply (example_env False) ''fpga-a'' chs rev msk) t = (Inr example_answer, t)" for t chs rev msk
    by (simp_all add: example_env_def with_coord_def)
  have ready: "rfdc_ready (example_live False)" by (simp add: rfdc_ready_def example_live_def)
  have k: "calibration_by_key ''fpga-a'' ?s = (Inr (phase_table []), ?s)"
    using ph by (simp add: calibration_by_key_def with_mgmt_def example_app_def prog_defs)
  have kn: "board_known ''fpga-a'' board_store" by (rule get_board_known) (simp add: p)
  have c: "map (calibrated (phase_table [])) (aq_channels example_apply) = aq_channels example_apply"
    "sort_key rfc_channel (aq_channels example_apply) = aq_channels example_apply"
    by (simp_all add: example_apply_def example_channel_def calibrated_def phase_table_def)
  have a: "map (with_actual example_answer) (aq_channels example_apply) = aq_channels example_apply"
    by (simp add: example_apply_def with_actual_def example_answer_def)
  let ?pending = "pending_config cur ''fpga-a'' (aq_channels example_apply) (aq_mask example_apply)"
  have b: "rf_board_id (pending_config cur ''fpga-a'' chs msk) = ''fpga-a''" for chs msk by (simp add: pending_config_def)
  have hw: "config_from_hardware ''t'' ?pending example_answer ''applied'' = example_config"
    by (simp add: config_from_hardware_def pending_config_def c a) (simp add: example_config_def example_answer_def example_apply_def)
  have kt: "board_known ''fpga-a'' (board_store\<lparr>st_rfdc_configs := rows\<rparr>)" for rows using kn by (simp add: board_known_def)
  have bc: "rf_board_id example_config = ''fpga-a''" by (simp add: example_config_def)
  obtain s1 rows where s1: "save_config (example_env False) ''t'' ?pending ?s = (Inr (), s1)" "ap_mgmt s1 = board_store\<lparr>st_rfdc_configs := rows\<rparr>"
    using save_config_run [where env = "example_env False" and now = "''t''" and c = ?pending and s = ?s] kn b by (simp add: example_app_def)
  obtain s2 where s2: "rfdc_event ''rfdc.apply.started'' ''fpga-a'' s1 = (Inr (), s2)" "ap_mgmt s2 = board_store\<lparr>st_rfdc_configs := rows\<rparr>"
    using s1(2) by (simp add: rfdc_event_def with_coord_def publish_def)
  obtain s3 where s3: "save_config (example_env False) ''t'' example_config s2 = (Inr (), s3)"
    using save_config_run [where env = "example_env False" and now = "''t''" and c = example_config and s = s2] kt bc s2(2) by simp
  obtain s4 where s4: "rfdc_event ''rfdc.apply.succeeded'' ''fpga-a'' s3 = (Inr (), s4)"
    by (simp add: rfdc_event_def with_coord_def publish_def)
  have ans: "ra_status example_answer = RF2_OK" "ra_applied_mask example_answer = 255" "ra_error_mask example_answer = 0" "aq_mask example_apply = 255"
    by (simp_all add: example_answer_def example_apply_def)
  have h: "apply_hardware (example_env False) ''t'' ''fpga-a'' chs (aq_mask example_apply) ?pending s2 = (Inr example_config, s4)" for chs
    unfolding apply_hardware_def using hw by (simp add: pbind_def pthen_def st ans s3 s4 Let_def)
  show ?thesis
    unfolding rfdc_apply_service_def
    by (simp add: pbind_def pthen_def pcatch_def g cur st ready k c s1(1) s2(1) h Let_def)
qed

lemma rfdc_apply_then_get_witness:
  "\<exists>s'. rfdc_get (example_env False) ''t'' ''fpga-a'' False s' = (Inr example_config, s')"
proof -
  obtain s' where "rfdc_apply_service (example_env False) ''t'' ''fpga-a'' example_apply (example_app board_store) = (Inr example_config, s')"
    using example_applied by blast
  from rfdc_apply_then_get [OF this, of "''t''"] show ?thesis by (auto simp: example_env_def)
qed

end
