(* ===== verification/Mgmt_Theorems.thy ===== *)
theory Mgmt_Theorems
  imports Mgmt_Leases "HOL-Library.Multiset"
begin

text \<open>
  What the methods of the store promise: the schema, the inventory of discovered boards, the allocation
  of addresses, the end of sessions, the logs, the exclusion of programming jobs, and two faults of the
  inventory.
\<close>

section \<open>The schema\<close>

text \<open>
  C22. The schema of the database holds in every state that the methods can reach, with any arguments and
  in any order: user names, session tokens, board, lease, artifact and job identifiers and fingerprints
  are unique, every reference names an existing row, a board has at most one active lease, every board
  has the only clock source there is, and every stored calibration is inside its ranges. No sequence of
  calls, failed ones included, leaves a table that SQLite would have to refuse.
\<close>

theorem schema_holds:
  assumes "store_reachable s"
  shows "store_wf s \<and> distinct (map us_username (st_users s)) \<and> distinct (map se_token (st_sessions s)) \<and>
    distinct (map le_board_id (filter (\<lambda>l. le_status l = LeaseActive) (st_leases s))) \<and>
    (\<forall>x \<in> set (st_sessions s). \<exists>u \<in> set (st_users s). us_id u = se_user_id x) \<and>
    (\<forall>j \<in> set (st_jobs s). (\<exists>b \<in> set (st_boards s). bo_id b = pj_board_id j) \<and>
       (\<exists>a \<in> set (st_artifacts s). ar_id a = pj_artifact_id j))"
proof -
  have wf: "store_wf s" by (rule store_reachable_wf [OF assms])
  show ?thesis
  proof (intro conjI ballI)
    fix x assume "x \<in> set (st_sessions s)"
    then show "\<exists>u \<in> set (st_users s). us_id u = se_user_id x"
      using wf by (fastforce simp: store_wf_def sessions_ok_def user_ids_def)
  next
    fix j assume "j \<in> set (st_jobs s)"
    then have "pj_board_id j \<in> board_ids s" "pj_artifact_id j \<in> ar_id ` set (st_artifacts s)"
      using wf by (simp_all add: store_wf_def jobs_ok_def)
    then show "\<exists>b \<in> set (st_boards s). bo_id b = pj_board_id j" "\<exists>a \<in> set (st_artifacts s). ar_id a = pj_artifact_id j"
      by (auto simp: board_ids_def)
  qed (use wf in \<open>simp_all add: store_wf_def users_ok_def sessions_ok_def leases_ok_def active_leases_def\<close>)
qed

lemma schema_holds_witness:
  "distinct (map us_username (st_users board_store)) \<and> length (st_users board_store) = 2 \<and> length (st_boards board_store) = 1"
proof -
  have "length (st_boards board_store) = 1" using arg_cong [OF board_store_value(3), of length] by simp
  then show ?thesis using schema_holds [OF board_store_reachable] by (simp add: board_store_value users_store_value)
qed

section \<open>Sessions\<close>

text \<open>
  C24. Disabling a user locks him out at once: if the update succeeds, no session of his is left, no token
  is answered with him and no password logs him in; if it raises, nothing has changed.
\<close>

theorem disabled_user_is_locked_out:
  "case update_user kdf salt uid password role False s of
     (Inl e, s') \<Rightarrow> s' = s
   | (Inr r, s') \<Rightarrow>
       uid \<notin> se_user_id ` set (st_sessions s') \<and>
       (case fst (session_user now token s') of Inr (Some (u, csrf)) \<Rightarrow> ur_id u \<noteq> uid | _ \<Rightarrow> True) \<and>
       (case fst (authenticate kdf' name attempt s') of Inr (Some u) \<Rightarrow> ur_id u \<noteq> uid | _ \<Rightarrow> True)"
proof (cases "update_user kdf salt uid password role False s")
  case (Pair x s')
  show ?thesis
  proof (cases x)
    case (Inl e)
    then have "s' = s" using Pair by (auto simp: update_user_def transaction_def split: prod.splits sum.splits)
    then show ?thesis by (simp add: Pair Inl)
  next
    case (Inr r)
    note e = Pair [unfolded Inr]
    have "ur_id u \<noteq> uid" if "fst (session_user now token s') = Inr (Some (u, c))" for u c
      using update_user_disables(2) [OF e, of now token u c "snd (session_user now token s')"] that
      by (metis prod.collapse)
    then have "(case fst (session_user now token s') of Inr (Some (u, csrf)) \<Rightarrow> ur_id u \<noteq> uid | _ \<Rightarrow> True)"
      by (simp split: sum.split option.split)
    moreover have "(case fst (authenticate kdf' name attempt s') of Inr (Some u) \<Rightarrow> ur_id u \<noteq> uid | _ \<Rightarrow> True)"
    proof -
      have "us_id q \<noteq> uid" if q: "q \<in> set (st_users s')" "us_enabled q" for q
      proof -
        obtain g where g: "st_users s' = sql_update (\<lambda>u. us_id u = uid)
            (\<lambda>u. u\<lparr>us_password_hash := g u, us_role := role, us_enabled := False\<rparr>) (st_users s)"
          using update_user_Inr [OF e] by (elim exE) (rule_tac that, simp)
        from q(1) obtain v where "q = (if us_id v = uid then v\<lparr>us_password_hash := g v, us_role := role, us_enabled := False\<rparr> else v)"
          unfolding g set_sql_update by blast
        then show ?thesis using q(2) by (cases "us_id v = uid") simp_all
      qed
      then show ?thesis
        by (auto simp: authenticate_def prog_defs to_user_def dest!: find_SomeD split: option.splits sum.splits)
    qed
    ultimately show ?thesis using update_user_disables(1) [OF e] by (simp add: Pair Inr)
  qed
qed

section \<open>The inventory of discovered boards\<close>

definition is_device :: "string \<Rightarrow> string \<Rightarrow> board_row \<Rightarrow> bool" where
  "is_device uid mac r \<longleftrightarrow> bo_device_uid r = uid \<and> mac_match (row_mac r) mac"

lemma device_rows_spec:
  assumes "dc_active_mac d \<noteq> []" "distinct (map bo_id bs)" "device_rows d bs = (row, dups)"
  shows "case row of
      None \<Rightarrow> dups = [] \<and> (\<forall>r \<in> set bs. \<not> is_device (dc_device_uid d) (dc_active_mac d) r)
    | Some q \<Rightarrow> q \<in> set bs \<and> is_device (dc_device_uid d) (dc_active_mac d) q \<and> distinct (map bo_id dups) \<and>
        set dups = {r \<in> set bs. is_device (dc_device_uid d) (dc_active_mac d) r \<and> bo_id r \<noteq> bo_id q}"
proof -
  let ?rows = "sort_desc (\<lambda>r. (bo_enabled r, bo_last_seen_at r, bo_updated_at r)) (filter (\<lambda>r. bo_device_uid r = dc_device_uid d) bs)"
  have set: "set ?rows = {r \<in> set bs. bo_device_uid r = dc_device_uid d}" by simp
  have dist: "distinct (map bo_id ?rows)"
    using assms(2) by (simp add: sort_desc_def distinct_map inj_on_def)
  show ?thesis
  proof (cases "filter (\<lambda>r. mac_match (row_mac r) (dc_active_mac d)) ?rows")
    case Nil
    then have "\<forall>r \<in> set ?rows. \<not> mac_match (row_mac r) (dc_active_mac d)" by (simp add: filter_empty_conv)
    then show ?thesis
      using assms(1,3) Nil set by (auto simp: device_rows_def is_device_def Let_def filter_empty_conv)
  next
    case (Cons q rest)
    then have "q \<in> set (filter (\<lambda>r. mac_match (row_mac r) (dc_active_mac d)) ?rows)" by simp
    then have q: "q \<in> set ?rows" "mac_match (row_mac q) (dc_active_mac d)" by simp_all
    have "row = Some q" "dups = filter (\<lambda>r. bo_id r \<noteq> bo_id q \<and> mac_match (row_mac r) (dc_active_mac d)) ?rows"
      using assms(1,3) Cons by (auto simp: device_rows_def Let_def)
    then show ?thesis using q set dist by (auto simp: is_device_def distinct_map_filter)
  qed
qed

lemma sql_update_twice:
  assumes "\<And>r. key (f r) = key r" "k \<notin> D"
  shows "sql_update (\<lambda>r. key r \<in> D) f (sql_update (\<lambda>r. key r = k) f rows) = sql_update (\<lambda>r. key r \<in> insert k D) f rows"
  using assms by (auto simp: sql_update_def)

lemma disable_all:
  assumes "\<forall>r \<in> set (st_boards s). bo_clock_source r = ''onboard''" "distinct (map bo_id dups)"
  shows "pfor dups (\<lambda>q. update_boards (\<lambda>r. bo_id r = bo_id q) (disable_duplicate now)) s =
    (Inr (), s\<lparr>st_boards := sql_update (\<lambda>r. bo_id r \<in> bo_id ` set dups) (disable_duplicate now) (st_boards s)\<rparr>)"
  using assms
proof (induction dups arbitrary: s)
  case (Cons q dups)
  let ?t = "s\<lparr>st_boards := sql_update (\<lambda>r. bo_id r = bo_id q) (disable_duplicate now) (st_boards s)\<rparr>"
  have ck: "bo_clock_source (disable_duplicate now r) = bo_clock_source r" "bo_id (disable_duplicate now r) = bo_id r" for r
    by (simp_all add: disable_duplicate_def)
  have one: "update_boards (\<lambda>r. bo_id r = bo_id q) (disable_duplicate now) s = (Inr (), ?t)"
    using Cons.prems(1) by (simp add: update_boards_def prog_defs sql_check_def list_all_iff ck)
  have "\<forall>r \<in> set (st_boards ?t). bo_clock_source r = ''onboard''"
    using Cons.prems(1) by (auto simp: set_sql_update ck)
  from Cons.IH [OF this] Cons.prems(2) one show ?case
    by (simp add: pthen_def pbind_def one sql_update_twice ck)
qed (simp add: sql_update_def)

lemma filter_singleton:
  assumes "distinct xs" "r \<in> set xs" "P r" "\<And>x. x \<in> set xs \<Longrightarrow> P x \<Longrightarrow> x = r"
  shows "filter P xs = [r]"
proof -
  have "x \<in> set (filter P xs) \<longleftrightarrow> x = r" for x using assms(2,3) assms(4) [of x] by auto
  then have "set (filter P xs) = {r}" by blast
  moreover have "distinct (filter P xs)" using assms(1) by simp
  ultimately have "length (filter P xs) = 1" by (simp flip: distinct_card)
  then obtain y where "filter P xs = [y]" by (auto simp: length_Suc_conv)
  then show ?thesis using \<open>set (filter P xs) = {r}\<close> by simp
qed

text \<open>The boards after the transaction of a discovered board.\<close>

lemma upsert_boards:
  assumes wf: "store_wf s" and mac: "dc_active_mac d \<noteq> []" and ok: "upsert_discovered_board h now hexes d s = (Inr p, s')"
  defines "profile \<equiv> auto_fpga_link_profile h (dc_udp_interface d)"
  obtains q dups where "q \<in> set (st_boards s)" "is_device (dc_device_uid d) (dc_active_mac d) q" "bo_id (bp_row p) = bo_id q"
      "set dups = {r \<in> set (st_boards s). is_device (dc_device_uid d) (dc_active_mac d) r \<and> bo_id r \<noteq> bo_id q}"
      "st_boards s' = sql_update (\<lambda>r. bo_id r = bo_id q) (discovered_row profile now d)
         (sql_update (\<lambda>r. bo_id r \<in> bo_id ` set dups) (disable_duplicate now) (st_boards s))"
  | board_id suffix where "\<forall>r \<in> set (st_boards s). \<not> is_device (dc_device_uid d) (dc_active_mac d) r"
      "board_id \<notin> bo_id ` set (st_boards s)" "bo_id (bp_row p) = board_id"
      "st_boards s' = st_boards s @ [inserted_row profile now d board_id suffix]"
proof -
  obtain row dups where dr: "device_rows d (st_boards s) = (row, dups)" by fastforce
  have b: "distinct (map bo_id (st_boards s))" "\<forall>r \<in> set (st_boards s). bo_clock_source r = ''onboard''"
    using wf by (simp_all add: store_wf_def boards_ok_def)
  note spec = device_rows_spec [OF mac b(1) dr]
  have id: "bo_id (bp_row q) = i" if "get_board i t = (Inr q, t')" for i t t' q
    using that by (auto simp: get_board_def prog_defs board_of_def to_profile_def err_simps dest!: find_SomeD
        split: option.splits)
  have ins: "bo_id (inserted_row profile now d i sfx) = i" for i sfx
    by (simp add: inserted_row_def discovered_row_def default_row_def)
  show thesis
  proof (cases row)
    case None
    then have n: "dups = []" "\<forall>r \<in> set (st_boards s). \<not> is_device (dc_device_uid d) (dc_active_mac d) r" using spec by simp_all
    let ?suffix = "uid_suffix (dc_device_uid d) (hd (hexes @ ['''']))"
    from ok obtain i where i: "fresh_board_id ?suffix (tl (hexes @ [''''])) (bo_id ` set (st_boards s)) (''fpga-'' @ ?suffix) = Some i"
      "get_board i (s\<lparr>st_boards := st_boards s @ [inserted_row profile now d i ?suffix]\<rparr>) = (Inr p, s')"
      "i \<notin> bo_id ` set (st_boards s)"
      unfolding upsert_discovered_board_def Let_def profile_def [symmetric]
      by (auto simp: dr None n prog_defs transaction_def insert_board_def sql_check_def ins board_known_def
          split: option.splits if_splits)
    then have "s' = s\<lparr>st_boards := st_boards s @ [inserted_row profile now d i ?suffix]\<rparr>"
      using snd_get_board [of i "s\<lparr>st_boards := st_boards s @ [inserted_row profile now d i ?suffix]\<rparr>"] by simp
    then show thesis using that(2) [OF n(2) i(3) id [OF i(2)]] by simp
  next
    case (Some q)
    then have q: "q \<in> set (st_boards s)" "is_device (dc_device_uid d) (dc_active_mac d) q" "distinct (map bo_id dups)"
      "set dups = {r \<in> set (st_boards s). is_device (dc_device_uid d) (dc_active_mac d) r \<and> bo_id r \<noteq> bo_id q}"
      using spec by simp_all
    let ?dis = "sql_update (\<lambda>r. bo_id r \<in> bo_id ` set dups) (disable_duplicate now) (st_boards s)"
    let ?fin = "sql_update (\<lambda>r. bo_id r = bo_id q) (discovered_row profile now d) ?dis"
    have upd: "update_boards (\<lambda>r. bo_id r = bo_id q) (discovered_row profile now d) (s\<lparr>st_boards := ?dis\<rparr>) =
        (Inr (), s\<lparr>st_boards := ?fin\<rparr>)"
      by (simp add: update_boards_def prog_defs sql_check_def list_all_iff discovered_row_def)
    have "get_board (bo_id q) (s\<lparr>st_boards := ?fin\<rparr>) = (Inr p, s')"
      using ok unfolding upsert_discovered_board_def Let_def profile_def [symmetric]
      by (simp add: dr Some pthen_def pbind_def pgets_def pret_def praise_if_def transaction_def
          disable_all [OF b(2) q(3)] upd split: if_splits)
    then have g: "bo_id (bp_row p) = bo_id q" "s' = s\<lparr>st_boards := ?fin\<rparr>"
      using id snd_get_board [of "bo_id q" "s\<lparr>st_boards := ?fin\<rparr>"] by auto
    show thesis by (rule that(1) [OF q(1,2) g(1) q(4)]) (simp add: g(2))
  qed
qed
definition reported :: "discovered \<Rightarrow> board_row \<Rightarrow> bool" where
  "reported d r \<longleftrightarrow> bo_device_uid r = dc_device_uid d \<and> bo_active_mac r = dc_active_mac d \<and>
     bo_active_ip r = dc_active_ip d \<and> bo_ip r = dc_active_ip d \<and> bo_desired_ip r = dc_desired_ip d \<and>
     bo_udp_interface r = dc_udp_interface d \<and> bo_network_revision r = dc_network_revision d \<and> bo_enabled r"

lemma reported_device: "reported d r \<Longrightarrow> dc_active_mac d \<noteq> [] \<Longrightarrow> is_device (dc_device_uid d) (dc_active_mac d) r"
  by (simp add: reported_def is_device_def row_mac_def or_text_def mac_match_def)

lemma reported_row: "reported d (discovered_row profile now d r)" "reported d (inserted_row profile now d i sfx)"
  by (simp_all add: reported_def discovered_row_def inserted_row_def)

text \<open>
  C25. Recording a discovered board leaves one enabled row for the device, identified by its UID and its
  MAC up to case and colons: that row holds what the board reported, every other row of the device is
  disabled, rows of other devices, boards with the same UID and another MAC included, are untouched, and
  no row is lost.
\<close>

theorem discovered_board_is_unique:
  assumes "store_reachable s" "dc_active_mac d \<noteq> []" "upsert_discovered_board h now hexes d s = (Inr p, s')"
  shows "\<exists>r. filter (\<lambda>q. is_device (dc_device_uid d) (dc_active_mac d) q \<and> bo_enabled q) (st_boards s') = [r] \<and>
    reported d r \<and> bo_id r = bo_id (bp_row p) \<and> board_ids s \<subseteq> board_ids s' \<and>
    filter (\<lambda>q. \<not> is_device (dc_device_uid d) (dc_active_mac d) q) (st_boards s') =
      filter (\<lambda>q. \<not> is_device (dc_device_uid d) (dc_active_mac d) q) (st_boards s)"
proof -
  let ?D = "is_device (dc_device_uid d) (dc_active_mac d)"
  note wf = store_reachable_wf [OF assms(1)]
  have dist: "distinct (map bo_id (st_boards s))" using wf by (simp add: store_wf_def boards_ok_def)
  have wf': "store_wf s'" using keepsD [OF wf_board_methods(8) wf, of h now hexes d] assms(3) by simp
  then have dist': "distinct (st_boards s')" by (simp add: store_wf_def boards_ok_def distinct_map)
  show ?thesis
  proof (rule upsert_boards [OF wf assms(2,3)])
    fix i sfx
    let ?new = "inserted_row (auto_fpga_link_profile h (dc_udp_interface d)) now d i sfx"
    assume none: "\<forall>r \<in> set (st_boards s). \<not> ?D r" and i: "bo_id (bp_row p) = i" and b: "st_boards s' = st_boards s @ [?new]"
    have "reported d ?new" by (rule reported_row)
    moreover have "?D ?new" by (rule reported_device [OF reported_row(2) assms(2)])
    moreover have "filter (\<lambda>q. ?D q \<and> bo_enabled q) (st_boards s) = []" using none by (auto simp: filter_empty_conv)
    moreover have "bo_id ?new = i" by (simp add: inserted_row_def discovered_row_def default_row_def)
    ultimately show ?thesis using none i by (auto simp: b board_ids_def reported_def)
  next
    fix q dups
    let ?dis = "disable_duplicate now" and ?upd = "discovered_row (auto_fpga_link_profile h (dc_udp_interface d)) now d"
    assume q: "q \<in> set (st_boards s)" "?D q" "bo_id (bp_row p) = bo_id q"
      and dups: "set dups = {r \<in> set (st_boards s). ?D r \<and> bo_id r \<noteq> bo_id q}"
      and b: "st_boards s' = sql_update (\<lambda>r. bo_id r = bo_id q) ?upd (sql_update (\<lambda>r. bo_id r \<in> bo_id ` set dups) ?dis (st_boards s))"
    have inj: "r = r'" if "bo_id r = bo_id r'" "r \<in> set (st_boards s)" "r' \<in> set (st_boards s)" for r r'
      using dist that by (auto simp: distinct_map dest: inj_onD)
    have dup: "bo_id r \<in> bo_id ` set dups \<longleftrightarrow> ?D r \<and> r \<noteq> q" if "r \<in> set (st_boards s)" for r
      unfolding dups using inj [OF _ that] inj [OF _ that q(1)] that by auto
    have id: "bo_id (?dis r) = bo_id r" "bo_id (?upd r) = bo_id r" for r
      by (simp_all add: disable_duplicate_def discovered_row_def)
    let ?final = "\<lambda>r. if r = q then ?upd r else if ?D r then ?dis r else r"
    have boards: "st_boards s' = map ?final (st_boards s)"
      unfolding b sql_update_def map_map
    proof (rule map_cong [OF refl])
      fix r assume r: "r \<in> set (st_boards s)"
      have "bo_id r = bo_id q \<longleftrightarrow> r = q" using inj [OF _ r q(1)] by auto
      then show "((\<lambda>r. if bo_id r = bo_id q then ?upd r else r) \<circ> (\<lambda>r. if bo_id r \<in> bo_id ` set dups then ?dis r else r)) r = ?final r"
        using dup [OF r] by (auto simp: id)
    qed
    have f: "?D (?final r) \<and> bo_enabled (?final r) \<longleftrightarrow> r = q" if "r \<in> set (st_boards s)" for r
      using reported_device [OF reported_row(1) assms(2)] reported_row(1)
      by (auto simp: reported_def disable_duplicate_def)
    have "filter (\<lambda>q. ?D q \<and> bo_enabled q) (st_boards s') = [?upd q]"
    proof (rule filter_singleton [OF dist'])
      show "?upd q \<in> set (st_boards s')" unfolding boards using q(1) by force
      show "?D (?upd q) \<and> bo_enabled (?upd q)"
        using reported_device [OF reported_row(1) assms(2)] reported_row(1) by (simp add: reported_def)
      fix x assume x: "x \<in> set (st_boards s')" "?D x \<and> bo_enabled x"
      then obtain r where "r \<in> set (st_boards s)" "x = ?final r" by (auto simp: boards)
      with f x(2) show "x = ?upd q" by auto
    qed
    moreover have "board_ids s \<subseteq> board_ids s'"
    proof -
      have "map bo_id (st_boards s') = map bo_id (st_boards s)" unfolding boards map_map by (rule map_cong) (simp_all add: id)
      then show ?thesis unfolding board_ids_def by (metis list.set_map order_refl)
    qed
    moreover have "filter (\<lambda>q. \<not> ?D q) (st_boards s') = filter (\<lambda>q. \<not> ?D q) (st_boards s)"
    proof -
      have d: "?D (?final r) = ?D r" for r
        using reported_device [OF reported_row(1) assms(2)] q(2)
        by (auto simp: is_device_def disable_duplicate_def row_mac_def)
      have "filter (\<lambda>q. \<not> ?D q) (map ?final rs) = map ?final (filter (\<lambda>q. \<not> ?D q) rs)" for rs
        by (simp add: filter_map comp_def d)
      moreover have "map ?final (filter (\<lambda>q. \<not> ?D q) rs) = filter (\<lambda>q. \<not> ?D q) rs" for rs
        using q(2) by (intro map_idI) auto
      ultimately show ?thesis by (simp only: boards)
    qed
    ultimately show ?thesis using q(3) id(2) reported_row(1) by (intro exI [of _ "?upd q"]) simp
  qed
qed

lemma board_store_upsert:
  "\<exists>p. upsert_discovered_board quiet_host ''t'' [] (found_board ''e0'' ''a'' ''m'') users_store = (Inr p, board_store)"
  by (simp add: board_store_def upsert_discovered_board_def found_board_def quiet_profile users_store_value device_rows_def
      sort_desc_def uid_suffix_def is_alnum_def ccode_def lower_char_def or_text_def insert_board_def inserted_row_def
      discovered_row_def default_row_def board_known_def prog_defs transaction_def sql_check_def Let_def get_board_def
      board_of_def to_profile_def profile_ok_def)

lemma discovered_board_is_unique_witness:
  "\<exists>r. filter (\<lambda>q. is_device ''a'' ''m'' q \<and> bo_enabled q) (st_boards board_store) = [r] \<and> bo_active_ip r = ''10.0.0.2''"
proof -
  obtain p where p: "upsert_discovered_board quiet_host ''t'' [] (found_board ''e0'' ''a'' ''m'') users_store = (Inr p, board_store)"
    using board_store_upsert by blast
  have "dc_active_mac (found_board ''e0'' ''a'' ''m'') \<noteq> []" by (simp add: found_board_def)
  from discovered_board_is_unique [OF users_store_reachable this p] show ?thesis
    by (auto simp: found_board_def reported_def)
qed

section \<open>Addresses for discovered boards\<close>

text \<open>
  The address chosen for a discovered board is one the same device has already, or, on a NIC without
  a profile, the default, or an address of the NIC's pool that no enabled board of the NIC holds in any
  of its three address columns. The method changes nothing, and it gives up only when the whole pool is
  in use.
\<close>

lemma allocated_address_is_free:
  "case allocated_ip_for_discovery h interface uid mac s of
     (Inr a, s') \<Rightarrow> s' = s \<and>
       ((\<exists>r \<in> set (st_boards s). same_device uid mac r \<and> a \<in> {bo_desired_ip r, bo_active_ip r, bo_ip r}) \<or>
        (ip_pool_for_interface h interface = [] \<and> a = ''192.168.1.128'') \<or>
        (a \<in> set (ip_pool_for_interface h interface) \<and> a \<notin> used_addresses interface s))
   | (Inl e, s') \<Rightarrow> s' = s \<and> e = ManagementError \<and> ip_pool_for_interface h interface \<noteq> [] \<and>
       set (ip_pool_for_interface h interface) \<subseteq> used_addresses interface s \<union> {[]}"
proof -
  let ?pool = "ip_pool_for_interface h interface" and ?used = "used_addresses interface s"
  let ?rows = "sort_desc (\<lambda>r. (bo_last_seen_at r, bo_updated_at r)) (filter (same_device uid mac) (st_boards s))"
  let ?old = "case ?rows of [] \<Rightarrow> None | r # _ \<Rightarrow> Some r"
  let ?preferred = "case auto_fpga_link_profile h interface of None \<Rightarrow> [] | Some p \<Rightarrow> lp_target_ip p"
  let ?candidates = "?preferred # filter (\<lambda>a. a \<noteq> ?preferred) ?pool"
  have old: "r \<in> set (st_boards s) \<and> same_device uid mac r" if r: "?old = Some r" for r
  proof -
    obtain rest where "?rows = r # rest" using r by (cases ?rows) simp_all
    then have "r \<in> set ?rows" by (simp only: list.set_intros)
    then show ?thesis unfolding set_sort_desc by simp
  qed
  have kept: "\<exists>r \<in> set (st_boards s). same_device uid mac r \<and> a \<in> {bo_desired_ip r, bo_active_ip r, bo_ip r}"
    if "kept_address ?pool ?old = Some a" for a
  proof -
    from that obtain r where r: "?old = Some r" "a \<in> {bo_desired_ip r, bo_active_ip r, bo_ip r}"
      by (auto simp: kept_address_def split: option.splits if_splits)
    with old show ?thesis by blast
  qed
  have pref: "?preferred \<in> insert [] (set ?pool)"
    using target_in_pool [of h interface] by (auto split: option.split)
  have set: "set ?candidates \<union> {[]} = set ?pool \<union> {[]}" using pref by auto
  have none: "?pool = [] \<Longrightarrow> auto_fpga_link_profile h interface = None"
    using target_in_pool [of h interface] by (cases "auto_fpga_link_profile h interface") auto
  note run = allocated_ip_for_discovery_def Let_def pbind_def transaction_def pgets_def pret_def praise_def
  show ?thesis
  proof (cases "kept_address ?pool ?old")
    case (Some a)
    then show ?thesis using kept by (simp add: run)
  next
    case None
    show ?thesis
    proof (cases "first_free ?candidates ?used")
      case (Some a)
      from find_SomeD [OF Some [unfolded first_free_def]] have a: "a \<in> set ?candidates" "a \<noteq> []" "a \<notin> ?used" by blast+
      then have "a \<in> set ?pool" "a \<notin> ?used" using set by blast+
      then show ?thesis using \<open>kept_address ?pool ?old = None\<close> Some none by (simp add: run)
    next
      case free: None
      then have "\<forall>a \<in> set ?candidates. a = [] \<or> a \<in> ?used" unfolding first_free_def find_None_iff by blast
      then have "set ?pool \<subseteq> ?used \<union> {[]}" using set by blast
      then show ?thesis using None free none by (simp add: run)
    qed
  qed
qed


section \<open>Logs\<close>

text \<open>Lines are appended with growing identifiers, so the newest lines of a board are its last ones.\<close>

definition logs_ordered :: "store \<Rightarrow> bool" where
  "logs_ordered s \<longleftrightarrow> sorted_wrt (\<lambda>a b. sl_id a < sl_id b) (st_serial_logs s) \<and>
     (\<forall>l \<in> set (st_serial_logs s). sl_id l \<le> seq_serial_logs s)"

lemma logs_ordered_modify:
  "(\<And>s. st_serial_logs (f s) = st_serial_logs s \<and> seq_serial_logs (f s) = seq_serial_logs s) \<Longrightarrow>
   keeps logs_ordered (pmodify f)"
  by (simp add: keeps_def logs_ordered_def)

lemma logs_statements:
  "keeps logs_ordered (update_boards P f)" "keeps logs_ordered (insert_board r)"
  "keeps logs_ordered (insert_user un ph role en now)" "keeps logs_ordered (add_audit now ev msg uid bid meta)"
  "keeps logs_ordered (get_board b)" "keeps logs_ordered (upsert_phase row)"
  "keeps logs_ordered (list_phase_calibrations b)" "keeps logs_ordered (get_artifact i)"
  "keeps logs_ordered (program_job i)" "keeps logs_ordered (insert_lease now b u)" "keeps logs_ordered (end_lease now n st u)"
  unfolding statement_defs
  by (intro keeps_rules logs_ordered_modify; simp add: prog_defs)+

lemma logs_methods:
  "keeps logs_ordered (initialize h env kdf salt now)"
  "keeps logs_ordered (create_user kdf salt now username password role enabled)"
  "keeps logs_ordered (update_user kdf salt uid new_password role enabled)"
  "keeps logs_ordered (create_session token csrf expires now user)" "keeps logs_ordered (delete_session tok)"
  "keeps logs_ordered (update_board h now bid request)" "keeps logs_ordered (update_network_state now bid u)"
  "keeps logs_ordered (upsert_discovered_board h now hexes d)"
  "keeps logs_ordered (lease_board now bid user)" "keeps logs_ordered (release_board now bid user force)"
  "keeps logs_ordered (set_run_owner run_id user)"
  "keeps logs_ordered (save_rfdc_config dump_json now config)"
  "keeps logs_ordered (save_phase_calibration now bid frequency_hz channel phase_deg user)"
  "keeps logs_ordered (set_serial_binding now bid path baud_rate)"
  "keeps logs_ordered (update_serial_state now bid state error_text)"
  "keeps logs_ordered (upsert_discovery now kind fingerprint label details)"
  "keeps logs_ordered (prune_discoveries kind fingerprints)" "keeps logs_ordered (add_artifact row)"
  "keeps logs_ordered (create_program_job job_id now bid artifact_id user)"
  "keeps logs_ordered (update_program_job now job_id state progress error_text)"
  "keeps logs_ordered (add_program_log now job_id line)"
  unfolding method_defs
  by (intro keeps_rules logs_statements logs_ordered_modify; simp)+

lemma logs_add_serial: "keeps logs_ordered (add_serial_log now bid line limit)"
proof (rule keepsI)
  fix s assume o: "logs_ordered s"
  have "sorted_wrt (\<lambda>a b. sl_id a < sl_id b) (st_serial_logs s @ [\<lparr>sl_id = seq_serial_logs s + 1, sl_board_id = bid, sl_line = line, sl_created_at = now\<rparr>])"
    using o by (fastforce simp: logs_ordered_def sorted_wrt_append)
  then show "logs_ordered (snd (add_serial_log now bid line limit s))"
    using o by (fastforce simp: add_serial_log_def transaction_def prog_defs sql_check_def logs_ordered_def
        intro: sorted_wrt_filter simp del: filter_append)
qed

lemma store_reachable_logs: "store_reachable s \<Longrightarrow> logs_ordered s"
proof (induction rule: store_reachable.induct)
  case start
  show ?case by (simp add: logs_ordered_def empty_store_def)
next
  case (step s s')
  from step.hyps(2) step.IH show ?case
    by (induction rule: store_step.induct) (erule keepsD [rotated], rule logs_methods logs_statements logs_add_serial)+
qed

lemma newest_lines_ordered:
  assumes "sorted_wrt (\<lambda>a b. sl_id a < sl_id b) rows" "0 \<le> limit"
  shows "rev (newest_lines bid limit rows) =
    (let own = filter (\<lambda>r. sl_board_id r = bid) rows in drop (length own - nat limit) own)"
proof -
  let ?own = "filter (\<lambda>r. sl_board_id r = bid) rows"
  have s: "sorted_wrt (\<lambda>a b. sl_id a < sl_id b) ?own" using assms(1) by (rule sorted_wrt_filter)
  then have m: "sorted_wrt (<) (map sl_id ?own)" by (simp add: sorted_wrt_map)
  then have d: "distinct ?own" "inj_on sl_id (set ?own)" by (simp_all add: strict_sorted_iff distinct_map)
  have "sort_key sl_id (rev ?own) = ?own"
  proof (rule properties_for_sort_key)
    show "mset ?own = mset (rev ?own)" by simp
    show "sorted (map sl_id ?own)" using m by (simp add: strict_sorted_iff)
    fix k assume k: "k \<in> set ?own"
    have "filter (\<lambda>x. sl_id k = sl_id x) ?own = [k]"
      by (rule filter_singleton [OF d(1) k]) (use d(2) k in \<open>auto dest: inj_onD\<close>)
    moreover have "filter (\<lambda>x. sl_id k = sl_id x) (rev ?own) = [k]"
      by (rule filter_singleton) (use d k in \<open>auto dest: inj_onD\<close>)
    ultimately show "filter (\<lambda>x. sl_id k = sl_id x) ?own = filter (\<lambda>x. sl_id k = sl_id x) (rev ?own)" by simp
  qed
  then show ?thesis using assms(2) by (simp add: newest_lines_def sql_limit_def sort_desc_def Let_def rev_take)
qed

text \<open>
  The serial log of a board is a window of bounded size over what was received: after a line was
  added, the log of the board is the last \<open>limit\<close> lines of the log before and the new line, in the order
  they came, and the logs of the other boards are as before.
\<close>

lemma serial_log_is_a_window:
  assumes "store_reachable s" "add_serial_log now bid line limit s = (Inr r, s')" "0 \<le> limit"
  shows "filter (\<lambda>l. sl_board_id l \<noteq> bid) (st_serial_logs s') = filter (\<lambda>l. sl_board_id l \<noteq> bid) (st_serial_logs s) \<and>
    (let received = map sl_line (filter (\<lambda>l. sl_board_id l = bid) (st_serial_logs s)) @ [line] in
      map sl_line (filter (\<lambda>l. sl_board_id l = bid) (st_serial_logs s')) = drop (length received - nat limit) received \<and>
      length (filter (\<lambda>l. sl_board_id l = bid) (st_serial_logs s')) \<le> nat limit)"
proof -
  let ?rows = "st_serial_logs s @ [\<lparr>sl_id = seq_serial_logs s + 1, sl_board_id = bid, sl_line = line, sl_created_at = now\<rparr>]"
  let ?own = "filter (\<lambda>l. sl_board_id l = bid) ?rows"
  have o: "logs_ordered s" by (rule store_reachable_logs [OF assms(1)])
  then have sorted: "sorted_wrt (\<lambda>a b. sl_id a < sl_id b) ?rows" by (fastforce simp: logs_ordered_def sorted_wrt_append)
  then have "sorted_wrt (<) (map sl_id ?rows)" by (simp add: sorted_wrt_map del: map_append)
  then have inj: "inj_on sl_id (set ?rows)" "distinct ?rows" by (simp_all add: strict_sorted_iff distinct_map del: map_append set_append)
  define keep where "keep = newest_lines bid limit ?rows"
  have keep: "rev keep = drop (length ?own - nat limit) ?own"
    unfolding keep_def newest_lines_ordered [OF sorted assms(3)] Let_def ..
  then have sub: "set keep \<subseteq> set ?own" by (metis set_drop_subset set_rev)
  have s': "st_serial_logs s' = filter (\<lambda>r. sl_board_id r \<noteq> bid \<or> sl_id r \<in> sl_id ` set keep) ?rows"
    using assms(2) by (auto simp: add_serial_log_def transaction_def prog_defs sql_check_def keep_def
        simp del: filter_append split: if_splits)
  have id: "sl_id r \<in> sl_id ` set keep \<longleftrightarrow> r \<in> set keep" if "r \<in> set ?rows" for r
    using inj_on_image_mem_iff [OF inj(1) that] sub by auto
  have own: "filter (\<lambda>l. sl_board_id l = bid) (st_serial_logs s') = filter (\<lambda>r. r \<in> set keep) ?own"
    unfolding s' filter_filter by (rule filter_cong [OF refl]) (use id in auto)
  also have "\<dots> = rev keep"
  proof -
    have "distinct ?own" using inj(2) by (rule distinct_filter)
    then have "filter (\<lambda>r. r \<in> set (drop n ?own)) ?own = drop n ?own" for n
    proof -
      have "filter (\<lambda>r. r \<in> set (drop n ys)) ys = drop n ys" if "distinct ys" for ys :: "serial_log_row list"
      proof -
        have t: "set (take n ys) \<inter> set (drop n ys) = {}" using that by (simp add: set_take_disj_set_drop_if_distinct)
        have "filter (\<lambda>r. r \<in> set (drop n ys)) (take n ys @ drop n ys) = drop n ys"
          using t by (auto simp: filter_empty_conv simp del: append_take_drop_id)
        then show ?thesis by simp
      qed
      then show ?thesis using \<open>distinct ?own\<close> by blast
    qed
    moreover have "set keep = set (rev keep)" by simp
    ultimately show ?thesis by (simp only: keep)
  qed
  finally have own: "filter (\<lambda>l. sl_board_id l = bid) (st_serial_logs s') = drop (length ?own - nat limit) ?own" by (simp only: keep)
  have others: "filter (\<lambda>l. sl_board_id l \<noteq> bid) (st_serial_logs s') = filter (\<lambda>l. sl_board_id l \<noteq> bid) (st_serial_logs s)"
    unfolding s' filter_filter by (auto intro: filter_cong)
  show ?thesis using own others by (simp add: Let_def drop_map [symmetric] del: drop_append)
qed

lemma serial_log_is_a_window_witness:
  "map sl_line (filter (\<lambda>l. sl_board_id l = ''fpga-a'')
     (st_serial_logs (snd (add_serial_log ''t'' ''fpga-a'' ''hello'' 5 board_store)))) = [''hello'']"
proof -
  have k: "board_known ''fpga-a'' board_store"
    using board_store_members(3) by (force simp: board_known_def board_available_def list_ex_iff)
  have l: "st_serial_logs board_store = []"
    by (simp add: board_store_def upsert_discovered_board_def found_board_def quiet_profile users_store_value device_rows_def
        sort_desc_def insert_board_def board_known_def prog_defs transaction_def sql_check_def Let_def get_board_def
        users_store_def create_user_def insert_user_def hash_password_def example_kdf_def empty_store_def
        split: option.splits sum.splits)
  obtain s' where "add_serial_log ''t'' ''fpga-a'' ''hello'' 5 board_store = (Inr (''hello'', ''t''), s')"
    using k by (simp add: add_serial_log_def transaction_def prog_defs sql_check_def)
  from serial_log_is_a_window [OF board_store_reachable this] this show ?thesis by (simp add: l)
qed

section \<open>Programming jobs\<close>

definition one_job_per_board :: "store \<Rightarrow> bool" where
  "one_job_per_board s \<longleftrightarrow> distinct (map pj_board_id (filter job_in_flight (st_jobs s)))"

text \<open>The states in which jobs are updated as the programmer does it: a finished job is not revived.\<close>

inductive jobs_reachable :: "store \<Rightarrow> bool" where
  start: "jobs_reachable empty_store"
| create: "jobs_reachable s \<Longrightarrow> jobs_reachable (snd (create_program_job job_id now bid artifact_id user s))"
| update: "jobs_reachable s \<Longrightarrow>
    state \<in> {''QUEUED'', ''PREFLIGHT'', ''RUNNING''} \<longrightarrow> list_all (\<lambda>j. pj_id j = job_id \<longrightarrow> job_in_flight j) (st_jobs s) \<Longrightarrow>
    jobs_reachable (snd (update_program_job now job_id state progress error_text s))"
| other: "jobs_reachable s \<Longrightarrow> store_step s s' \<Longrightarrow> st_jobs s' = st_jobs s \<Longrightarrow> jobs_reachable s'"

lemma jobs_reachable_store: "jobs_reachable s \<Longrightarrow> store_reachable s"
  by (induction rule: jobs_reachable.induct) (auto intro: store_reachable.intros store_step.intros)

lemma snd_program_job [simp]: "snd (program_job i s) = s"
  by (auto simp: program_job_def prog_defs split: option.splits)

lemma create_program_job_cases:
  obtains (refused) e where "create_program_job job_id now bid artifact_id user s = (Inl e, s)"
      "list_ex (\<lambda>j. pj_board_id j = bid \<and> job_in_flight j) (st_jobs s) \<Longrightarrow> e = ManagementError"
  | (created) j where "\<not> list_ex (\<lambda>j. pj_board_id j = bid \<and> job_in_flight j) (st_jobs s)" "pj_board_id j = bid" "pj_state j = ''QUEUED''"
      "pj_id j = job_id" "snd (create_program_job job_id now bid artifact_id user s) = s\<lparr>st_jobs := st_jobs s @ [j]\<rparr>"
proof (cases "list_ex (\<lambda>j. pj_board_id j = bid \<and> job_in_flight j) (st_jobs s)")
  case True
  then have "create_program_job job_id now bid artifact_id user s = (Inl ManagementError, s)"
    by (simp add: create_program_job_def transaction_def prog_defs)
  then show thesis using refused by blast
next
  case False
  let ?ok = "job_id \<notin> pj_id ` set (st_jobs s) \<and> board_known bid s \<and> artifact_id \<in> ar_id ` set (st_artifacts s) \<and> user_known (ur_id user) s"
  show thesis
  proof (cases ?ok)
    case True
    let ?j = "\<lparr>pj_id = job_id, pj_board_id = bid, pj_artifact_id = artifact_id, pj_state = ''QUEUED'',
            pj_progress = 0, pj_error = [], pj_created_by = ur_id user, pj_created_at = now, pj_updated_at = now\<rparr>"
    have "snd (create_program_job job_id now bid artifact_id user s) = s\<lparr>st_jobs := st_jobs s @ [?j]\<rparr>"
      using True False by (simp add: create_program_job_def transaction_def prog_defs sql_check_def)
    then show thesis by (rule created [OF False, rotated -1]) simp_all
  next
    case n: False
    then have "create_program_job job_id now bid artifact_id user s = (Inl IntegrityError, s)"
      using False by (simp add: create_program_job_def transaction_def prog_defs sql_check_def)
    then show thesis using refused False by blast
  qed
qed

lemma update_program_job_jobs:
  "st_jobs (snd (update_program_job now job_id state progress error_text s)) = sql_update (\<lambda>j. pj_id j = job_id)
     (\<lambda>j. j\<lparr>pj_state := state, pj_progress := progress, pj_error := error_text, pj_updated_at := now\<rparr>) (st_jobs s)"
  by (simp add: update_program_job_def transaction_def prog_defs)

lemma one_job_update:
  assumes "\<And>j. pj_board_id (f j) = pj_board_id j" "distinct (map pj_board_id (filter job_in_flight js))"
    "\<forall>j \<in> set js. P j \<longrightarrow> job_in_flight (f j) \<longrightarrow> job_in_flight j"
  shows "distinct (map pj_board_id (filter job_in_flight (sql_update P f js))) \<and>
    pj_board_id ` set (filter job_in_flight (sql_update P f js)) \<subseteq> pj_board_id ` set (filter job_in_flight js)"
  using assms(2,3)
proof (induction js)
  case (Cons j js)
  then have IH: "distinct (map pj_board_id (filter job_in_flight (sql_update P f js)))"
    "pj_board_id ` set (filter job_in_flight (sql_update P f js)) \<subseteq> pj_board_id ` set (filter job_in_flight js)"
    by (simp_all split: if_splits)
  have c: "sql_update P f (j # js) = (if P j then f j else j) # sql_update P f js" by (simp add: sql_update_def)
  show ?case
  proof (cases "job_in_flight (if P j then f j else j)")
    case True
    then have j: "job_in_flight j" using Cons.prems(2) by (cases "P j") simp_all
    then have "pj_board_id j \<notin> pj_board_id ` set (filter job_in_flight js)" using Cons.prems(1) by simp
    then show ?thesis using IH True j assms(1) unfolding c by auto
  next
    case False
    then show ?thesis using IH unfolding c by auto
  qed
qed (simp add: sql_update_def)

lemma job_not_in_flight: "state \<notin> {''QUEUED'', ''PREFLIGHT'', ''RUNNING''} \<Longrightarrow> \<not> job_in_flight (j\<lparr>pj_state := state, pj_progress := p, pj_error := e, pj_updated_at := t\<rparr>)"
  by (simp add: job_in_flight_def)

lemma one_job_created: "one_job_per_board s \<Longrightarrow> one_job_per_board (snd (create_program_job job_id now bid artifact_id user s))"
proof (rule create_program_job_cases [where s = s and job_id = job_id and now = now and bid = bid and artifact_id = artifact_id and user = user], goal_cases)
  case (2 j)
  then show ?case by (auto simp: one_job_per_board_def list_ex_iff)
qed simp

lemma jobs_reachable_one_job: "jobs_reachable s \<Longrightarrow> one_job_per_board s"
proof (induction rule: jobs_reachable.induct)
  case (update s state job_id now progress error_text)
  have "distinct (map pj_board_id (filter job_in_flight (sql_update (\<lambda>j. pj_id j = job_id)
      (\<lambda>j. j\<lparr>pj_state := state, pj_progress := progress, pj_error := error_text, pj_updated_at := now\<rparr>) (st_jobs s))))"
  proof (rule conjunct1 [OF one_job_update])
    show "\<forall>j \<in> set (st_jobs s). pj_id j = job_id \<longrightarrow>
       job_in_flight (j\<lparr>pj_state := state, pj_progress := progress, pj_error := error_text, pj_updated_at := now\<rparr>) \<longrightarrow> job_in_flight j"
      using update.hyps(2) by (auto simp: list_all_iff job_in_flight_def)
  qed (use update.IH in \<open>simp_all add: one_job_per_board_def\<close>)
  then show ?case by (simp add: one_job_per_board_def update_program_job_jobs)
qed (simp_all add: one_job_per_board_def empty_store_def one_job_created [unfolded one_job_per_board_def])


text \<open>The operations outside the programmer leave the jobs alone; start-up is one of them.\<close>

lemma jobs_modify: "(\<And>s. st_jobs (f s) = st_jobs s) \<Longrightarrow> keeps (\<lambda>s. st_jobs s = js) (pmodify f)"
  by (simp add: keeps_def)

lemma jobs_statements:
  "keeps (\<lambda>s. st_jobs s = js) (update_boards P f)" "keeps (\<lambda>s. st_jobs s = js) (insert_board r)"
  "keeps (\<lambda>s. st_jobs s = js) (insert_user un ph role en now)" "keeps (\<lambda>s. st_jobs s = js) (get_board b)"
  "keeps (\<lambda>s. st_jobs s = js) (get_artifact i)"
  unfolding statement_defs by (intro keeps_rules jobs_modify; simp add: prog_defs)+

lemma jobs_methods:
  "keeps (\<lambda>s. st_jobs s = js) (initialize h env kdf salt now)"
  "keeps (\<lambda>s. st_jobs s = js) (create_user kdf salt now username password role enabled)"
  "keeps (\<lambda>s. st_jobs s = js) (upsert_discovered_board h now hexes d)"
  "keeps (\<lambda>s. st_jobs s = js) (add_artifact row)"
  unfolding method_defs by (intro keeps_rules jobs_statements jobs_modify; simp)+

definition example_artifact :: artifact_row where
  "example_artifact = \<lparr>ar_id = ''f'', ar_label = [], ar_target_profile = [], ar_bit_name = [], ar_elf_name = [], ar_bit_path = [],
     ar_elf_path = [], ar_bit_sha256 = [], ar_elf_sha256 = [], ar_bit_size = 0, ar_elf_size = 0, ar_created_by = 1, ar_created_at = []\<rparr>"

definition job_store :: store where
  "job_store = snd (create_program_job ''j'' ''t'' ''fpga-a'' ''f'' (example_user 1) (snd (add_artifact example_artifact board_store)))"

lemma board_store_jobs: "jobs_reachable board_store"
  unfolding board_store_def users_store_def
  by (intro jobs_reachable.other [OF _ store_step.discovered] jobs_reachable.other [OF _ store_step.create_user]
      jobs_reachable.start) (rule keepsD [OF jobs_methods(2)] keepsD [OF jobs_methods(3)], rule refl)+

lemma job_store_reachable: "jobs_reachable job_store"
  unfolding job_store_def
  by (intro jobs_reachable.create jobs_reachable.other [OF board_store_jobs store_step.artifact])
    (rule keepsD [OF jobs_methods(4)], rule refl)

lemma job_store_jobs: "map (\<lambda>j. (pj_id j, pj_board_id j, pj_state j)) (st_jobs job_store) = [(''j'', ''fpga-a'', ''QUEUED'')]"
proof -
  have "st_jobs board_store = []" unfolding board_store_def users_store_def
    by (intro keepsD [OF jobs_methods(3)] keepsD [OF jobs_methods(2)]) (simp add: empty_store_def)
  moreover have "st_artifacts board_store = []"
    by (simp add: board_store_def upsert_discovered_board_def found_board_def quiet_profile users_store_value device_rows_def
        sort_desc_def uid_suffix_def is_alnum_def ccode_def lower_char_def or_text_def insert_board_def inserted_row_def
        discovered_row_def default_row_def board_known_def prog_defs transaction_def sql_check_def Let_def get_board_def
        users_store_def create_user_def insert_user_def hash_password_def example_kdf_def empty_store_def
        split: option.splits sum.splits)
  moreover obtain r where "st_boards board_store = [r]" "bo_id r = ''fpga-a''"
    using board_store_value(3) by (auto simp: map_eq_Cons_conv)
  ultimately show ?thesis
    by (simp add: job_store_def add_artifact_def create_program_job_def get_artifact_def program_job_def example_artifact_def
        example_user_def prog_defs transaction_def sql_check_def user_known_def board_known_def board_store_value users_store_value
        username_of_def job_valid_def)
qed


text \<open>
  A job that was in flight when the process stopped blocks its board: start-up leaves the jobs alone, so
  every later job of the board is refused.
\<close>

lemma interrupted_job_blocks_board:
  assumes "list_ex (\<lambda>j. pj_board_id j = bid \<and> job_in_flight j) (st_jobs s)"
  shows "fst (create_program_job job_id now bid artifact_id user (snd (initialize h env kdf salt now' s))) = Inl ManagementError"
proof -
  have "st_jobs (snd (initialize h env kdf salt now' s)) = st_jobs s" by (rule keepsD [OF jobs_methods(1)]) (rule refl)
  then show ?thesis using assms by (simp add: create_program_job_def transaction_def prog_defs)
qed

section \<open>Two faults of the inventory\<close>

lemma upsert_row:
  assumes wf: "store_wf s" and mac: "dc_active_mac d \<noteq> []" and ok: "upsert_discovered_board h now hexes d s = (Inr p, s')"
    and profile: "auto_fpga_link_profile h (dc_udp_interface d) = Some profile"
  shows "\<exists>r \<in> set (st_boards s'). bo_id r = bo_id (bp_row p) \<and> reported d r \<and>
    bo_serial_path r = or_text (lp_serial_path profile) (bo_serial_path r) \<and>
    bo_jtag_cable_serial r = or_text (lp_jtag_cable_serial profile) (bo_jtag_cable_serial r)"
    and "r \<in> set (st_boards s) \<Longrightarrow> \<not> is_device (dc_device_uid d) (dc_active_mac d) r \<Longrightarrow>
    r \<in> set (st_boards s') \<and> bo_id r \<noteq> bo_id (bp_row p)"
proof -
  let ?D = "is_device (dc_device_uid d) (dc_active_mac d)" and ?p = "auto_fpga_link_profile h (dc_udp_interface d)"
  let ?Q = "\<lambda>r. bo_id r = bo_id (bp_row p) \<and> reported d r \<and>
    bo_serial_path r = or_text (lp_serial_path profile) (bo_serial_path r) \<and>
    bo_jtag_cable_serial r = or_text (lp_jtag_cable_serial profile) (bo_jtag_cable_serial r)"
  have dist: "distinct (map bo_id (st_boards s))" using wf by (simp add: store_wf_def boards_ok_def)
  have inj: "r = r'" if "bo_id r = bo_id r'" "r \<in> set (st_boards s)" "r' \<in> set (st_boards s)" for r r'
    using dist that by (auto simp: distinct_map dest: inj_onD)
  have ort: "or_text x (or_text x y) = or_text x y" for x y by (simp add: or_text_def)
  have row: "?Q (discovered_row ?p now d r)" if "bo_id r = bo_id (bp_row p)" for r
    using that reported_row(1) by (simp add: discovered_row_def profile ort reported_def)
  have "(\<exists>r \<in> set (st_boards s'). ?Q r) \<and>
      (\<forall>r \<in> set (st_boards s). \<not> ?D r \<longrightarrow> r \<in> set (st_boards s') \<and> bo_id r \<noteq> bo_id (bp_row p))"
  proof (rule upsert_boards [OF wf mac ok], goal_cases)
    case (1 q dups)
    let ?dis = "\<lambda>r. if bo_id r \<in> bo_id ` set dups then disable_duplicate now r else r"
    have b: "st_boards s' = map (\<lambda>r. if bo_id r = bo_id q then discovered_row ?p now d (?dis r) else ?dis r) (st_boards s)"
      unfolding 1(5) by (auto simp: sql_update_def disable_duplicate_def)
    have "bo_id (?dis q) = bo_id (bp_row p)" by (simp add: 1(3) disable_duplicate_def)
    then have "?Q (discovered_row ?p now d (?dis q))" by (rule row)
    moreover have "discovered_row ?p now d (?dis q) \<in> set (st_boards s')" unfolding b using 1(1) by force
    moreover have "r \<in> set (st_boards s') \<and> bo_id r \<noteq> bo_id (bp_row p)" if r: "r \<in> set (st_boards s)" "\<not> ?D r" for r
    proof -
      have n: "bo_id r \<noteq> bo_id q" using inj [OF _ r(1) 1(1)] r(2) 1(2) by auto
      have "bo_id r \<notin> bo_id ` set dups" using inj [OF _ r(1)] r(2) unfolding 1(4) by auto
      then have "r = (if bo_id r = bo_id q then discovered_row ?p now d (?dis r) else ?dis r)" using n by simp
      then have "r \<in> set (st_boards s')" unfolding b set_map using r(1) by (rule image_eqI)
      then show ?thesis using n 1(3) by simp
    qed
    ultimately show ?case by blast
  next
    case (2 board_id suffix)
    have "?Q (inserted_row ?p now d board_id suffix)"
      unfolding inserted_row_def by (rule row) (simp add: 2(3) default_row_def)
    moreover have "r \<in> set (st_boards s') \<and> bo_id r \<noteq> bo_id (bp_row p)" if r: "r \<in> set (st_boards s)" for r
    proof -
      have "bo_id r \<in> bo_id ` set (st_boards s)" using r by (rule imageI)
      then have "bo_id r \<noteq> board_id" using 2(2) by metis
      then show ?thesis using r unfolding 2(3,4) by simp
    qed
    ultimately show ?case using 2(4) by auto
  qed
  then show "\<exists>r \<in> set (st_boards s'). ?Q r"
    and "r \<in> set (st_boards s) \<Longrightarrow> \<not> ?D r \<Longrightarrow> r \<in> set (st_boards s') \<and> bo_id r \<noteq> bo_id (bp_row p)" by blast+
qed

lemma set_serial_binding_conflict:
  "r \<in> set (st_boards s) \<Longrightarrow> bo_serial_path r = path \<Longrightarrow> bo_id r \<noteq> bid \<Longrightarrow> board_known bid s \<Longrightarrow>
   set_serial_binding now bid path baud s = (Inl ManagementError, s)"
  by (auto simp: set_serial_binding_def transaction_def prog_defs serial_conflict_def list_ex_iff)

text \<open>
  Two devices found on one of the two fixed NICs get the same JTAG cable and the same serial port,
  those of the NIC's profile: the schema does not keep the port of a board exclusive, although binding it
  by hand is refused for both boards with the complaint that the other has it. A bit file for one of them
  is loaded through the cable of the other.
\<close>

lemma fixed_nic_shares_cables:
  assumes "store_reachable s" "map_of AUTO_FPGA_LINK_PROFILES (dc_udp_interface d1) = Some profile"
    "dc_udp_interface d2 = dc_udp_interface d1" "dc_active_mac d1 \<noteq> []" "dc_active_mac d2 \<noteq> []"
    "\<not> (dc_device_uid d1 = dc_device_uid d2 \<and> mac_match (dc_active_mac d1) (dc_active_mac d2))"
    "upsert_discovered_board h t1 hexes1 d1 s = (Inr p1, s1)"
    "upsert_discovered_board h t2 hexes2 d2 s1 = (Inr p2, s2)"
  shows "\<exists>r1 \<in> set (st_boards s2). \<exists>r2 \<in> set (st_boards s2).
    bo_id r1 = bo_id (bp_row p1) \<and> bo_id r2 = bo_id (bp_row p2) \<and> bo_id r1 \<noteq> bo_id r2 \<and> bo_enabled r1 \<and> bo_enabled r2 \<and>
    bo_serial_path r1 = lp_serial_path profile \<and> bo_serial_path r2 = lp_serial_path profile \<and>
    bo_jtag_cable_serial r1 = lp_jtag_cable_serial profile \<and> bo_jtag_cable_serial r2 = lp_jtag_cable_serial profile \<and>
    set_serial_binding now (bo_id r1) (lp_serial_path profile) baud s2 = (Inl ManagementError, s2) \<and>
    set_serial_binding now (bo_id r2) (lp_serial_path profile) baud s2 = (Inl ManagementError, s2)"
proof -
  have pr: "auto_fpga_link_profile h (dc_udp_interface d1) = Some profile" "auto_fpga_link_profile h (dc_udp_interface d2) = Some profile"
    using assms(2,3) by (simp_all add: auto_fpga_link_profile_def)
  have "profile \<in> snd ` set AUTO_FPGA_LINK_PROFILES" using map_of_SomeD [OF assms(2)] by force
  then have ne: "lp_serial_path profile \<noteq> []" "lp_jtag_cable_serial profile \<noteq> []"
    by (auto simp: AUTO_FPGA_LINK_PROFILES_def)
  have wf1: "store_wf s" by (rule store_reachable_wf [OF assms(1)])
  have wf2: "store_wf s1" using keepsD [OF wf_board_methods(8) wf1, of h t1 hexes1 d1] assms(7) by simp
  obtain r1 where r1: "r1 \<in> set (st_boards s1)" "bo_id r1 = bo_id (bp_row p1)" "reported d1 r1"
    "bo_serial_path r1 = lp_serial_path profile" "bo_jtag_cable_serial r1 = lp_jtag_cable_serial profile"
    using upsert_row(1) [OF wf1 assms(4,7) pr(1)] ne by (auto simp: or_text_def)
  obtain r2 where r2: "r2 \<in> set (st_boards s2)" "bo_id r2 = bo_id (bp_row p2)" "reported d2 r2"
    "bo_serial_path r2 = lp_serial_path profile" "bo_jtag_cable_serial r2 = lp_jtag_cable_serial profile"
    using upsert_row(1) [OF wf2 assms(5,8) pr(2)] ne by (auto simp: or_text_def)
  have "\<not> is_device (dc_device_uid d2) (dc_active_mac d2) r1"
    using r1(3) assms(4,6) by (auto simp: is_device_def reported_def row_mac_def or_text_def)
  from upsert_row(2) [OF wf2 assms(5,8) pr(2) r1(1) this] have o: "r1 \<in> set (st_boards s2)" "bo_id r1 \<noteq> bo_id r2"
    by (simp_all add: r2(2))
  then have k: "board_known (bo_id r1) s2" "board_known (bo_id r2) s2" using r2(1) by (auto simp: board_known_def)
  have "set_serial_binding now (bo_id r1) (lp_serial_path profile) baud s2 = (Inl ManagementError, s2)"
    by (rule set_serial_binding_conflict [OF r2(1,4) _ k(1)]) (use o in simp)
  moreover have "set_serial_binding now (bo_id r2) (lp_serial_path profile) baud s2 = (Inl ManagementError, s2)"
    by (rule set_serial_binding_conflict [OF o(1) r1(4) _ k(2)]) (use o in simp)
  ultimately show ?thesis using o r1 r2 by (intro bexI [OF _ o(1)] bexI [OF _ r2(1)]) (simp add: reported_def)
qed

definition two_found :: "nat \<Rightarrow> store" where
  "two_found n = (if n = 1 then snd (upsert_discovered_board quiet_host ''t'' [] (found_board ''enp225s0f0'' ''a'' ''m'') users_store)
     else snd (upsert_discovered_board quiet_host ''t'' [] (found_board ''enp225s0f0'' ''b'' ''n'') (snd (upsert_discovered_board quiet_host ''t'' [] (found_board ''enp225s0f0'' ''a'' ''m'') users_store))))"

lemmas upsert_eval = upsert_discovered_board_def found_board_def device_rows_def sort_desc_def uid_suffix_def is_alnum_def
  ccode_def lower_char_def or_text_def insert_board_def inserted_row_def discovered_row_def default_row_def board_known_def
  prog_defs transaction_def sql_check_def Let_def get_board_def board_of_def to_profile_def profile_ok_def

lemma two_found_upserts:
  "\<exists>p. upsert_discovered_board quiet_host ''t'' [] (found_board ''enp225s0f0'' ''a'' ''m'') users_store = (Inr p, two_found 1) \<and>
     bo_id (bp_row p) = ''fpga-a''"
  "\<exists>p. upsert_discovered_board quiet_host ''t'' [] (found_board ''enp225s0f0'' ''b'' ''n'') (two_found 1) = (Inr p, two_found 2) \<and>
     bo_id (bp_row p) = ''fpga-b''"
  by (simp_all add: two_found_def upsert_eval users_store_value auto_fpga_link_profile_def AUTO_FPGA_LINK_PROFILES_def)

lemma fixed_nic_shares_cables_witness:
  "\<exists>r1 \<in> set (st_boards (two_found 2)). \<exists>r2 \<in> set (st_boards (two_found 2)). bo_id r1 = ''fpga-a'' \<and> bo_id r2 = ''fpga-b'' \<and>
     bo_jtag_cable_serial r1 = ''210512180081'' \<and> bo_jtag_cable_serial r2 = ''210512180081''"
proof -
  obtain p1 p2 where p: "upsert_discovered_board quiet_host ''t'' [] (found_board ''enp225s0f0'' ''a'' ''m'') users_store = (Inr p1, two_found 1)"
    "bo_id (bp_row p1) = ''fpga-a''"
    "upsert_discovered_board quiet_host ''t'' [] (found_board ''enp225s0f0'' ''b'' ''n'') (two_found 1) = (Inr p2, two_found 2)"
    "bo_id (bp_row p2) = ''fpga-b''"
    using two_found_upserts by blast
  obtain profile where m: "map_of AUTO_FPGA_LINK_PROFILES (dc_udp_interface (found_board ''enp225s0f0'' ''a'' ''m'')) = Some profile"
    "lp_jtag_cable_serial profile = ''210512180081''"
    by (simp add: AUTO_FPGA_LINK_PROFILES_def found_board_def)
  show ?thesis
    using fixed_nic_shares_cables [OF users_store_reachable m(1) _ _ _ _ p(1,3)] p(2,4) m(2)
    by (simp add: found_board_def mac_match_def plain_mac_def lower_def lower_char_def ccode_def) blast
qed

text \<open>
  The simulated boards do not survive a restart: the first start seeds two enabled boards without a
  MAC; the repair of legacy rows at the next start takes them for legacy rows and disables both, and as
  the table is not empty they are not seeded again. The list of boards is empty from then on.
\<close>

lemma seeded_boards_vanish:
  assumes "sd_simulation_boards env" "hash_password kdf (sd_admin_password env) salt = Inr password_hash"
    "initialize h env kdf salt t1 empty_store = (r1, s1)" "initialize h env2 kdf2 salt2 t2 s1 = (r2, s2)"
  shows "r1 = Inr () \<and> map (\<lambda>r. (bo_id r, bo_enabled r)) (st_boards s1) = [(''board-a'', True), (''board-b'', True)] \<and>
    r2 = Inr () \<and> map (\<lambda>r. (bo_id r, bo_enabled r)) (st_boards s2) = [(''board-a'', False), (''board-b'', False)] \<and>
    list_boards s2 = (Inr [], s2)"
proof -
  have p: "\<exists>q. auto_fpga_link_profile h ''enp225s0f0'' = Some q" "\<exists>q. auto_fpga_link_profile h ''enp225s0f1'' = Some q"
    by (simp_all add: auto_fpga_link_profile_def AUTO_FPGA_LINK_PROFILES_def)
  then obtain q0 q1 where q: "auto_fpga_link_profile h ''enp225s0f0'' = Some q0" "auto_fpga_link_profile h ''enp225s0f1'' = Some q1"
    by blast
  let ?rows = "[seed_board h t1 (''board-a'', ''XCZU47DR A'', ''enp225s0f0'', ''custom_xczu47dr''),
      seed_board h t1 (''board-b'', ''XCZU47DR B'', ''enp225s0f1'', ''custom_xczu47dr_slave'')]"
  have "initialize h env kdf salt t1 empty_store = (Inr (), snd (initialize h env kdf salt t1 empty_store)) \<and>
      st_boards (snd (initialize h env kdf salt t1 empty_store)) = ?rows \<and> st_users (snd (initialize h env kdf salt t1 empty_store)) \<noteq> []"
    by (simp add: initialize_def cleanup_legacy_inventory_def repair_auto_profiles_def q update_boards_def seed_def assms(1,2)
        insert_user_def insert_board_def board_known_def prog_defs transaction_def sql_check_def sql_update_def empty_store_def
        seed_board_def default_row_def Let_def)
  then have s1: "r1 = Inr ()" "st_boards s1 = ?rows" "st_users s1 \<noteq> []" using assms(3) by simp_all
  have "initialize h env2 kdf2 salt2 t2 s1 = (Inr (), snd (initialize h env2 kdf2 salt2 t2 s1)) \<and>
      map (\<lambda>r. (bo_id r, bo_enabled r)) (st_boards (snd (initialize h env2 kdf2 salt2 t2 s1))) = [(''board-a'', False), (''board-b'', False)]"
    by (simp add: initialize_def cleanup_legacy_inventory_def repair_auto_profiles_def q update_boards_def seed_def s1
        prog_defs transaction_def sql_check_def sql_update_def seed_board_def default_row_def Let_def fill_network_columns_def or_text_def)
  then have s2: "r2 = Inr ()" "map (\<lambda>r. (bo_id r, bo_enabled r)) (st_boards s2) = [(''board-a'', False), (''board-b'', False)]"
    using assms(4) by simp_all
  then have "filter bo_enabled (st_boards s2) = []" by (auto simp: map_eq_Cons_conv)
  then have "list_boards s2 = (Inr [], s2)" by (simp add: list_boards_def prog_defs transaction_def)
  then show ?thesis using s1(1,2) s2 by (simp add: seed_board_def default_row_def Let_def)
qed

lemma seeded_boards_vanish_witness:
  "fst (list_boards (snd (initialize quiet_host \<lparr>sd_admin_username = ''admin'', sd_admin_password = ''pw'', sd_simulation_boards = True\<rparr>
      example_kdf [] ''t'' (snd (initialize quiet_host \<lparr>sd_admin_username = ''admin'', sd_admin_password = ''pw'',
        sd_simulation_boards = True\<rparr> example_kdf [] ''t'' empty_store))))) = Inr []"
proof -
  let ?env = "\<lparr>sd_admin_username = ''admin'', sd_admin_password = ''pw'', sd_simulation_boards = True\<rparr>"
  obtain ph where "hash_password example_kdf (sd_admin_password ?env) [] = Inr ph"
    by (simp add: hash_password_def example_kdf_def)
  from seeded_boards_vanish [OF _ this surjective_pairing surjective_pairing] show ?thesis by simp
qed

end
