(* ===== verification/Hardware_Services.thy ===== *)
theory Hardware_Services
  imports Rfdc_Service Mgmt_Theorems
begin

text \<open>
  The hardware services of the web application (\<open>webapp/hardware_services.py\<close>): the readers of the boards'
  serial ports, the scan for ports and JTAG cables, and the programming of a board. What the operating
  system, the deployment tool and the boards answer are parameters; a reader's thread is an event that stops
  it, and what it does is \<open>read_loop\<close>.
\<close>

section \<open>State\<close>

record 'g services =
  sv_app :: "'g app"
  sv_entries :: "string \<Rightarrow> nat option"
  sv_readers :: "board_row list"
  sv_stopped :: "nat set"

definition sv_mgmt :: "(store, 'a) prog \<Rightarrow> ('g services, 'a) prog" where
  "sv_mgmt m s = (case with_mgmt m (sv_app s) of (r, t) \<Rightarrow> (r, s\<lparr>sv_app := t\<rparr>))"

definition sv_coord :: "('g coord, 'a) prog \<Rightarrow> ('g services, 'a) prog" where
  "sv_coord m s = (case with_coord m (sv_app s) of (r, t) \<Rightarrow> (r, s\<lparr>sv_app := t\<rparr>))"

definition emit :: "string \<Rightarrow> string \<Rightarrow> ('g services, unit) prog" where
  "emit event_type ident = sv_coord (publish (ServiceEvent event_type ident))"

section \<open>Readers of the serial ports\<close>

text \<open>The entry of a board is its reader's stop event, numbered in the order of creation.\<close>

definition stop_board :: "string \<Rightarrow> ('g services, unit) prog" where
  "stop_board board_id =
     pbind (pgets (\<lambda>s. sv_entries s board_id)) (\<lambda>entry.
     pthen (pmodify (\<lambda>s. s\<lparr>sv_entries := (sv_entries s)(board_id := None)\<rparr>)) (
     case entry of None \<Rightarrow> pret () | Some e \<Rightarrow> pmodify (\<lambda>s. s\<lparr>sv_stopped := insert e (sv_stopped s)\<rparr>)))"

definition start_reader :: "string \<Rightarrow> string \<Rightarrow> ('g services, unit) prog" where
  "start_reader now board_id =
     pbind (sv_mgmt (get_board board_id)) (\<lambda>board.
     if \<not> bo_enabled (bp_row board) \<or> bo_serial_path (bp_row board) = [] then
       sv_mgmt (update_serial_state now board_id (if bo_serial_path (bp_row board) = [] then ''missing'' else ''disabled'') [])
     else
       pmodify (\<lambda>s. s\<lparr>sv_entries := (sv_entries s)(board_id \<mapsto> length (sv_readers s)), sv_readers := sv_readers s @ [bp_row board]\<rparr>))"

definition refresh_board :: "string \<Rightarrow> string \<Rightarrow> ('g services, unit) prog" where
  "refresh_board now board_id = pthen (stop_board board_id) (start_reader now board_id)"

definition serial_start :: "string \<Rightarrow> ('g services, unit) prog" where
  "serial_start now =
     pbind (sv_mgmt list_boards) (\<lambda>boards. pfor boards (\<lambda>board. refresh_board now (bo_id (bp_row board))))"

definition serial_stop :: "('g services, unit) prog" where
  "serial_stop =
     pmodify (\<lambda>s. s\<lparr>sv_entries := Map.empty, sv_stopped := sv_stopped s \<union> ran (sv_entries s)\<rparr>)"

text \<open>What a reader meets between two waits: no library, a port that does not open, or lines and an end.\<close>

datatype serial_attempt = NoLibrary | NotOpened pyerror | Reads "string list" "pyerror option"

definition rstrip_newline :: "string \<Rightarrow> string" where
  "rstrip_newline raw = rev (dropWhile (\<lambda>c. c = CHR 0x0D \<or> c = CHR 0x0A) (rev raw))"

definition read_line :: "string \<Rightarrow> string \<Rightarrow> int \<Rightarrow> string \<Rightarrow> ('g services, unit) prog" where
  "read_line now board_id log_limit raw =
     (if rstrip_newline raw = [] then pret ()
      else pthen (sv_mgmt (add_serial_log now board_id (rstrip_newline raw) log_limit)) (emit ''serial.line'' board_id))"

definition read_session :: "string \<Rightarrow> string \<Rightarrow> int \<Rightarrow> serial_attempt \<Rightarrow> ('g services, unit) prog" where
  "read_session now board_id log_limit attempt =
     (case attempt of
        NoLibrary \<Rightarrow> praise ManagementError
      | NotOpened e \<Rightarrow> pthen (sv_mgmt (update_serial_state now board_id ''connecting'' [])) (praise e)
      | Reads raws final \<Rightarrow>
          pthen (sv_mgmt (update_serial_state now board_id ''connecting'' [])) (
          pthen (sv_mgmt (update_serial_state now board_id ''open'' [])) (
          pthen (emit ''serial.status'' board_id) (
          pthen (pfor raws (read_line now board_id log_limit)) (
          case final of None \<Rightarrow> pret () | Some e \<Rightarrow> praise e)))))"

text \<open>The loop ends when the event is set, which is when the attempts end.\<close>

fun read_loop :: "(pyerror \<Rightarrow> string) \<Rightarrow> string \<Rightarrow> string \<Rightarrow> int \<Rightarrow> serial_attempt list \<Rightarrow> ('g services, unit) prog" where
  "read_loop text_of now board_id log_limit [] = pret ()"
| "read_loop text_of now board_id log_limit (attempt # later) =
     pthen (pcatch (read_session now board_id log_limit attempt)
              (\<lambda>e. pthen (sv_mgmt (update_serial_state now board_id ''error'' (text_of e))) (emit ''serial.status'' board_id)))
       (read_loop text_of now board_id log_limit later)"

section \<open>Discovery\<close>

record usb_port =
  up_device :: string
  up_manufacturer :: "string option"
  up_serial_number :: "string option"
  up_vid :: "nat option"
  up_pid :: "nat option"

record serial_info =
  si_path :: string
  si_manufacturer :: string
  si_serial_number :: string
  si_vendor_id :: string
  si_product_id :: string
  si_bound_board_id :: "string option"

text \<open>\<open>Path(_).name\<close>, and the names \<open>ttyUSB\<close> and digits.\<close>

definition path_name :: "string \<Rightarrow> string" where
  "path_name path =
     (case rev (filter (\<lambda>c. c \<noteq> [] \<and> c \<noteq> ''.'') (split_on (CHR 0x2F) path)) of [] \<Rightarrow> [] | name # _ \<Rightarrow> name)"

definition is_tty_usb :: "string \<Rightarrow> bool" where
  "is_tty_usb name \<longleftrightarrow> take 6 name = ''ttyUSB'' \<and> drop 6 name \<noteq> [] \<and> list_all (is_digit 10) (drop 6 name)"

definition opt_text :: "string option \<Rightarrow> string" where
  "opt_text t = (case t of None \<Rightarrow> [] | Some s \<Rightarrow> s)"

definition usb_id :: "nat option \<Rightarrow> string" where
  "usb_id v = (case v of None \<Rightarrow> [] | Some n \<Rightarrow> if n = 0 then [] else hex_digits 4 n)"

definition port_info :: "board_profile list \<Rightarrow> usb_port \<Rightarrow> serial_info" where
  "port_info boards port =
     \<lparr>si_path = up_device port, si_manufacturer = opt_text (up_manufacturer port), si_serial_number = opt_text (up_serial_number port),
      si_vendor_id = usb_id (up_vid port), si_product_id = usb_id (up_pid port),
      si_bound_board_id = board_by bo_serial_path boards (up_device port)\<rparr>"

definition port_details :: "serial_info \<Rightarrow> details" where
  "port_details info =
     map_of [(''path'', si_path info), (''stable_path'', []), (''serial_number'', si_serial_number info),
             (''manufacturer'', si_manufacturer info), (''vendor_id'', si_vendor_id info), (''product_id'', si_product_id info)]"

definition port_fingerprint :: "string \<Rightarrow> string" where
  "port_fingerprint path = ''serial:'' @ path"

definition serial_discover :: "string \<Rightarrow> usb_port list option \<Rightarrow> ('g services, serial_info list) prog" where
  "serial_discover now comports =
     (case comports of
        None \<Rightarrow> praise ManagementError
      | Some found \<Rightarrow>
          pbind (sv_mgmt list_boards) (\<lambda>boards.
          let ports = map (port_info boards) (filter (\<lambda>p. is_tty_usb (path_name (up_device p))) found) in
          pthen (pfor ports (\<lambda>info. pthen (sv_mgmt (upsert_discovery now ''serial'' (port_fingerprint (si_path info)) (si_path info)
              (port_details info))) (pret ()))) (
          pthen (sv_mgmt (prune_discoveries ''serial'' (set (map (\<lambda>info. port_fingerprint (si_path info)) ports)))) (
          pret (sort_key si_path ports)))))"


text \<open>The USB devices of the operating system: their attribute files, and whether the directory can be listed.\<close>

record usb_env =
  ub_is_dir :: bool
  ub_root :: string
  ub_devices :: "string list result"
  ub_attribute :: "string \<Rightarrow> string \<Rightarrow> string option"

record jtag_cable =
  jc_details :: details
  jc_cable_serial :: string
  jc_state :: string
  jc_board_id :: string

definition read_attribute :: "usb_env \<Rightarrow> string \<Rightarrow> string \<Rightarrow> string" where
  "read_attribute usb device name = (case ub_attribute usb device name of None \<Rightarrow> [] | Some text \<Rightarrow> strip text)"

definition is_digilent :: "usb_env \<Rightarrow> string \<Rightarrow> bool" where
  "is_digilent usb device \<longleftrightarrow>
     lower (read_attribute usb device ''idVendor'') = ''0403'' \<and> lower (read_attribute usb device ''idProduct'') = ''6014'' \<and>
     contains ''digilent'' (lower (read_attribute usb device ''manufacturer'' @ '' '' @ read_attribute usb device ''product'')) \<and>
     read_attribute usb device ''serial'' \<noteq> []"

definition jtag_details :: "usb_env \<Rightarrow> string \<Rightarrow> details" where
  "jtag_details usb device =
     map_of [(''target'', []), (''device'', device), (''part'', []), (''programmed'', ''unknown''), (''program_file'', []),
             (''cable_serial'', read_attribute usb device ''serial''), (''availability'', ''present''), (''scan_scope'', ''linux-usb''),
             (''usb_path'', ub_root usb @ ''/'' @ device), (''vendor_id'', lower (read_attribute usb device ''idVendor'')),
             (''product_id'', lower (read_attribute usb device ''idProduct'')),
             (''manufacturer'', read_attribute usb device ''manufacturer''), (''product'', read_attribute usb device ''product'')]"

definition jtag_fingerprint :: "string \<Rightarrow> string" where
  "jtag_fingerprint cable = ''jtag:'' @ cable @ '':usb''"

definition add_jtag :: "string \<Rightarrow> usb_env \<Rightarrow> string \<Rightarrow> ('g services, jtag_cable) prog" where
  "add_jtag now usb device =
     (let cable = read_attribute usb device ''serial'' in
      pbind (sv_mgmt (upsert_discovery now ''jtag'' (jtag_fingerprint cable) cable (jtag_details usb device))) (\<lambda>found.
      pret \<lparr>jc_details = jtag_details usb device, jc_cable_serial = cable,
            jc_state = (if dr_board_id found = None then ''pending'' else ''registered''),
            jc_board_id = opt_text (dr_board_id found)\<rparr>))"

text \<open>The cables, and the text of the error that prevented the scan.\<close>

definition scan_jtag :: "(pyerror \<Rightarrow> string) \<Rightarrow> string \<Rightarrow> usb_env \<Rightarrow> ('g services, jtag_cable list \<times> string) prog" where
  "scan_jtag text_of now usb =
     (if \<not> ub_is_dir usb then pret ([], ''USB sysfs path not found: '' @ ub_root usb)
      else
        case ub_devices usb of
          Inl e \<Rightarrow> if is_OSError e then pret ([], text_of e) else praise e
        | Inr devices \<Rightarrow>
            let cables = filter (is_digilent usb) devices in
            pbind (pmap (add_jtag now usb) cables) (\<lambda>resources.
            pthen (sv_mgmt (prune_discoveries ''jtag'' (set (map (\<lambda>d. jtag_fingerprint (read_attribute usb d ''serial'')) cables)))) (
            pret (sort_key jc_cable_serial resources, []))))"

definition inventory_scan :: "(pyerror \<Rightarrow> string) \<Rightarrow> string \<Rightarrow> usb_port list option \<Rightarrow> usb_env \<Rightarrow> ('g coord, 'st) prog \<Rightarrow>
    ('g services, serial_info list \<times> jtag_cable list \<times> 'st \<times> string) prog" where
  "inventory_scan text_of now comports usb all_statuses =
     pbind (serial_discover now comports) (\<lambda>ports.
     pbind (scan_jtag text_of now usb) (\<lambda>(jtag, scan_error).
     pbind (sv_coord all_statuses) (\<lambda>statuses.
     pthen (emit ''inventory.scanned'' []) (
     pret (ports, jtag, statuses, scan_error)))))"

section \<open>Programming a board\<close>

text \<open>The deployment: whether it starts, the lines its reader stores, and its exit code unless it runs out of time.\<close>

record deployment =
  dp_start :: "pyerror option"
  dp_lines :: "string list"
  dp_exit :: "int option"

record 'g prog_env =
  pe_refresh :: "string \<Rightarrow> ('g coord, live_status) prog"
  pe_is_file :: "string \<Rightarrow> bool"
  pe_xsct :: string
  pe_root :: string
  pe_usb :: usb_env
  pe_deploy :: "string list \<Rightarrow> string \<Rightarrow> string \<Rightarrow> deployment"
  pe_timeout :: rat
  pe_clock :: "rat list"
  pe_serial_clock :: "rat list"
  pe_text :: "pyerror \<Rightarrow> string"
  pe_status_text :: "live_status \<Rightarrow> string"

definition psu_init :: "'g prog_env \<Rightarrow> string \<Rightarrow> string" where
  "psu_init env target =
     pe_root env @ ''/firmware/workspace/'' @
       (if target = ''custom_xczu47dr_bw'' then ''custom_xczu47dr_bandwidth'' else ''custom_xczu47dr'') @ ''/hw_platform/hw/psu_init.tcl''"

definition verify_jtag :: "'g prog_env \<Rightarrow> string \<Rightarrow> board_row \<Rightarrow> ('g services, unit) prog" where
  "verify_jtag env now board =
     pbind (scan_jtag (pe_text env) now (pe_usb env)) (\<lambda>(resources, _).
     praise_if (\<not> list_ex (\<lambda>c. jc_cable_serial c = bo_jtag_cable_serial board) resources) ManagementError)"

text \<open>A new job; the thread that runs it is \<open>program_run\<close>.\<close>

definition program_create :: "'g prog_env \<Rightarrow> string \<Rightarrow> string \<Rightarrow> string \<Rightarrow> string \<Rightarrow> user_record \<Rightarrow> ('g services, job_row \<times> string) prog" where
  "program_create env now job_id board_id artifact_id user =
     pbind (sv_mgmt (get_board board_id)) (\<lambda>board.
     pbind (sv_mgmt (get_artifact artifact_id)) (\<lambda>artifact.
     pthen (praise_if (\<not> bo_enabled (bp_row board)) ManagementError) (
     pthen (praise_if (bo_target_profile (bp_row board) \<noteq> ar_target_profile (fst artifact)) ManagementError) (
     pthen (praise_if (bo_jtag_cable_serial (bp_row board) = []) ManagementError) (
     pbind (sv_mgmt (active_lease board_id)) (\<lambda>lease.
     pthen (praise_if (lease \<noteq> None) ManagementError) (
     pbind (sv_coord (active_run_for_board board_id)) (\<lambda>run.
     pthen (praise_if (run \<noteq> None \<and> run \<noteq> Some []) ManagementError) (
     pbind (sv_mgmt (artifact_paths artifact_id)) (\<lambda>(bit_path, elf_path).
     pthen (praise_if (\<not> pe_is_file env bit_path \<or> \<not> pe_is_file env elf_path) ManagementError) (
     pthen (praise_if (\<not> pe_is_file env (pe_xsct env)) ManagementError) (
     pthen (praise_if (\<not> pe_is_file env (psu_init env (bo_target_profile (bp_row board)))) ManagementError) (
     pthen (verify_jtag env now (bp_row board)) (
     sv_mgmt (create_program_job job_id now board_id artifact_id user)))))))))))))))"

definition deploy_command :: "'g prog_env \<Rightarrow> board_row \<Rightarrow> string \<Rightarrow> ('g services, string list) prog" where
  "deploy_command env board artifact_id =
     pbind (sv_mgmt (artifact_paths artifact_id)) (\<lambda>(bit_path, elf_path).
     pret [pe_xsct env, pe_root env @ ''/firmware/scripts/program.tcl'', bit_path, elf_path, psu_init env (bo_target_profile board)])"

text \<open>The rounds of a wait: one reading of the clock each, until the deadline.\<close>

fun verify_rounds :: "(string \<Rightarrow> ('g coord, live_status) prog) \<Rightarrow> string \<Rightarrow> rat \<Rightarrow> rat list \<Rightarrow> live_status \<Rightarrow> ('g services, live_status) prog" where
  "verify_rounds refresh board_id deadline [] status = pret status"
| "verify_rounds refresh board_id deadline (now # later) status =
     (if ls_online status \<or> \<not> now < deadline then pret status
      else pbind (sv_coord (refresh board_id)) (verify_rounds refresh board_id deadline later))"

fun serial_rounds :: "string \<Rightarrow> rat \<Rightarrow> rat list \<Rightarrow> board_profile \<Rightarrow> ('g services, board_profile) prog" where
  "serial_rounds board_id deadline [] board = pret board"
| "serial_rounds board_id deadline (now # later) board =
     (if bo_serial_status (bp_row board) \<notin> {''connecting'', ''missing''} \<or> \<not> now < deadline then pret board
      else pbind (sv_mgmt (get_board board_id)) (serial_rounds board_id deadline later))"

text \<open>A wait whose first reading of the clock sets the deadline.\<close>

definition clock_start :: "rat list \<Rightarrow> rat" where
  "clock_start clock = (case clock of [] \<Rightarrow> 0 | t # _ \<Rightarrow> t)"

definition post_verify :: "'g prog_env \<Rightarrow> string \<Rightarrow> board_row \<Rightarrow> string \<Rightarrow> ('g services, unit) prog" where
  "post_verify env now board job_id =
     pbind (sv_coord (pe_refresh env (bo_id board))) (\<lambda>first.
     pbind (verify_rounds (pe_refresh env) (bo_id board) (clock_start (pe_clock env) + pe_timeout env) (tl (pe_clock env)) first) (\<lambda>status.
     pthen (sv_mgmt (add_program_log now job_id (''RFCTRL2 verification: '' @ pe_status_text env status))) (
     pthen (praise_if (\<not> ls_online status) ManagementError) (
     if bo_serial_path board \<noteq> [] then
       pthen (refresh_board now (bo_id board)) (
       pbind (sv_mgmt (get_board (bo_id board))) (\<lambda>board1.
       pbind (serial_rounds (bo_id board) (clock_start (pe_serial_clock env) + min (pe_timeout env) 5) (tl (pe_serial_clock env)) board1) (\<lambda>refreshed.
       sv_mgmt (add_program_log now job_id
         (''UART verification: path='' @ bo_serial_path board @ '' state='' @ bo_serial_status (bp_row refreshed))))))
     else sv_mgmt (add_program_log now job_id ''UART verification skipped: no serial path is registered'')))))"

text \<open>The reader of the deployment's output: a line that cannot be stored ends it, and nobody is told.\<close>

definition consume_output :: "string \<Rightarrow> string \<Rightarrow> string list \<Rightarrow> ('g services, unit) prog" where
  "consume_output now job_id raws =
     pcatch (pfor raws (\<lambda>raw. pthen (sv_mgmt (add_program_log now job_id raw)) (emit ''programming.log'' job_id))) (\<lambda>_. pret ())"

definition deploy :: "string \<Rightarrow> string \<Rightarrow> deployment \<Rightarrow> ('g services, unit) prog" where
  "deploy now job_id process =
     (case dp_start process of
        Some e \<Rightarrow> praise e
      | None \<Rightarrow>
          pthen (consume_output now job_id (dp_lines process)) (
          praise_if (dp_exit process \<noteq> Some 0) ManagementError))"

definition program_body :: "'g prog_env \<Rightarrow> string \<Rightarrow> job_row \<Rightarrow> ('g services, unit) prog" where
  "program_body env now job =
     pbind (sv_mgmt (get_board (pj_board_id job))) (\<lambda>board.
     pbind (deploy_command env (bp_row board) (pj_artifact_id job)) (\<lambda>command.
     pthen (sv_mgmt (add_program_log now (pj_id job) ''Executing controlled XSCT deployment for registered JTAG cable serial.'')) (
     pthen (sv_mgmt (update_program_job now (pj_id job) ''RUNNING'' (15/100) [])) (
     pthen (emit ''programming.updated'' (pj_id job)) (
     pthen (deploy now (pj_id job) (pe_deploy env command (bo_jtag_cable_serial (bp_row board)) (bo_target_profile (bp_row board)))) (
     pthen (post_verify env now (bp_row board) (pj_id job)) (
     pthen (sv_mgmt (update_program_job now (pj_id job) ''SUCCEEDED'' 1 [])) (
     pthen (sv_mgmt (add_audit now ''program.succeeded'' (''programmed '' @ bo_name (bp_row board)) None (Some (bo_id (bp_row board))) Map.empty)) (
     emit ''programming.updated'' (pj_id job))))))))))"

definition program_run :: "'g prog_env \<Rightarrow> string \<Rightarrow> string \<Rightarrow> ('g services, unit) prog" where
  "program_run env now job_id =
     pbind (sv_mgmt (update_program_job now job_id ''PREFLIGHT'' (5/100) [])) (\<lambda>(job, _).
     pthen (emit ''programming.updated'' job_id) (
     pcatch (program_body env now job)
       (\<lambda>e. pthen (sv_mgmt (update_program_job now job_id ''FAILED'' 1 (pe_text env e))) (
            pthen (sv_mgmt (add_program_log now job_id (''ERROR: '' @ pe_text env e))) (
            emit ''programming.updated'' job_id)))))"

section \<open>Readers\<close>

text \<open>A reader runs until its event is set. Every entry is the running reader of its board.\<close>

definition running :: "'g services \<Rightarrow> string \<Rightarrow> nat set" where
  "running s board_id = {e. e < length (sv_readers s) \<and> e \<notin> sv_stopped s \<and> bo_id (sv_readers s ! e) = board_id}"

definition readers_ok :: "'g services \<Rightarrow> bool" where
  "readers_ok s \<longleftrightarrow> (\<forall>b. running s b = set_option (sv_entries s b)) \<and> (\<forall>e \<in> sv_stopped s. e < length (sv_readers s))"

lemma running_app [simp]: "running (s\<lparr>sv_app := t\<rparr>) = running s"
  by (rule ext) (simp add: running_def)

lemma readers_ok_app [simp]: "readers_ok (s\<lparr>sv_app := t\<rparr>) = readers_ok s"
  by (simp add: readers_ok_def)

lemma readers_mgmt [keeps_rules]: "keeps readers_ok (sv_mgmt m)"
  by (simp add: keeps_def sv_mgmt_def split: prod.split)

lemma readers_coord [keeps_rules]: "keeps readers_ok (sv_coord m)"
  by (simp add: keeps_def sv_coord_def split: prod.split)

lemma stop_board_run:
  "stop_board b s = (Inr (), s\<lparr>sv_entries := (sv_entries s)(b := None), sv_stopped := sv_stopped s \<union> set_option (sv_entries s b)\<rparr>)"
  by (cases "sv_entries s b") (simp_all add: stop_board_def)

lemma entry_running: "readers_ok s \<Longrightarrow> sv_entries s b = Some e \<Longrightarrow> e < length (sv_readers s) \<and> e \<notin> sv_stopped s \<and> bo_id (sv_readers s ! e) = b"
proof -
  assume "readers_ok s" "sv_entries s b = Some e"
  then have "e \<in> running s b" by (simp add: readers_ok_def)
  then show ?thesis by (simp add: running_def)
qed

lemma running_entry: "readers_ok s \<Longrightarrow> e < length (sv_readers s) \<Longrightarrow> e \<notin> sv_stopped s \<Longrightarrow> sv_entries s (bo_id (sv_readers s ! e)) = Some e"
proof -
  assume ok: "readers_ok s" and e: "e < length (sv_readers s)" "e \<notin> sv_stopped s"
  then have "e \<in> running s (bo_id (sv_readers s ! e))" by (simp add: running_def)
  then show ?thesis using ok by (simp add: readers_ok_def)
qed

lemma readers_okI:
  assumes "\<And>b e. sv_entries s b = Some e \<Longrightarrow> e < length (sv_readers s) \<and> e \<notin> sv_stopped s \<and> bo_id (sv_readers s ! e) = b"
    and "\<And>e. e < length (sv_readers s) \<Longrightarrow> e \<notin> sv_stopped s \<Longrightarrow> sv_entries s (bo_id (sv_readers s ! e)) = Some e"
    and "\<And>e. e \<in> sv_stopped s \<Longrightarrow> e < length (sv_readers s)"
  shows "readers_ok s"
proof -
  have "running s b = set_option (sv_entries s b)" for b
    using assms(1,2) by (auto simp: running_def)
  then show ?thesis using assms(3) by (simp add: readers_ok_def)
qed

lemma readers_stop_board [keeps_rules]: "keeps readers_ok (stop_board b)"
proof (rule keepsI)
  fix s :: "'a services" assume ok: "readers_ok s"
  show "readers_ok (snd (stop_board b s))"
    unfolding stop_board_run snd_conv
  proof (rule readers_okI, goal_cases)
    case (1 c e)
    then show ?case using entry_running [OF ok, of c e] entry_running [OF ok, of b] by (auto split: if_splits)
  next
    case (2 e)
    then show ?case using running_entry [OF ok, of e] by auto
  next
    case (3 e)
    then show ?case using ok entry_running [OF ok, of b e] by (auto simp: readers_ok_def)
  qed
qed

text \<open>A reader is started where none runs.\<close>

lemma readers_refresh [keeps_rules]: "keeps readers_ok (refresh_board now b)"
proof -
  let ?I = "\<lambda>s :: 'a services. readers_ok s \<and> sv_entries s b = None"
  have 1: "triple readers_ok (stop_board b) (\<lambda>_. ?I) (\<lambda>_. readers_ok)"
    using readers_stop_board [of b] by (simp add: triple_def stop_board_run keeps_def)
  have 2: "triple ?I (sv_mgmt (get_board b)) (\<lambda>p s. ?I s \<and> bo_id (bp_row p) = b) (\<lambda>_. readers_ok)"
    unfolding triple_def sv_mgmt_def with_mgmt_reads [OF get_board_pure]
    by (auto simp: get_board_def board_of_def to_profile_def guard_raise_def transaction_def prog_defs find_Some_iff
        split: option.splits sum.splits if_splits)
  have 3: "triple (\<lambda>s. ?I s \<and> bo_id (bp_row p) = b)
      (pmodify (\<lambda>s. s\<lparr>sv_entries := (sv_entries s)(b \<mapsto> length (sv_readers s)), sv_readers := sv_readers s @ [bp_row p]\<rparr>))
      (\<lambda>_. readers_ok) (\<lambda>_. readers_ok)" for p
    unfolding triple_def
  proof (intro allI impI)
    fix s :: "'a services" assume a: "?I s \<and> bo_id (bp_row p) = b"
    have "readers_ok (s\<lparr>sv_entries := (sv_entries s)(b \<mapsto> length (sv_readers s)), sv_readers := sv_readers s @ [bp_row p]\<rparr>)"
    proof (rule readers_okI, goal_cases)
      case (1 c e)
      then show ?case using a entry_running [of s c e] by (auto simp: nth_append readers_ok_def split: if_splits)
    next
      case (2 e)
      then show ?case using a running_entry [of s e] by (auto simp: nth_append less_Suc_eq)
    next
      case (3 e)
      then show ?case using a by (auto simp: readers_ok_def)
    qed
    then show "case pmodify (\<lambda>s. s\<lparr>sv_entries := (sv_entries s)(b \<mapsto> length (sv_readers s)), sv_readers := sv_readers s @ [bp_row p]\<rparr>) s of
      (Inl e, s') \<Rightarrow> readers_ok s' | (Inr x, s') \<Rightarrow> readers_ok s'" by simp
  qed
  have 4: "triple (\<lambda>s. ?I s \<and> bo_id (bp_row p) = b) (sv_mgmt m) (\<lambda>_. readers_ok) (\<lambda>_. readers_ok)" for p m
    by (rule triple_weaken [OF readers_mgmt [unfolded keeps_triple]]) simp_all
  show ?thesis
    unfolding keeps_triple refresh_board_def start_reader_def
  proof (intro triple_pthen [OF 1] triple_pbind [OF 2])
    fix p :: board_profile
    show "triple (\<lambda>s. ?I s \<and> bo_id (bp_row p) = b)
      (if \<not> bo_enabled (bp_row p) \<or> bo_serial_path (bp_row p) = [] then
         sv_mgmt (update_serial_state now b (if bo_serial_path (bp_row p) = [] then ''missing'' else ''disabled'') [])
       else pmodify (\<lambda>s. s\<lparr>sv_entries := (sv_entries s)(b \<mapsto> length (sv_readers s)), sv_readers := sv_readers s @ [bp_row p]\<rparr>))
      (\<lambda>_. readers_ok) (\<lambda>_. readers_ok)"
      by (simp only: 3 4 split: if_split) simp
  qed
qed

lemma readers_serial_stop [keeps_rules]: "keeps readers_ok serial_stop"
proof (rule keepsI)
  fix s :: "'a services" assume ok: "readers_ok s"
  show "readers_ok (snd (serial_stop s))"
    unfolding serial_stop_def pmodify_apply snd_conv
    by (rule readers_okI) (use ok entry_running [OF ok] running_entry [OF ok] in \<open>auto simp: ran_def readers_ok_def\<close>)
qed

lemma readers_emit [keeps_rules]: "keeps readers_ok (emit ty ident)"
  unfolding emit_def by (rule readers_coord)

lemma readers_scan [keeps_rules]: "keeps readers_ok (scan_jtag text_of now usb)"
  unfolding scan_jtag_def add_jtag_def Let_def by (cases "ub_devices usb") (auto intro!: keeps_rules)

lemma keeps_services [keeps_rules]:
  "keeps readers_ok (serial_start now)" "keeps readers_ok (inventory_scan text_of now comports usb all_statuses)"
  "keeps readers_ok (program_create env now job_id b artifact_id user)"
  unfolding serial_start_def inventory_scan_def serial_discover_def program_create_def verify_jtag_def
  by (intro keeps_rules)+

lemma readers_rounds [keeps_rules]:
  "keeps readers_ok (verify_rounds refresh b deadline clock st)" "keeps readers_ok (serial_rounds b deadline clock p)"
  by (induction clock arbitrary: st p) (auto intro!: keeps_rules)

lemma readers_program_run [keeps_rules]: "keeps readers_ok (program_run env now job_id)"
proof -
  have "keeps readers_ok (deploy now j process)" for j process
    unfolding deploy_def consume_output_def by (cases "dp_start process") (auto intro!: keeps_rules)
  then show ?thesis
    unfolding program_run_def program_body_def post_verify_def deploy_command_def by (intro keeps_rules)
qed

lemma readers_read_loop [keeps_rules]: "keeps readers_ok (read_loop text_of now b log_limit attempts)"
proof -
  have "keeps readers_ok (read_session now b log_limit a)" for a
    unfolding read_session_def read_line_def by (cases a) (auto intro!: keeps_rules split: option.split)
  then show ?thesis by (induction attempts) (auto intro!: keeps_rules)
qed

text \<open>What the services do, each call as a whole, and what the rest of the application does meanwhile.\<close>

inductive services_step :: "'g services \<Rightarrow> 'g services \<Rightarrow> bool" where
  app: "services_step s (s\<lparr>sv_app := t\<rparr>)"
| begin_all: "services_step s (snd (serial_start now s))"
| refresh: "services_step s (snd (refresh_board now b s))"
| stop_one: "services_step s (snd (stop_board b s))"
| stop_all: "services_step s (snd (serial_stop s))"
| program: "services_step s (snd (program_run env now job_id s))"
| new_job: "services_step s (snd (program_create env now job_id b artifact_id user s))"
| scan: "services_step s (snd (inventory_scan text_of now comports usb (all_statuses :: ('g coord, unit) prog) s))"
| reader: "services_step s (snd (read_loop text_of now b log_limit attempts s))"

definition services_init :: "'g app \<Rightarrow> 'g services" where
  "services_init app = \<lparr>sv_app = app, sv_entries = Map.empty, sv_readers = [], sv_stopped = {}\<rparr>"

inductive services_reachable :: "'g services \<Rightarrow> bool" where
  start: "services_reachable (services_init app)"
| step: "services_reachable s \<Longrightarrow> services_step s s' \<Longrightarrow> services_reachable s'"

lemma services_step_ok: "services_step s s' \<Longrightarrow> readers_ok s \<Longrightarrow> readers_ok s'"
proof (induction rule: services_step.induct)
  case (app s t)
  then show ?case by simp
qed (rule keepsD, rule keeps_rules, assumption)+

lemma services_reachable_ok: "services_reachable s \<Longrightarrow> readers_ok s"
proof (induction rule: services_reachable.induct)
  case (start app)
  show ?case by (rule readers_okI) (simp_all add: services_init_def)
qed (rule services_step_ok)

text \<open>
  C32. As long as the calls of the services do not overlap, a board has at most one running reader, the one its
  entry names, and \<open>stop\<close> leaves no reader running.
\<close>

theorem one_reader_per_board:
  assumes "services_reachable s"
  shows "running s board_id = set_option (sv_entries s board_id) \<and> running (snd (serial_stop s)) board_id = {}"
proof -
  have ok: "readers_ok s" "readers_ok (snd (serial_stop s))"
    by (rule services_reachable_ok, rule assms, rule services_reachable_ok, rule services_reachable.step [OF assms services_step.stop_all])
  have "sv_entries (snd (serial_stop s)) board_id = None" by (simp add: serial_stop_def)
  then show ?thesis using ok by (simp add: readers_ok_def)
qed

lemma start_reader_run:
  assumes "fst (get_board b (ap_mgmt (sv_app s))) = Inr p" "bo_enabled (bp_row p)" "bo_serial_path (bp_row p) \<noteq> []"
  shows "start_reader now b s =
    (Inr (), s\<lparr>sv_entries := (sv_entries s)(b \<mapsto> length (sv_readers s)), sv_readers := sv_readers s @ [bp_row p]\<rparr>)"
proof -
  have "sv_mgmt (get_board b) s = (Inr p, s)" by (simp add: sv_mgmt_def with_mgmt_reads [OF get_board_pure] assms(1))
  then show ?thesis using assms(2,3) by (simp add: start_reader_def pbind_def)
qed

lemma get_board_id: "fst (get_board b m) = Inr p \<Longrightarrow> bo_id (bp_row p) = b"
  by (auto simp: get_board_def board_of_def to_profile_def guard_raise_def transaction_def prog_defs find_Some_iff
      split: option.splits sum.splits if_splits)

text \<open>
  C38. Two overlapping refreshes of a board leak a reader: when both have stopped the old reader before
  either has registered its own, two readers run on the one port, the first of them is known to nobody, and
  \<open>stop\<close> leaves it running.
\<close>

theorem overlapping_refresh_leaks_reader:
  assumes "services_reachable s" "fst (get_board board_id (ap_mgmt (sv_app s))) = Inr p" "bo_enabled (bp_row p)"
    "bo_serial_path (bp_row p) \<noteq> []"
  shows "\<exists>s'. pthen (stop_board board_id) (pthen (stop_board board_id)
      (pthen (start_reader now board_id) (start_reader later board_id))) s = (Inr (), s') \<and>
    running s' board_id = {length (sv_readers s), Suc (length (sv_readers s))} \<and>
    running (snd (serial_stop s')) board_id = {length (sv_readers s)}"
proof -
  have ok: "readers_ok s" by (rule services_reachable_ok [OF assms(1)])
  define s1 where "s1 = snd (stop_board board_id s)"
  have s1: "stop_board board_id s = (Inr (), s1)" by (simp add: s1_def stop_board_run)
  have ok1: "readers_ok s1" unfolding s1_def by (rule keepsD [OF readers_stop_board ok])
  have e1: "sv_entries s1 board_id = None" "sv_app s1 = sv_app s" "sv_readers s1 = sv_readers s" by (simp_all add: s1_def stop_board_run)
  have s2: "stop_board board_id s1 = (Inr (), s1)" using e1(1) by (simp add: stop_board_run fun_upd_idem)
  let ?n = "length (sv_readers s)"
  let ?s3 = "s1\<lparr>sv_entries := (sv_entries s1)(board_id \<mapsto> ?n), sv_readers := sv_readers s1 @ [bp_row p]\<rparr>"
  let ?s4 = "s1\<lparr>sv_entries := (sv_entries s1)(board_id \<mapsto> Suc ?n), sv_readers := sv_readers s1 @ [bp_row p, bp_row p]\<rparr>"
  have s3: "start_reader now board_id s1 = (Inr (), ?s3)" using start_reader_run [of board_id s1 p] assms(2-4) e1(2,3) by simp
  have s4: "start_reader later board_id ?s3 = (Inr (), ?s4)"
    using start_reader_run [of board_id ?s3 p] assms(2-4) e1(2,3) by simp
  have p: "bo_id (bp_row p) = board_id" by (rule get_board_id [OF assms(2)])
  have "running s1 board_id = {}" using ok1 e1(1) by (simp add: readers_ok_def)
  then have none: "e < ?n \<Longrightarrow> e \<notin> sv_stopped s1 \<Longrightarrow> bo_id (sv_readers s ! e) \<noteq> board_id" for e
    using e1(3) by (auto simp: running_def)
  have fresh: "?n \<notin> sv_stopped s1" "Suc ?n \<notin> sv_stopped s1" using ok1 e1(3) by (auto simp: readers_ok_def)
  have others: "?n \<notin> ran ((sv_entries s1)(board_id \<mapsto> Suc ?n))" "Suc ?n \<in> ran ((sv_entries s1)(board_id \<mapsto> Suc ?n))"
    using entry_running [OF ok1] e1(3) by (auto simp: ran_def)
  have two: "running ?s4 board_id = {?n, Suc ?n}"
    using none fresh p e1(3) by (auto simp: running_def nth_append less_Suc_eq)
  have one: "running (snd (serial_stop ?s4)) board_id = {?n}"
    using none fresh others p e1(3) by (auto simp: running_def serial_stop_def nth_append less_Suc_eq)
  show ?thesis
    by (rule exI [of _ ?s4], intro conjI two one) (simp add: pthen_def pbind_def s1 s2 s3 s4)
qed


text \<open>A board with a serial port.\<close>

definition port_store :: store where
  "port_store = board_store\<lparr>st_boards := map (\<lambda>r. r\<lparr>bo_serial_path := ''/dev/ttyUSB0''\<rparr>) (st_boards board_store)\<rparr>"

lemma port_store_board:
  "\<exists>p. fst (get_board ''fpga-a'' port_store) = Inr p \<and> bo_enabled (bp_row p) \<and> bo_serial_path (bp_row p) \<noteq> []"
proof -
  obtain r where r: "st_boards board_store = [r]" "bo_id r = ''fpga-a''" "bo_enabled r"
    using board_store_value(3) by (auto simp: map_eq_Cons_conv)
  obtain p where "fst (get_board ''fpga-a'' board_store) = Inr p" using board_store_board(1) by blast
  then have ok: "profile_ok r"
    using r by (auto simp: get_board_def transaction_def prog_defs board_of_def to_profile_def board_store_value guard_raise_def split: if_splits)
  then have "profile_ok (r\<lparr>bo_serial_path := x\<rparr>)" for x by (simp add: profile_ok_def)
  then show ?thesis
    using r by (simp add: port_store_def get_board_def transaction_def prog_defs board_of_def to_profile_def board_store_value guard_raise_def)
qed

lemma overlapping_refresh_leaks_reader_witness:
  "\<exists>s'. pthen (stop_board ''fpga-a'') (pthen (stop_board ''fpga-a'')
      (pthen (start_reader ''t'' ''fpga-a'') (start_reader ''u'' ''fpga-a''))) (services_init (example_app port_store)) = (Inr (), s') \<and>
    running s' ''fpga-a'' = {0, 1} \<and> running (snd (serial_stop s')) ''fpga-a'' = {0}"
proof -
  obtain p where p: "fst (get_board ''fpga-a'' (ap_mgmt (sv_app (services_init (example_app port_store))))) = Inr p"
    "bo_enabled (bp_row p)" "bo_serial_path (bp_row p) \<noteq> []"
    using port_store_board by (auto simp: services_init_def example_app_def)
  from overlapping_refresh_leaks_reader [OF services_reachable.start p, of "''t''" "''u''"]
  show ?thesis by (simp add: services_init_def)
qed

lemma one_reader_per_board_witness:
  "running (snd (refresh_board ''t'' ''fpga-a'' (services_init (example_app port_store)))) ''fpga-a'' = {0} \<and>
   running (snd (serial_stop (snd (refresh_board ''t'' ''fpga-a'' (services_init (example_app port_store)))))) ''fpga-a'' = {}"
proof -
  let ?s = "services_init (example_app port_store)"
  obtain p where p: "fst (get_board ''fpga-a'' (ap_mgmt (sv_app ?s))) = Inr p" "bo_enabled (bp_row p)" "bo_serial_path (bp_row p) \<noteq> []"
    using port_store_board by (auto simp: services_init_def example_app_def)
  have "stop_board ''fpga-a'' ?s = (Inr (), ?s)" by (simp add: stop_board_run services_init_def fun_upd_idem)
  then have "refresh_board ''t'' ''fpga-a'' ?s = start_reader ''t'' ''fpga-a'' ?s" by (simp add: refresh_board_def pthen_def pbind_def)
  then have "sv_entries (snd (refresh_board ''t'' ''fpga-a'' ?s)) ''fpga-a'' = Some 0"
    using start_reader_run [OF p] by (simp add: services_init_def)
  then show ?thesis
    using one_reader_per_board [where s = "snd (refresh_board ''t'' ''fpga-a'' ?s)" and board_id = "''fpga-a''",
        OF services_reachable.step [OF services_reachable.start services_step.refresh]]
    by simp
qed
end
