(* ===== verification/Programming.thy ===== *)
theory Programming
  imports Hardware_Services
begin

text \<open>
  What the programming service of \<open>webapp/hardware_services.py\<close> promises: when a job is accepted, how it
  ends, and what it does not exclude.
\<close>

section \<open>A programming job\<close>

definition mgmt_of :: "'g services \<Rightarrow> store" where
  "mgmt_of s = ap_mgmt (sv_app s)"

text \<open>The job is in the table, with a creator that can be named; \<open>job_is\<close> adds its state.\<close>

definition job_known :: "string \<Rightarrow> store \<Rightarrow> bool" where
  "job_known i m \<longleftrightarrow> (\<exists>j. find (\<lambda>j. pj_id j = i) (st_jobs m) = Some j \<and> username_of m (pj_created_by j) \<noteq> None)"

definition job_is :: "string \<Rightarrow> string \<Rightarrow> store \<Rightarrow> bool" where
  "job_is i state m \<longleftrightarrow>
     (\<exists>j. find (\<lambda>j. pj_id j = i) (st_jobs m) = Some j \<and> pj_state j = state \<and> username_of m (pj_created_by j) \<noteq> None)"

lemma job_is_known: "job_is i state m \<Longrightarrow> job_known i m"
  by (auto simp: job_is_def job_known_def)

lemma job_known_wf: "store_wf m \<Longrightarrow> i \<in> pj_id ` set (st_jobs m) \<Longrightarrow> job_known i m"
proof -
  assume wf: "store_wf m" and i: "i \<in> pj_id ` set (st_jobs m)"
  obtain j where j: "find (\<lambda>j. pj_id j = i) (st_jobs m) = Some j"
    using i by (cases "find (\<lambda>j. pj_id j = i) (st_jobs m)") (auto simp: find_None_iff)
  then have "pj_created_by j \<in> user_ids m"
    using wf by (auto simp: store_wf_def jobs_ok_def find_Some_iff)
  then have "find (\<lambda>u. us_id u = pj_created_by j) (st_users m) \<noteq> None" by (auto simp: find_None_iff user_ids_def)
  then show ?thesis using j by (auto simp: job_known_def username_of_def)
qed

text \<open>What leaves the jobs and the users alone.\<close>

definition same_jobs :: "store \<Rightarrow> store \<Rightarrow> bool" where
  "same_jobs m m' \<longleftrightarrow> st_jobs m' = st_jobs m \<and> st_users m' = st_users m"

lemma same_jobs_known: "same_jobs m m' \<Longrightarrow> job_known i m' = job_known i m"
  by (simp add: same_jobs_def job_known_def username_of_def)

lemma same_jobs_methods:
  "same_jobs m (snd (add_program_log now i line m))" "same_jobs m (snd (update_serial_state now b state e m))"
  "same_jobs m (snd (get_board b m))" "same_jobs m (snd (artifact_paths a m))" "same_jobs m (snd (add_audit now ev msg u bo d m))"
  by (auto simp: same_jobs_def add_program_log_def update_serial_state_def get_board_def artifact_paths_def add_audit_def
      update_boards_def transaction_def sql_check_def prog_defs split: option.splits sum.splits prod.splits if_splits)

lemma keeps_mgmt:
  assumes "\<And>m. P m \<Longrightarrow> P (snd (f m))"
  shows "keeps (\<lambda>s. P (mgmt_of s)) (sv_mgmt f)"
  using assms by (auto simp: keeps_def sv_mgmt_def with_mgmt_def mgmt_of_def split: prod.splits) (metis snd_conv)

lemma keeps_mgmt_coord: "keeps (\<lambda>s. P (mgmt_of s)) (sv_coord f)"
  by (auto simp: keeps_def sv_coord_def with_coord_def mgmt_of_def split: prod.splits)

lemma known_methods [keeps_rules]:
  "keeps (\<lambda>s. job_known i (mgmt_of s)) (sv_mgmt (add_program_log now j line))"
  "keeps (\<lambda>s. job_known i (mgmt_of s)) (sv_mgmt (update_serial_state now b state e))"
  "keeps (\<lambda>s. job_known i (mgmt_of s)) (sv_mgmt (get_board b))"
  "keeps (\<lambda>s. job_known i (mgmt_of s)) (sv_mgmt (artifact_paths a))"
  "keeps (\<lambda>s. job_known i (mgmt_of s)) (sv_mgmt (add_audit now ev msg u bo d))"
  "keeps (\<lambda>s. job_known i (mgmt_of s)) (sv_coord f)"
  "keeps (\<lambda>s. job_known i (mgmt_of s)) (emit ty ident)"
  unfolding emit_def
  by (rule keeps_mgmt, simp add: same_jobs_known [OF same_jobs_methods(1)] same_jobs_known [OF same_jobs_methods(2)]
      same_jobs_known [OF same_jobs_methods(3)] same_jobs_known [OF same_jobs_methods(4)] same_jobs_known [OF same_jobs_methods(5)])+
     (rule keeps_mgmt_coord)+

lemma known_refresh [keeps_rules]: "keeps (\<lambda>s. job_known i (mgmt_of s)) (refresh_board now b)"
  unfolding refresh_board_def start_reader_def stop_board_def
  by (intro keeps_rules) (simp_all add: mgmt_of_def)

lemma find_updated: "(\<And>j. pj_id (f j) = pj_id j) \<Longrightarrow>
  find (\<lambda>j. pj_id j = i) (sql_update (\<lambda>j. pj_id j = i) f js) = map_option f (find (\<lambda>j. pj_id j = i) js)"
  by (induction js) (simp_all add: sql_update_def)

lemma update_job_triple:
  assumes "st \<in> {''QUEUED'', ''PREFLIGHT'', ''RUNNING'', ''SUCCEEDED'', ''FAILED''}" "0 \<le> progress" "progress \<le> 1"
  shows "triple (\<lambda>s. job_known i (mgmt_of s)) (sv_mgmt (update_program_job now i st progress e))
    (\<lambda>j s. job_is i st (mgmt_of s) \<and> pj_id (fst j) = i) (\<lambda>_ _. False)"
  unfolding triple_def
proof (intro allI impI)
  fix s :: "'a services" assume "job_known i (mgmt_of s)"
  then obtain j name where j: "find (\<lambda>j. pj_id j = i) (st_jobs (mgmt_of s)) = Some j" "username_of (mgmt_of s) (pj_created_by j) = Some name"
    by (auto simp: job_known_def)
  let ?j = "j\<lparr>pj_state := st, pj_progress := progress, pj_error := e, pj_updated_at := now\<rparr>"
  have i: "pj_id j = i" using j(1) by (auto simp: find_Some_iff)
  have u: "username_of (ap_mgmt (sv_app s)\<lparr>st_jobs := js\<rparr>) = username_of (mgmt_of s)" for js
    by (rule ext) (simp add: username_of_def mgmt_of_def)
  have f: "find (\<lambda>j. pj_id j = i) (sql_update (\<lambda>j. pj_id j = i)
      (\<lambda>j. j\<lparr>pj_state := st, pj_progress := progress, pj_error := e, pj_updated_at := now\<rparr>) (st_jobs (ap_mgmt (sv_app s)))) = Some ?j"
    using j(1) by (subst find_updated) (simp_all add: mgmt_of_def)
  have "job_valid ?j" using assms by (auto simp: job_valid_def)
  then show "case sv_mgmt (update_program_job now i st progress e) s of (Inl x, s') \<Rightarrow> False
    | (Inr j, s') \<Rightarrow> job_is i st (mgmt_of s') \<and> pj_id (fst j) = i"
    using j(2) i
    by (simp add: sv_mgmt_def with_mgmt_def update_program_job_def program_job_def transaction_def prog_defs f u job_is_def mgmt_of_def)
qed

text \<open>What a finished job tells: the deployment ended with exit code 0 and the board answered.\<close>

definition deployed :: "deployment \<Rightarrow> bool" where
  "deployed process \<longleftrightarrow> dp_start process = None \<and> dp_exit process = Some 0"

definition board_answers :: "'g prog_env \<Rightarrow> bool" where
  "board_answers env \<longleftrightarrow> (\<exists>b c st c'. pe_refresh env b c = (Inr st, c') \<and> ls_online st)"

lemma refresh_result: "triple P (sv_coord f) (\<lambda>x s. \<exists>c c'. f c = (Inr x, c')) (\<lambda>_ _. True)"
  by (auto simp: triple_def sv_coord_def with_coord_def split: prod.splits sum.splits)

lemma rounds_result:
  "triple (\<lambda>_. \<exists>b c c'. pe_refresh env b c = (Inr st, c')) (verify_rounds (pe_refresh env) b deadline clock st)
     (\<lambda>x _. \<exists>b c c'. pe_refresh env b c = (Inr x, c')) (\<lambda>_ _. True)"
proof (induction clock arbitrary: st)
  case Nil
  show ?case by (simp add: triple_def)
next
  case (Cons now later)
  have "triple (\<lambda>_. \<exists>b c c'. pe_refresh env b c = (Inr st, c'))
      (pbind (sv_coord (pe_refresh env b)) (verify_rounds (pe_refresh env) b deadline later))
      (\<lambda>x _. \<exists>b c c'. pe_refresh env b c = (Inr x, c')) (\<lambda>_ _. True)"
    by (rule triple_pbind [OF refresh_result], rule triple_weaken [OF Cons.IH]) auto
  then show ?case by (auto simp: triple_def)
qed

lemma triple_conj:
  assumes "triple P m Q E" "triple P m R F"
  shows "triple P m (\<lambda>x s. Q x s \<and> R x s) (\<lambda>e s. E e s \<and> F e s)"
  using assms unfolding triple_def by (fastforce split: prod.splits sum.splits)

lemma known_rounds [keeps_rules]:
  "keeps (\<lambda>s. job_known i (mgmt_of s)) (verify_rounds refresh b deadline clock st)"
  "keeps (\<lambda>s. job_known i (mgmt_of s)) (serial_rounds b deadline clock p)"
  by (induction clock arbitrary: st p) (auto intro!: keeps_rules)

text \<open>A fact that does not depend on the state.\<close>

lemma triple_with:
  assumes "triple P m Q E"
  shows "triple (\<lambda>s. P s \<and> c) m (\<lambda>x s. Q x s \<and> c) E"
proof (cases c)
  case True
  then show ?thesis using assms by simp
qed (simp add: triple_def)

lemma post_verify_triple:
  "triple (\<lambda>s. job_known i (mgmt_of s)) (post_verify env now board j)
     (\<lambda>_ s. job_known i (mgmt_of s) \<and> board_answers env) (\<lambda>_ s. job_known i (mgmt_of s))"
proof -
  let ?K = "\<lambda>s. job_known i (mgmt_of s)"
  let ?S = "\<lambda>st. \<exists>b c c'. pe_refresh env b c = (Inr st, c')"
  have 1: "triple ?K (sv_coord (pe_refresh env b)) (\<lambda>st s. ?K s \<and> ?S st) (\<lambda>_. ?K)" for b
    by (rule triple_weaken [OF triple_conj [OF known_methods(6) [unfolded keeps_triple] refresh_result]]) auto
  have 2: "triple (\<lambda>s. ?K s \<and> ?S first) (verify_rounds (pe_refresh env) b d c first) (\<lambda>st s. ?K s \<and> ?S st) (\<lambda>_. ?K)" for first b d c
  proof -
    have a: "triple (\<lambda>s. ?K s \<and> ?S first) (verify_rounds (pe_refresh env) b d c first) (\<lambda>_. ?K) (\<lambda>_. ?K)"
      by (rule triple_weaken [OF known_rounds(1) [unfolded keeps_triple]]) auto
    have b: "triple (\<lambda>s. ?K s \<and> ?S first) (verify_rounds (pe_refresh env) b d c first) (\<lambda>st _. ?S st) (\<lambda>_ _. True)"
      by (rule triple_weaken [OF rounds_result]) auto
    show ?thesis by (rule triple_weaken [OF triple_conj [OF a b]]) auto
  qed
  have 3: "triple (\<lambda>s. ?K s \<and> q) (sv_mgmt (add_program_log now j line)) (\<lambda>_ s. ?K s \<and> q) (\<lambda>_. ?K)" for q line
    by (rule triple_with [OF known_methods(1) [unfolded keeps_triple]])
  have 4: "triple (\<lambda>s. ?K s \<and> ?S st) (praise_if (\<not> ls_online st) ManagementError) (\<lambda>_ s. ?K s \<and> board_answers env) (\<lambda>_. ?K)" for st
    by (auto simp: triple_def praise_if_def board_answers_def)
  have 5: "triple (\<lambda>s. ?K s \<and> board_answers env) m (\<lambda>_ s. ?K s \<and> board_answers env) (\<lambda>_. ?K)" if "keeps ?K m" for m :: "('a services, unit) prog"
    by (rule triple_with) (use that in \<open>simp add: keeps_triple\<close>)
  show ?thesis
    unfolding post_verify_def
    by (intro triple_pbind [OF 1] triple_pbind [OF 2] triple_pthen [OF 3] triple_pthen [OF 4] 5 keeps_rules)
qed

lemma deploy_triple:
  "triple (\<lambda>s. job_known i (mgmt_of s)) (deploy now j process)
     (\<lambda>_ s. job_known i (mgmt_of s) \<and> deployed process) (\<lambda>_ s. job_known i (mgmt_of s))"
proof (cases "dp_start process")
  case None
  let ?K = "\<lambda>s. job_known i (mgmt_of s)"
  have 1: "triple ?K (consume_output now j raws) (\<lambda>_. ?K) (\<lambda>_. ?K)" for raws
    unfolding consume_output_def keeps_triple [symmetric] by (intro keeps_rules)
  have 2: "triple ?K (praise_if (dp_exit process \<noteq> Some 0) ManagementError) (\<lambda>_ s. ?K s \<and> deployed process) (\<lambda>_. ?K)"
    using None by (auto simp: triple_def praise_if_def deployed_def)
  show ?thesis unfolding deploy_def using None triple_pthen [OF 1 2] by simp
qed (simp add: deploy_def triple_def)

lemma audit_is: "keeps (\<lambda>s. job_is i st (mgmt_of s)) (sv_mgmt (add_audit now ev msg u bo d))"
  by (rule keeps_mgmt) (use same_jobs_methods(5) in \<open>simp add: same_jobs_def job_is_def username_of_def\<close>)

lemma program_body_triple:
  assumes "pj_id job = i"
  shows "triple (\<lambda>s. job_known i (mgmt_of s)) (program_body env now job)
    (\<lambda>_ s. job_is i ''SUCCEEDED'' (mgmt_of s) \<and> (\<exists>command cable target. deployed (pe_deploy env command cable target)) \<and> board_answers env)
    (\<lambda>_ s. job_known i (mgmt_of s))"
proof -
  let ?K = "\<lambda>s. job_known i (mgmt_of s)"
  let ?D = "\<exists>command cable target. deployed (pe_deploy env command cable target)"
  have k: "triple ?K m (\<lambda>_. ?K) (\<lambda>_. ?K)" if "keeps ?K m" for m :: "('a services, 'x) prog"
    using that by (simp add: keeps_triple)
  have 1: "triple ?K (deploy_command env board a) (\<lambda>_. ?K) (\<lambda>_. ?K)" for board a
    unfolding deploy_command_def by (rule k) (intro keeps_rules)
  have 2: "triple ?K (sv_mgmt (update_program_job now i ''RUNNING'' (15/100) [])) (\<lambda>_. ?K) (\<lambda>_. ?K)"
    by (rule triple_weaken [OF update_job_triple]) (auto intro: job_is_known)
  have 3: "triple ?K (deploy now i (pe_deploy env c b t)) (\<lambda>_ s. ?K s \<and> ?D) (\<lambda>_. ?K)" for c b t
    by (rule triple_weaken [OF deploy_triple]) auto
  have 4: "triple (\<lambda>s. ?K s \<and> ?D) (post_verify env now board i) (\<lambda>_ s. (?K s \<and> board_answers env) \<and> ?D) (\<lambda>_. ?K)" for board
    by (rule triple_with [OF post_verify_triple])
  let ?F = "board_answers env \<and> ?D"
  have 5: "triple (\<lambda>s. (?K s \<and> board_answers env) \<and> ?D) (sv_mgmt (update_program_job now i ''SUCCEEDED'' 1 []))
      (\<lambda>_ s. job_is i ''SUCCEEDED'' (mgmt_of s) \<and> ?F) (\<lambda>_. ?K)"
    by (rule triple_weaken [OF triple_with [OF update_job_triple, where c = ?F]]) auto
  have 6: "triple (\<lambda>s. job_is i ''SUCCEEDED'' (mgmt_of s) \<and> ?F) (sv_mgmt (add_audit now ev msg u bo d))
      (\<lambda>_ s. job_is i ''SUCCEEDED'' (mgmt_of s) \<and> ?F) (\<lambda>_. ?K)" for ev msg u bo d
    by (rule triple_weaken [OF triple_with [OF audit_is [unfolded keeps_triple], where c = ?F]]) (auto intro: job_is_known)
  have 7: "triple (\<lambda>s. job_is i ''SUCCEEDED'' (mgmt_of s) \<and> ?F) (emit ty i)
      (\<lambda>_ s. job_is i ''SUCCEEDED'' (mgmt_of s) \<and> ?D \<and> board_answers env) (\<lambda>_. ?K)" for ty
    unfolding emit_def
    by (rule triple_weaken [OF triple_with [OF keeps_mgmt_coord [where P = "job_is i ''SUCCEEDED''", unfolded keeps_triple], where c = ?F]]) (auto intro: job_is_known)
  show ?thesis
    unfolding program_body_def assms
    by (intro triple_pbind [OF k [OF known_methods(3)]] triple_pbind [OF 1] triple_pthen [OF k [OF known_methods(1)]] triple_pthen [OF 2]
        triple_pthen [OF k [OF known_methods(7)]] triple_pthen [OF 3] triple_pthen [OF 4] triple_pthen [OF 5] triple_pthen [OF 6] 7)
qed


section \<open>Accepting a job\<close>

lemma sv_reads: "(\<And>m. f m = (fst (f m), m)) \<Longrightarrow> sv_mgmt f s = (fst (f (mgmt_of s)), s)"
  by (simp add: sv_mgmt_def with_mgmt_reads mgmt_of_def)

lemma pure_reads:
  "get_artifact a m = (fst (get_artifact a m), m)" "active_lease b m = (fst (active_lease b m), m)"
  "artifact_paths a m = (fst (artifact_paths a m), m)"
  by (auto simp: get_artifact_def active_lease_def artifact_paths_def transaction_def prog_defs split: option.splits)

text \<open>The scan finds only cables that are plugged in, and leaves the jobs alone.\<close>

definition plugged :: "usb_env \<Rightarrow> string set" where
  "plugged usb = (case ub_devices usb of Inl e \<Rightarrow> {} | Inr devices \<Rightarrow> (\<lambda>d. read_attribute usb d ''serial'') ` set (filter (is_digilent usb) devices))"

definition with_jobs :: "job_row list \<Rightarrow> 'g services \<Rightarrow> bool" where
  "with_jobs js s \<longleftrightarrow> st_jobs (mgmt_of s) = js"

lemma with_jobs_methods [keeps_rules]:
  "keeps (with_jobs js) (sv_mgmt (upsert_discovery now kind fp label d))" "keeps (with_jobs js) (sv_mgmt (prune_discoveries kind fps))"
  unfolding with_jobs_def
  by (rule keeps_mgmt, auto simp: upsert_discovery_def write_discovery_def prune_discoveries_def transaction_def sql_check_def prog_defs
      split: option.splits sum.splits prod.splits if_splits)+

lemma add_jtag_triple:
  "triple (with_jobs js) (add_jtag now usb d) (\<lambda>c s. with_jobs js s \<and> jc_cable_serial c = read_attribute usb d ''serial'') (\<lambda>_. with_jobs js)"
  unfolding add_jtag_def Let_def
  by (rule triple_pbind [OF with_jobs_methods(1) [unfolded keeps_triple]]) (simp add: triple_def)

lemma pmap_jtag_triple:
  "triple (with_jobs js) (pmap (add_jtag now usb) ds)
     (\<lambda>cs s. with_jobs js s \<and> map jc_cable_serial cs = map (\<lambda>d. read_attribute usb d ''serial'') ds) (\<lambda>_. with_jobs js)"
proof (induction ds)
  case (Cons d ds)
  show ?case
    unfolding pmap.simps
  proof (rule triple_pbind [OF add_jtag_triple], goal_cases)
    case (1 c)
    show ?case by (rule triple_pbind [OF triple_with [OF Cons.IH]]) (simp add: triple_def)
  qed
qed (simp add: triple_def)

lemma scan_jtag_triple:
  "triple (with_jobs js) (scan_jtag text_of now usb)
     (\<lambda>r s. with_jobs js s \<and> jc_cable_serial ` set (fst r) \<subseteq> plugged usb) (\<lambda>_. with_jobs js)"
proof (cases "ub_is_dir usb")
  case True
  show ?thesis
  proof (cases "ub_devices usb")
    case (Inl e)
    then show ?thesis using True by (simp add: scan_jtag_def triple_def)
  next
    case (Inr ds)
    let ?cs = "filter (is_digilent usb) ds"
    let ?sub = "\<lambda>rs. map jc_cable_serial rs = map (\<lambda>d. read_attribute usb d ''serial'') ?cs"
    have "triple (with_jobs js) (pbind (pmap (add_jtag now usb) ?cs) (\<lambda>rs.
        pthen (sv_mgmt (prune_discoveries ''jtag'' fps)) (pret (sort_key jc_cable_serial rs, t))))
      (\<lambda>r s. with_jobs js s \<and> jc_cable_serial ` set (fst r) \<subseteq> plugged usb) (\<lambda>_. with_jobs js)" for fps t
    proof (rule triple_pbind [OF pmap_jtag_triple], rule triple_pthen [OF triple_with [OF with_jobs_methods(2) [unfolded keeps_triple]]])
      fix rs
      have "jc_cable_serial ` set rs \<subseteq> plugged usb" if "?sub rs"
        using arg_cong [OF that, of set] by (simp add: plugged_def Inr)
      then show "triple (\<lambda>s. with_jobs js s \<and> ?sub rs) (pret (sort_key jc_cable_serial rs, t))
        (\<lambda>r s. with_jobs js s \<and> jc_cable_serial ` set (fst r) \<subseteq> plugged usb) (\<lambda>_. with_jobs js)"
        by (auto simp: triple_def)
    qed
    then show ?thesis using True Inr by (simp add: scan_jtag_def Let_def)
  qed
qed (simp add: scan_jtag_def triple_def)

lemma verify_jtag_triple:
  "triple (with_jobs js) (verify_jtag env now board)
     (\<lambda>_ s. with_jobs js s \<and> bo_jtag_cable_serial board \<in> plugged (pe_usb env)) (\<lambda>_. with_jobs js)"
  unfolding verify_jtag_def
  by (rule triple_pbind [OF scan_jtag_triple]) (auto simp: triple_def praise_if_def list_ex_iff split: prod.splits)

lemma create_job_result:
  "case create_program_job job_id now b a user m of
     (Inl e, m') \<Rightarrow> st_jobs m' = st_jobs m
   | (Inr j, m') \<Rightarrow> st_jobs m' = st_jobs m @ [fst j] \<and> pj_state (fst j) = ''QUEUED'' \<and>
       \<not> list_ex (\<lambda>j. pj_board_id j = b \<and> job_in_flight j) (st_jobs m)"
proof (cases "user_known (ur_id user) m")
  case True
  have u: "username_of (m\<lparr>st_jobs := js\<rparr>) = username_of m" for js by (rule ext) (simp add: username_of_def)
  obtain name where n: "username_of m (ur_id user) = Some name"
    using True by (cases "find (\<lambda>u. us_id u = ur_id user) (st_users m)") (auto simp: user_known_def username_of_def find_None_iff)
  have f: "find (\<lambda>j. pj_id j = job_id) (js @ [j]) = Some j" if "job_id \<notin> pj_id ` set js" "pj_id j = job_id" for js j
    using that by (induction js) auto
  show ?thesis
    by (simp add: create_program_job_def transaction_def sql_check_def prog_defs program_job_def f n u job_valid_def)
next
  case False
  then show ?thesis by (simp add: create_program_job_def transaction_def sql_check_def prog_defs)
qed

text \<open>What the preflight asks for, beside an idle board.\<close>

definition programmable :: "'g prog_env \<Rightarrow> string \<Rightarrow> string \<Rightarrow> 'g services \<Rightarrow> bool" where
  "programmable env board_id artifact_id s \<longleftrightarrow>
     (\<exists>p a paths. fst (get_board board_id (mgmt_of s)) = Inr p \<and> bo_enabled (bp_row p) \<and>
        bo_jtag_cable_serial (bp_row p) \<in> plugged (pe_usb env) - {[]} \<and>
        fst (get_artifact artifact_id (mgmt_of s)) = Inr a \<and> bo_target_profile (bp_row p) = ar_target_profile (fst a) \<and>
        fst (artifact_paths artifact_id (mgmt_of s)) = Inr paths \<and>
        {fst paths, snd paths, pe_xsct env, psu_init env (bo_target_profile (bp_row p))} \<subseteq> {f. pe_is_file env f})"

lemma program_create_result:
  "case program_create env now job_id board_id artifact_id user s of
     (Inl e, s') \<Rightarrow> st_jobs (mgmt_of s') = st_jobs (mgmt_of s)
   | (Inr j, s') \<Rightarrow> programmable env board_id artifact_id s \<and>
       fst (active_lease board_id (mgmt_of s)) = Inr None \<and> co_active (ap_coord (sv_app s)) board_id \<in> {None, Some []} \<and>
       st_jobs (mgmt_of s') = st_jobs (mgmt_of s) @ [fst j] \<and> pj_state (fst j) = ''QUEUED'' \<and>
       \<not> list_ex (\<lambda>j. pj_board_id j = board_id \<and> job_in_flight j) (st_jobs (mgmt_of s))"
proof -
  let ?m = "mgmt_of s"
  have g: "sv_mgmt (get_board board_id) s = (fst (get_board board_id ?m), s)" "sv_mgmt (get_artifact artifact_id) s = (fst (get_artifact artifact_id ?m), s)"
    "sv_mgmt (active_lease board_id) s = (fst (active_lease board_id ?m), s)" "sv_mgmt (artifact_paths artifact_id) s = (fst (artifact_paths artifact_id ?m), s)"
    by (intro sv_reads get_board_pure pure_reads)+
  have c: "sv_coord (active_run_for_board board_id) s = (Inr (co_active (ap_coord (sv_app s)) board_id), s)"
    by (simp add: sv_coord_def with_coord_def active_run_for_board_def)
  have last: "case pthen (verify_jtag env now board) (sv_mgmt (create_program_job job_id now board_id artifact_id user)) s of
      (Inl e, s') \<Rightarrow> st_jobs (mgmt_of s') = st_jobs ?m
    | (Inr j, s') \<Rightarrow> bo_jtag_cable_serial board \<in> plugged (pe_usb env) \<and> st_jobs (mgmt_of s') = st_jobs ?m @ [fst j] \<and> pj_state (fst j) = ''QUEUED'' \<and> \<not> list_ex (\<lambda>j. pj_board_id j = board_id \<and> job_in_flight j) (st_jobs ?m)" for board
  proof -
    obtain x t where x: "verify_jtag env now board s = (x, t)" by force
    then have v: "st_jobs (mgmt_of t) = st_jobs ?m" "x = Inr u \<Longrightarrow> bo_jtag_cable_serial board \<in> plugged (pe_usb env)" for u
      using verify_jtag_triple [of "st_jobs ?m" env now board, unfolded triple_def, rule_format, of s]
      by (cases x; simp add: with_jobs_def)+
    have r: "case sv_mgmt (create_program_job job_id now board_id artifact_id user) t of
      (Inl e, t') \<Rightarrow> st_jobs (mgmt_of t') = st_jobs (mgmt_of t)
    | (Inr j, t') \<Rightarrow> st_jobs (mgmt_of t') = st_jobs (mgmt_of t) @ [fst j] \<and> pj_state (fst j) = ''QUEUED'' \<and> \<not> list_ex (\<lambda>j. pj_board_id j = board_id \<and> job_in_flight j) (st_jobs (mgmt_of t))" for t :: "'a services"
      using create_job_result [where job_id = job_id and now = now and b = board_id and a = artifact_id and user = user and m = "mgmt_of t"]
      by (auto simp: sv_mgmt_def with_mgmt_def mgmt_of_def split: prod.splits sum.splits)
    show ?thesis using v r [of t] by (cases x) (auto simp: pthen_def pbind_def x split: prod.splits sum.splits)
  qed
  show ?thesis
  proof (cases "fst (get_board board_id ?m)")
    case p: (Inr p)
    show ?thesis
    proof (cases "fst (get_artifact artifact_id ?m)")
      case a: (Inr a)
      show ?thesis
      proof (cases "fst (active_lease board_id ?m)")
        case l: (Inr l)
        show ?thesis
        proof (cases "fst (artifact_paths artifact_id ?m)")
          case q: (Inr q)
          show ?thesis
            using last [of "bp_row p"]
            by (cases q; cases a; cases l) (auto simp: programmable_def program_create_def pbind_def [of "sv_mgmt _"] pbind_def [of "sv_coord _"] pthen_def [of "praise_if _ _"]
                pbind_def [of "praise_if _ _"] praise_if_def g c p a l q split: prod.splits sum.splits)
        qed (simp add: program_create_def g c p a l pbind_def pthen_def praise_if_def)
      qed (simp add: program_create_def g c p a pbind_def pthen_def praise_if_def)
    qed (simp add: program_create_def g c p pbind_def pthen_def praise_if_def)
  qed (simp add: program_create_def g pbind_def)
qed



text \<open>
  C40. Programming is not a lock: lease and runs are looked at once, when the job is accepted. While a job
  is in flight its board can be leased like a free one, and the new owner passes the check of the lease that
  live runs make.
\<close>

theorem programmed_board_can_be_leased:
  assumes "store_reachable m" "list_ex (\<lambda>j. pj_board_id j = board_id \<and> job_in_flight j) (st_jobs m)"
    and "user_known (ur_id user) m" "board_available m board_id" "lease_owner m board_id = None"
  shows "list_ex (\<lambda>j. pj_board_id j = board_id \<and> job_in_flight j) (st_jobs (snd (lease_board now board_id user m))) \<and>
    lease_owner (snd (lease_board now board_id user m)) board_id = Some (ur_id user) \<and>
    fst (require_lease user board_id (snd (lease_board now board_id user m))) = Inr ()"
proof -
  let ?m = "snd (lease_board now board_id user m)"
  note wf = store_reachable_wf [OF assms(1)]
  have "keeps (\<lambda>s. st_jobs s = js) (lease_board now board_id user)" for js
    unfolding lease_board_def insert_lease_def add_audit_def sql_check_def
    by (intro keeps_rules jobs_statements jobs_modify; simp)
  then have j: "st_jobs ?m = st_jobs m" by (rule keepsD) (rule refl)
  have o: "lease_owner ?m board_id = Some (ur_id user)" using lease_board_owner [OF wf] assms(3-5) by simp
  have "store_wf ?m" by (rule store_step_wf [OF store_step.lease wf])
  then show ?thesis using assms(2) j o require_lease_owner by simp
qed

section \<open>Examples\<close>

lemma leased_job_witness_facts:
  "user_known 2 job_store" "board_available job_store ''fpga-a''" "lease_owner job_store ''fpga-a'' = None" "store_reachable job_store"
  "list_ex (\<lambda>j. pj_board_id j = ''fpga-a'' \<and> job_in_flight j) (st_jobs job_store)"
proof -
  have e: "st_users job_store = st_users board_store" "st_boards job_store = st_boards board_store" "st_leases job_store = st_leases board_store"
    by (simp_all add: job_store_def create_program_job_def add_artifact_def get_artifact_def transaction_def sql_check_def prog_defs
        program_job_def split: option.split prod.split)
  show "user_known 2 job_store" "board_available job_store ''fpga-a''" "lease_owner job_store ''fpga-a'' = None"
    using board_store_members by (simp_all add: user_known_def board_available_def lease_owner_def e)
  show "store_reachable job_store" by (rule jobs_reachable_store [OF job_store_reachable])
  obtain j where "st_jobs job_store = [j]" "pj_id j = ''j''" "pj_board_id j = ''fpga-a''" "pj_state j = ''QUEUED''"
    using job_store_jobs by (auto simp: map_eq_Cons_conv)
  then show "list_ex (\<lambda>j. pj_board_id j = ''fpga-a'' \<and> job_in_flight j) (st_jobs job_store)" by (simp add: job_in_flight_def)
qed

lemma programmed_board_can_be_leased_witness:
  "lease_owner (snd (lease_board ''t'' ''fpga-a'' (example_user 2) job_store)) ''fpga-a'' = Some 2"
  using programmed_board_can_be_leased [OF leased_job_witness_facts(4,5), of "example_user 2" "''t''"] leased_job_witness_facts(1-3)
  by (simp add: example_user_def)

definition no_usb :: usb_env where
  "no_usb = \<lparr>ub_is_dir = False, ub_root = ''/sys'', ub_devices = Inr [], ub_attribute = (\<lambda>_ _. None)\<rparr>"

text \<open>A deployment that ends well, on a board that answers.\<close>

definition example_prog :: "bool \<Rightarrow> sim_boards prog_env" where
  "example_prog online = \<lparr>pe_refresh = (\<lambda>_. pret ((example_live False)\<lparr>ls_online := online\<rparr>)), pe_is_file = (\<lambda>_. True), pe_xsct = ''xsct'',
     pe_root = [], pe_usb = no_usb, pe_deploy = (\<lambda>_ _ _. \<lparr>dp_start = None, dp_lines = [''ok''], dp_exit = Some 0\<rparr>), pe_timeout = 20,
     pe_clock = [0, 1, 2], pe_serial_clock = [], pe_text = (\<lambda>_. []), pe_status_text = (\<lambda>_. [])\<rparr>"

definition job_services :: "sim_boards services" where
  "job_services = services_init (example_app job_store)"

definition restarted :: "sim_boards services" where
  "restarted = services_init (example_app (snd (initialize quiet_host
     \<lparr>sd_admin_username = ''admin'', sd_admin_password = [], sd_simulation_boards = False\<rparr> example_kdf [] ''t'' job_store)))"


end
