(* ===== verification/Run_Owners.thy ===== *)
theory Run_Owners
  imports Run_Theorems
begin

text \<open>
  The owners of the boards: as long as the operations of the coordinator follow each other, the run that
  owns a board is unfinished.
\<close>

section \<open>What the operations do to their run\<close>

lemma quiet_pcatch [quiet_rules]: "quiet m \<Longrightarrow> (\<And>e. quiet (h e)) \<Longrightarrow> quiet (pcatch m h)"
  unfolding quiet_def pcatch_def by (auto split: prod.splits sum.splits) (metis snd_conv)+

lemma quiet_pmap [quiet_rules]: "(\<And>x. quiet (f x)) \<Longrightarrow> quiet (pmap f xs)"
  by (induction xs) (auto intro!: quiet_rules simp del: pret_apply)

lemma pmap_total:
  assumes "\<And>x s. \<exists>y t. f x s = (Inr y, t)"
  shows "\<exists>ys t. pmap f xs s = (Inr ys, t)"
proof (induction xs arbitrary: s)
  case (Cons x xs)
  obtain y t where "f x s = (Inr y, t)" using assms by blast
  then show ?case using Cons [of t] by (auto simp: pbind_def)
qed simp

lemma mute_all_done:
  fixes gw :: "'g coord gateway"
  assumes "\<And>b. quiet (mute b)"
  shows "triple (run_at i act rest P) (mute_all gw mute bs) (\<lambda>_. run_at i act rest P) (\<lambda>_ _. False)"
proof -
  have quiet: "quiet (mute_all gw mute bs)" unfolding mute_all_def by (intro quiet_rules assms)
  have "\<exists>y t. pcatch (pthen (mute b) (pret [])) (\<lambda>e. pret [b @ '': '' @ gw_text gw e]) s = (Inr y, t)" for b s
    by (cases "mute b s"; cases "fst (mute b s)") (auto simp: pcatch_def pthen_def pbind_def)
  from pmap_total [OF this] have pmaps: "\<exists>x s'. pmap (\<lambda>b. pcatch (pthen (mute b) (pret [])) (\<lambda>e. pret [b @ '': '' @ gw_text gw e])) bs s = (Inr x, s')" for s .
  from this have total: "\<exists>x s'. mute_all gw mute bs s = (Inr x, s')" for s
  proof -
    obtain x t where "pmap (\<lambda>b. pcatch (pthen (mute b) (pret [])) (\<lambda>e. pret [b @ '': '' @ gw_text gw e])) bs s = (Inr x, t)"
      using pmaps by blast
    then have "mute_all gw mute bs s = (Inr (concat x), t)" unfolding mute_all_def by (subst pbind_Inr) simp_all
    then show ?thesis by blast
  qed
  show ?thesis
    unfolding triple_def
  proof (intro allI impI)
    fix s :: "'g coord" assume at: "run_at i act rest P s"
    obtain x s' where m: "mute_all gw mute bs s = (Inr x, s')" using total by blast
    have "run_at i act rest P s'" using keepsD [OF quiet_keeps_run [OF quiet] at] m by simp
    then show "case mute_all gw mute bs s of (Inl e, s') \<Rightarrow> False | (Inr x, s') \<Rightarrow> run_at i act rest P s'" by (simp add: m)
  qed
qed

text \<open>The coordinator's own tables, for the operations that only add events.\<close>

definition same_runs :: "run_row list \<Rightarrow> (string \<Rightarrow> string option) \<Rightarrow> 'g coord \<Rightarrow> bool" where
  "same_runs rows act s \<longleftrightarrow> rs_runs (co_store s) = rows \<and> co_active s = act"

lemma quiet_same: "quiet m \<Longrightarrow> keeps (same_runs rows act) m"
  by (simp add: keeps_def same_runs_def quietD)

lemma event_same: "keeps (same_runs rows act) (co_event i message level)"
  by (auto simp: keeps_def same_runs_def co_event_def with_store_def rs_add_event_def utc_now_def publish_def prog_defs)

lemma store_same: "(\<And>st. rs_runs (snd (m st)) = rs_runs st) \<Longrightarrow> keeps (same_runs rows act) (with_store m)"
  by (auto simp: keeps_def same_runs_def with_store_def split: prod.splits) (metis snd_conv)

lemma get_request_same: "keeps (same_runs rows act) (with_store (rs_get_request i))"
  by (rule store_same) (auto simp: rs_get_request_def prog_defs split: option.splits)

lemma log_error_same: "keeps (same_runs rows act) m \<Longrightarrow> keeps (same_runs rows act) (log_error gw i m)"
  unfolding log_error_def by (intro keeps_rules event_same)

lemma require_loaded_same: "keeps I (require_loaded i)"
  unfolding require_loaded_def by (intro keeps_rules require_keeps)

text \<open>An abort after its run was found.\<close>

definition abort_rest :: "'g coord gateway \<Rightarrow> string \<Rightarrow> run_row \<Rightarrow> ('g coord, run_row) prog" where
  "abort_rest gw run_id r =
     pbind (if rn_dry_run r then pret [] else mute_all gw (on_session r (gw_mute gw)) (rn_board_ids r)) (\<lambda>errors.
     pbind (co_update run_id Run_ABORTED 1 (join_errors errors)) (\<lambda>record.
     pthen (co_event run_id (if errors = [] then ''abort/mute requested''
                             else ''abort completed with errors: '' @ join_errors errors) ''warning'') (
     pthen (publish_run record) (
     pthen (release_group run_id) (
     pret record)))))"

lemma abort_run_rest: "abort_run gw i = pbind (require_run i) (abort_rest gw i)"
  unfolding abort_run_def abort_rest_def ..

context board_services
begin

lemma services_same: "quiet m \<Longrightarrow> keeps (same_runs rows act) m" for m :: "('g coord, 'b) prog"
  by (rule quiet_same)

lemma arm_loaded_same: "keeps (same_runs rows act) (arm_loaded gw i)"
  unfolding arm_loaded_def
  by (intro keeps_rules require_loaded_same log_error_same get_request_same event_same
      services_same [OF on_session_quiet] services_same services_quiet)

lemma trigger_loaded_same: "keeps (same_runs rows act) (trigger_loaded gw i)"
  unfolding trigger_loaded_def
  by (intro keeps_rules require_loaded_same log_error_same get_request_same event_same
      services_same [OF on_session_quiet] services_same [OF targets_quiet] services_same services_quiet)

lemma abort_loaded_same: "keeps (same_runs rows act) (abort_loaded gw i)"
proof -
  have "quiet (mute_all gw (\<lambda>b. if rn_dry_run r then gw_mark_state gw b Board_MUTED else on_session r (gw_mute gw) b) bs)" for r bs
    unfolding mute_all_def by (intro quiet_rules services_quiet on_session_quiet)
  then show ?thesis
    unfolding abort_loaded_def by (intro keeps_rules require_keeps event_same services_same)
qed

lemma set_state_done:
  assumes "0 \<le> p" "p \<le> 1"
  shows "triple (run_at i act rest (of_request q)) (co_update i st p e)
    (\<lambda>_. run_at i act rest (\<lambda>r. of_request q r \<and> rn_state r = st)) (\<lambda>_ _. False)"
  unfolding co_update_def rs_update_def
  by (rule triple_weaken [OF change_run [of _ "of_request q" "\<lambda>r. of_request q r \<and> rn_state r = st"]])
    (use assms in \<open>auto simp: of_request_def intro: run_at_mono\<close>)

lemma abort_rest_done:
  "triple (run_at i act rest (of_request q)) (abort_rest gw i r) (\<lambda>_. finished i act rest q Run_ABORTED (\<lambda>_. True)) (\<lambda>_ _. False)"
proof -
  let ?I = "run_at i act rest (of_request q)" and ?A = "run_at i act rest (\<lambda>r. of_request q r \<and> rn_state r = Run_ABORTED)"
  have mute: "triple ?I (if rn_dry_run r then pret [] else mute_all gw (on_session r (gw_mute gw)) (rn_board_ids r)) (\<lambda>_. ?I) (\<lambda>_ _. False)"
  proof (cases "rn_dry_run r")
    case True
    then show ?thesis by (simp add: triple_def)
  next
    case False
    show ?thesis unfolding if_not_P [OF False] by (rule mute_all_done, intro on_session_quiet services_quiet)
  qed
  have fin: "triple ?A (pthen (publish_run row) (pthen (release_group i) (pret row)))
      (\<lambda>_. finished i act rest q Run_ABORTED (\<lambda>_. True)) (\<lambda>_ _. False)" for row
    unfolding publish_run_def
    by (rule triple_pthen [OF publish_done triple_pthen [OF release_done]]) (auto simp: triple_def finished_def run_at_def)
  show ?thesis
    unfolding abort_rest_def
    by (rule triple_pbind [OF mute triple_pbind [OF set_state_done triple_pthen [OF event_done fin]]]) simp_all
qed

end
section \<open>Reachable states\<close>

text \<open>Distinct runs with valid requests, and every owner of a board an unfinished run of that board.\<close>

definition good_row :: "run_row \<Rightarrow> bool" where
  "good_row r \<longleftrightarrow> of_request (rn_request r) r \<and> validate_run_request (rn_request r) = Inr (rn_request r)"

definition owners_ok :: "'g coord \<Rightarrow> bool" where
  "owners_ok s \<longleftrightarrow> distinct (map rn_id (rs_runs (co_store s))) \<and> list_all good_row (rs_runs (co_store s)) \<and>
     (\<forall>b i. co_active s b = Some i \<longrightarrow>
        (\<exists>r \<in> set (rs_runs (co_store s)). rn_id r = i \<and> unfinished (rn_state r) \<and> b \<in> set (rn_board_ids r)))"

inductive coord_step :: "'g coord gateway \<Rightarrow> 'g coord \<Rightarrow> 'g coord \<Rightarrow> bool" for gw where
  create: "coord_step gw s (snd (create_run gw i q prepare s))" if "validate_run_request q = Inr q" "\<forall>p \<in> set_option prepare. quiet (p i)"
| worker: "coord_step gw s (snd (execute gw i s))" if "find_run i (co_store s) \<noteq> None"
| arm: "coord_step gw s (snd (arm_run gw i s))"
| start: "coord_step gw s (snd (start_run gw i s))"
| abort: "coord_step gw s (snd (abort_run gw i s))"
| arm_loaded: "coord_step gw s (snd (arm_loaded gw i s))"
| trigger_loaded: "coord_step gw s (snd (trigger_loaded gw i s))"
| abort_loaded: "coord_step gw s (snd (abort_loaded gw i s))"
| boards: "coord_step gw s (snd (m s))" if "quiet (m :: ('g coord, unit) prog)"

inductive coord_reachable :: "'g coord gateway \<Rightarrow> 'g coord \<Rightarrow> bool" for gw where
  start: "coord_reachable gw (snd (coordinator_init s))" if "distinct (map rn_id (rs_runs (co_store s)))"
    "list_all good_row (rs_runs (co_store s))" "co_active s = Map.empty"
| step: "coord_reachable gw s'" if "coord_reachable gw s" "coord_step gw s s'"

lemma distinct_split:
  "distinct (map rn_id rows) \<longleftrightarrow> distinct (map rn_id (filter (\<lambda>r. rn_id r \<noteq> i) rows)) \<and> length (filter (\<lambda>r. rn_id r = i) rows) \<le> 1"
proof (induction rows)
  case (Cons r rows)
  have "filter (\<lambda>x. rn_id x = i) rows = [] \<longleftrightarrow> i \<notin> rn_id ` set rows" by (auto simp: filter_empty_conv)
  then show ?case using Cons by (auto simp: image_iff)
qed simp

lemma set_run_rows: "set (rs_runs st) = set (run_rows i st) \<union> set (other_rows i st)"
  by (auto simp: run_rows_def other_rows_def)

lemma owners_run_at:
  assumes "owners_ok s" "find_run i (co_store s) = Some r"
  shows "run_at i (co_active s) (other_rows i (co_store s)) (\<lambda>x. x = r) s" "good_row r"
proof -
  have r: "r \<in> set (run_rows i (co_store s))" using assms(2) by (auto simp: find_run_def run_rows_def dest: find_SomeD)
  have "distinct (map rn_id (rs_runs (co_store s)))" using assms(1) by (simp add: owners_ok_def)
  then have "length (run_rows i (co_store s)) \<le> 1" unfolding run_rows_def by (subst (asm) distinct_split [of _ i]) simp
  then have "run_rows i (co_store s) = [r]" using r by (cases "run_rows i (co_store s)") auto
  then show "run_at i (co_active s) (other_rows i (co_store s)) (\<lambda>x. x = r) s" by (simp add: run_at_def)
  show "good_row r" using assms(1) r by (auto simp: owners_ok_def list_all_iff set_run_rows [of _ i])
qed

text \<open>After an operation on one run: its row is good, and it is unfinished unless it has released its boards.\<close>

lemma run_at_owners:
  assumes ok: "owners_ok s" and r: "find_run i (co_store s) = Some r"
    and at: "run_at i act (other_rows i (co_store s)) P s'"
    and row: "\<And>x. P x \<Longrightarrow> of_request (rn_request r) x"
    and free: "act = co_active s \<and> (\<forall>x. P x \<longrightarrow> unfinished (rn_state x) \<or> rn_state x = rn_state r) \<or> act = released i (co_active s)"
  shows "owners_ok s'"
proof -
  obtain r' where r': "run_rows i (co_store s') = [r']" "P r'" "co_active s' = act" "other_rows i (co_store s') = other_rows i (co_store s)"
    using at by (auto simp: run_at_def)
  have id: "rn_id r' = i" using r'(1) unfolding run_rows_def by (metis (mono_tags, lifting) filter_eq_ConsD)
  note good = owners_run_at [OF ok r]
  have rows: "run_rows i (co_store s) = [r]" using good(1) by (auto simp: run_at_def)
  have "distinct (map rn_id (rs_runs (co_store s)))" using ok by (simp add: owners_ok_def)
  then have "distinct (map rn_id (other_rows i (co_store s)))"
    unfolding other_rows_def by (subst (asm) distinct_split [of _ i]) simp
  then have "distinct (map rn_id (rs_runs (co_store s')))"
    using r'(1,4) by (subst distinct_split [of _ i]) (simp add: run_rows_def other_rows_def)
  moreover have "good_row r'" using row [OF r'(2)] good(2) by (simp add: good_row_def of_request_def)
  then have "list_all good_row (rs_runs (co_store s'))"
    using ok r'(1,4) by (simp add: owners_ok_def list_all_iff set_run_rows [of _ i])
  moreover have "\<exists>x \<in> set (rs_runs (co_store s')). rn_id x = j \<and> unfinished (rn_state x) \<and> b \<in> set (rn_board_ids x)"
    if "co_active s' b = Some j" for b j
  proof -
    have old: "co_active s b = Some j" and kept: "j = i \<Longrightarrow> act = co_active s"
      using that free r'(3) by (auto simp: released_def split: if_splits)
    obtain x where x: "x \<in> set (rs_runs (co_store s))" "rn_id x = j" "unfinished (rn_state x)" "b \<in> set (rn_board_ids x)"
      using ok old unfolding owners_ok_def by blast
    show ?thesis
    proof (cases "j = i")
      case False
      then have "x \<in> set (other_rows i (co_store s'))" using x r'(4) by (auto simp: other_rows_def)
      then have "x \<in> set (rs_runs (co_store s'))" by (simp add: other_rows_def)
      then show ?thesis using x by blast
    next
      case True
      then have "x \<in> set (run_rows i (co_store s))" using x by (simp add: run_rows_def)
      then have "x = r" using rows by simp
      moreover have "unfinished (rn_state r')"
      proof (cases "act = released i (co_active s)")
        case rel: True
        then have "co_active s' b \<noteq> Some i" using r'(3) by (simp add: released_def)
        then show ?thesis using that True by simp
      next
        case False
        then show ?thesis using free r'(2) x(3) \<open>x = r\<close> by auto
      qed
      moreover have "rn_board_ids r' = rn_board_ids r" using row [OF r'(2)] good(2) by (simp add: good_row_def of_request_def)
      moreover have "r' \<in> set (rs_runs (co_store s'))" using r'(1) set_run_rows [of "co_store s'" i] by simp
      ultimately show ?thesis using True id x by auto
    qed
  qed
  ultimately show ?thesis by (simp add: owners_ok_def)
qed

lemma same_runs_owners: "keeps (same_runs (rs_runs (co_store s)) (co_active s)) m \<Longrightarrow> owners_ok s \<Longrightarrow> owners_ok (snd (m s))"
  using keepsD [of "same_runs (rs_runs (co_store s)) (co_active s)" m s] by (simp add: same_runs_def owners_ok_def)

text \<open>A triple on one run decides about its operation.\<close>

lemma run_triple_owners:
  assumes ok: "owners_ok s" and r: "find_run i (co_store s) = Some r"
    and m: "triple (run_at i (co_active s) (other_rows i (co_store s)) (\<lambda>x. x = r)) m (\<lambda>_. owners_ok) (\<lambda>_. owners_ok)"
  shows "owners_ok (snd (m s))"
  using keepsD [of owners_ok "\<lambda>t. if t = s then m s else (Inl KeyError, s)" s] owners_run_at(1) [OF ok r] m
  by (cases "m s"; cases "fst (m s)") (auto simp: triple_def)

lemma unknown_run: "find_run i (co_store s) = None \<Longrightarrow> require_run i s = (Inl KeyError, s)"
  by (simp add: require_run_def with_store_def rs_require_def rs_get_def prog_defs)

lemma require_done:
  "triple (run_at i act rest (\<lambda>x. x = r)) (require_run i) (\<lambda>x s. x = r \<and> run_at i act rest (\<lambda>x. x = r) s) (\<lambda>_. run_at i act rest (\<lambda>x. x = r))"
proof (unfold triple_def, intro allI impI)
  fix s :: "'a coord" assume at: "run_at i act rest (\<lambda>x. x = r) s"
  then have "find_run i (co_store s) = Some r" by (auto simp: run_at_def find_run_rows)
  then show "case require_run i s of (Inl e, s') \<Rightarrow> run_at i act rest (\<lambda>x. x = r) s' | (Inr x, s') \<Rightarrow> x = r \<and> run_at i act rest (\<lambda>x. x = r) s'"
    using at by (simp add: require_run_def with_store_def rs_require_def rs_get_def run_record_def guard_raise_def prog_defs)
qed

lemma get_request_at:
  "triple (run_at i act rest P) (with_store (rs_get_request i)) (\<lambda>_. run_at i act rest P) (\<lambda>_. run_at i act rest P)"
  by (rule triple_keeps) (auto simp: keeps_def with_store_def rs_get_request_def run_at_def prog_defs split: option.splits)

lemma finished_weaken: "finished i act rest q st P s \<Longrightarrow> finished i act rest q st (\<lambda>_. True) s"
  by (auto simp: finished_def elim: run_at_mono)

context board_services
begin

text \<open>A run that was stopped by a failure of its boards, and then the exception again.\<close>

lemma fault_raise:
  "triple (run_at i act rest (of_request q)) (pthen (fault gw i message) (praise e)) Q
     (\<lambda>_. finished i act rest q Run_FAULT (\<lambda>_. True))"
  by (rule triple_pthen [OF never_raises [OF fault_done]]) (auto simp: triple_def intro: finished_weaken)

lemma state_published:
  assumes "0 \<le> p" "p \<le> 1"
  shows "triple (run_at i act rest (of_request q))
    (pbind (co_update i st p e) (\<lambda>record. pthen (co_event i message ''info'') (pthen (publish_run record) (pret record))))
    (\<lambda>_. run_at i act rest (\<lambda>r. of_request q r \<and> rn_state r = st)) E"
  unfolding publish_run_def
  by (rule never_raises, rule triple_pbind [OF set_state_done [OF assms]],
      rule triple_pthen [OF event_done triple_pthen [OF publish_done]]) (simp_all add: triple_def)

lemma arm_run_done:
  assumes "of_request q r"
  shows "triple (run_at i act rest (\<lambda>x. x = r)) (arm_run gw i)
    (\<lambda>_. run_at i act rest (\<lambda>r. of_request q r \<and> rn_state r = Run_ARMED))
    (\<lambda>_ s. run_at i act rest (\<lambda>x. x = r) s \<or> finished i act rest q Run_FAULT (\<lambda>_. True) s)"
    (is "triple ?P _ ?Q ?E")
proof -
  let ?I = "run_at i act rest (of_request q)"
  have I: "run_at i act rest (\<lambda>x. x = r) s \<Longrightarrow> ?I s" for s using assms by (auto intro: run_at_mono)
  have up: "triple ?P m (\<lambda>_. ?P) ?E" if "quiet m" for m :: "('g coord, 'b) prog"
    by (rule triple_weaken [OF triple_quiet [OF that]]) auto
  have arm: "quiet (on_session rec (gw_arm gw) b)" for rec b by (intro on_session_quiet services_quiet)
  have get: "triple ?P (with_store (rs_get_request i)) (\<lambda>_. ?P) ?E" by (rule triple_weaken [OF get_request_at]) auto
  have req: "triple ?P (require_run i) (\<lambda>x s. x = r \<and> ?P s) ?E" by (rule triple_weaken [OF require_done]) auto
  have live: "triple ?P (pbind (with_store (rs_get_request i)) (\<lambda>request.
      pcatch (pfor (rq_jobs request) (\<lambda>job. on_session rec (gw_arm gw) (jb_board_id job)))
        (\<lambda>e. pthen (fault gw i (gw_text gw e)) (praise e)))) (\<lambda>_. ?P) ?E" for rec
  proof (rule triple_pbind [OF get])
    fix request
    show "triple ?P (pcatch (pfor (rq_jobs request) (\<lambda>job. on_session rec (gw_arm gw) (jb_board_id job)))
        (\<lambda>e. pthen (fault gw i (gw_text gw e)) (praise e))) (\<lambda>_. ?P) ?E"
      by (rule triple_pcatch [OF triple_quiet], intro quiet_rules arm, rule triple_weaken [OF fault_raise]) (use I in auto)
  qed
  have dry: "triple ?P (pfor (rn_board_ids rec) (\<lambda>b. gw_mark_state gw b Board_ARMED)) (\<lambda>_. ?P) ?E" for rec
    by (rule up, intro quiet_rules services_quiet)
  have fin: "triple ?P (pbind (co_update i Run_ARMED 1 []) (\<lambda>record.
      pthen (co_event i ''single board armed'' ''info'') (pthen (publish_run record) (pret record)))) ?Q ?E"
    by (rule triple_weaken [OF state_published]) (use I in auto)
  show ?thesis
    unfolding arm_run_def
  proof (rule triple_pbind [OF req])
    fix rec
    show "triple (\<lambda>s. rec = r \<and> ?P s) (pthen (praise_if (rn_state rec \<noteq> Run_READY) ValueError)
       (pthen (if \<not> rn_dry_run rec then pbind (with_store (rs_get_request i)) (\<lambda>request.
              pcatch (pfor (rq_jobs request) (\<lambda>job. on_session rec (gw_arm gw) (jb_board_id job)))
                (\<lambda>e. pthen (fault gw i (gw_text gw e)) (praise e)))
            else pfor (rn_board_ids rec) (\<lambda>b. gw_mark_state gw b Board_ARMED)) (
        pbind (co_update i Run_ARMED 1 []) (\<lambda>record.
        pthen (co_event i ''single board armed'' ''info'') (pthen (publish_run record) (pret record)))))) ?Q ?E"
    proof (rule triple_at, rule triple_pthen [OF up], rule quiet_rules, rule triple_pthen [OF _ fin])
      show "triple ?P (if \<not> rn_dry_run rec then pbind (with_store (rs_get_request i)) (\<lambda>request.
              pcatch (pfor (rq_jobs request) (\<lambda>job. on_session rec (gw_arm gw) (jb_board_id job)))
                (\<lambda>e. pthen (fault gw i (gw_text gw e)) (praise e)))
            else pfor (rn_board_ids rec) (\<lambda>b. gw_mark_state gw b Board_ARMED)) (\<lambda>_. ?P) ?E"
        using live [of rec] dry [of rec] by (cases "rn_dry_run rec") (simp_all only: if_True if_False not_True_eq_False not_False_eq_True)
    qed
  qed
qed

lemma abort_never_raises:
  assumes "good_row r"
  shows "triple (run_at i act rest (\<lambda>x. x = r)) (abort_run gw i)
    (\<lambda>_. finished i act rest (rn_request r) Run_ABORTED (\<lambda>_. True)) (\<lambda>_ _. False)"
proof -
  have at: "find_run i (co_store s) = Some r \<and> run_at i act rest (of_request (rn_request r)) s" if "run_at i act rest (\<lambda>x. x = r) s" for s
    using that assms by (auto simp: good_row_def run_at_def find_run_rows)
  have req: "require_run i s = (Inr r, s)" if "run_at i act rest (\<lambda>x. x = r) s" for s
    using at [OF that] assms by (simp add: require_run_Inr good_row_def of_request_def)
  have "abort_run gw i s = abort_rest gw i r s" if "run_at i act rest (\<lambda>x. x = r) s" for s
    unfolding abort_run_rest by (rule pbind_Inr, rule req, rule that)
  then show ?thesis using abort_rest_done [of i act rest "rn_request r" r] at unfolding triple_def by (metis (no_types, lifting))
qed

end

lemma triple_snd: "triple P m (\<lambda>_. Q) (\<lambda>_. Q) \<Longrightarrow> P s \<Longrightarrow> Q (snd (m s))"
  by (cases "m s"; cases "fst (m s)") (auto simp: triple_def)

text \<open>How an operation may leave a run and its boards.\<close>

definition run_left :: "string \<Rightarrow> (string \<Rightarrow> string option) \<Rightarrow> run_row list \<Rightarrow> run_row \<Rightarrow> 'g coord \<Rightarrow> bool" where
  "run_left i act rest r s \<longleftrightarrow>
     run_at i act rest (\<lambda>x. of_request (rn_request r) x \<and> (unfinished (rn_state x) \<or> rn_state x = rn_state r)) s \<or>
     run_at i (released i act) rest (of_request (rn_request r)) s"

context board_services
begin

lemma start_run_done:
  assumes "of_request q r"
  shows "triple (run_at i act rest (\<lambda>x. x = r)) (start_run gw i)
    (\<lambda>_. run_at i act rest (\<lambda>r. of_request q r \<and> rn_state r = Run_RUNNING))
    (\<lambda>_ s. run_at i act rest (\<lambda>x. x = r) s \<or> finished i act rest q Run_FAULT (\<lambda>_. True) s)"
    (is "triple ?P _ ?Q ?E")
proof -
  let ?act = "\<lambda>rec b. if rn_dry_run rec then gw_mark_state gw b Board_RUNNING
           else on_session rec (\<lambda>b session. gw_manual_trigger gw b session True) b"
  let ?body = "\<lambda>rec. pcatch (pbind (with_store (rs_get_request i)) (\<lambda>request. pbind (trigger_board_ids gw request) (\<lambda>targets. pfor targets (?act rec))))
      (\<lambda>e. pthen (fault gw i (gw_text gw e)) (praise e))"
  have I: "run_at i act rest (\<lambda>x. x = r) s \<Longrightarrow> run_at i act rest (of_request q) s" for s
    using assms by (auto intro: run_at_mono)
  have req: "triple ?P (require_run i) (\<lambda>x s. x = r \<and> ?P s) ?E" by (rule triple_weaken [OF require_done]) auto
  have up: "triple ?P m (\<lambda>_. ?P) ?E" if "quiet m" for m :: "('g coord, 'b) prog"
    by (rule triple_weaken [OF triple_quiet [OF that]]) auto
  have "quiet (?act rec b)" for rec b by (intro quiet_rules on_session_quiet services_quiet)
  then have acts: "quiet (pfor targets (?act rec))" for rec targets by (rule quiet_pfor)
  have body: "triple ?P (?body rec) (\<lambda>_. ?P) ?E" for rec
  proof (rule triple_pcatch)
    show "triple ?P (pbind (with_store (rs_get_request i)) (\<lambda>request. pbind (trigger_board_ids gw request) (\<lambda>targets. pfor targets (?act rec))))
        (\<lambda>_. ?P) (\<lambda>_. ?P)"
      by (rule triple_pbind [OF get_request_at triple_pbind [OF triple_quiet [OF targets_quiet] triple_quiet [OF acts]]])
    show "triple ?P (pthen (fault gw i (gw_text gw e)) (praise e)) (\<lambda>_. ?P) ?E" for e
      by (rule triple_weaken [OF fault_raise]) (use I in auto)
  qed
  have fin: "triple ?P (pbind (co_update i Run_RUNNING 1 []) (\<lambda>record.
      pthen (co_event i ''trigger accepted'' ''info'') (pthen (publish_run record) (pret record)))) ?Q ?E"
    by (rule triple_weaken [OF state_published]) (use I in auto)
  show ?thesis
    unfolding start_run_def
    by (rule triple_pbind [OF req], rule triple_at, rule triple_pthen [OF up], rule quiet_rules, rule triple_pthen [OF body fin])
qed

text \<open>Every operation of the coordinator keeps the owners.\<close>

lemma owners_run:
  assumes ok: "owners_ok s" and m: "\<And>r act rest. good_row r \<Longrightarrow>
      triple (run_at i act rest (\<lambda>x. x = r)) m (\<lambda>_. run_left i act rest r) (\<lambda>_. run_left i act rest r)"
    and r: "find_run i (co_store s) = Some r"
  shows "owners_ok (snd (m s))"
proof -
  note at = owners_run_at [OF ok r]
  have "run_left i (co_active s) (other_rows i (co_store s)) r (snd (m s))" by (rule triple_snd [OF m [OF at(2)] at(1)])
  then show ?thesis
    unfolding run_left_def
  proof
    assume "run_at i (co_active s) (other_rows i (co_store s))
      (\<lambda>x. of_request (rn_request r) x \<and> (unfinished (rn_state x) \<or> rn_state x = rn_state r)) (snd (m s))"
    then show ?thesis by (rule run_at_owners [OF ok r]) (auto simp: of_request_def)
  next
    assume "run_at i (released i (co_active s)) (other_rows i (co_store s)) (of_request (rn_request r)) (snd (m s))"
    then show ?thesis by (rule run_at_owners [OF ok r]) (auto simp: of_request_def)
  qed
qed

end

lemma finished_left: "good_row r \<Longrightarrow> finished i act rest (rn_request r) st P s \<Longrightarrow> run_left i act rest r s"
  unfolding finished_def run_left_def by (rule disjI2) (erule run_at_mono, simp)

lemma same_left: "good_row r \<Longrightarrow> run_at i act rest (\<lambda>x. x = r) s \<Longrightarrow> run_left i act rest r s"
  by (auto simp: run_left_def good_row_def elim: run_at_mono)

lemma state_left:
  "unfinished st \<Longrightarrow> run_at i act rest (\<lambda>x. of_request (rn_request r) x \<and> rn_state x = st \<and> P x) s \<Longrightarrow> run_left i act rest r s"
  by (auto simp: run_left_def elim: run_at_mono)

context board_services
begin

lemma worker_left:
  assumes "good_row r"
  shows "triple (run_at i act rest (\<lambda>x. x = r)) (execute gw i) (\<lambda>_. run_left i act rest r) (\<lambda>_. run_left i act rest r)"
proof -
  have "validate_run_request (rn_request r) = Inr (rn_request r)" using assms by (simp add: good_row_def)
  from execute_done [OF this] show ?thesis
  proof (rule triple_weaken)
    show "run_at i act rest (\<lambda>x. x = r) s \<Longrightarrow> run_at i act rest (of_request (rn_request r)) s" for s
      using assms by (auto simp: good_row_def elim: run_at_mono)
    fix s assume "run_result i act rest (rn_request r) s \<or> finished i act rest (rn_request r) Run_FAULT (\<lambda>_. True) s"
    then show "run_left i act rest r s"
      using state_left [of Run_RUNNING i act rest r rn_loaded s] finished_left [OF assms]
      by (auto simp: run_result_def unfinished_def split: if_splits)
  qed auto
qed

lemma arm_left:
  assumes "good_row r"
  shows "triple (run_at i act rest (\<lambda>x. x = r)) (arm_run gw i) (\<lambda>_. run_left i act rest r) (\<lambda>_. run_left i act rest r)"
  using assms state_left [of Run_ARMED i act rest r "\<lambda>_. True"] same_left [OF assms] finished_left [OF assms]
  by (intro triple_weaken [OF arm_run_done]) (auto simp: good_row_def unfinished_def)

lemma start_left:
  assumes "good_row r"
  shows "triple (run_at i act rest (\<lambda>x. x = r)) (start_run gw i) (\<lambda>_. run_left i act rest r) (\<lambda>_. run_left i act rest r)"
  using assms state_left [of Run_RUNNING i act rest r "\<lambda>_. True"] same_left [OF assms] finished_left [OF assms]
  by (intro triple_weaken [OF start_run_done]) (auto simp: good_row_def unfinished_def)

lemma abort_left:
  assumes "good_row r"
  shows "triple (run_at i act rest (\<lambda>x. x = r)) (abort_run gw i) (\<lambda>_. run_left i act rest r) (\<lambda>_. run_left i act rest r)"
proof -
  have req: "triple (run_at i act rest (\<lambda>x. x = r)) (abort_run gw i) (\<lambda>_. finished i act rest (rn_request r) Run_ABORTED (\<lambda>_. True)) (\<lambda>_ _. False)"
    using abort_never_raises assms by blast
  show ?thesis by (rule triple_weaken [OF req]) (use finished_left [OF assms] in auto)
qed

lemma create_owners:
  assumes ok: "owners_ok s" and q: "validate_run_request q = Inr q" and p: "\<forall>p \<in> set_option prepare. quiet (p i)"
  shows "owners_ok (snd (create_run gw i q prepare s))"
proof -
  let ?act = "co_active s" and ?st = "co_store s"
  have prepare: "\<And>p. prepare = Some p \<Longrightarrow> quiet (p i)" using p by simp
  have t: "triple (owned_by ?st ?act) (create_run gw i q prepare)
    (\<lambda>row s. list_all (is_free ?act) (rq_board_ids q) \<and> co_active s = claimed i (rq_board_ids q) ?act \<and> new_run i q ?st (co_store s) row)
    (\<lambda>_ s. rs_runs (co_store s) = rs_runs ?st \<and>
       (co_active s = ?act \<or> list_all (is_free ?act) (rq_board_ids q) \<and> co_active s = released i (claimed i (rq_board_ids q) ?act)))"
    by (rule create_run_triple [OF board_services_axioms]) (rule prepare)
  have own: "owned_by ?st ?act s" by (simp add: owned_by_def)
  obtain x s' where c: "create_run gw i q prepare s = (x, s')" by fastforce
  show ?thesis
  proof (cases x)
    case (Inl e)
    then have "create_run gw i q prepare s = (Inl e, s')" using c by simp
    note refused = tripleD_Inl [OF t own this]
    have rows: "rs_runs (co_store s') = rs_runs ?st" and act: "co_active s' = ?act \<or>
        list_all (is_free ?act) (rq_board_ids q) \<and> co_active s' = released i (claimed i (rq_board_ids q) ?act)"
      using refused by blast+
    have "?act b = Some j" if "co_active s' b = Some j" for b j
      using that act by (auto simp: released_def claimed_def split: if_splits)
    then have "\<exists>r \<in> set (rs_runs ?st). rn_id r = j \<and> unfinished (rn_state r) \<and> b \<in> set (rn_board_ids r)"
      if "co_active s' b = Some j" for b j
      using that ok unfolding owners_ok_def by simp
    then show ?thesis using ok c by (simp add: owners_ok_def rows)
  next
    case (Inr row)
    then have "create_run gw i q prepare s = (Inr row, s')" using c by simp
    note accepted = tripleD_Inr [OF t own this]
    have r: "co_active s' = claimed i (rq_board_ids q) ?act" "new_run i q ?st (co_store s') row"
      using accepted by blast+
    have "i \<notin> rn_id ` set (rs_runs ?st)" using r(2) by (auto simp: new_run_def find_run_def find_None_iff)
    then have "distinct (map rn_id (rs_runs (co_store s')))" using ok r(2) by (auto simp: owners_ok_def new_run_def)
    moreover have "list_all good_row (rs_runs (co_store s'))"
      using ok r(2) q by (auto simp: owners_ok_def new_run_def good_row_def of_request_def)
    moreover have "\<exists>r \<in> set (rs_runs (co_store s')). rn_id r = j \<and> unfinished (rn_state r) \<and> b \<in> set (rn_board_ids r)"
      if "co_active s' b = Some j" for b j
    proof (cases "b \<in> set (rq_board_ids q)")
      case True
      then have "j = i" using that r(1) by (simp add: claimed_def)
      then show ?thesis using True r(2) by (auto simp: new_run_def of_request_def unfinished_def)
    next
      case False
      then have "?act b = Some j" using that r(1) by (simp add: claimed_def)
      then show ?thesis using ok r(2) unfolding owners_ok_def new_run_def by auto
    qed
    ultimately show ?thesis using c by (simp add: owners_ok_def)
  qed
qed

lemma step_owners:
  assumes "owners_ok s" "coord_step gw s s'"
  shows "owners_ok s'"
  using assms(2,1)
proof (cases rule: coord_step.cases)
  case (create q prepare i)
  then show ?thesis using create_owners assms(1) by blast
next
  case (worker i)
  then show ?thesis using owners_run [OF assms(1) worker_left] by blast
next
  case (arm i)
  then show ?thesis
    using owners_run [OF assms(1) arm_left, of i] unknown_run [of i s] assms(1)
    by (cases "find_run i (co_store s)") (auto simp: arm_run_def pbind_def)
next
  case (start i)
  then show ?thesis
    using owners_run [OF assms(1) start_left, of i] unknown_run [of i s] assms(1)
    by (cases "find_run i (co_store s)") (auto simp: start_run_def pbind_def)
next
  case (abort i)
  then show ?thesis
    using owners_run [OF assms(1) abort_left, of i] unknown_run [of i s] assms(1)
    by (cases "find_run i (co_store s)") (auto simp: abort_run_def pbind_def)
next
  case (arm_loaded i)
  then show ?thesis using same_runs_owners [OF arm_loaded_same assms(1)] by simp
next
  case (trigger_loaded i)
  then show ?thesis using same_runs_owners [OF trigger_loaded_same assms(1)] by simp
next
  case (abort_loaded i)
  then show ?thesis using same_runs_owners [OF abort_loaded_same assms(1)] by simp
next
  case (boards m)
  then show ?thesis using same_runs_owners [OF quiet_same assms(1)] by simp
qed

end

lemma start_owners:
  assumes "distinct (map rn_id (rs_runs (co_store s)))" "list_all good_row (rs_runs (co_store s))" "co_active s = Map.empty"
  shows "owners_ok (snd (coordinator_init s))"
proof -
  obtain x s' where i: "coordinator_init s = (x, s')" by fastforce
  have "list_all (\<lambda>r. 0 \<le> rn_progress r \<and> rn_progress r \<le> 1) (rs_runs (co_store s))"
    using assms(2) by (auto simp: list_all_iff good_row_def of_request_def)
  from restart_rows [OF assms(1) this i]
  have rows: "list_all2 (\<lambda>r r'. if unfinished (rn_state r) then recovered r r' else r' = r) (rs_runs (co_store s)) (rs_runs (co_store s'))"
    by simp
  have same: "rn_id r' = rn_id r \<and> good_row r' = good_row r" if "if unfinished (rn_state r) then recovered r r' else r' = r" for r r'
    using that by (auto simp: recovered_def good_row_def of_request_def split: if_splits)
  have "map rn_id (rs_runs (co_store s')) = map rn_id (rs_runs (co_store s)) \<and> list_all good_row (rs_runs (co_store s'))"
    using rows assms(2) by (induction rule: list_all2_induct) (auto dest: same)
  moreover have "co_active s' = co_active s"
    using i by (auto simp: coordinator_init_def with_store_def pbind_def split: prod.splits sum.splits)
  ultimately show ?thesis using assms(1,3) i by (simp add: owners_ok_def)
qed

text \<open>
  C20. A board is owned by an unfinished run only. In every state that the operations of the coordinator reach, one
  after the other, from a start on any table of valid runs, the run that owns a board exists, is not yet finished
  and uses the board; run ids are unique. So a board whose run is DONE, FAULT or ABORTED is free.
\<close>

theorem owner_is_unfinished:
  assumes "board_services gw" "coord_reachable gw s" "co_active s b = Some i"
  shows "\<exists>r. find_run i (co_store s) = Some r \<and> unfinished (rn_state r) \<and> b \<in> set (rn_board_ids r) \<and>
    distinct (map rn_id (rs_runs (co_store s)))"
proof -
  have ok: "owners_ok s"
    using assms(2) by (induction rule: coord_reachable.induct) (auto intro: start_owners board_services.step_owners [OF assms(1)])
  then obtain r where r: "r \<in> set (rs_runs (co_store s))" "rn_id r = i" "unfinished (rn_state r)" "b \<in> set (rn_board_ids r)"
    using assms(3) unfolding owners_ok_def by blast
  then have "find_run i (co_store s) = Some r"
    using ok find_key [of rn_id "rs_runs (co_store s)" r] by (simp add: owners_ok_def find_run_def)
  then show ?thesis using r ok by (simp add: owners_ok_def)
qed

lemma owner_is_unfinished_witness:
  "\<exists>s r. co_active s ''a'' = Some ''1f'' \<and> coord_reachable example_gateway s \<and> find_run ''1f'' (co_store s) = Some r \<and> unfinished (rn_state r)"
proof -
  let ?q = "example_request [''a''] False None"
  have b: "board_services example_gateway" unfolding example_gateway_def by (rule sim.board_services_axioms)
  have start: "coordinator_init example_coord = (Inr (), example_coord)"
    by (simp add: coordinator_init_def with_store_def rs_recover_orphaned_def example_coord_def prog_defs List.map_filter_def)
  have "coord_reachable example_gateway (snd (coordinator_init example_coord))"
    by (rule coord_reachable.start) (simp_all add: example_coord_def)
  then have "coord_reachable example_gateway example_coord" by (simp add: start)
  then have r: "coord_reachable example_gateway (snd (create_run example_gateway ''1f'' ?q None example_coord))"
    by (rule coord_reachable.step [OF _ coord_step.create [OF example_request_valid(2)]]) simp
  obtain row s where c: "create_run example_gateway ''1f'' ?q None example_coord = (Inr row, s)" using example_created by blast
  have "co_active s = claimed ''1f'' (rq_board_ids ?q) (co_active example_coord)"
    using tripleD_Inr [OF create_run_triple [OF b, of None "''1f''" "co_store example_coord" "co_active example_coord"] _ c]
    by (auto simp: owned_by_def)
  then have a: "co_active s ''a'' = Some ''1f''" by (simp add: claimed_def rq_board_ids_def example_request_def)
  show ?thesis using owner_is_unfinished [OF b, of s "''a''" "''1f''"] r a c by auto
qed

end
