(* ===== verification/Run_Races.thy ===== *)
theory Run_Races
  imports Run_Owners
begin

text \<open>
  An operation in the middle of another: an abort while the worker uploads. The gateway's call for the
  upload is a program on the whole state, so what other threads do meanwhile is part of it.
\<close>

section \<open>An abort during the upload\<close>

text \<open>While the board receives the upload, its user aborts the run, and the next user starts one.\<close>

definition live_example :: "sim_coord gateway" where
  "live_example = example_gateway\<lparr>gw_simulation := False\<rparr>"

definition interrupted_gateway :: "sim_coord gateway" where
  "interrupted_gateway = live_example\<lparr>gw_upload := (\<lambda>run_id job dry_run.
     pthen (abort_run live_example run_id) (
     pthen (create_run live_example ''2e'' (example_request [''a''] False None) None) (
     pret \<lparr>up_commit = Some (Some 7, Some 9), up_log_lines = []\<rparr>)))\<rparr>"

text \<open>The run \<open>1f\<close> with a property of its row, and a board that can be asked for its status.\<close>

definition board_there :: "sim_coord \<Rightarrow> bool" where
  "board_there s \<longleftrightarrow> sg_profiles (co_boards s) = sg_profiles (co_boards example_coord) \<and> sg_status (co_boards s) ''a'' \<noteq> None"

definition run_there :: "(string \<Rightarrow> string option) \<Rightarrow> run_row list \<Rightarrow> (run_row \<Rightarrow> bool) \<Rightarrow> sim_coord \<Rightarrow> bool" where
  "run_there act rest P s \<longleftrightarrow> run_at ''1f'' act rest P s \<and> board_there s"

lemma triple_and: "triple P m Q E \<Longrightarrow> keeps I m \<Longrightarrow> triple (\<lambda>s. P s \<and> I s) m (\<lambda>x s. Q x s \<and> I s) (\<lambda>e s. E e s \<and> I s)"
  unfolding triple_def keeps_def by (fastforce split: prod.splits sum.splits)

lemma store_there: "keeps board_there (with_store m)"
  by (auto simp: keeps_def board_there_def with_store_def split: prod.splits)

lemma event_there: "keeps board_there (co_event i message level)" "keeps board_there (publish e)"
  unfolding co_event_def publish_def by (intro keeps_rules store_there, simp add: board_there_def)+

lemma there:
  assumes "triple (run_at ''1f'' act rest P) m (\<lambda>x. run_at ''1f'' act' rest' (Q x)) (\<lambda>_ _. False)" "keeps board_there m"
  shows "triple (run_there act rest P) m (\<lambda>x. run_there act' rest' (Q x)) (\<lambda>_ _. False)"
  unfolding run_there_def by (rule triple_weaken [OF triple_and [OF assms]]) simp_all

lemma run_there_mono: "run_there act rest P s \<Longrightarrow> (\<And>r. P r \<Longrightarrow> Q r) \<Longrightarrow> run_there act rest Q s"
  by (auto simp: run_there_def elim: run_at_mono)

text \<open>Calls to the simulated board of the example never raise.\<close>

lemma board_call:
  assumes "\<And>g. sg_profiles g = sg_profiles (co_boards example_coord) \<Longrightarrow> sg_status g ''a'' \<noteq> None \<Longrightarrow>
      \<exists>x g'. m g = (Inr x, g') \<and> sg_profiles g' = sg_profiles g \<and> sg_status g' ''a'' \<noteq> None \<and> R x"
  shows "triple (run_there act rest P) (with_boards m) (\<lambda>x s. R x \<and> run_there act rest P s) (\<lambda>_ _. False)"
  unfolding triple_def
proof (intro allI impI)
  fix s assume s: "run_there act rest P s"
  then obtain x g' where "m (co_boards s) = (Inr x, g')" "sg_profiles g' = sg_profiles (co_boards s)" "sg_status g' ''a'' \<noteq> None" "R x"
    using assms [of "co_boards s"] by (auto simp: run_there_def board_there_def)
  then show "case with_boards m s of (Inl e, s') \<Rightarrow> False | (Inr x, s') \<Rightarrow> R x \<and> run_there act rest P s'"
    using s by (simp add: with_boards_def run_there_def run_at_def board_there_def)
qed

lemma profile_call: "triple (run_there act rest P) (with_boards (sim_profile ''a'')) (\<lambda>_. run_there act rest P) (\<lambda>_ _. False)"
  by (rule triple_weaken [OF board_call [where R = "\<lambda>_. True"]])
    (auto simp: sim_profile_def sync_statuses_def example_coord_def prog_defs)

lemma mark_call: "triple (run_there act rest P) (with_boards (sim_mark_state ''a'' st)) (\<lambda>_. run_there act rest P) (\<lambda>_ _. False)"
  by (rule triple_weaken [OF board_call [where R = "\<lambda>_. True"]])
    (auto simp: sim_mark_state_def set_board_status_def prog_defs)

lemma refresh_call:
  "triple (run_there act rest P) (with_boards (pbind (sim_refresh ''a'') (\<lambda>st. pret (bs_online st))))
     (\<lambda>x s. x \<and> run_there act rest P s) (\<lambda>_ _. False)"
  by (rule board_call)
    (auto simp: sim_refresh_def sim_profile_def sync_statuses_def example_coord_def set_board_status_def waveform_status_fields_def
      waveform_state_def guard_raise_def sim_answer_def prog_defs Let_def split: option.split)

text \<open>The start of the second run.\<close>

lemma second_run:
  assumes "find_run ''2e'' (co_store s) = None" "is_free (co_active s) ''a''" "board_there s"
  shows "\<exists>row s'. create_run live_example ''2e'' (example_request [''a''] False None) None s = (Inr row, s') \<and>
    rn_id row = ''2e'' \<and> rn_state row = Run_QUEUED \<and> rs_runs (co_store s') = rs_runs (co_store s) @ [row] \<and>
    co_active s' = (co_active s)(''a'' \<mapsto> ''2e'') \<and> board_there s'"
  using assms
  by (auto simp: create_run_def live_example_def example_gateway_def sim_gateway_def example_request_def rq_board_ids_def
      example_waveform_def board_there_def is_free_def example_coord_def run_defs fun_eq_iff)

lemma live_example_services: "board_services live_example"
proof -
  have sim: "board_services example_gateway" unfolding example_gateway_def by (rule sim.board_services_axioms)
  have same: "gw_profile live_example = gw_profile example_gateway" "gw_sync_two_boards live_example = gw_sync_two_boards example_gateway"
    "gw_rfdc_service live_example = gw_rfdc_service example_gateway" "gw_rfdc_apply live_example = gw_rfdc_apply example_gateway"
    "gw_config live_example = gw_config example_gateway" "gw_upload live_example = gw_upload example_gateway"
    "gw_register live_example = gw_register example_gateway" "gw_mark_state live_example = gw_mark_state example_gateway"
    "gw_refresh_online live_example = gw_refresh_online example_gateway" "gw_summary live_example = gw_summary example_gateway"
    "gw_arm live_example = gw_arm example_gateway" "gw_manual_trigger live_example = gw_manual_trigger example_gateway"
    "gw_mute live_example = gw_mute example_gateway" "gw_sleep live_example = gw_sleep example_gateway"
    by (simp_all add: live_example_def)
  show ?thesis using sim unfolding board_services_def same .
qed

text \<open>No session has been recorded for the run.\<close>

definition no_session :: "sim_coord \<Rightarrow> bool" where
  "no_session s \<longleftrightarrow> (\<forall>r \<in> set (rs_runs (co_store s)). rn_id r = ''1f'' \<longrightarrow> rn_waveform_sessions r = Map.empty)"

lemma no_session_same: "(\<And>s. rs_runs (co_store (snd (m s))) = rs_runs (co_store s)) \<Longrightarrow> keeps no_session m"
  by (simp add: keeps_def no_session_def)

lemma no_session_update: "keeps no_session (co_update i st p e)"
proof -
  have "no_session (s\<lparr>co_store := snd (rs_update i st p e (co_store s))\<rparr>)" if "no_session s" for s
    using that
    by (auto simp: no_session_def rs_update_def rs_change_def utc_now_def update_runs_def rs_require_def rs_get_def set_sql_update prog_defs
        split: option.splits sum.splits if_splits)
  then show ?thesis by (simp add: keeps_def co_update_def with_store_def case_prod_unfold)
qed

lemma no_session_event: "keeps no_session (co_event i message level)" "keeps no_session (publish e)" "keeps no_session (release_group i)"
  by (rule no_session_same; auto simp: co_event_def with_store_def rs_add_event_def utc_now_def publish_def release_group_def prog_defs)+

lemma no_session_quiet: "quiet m \<Longrightarrow> keeps no_session m"
  by (rule no_session_same) (simp add: quietD)

definition known :: "sim_boards \<Rightarrow> bool" where
  "known g \<longleftrightarrow> sg_profiles g = sg_profiles (co_boards example_coord) \<and> sg_status g ''a'' \<noteq> None"

lemma keeps_there: "keeps known m \<Longrightarrow> keeps board_there (with_boards m)"
  by (auto simp: keeps_def known_def board_there_def with_boards_def split: prod.splits)

lemma known_profile: "keeps known (sim_profile b)"
  by (auto simp: keeps_def known_def sim_profile_def sync_statuses_def example_coord_def prog_defs split: option.splits)

lemma known_status: "keeps known (set_board_status b f)"
  by (auto simp: keeps_def known_def set_board_status_def prog_defs split: option.splits)

lemma known_put: "keeps known (put_waveform b w)"
  by (simp add: keeps_def known_def put_waveform_def)

lemma mute_known: "keeps known (sim_mute b session)"
  unfolding sim_mute_def own_waveform_def set_waveform_status_def Let_def
  by (intro keeps_rules known_profile known_status known_put)

lemma abort_there: "keeps no_session (abort_run live_example i)" "keeps board_there (abort_run live_example i)"
proof -
  have mute: "quiet (mute_all live_example (on_session r (gw_mute live_example)) bs)" for r bs
    unfolding mute_all_def
    by (intro quiet_rules board_services.on_session_quiet [OF live_example_services] board_services.mute_quiet [OF live_example_services])
  show "keeps no_session (abort_run live_example i)"
    unfolding abort_run_def publish_run_def
    by (intro keeps_rules require_keeps no_session_update no_session_event no_session_quiet mute)
  have mute_there: "keeps board_there (mute_all live_example (on_session r (gw_mute live_example)) bs)" for r bs
    unfolding mute_all_def on_session_def live_example_def example_gateway_def sim_gateway_def gateway.simps
    by (intro keeps_rules keeps_there mute_known)
  show "keeps board_there (abort_run live_example i)"
    unfolding abort_run_def publish_run_def co_update_def release_group_def
    by (intro keeps_rules require_keeps store_there event_there mute_there) (simp add: board_there_def)
qed

abbreviation one_board :: run_request where "one_board \<equiv> example_request [''a''] False None"

text \<open>The run before its upload, and after it: the other run owns the board.\<close>

definition before_upload :: "sim_coord \<Rightarrow> bool" where
  "before_upload s \<longleftrightarrow> run_there (Map.empty(''a'' \<mapsto> ''1f'')) [] (of_request one_board) s \<and> no_session s"

definition after_upload :: "(run_row \<Rightarrow> bool) \<Rightarrow> sim_coord \<Rightarrow> bool" where
  "after_upload P s \<longleftrightarrow> (\<exists>row. rn_id row = ''2e'' \<and> rn_state row = Run_QUEUED \<and> run_there (Map.empty(''a'' \<mapsto> ''2e'')) [row] P s)"

lemma after_upload_step:
  assumes "\<And>row. triple (run_there (Map.empty(''a'' \<mapsto> ''2e'')) [row] P) m (\<lambda>x s. Q x \<and> run_there (Map.empty(''a'' \<mapsto> ''2e'')) [row] P' s) (\<lambda>_ _. False)"
  shows "triple (after_upload P) m (\<lambda>x s. Q x \<and> after_upload P' s) (\<lambda>_ _. False)"
  unfolding triple_def
proof (intro allI impI)
  fix s assume "after_upload P s"
  then obtain row where row: "rn_id row = ''2e''" "rn_state row = Run_QUEUED" "run_there (Map.empty(''a'' \<mapsto> ''2e'')) [row] P s"
    by (auto simp: after_upload_def)
  from assms [of row, unfolded triple_def, rule_format, OF row(3)]
  show "case m s of (Inl e, s') \<Rightarrow> False | (Inr x, s') \<Rightarrow> Q x \<and> after_upload P' s'"
    using row(1,2) by (auto simp: after_upload_def split: prod.splits sum.splits)
qed

lemma upload_interrupted:
  "triple before_upload (gw_upload interrupted_gateway ''1f'' job dry)
     (\<lambda>outcome s. outcome = \<lparr>up_commit = Some (Some 7, Some 9), up_log_lines = []\<rparr> \<and>
        after_upload (\<lambda>r. of_request one_board r \<and> rn_waveform_sessions r = Map.empty) s) (\<lambda>_ _. False)"
proof -
  let ?act = "Map.empty(''a'' \<mapsto> ''1f'')" and ?one = "of_request one_board"
  have good: "good_row r" if "?one r" for r using that example_request_valid(2) by (simp add: good_row_def of_request_def)
  have abort: "triple (run_at ''1f'' ?act [] ?one) (abort_run live_example ''1f'')
      (\<lambda>_. run_at ''1f'' (released ''1f'' ?act) [] ?one) (\<lambda>_ _. False)"
    unfolding triple_def
  proof (intro allI impI)
    fix s :: sim_coord assume "run_at ''1f'' ?act [] ?one s"
    then obtain r where r: "run_at ''1f'' ?act [] (\<lambda>x. x = r) s" "?one r" by (auto simp: run_at_def)
    then have "case abort_run live_example ''1f'' s of (Inl e, s') \<Rightarrow> False
        | (Inr x, s') \<Rightarrow> finished ''1f'' ?act [] (rn_request r) Run_ABORTED (\<lambda>_. True) s'"
      using board_services.abort_never_raises [OF live_example_services good [OF r(2)]] by (simp add: triple_def)
    moreover have "rn_request r = one_board" using r(2) by (simp add: of_request_def)
    ultimately show "case abort_run live_example ''1f'' s of (Inl e, s') \<Rightarrow> False
        | (Inr x, s') \<Rightarrow> run_at ''1f'' (released ''1f'' ?act) [] ?one s'"
      by (auto simp: finished_def elim: run_at_mono split: prod.splits sum.splits)
  qed
  let ?mid = "\<lambda>s. (run_at ''1f'' (released ''1f'' ?act) [] ?one s \<and> board_there s) \<and> no_session s"
  have aborted: "triple before_upload (abort_run live_example ''1f'') (\<lambda>_. ?mid) (\<lambda>_ _. False)"
    unfolding before_upload_def run_there_def
    by (rule triple_weaken [OF triple_and [OF triple_and [OF abort abort_there(2)] abort_there(1)]]) simp_all
  have created: "triple ?mid (create_run live_example ''2e'' one_board None)
      (\<lambda>_. after_upload (\<lambda>r. ?one r \<and> rn_waveform_sessions r = Map.empty)) (\<lambda>_ _. False)"
    unfolding triple_def
  proof (intro allI impI)
    fix s assume mid: "?mid s"
    then obtain r where r: "run_rows ''1f'' (co_store s) = [r]" "other_rows ''1f'' (co_store s) = []" "?one r"
      "co_active s = released ''1f'' ?act" by (auto simp: run_at_def)
    then have "set (rs_runs (co_store s)) = {r}" using set_run_rows [of "co_store s" "''1f''"] by simp
    moreover have "r \<in> set (run_rows ''1f'' (co_store s))" using r(1) by simp
    then have id: "rn_id r = ''1f''" by (simp add: run_rows_def)
    ultimately have "find_run ''2e'' (co_store s) = None" "rn_waveform_sessions r = Map.empty"
      using mid by (auto simp: find_run_def find_None_iff no_session_def)
    moreover have "is_free (co_active s) ''a''" by (simp add: r(4) is_free_def released_def)
    ultimately obtain row s' where c: "create_run live_example ''2e'' one_board None s = (Inr row, s')" "rn_id row = ''2e''"
        "rn_state row = Run_QUEUED" "rs_runs (co_store s') = rs_runs (co_store s) @ [row]"
        "co_active s' = (co_active s)(''a'' \<mapsto> ''2e'')" "board_there s'"
      using second_run [of s] mid by blast
    have "run_there (Map.empty(''a'' \<mapsto> ''2e'')) [row] (\<lambda>r. ?one r \<and> rn_waveform_sessions r = Map.empty) s'"
      using r c \<open>rn_waveform_sessions r = Map.empty\<close>
      by (auto simp: run_there_def run_at_def run_rows_def other_rows_def released_def fun_eq_iff)
    then show "case create_run live_example ''2e'' one_board None s of (Inl e, s') \<Rightarrow> False
        | (Inr x, s') \<Rightarrow> after_upload (\<lambda>r. ?one r \<and> rn_waveform_sessions r = Map.empty) s'"
      using c by (auto simp: after_upload_def)
  qed
  show ?thesis
    by (simp add: interrupted_gateway_def, rule triple_pthen [OF aborted triple_pthen [OF created]]) (simp add: triple_def)
qed

lemma record_done:
  "triple (run_there act rest (\<lambda>r. of_request one_board r \<and> rn_waveform_sessions r = Map.empty))
     (record_waveform_session interrupted_gateway ''1f'' ''a'' \<lparr>up_commit = Some (Some 7, Some 9), up_log_lines = []\<rparr>)
     (\<lambda>_. run_there act rest (of_request one_board)) (\<lambda>_ _. False)"
proof -
  let ?P = "run_there act rest (\<lambda>r. of_request one_board r \<and> rn_waveform_sessions r = Map.empty)"
  have set: "triple ?P (with_store (rs_set_waveform_sessions ''1f'' f)) (\<lambda>_. run_there act rest (of_request one_board)) (\<lambda>_ _. False)" for f
    unfolding rs_set_waveform_sessions_def
    by (rule there [OF triple_weaken [OF change_run [of _ "\<lambda>r. of_request one_board r \<and> rn_waveform_sessions r = Map.empty" "of_request one_board"]] store_there])
      (auto simp: of_request_def elim: run_at_mono)
  have eq: "record_waveform_session interrupted_gateway ''1f'' ''a'' \<lparr>up_commit = Some (Some 7, Some 9), up_log_lines = []\<rparr> s =
      pbind (with_store (rs_set_waveform_sessions ''1f'' (Map.empty(''a'' \<mapsto> 7)))) (\<lambda>updated. pret updated) s" if at: "?P s" for s
  proof -
    obtain r where r: "run_rows ''1f'' (co_store s) = [r]" "of_request one_board r" "rn_waveform_sessions r = Map.empty"
      using at by (auto simp: run_there_def run_at_def)
    then have "require_run ''1f'' s = (Inr r, s)" using find_run_rows [OF r(1)] by (simp add: require_run_Inr of_request_def)
    then show ?thesis
      using r(3)
      by (simp add: record_waveform_session_def upload_identity_def guard_raise_def interrupted_gateway_def live_example_def
          pbind_def pthen_def split: prod.split sum.split)
  qed
  have "triple ?P (pbind (with_store (rs_set_waveform_sessions ''1f'' (Map.empty(''a'' \<mapsto> 7)))) (\<lambda>updated. pret updated))
      (\<lambda>_. run_there act rest (of_request one_board)) (\<lambda>_ _. False)"
    by (rule triple_pbind [OF set]) (simp add: triple_def)
  then show ?thesis unfolding triple_def using eq by simp
qed

lemma before_step:
  assumes "triple (run_at ''1f'' (Map.empty(''a'' \<mapsto> ''1f'')) [] (of_request one_board)) m
      (\<lambda>_. run_at ''1f'' (Map.empty(''a'' \<mapsto> ''1f'')) [] (of_request one_board)) (\<lambda>_ _. False)"
    "keeps board_there m" "keeps no_session m"
  shows "triple before_upload m (\<lambda>_. before_upload) (\<lambda>_ _. False)"
  unfolding before_upload_def run_there_def
  by (rule triple_weaken [OF triple_and [OF triple_and [OF assms(1,2)] assms(3)]]) simp_all

lemma before_steps:
  "0 \<le> p \<Longrightarrow> p \<le> 1 \<Longrightarrow> triple before_upload (co_update ''1f'' st p e) (\<lambda>_. before_upload) (\<lambda>_ _. False)"
  "level \<in> {''info'', ''warning'', ''error''} \<Longrightarrow> triple before_upload (co_event ''1f'' message level) (\<lambda>_. before_upload) (\<lambda>_ _. False)"
  "triple before_upload (publish_run r) (\<lambda>_. before_upload) (\<lambda>_ _. False)"
  "triple before_upload (with_boards (sim_profile ''a'')) (\<lambda>_. before_upload) (\<lambda>_ _. False)"
proof -
  show "triple before_upload (co_update ''1f'' st p e) (\<lambda>_. before_upload) (\<lambda>_ _. False)" if "0 \<le> p" "p \<le> 1"
  proof (rule before_step)
    show "triple (run_at ''1f'' (Map.empty(''a'' \<mapsto> ''1f'')) [] (of_request one_board)) (co_update ''1f'' st p e)
      (\<lambda>_. run_at ''1f'' (Map.empty(''a'' \<mapsto> ''1f'')) [] (of_request one_board)) (\<lambda>_ _. False)"
      by (rule triple_weaken [OF board_services.set_state_done [OF live_example_services that]]) (auto elim: run_at_mono)
  qed (unfold co_update_def, rule store_there, fold co_update_def, rule no_session_update)
  show "triple before_upload (co_event ''1f'' message level) (\<lambda>_. before_upload) (\<lambda>_ _. False)" if "level \<in> {''info'', ''warning'', ''error''}"
    by (rule before_step [OF event_done [OF that] event_there(1) no_session_event(1)])
  show "triple before_upload (publish_run r) (\<lambda>_. before_upload) (\<lambda>_ _. False)"
    unfolding publish_run_def by (rule before_step [OF publish_done event_there(2) no_session_event(2)])
  show "triple before_upload (with_boards (sim_profile ''a'')) (\<lambda>_. before_upload) (\<lambda>_ _. False)"
    unfolding before_upload_def
    by (rule triple_weaken [OF triple_and [OF profile_call no_session_quiet [OF quiet_with_boards]]]) simp_all
qed

lemma after_steps:
  "triple (after_upload (of_request one_board)) (with_boards (sim_mark_state ''a'' st)) (\<lambda>_. after_upload (of_request one_board)) (\<lambda>_ _. False)"
  "triple (after_upload (of_request one_board)) (with_boards (pbind (sim_refresh ''a'') (\<lambda>st. pret (bs_online st))))
     (\<lambda>x s. x \<and> after_upload (of_request one_board) s) (\<lambda>_ _. False)"
  "triple (after_upload (\<lambda>r. of_request one_board r \<and> rn_waveform_sessions r = Map.empty))
     (record_waveform_session interrupted_gateway ''1f'' ''a'' \<lparr>up_commit = Some (Some 7, Some 9), up_log_lines = []\<rparr>)
     (\<lambda>_. after_upload (of_request one_board)) (\<lambda>_ _. False)"
  "level \<in> {''info'', ''warning'', ''error''} \<Longrightarrow>
     triple (after_upload (of_request one_board)) (co_event ''1f'' message level) (\<lambda>_. after_upload (of_request one_board)) (\<lambda>_ _. False)"
  by (rule triple_weaken [OF after_upload_step [where Q = "\<lambda>_. True"]], simp_all add: mark_call)
    (rule triple_weaken [OF after_upload_step [where Q = "\<lambda>x. x"]], simp_all add: refresh_call,
     rule triple_weaken [OF after_upload_step [where Q = "\<lambda>_. True"]], simp_all add: record_done,
     rule triple_weaken [OF after_upload_step [where Q = "\<lambda>_. True"]], simp_all add: there [OF event_done event_there(1)])

lemma one_board_simps:
  "rq_dry_run one_board = False" "rq_execution_mode one_board = ''single''" "rq_completion_mode one_board = ''upload''"
  "rq_board_ids one_board = [''a'']"
  "rq_jobs one_board = [\<lparr>jb_board_id = ''a'', jb_waveform = example_waveform, jb_override = None, jb_rfdc_config = None\<rparr>]"
  by (simp_all add: example_request_def rq_board_ids_def)

lemma interrupted_calls:
  "gw_profile interrupted_gateway = (\<lambda>b. with_boards (sim_profile b))" "gw_config interrupted_gateway = (\<lambda>_. plift (Inr ()))"
  "gw_mark_state interrupted_gateway = (\<lambda>b st. with_boards (sim_mark_state b st))" "gw_simulation interrupted_gateway = False"
  "gw_refresh_online interrupted_gateway = (\<lambda>b. with_boards (pbind (sim_refresh b) (\<lambda>st. pret (bs_online st))))"
  by (simp_all add: interrupted_gateway_def live_example_def example_gateway_def sim_gateway_def)

lemma interrupted_job:
  "triple before_upload (execute_job interrupted_gateway ''1f'' one_board
      (1, \<lparr>jb_board_id = ''a'', jb_waveform = example_waveform, jb_override = None, jb_rfdc_config = None\<rparr>))
    (\<lambda>_. after_upload (of_request one_board)) (\<lambda>_ _. False)"
proof -
  have skip: "triple I (pret x) (\<lambda>_. I) (\<lambda>_ _. False)" for I :: "sim_coord \<Rightarrow> bool" and x :: 'b by (simp add: triple_def)
  have lift: "triple I (plift (Inr x)) (\<lambda>_. I) (\<lambda>_ _. False)" for I :: "sim_coord \<Rightarrow> bool" and x :: 'b by (simp add: triple_def)
  let ?recorded = "record_waveform_session interrupted_gateway ''1f'' ''a''"
  have tail: "triple (after_upload (of_request one_board))
      (pthen (with_boards (sim_mark_state ''a'' Board_READY))
        (pbind (with_boards (pbind (sim_refresh ''a'') (\<lambda>st. pret (bs_online st)))) (\<lambda>online. praise_if (\<not> online) RuntimeError)))
      (\<lambda>_. after_upload (of_request one_board)) (\<lambda>_ _. False)"
    by (rule triple_pthen [OF after_steps(1) triple_pbind [OF after_steps(2)]]) (auto simp: triple_def praise_if_def)
  have outcome: "triple (\<lambda>s. outcome = \<lparr>up_commit = Some (Some 7, Some 9), up_log_lines = []\<rparr> \<and>
        after_upload (\<lambda>r. of_request one_board r \<and> rn_waveform_sessions r = Map.empty) s)
      (pthen (pbind (?recorded outcome) (\<lambda>_. pret ()))
        (pthen (pfor (last_lines 5 (up_log_lines outcome)) (\<lambda>line. co_event ''1f'' (''a'' @ '': '' @ line) ''info''))
          (pthen (with_boards (sim_mark_state ''a'' Board_READY))
            (pbind (with_boards (pbind (sim_refresh ''a'') (\<lambda>st. pret (bs_online st)))) (\<lambda>online. praise_if (\<not> online) RuntimeError)))))
      (\<lambda>_. after_upload (of_request one_board)) (\<lambda>_ _. False)" for outcome
  proof (rule triple_at, hypsubst, rule triple_pthen [OF triple_pbind [OF after_steps(3) skip]])
    show "triple (after_upload (of_request one_board))
      (pthen (pfor (last_lines 5 (up_log_lines \<lparr>up_commit = Some (Some 7, Some 9), up_log_lines = []\<rparr>)) (\<lambda>line. co_event ''1f'' (''a'' @ '': '' @ line) ''info''))
        (pthen (with_boards (sim_mark_state ''a'' Board_READY))
          (pbind (with_boards (pbind (sim_refresh ''a'') (\<lambda>st. pret (bs_online st)))) (\<lambda>online. praise_if (\<not> online) RuntimeError))))
      (\<lambda>_. after_upload (of_request one_board)) (\<lambda>_ _. False)"
      unfolding upload_outcome.select_convs last_lines_def drop_Nil pfor.simps by (rule triple_pthen [OF skip tail])
  qed
  show ?thesis
    unfolding execute_job_def Let_def prod.case one_board_simps interrupted_calls board_job.select_convs if_True if_False not_False_eq_True
    by (rule triple_pbind [OF before_steps(4)], rule triple_pthen [OF lift], rule triple_pthen, rule triple_pbind [OF before_steps(1)], simp, simp,
        rule triple_pthen [OF before_steps(2)], simp, rule before_steps(3), rule triple_pbind [OF upload_interrupted outcome])
qed

lemma interrupted_run:
  "triple before_upload (execute interrupted_gateway ''1f'')
     (\<lambda>_. after_upload (\<lambda>r. of_request one_board r \<and> rn_state r = Run_DONE \<and> rn_loaded r)) (\<lambda>_ _. False)"
proof -
  let ?post = "after_upload (\<lambda>r. of_request one_board r \<and> rn_state r = Run_DONE \<and> rn_loaded r)"
  have skip: "triple I (pret x) (\<lambda>_. I) (\<lambda>_ _. False)" for I :: "sim_coord \<Rightarrow> bool" and x :: 'b by (simp add: triple_def)
  have request: "triple before_upload (with_store (rs_get_request ''1f'')) (\<lambda>x s. x = one_board \<and> before_upload s) (\<lambda>_ _. False)"
  proof -
    have "keeps no_session (with_store (rs_get_request ''1f''))"
      by (rule no_session_same) (auto simp: with_store_def rs_get_request_def prog_defs split: option.splits)
    from triple_and [OF triple_and [OF board_services.get_request_done [OF live_example_services example_request_valid(2)] store_there] this]
    show ?thesis unfolding before_upload_def run_there_def by (rule triple_weaken) simp_all
  qed
  have finish: "triple (after_upload (of_request one_board)) (finish_run ''1f'' (with_store (rs_complete_loaded ''1f'' Run_DONE))) (\<lambda>_. ?post) (\<lambda>_ _. False)"
  proof -
    have free: "released ''1f'' (Map.empty(''a'' \<mapsto> ''2e'')) = Map.empty(''a'' \<mapsto> ''2e'')" by (auto simp: released_def fun_eq_iff)
    have fin: "triple (run_at ''1f'' (Map.empty(''a'' \<mapsto> ''2e'')) [row] (of_request one_board))
        (finish_run ''1f'' (with_store (rs_complete_loaded ''1f'' Run_DONE)))
        (\<lambda>_. run_at ''1f'' (Map.empty(''a'' \<mapsto> ''2e'')) [row] (\<lambda>r. of_request one_board r \<and> rn_state r = Run_DONE \<and> rn_loaded r)) (\<lambda>_ _. False)" for row
      unfolding rs_complete_loaded_def
      by (rule triple_weaken [OF finish_done [of _ one_board Run_DONE rn_loaded]]) (auto simp: of_request_def finished_def free)
    have "keeps board_there (finish_run ''1f'' (with_store (rs_complete_loaded ''1f'' Run_DONE)))"
      unfolding finish_run_def publish_run_def release_group_def
      by (intro keeps_rules store_there event_there) (simp add: board_there_def)
    note each = there [OF fin this]
    have "triple (after_upload (of_request one_board)) (finish_run ''1f'' (with_store (rs_complete_loaded ''1f'' Run_DONE)))
        (\<lambda>_ s. True \<and> ?post s) (\<lambda>_ _. False)"
      by (rule after_upload_step) (simp only: simp_thms, rule each)
    then show ?thesis by simp
  qed
  have body: "triple before_upload (execute_body interrupted_gateway ''1f'') (\<lambda>_. ?post) (\<lambda>_ _. False)"
    unfolding execute_body_def
  proof (rule triple_pbind [OF request], rule triple_at, hypsubst, rule triple_pbind [OF before_steps(1)], (simp; fail), (simp; fail),
      rule triple_pthen [OF before_steps(2)], (simp; fail), rule triple_pthen [OF before_steps(3)])
    have rfdc: "apply_job_rfdc interrupted_gateway \<lparr>jb_board_id = ''a'', jb_waveform = example_waveform, jb_override = None, jb_rfdc_config = None\<rparr> = pret ()"
      by (simp add: apply_job_rfdc_def)
    have differ: "(''single'' = ''synchronized'') = False" "(''upload'' = ''one_shot'') = False" by simp_all
    show "triple before_upload
      (pthen (if rq_execution_mode one_board = ''synchronized'' then synchronise interrupted_gateway ''1f'' one_board else pret ())
        (pthen (pfor (rq_jobs one_board) (apply_job_rfdc interrupted_gateway))
          (pthen (pfor (List.enumerate 1 (rq_jobs one_board)) (execute_job interrupted_gateway ''1f'' one_board))
            (if rq_dry_run one_board then
               pthen (co_event ''1f'' ''waveform generation validation completed; no data was sent to the board'' ''info'')
                 (finish_run ''1f'' (with_store (rs_complete_unloaded ''1f'')))
             else
               pthen (co_event ''1f'' (if rq_execution_mode one_board = ''single'' then ''single board waveform upload completed''
                                       else ''synchronized waveform upload completed'') ''info'')
                 (if rq_completion_mode one_board = ''one_shot'' then one_shot interrupted_gateway ''1f'' one_board
                  else finish_run ''1f'' (with_store (rs_complete_loaded ''1f'' Run_DONE)))))))
      (\<lambda>_. ?post) (\<lambda>_ _. False)"
      unfolding one_board_simps enumerate_simps pfor.simps rfdc differ if_False if_True simp_thms
      by (rule triple_pthen [OF skip], rule triple_pthen [OF triple_pthen [OF skip skip]],
          rule triple_pthen [OF triple_pthen [OF interrupted_job skip]], rule triple_pthen [OF after_steps(4) finish], simp)
  qed
  show ?thesis unfolding execute_def by (rule triple_pcatch [OF body]) (simp add: triple_def)
qed


end
