(* ===== verification/Spec2Isabelle.thy ===== *)
theory Spec2Isabelle
  imports Simulator Device_Upload Host_Status Host_Waves Tdc Provision Programming Run_Races
begin

text \<open>
  A verification development for the host software of the XCZU47DR direct-RF board
  (\<open>src/software\<close>): the Python driver package \<open>dr47\<close>, its simulator, the protocol half of
  the standalone tool \<open>host.py\<close>, and the database and the runs of the web application \<open>webapp\<close>.

  The program. The board is driven over UDP. \<open>dr47/protocol.py\<close> packs the RFCTRL2 control
  requests and the WAVECTR0 waveform requests and parses the responses; \<open>dr47/transport.py\<close> sends
  a request, waits for the matching response and repeats it after a timeout; \<open>dr47/device.py\<close>
  is the session object with the handshake, the cached status, the RFDC configuration, the registers
  and the waveform upload; \<open>dr47/waveforms.py\<close> turns samples into the interleaved DDR image;
  \<open>dr47/simulator.py\<close> replaces the board by a state machine with the same methods; and
  \<open>host.py\<close> is an older tool with its own copies of the protocol and its own generators.
  The web application shares boards among users: \<open>webapp/management.py\<close> keeps users, sessions, the
  inventory of boards, leases, serial logs, artifacts and programming jobs in SQLite;
  \<open>webapp/network.py\<close> derives the addresses of a board from the NIC it is found on; a run, the
  upload and playback of waveforms on one or two boards, is a row of \<open>webapp/store.py\<close>, executed by a worker
  thread of \<open>webapp/controller.py\<close> and controlled by the routes of \<open>webapp/main.py\<close>.

  The theories, in the order of their imports:
  \<^item> \<open>Prelude\<close>: exceptions as values (\<open>errors.py\<close>), the result type \<open>pyerror + 'a\<close> with
    \<open>ebind\<close>, \<open>guard_raise\<close>, \<open>efold\<close> and \<open>emap\<close>, masks and shifts of Python integers, slices, padding.
  \<^item> \<open>Py_Struct\<close>: \<open>struct.pack\<close> and \<open>struct.unpack\<close> on lists of fields, with the locale
    \<open>byte_codec\<close> interpreted for the little-endian integers, and \<open>zlib.crc32\<close>.
  \<^item> \<open>Envelope\<close>: the packet envelope both protocols share; the locale \<open>wire_protocol\<close> is the
    contract of a function that frames a request, interpreted for RFCTRL2 and WAVECTR0.
  \<^item> \<open>Wave_Protocol\<close>, \<open>Rf_Protocol\<close>, \<open>Rf_Network\<close>, \<open>Rf_Config\<close>: \<open>protocol.py\<close>, one theory per
    message family, with the address texts (\<open>inet_aton\<close>, \<open>int(_, 16)\<close>) in \<open>Rf_Network\<close>.
  \<^item> \<open>Py_Float\<close>: binary64 as exact rationals with rounding to nearest even; what \<open>float\<close>, \<open>round\<close>,
    \<open>int\<close>, \<open>%\<close> and the comparisons do, with error bounds.
  \<^item> \<open>Transport\<close>: the request loop over a network given as a list of events. A loop that
    waits for a datagram consumes one event per round, so it ends with the list.
  \<^item> \<open>Simulator\<close>: the waveform state machine as transitions of a record; reachability is an
    inductive relation over all operations.
  \<^item> \<open>Prog\<close>: a state and exception monad with triples and preserved invariants, used by the device
    theories; a raise keeps the state reached so far, as Python does.
  \<^item> \<open>Waveforms\<close>: \<open>waveforms.py\<close>; \<open>Device\<close>, \<open>Device_Rfdc\<close>, \<open>Device_Upload\<close>: \<open>device.py\<close> and
    \<open>capabilities.py\<close>. A method is a program on the device record, which contains the transport.
  \<^item> \<open>Ip_Address\<close>: the strict IPv4 texts of Python's \<open>ipaddress\<close>.
  \<^item> \<open>Tdc\<close>: \<open>tdc.py\<close>, the calibration of the event compensation, over any board object; its runs are
    logged, and a lemma shows that logging changes nothing else.
  \<^item> \<open>Provision\<close>: \<open>network.py\<close>, discovery by broadcast and the provisioning of one board; every new
    device object gets its socket, its clock and its creation time as a parameter.
  \<^item> \<open>Host_Control\<close>, \<open>Host_Status\<close>, \<open>Host_Waves\<close>: \<open>host.py\<close>, with the prefix \<open>host_\<close> on
    the names it shares with the driver.
  \<^item> \<open>Web_Network\<close>: \<open>webapp/network.py\<close>; what the operating system reports is a record \<open>host_env\<close>.
  \<^item> \<open>Mgmt_Tables\<close>, \<open>Mgmt_Users\<close>, \<open>Mgmt_Boards\<close>, \<open>Mgmt_Jobs\<close>: \<open>webapp/management.py\<close>. A table is
    the list of its rows, a method a program on the record of the tables, a transaction that raises
    leaves them as they were, and the constraints of the schema are tests that raise.
  \<^item> \<open>Mgmt_Invariant\<close>: the schema as an invariant of every method, and the reachable states.
    \<open>Mgmt_Leases\<close>: the locale \<open>lock_manager\<close>, interpreted for leasing and releasing boards.
    \<open>Mgmt_Theorems\<close>: what the methods promise.
  \<^item> \<open>Run_Store\<close>: \<open>webapp/store.py\<close> and the requests of runs with their validators.
    \<open>Run_Coordinator\<close>: \<open>RunCoordinator\<close> of \<open>webapp/controller.py\<close>; the boards, the generators and the RFDC
    service are a record of programs on the whole state, \<open>gateway\<close>, so a call may contain what other threads
    do meanwhile. \<open>Board_Gateway\<close>: the boards in the simulation mode, as such a record.
  \<^item> \<open>Run_Worker\<close>: the locale \<open>board_services\<close>, boards that leave the coordinator alone, interpreted for
    the simulated boards, and how every run ends. \<open>Run_Owners\<close>: the reachable states of the coordinator.
    \<open>Run_Races\<close>: an abort during the upload. \<open>Web_Runs\<close>: the routes that create and control runs;
    \<open>Run_Leases\<close>: the leases they ask for. \<open>Run_Theorems\<close>: restart, sessions, replay.
  \<^item> \<open>Rfdc_Service\<close>: \<open>webapp/rfdc.py\<close>, the stored RFDC configuration of a board, its calibrations, and
    its application to the hardware; the calls of the boards are again a record of programs.
  \<^item> \<open>Hardware_Services\<close>: \<open>webapp/hardware_services.py\<close>, the readers of the serial ports, the scan of the
    inventory and the programming of boards, with the reachable states of the readers. \<open>Programming\<close>: what the
    programming service promises.

  What is shown. Codecs: what is packed is parsed back, and what a parser accepts is the serialization
  of its result (the wave protocol, RFCTRL2, the NETWORK identity, RFDC read-back, addresses, DDR and
  bulk datagrams). Bounds: no accepted request exceeds the hardware's ranges, for every float argument
  (RFDC_APPLY, gains, NCO plans, BEGIN and DATA). Transport: a request sends only copies of its packet,
  returns only a matching response of the board, and survives as many losses as it has attempts.
  Simulator: playback is reached only with the complete image that was announced. Device: connecting
  ends in a matching board or an exception and a disconnected object; a TDC write is never repeated;
  RFDC_APPLY is repeated only after a confirmed IDLE; the counters are never zero. Calibration: the
  float64 code-density table is valid and accurate, a table is committed only after it was read back, an
  acquisition is always stopped. Provisioning: a discovery returns one board per identity, and a board
  is reported as provisioned only after it answered at its new address with the UID and the MAC that
  were asked for; which MAC texts can pass that check is characterised. Standalone tool: its
  RFCTRL2 implementation agrees with the driver's, apart from IPv4 texts with leading zeros; the
  max-length generator terminates and covers its record. Web application: the schema holds in every
  reachable state; a lease is an exclusive lock that only its owner or a force ends; a disabled user
  has no session and no login; a discovered device has one enabled row; an address given to a board is
  free; a board has at most one programming job in flight; a serial log is a window of what was
  received. Runs: whatever the boards do, a run that was accepted ends, and gives its boards back; a board is
  owned by an unfinished run only; a restart leaves no run unfinished; the session of an upload is stored
  and used; a live run needs the lease of every board. RFDC service: a configuration does not stay pending,
  is refused to a board in use, and reads back as it was applied; the default one is in range and on target.
  Hardware services: a board has one serial reader as long as calls do not overlap; a programming job is accepted
  for an idle board only and ends, in success only after the board answered. Several faults of the web application are theorems as well.

  Bounds and fuel. Integers are unbounded where Python's are; a field has its wire width and
  \<open>struct.pack\<close> raises outside it. Loops run over lists or have a measure; the request loop's
  fuel is the number of attempts, the idle wait's the list of polling times, the parts of an IPv4 text
  are at most four. The chunk loop of the max-length generator has the number of remaining beats as
  its measure.

  Assumptions. Text is ASCII. The progress of a run is an exact rational. The JSON text of a request is
  read back as the request; the validators run again when it is read. Integer arguments are integers where the code converts with \<open>int\<close>;
  values that may be of another type are \<open>pyval\<close> or \<open>pynum\<close>. The clock enters as the list of times a
  loop reads. \<open>np.sin\<close> is a parameter of the sine record.

  Not modelled. Messages of exceptions and logging; the sockets, files and processes themselves; plots,
  command lines and examples; the sine and Gaussian generators; the RFDC mirror of the simulator;
  the \<open>ip\<close> commands of \<open>prepare_interface\<close>, the socket methods of the standalone tool; of the web
  application the routes other than those of runs, HTTP codes, the live mode of the board gateway, interleavings
  finer than the calls of the gateway, the measurement service, the waveform
  designer and most request models;
  the migration of a database with the columns of an older release; the measurement reports.
\<close>

end
